(* ===== verification/Prelude.thy ===== *)
theory Prelude
  imports Main "HOL-Library.Word" "HOL-Library.Monad_Syntax"
begin

unbundle bit_operations_syntax

text \<open>
  Shared vocabulary of the development: the machine integers of the 32-bit ARM target
  (\<open>unsigned char\<close>, \<open>unsigned short\<close>, \<open>unsigned int/long\<close>), the failure monad
  in which every C routine that can abort, block for ever or run outside a buffer is written
  (\<open>None\<close> is that failure), little-endian byte splitting, and generic facts on lists.
\<close>

type_synonym byte = "8 word"
type_synonym ushort = "16 word"
type_synonym ulong = "32 word"

named_theorems sem \<open>defining equations of the modelled C routines\<close>
named_theorems frame_rules \<open>what a routine leaves unchanged\<close>

subsection \<open>The failure monad\<close>

text \<open>
  \<open>None\<close> stands for a failed \<open>assert\<close>, a write outside an array or a lock that never
  becomes free: in each case the calling code does not go on.
\<close>

definition guard_ok :: "bool \<Rightarrow> unit option" where
  "guard_ok b = (if b then Some () else None)"

lemma guard_ok_simps [simp]:
  "guard_ok True = Some ()" "guard_ok False = None"
  by (simp_all add: guard_ok_def)

lemma guard_ok_Some [simp]: "guard_ok b = Some u \<longleftrightarrow> b"
  by (simp add: guard_ok_def)

lemma bind_SomeE:
  assumes "Option.bind m f = Some r"
  obtains x where "m = Some x" "f x = Some r"
  using assms by (auto simp: Option.bind_eq_Some_conv)

subsection \<open>Bytes\<close>

definition lobyte16 :: "ushort \<Rightarrow> byte" where
  "lobyte16 w = ucast w"

definition hibyte16 :: "ushort \<Rightarrow> byte" where
  "hibyte16 w = ucast (drop_bit 8 w)"

definition le16 :: "byte \<Rightarrow> byte \<Rightarrow> ushort" where
  "le16 lo hi = ucast lo + push_bit 8 (ucast hi)"

definition bytes32 :: "ulong \<Rightarrow> byte list" where
  "bytes32 w = [ucast w, ucast (drop_bit 8 w), ucast (drop_bit 16 w), ucast (drop_bit 24 w)]"

definition le32 :: "byte \<Rightarrow> byte \<Rightarrow> byte \<Rightarrow> byte \<Rightarrow> ulong" where
  "le32 a b c d = ucast a OR push_bit 8 (ucast b) OR push_bit 16 (ucast c) OR push_bit 24 (ucast d)"

lemma unat_byte_less [simp]: "unat (b::byte) < 256"
  using unsigned_less [of b, where ?'a = nat] by simp

lemma le16_or: "le16 lo hi = ucast lo OR push_bit 8 (ucast hi)"
  unfolding le16_def
  by (rule disjunctive_add) (auto simp: bit_simps simp del: push_bit_numeral dest: bit_imp_le_length)

lemma le16_bytes [simp]: "le16 (lobyte16 w) (hibyte16 w) = w"
  unfolding le16_or lobyte16_def hibyte16_def
  by (rule bit_word_eqI) (auto simp: bit_simps)

lemma bit_byte: "bit (b::byte) n \<Longrightarrow> n < 8"
  using bit_imp_le_length [of b n] by simp

lemma bit_byte_ge [simp]: "8 \<le> n \<Longrightarrow> \<not> bit (b::byte) n"
  using bit_byte [of b n] by auto

lemma lobyte16_le16 [simp]: "lobyte16 (le16 lo hi) = lo"
  unfolding le16_or lobyte16_def
  by (rule bit_word_eqI) (auto simp: bit_simps)

lemma hibyte16_le16 [simp]: "hibyte16 (le16 lo hi) = hi"
  unfolding le16_or hibyte16_def
  by (rule bit_word_eqI) (auto simp: bit_simps )

lemma le32_bytes32 [simp]:
  "le32 (ucast w) (ucast (drop_bit 8 w)) (ucast (drop_bit 16 w)) (ucast (drop_bit 24 w)) = w"
proof (rule bit_word_eqI)
  fix n assume "n < LENGTH(32)"
  then have "n < 8 \<or> 8 \<le> n \<and> n < 16 \<or> 16 \<le> n \<and> n < 24 \<or> 24 \<le> n \<and> n < 32" by auto
  then show "bit (le32 (ucast w) (ucast (drop_bit 8 w)) (ucast (drop_bit 16 w))
      (ucast (drop_bit 24 w))) n = bit w n"
    unfolding le32_def by (auto simp: bit_simps)
qed

lemma bytes32_le32: "bytes32 (le32 a b c d) = [a,b,c,d]"
  unfolding le32_def bytes32_def
  by (auto intro!: bit_word_eqI simp: bit_simps )

lemma length_bytes32 [simp]: "length (bytes32 w) = 4"
  by (simp add: bytes32_def)

lemma unat_ucast_mod: "unat (ucast (w::'a::len word) :: 'b::len word) = unat w mod 2 ^ LENGTH('b)"
  by (simp add: unsigned_ucast_eq take_bit_eq_mod)

lemma unat_lobyte16: "unat (lobyte16 w) = unat w mod 256"
  by (simp add: lobyte16_def unat_ucast_mod)

lemma unat_hibyte16: "unat (hibyte16 w) = unat w div 256"
proof -
  have "unat w < 65536" using unsigned_less [of w, where ?'a = nat] by simp
  then have "unat w div 256 < 256" by simp
  then show ?thesis by (simp only: hibyte16_def unat_ucast_mod unat_drop_bit_eq) (simp add: drop_bit_eq_div)
qed
lemma unat_le16: "unat (le16 lo hi) = unat lo + 256 * unat hi"
proof -
  have "unat (le16 lo hi) = unat (lobyte16 (le16 lo hi)) + 256 * unat (hibyte16 (le16 lo hi))"
    by (simp only: unat_lobyte16 unat_hibyte16 mod_mult_div_eq)
  then show ?thesis by simp
qed
lemma not_le16: "NOT (le16 lo hi) = le16 (NOT lo) (NOT hi)"
  unfolding le16_or
  by (rule bit_word_eqI) (auto simp: bit_simps )

lemma xor_cancel [simp]: "x XOR k = y XOR k \<longleftrightarrow> x = y" for x y k :: "'a::len word"
proof
  assume "x XOR k = y XOR k"
  then have "(x XOR k) XOR k = (y XOR k) XOR k" by simp
  then show "x = y" by (simp only: xor.assoc xor_self_eq xor.right_neutral)
qed simp


subsection \<open>Lists\<close>

lemma length_4: "length xs = 4 \<Longrightarrow> \<exists>a b c d. xs = [a, b, c, d]"
  by (auto simp: numeral_eq_Suc length_Suc_conv)

lemma take_Suc_nth: "n < length xs \<Longrightarrow> take (Suc n) xs = take n xs @ [xs ! n]"
  by (rule take_Suc_conv_app_nth)

lemma take_update_same: "n < length xs \<Longrightarrow> take (Suc n) (xs[n := x]) = take n xs @ [x]"
  by (simp add: take_Suc_nth)

lemma mod_Suc_eq_if: "i < n \<Longrightarrow> (i + 1) mod n = (if Suc i = n then 0 else Suc i)" for i n :: nat
  by auto

lemma mod_wrap: "i < n \<Longrightarrow> j \<le> n \<Longrightarrow> (i + j) mod n = (if i + j < n then i + j else i + j - n)"
  for i j n :: nat
  by (simp add: mod_if)

end
