(* ===== verification/Proto_Engine.thy ===== *)
theory Proto_Engine
  imports Prelude
begin

text \<open>
  The table-driven protocol engine of \<open>src/src/framework/telesup/dmodem/ptsm.c\<close>.

  A protocol is a list of transitions (state, event, next state, handler); the engine polls for
  an event, looks the transition up, runs its handler and either leaves (the next state is the
  final one) or goes on with the event the handler returned. The state the handlers share (the
  \<open>dmodemController\<close> slot of the C code, its timers and its line) is the type variable \<open>'s\<close>;
  a handler that aborts or blocks for ever is \<open>None\<close>.

  The loop \<open>while (1)\<close> of \<open>proto_engine\<close> need not end, so it takes fuel: \<open>proto_run\<close> makes
  at most that many turns and says whether the engine returned, crashed or is still running.
  The locale \<open>proto_machine\<close> is the interface a protocol offers to get its invariants for every
  run of the engine; \<open>proto_halts\<close> adds what is needed to know that it stops, and \<open>proto_live\<close>
  that it does so by returning.
\<close>

type_synonym 's handler = "'s \<Rightarrow> ('s \<times> int) option"

datatype 's ProtoTransition =
  ProtoTransition (current_state: int) (event: int) (next_state: int) (fhandler: "'s handler")

subsection \<open>Looking a transition up\<close>

fun dm_get_next_state :: "'s ProtoTransition list \<Rightarrow> int \<Rightarrow> int \<Rightarrow> int" where
  "dm_get_next_state [] st ev = -1"
| "dm_get_next_state (p # ps) st ev =
     (if current_state p = st \<and> event p = ev then next_state p else dm_get_next_state ps st ev)"

fun dm_get_fhandler :: "'s ProtoTransition list \<Rightarrow> int \<Rightarrow> int \<Rightarrow> 's handler option" where
  "dm_get_fhandler [] st ev = None"
| "dm_get_fhandler (p # ps) st ev =
     (if current_state p = st \<and> event p = ev then Some (fhandler p) else dm_get_fhandler ps st ev)"

text \<open>Both scans stop at the same row: the pair of results is the first matching row.\<close>

fun first_row :: "'s ProtoTransition list \<Rightarrow> int \<Rightarrow> int \<Rightarrow> (int \<times> 's handler) option" where
  "first_row [] st ev = None"
| "first_row (p # ps) st ev =
     (if current_state p = st \<and> event p = ev then Some (next_state p, fhandler p)
      else first_row ps st ev)"

lemma dm_get_fhandler_row: "dm_get_fhandler sm st ev = map_option snd (first_row sm st ev)"
  by (induction sm) auto

lemma dm_get_next_state_row:
  "dm_get_next_state sm st ev = (case first_row sm st ev of None \<Rightarrow> -1 | Some r \<Rightarrow> fst r)"
  by (induction sm) auto

lemma first_row_mem:
  "first_row sm st ev = Some (nx, f) \<Longrightarrow> ProtoTransition st ev nx f \<in> set sm"
proof (induction sm)
  case Nil
  then show ?case by simp
next
  case (Cons p ps)
  then show ?case by (cases p) (auto split: if_splits)
qed

definition states_valid :: "'s ProtoTransition list \<Rightarrow> bool" where
  "states_valid sm = list_all (\<lambda>p. next_state p \<noteq> -1) sm"

lemma states_validD: "states_valid sm \<Longrightarrow> first_row sm st ev = Some (nx, f) \<Longrightarrow> nx \<noteq> -1"
  by (auto dest!: first_row_mem simp: states_valid_def list_all_iff)

subsection \<open>One turn of the loop\<close>

text \<open>The locals of \<open>proto_engine\<close> that live across turns, and the shared state.\<close>

type_synonym 's engine_cfg = "int \<times> int \<times> 's"

datatype 's engine_result = Returned 's | Crashed | Running "'s engine_cfg"

definition dispatch ::
  "'s ProtoTransition list \<Rightarrow> int \<Rightarrow> int \<Rightarrow> int \<Rightarrow> int \<Rightarrow> 's \<Rightarrow> 's engine_result" where
  "dispatch sm no_event final_state st ev s =
     (if ev \<noteq> no_event then
        (let fh = dm_get_fhandler sm st ev; nx = dm_get_next_state sm st ev in
         case fh of
           Some f \<Rightarrow>
             (if nx \<noteq> -1 then
                (case f s of
                   None \<Rightarrow> Crashed
                 | Some (s', new_event) \<Rightarrow>
                     if nx = final_state then Returned s' else Running (nx, new_event, s'))
              else Running (st, no_event, s))
         | None \<Rightarrow> Running (st, no_event, s))
      else Running (st, no_event, s))"

definition proto_turn ::
  "'s ProtoTransition list \<Rightarrow> 's handler \<Rightarrow> int \<Rightarrow> int \<Rightarrow> 's engine_cfg \<Rightarrow> 's engine_result" where
  "proto_turn sm wevent no_event final_state c =
     (case c of (st, new_event, s) \<Rightarrow>
        if new_event = no_event then
          (case wevent s of
             None \<Rightarrow> Crashed
           | Some (s', ev) \<Rightarrow> dispatch sm no_event final_state st ev s')
        else dispatch sm no_event final_state st new_event s)"

fun proto_run ::
  "'s ProtoTransition list \<Rightarrow> 's handler \<Rightarrow> int \<Rightarrow> int \<Rightarrow> nat \<Rightarrow> 's engine_cfg \<Rightarrow> 's engine_result" where
  "proto_run sm wevent no_event final_state 0 c = Running c"
| "proto_run sm wevent no_event final_state (Suc n) c =
     (case proto_turn sm wevent no_event final_state c of
        Running c' \<Rightarrow> proto_run sm wevent no_event final_state n c'
      | r \<Rightarrow> r)"

text \<open>
  The engine itself: it starts in \<open>init_state\<close> with no pending event and calls \<open>clean_f\<close>
  when it leaves; it always returns 1, so only the state is kept.
\<close>

definition proto_engine ::
  "'s ProtoTransition list \<Rightarrow> 's handler \<Rightarrow> ('s \<Rightarrow> 's option) \<Rightarrow> int \<Rightarrow> int \<Rightarrow> int \<Rightarrow> nat \<Rightarrow> 's
   \<Rightarrow> 's engine_result" where
  "proto_engine sm wevent clean_f no_event init_state final_state fuel s =
     (case proto_run sm wevent no_event final_state fuel (init_state, no_event, s) of
        Returned s' \<Rightarrow> (case clean_f s' of None \<Rightarrow> Crashed | Some s'' \<Rightarrow> Returned s'')
      | r \<Rightarrow> r)"

lemma proto_run_numeral [simp]:
  "proto_run sm wevent ne fin (numeral k) c =
     (case proto_turn sm wevent ne fin c of
        Running c' \<Rightarrow> proto_run sm wevent ne fin (pred_numeral k) c' | r \<Rightarrow> r)"
  by (simp add: numeral_eq_Suc)

subsection \<open>Runs compose, and fuel never changes an outcome\<close>

lemma proto_run_add:
  "proto_run sm w ne fin (m + n) c =
     (case proto_run sm w ne fin m c of Running c' \<Rightarrow> proto_run sm w ne fin n c' | r \<Rightarrow> r)"
  by (induction m arbitrary: c) (auto split: engine_result.splits)

lemma proto_run_more:
  assumes "proto_run sm w ne fin m c = r" "\<nexists>c'. r = Running c'" "m \<le> n"
  shows "proto_run sm w ne fin n c = r"
proof -
  from \<open>m \<le> n\<close> obtain k where "n = m + k" by (auto simp: le_iff_add)
  with assms show ?thesis by (cases r) (auto simp: proto_run_add)
qed

lemma proto_engine_unique:
  assumes "proto_engine sm w cl ne i fin m s = Returned a"
    and "proto_engine sm w cl ne i fin n s = Returned b"
  shows "a = b"
proof -
  have *: "proto_engine sm w cl ne i fin n s = Returned b"
    if "m \<le> n" "proto_engine sm w cl ne i fin m s = Returned b" for m n b
  proof -
    from that(2) obtain s' where r: "proto_run sm w ne fin m (i, ne, s) = Returned s'"
      by (auto simp: proto_engine_def split: engine_result.splits)
    from proto_run_more [OF r _ that(1)] r that(2) show ?thesis
      by (auto simp: proto_engine_def)
  qed
  show ?thesis
    using *[of m n a] *[of n m b] assms by (cases "m \<le> n") auto
qed

text \<open>What one turn does, as rewrite rules over the first matching row.\<close>

lemma dispatch_row:
  assumes "ev \<noteq> ne" "first_row sm st ev = Some (nx, f)" "nx \<noteq> -1"
  shows "dispatch sm ne fin st ev s =
    (case f s of None \<Rightarrow> Crashed
     | Some (s', ev') \<Rightarrow> if nx = fin then Returned s' else Running (nx, ev', s'))"
  using assms by (simp add: dispatch_def dm_get_fhandler_row dm_get_next_state_row)

lemma dispatch_none:
  assumes "first_row sm st ev = None"
  shows "dispatch sm ne fin st ev s = Running (st, ne, s)"
  using assms by (simp add: dispatch_def dm_get_fhandler_row)

lemma dispatch_no_event [simp]: "dispatch sm ne fin st ne s = Running (st, ne, s)"
  by (simp add: dispatch_def)

lemma proto_turn_pending:
  "ev \<noteq> ne \<Longrightarrow> proto_turn sm w ne fin (st, ev, s) = dispatch sm ne fin st ev s"
  by (simp add: proto_turn_def)

lemma proto_turn_wait:
  "proto_turn sm w ne fin (st, ne, s) =
     (case w s of None \<Rightarrow> Crashed | Some (s', ev) \<Rightarrow> dispatch sm ne fin st ev s')"
  by (simp add: proto_turn_def)

subsection \<open>The interface of a protocol\<close>

text \<open>
  A protocol whose table keeps \<open>I\<close> (indexed by the engine's state and pending event) from one
  turn to the next, and whose leaving handlers establish \<open>Q\<close>, satisfies \<open>Q\<close> whenever the
  engine returns.
\<close>

locale proto_machine =
  fixes sm :: "'s ProtoTransition list"
    and wevent :: "'s handler"
    and no_event :: int
    and final_state :: int
    and I :: "int \<Rightarrow> int \<Rightarrow> 's \<Rightarrow> bool"
    and Q :: "'s \<Rightarrow> bool"
  assumes wait_keeps:
      "I st no_event s \<Longrightarrow> wevent s = Some (s', ev) \<Longrightarrow> I st ev s'"
    and row_keeps:
      "I st ev s \<Longrightarrow> ev \<noteq> no_event \<Longrightarrow> first_row sm st ev = Some (nx, f) \<Longrightarrow> f s = Some (s', ev')
       \<Longrightarrow> if nx = final_state then Q s' else I nx ev' s'"
    and drop_keeps:
      "I st ev s \<Longrightarrow> ev \<noteq> no_event \<Longrightarrow> first_row sm st ev = None \<Longrightarrow> I st no_event s"
    and rows_valid: "states_valid sm"
begin

lemma dispatch_keeps:
  assumes "I st ev s"
  shows "case dispatch sm no_event final_state st ev s of
    Returned s' \<Rightarrow> Q s' | Crashed \<Rightarrow> True | Running (st', ev', s') \<Rightarrow> I st' ev' s'"
proof (cases "ev = no_event")
  case True
  with assms show ?thesis by simp
next
  case False
  show ?thesis
  proof (cases "first_row sm st ev")
    case None
    with False assms drop_keeps show ?thesis by (simp add: dispatch_none)
  next
    case (Some r)
    obtain nx f where r: "r = (nx, f)" by fastforce
    with Some rows_valid have nx: "nx \<noteq> -1" by (auto dest: states_validD)
    have "first_row sm st ev = Some (nx, f)" using Some r by simp
    from row_keeps [OF assms False this] show ?thesis
      by (auto simp: dispatch_row [OF False \<open>first_row sm st ev = Some (nx, f)\<close> nx]
          split: option.splits)
  qed
qed

lemma turn_keeps:
  assumes "I st ev s"
  shows "case proto_turn sm wevent no_event final_state (st, ev, s) of
    Returned s' \<Rightarrow> Q s' | Crashed \<Rightarrow> True | Running (st', ev', s') \<Rightarrow> I st' ev' s'"
proof (cases "ev = no_event")
  case True
  with assms show ?thesis
    by (auto simp: proto_turn_wait split: option.splits dest: wait_keeps intro!: dispatch_keeps)
next
  case False
  with assms show ?thesis by (simp add: proto_turn_pending dispatch_keeps)
qed

lemma run_keeps:
  assumes "I st ev s"
  shows "case proto_run sm wevent no_event final_state n (st, ev, s) of
    Returned s' \<Rightarrow> Q s' | Crashed \<Rightarrow> True | Running (st', ev', s') \<Rightarrow> I st' ev' s'"
  using assms
proof (induction n arbitrary: st ev s)
  case 0
  then show ?case by simp
next
  case (Suc n)
  from turn_keeps [OF Suc.prems] Suc.IH show ?case
    by (cases "proto_turn sm wevent no_event final_state (st, ev, s)") auto
qed

lemma engine_post:
  assumes "I init_state no_event s"
    and "proto_engine sm wevent clean_f no_event init_state final_state fuel s = Returned s'"
  obtains s1 where "Q s1" "clean_f s1 = Some s'"
  using assms(2) run_keeps [OF assms(1), of fuel]
  by (auto simp: proto_engine_def split: engine_result.splits option.splits)

end

text \<open>
  With a measure on the configurations that every turn decreases, the engine stops within that
  measure: it returns or it crashes.
\<close>

locale proto_halts = proto_machine +
  fixes M :: "int \<Rightarrow> int \<Rightarrow> 'a \<Rightarrow> nat"
  assumes wait_progress:
      "I st no_event s \<Longrightarrow> wevent s = Some (s', ev) \<Longrightarrow> M st ev s' < M st no_event s"
    and row_progress:
      "I st ev s \<Longrightarrow> ev \<noteq> no_event \<Longrightarrow> first_row sm st ev = Some (nx, f) \<Longrightarrow> f s = Some (s', ev')
       \<Longrightarrow> nx \<noteq> final_state \<Longrightarrow> M nx ev' s' < M st ev s"
    and drop_progress:
      "I st ev s \<Longrightarrow> ev \<noteq> no_event \<Longrightarrow> first_row sm st ev = None \<Longrightarrow> M st no_event s < M st ev s"
begin

lemma dispatch_progress:
  assumes "I st ev s" "ev \<noteq> no_event"
  shows "case dispatch sm no_event final_state st ev s of
    Returned s' \<Rightarrow> True | Crashed \<Rightarrow> True | Running (st', ev', s') \<Rightarrow> M st' ev' s' < M st ev s"
proof (cases "first_row sm st ev")
  case None
  with drop_progress [OF assms None] show ?thesis by (simp add: dispatch_none)
next
  case (Some r)
  obtain nx f where r: "r = (nx, f)" by fastforce
  with Some rows_valid have nx: "nx \<noteq> -1" by (auto dest: states_validD)
  have row: "first_row sm st ev = Some (nx, f)" using Some r by simp
  with row_progress [OF assms row] show ?thesis
    by (auto simp: dispatch_row [OF assms(2) row nx] split: option.split)
qed

lemma turn_progress:
  assumes "I st ev s"
  shows "case proto_turn sm wevent no_event final_state (st, ev, s) of
    Returned s' \<Rightarrow> True | Crashed \<Rightarrow> True | Running (st', ev', s') \<Rightarrow> M st' ev' s' < M st ev s"
proof (cases "ev = no_event")
  case False
  with dispatch_progress [OF assms] show ?thesis by (simp add: proto_turn_pending)
next
  case True
  show ?thesis
  proof (cases "wevent s")
    case None
    with True show ?thesis by (simp add: proto_turn_wait)
  next
    case (Some r)
    then obtain t e where w: "wevent s = Some (t, e)" by (cases r) auto
    have i: "I st e t" using wait_keeps [OF _ w] assms True by simp
    have m: "M st e t < M st no_event s" using wait_progress [OF _ w] assms True by simp
    show ?thesis
    proof (cases "e = no_event")
      case True
      with \<open>ev = no_event\<close> w m show ?thesis by (simp add: proto_turn_wait)
    next
      case False
      from dispatch_progress [OF i this] m \<open>ev = no_event\<close> w show ?thesis
        by (auto simp: proto_turn_wait split: engine_result.splits)
    qed
  qed
qed

lemma run_halts:
  "I st ev s \<Longrightarrow> M st ev s < n \<Longrightarrow>
    case proto_run sm wevent no_event final_state n (st, ev, s) of
      Returned s' \<Rightarrow> Q s' | Crashed \<Rightarrow> True | Running c \<Rightarrow> False"
proof (induction n arbitrary: st ev s)
  case 0
  then show ?case by simp
next
  case (Suc n)
  from turn_progress [OF Suc.prems(1)] turn_keeps [OF Suc.prems(1)] Suc.prems(2) Suc.IH
  show ?case
    by (cases "proto_turn sm wevent no_event final_state (st, ev, s)") auto
qed

end

text \<open>If besides no handler crashes under the invariant, the engine returns.\<close>

locale proto_live = proto_halts +
  assumes wait_ok: "I st no_event s \<Longrightarrow> wevent s \<noteq> None"
    and row_ok: "I st ev s \<Longrightarrow> ev \<noteq> no_event \<Longrightarrow> first_row sm st ev = Some (nx, f) \<Longrightarrow> f s \<noteq> None"
begin

lemma dispatch_no_crash:
  assumes "I st ev s"
  shows "dispatch sm no_event final_state st ev s \<noteq> Crashed"
proof (cases "ev = no_event")
  case False
  show ?thesis
  proof (cases "first_row sm st ev")
    case None
    then show ?thesis by (simp add: dispatch_none)
  next
    case (Some r)
    then obtain nx f where row: "first_row sm st ev = Some (nx, f)" by (cases r) auto
    with rows_valid have nx: "nx \<noteq> -1" by (auto dest: states_validD)
    from row_ok [OF assms False row] show ?thesis
      by (auto simp: dispatch_row [OF False row nx] split: option.split)
  qed
qed simp

lemma turn_no_crash:
  assumes "I st ev s"
  shows "proto_turn sm wevent no_event final_state (st, ev, s) \<noteq> Crashed"
proof (cases "ev = no_event")
  case True
  with assms wait_ok obtain t e where "wevent s = Some (t, e)" by fastforce
  with assms True wait_keeps dispatch_no_crash show ?thesis by (auto simp: proto_turn_wait)
next
  case False
  with assms dispatch_no_crash show ?thesis by (simp add: proto_turn_pending)
qed

lemma run_no_crash:
  "I st ev s \<Longrightarrow> proto_run sm wevent no_event final_state n (st, ev, s) \<noteq> Crashed"
proof (induction n arbitrary: st ev s)
  case 0
  then show ?case by simp
next
  case (Suc n)
  from turn_no_crash [OF Suc.prems] turn_keeps [OF Suc.prems] Suc.IH show ?case
    by (cases "proto_turn sm wevent no_event final_state (st, ev, s)") auto
qed

lemma run_returns:
  assumes "I st ev s" "M st ev s < n"
  shows "\<exists>s'. proto_run sm wevent no_event final_state n (st, ev, s) = Returned s' \<and> Q s'"
  using run_halts [OF assms] run_no_crash [OF assms(1), of n]
  by (cases "proto_run sm wevent no_event final_state n (st, ev, s)") auto

end

end
