(* ===== verification/C_Timers.thy ===== *)
theory C_Timers
  imports Prelude
begin

text \<open>
  The software timers of \<open>src/src/system/os/ctimers.c\<close>.

  The module keeps a table of 96 pointers to timers owned by its clients (\<open>MAX_CTIMERS\<close>), a
  mutex and a thread that every 250 ms compares the tick counter with each registered timer. A
  pointer is an element of the type variable \<open>'id\<close>; what the clients' callbacks change beside the
  module is \<open>ct_user\<close>. Taking the mutex while it is held blocks for ever (\<open>None\<close>), and one path of
  \<open>mod_ctimer\<close> leaves it held. The scan releases the mutex before it calls a callback, so a callback
  can call the module: a \<open>callback\<close> acts on the whole state.

  The timer thread runs beside its clients. \<open>ct_sched\<close> says when: each element is the list of
  tick counts at which the thread wakes between two polls of the client, so that a statement for
  all schedules is a statement for all interleavings at the granularity of a poll.
\<close>

definition MAX_CTIMERS :: nat where
  [simp]: "MAX_CTIMERS = 96"

definition ECTIMER_INVALID :: int where
  [simp]: "ECTIMER_INVALID = 0"

definition ECTIMER_NOAVAIL :: int where
  [simp]: "ECTIMER_NOAVAIL = 1"

definition ECTIMER_NOINIT :: int where
  [simp]: "ECTIMER_NOINIT = 2"

record CTimer =
  expires :: ulong
  periodic :: bool
  period :: ulong

record ('id, 'u) ctworld =
  ct_running :: bool
  ct_timers :: "'id option list"
  ct_objs :: "'id \<Rightarrow> CTimer"
  ct_locked :: bool
  ct_ticks :: ulong
  ct_sched :: "ulong list list"
  ct_user :: 'u

subsection \<open>The mutex\<close>

definition TAKE_MUTEX :: "('id, 'u) ctworld \<Rightarrow> ('id, 'u) ctworld option" where
  "TAKE_MUTEX w = (if ct_locked w then None else Some (w\<lparr>ct_locked := True\<rparr>))"

definition RELEASE_MUTEX :: "('id, 'u) ctworld \<Rightarrow> ('id, 'u) ctworld" where
  "RELEASE_MUTEX w = w\<lparr>ct_locked := False\<rparr>"

subsection \<open>Slots\<close>

fun find_slot :: "'id option \<Rightarrow> 'id option list \<Rightarrow> nat option" where
  "find_slot x [] = None"
| "find_slot x (t # ts) = (if t = x then Some 0 else map_option Suc (find_slot x ts))"

definition get_slot :: "'id \<Rightarrow> ('id, 'u) ctworld \<Rightarrow> nat option" where
  "get_slot timer w = find_slot (Some timer) (ct_timers w)"

definition get_free_slot :: "('id, 'u) ctworld \<Rightarrow> nat option" where
  "get_free_slot w = find_slot None (ct_timers w)"

subsection \<open>Public operations\<close>

definition init_ctimer :: "'id \<Rightarrow> ('id, 'u) ctworld \<Rightarrow> ('id, 'u) ctworld \<times> int" where
  "init_ctimer timer w =
     (if \<not> ct_running w then (w, - ECTIMER_NOINIT)
      else (w\<lparr>ct_objs := (ct_objs w)(timer := (ct_objs w timer)\<lparr>expires := 0\<rparr>)\<rparr>, 1))"

definition del_ctimer :: "'id \<Rightarrow> ('id, 'u) ctworld \<Rightarrow> (('id, 'u) ctworld \<times> int) option" where
  "del_ctimer timer w =
     (if \<not> ct_running w then Some (w, - ECTIMER_NOINIT)
      else do {
        w \<leftarrow> TAKE_MUTEX w;
        case get_slot timer w of
          None \<Rightarrow> Some (RELEASE_MUTEX w, - ECTIMER_INVALID)
        | Some i \<Rightarrow> Some (RELEASE_MUTEX (w\<lparr>ct_timers := (ct_timers w)[i := None]\<rparr>), 1)
      })"

definition add_ctimer :: "'id \<Rightarrow> ('id, 'u) ctworld \<Rightarrow> (('id, 'u) ctworld \<times> int) option" where
  "add_ctimer timer w =
     (if \<not> ct_running w then Some (w, - ECTIMER_NOINIT)
      else do {
        w \<leftarrow> TAKE_MUTEX w;
        case get_free_slot w of
          None \<Rightarrow> Some (RELEASE_MUTEX w, - ECTIMER_NOAVAIL)
        | Some i \<Rightarrow> Some (RELEASE_MUTEX (w\<lparr>ct_timers := (ct_timers w)[i := Some timer]\<rparr>), 1)
      })"

text \<open>On the path where the timer is not registered the code returns without releasing.\<close>

definition mod_ctimer ::
  "'id \<Rightarrow> ulong \<Rightarrow> ('id, 'u) ctworld \<Rightarrow> (('id, 'u) ctworld \<times> int) option" where
  "mod_ctimer timer msec_expires w =
     (if \<not> ct_running w then Some (w, - ECTIMER_NOINIT)
      else do {
        w \<leftarrow> TAKE_MUTEX w;
        case get_slot timer w of
          None \<Rightarrow> Some (w, - ECTIMER_INVALID)
        | Some i \<Rightarrow> Some (RELEASE_MUTEX (w\<lparr>ct_objs := (ct_objs w)
            (timer := (ct_objs w timer)\<lparr>expires := msec_expires + ct_ticks w\<rparr>)\<rparr>), 1)
      })"

definition init_ctimers :: "bool \<Rightarrow> ('id, 'u) ctworld \<Rightarrow> ('id, 'u) ctworld \<times> int" where
  "init_ctimers mutex_init_ok w =
     (let w = w\<lparr>ct_running := True\<rparr> in
      if mutex_init_ok then (w\<lparr>ct_locked := False\<rparr>, 1) else (w\<lparr>ct_running := False\<rparr>, -1))"

definition cleanup_ctimers :: "('id, 'u) ctworld \<Rightarrow> ('id, 'u) ctworld \<times> int" where
  "cleanup_ctimers w = (w\<lparr>ct_running := False\<rparr>, 1)"

subsection \<open>The timer thread\<close>

text \<open>
  One pass of \<open>handle_ctimers\<close>: the slots are read one by one, each under the mutex, so a
  callback that registers or removes timers is seen by the rest of the pass.
\<close>

type_synonym ('id, 'u) callback = "'id \<Rightarrow> ('id, 'u) ctworld \<Rightarrow> ('id, 'u) ctworld option"

definition handle_slot ::
  "('id, 'u) callback \<Rightarrow> ulong \<Rightarrow> nat \<Rightarrow> ('id, 'u) ctworld \<Rightarrow> ('id, 'u) ctworld option" where
  "handle_slot fire tickcount i w = do {
     w \<leftarrow> TAKE_MUTEX w;
     (case ct_timers w ! i of
        Some timer \<Rightarrow>
          if expires (ct_objs w timer) \<le> tickcount then do {
            w \<leftarrow> fire timer (RELEASE_MUTEX w);
            Some (if periodic (ct_objs w timer)
                  then w\<lparr>ct_objs := (ct_objs w)(timer := (ct_objs w timer)
                         \<lparr>expires := expires (ct_objs w timer) + period (ct_objs w timer)\<rparr>)\<rparr>
                  else w)
          } else Some (RELEASE_MUTEX w)
      | None \<Rightarrow> Some (RELEASE_MUTEX w))
   }"

fun handle_from ::
  "('id, 'u) callback \<Rightarrow> ulong \<Rightarrow> nat list \<Rightarrow> ('id, 'u) ctworld \<Rightarrow> ('id, 'u) ctworld option" where
  "handle_from fire tickcount [] w = Some w"
| "handle_from fire tickcount (i # is) w = do {
     w \<leftarrow> handle_slot fire tickcount i w;
     handle_from fire tickcount is w
   }"

definition handle_ctimers ::
  "('id, 'u) callback \<Rightarrow> ulong \<Rightarrow> ('id, 'u) ctworld \<Rightarrow> ('id, 'u) ctworld option" where
  "handle_ctimers fire tickcount w = handle_from fire tickcount [0..<MAX_CTIMERS] w"

text \<open>
  The body of \<open>thread_handle\<close> for the wake-ups of one interval: sleep, read the clock, scan,
  leave when \<open>running\<close> has been cleared.
\<close>

fun thread_handle ::
  "('id, 'u) callback \<Rightarrow> ulong list \<Rightarrow> ('id, 'u) ctworld \<Rightarrow> ('id, 'u) ctworld option" where
  "thread_handle fire [] w = Some w"
| "thread_handle fire (t # ts) w = do {
     w \<leftarrow> handle_ctimers fire t (w\<lparr>ct_ticks := t\<rparr>);
     if \<not> ct_running w then Some (w\<lparr>ct_sched := []\<rparr>) else thread_handle fire ts w
   }"

text \<open>
  What the timer thread has done by the next poll of a client. If it blocks on the mutex only the
  clock goes on: a blocked timer thread never wakes again, and the client does not notice.
\<close>

definition timer_turn :: "('id, 'u) callback \<Rightarrow> ('id, 'u) ctworld \<Rightarrow> ('id, 'u) ctworld" where
  "timer_turn fire w =
     (case ct_sched w of
        [] \<Rightarrow> w
      | ts # rest \<Rightarrow>
          (case thread_handle fire ts (w\<lparr>ct_sched := rest\<rparr>) of
             Some w' \<Rightarrow> w'
           | None \<Rightarrow> w\<lparr>ct_sched := [], ct_ticks := last (ct_ticks w # ts)\<rparr>))"

subsection \<open>Slots: what the scans find\<close>

lemma find_slot_None: "find_slot x ts = None \<longleftrightarrow> x \<notin> set ts"
  by (induction ts) auto

lemma find_slot_Some:
  "find_slot x ts = Some i \<Longrightarrow> i < length ts \<and> ts ! i = x \<and> (\<forall>j < i. ts ! j \<noteq> x)"
proof (induction ts arbitrary: i)
  case Nil
  then show ?case by simp
next
  case (Cons t ts)
  show ?case
  proof (cases "t = x")
    case True
    with Cons.prems show ?thesis by simp
  next
    case False
    with Cons.prems obtain k where k: "find_slot x ts = Some k" "i = Suc k" by auto
    from Cons.IH [OF k(1)] have ih: "k < length ts" "ts ! k = x" "\<forall>j<k. ts ! j \<noteq> x" by auto
    have "(t # ts) ! j \<noteq> x" if "j < i" for j
      using that False ih(3) k(2) by (cases j) auto
    with ih k(2) show ?thesis by simp
  qed
qed

lemma find_slot_update:
  assumes "find_slot y ts = Some i" "x \<notin> set ts"
  shows "find_slot x (ts[i := x]) = Some i"
  using assms
proof (induction ts arbitrary: i)
  case Nil
  then show ?case by simp
next
  case (Cons t ts)
  then show ?case by (auto split: if_splits nat.splits)
qed

subsection \<open>Operations that find the mutex free\<close>

text \<open>The timers registered, in the order in which the thread visits them.\<close>

definition registered :: "('id, 'u) ctworld \<Rightarrow> 'id list" where
  "registered w = [t. Some t \<leftarrow> ct_timers w]"

definition idle :: "('id, 'u) ctworld \<Rightarrow> bool" where
  "idle w \<longleftrightarrow> ct_running w \<and> \<not> ct_locked w"

lemma idleI: "ct_running w \<Longrightarrow> \<not> ct_locked w \<Longrightarrow> idle w"
  by (simp add: idle_def)

lemma idle_take [simp]: "idle w \<Longrightarrow> TAKE_MUTEX w = Some (w\<lparr>ct_locked := True\<rparr>)"
  by (simp add: idle_def TAKE_MUTEX_def)

lemma idleD: "idle w \<Longrightarrow> ct_running w" "idle w \<Longrightarrow> \<not> ct_locked w"
  by (simp_all add: idle_def)

lemma release_taken [simp]:
  "\<not> ct_locked w \<Longrightarrow> RELEASE_MUTEX (w\<lparr>ct_locked := True\<rparr>) = w"
  by (simp add: RELEASE_MUTEX_def)

lemma del_ctimer_idle:
  "idle w \<Longrightarrow> del_ctimer t w = Some (case get_slot t w of
      None \<Rightarrow> (w, 0) | Some i \<Rightarrow> (w\<lparr>ct_timers := (ct_timers w)[i := None]\<rparr>, 1))"
  by (auto simp: del_ctimer_def get_slot_def RELEASE_MUTEX_def idleD split: option.splits)

lemma add_ctimer_idle:
  "idle w \<Longrightarrow> add_ctimer t w = Some (case get_free_slot w of
      None \<Rightarrow> (w, -1) | Some i \<Rightarrow> (w\<lparr>ct_timers := (ct_timers w)[i := Some t]\<rparr>, 1))"
  by (auto simp: add_ctimer_def get_free_slot_def RELEASE_MUTEX_def idleD split: option.splits)

lemma mod_ctimer_idle:
  "idle w \<Longrightarrow> get_slot t w = Some i \<Longrightarrow> mod_ctimer t ms w =
    Some (w\<lparr>ct_objs := (ct_objs w)(t := (ct_objs w t)\<lparr>expires := ms + ct_ticks w\<rparr>)\<rparr>, 1)"
  by (auto simp: mod_ctimer_def get_slot_def RELEASE_MUTEX_def idleD)

text \<open>Only the table changes: the routines' frame.\<close>

lemma del_ctimer_frame [frame_rules]:
  "del_ctimer t w = Some (w', r) \<Longrightarrow> ct_user w' = ct_user w \<and> ct_objs w' = ct_objs w
    \<and> ct_ticks w' = ct_ticks w \<and> ct_sched w' = ct_sched w \<and> ct_running w' = ct_running w
    \<and> ct_locked w' = ct_locked w"
  by (auto simp: del_ctimer_def TAKE_MUTEX_def RELEASE_MUTEX_def split: if_splits option.splits)

lemma add_ctimer_frame [frame_rules]:
  "add_ctimer t w = Some (w', r) \<Longrightarrow> ct_user w' = ct_user w \<and> ct_objs w' = ct_objs w
    \<and> ct_ticks w' = ct_ticks w \<and> ct_sched w' = ct_sched w \<and> ct_running w' = ct_running w
    \<and> ct_locked w' = ct_locked w"
  by (auto simp: add_ctimer_def TAKE_MUTEX_def RELEASE_MUTEX_def split: if_splits option.splits)

lemma get_slot_registered: "get_slot t w = None \<longleftrightarrow> t \<notin> set (registered w)"
  by (force simp: get_slot_def find_slot_None registered_def)

text \<open>
  A scan by an unblocked thread whose callbacks change only the clients' state and do not call the
  module, as those of the modem do.
\<close>

definition user_fire :: "('id \<Rightarrow> 'u \<Rightarrow> 'u) \<Rightarrow> ('id, 'u) callback" where
  "user_fire f t w = Some (w\<lparr>ct_user := f t (ct_user w)\<rparr>)"

definition due_at :: "ulong \<Rightarrow> ('id, 'u) ctworld \<Rightarrow> nat list \<Rightarrow> 'id list" where
  "due_at tick w is = filter (\<lambda>t. expires (ct_objs w t) \<le> tick) [t. i \<leftarrow> is, Some t \<leftarrow> [ct_timers w ! i]]"

definition due :: "ulong \<Rightarrow> ('id, 'u) ctworld \<Rightarrow> 'id list" where
  "due tick w = filter (\<lambda>t. expires (ct_objs w t) \<le> tick) (registered w)"

definition rearm :: "'id list \<Rightarrow> ('id \<Rightarrow> CTimer) \<Rightarrow> 'id \<Rightarrow> CTimer" where
  "rearm ts objs = (\<lambda>t. if t \<in> set ts \<and> periodic (objs t)
      then (objs t)\<lparr>expires := expires (objs t) + period (objs t)\<rparr> else objs t)"

lemma rearm_append:
  "set xs \<inter> set ys = {} \<Longrightarrow> rearm ys (rearm xs objs) = rearm (xs @ ys) objs"
  by (auto simp: rearm_def fun_eq_iff)

lemma handle_slot_idle:
  assumes "idle w"
  shows "handle_slot (user_fire f) tick i w =
    Some (w\<lparr>ct_user := fold f (due_at tick w [i]) (ct_user w),
            ct_objs := rearm (due_at tick w [i]) (ct_objs w)\<rparr>)"
proof (cases "ct_timers w ! i")
  case None
  with assms show ?thesis
    by (auto simp: handle_slot_def due_at_def rearm_def RELEASE_MUTEX_def idleD)
next
  case (Some t)
  with assms show ?thesis
    by (cases "periodic (ct_objs w t)")
      (auto simp: handle_slot_def due_at_def rearm_def RELEASE_MUTEX_def user_fire_def fun_eq_iff idleD
        intro!: ctworld.equality)
qed

lemma handle_from_idle:
  assumes "idle w" and "distinct [t. i \<leftarrow> is, Some t \<leftarrow> [ct_timers w ! i]]"
  shows "handle_from (user_fire f) tick is w =
    Some (w\<lparr>ct_user := fold f (due_at tick w is) (ct_user w),
            ct_objs := rearm (due_at tick w is) (ct_objs w)\<rparr>)"
  using assms
proof (induction "is" arbitrary: w)
  case Nil
  then show ?case by (simp add: due_at_def rearm_def)
next
  case (Cons i "is")
  let ?w1 = "w\<lparr>ct_user := fold f (due_at tick w [i]) (ct_user w),
            ct_objs := rearm (due_at tick w [i]) (ct_objs w)\<rparr>"
  have split: "due_at tick w (i # is) = due_at tick w [i] @ due_at tick w is"
    by (simp add: due_at_def)
  have apart: "set (due_at tick w [i]) \<inter> set [t. i \<leftarrow> is, Some t \<leftarrow> [ct_timers w ! i]] = {}"
    using Cons.prems(2) by (auto simp: due_at_def split: option.splits)
  have same: "due_at tick ?w1 is = due_at tick w is"
    using apart unfolding due_at_def by (auto simp: rearm_def intro!: filter_cong)
  have "set (due_at tick w [i]) \<inter> set (due_at tick w is) = {}"
    using apart unfolding due_at_def by (simp add: disjoint_iff)
  then have fuse: "rearm (due_at tick w is) (rearm (due_at tick w [i]) (ct_objs w))
      = rearm (due_at tick w (i # is)) (ct_objs w)"
    by (simp only: rearm_append split)
  have "idle ?w1" using Cons.prems(1) by (simp add: idle_def)
  moreover have "distinct [t. i \<leftarrow> is, Some t \<leftarrow> [ct_timers ?w1 ! i]]"
    using Cons.prems(2) by simp
  ultimately have rest: "handle_from (user_fire f) tick is ?w1 =
    Some (?w1\<lparr>ct_user := fold f (due_at tick ?w1 is) (ct_user ?w1),
            ct_objs := rearm (due_at tick ?w1 is) (ct_objs ?w1)\<rparr>)"
    by (rule Cons.IH)
  have "handle_from (user_fire f) tick (i # is) w = handle_from (user_fire f) tick is ?w1"
    by (simp only: handle_from.simps handle_slot_idle [OF Cons.prems(1)] bind.bind_lunit)
  also have "\<dots> = Some (w\<lparr>ct_user := fold f (due_at tick w (i # is)) (ct_user w),
      ct_objs := rearm (due_at tick w (i # is)) (ct_objs w)\<rparr>)"
    unfolding rest same split fold_append by (simp add: fuse [unfolded split])
  finally show ?case .
qed

lemma due_at_all:
  "length (ct_timers w) = MAX_CTIMERS \<Longrightarrow> due_at tick w [0..<MAX_CTIMERS] = due tick w"
proof -
  assume l: "length (ct_timers w) = MAX_CTIMERS"
  have "[t. i \<leftarrow> [0..<MAX_CTIMERS], Some t \<leftarrow> [ct_timers w ! i]]
      = [t. Some t \<leftarrow> map (nth (ct_timers w)) [0..<MAX_CTIMERS]]"
    by (simp add: o_def)
  also have "map (nth (ct_timers w)) [0..<MAX_CTIMERS] = ct_timers w"
    using l by (metis map_nth)
  finally show ?thesis by (simp add: due_at_def due_def registered_def)
qed

lemma handle_ctimers_idle:
  assumes "idle w" "length (ct_timers w) = MAX_CTIMERS" "distinct (registered w)"
  shows "handle_ctimers (user_fire f) tick w =
    Some (w\<lparr>ct_user := fold f (due tick w) (ct_user w), ct_objs := rearm (due tick w) (ct_objs w)\<rparr>)"
proof -
  have "[t. i \<leftarrow> [0..<MAX_CTIMERS], Some t \<leftarrow> [ct_timers w ! i]]
      = [t. Some t \<leftarrow> map (nth (ct_timers w)) [0..<MAX_CTIMERS]]"
    by (simp add: o_def)
  also have "\<dots> = registered w"
    using assms(2) unfolding registered_def by (metis map_nth)
  finally show ?thesis
    unfolding handle_ctimers_def using handle_from_idle [OF assms(1)] assms
    by (simp only: due_at_all)
qed

text \<open>
  What a turn of the timer thread does to its clients, whatever the table and the schedule: only
  their state changes, by calls of the callbacks.
\<close>

lemma handle_slot_user:
  assumes "handle_slot (user_fire f) tick i w = Some w'"
    and refl: "\<And>u. R u u" and call: "\<And>u t. R u (f t u)"
  shows "R (ct_user w) (ct_user w') \<and> ct_timers w' = ct_timers w \<and> ct_running w' = ct_running w
    \<and> ct_sched w' = ct_sched w \<and> \<not> ct_locked w'"
  using assms
  by (auto simp: handle_slot_def TAKE_MUTEX_def RELEASE_MUTEX_def user_fire_def Let_def
      split: if_splits option.splits)

lemma handle_from_user:
  assumes "handle_from (user_fire f) tick is w = Some w'" "\<not> ct_locked w"
    and refl: "\<And>u. R u u" and call: "\<And>u t. R u (f t u)"
    and trans: "\<And>a b c. R a b \<Longrightarrow> R b c \<Longrightarrow> R a c"
  shows "R (ct_user w) (ct_user w') \<and> ct_timers w' = ct_timers w \<and> ct_running w' = ct_running w
    \<and> ct_sched w' = ct_sched w \<and> \<not> ct_locked w'"
  using assms(1,2)
proof (induction "is" arbitrary: w)
  case Nil
  with refl show ?case by simp
next
  case (Cons i "is")
  then obtain v where v: "handle_slot (user_fire f) tick i w = Some v"
    and r: "handle_from (user_fire f) tick is v = Some w'"
    by (auto elim!: bind_SomeE)
  from handle_slot_user [where R = R, OF v refl call] have
    s: "R (ct_user w) (ct_user v)" "ct_timers v = ct_timers w" "ct_running v = ct_running w"
      "ct_sched v = ct_sched w" "\<not> ct_locked v" by auto
  from Cons.IH [OF r s(5)] s trans show ?case by auto
qed

lemma thread_handle_user:
  assumes "thread_handle (user_fire f) ts w = Some w'" "\<not> ct_locked w"
    and refl: "\<And>u. R u u" and call: "\<And>u t. R u (f t u)"
    and trans: "\<And>a b c. R a b \<Longrightarrow> R b c \<Longrightarrow> R a c"
  shows "R (ct_user w) (ct_user w') \<and> ct_timers w' = ct_timers w \<and> ct_running w' = ct_running w
    \<and> length (ct_sched w') \<le> length (ct_sched w) \<and> \<not> ct_locked w'"
  using assms(1,2)
proof (induction ts arbitrary: w)
  case Nil
  with refl show ?case by simp
next
  case (Cons t ts)
  then obtain v where v: "handle_ctimers (user_fire f) t (w\<lparr>ct_ticks := t\<rparr>) = Some v"
    and r: "(if \<not> ct_running v then Some (v\<lparr>ct_sched := []\<rparr>)
       else thread_handle (user_fire f) ts v) = Some w'"
    by (auto elim!: bind_SomeE)
  have nl: "\<not> ct_locked (w\<lparr>ct_ticks := t\<rparr>)" using Cons.prems by simp
  from handle_from_user [where R = R, OF v [unfolded handle_ctimers_def] nl refl call trans]
  have s: "R (ct_user w) (ct_user v)" "ct_timers v = ct_timers w" "ct_running v = ct_running w"
      "ct_sched v = ct_sched w" "\<not> ct_locked v" by auto
  show ?case
  proof (cases "ct_running v")
    case False
    with r s show ?thesis by auto
  next
    case True
    with r Cons.IH [of v] s trans show ?thesis by auto
  qed
qed

lemma timer_turn_user:
  assumes "\<not> ct_locked w"
    and refl: "\<And>u. R u u" and call: "\<And>u t. R u (f t u)"
    and trans: "\<And>a b c. R a b \<Longrightarrow> R b c \<Longrightarrow> R a c"
  shows "R (ct_user w) (ct_user (timer_turn (user_fire f) w))"
    "ct_timers (timer_turn (user_fire f) w) = ct_timers w"
    "ct_running (timer_turn (user_fire f) w) = ct_running w"
    "\<not> ct_locked (timer_turn (user_fire f) w)"
proof -
  have "R (ct_user w) (ct_user (timer_turn (user_fire f) w)) \<and>
    ct_timers (timer_turn (user_fire f) w) = ct_timers w \<and>
    ct_running (timer_turn (user_fire f) w) = ct_running w \<and>
    \<not> ct_locked (timer_turn (user_fire f) w)"
  proof (cases "ct_sched w")
    case Nil
    with assms refl show ?thesis by (simp add: timer_turn_def)
  next
    case (Cons ts rest)
    show ?thesis
    proof (cases "thread_handle (user_fire f) ts (w\<lparr>ct_sched := rest\<rparr>)")
      case None
      with Cons assms refl show ?thesis by (simp add: timer_turn_def)
    next
      case (Some v)
      have "\<not> ct_locked (w\<lparr>ct_sched := rest\<rparr>)" using assms by simp
      from thread_handle_user [where R = R, OF Some this refl call trans] Some Cons
      show ?thesis by (simp add: timer_turn_def)
    qed
  qed
  then show "R (ct_user w) (ct_user (timer_turn (user_fire f) w))"
    "ct_timers (timer_turn (user_fire f) w) = ct_timers w"
    "ct_running (timer_turn (user_fire f) w) = ct_running w"
    "\<not> ct_locked (timer_turn (user_fire f) w)" by auto
qed

text \<open>With the mutex held the thread stops at the first slot: only the clock goes on.\<close>

lemma timer_turn_locked:
  assumes "ct_locked w"
  shows "ct_user (timer_turn fire w) = ct_user w" "ct_locked (timer_turn fire w)"
proof -
  have slot: "handle_ctimers fire t v = None" if "ct_locked v" for t v
    using that by (simp add: handle_ctimers_def upt_conv_Cons handle_slot_def TAKE_MUTEX_def)
  have "thread_handle fire ts v = (if ts = [] then Some v else None)" if "ct_locked v" for ts v
    using that slot by (cases ts) simp_all
  then show "ct_user (timer_turn fire w) = ct_user w" "ct_locked (timer_turn fire w)"
    using assms by (simp_all add: timer_turn_def split: list.split)
qed

text \<open>Total forms of the operations, for clients that call them while the mutex is free.\<close>

definition del_ct :: "'id \<Rightarrow> ('id, 'u) ctworld \<Rightarrow> ('id, 'u) ctworld" where
  "del_ct t w = (if ct_running w then (case get_slot t w of None \<Rightarrow> w
      | Some i \<Rightarrow> w\<lparr>ct_timers := (ct_timers w)[i := None]\<rparr>) else w)"

definition add_ct :: "'id \<Rightarrow> ('id, 'u) ctworld \<Rightarrow> ('id, 'u) ctworld" where
  "add_ct t w = (if ct_running w then (case get_free_slot w of None \<Rightarrow> w
      | Some i \<Rightarrow> w\<lparr>ct_timers := (ct_timers w)[i := Some t]\<rparr>) else w)"

lemma del_ctimer_free:
  "\<not> ct_locked w \<Longrightarrow> \<exists>r. del_ctimer t w = Some (del_ct t w, r)"
  by (auto simp: del_ctimer_def del_ct_def TAKE_MUTEX_def RELEASE_MUTEX_def get_slot_def
      split: option.splits)

lemma add_ctimer_free:
  "\<not> ct_locked w \<Longrightarrow> \<exists>r. add_ctimer t w = Some (add_ct t w, r)"
  by (auto simp: add_ctimer_def add_ct_def TAKE_MUTEX_def RELEASE_MUTEX_def get_free_slot_def
      split: option.splits)

lemma del_ct_frame [simp]:
  "ct_user (del_ct t w) = ct_user w" "ct_objs (del_ct t w) = ct_objs w"
  "ct_ticks (del_ct t w) = ct_ticks w" "ct_sched (del_ct t w) = ct_sched w"
  "ct_running (del_ct t w) = ct_running w" "ct_locked (del_ct t w) = ct_locked w"
  by (auto simp: del_ct_def split: option.splits)

lemma add_ct_frame [simp]:
  "ct_user (add_ct t w) = ct_user w" "ct_objs (add_ct t w) = ct_objs w"
  "ct_ticks (add_ct t w) = ct_ticks w" "ct_sched (add_ct t w) = ct_sched w"
  "ct_running (add_ct t w) = ct_running w" "ct_locked (add_ct t w) = ct_locked w"
  by (auto simp: add_ct_def split: option.splits)

text \<open>The calls as the protocols make them: the status is ignored.\<close>

definition stop_timer :: "'id \<Rightarrow> ('id, 'u) ctworld \<Rightarrow> ('id, 'u) ctworld option" where
  "stop_timer t w = map_option fst (del_ctimer t w)"

definition start_timer :: "'id \<Rightarrow> ('id, 'u) ctworld \<Rightarrow> ('id, 'u) ctworld option" where
  "start_timer t w = map_option fst (add_ctimer t w)"

definition set_expires :: "'id \<Rightarrow> ulong \<Rightarrow> ('id, 'u) ctworld \<Rightarrow> ('id, 'u) ctworld" where
  "set_expires t e w = w\<lparr>ct_objs := (ct_objs w)(t := (ct_objs w t)\<lparr>expires := e\<rparr>)\<rparr>"

definition set_period :: "'id \<Rightarrow> ulong \<Rightarrow> ('id, 'u) ctworld \<Rightarrow> ('id, 'u) ctworld" where
  "set_period t p w = w\<lparr>ct_objs := (ct_objs w)(t := (ct_objs w t)\<lparr>period := p\<rparr>)\<rparr>"

lemma stop_timer_free [simp]: "\<not> ct_locked w \<Longrightarrow> stop_timer t w = Some (del_ct t w)"
  using del_ctimer_free [of w t] by (auto simp: stop_timer_def)

lemma start_timer_free [simp]: "\<not> ct_locked w \<Longrightarrow> start_timer t w = Some (add_ct t w)"
  using add_ctimer_free [of w t] by (auto simp: start_timer_def)

lemma stop_timer_frame [frame_rules]:
  "stop_timer t w = Some w' \<Longrightarrow> ct_user w' = ct_user w \<and> ct_locked w' = ct_locked w
    \<and> ct_objs w' = ct_objs w \<and> ct_ticks w' = ct_ticks w \<and> ct_sched w' = ct_sched w"
  using del_ctimer_frame [of t w] by (auto simp: stop_timer_def)

lemma start_timer_frame [frame_rules]:
  "start_timer t w = Some w' \<Longrightarrow> ct_user w' = ct_user w \<and> ct_locked w' = ct_locked w
    \<and> ct_objs w' = ct_objs w \<and> ct_ticks w' = ct_ticks w \<and> ct_sched w' = ct_sched w"
  using add_ctimer_frame [of t w] by (auto simp: start_timer_def)

lemma set_timer_frame [simp]:
  "ct_user (set_expires t e w) = ct_user w" "ct_user (set_period t e w) = ct_user w"
  "ct_locked (set_expires t e w) = ct_locked w" "ct_locked (set_period t e w) = ct_locked w"
  "ct_timers (set_expires t e w) = ct_timers w" "ct_timers (set_period t e w) = ct_timers w"
  "ct_running (set_expires t e w) = ct_running w" "ct_running (set_period t e w) = ct_running w"
  "ct_ticks (set_expires t e w) = ct_ticks w" "ct_ticks (set_period t e w) = ct_ticks w"
  "ct_sched (set_expires t e w) = ct_sched w" "ct_sched (set_period t e w) = ct_sched w"
  by (simp_all add: set_expires_def set_period_def)

end
