(* ===== verification/C_Timers_Props.thy ===== *)
theory C_Timers_Props
  imports C_Timers "HOL-Library.Multiset"
begin

text \<open>
  Correctness of the software timers: the table of 96 slots with its mutex and its thread implements a
  multiset of registrations (\<open>spec_run\<close>), for every client, also for clients that register a timer
  twice and for callbacks that call the module while it scans. A client that re-arms a timer that is
  not registered blocks the module for good.
\<close>

subsection \<open>Clients\<close>

text \<open>
  The calls of the module, and a client writing the fields of a timer of its own. A callback changes
  the state of the clients and makes a sequence of calls, each with what the client does with its
  result; \<open>del_ctimer\<close> of the timer that has expired is what \<open>expireTimer\<close> of \<open>OTimer.m\<close> calls.
\<close>

datatype 'id timer_call = Add 'id | Del 'id | Mod 'id ulong | Put 'id CTimer

datatype 'id timer_event = Call "'id timer_call" | Scan ulong

type_synonym ('id, 'u) calls = "('id timer_call \<times> (int \<Rightarrow> 'u \<Rightarrow> 'u)) list"

type_synonym ('id, 'u) client = "'id \<Rightarrow> 'u \<Rightarrow> 'u \<times> ('id, 'u) calls"

fun do_call :: "'id timer_call \<Rightarrow> ('id, 'u) ctworld \<Rightarrow> (('id, 'u) ctworld \<times> int) option" where
  "do_call (Add t) w = add_ctimer t w"
| "do_call (Del t) w = del_ctimer t w"
| "do_call (Mod t ms) w = mod_ctimer t ms w"
| "do_call (Put t c) w = Some (w\<lparr>ct_objs := (ct_objs w)(t := c)\<rparr>, 0)"

fun do_calls :: "('id, 'u) calls \<Rightarrow> ('id, 'u) ctworld \<Rightarrow> ('id, 'u) ctworld option" where
  "do_calls [] w = Some w"
| "do_calls ((c, k) # cs) w = do {
     (w, r) \<leftarrow> do_call c w;
     do_calls cs (w\<lparr>ct_user := k r (ct_user w)\<rparr>)
   }"

definition client_fire :: "('id, 'u) client \<Rightarrow> ('id, 'u) callback" where
  "client_fire f t w = (case f t (ct_user w) of (u, cs) \<Rightarrow> do_calls cs (w\<lparr>ct_user := u\<rparr>))"

fun ct_step :: "('id, 'u) client \<Rightarrow> 'id timer_event \<Rightarrow> ('id, 'u) ctworld \<Rightarrow> (('id, 'u) ctworld \<times> int) option" where
  "ct_step f (Call c) w = do_call c w"
| "ct_step f (Scan tick) w = map_option (\<lambda>w. (w, 0)) (thread_handle (client_fire f) [tick] w)"

fun ct_run :: "('id, 'u) client \<Rightarrow> 'id timer_event list \<Rightarrow> ('id, 'u) ctworld \<Rightarrow> (('id, 'u) ctworld \<times> int list) option" where
  "ct_run f [] w = Some (w, [])"
| "ct_run f (e # es) w = do { (w, r) \<leftarrow> ct_step f e w; (w, rs) \<leftarrow> ct_run f es w; Some (w, r # rs) }"

subsection \<open>The specification\<close>

text \<open>
  \<open>active\<close> are the registrations, \<open>pending\<close> those that the scan has still to look at, \<open>held\<close> says that
  the mutex has been kept.
\<close>

record ('id, 'u) timer_spec =
  active :: "'id multiset"
  pending :: "'id multiset"
  objs :: "'id \<Rightarrow> CTimer"
  now :: ulong
  client :: 'u
  held :: bool

text \<open>
  A timer registered in the middle of a scan may be looked at by that scan or not. A registration that
  is removed is one that the scan has done with if there is one, or else one that it has not.
\<close>

inductive call_step :: "'id timer_call \<Rightarrow> ('id, 'u) timer_spec \<Rightarrow> ('id, 'u) timer_spec \<Rightarrow> int \<Rightarrow> bool" where
  added: "\<not> held a \<Longrightarrow> size (active a) < 96 \<Longrightarrow> p = pending a \<or> p = add_mset t (pending a) \<Longrightarrow>
    call_step (Add t) a (a\<lparr>active := add_mset t (active a), pending := p\<rparr>) 1"
| full: "\<not> held a \<Longrightarrow> size (active a) = 96 \<Longrightarrow> call_step (Add t) a a (-1)"
| deleted: "\<not> held a \<Longrightarrow> t \<in># active a \<Longrightarrow> p = pending a \<or> p = pending a - {#t#} \<Longrightarrow>
    p \<subseteq># active a - {#t#} \<Longrightarrow> call_step (Del t) a (a\<lparr>active := active a - {#t#}, pending := p\<rparr>) 1"
| unknown: "\<not> held a \<Longrightarrow> t \<notin># active a \<Longrightarrow> call_step (Del t) a a 0"
| rearmed: "\<not> held a \<Longrightarrow> t \<in># active a \<Longrightarrow> call_step (Mod t ms) a
    (a\<lparr>objs := (objs a)(t := (objs a t)\<lparr>expires := ms + now a\<rparr>)\<rparr>) 1"
| stuck: "\<not> held a \<Longrightarrow> t \<notin># active a \<Longrightarrow> call_step (Mod t ms) a (a\<lparr>held := True\<rparr>) 0"
| written: "call_step (Put t c) a (a\<lparr>objs := (objs a)(t := c)\<rparr>) 0"

text \<open>Every run ends where the mutex has been kept.\<close>

inductive calls_run :: "('id, 'u) calls \<Rightarrow> ('id, 'u) timer_spec \<Rightarrow> ('id, 'u) timer_spec \<Rightarrow> bool" where
  no_call: "calls_run [] a a"
| calls_held: "held a \<Longrightarrow> calls_run cs a a"
| one_call: "call_step c a b r \<Longrightarrow> calls_run cs (b\<lparr>client := k r (client b)\<rparr>) d \<Longrightarrow> calls_run ((c, k) # cs) a d"

definition advance :: "'id \<Rightarrow> ('id, 'u) timer_spec \<Rightarrow> ('id, 'u) timer_spec" where
  "advance t a = (if periodic (objs a t)
     then a\<lparr>objs := (objs a)(t := (objs a t)\<lparr>expires := expires (objs a t) + period (objs a t)\<rparr>)\<rparr> else a)"

text \<open>A scan looks at each pending registration once, in some order, and fires those that are due then.\<close>

inductive sweep :: "('id, 'u) client \<Rightarrow> ulong \<Rightarrow> ('id, 'u) timer_spec \<Rightarrow> ('id, 'u) timer_spec \<Rightarrow> bool" for f tick where
  swept: "pending a = {#} \<Longrightarrow> sweep f tick a a"
| sweep_held: "held a \<Longrightarrow> sweep f tick a a"
| early: "\<not> held a \<Longrightarrow> t \<in># pending a \<Longrightarrow> tick < expires (objs a t) \<Longrightarrow>
    sweep f tick (a\<lparr>pending := pending a - {#t#}\<rparr>) b \<Longrightarrow> sweep f tick a b"
| fires: "\<not> held a \<Longrightarrow> t \<in># pending a \<Longrightarrow> expires (objs a t) \<le> tick \<Longrightarrow> f t (client a) = (u, cs) \<Longrightarrow>
    calls_run cs (a\<lparr>pending := pending a - {#t#}, client := u\<rparr>) b \<Longrightarrow> sweep f tick (advance t b) d \<Longrightarrow>
    sweep f tick a d"

inductive spec_step :: "('id, 'u) client \<Rightarrow> 'id timer_event \<Rightarrow> ('id, 'u) timer_spec \<Rightarrow> ('id, 'u) timer_spec \<Rightarrow> int \<Rightarrow> bool"
  for f where
  called: "call_step c a b r \<Longrightarrow> pending b = {#} \<Longrightarrow> spec_step f (Call c) a b r"
| scanned: "\<not> held a \<Longrightarrow> sweep f tick (a\<lparr>now := tick, pending := active a\<rparr>) b \<Longrightarrow>
    spec_step f (Scan tick) a (b\<lparr>pending := {#}\<rparr>) 0"

inductive spec_run ::
  "('id, 'u) client \<Rightarrow> 'id timer_event list \<Rightarrow> ('id, 'u) timer_spec \<Rightarrow> ('id, 'u) timer_spec \<Rightarrow> int list \<Rightarrow> bool"
  for f where
  none: "spec_run f [] a a []"
| run_held: "held a \<Longrightarrow> spec_run f es a a []"
| step: "spec_step f e a b r \<Longrightarrow> spec_run f es b d rs \<Longrightarrow> spec_run f (e # es) a d (r # rs)"

inductive_cases call_addE: "call_step (Add t) a b r"
inductive_cases call_delE: "call_step (Del t) a b r"

subsection \<open>The table as a list of registrations\<close>

definition occupants :: "'id option list \<Rightarrow> 'id list" where
  "occupants ts = [t. Some t \<leftarrow> ts]"

lemma occupants_simps [simp]:
  "occupants [] = []" "occupants (None # ts) = occupants ts" "occupants (Some t # ts) = t # occupants ts"
  "occupants (xs @ ys) = occupants xs @ occupants ys"
  by (simp_all add: occupants_def)

lemma registered_occupants: "registered w = occupants (ct_timers w)"
  by (simp add: registered_def occupants_def)

lemma length_occupants: "length (occupants ts) \<le> length ts \<and> (length (occupants ts) = length ts \<longleftrightarrow> None \<notin> set ts)"
  by (induction ts) (auto split: option.split simp: occupants_def)

lemma at_slot: "j < length ts \<Longrightarrow> ts = take j ts @ ts ! j # drop (Suc j) ts"
  by (simp add: id_take_nth_drop)

lemma mset_filled:
  assumes "j < length ts" "ts ! j = None"
  shows "mset (occupants (ts[j := Some t])) = add_mset t (mset (occupants ts))"
  using assms arg_cong [OF at_slot [OF assms(1)], of occupants] by (simp add: upd_conv_take_nth_drop)

lemma mset_emptied:
  assumes "j < length ts" "ts ! j = Some t"
  shows "mset (occupants (ts[j := None])) = mset (occupants ts) - {#t#}" "t \<in># mset (occupants ts)"
  using assms arg_cong [OF at_slot [OF assms(1)], of occupants] by (simp_all add: upd_conv_take_nth_drop)

lemma rest_filled:
  assumes "j < length ts" "ts ! j = None"
  shows "mset (occupants (drop i (ts[j := Some t]))) =
    (if i \<le> j then add_mset t (mset (occupants (drop i ts))) else mset (occupants (drop i ts)))"
  using assms mset_filled [of "j - i" "drop i ts" t] by (simp add: drop_update_swap)

lemma rest_emptied:
  assumes "j < length ts" "ts ! j = Some t"
  shows "mset (occupants (drop i (ts[j := None]))) =
    (if i \<le> j then mset (occupants (drop i ts)) - {#t#} else mset (occupants (drop i ts)))"
  using assms mset_emptied(1) [of "j - i" "drop i ts" t] by (simp add: drop_update_swap)

lemma rest_part: "mset (occupants (drop i ts)) \<subseteq># mset (occupants ts)"
proof -
  have "occupants ts = occupants (take i ts) @ occupants (drop i ts)"
    by (metis append_take_drop_id occupants_simps(4))
  then show ?thesis by simp
qed

subsection \<open>The simulation\<close>

definition ct_wf :: "('id, 'u) ctworld \<Rightarrow> bool" where
  "ct_wf w \<longleftrightarrow> idle w \<and> length (ct_timers w) = 96"

text \<open>The module while the scan has still to look at the slots from \<open>i\<close> on, and at rest.\<close>

definition abs_at :: "nat \<Rightarrow> ('id, 'u) ctworld \<Rightarrow> ('id, 'u) timer_spec" where
  "abs_at i w = \<lparr>active = mset (registered w), pending = mset (occupants (drop i (ct_timers w))), objs = ct_objs w,
     now = ct_ticks w, client = ct_user w, held = ct_locked w\<rparr>"

definition ct_abs :: "('id, 'u) ctworld \<Rightarrow> ('id, 'u) timer_spec" where
  "ct_abs w = \<lparr>active = mset (registered w), pending = {#}, objs = ct_objs w, now = ct_ticks w, client = ct_user w,
     held = ct_locked w\<rparr>"

lemma abs_at_fields [simp]:
  "active (abs_at i w) = mset (registered w)" "pending (abs_at i w) = mset (occupants (drop i (ct_timers w)))"
  "objs (abs_at i w) = ct_objs w" "now (abs_at i w) = ct_ticks w" "client (abs_at i w) = ct_user w"
  "held (abs_at i w) = ct_locked w"
  by (simp_all add: abs_at_def)

lemma held_ct_abs [simp]: "held (ct_abs w) = ct_locked w"
  by (simp add: ct_abs_def)

lemma abs_at_end: "ct_wf w \<Longrightarrow> abs_at 96 w = ct_abs w"
  by (simp add: abs_at_def ct_abs_def ct_wf_def)

lemma table_full:
  assumes "ct_wf w"
  shows "get_free_slot w = None \<longleftrightarrow> size (mset (registered w)) = 96" "size (mset (registered w)) \<le> 96"
  using assms length_occupants [of "ct_timers w"]
  by (auto simp: ct_wf_def get_free_slot_def find_slot_None registered_occupants)

text \<open>A call, or a sequence, that goes through, or that keeps the mutex.\<close>

definition keeps_mutex :: "('id, 'u) ctworld option \<Rightarrow> bool" where
  "keeps_mutex r \<longleftrightarrow> (\<forall>w. r = Some w \<longrightarrow> ct_locked w)"

definition meets :: "nat \<Rightarrow> ('id, 'u) ctworld option \<Rightarrow> ('id, 'u) timer_spec \<Rightarrow> bool" where
  "meets i r a \<longleftrightarrow> (if held a then keeps_mutex r else \<exists>w. r = Some w \<and> ct_wf w \<and> a = abs_at i w)"

lemma sim_add:
  assumes w: "ct_wf w"
  shows "\<exists>w' r. add_ctimer t w = Some (w', r) \<and> ct_wf w' \<and> call_step (Add t) (abs_at i w) (abs_at i w') r"
proof (cases "get_free_slot w")
  case None
  have free: "\<not> held (abs_at i w)" using w by (simp add: ct_wf_def idleD)
  have "add_ctimer t w = Some (w, -1)" using w None by (simp add: add_ctimer_idle ct_wf_def)
  moreover have "size (active (abs_at i w)) = 96" using None table_full(1) [OF w] by simp
  ultimately show ?thesis using w call_step.full [OF free] by blast
next
  case (Some j)
  have free: "\<not> held (abs_at i w)" using w by (simp add: ct_wf_def idleD)
  let ?w = "w\<lparr>ct_timers := (ct_timers w)[j := Some t]\<rparr>"
  have j: "j < length (ct_timers w)" "ct_timers w ! j = None"
    using find_slot_Some [of None "ct_timers w" j] Some by (simp_all add: get_free_slot_def)
  have "add_ctimer t w = Some (?w, 1)" using w Some by (simp add: add_ctimer_idle ct_wf_def)
  moreover have "ct_wf ?w" using w by (simp add: ct_wf_def idle_def)
  moreover have "call_step (Add t) (abs_at i w) (abs_at i ?w) 1"
  proof -
    have n: "size (active (abs_at i w)) < 96" using table_full [OF w] Some by simp
    have p: "pending (abs_at i ?w) = pending (abs_at i w) \<or> pending (abs_at i ?w) = add_mset t (pending (abs_at i w))"
      using rest_filled [OF j] by simp
    have "abs_at i ?w = (abs_at i w)\<lparr>active := add_mset t (active (abs_at i w)), pending := pending (abs_at i ?w)\<rparr>"
      using mset_filled [OF j] by (simp add: abs_at_def registered_occupants)
    with call_step.added [OF free n p] show ?thesis by (simp only:)
  qed
  ultimately show ?thesis by blast
qed

lemma sim_del:
  assumes w: "ct_wf w"
  shows "\<exists>w' r. del_ctimer t w = Some (w', r) \<and> ct_wf w' \<and> call_step (Del t) (abs_at i w) (abs_at i w') r"
proof (cases "get_slot t w")
  case None
  have free: "\<not> held (abs_at i w)" using w by (simp add: ct_wf_def idleD)
  have "del_ctimer t w = Some (w, 0)" using w None by (simp add: del_ctimer_idle ct_wf_def)
  moreover have "t \<notin># active (abs_at i w)" using None by (simp add: get_slot_registered)
  ultimately show ?thesis using w call_step.unknown [OF free] by blast
next
  case (Some j)
  have free: "\<not> held (abs_at i w)" using w by (simp add: ct_wf_def idleD)
  let ?w = "w\<lparr>ct_timers := (ct_timers w)[j := None]\<rparr>"
  have j: "j < length (ct_timers w)" "ct_timers w ! j = Some t"
    using find_slot_Some [of "Some t" "ct_timers w" j] Some by (simp_all add: get_slot_def)
  have "del_ctimer t w = Some (?w, 1)" using w Some by (simp add: del_ctimer_idle ct_wf_def)
  moreover have "ct_wf ?w" using w by (simp add: ct_wf_def idle_def)
  moreover have "call_step (Del t) (abs_at i w) (abs_at i ?w) 1"
  proof -
    have m: "t \<in># active (abs_at i w)" using mset_emptied(2) [OF j] by (simp add: registered_occupants)
    have p: "pending (abs_at i ?w) = pending (abs_at i w) \<or> pending (abs_at i ?w) = pending (abs_at i w) - {#t#}"
      using rest_emptied [OF j] by simp
    have e: "abs_at i ?w = (abs_at i w)\<lparr>active := active (abs_at i w) - {#t#}, pending := pending (abs_at i ?w)\<rparr>"
      using mset_emptied(1) [OF j] by (simp add: abs_at_def registered_occupants)
    have "pending (abs_at i ?w) \<subseteq># active (abs_at i w) - {#t#}"
      using rest_part [of i "(ct_timers w)[j := None]"] mset_emptied(1) [OF j] by (simp add: registered_occupants)
    from call_step.deleted [OF free m p this] e show ?thesis by (simp only:)
  qed
  ultimately show ?thesis by blast
qed

text \<open>A call at any moment of a scan.\<close>

lemma sim_call:
  assumes w: "ct_wf w"
  shows "\<exists>w' r. do_call c w = Some (w', r) \<and> call_step c (abs_at i w) (abs_at i w') r \<and> (ct_wf w' \<or> ct_locked w')"
proof (cases c)
  case (Add t)
  with sim_add [OF w, of t i] show ?thesis by auto
next
  case (Del t)
  with sim_del [OF w, of t i] show ?thesis by auto
next
  case (Put t d)
  have "call_step (Put t d) (abs_at i w) (abs_at i (w\<lparr>ct_objs := (ct_objs w)(t := d)\<rparr>)) 0"
    using call_step.written [of t d "abs_at i w"] by (simp add: abs_at_def registered_def)
  with Put w show ?thesis by (simp add: ct_wf_def idle_def)
next
  case (Mod t ms)
  have free: "\<not> held (abs_at i w)" using w by (simp add: ct_wf_def idleD)
  show ?thesis
  proof (cases "get_slot t w")
    case None
    let ?w = "w\<lparr>ct_locked := True\<rparr>"
    have "mod_ctimer t ms w = Some (?w, 0)"
      using w None by (simp add: mod_ctimer_def get_slot_def ct_wf_def idleD)
    moreover have "t \<notin># active (abs_at i w)" using None by (simp add: get_slot_registered)
    from call_step.stuck [OF free this, of ms] have "call_step (Mod t ms) (abs_at i w) (abs_at i ?w) 0"
      by (simp add: abs_at_def registered_def)
    ultimately show ?thesis using Mod by auto
  next
    case (Some j)
    let ?w = "w\<lparr>ct_objs := (ct_objs w)(t := (ct_objs w t)\<lparr>expires := ms + ct_ticks w\<rparr>)\<rparr>"
    have "mod_ctimer t ms w = Some (?w, 1)" using w mod_ctimer_idle [OF _ Some] by (simp add: ct_wf_def)
    moreover have "t \<in># active (abs_at i w)" using Some get_slot_registered [of t w] by auto
    from call_step.rearmed [OF free this, of ms] have "call_step (Mod t ms) (abs_at i w) (abs_at i ?w) 1"
      by (simp add: abs_at_def registered_def)
    moreover have "ct_wf ?w" using w by (simp add: ct_wf_def idle_def)
    ultimately show ?thesis using Mod by auto
  qed
qed

text \<open>With the mutex held nothing releases it.\<close>

lemma call_locked: "ct_locked w \<Longrightarrow> ct_running w \<Longrightarrow> do_call c w = Some (w', r) \<Longrightarrow> ct_locked w' \<and> ct_running w'"
  by (cases c) (auto simp: add_ctimer_def del_ctimer_def mod_ctimer_def TAKE_MUTEX_def)

lemma calls_locked: "ct_locked w \<Longrightarrow> ct_running w \<Longrightarrow> do_calls cs w = Some w' \<Longrightarrow> ct_locked w' \<and> ct_running w'"
proof (induction cs w rule: do_calls.induct)
  case (2 c k cs w)
  then obtain w1 r where "do_call c w = Some (w1, r)" "do_calls cs (w1\<lparr>ct_user := k r (ct_user w1)\<rparr>) = Some w'"
    by (auto elim!: bind_SomeE)
  with 2 call_locked [of w c w1 r] show ?case by auto
qed simp

lemma from_locked: "ct_locked w \<Longrightarrow> handle_from fire tick is w = Some w' \<Longrightarrow> w' = w"
  by (cases "is") (auto simp: handle_slot_def TAKE_MUTEX_def)

lemma call_running: "do_call c w = Some (w', r) \<Longrightarrow> ct_running w \<Longrightarrow> ct_running w'"
  by (cases c) (auto simp: add_ctimer_def del_ctimer_def mod_ctimer_def TAKE_MUTEX_def RELEASE_MUTEX_def
      split: if_splits option.splits)

lemma abs_user: "abs_at i (w\<lparr>ct_user := u\<rparr>) = (abs_at i w)\<lparr>client := u\<rparr>"
  by (simp add: abs_at_def registered_def)

lemma wf_user [simp]: "ct_wf (w\<lparr>ct_user := u\<rparr>) \<longleftrightarrow> ct_wf w"
  by (simp add: ct_wf_def idle_def)

lemma sim_calls:
  "ct_wf w \<Longrightarrow> \<exists>a. calls_run cs (abs_at i w) a \<and> meets i (do_calls cs w) a"
proof (induction cs w rule: do_calls.induct)
  case (1 w)
  then have "meets i (do_calls [] w) (abs_at i w)" by (simp add: meets_def ct_wf_def idleD)
  then show ?case using calls_run.no_call by blast
next
  case (2 c k cs w)
  obtain w1 r where c: "do_call c w = Some (w1, r)" "call_step c (abs_at i w) (abs_at i w1) r" "ct_wf w1 \<or> ct_locked w1"
    using sim_call [OF 2(2), of c i] by blast
  let ?v = "w1\<lparr>ct_user := k r (ct_user w1)\<rparr>"
  have v: "abs_at i ?v = (abs_at i w1)\<lparr>client := k r (client (abs_at i w1))\<rparr>" by (simp add: abs_user)
  have go: "calls_run ((c, k) # cs) (abs_at i w) d" if "calls_run cs (abs_at i ?v) d" for d
    by (rule calls_run.one_call [where k = k, OF c(2)]) (use that in \<open>simp only: v\<close>)
  show ?case
  proof (cases "ct_locked w1")
    case True
    have "ct_running w" using 2(2) by (simp add: ct_wf_def idleD)
    then have run: "ct_running ?v" using call_running [OF c(1)] by simp
    have lock: "ct_locked ?v" using True by simp
    have "do_calls ((c, k) # cs) w = do_calls cs ?v" using c(1) by simp
    then have "keeps_mutex (do_calls ((c, k) # cs) w)"
      unfolding keeps_mutex_def using calls_locked [OF lock run] by metis
    then have "meets i (do_calls ((c, k) # cs) w) (abs_at i ?v)" using True by (simp add: meets_def)
    moreover have "calls_run cs (abs_at i ?v) (abs_at i ?v)" using True by (intro calls_run.calls_held) simp
    ultimately show ?thesis using go by blast
  next
    case False
    with c(3) have "ct_wf ?v" by simp
    from "2.IH" [OF _ _ this] c(1) obtain a where a: "calls_run cs (abs_at i ?v) a" "meets i (do_calls cs ?v) a" by auto
    then have "meets i (do_calls ((c, k) # cs) w) a" using c(1) by simp
    with go [OF a(1)] show ?thesis by blast
  qed
qed

text \<open>A scan from slot \<open>i\<close> on.\<close>

definition advanced :: "'id \<Rightarrow> ('id, 'u) ctworld \<Rightarrow> ('id, 'u) ctworld" where
  "advanced t w = (if periodic (ct_objs w t)
     then w\<lparr>ct_objs := (ct_objs w)(t := (ct_objs w t)\<lparr>expires := expires (ct_objs w t) + period (ct_objs w t)\<rparr>)\<rparr> else w)"

lemma abs_advanced: "abs_at i (advanced t w) = advance t (abs_at i w)" "ct_wf w \<Longrightarrow> ct_wf (advanced t w)"
  "ct_locked (advanced t w) = ct_locked w"
  by (simp_all add: advanced_def advance_def abs_at_def registered_def ct_wf_def idle_def)

lemma slot_wf:
  assumes "ct_wf w"
  shows "handle_slot fire tick i w = (case ct_timers w ! i of None \<Rightarrow> Some w
    | Some t \<Rightarrow> if expires (ct_objs w t) \<le> tick then map_option (advanced t) (fire t w) else Some w)"
proof -
  have i: "idle w" using assms by (simp add: ct_wf_def)
  have "RELEASE_MUTEX (w\<lparr>ct_locked := True\<rparr>) = w" using i by (simp add: idleD)
  with i show ?thesis
    by (cases "ct_timers w ! i") (auto simp: handle_slot_def advanced_def map_option_case split: option.split)
qed

lemma sim_sweep:
  assumes "ct_wf w" "i \<le> 96"
  shows "\<exists>a. sweep f tick (abs_at i w) a \<and> meets 96 (handle_from (client_fire f) tick [i..<96] w) a"
  using assms
proof (induction "96 - i" arbitrary: i w)
  case 0
  then have "i = 96" by simp
  moreover have "pending (abs_at 96 w) = {#}" using 0(2) by (simp add: ct_wf_def)
  ultimately show ?case
    using 0(2) by (intro exI [of _ "abs_at i w"]) (auto simp: meets_def ct_wf_def idleD intro: sweep.swept)
next
  case (Suc n)
  have i: "i < 96" "[i..<96] = i # [Suc i..<96]" using Suc(2) by (auto simp: upt_conv_Cons)
  have len: "i < length (ct_timers w)" and free: "\<not> held (abs_at i w)" using Suc(3) i(1) by (simp_all add: ct_wf_def idleD)
  have IH: "\<exists>a. sweep f tick (abs_at (Suc i) v) a \<and> meets 96 (handle_from (client_fire f) tick [Suc i..<96] v) a"
    if "ct_wf v" for v using Suc(1) [of "Suc i" v] Suc(2) i(1) that by simp
  have rest: "drop i (ct_timers w) = ct_timers w ! i # drop (Suc i) (ct_timers w)"
    using len by (rule Cons_nth_drop_Suc [symmetric])
  show ?case
  proof (cases "ct_timers w ! i")
    case None
    then have "abs_at (Suc i) w = abs_at i w" by (simp add: abs_at_def rest)
    with IH [OF Suc(3)] None slot_wf [OF Suc(3)] show ?thesis by (simp add: i(2))
  next
    case (Some t)
    have t: "t \<in># pending (abs_at i w)" using Some by (simp add: rest)
    have nxt: "abs_at (Suc i) w = (abs_at i w)\<lparr>pending := pending (abs_at i w) - {#t#}\<rparr>"
      using Some by (simp add: abs_at_def rest)
    show ?thesis
    proof (cases "expires (ct_objs w t) \<le> tick")
      case False
      from IH [OF Suc(3)] obtain a where a: "sweep f tick (abs_at (Suc i) w) a"
        "meets 96 (handle_from (client_fire f) tick [Suc i..<96] w) a" by blast
      have "sweep f tick (abs_at i w) a" using False a(1) unfolding nxt by (intro sweep.early [OF free t]) simp_all
      with a(2) False Some slot_wf [OF Suc(3)] show ?thesis by (auto simp: i(2))
    next
      case True
      obtain u cs where f: "f t (ct_user w) = (u, cs)" by fastforce
      let ?v = "w\<lparr>ct_user := u\<rparr>"
      obtain b where b: "calls_run cs (abs_at (Suc i) ?v) b" "meets (Suc i) (do_calls cs ?v) b"
        using sim_calls [of ?v cs "Suc i"] Suc(3) by auto
      have start: "abs_at (Suc i) ?v = (abs_at i w)\<lparr>pending := pending (abs_at i w) - {#t#}, client := u\<rparr>"
        by (simp add: abs_user nxt)
      have fire: "handle_slot (client_fire f) tick i w = map_option (advanced t) (do_calls cs ?v)"
        using True Some slot_wf [OF Suc(3)] f by (simp add: client_fire_def)
      have f': "f t (client (abs_at i w)) = (u, cs)" using f by simp
      have sw: "sweep f tick (abs_at i w) d" if "sweep f tick (advance t b) d" for d
        
      proof (rule sweep.fires [where f = f and u = u and cs = cs, OF free t])
        show "calls_run cs ((abs_at i w)\<lparr>pending := pending (abs_at i w) - {#t#}, client := u\<rparr>) b" using b(1) by (simp only: start)
      qed (use True f' that in simp_all)
      show ?thesis
      proof (cases "held b")
        case held: True
        with b(2) have k: "keeps_mutex (do_calls cs ?v)" by (simp add: meets_def)
        have h: "held (advance t b)" using held by (simp add: advance_def)
        have "keeps_mutex (handle_from (client_fire f) tick [i..<96] w)"
          unfolding i(2) keeps_mutex_def
        proof (intro allI impI)
          fix w' assume "handle_from (client_fire f) tick (i # [Suc i..<96]) w = Some w'"
          then obtain v where v: "do_calls cs ?v = Some v" "handle_from (client_fire f) tick [Suc i..<96] (advanced t v) = Some w'"
            by (auto simp: fire elim!: bind_SomeE)
          then have "ct_locked (advanced t v)" using k by (simp add: keeps_mutex_def abs_advanced)
          with from_locked [OF this v(2)] show "ct_locked w'" by simp
        qed
        with h have "meets 96 (handle_from (client_fire f) tick [i..<96] w) (advance t b)" by (simp add: meets_def)
        with sw [OF sweep.sweep_held [OF h]] show ?thesis by blast
      next
        case False
        with b(2) obtain v where v: "do_calls cs ?v = Some v" "ct_wf v" "b = abs_at (Suc i) v" by (auto simp: meets_def)
        from IH [OF abs_advanced(2) [OF v(2), of t]] obtain d where
          d: "sweep f tick (abs_at (Suc i) (advanced t v)) d"
            "meets 96 (handle_from (client_fire f) tick [Suc i..<96] (advanced t v)) d" by blast
        have "sweep f tick (abs_at i w) d" by (rule sw) (use d(1) v(3) in \<open>simp add: abs_advanced\<close>)
        with d(2) show ?thesis by (auto simp: i(2) fire v(1))
      qed
    qed
  qed
qed

lemma calls_running: "do_calls cs w = Some w' \<Longrightarrow> ct_running w \<Longrightarrow> ct_running w'"
proof (induction cs w rule: do_calls.induct)
  case (2 c k cs w)
  then obtain w1 r where "do_call c w = Some (w1, r)" "do_calls cs (w1\<lparr>ct_user := k r (ct_user w1)\<rparr>) = Some w'"
    by (auto elim!: bind_SomeE)
  with 2 call_running [of c w w1 r] show ?case by auto
qed simp

lemma from_running: "handle_from (client_fire f) tick is w = Some w' \<Longrightarrow> ct_running w \<Longrightarrow> ct_running w'"
proof (induction "is" arbitrary: w)
  case (Cons i "is")
  then obtain v where v: "handle_slot (client_fire f) tick i w = Some v" "handle_from (client_fire f) tick is v = Some w'"
    by (auto elim!: bind_SomeE)
  have fire: "ct_running u'" if "client_fire f t u = Some u'" "ct_running u" for t u u'
    using that by (auto simp: client_fire_def dest: calls_running split: prod.splits)
  have "ct_running v"
    using v(1) Cons.prems(2)
    by (auto simp: handle_slot_def TAKE_MUTEX_def RELEASE_MUTEX_def Let_def elim!: bind_SomeE dest!: fire
        split: if_splits option.splits)
  with Cons.IH [OF v(2)] show ?case .
qed simp

lemma sim_step:
  assumes w: "ct_wf w"
  shows "\<exists>b r. spec_step f e (ct_abs w) b r \<and>
    (if held b then (\<forall>w' r'. ct_step f e w = Some (w', r') \<longrightarrow> ct_locked w' \<and> ct_running w')
     else \<exists>w'. ct_step f e w = Some (w', r) \<and> ct_wf w' \<and> b = ct_abs w')"
proof (cases e)
  case (Call c)
  obtain w' r where c: "do_call c w = Some (w', r)" "call_step c (abs_at 96 w) (abs_at 96 w') r" "ct_wf w' \<or> ct_locked w'"
    using sim_call [OF w, of c 96] by blast
  have run: "ct_running w'" using call_running [OF c(1)] w by (simp add: ct_wf_def idleD)
  have "length (ct_timers w') = length (ct_timers w)"
    using c(1) by (cases c) (auto simp: add_ctimer_def del_ctimer_def mod_ctimer_def TAKE_MUTEX_def RELEASE_MUTEX_def
        split: if_splits option.splits)
  then have "pending (abs_at 96 w') = {#}" using w by (simp add: ct_wf_def)
  from spec_step.called [OF c(2) this] have "spec_step f e (ct_abs w) (abs_at 96 w') r" using Call w by (simp add: abs_at_end)
  then show ?thesis
    using c(1,3) run Call by (intro exI [of _ "abs_at 96 w'"] exI [of _ r]) (auto simp: abs_at_end ct_wf_def idleD)
next
  case (Scan tick)
  let ?v = "w\<lparr>ct_ticks := tick\<rparr>"
  have v: "ct_wf ?v" using w by (simp add: ct_wf_def idle_def)
  obtain a where a: "sweep f tick (abs_at 0 ?v) a" "meets 96 (handle_from (client_fire f) tick [0..<96] ?v) a"
    using sim_sweep [OF v, of 0 f tick] by auto
  have free: "\<not> held (ct_abs w)" using w by (simp add: ct_abs_def ct_wf_def idleD)
  have "abs_at 0 ?v = (ct_abs w)\<lparr>now := tick, pending := active (ct_abs w)\<rparr>"
    by (simp add: abs_at_def ct_abs_def registered_occupants)
  with spec_step.scanned [OF free] a(1) have s: "spec_step f e (ct_abs w) (a\<lparr>pending := {#}\<rparr>) 0" using Scan by metis
  have r: "ct_step f e w = (case handle_from (client_fire f) tick [0..<96] ?v of None \<Rightarrow> None
      | Some u \<Rightarrow> Some (if ct_running u then u else u\<lparr>ct_sched := []\<rparr>, 0))"
    using Scan by (simp add: handle_ctimers_def split: option.split)
  have k: "ct_running u" if "handle_from (client_fire f) tick [0..<96] ?v = Some u" for u
    using from_running [OF that] w by (simp add: ct_wf_def idleD)
  show ?thesis
  proof (cases "held a")
    case True
    with a(2) have "keeps_mutex (handle_from (client_fire f) tick [0..<96] ?v)" by (simp add: meets_def)
    with s r k True show ?thesis
      by (intro exI [of _ "a\<lparr>pending := {#}\<rparr>"] exI [of _ 0]) (auto simp: keeps_mutex_def split: option.splits)
  next
    case False
    with a(2) obtain u where u: "handle_from (client_fire f) tick [0..<96] ?v = Some u" "ct_wf u" "a = abs_at 96 u"
      by (auto simp: meets_def)
    moreover have "a\<lparr>pending := {#}\<rparr> = ct_abs u" using u(2,3) by (simp add: abs_at_end ct_abs_def)
    ultimately show ?thesis
      using s r k [OF u(1)] False by (intro exI [of _ "a\<lparr>pending := {#}\<rparr>"] exI [of _ 0]) simp
  qed
qed

lemma run_locked:
  "ct_locked w \<Longrightarrow> ct_running w \<Longrightarrow> ct_run f es w = Some (w', rs) \<Longrightarrow> ct_locked w'"
proof (induction es arbitrary: w rs)
  case (Cons e es)
  then obtain w1 r rs1 where s: "ct_step f e w = Some (w1, r)" "ct_run f es w1 = Some (w', rs1)" by (auto elim!: bind_SomeE)
  have "ct_locked w1 \<and> ct_running w1"
  proof (cases e)
    case (Call c)
    with s(1) Cons.prems call_locked [of w c w1 r] show ?thesis by simp
  next
    case (Scan tick)
    have "handle_ctimers fire t v = None" if "ct_locked v" for fire t and v :: "('a, 'b) ctworld"
      using that by (simp add: handle_ctimers_def upt_conv_Cons handle_slot_def TAKE_MUTEX_def)
    with Scan s(1) Cons.prems(1) show ?thesis by simp
  qed
  with Cons.IH [OF _ _ s(2)] show ?case by blast
qed simp

lemma ct_refines:
  "ct_wf w \<Longrightarrow> \<exists>a rs. spec_run f es (ct_abs w) a rs \<and>
    (if held a then (\<forall>w' rs'. ct_run f es w = Some (w', rs') \<longrightarrow> ct_locked w')
     else \<exists>w'. ct_run f es w = Some (w', rs) \<and> ct_wf w' \<and> a = ct_abs w')"
proof (induction es arbitrary: w)
  case Nil
  then show ?case
    by (intro exI [of _ "ct_abs w"] exI [of _ "[]"]) (auto simp: ct_abs_def ct_wf_def idleD intro: spec_run.none)
next
  case (Cons e es)
  obtain b r where b: "spec_step f e (ct_abs w) b r" "if held b then (\<forall>w' r'. ct_step f e w = Some (w', r') \<longrightarrow> ct_locked w' \<and> ct_running w')
     else \<exists>w'. ct_step f e w = Some (w', r) \<and> ct_wf w' \<and> b = ct_abs w'" using sim_step [OF Cons.prems, of f e] by blast
  show ?case
  proof (cases "held b")
    case True
    have "ct_locked w'" if "ct_run f (e # es) w = Some (w', rs')" for w' rs'
    proof -
      from that obtain w1 r1 rs1 where "ct_step f e w = Some (w1, r1)" "ct_run f es w1 = Some (w', rs1)" by (auto elim!: bind_SomeE)
      with b(2) True run_locked show ?thesis by metis
    qed
    with True spec_run.step [OF b(1) spec_run.run_held [OF True]] show ?thesis by metis
  next
    case False
    with b(2) obtain w1 where w1: "ct_step f e w = Some (w1, r)" "ct_wf w1" "b = ct_abs w1" by auto
    from Cons.IH [OF w1(2)] obtain a rs where a: "spec_run f es (ct_abs w1) a rs"
      "if held a then (\<forall>w' rs'. ct_run f es w1 = Some (w', rs') \<longrightarrow> ct_locked w')
       else \<exists>w'. ct_run f es w1 = Some (w', rs) \<and> ct_wf w' \<and> a = ct_abs w'" by blast
    have "ct_run f (e # es) w = do { (w, rs) \<leftarrow> ct_run f es w1; Some (w, r # rs) }" using w1(1) by simp
    with a(2) have "if held a then (\<forall>w' rs'. ct_run f (e # es) w = Some (w', rs') \<longrightarrow> ct_locked w')
       else \<exists>w'. ct_run f (e # es) w = Some (w', r # rs) \<and> ct_wf w' \<and> a = ct_abs w'"
      by (auto split: if_splits elim!: bind_SomeE)
    with spec_run.step [OF b(1) a(1) [folded w1(3)]] show ?thesis by blast
  qed
qed

subsection \<open>The properties\<close>

text \<open>C20. The module implements a multiset of at most 96 registrations, for every client. From a running
  module with its mutex free, any sequence of registrations, removals, re-armings, writes to the timers
  and scans of the timer thread, with callbacks that may call the module themselves, is a run of the
  specification, results included: the 97th registration is refused, a scan looks at each registration
  that is there when it starts, and is not removed before its turn, exactly once, fires it if it is due
  then, and moves it on by its period if it is periodic. The run goes through with the mutex free, unless
  a timer that is not registered is re-armed on the way: then the mutex is never free again.\<close>

theorem ctimers_refine:
  assumes "ct_wf w"
  shows "\<exists>a rs. spec_run f es (ct_abs w) a rs \<and>
    (if held a then (\<forall>w' rs'. ct_run f es w = Some (w', rs') \<longrightarrow> ct_locked w')
     else \<exists>w'. ct_run f es w = Some (w', rs) \<and> ct_wf w' \<and> a = ct_abs w')"
  using assms by (rule ct_refines)

definition sample_timers :: "(nat, nat list) ctworld" where
  "sample_timers = \<lparr>ct_running = True, ct_timers = replicate 96 None,
     ct_objs = (\<lambda>t. \<lparr>expires = 10 * of_nat t, periodic = (t = 1), period = 5\<rparr>), ct_locked = False,
     ct_ticks = 0, ct_sched = [], ct_user = []\<rparr>"

lemma sample_wf: "ct_wf sample_timers" "registered sample_timers = []"
proof -
  have "occupants (replicate n None) = []" for n by (induction n) simp_all
  then show r: "registered sample_timers = []" by (simp only: sample_timers_def registered_occupants ctworld.simps)
  show "ct_wf sample_timers" unfolding ct_wf_def r by (simp add: idle_def sample_timers_def)
qed

text \<open>Two timers, of which the second is removed by its own callback.\<close>

theorem ctimers_refine_witness:
  "let f = \<lambda>t u. (t # u, if t = 2 then [(Del 2, \<lambda>r u. u)] else []);
       es = [Call (Add 1), Call (Add 2), Scan 20, Call (Mod 1 3), Scan 30]
   in \<exists>a rs. spec_run f es (ct_abs sample_timers) a rs \<and>
    (if held a then (\<forall>w' rs'. ct_run f es sample_timers = Some (w', rs') \<longrightarrow> ct_locked w')
     else \<exists>w'. ct_run f es sample_timers = Some (w', rs) \<and> ct_wf w' \<and> a = ct_abs w')"
  unfolding Let_def by (rule ctimers_refine) (rule sample_wf)

text \<open>Re-arming a timer that is not registered keeps the mutex: the call reports 0, and from then on
  every registration, removal and re-arming blocks, and the timer thread fires nothing, whatever its
  schedule.\<close>

theorem mod_ctimer_blocks:
  assumes "idle w" "t \<notin> set (registered w)"
  shows "\<exists>w'. mod_ctimer t ms w = Some (w', 0) \<and>
    (\<forall>u n. add_ctimer u w' = None \<and> del_ctimer u w' = None \<and> mod_ctimer u n w' = None) \<and>
    (\<forall>fire sched. ct_user (timer_turn fire (w'\<lparr>ct_sched := sched\<rparr>)) = ct_user w)"
proof -
  let ?w = "w\<lparr>ct_locked := True\<rparr>"
  have "get_slot t w = None" using assms(2) by (simp add: get_slot_registered)
  then have "mod_ctimer t ms w = Some (?w, 0)"
    using assms(1) by (simp add: mod_ctimer_def get_slot_def idleD)
  moreover have "add_ctimer u ?w = None \<and> del_ctimer u ?w = None \<and> mod_ctimer u n ?w = None" for u n
    using assms(1) by (simp add: add_ctimer_def del_ctimer_def mod_ctimer_def TAKE_MUTEX_def idleD)
  moreover have "ct_user (timer_turn fire (?w\<lparr>ct_sched := sched\<rparr>)) = ct_user w" for fire sched
    using timer_turn_locked(1) [of "?w\<lparr>ct_sched := sched\<rparr>" fire] by simp
  ultimately show ?thesis by blast
qed

theorem mod_ctimer_blocks_witness:
  "\<exists>w'. mod_ctimer 3 500 sample_timers = Some (w', 0) \<and> add_ctimer 4 w' = None"
  using mod_ctimer_blocks [of sample_timers 3 500] sample_wf by (auto simp: ct_wf_def)

end
