(* ===== verification/Ring_Buffer.thy ===== *)
theory Ring_Buffer
  imports Prelude
begin

text \<open>
  Bounded first-in first-out buffers. The modem's receive buffer (\<open>rd_curr_state.databuf\<close> of
  \<open>dmodem.c\<close>) and the queue of \<open>queue.c\<close> are both an array with the index of the oldest element,
  the index of the next free cell and a count. \<open>ring\<close> reads the contents off such an array; the
  locale \<open>fifo\<close> is the interface both offer, and holds what follows for runs of insertions and
  removals; \<open>fits\<close> says which elements can be stored (those of the queue have a fixed size).
\<close>

subsection \<open>The contents of a circular array\<close>

definition ring :: "'a list \<Rightarrow> nat \<Rightarrow> nat \<Rightarrow> 'a list" where
  "ring buf first n = map (\<lambda>i. buf ! ((first + i) mod length buf)) [0..<n]"

definition ring_wf :: "'a list \<Rightarrow> nat \<Rightarrow> nat \<Rightarrow> nat \<Rightarrow> bool" where
  "ring_wf buf first nxt n \<longleftrightarrow>
     0 < length buf \<and> first < length buf \<and> nxt = (first + n) mod length buf \<and> n \<le> length buf"

lemma length_ring [simp]: "length (ring buf first n) = n"
  by (simp add: ring_def)

lemma ring_0 [simp]: "ring buf first 0 = []"
  by (simp add: ring_def)

lemma add_mod_neq:
  assumes "i < n" "n < (c::nat)"
  shows "(f + i) mod c \<noteq> (f + n) mod c"
proof
  assume "(f + i) mod c = (f + n) mod c"
  then have "i mod c = n mod c" by (simp add: nat_mod_eq_iff)
  with assms show False by simp
qed

lemma ring_put:
  assumes "ring_wf buf first nxt n" "n < length buf"
  shows "ring (buf[nxt := x]) first (Suc n) = ring buf first n @ [x]"
    "ring_wf (buf[nxt := x]) first ((nxt + 1) mod length buf) (Suc n)"
proof -
  from assms have nxt: "nxt = (first + n) mod length buf" "nxt < length buf"
    by (auto simp: ring_wf_def)
  have "(buf[nxt := x]) ! ((first + i) mod length buf) = buf ! ((first + i) mod length buf)"
    if "i < n" for i
    using add_mod_neq [OF that assms(2), of first] nxt by simp
  then show "ring (buf[nxt := x]) first (Suc n) = ring buf first n @ [x]"
    using nxt by (simp add: ring_def)
  show "ring_wf (buf[nxt := x]) first ((nxt + 1) mod length buf) (Suc n)"
    using assms nxt by (simp add: ring_wf_def mod_Suc_eq)
qed

lemma ring_get:
  assumes "ring_wf buf first nxt (Suc n)"
  shows "ring buf first (Suc n) = buf ! first # ring buf ((first + 1) mod length buf) n"
    "ring_wf buf ((first + 1) mod length buf) nxt n"
proof -
  from assms have f: "first < length buf" by (simp add: ring_wf_def)
  have "ring buf first (Suc n) = map (\<lambda>i. buf ! ((first + i) mod length buf)) (0 # map Suc [0..<n])"
    unfolding ring_def by (simp only: upt_conv_Cons [OF zero_less_Suc] map_Suc_upt)
  also have "\<dots> = buf ! first # ring buf ((first + 1) mod length buf) n"
    using f by (simp add: ring_def o_def mod_simps)
  finally show "ring buf first (Suc n) = buf ! first # ring buf ((first + 1) mod length buf) n" .
  have "0 < length buf" using f by auto
  then show "ring_wf buf ((first + 1) mod length buf) nxt n"
    using assms by (auto simp: ring_wf_def mod_simps)
qed

subsection \<open>The interface\<close>

fun put_all :: "('a \<Rightarrow> 'q \<Rightarrow> 'q option) \<Rightarrow> 'a list \<Rightarrow> 'q \<Rightarrow> 'q" where
  "put_all put [] q = q"
| "put_all put (x # xs) q = (case put x q of None \<Rightarrow> q | Some q' \<Rightarrow> put_all put xs q')"

fun get_upto :: "('q \<Rightarrow> ('a \<times> 'q) option) \<Rightarrow> nat \<Rightarrow> 'q \<Rightarrow> 'a list \<times> 'q" where
  "get_upto get 0 q = ([], q)"
| "get_upto get (Suc n) q =
     (case get q of None \<Rightarrow> ([], q)
      | Some (x, q') \<Rightarrow> (let (xs, r) = get_upto get n q' in (x # xs, r)))"

locale fifo =
  fixes wf :: "'q \<Rightarrow> bool"
    and cap :: "'q \<Rightarrow> nat"
    and items :: "'q \<Rightarrow> 'a list"
    and fits :: "'a \<Rightarrow> bool"
    and put :: "'a \<Rightarrow> 'q \<Rightarrow> 'q option"
    and get :: "'q \<Rightarrow> ('a \<times> 'q) option"
  assumes bounded: "wf q \<Longrightarrow> length (items q) \<le> cap q"
    and put_room: "wf q \<Longrightarrow> fits x \<Longrightarrow> length (items q) < cap q \<Longrightarrow>
      \<exists>q'. put x q = Some q' \<and> wf q' \<and> cap q' = cap q \<and> items q' = items q @ [x]"
    and put_full: "wf q \<Longrightarrow> length (items q) = cap q \<Longrightarrow> put x q = None"
    and get_some: "wf q \<Longrightarrow> items q = x # xs \<Longrightarrow>
      \<exists>q'. get q = Some (x, q') \<and> wf q' \<and> cap q' = cap q \<and> items q' = xs"
    and get_none: "wf q \<Longrightarrow> items q = [] \<Longrightarrow> get q = None"
begin

text \<open>A run of insertions keeps what fits and drops the rest.\<close>

lemma put_all_items:
  "wf q \<Longrightarrow> list_all fits xs \<Longrightarrow> wf (put_all put xs q) \<and> cap (put_all put xs q) = cap q \<and>
    items (put_all put xs q) = items q @ take (cap q - length (items q)) xs"
proof (induction xs arbitrary: q)
  case Nil
  then show ?case by simp
next
  case (Cons x xs)
  show ?case
  proof (cases "length (items q) = cap q")
    case True
    with put_full [OF Cons.prems(1) True] Cons.prems(1) show ?thesis by simp
  next
    case False
    with bounded [OF Cons.prems(1)] have "length (items q) < cap q" by simp
    from put_room [OF Cons.prems(1) _ this, of x] Cons.prems(2) obtain q' where
      q': "put x q = Some q'" "wf q'" "cap q' = cap q" "items q' = items q @ [x]" by auto
    have "cap q - length (items q) = Suc (cap q - length (items q'))"
      using q'(4) \<open>length (items q) < cap q\<close> by simp
    with Cons.IH [OF q'(2)] Cons.prems(2) q' show ?thesis by simp
  qed
qed

lemma get_upto_items:
  "wf q \<Longrightarrow> get_upto get n q = (ys, r) \<Longrightarrow>
    wf r \<and> cap r = cap q \<and> ys = take n (items q) \<and> items r = drop n (items q)"
proof (induction n arbitrary: q ys r)
  case 0
  then show ?case by simp
next
  case (Suc n)
  show ?case
  proof (cases "items q")
    case Nil
    with Suc.prems get_none [of q] show ?thesis by simp
  next
    case (Cons x xs)
    from get_some [OF Suc.prems(1) this] obtain q' where
      q': "get q = Some (x, q')" "wf q'" "cap q' = cap q" "items q' = xs" by blast
    with Suc.prems(2) obtain zs where "get_upto get n q' = (zs, r)" "ys = x # zs"
      by (auto split: prod.splits)
    with Suc.IH [OF q'(2)] q' Cons show ?thesis by auto
  qed
qed

text \<open>What was put comes out in order, as long as it fits.\<close>

lemma put_then_get:
  assumes "wf q" "items q = []" "length xs \<le> cap q" "list_all fits xs"
  shows "\<exists>r. get_upto get (length xs) (put_all put xs q) = (xs, r) \<and> items r = []"
proof -
  obtain ys r where g: "get_upto get (length xs) (put_all put xs q) = (ys, r)" by fastforce
  from put_all_items [OF assms(1,4)] get_upto_items [OF _ g] assms(2,3) g show ?thesis by auto
qed

end

end
