(* ===== verification/Dmodem_Types.thy ===== *)
theory Dmodem_Types
  imports Proto_Engine C_Timers
begin

text \<open>
  The data of \<open>src/src/framework/telesup/dmodem/dmodem.c\<close> and \<open>dmodem.h\<close>: protocol
  constants, the states and events of the four state machines, the configuration and the state of
  one connection (\<open>DmodemHandler\<close>, one slot of \<open>dmodemController\<close>; every operation works on
  the slot its handle names).

  The callbacks the application installs (\<open>send_buf\<close>, \<open>rcv_byte\<close>, \<open>get_dcd_status\<close>) are
  function fields, as in the code; what \<open>uplayer_data\<close> points to is the state they read and
  change, of type \<open>'w\<close>. The timers of a connection are registered in the timer module
  (\<open>C_Timers\<close>), whose world wraps the connection.

  A pointer into the frame buffer is an offset (\<open>rd_ppayload\<close>), the caller's buffer seen from
  \<open>pdata\<close> is the list of the bytes from there on (\<open>wr_pdata\<close>), the four bytes of the
  \<open>checksum\<close> field are kept as bytes (they are written one by one through \<open>pchecksum\<close>), and
  sizes are naturals: they are bounded by the sizes of the buffers and never wrap.
\<close>

subsection \<open>Constants\<close>

definition DM_SOH :: byte where
  [simp]: "DM_SOH = 0x01"

definition DM_CTRL_BYTE_0 :: byte where
  [simp]: "DM_CTRL_BYTE_0 = 0"

definition DM_CTRL_BYTE_1 :: byte where
  [simp]: "DM_CTRL_BYTE_1 = 0"

definition DM_MAX_FRAME_LEN :: nat where
  [simp]: "DM_MAX_FRAME_LEN = 525"

definition DM_HEADER_LEN :: nat where
  [simp]: "DM_HEADER_LEN = 9"

definition DM_TAIL_LEN :: nat where
  [simp]: "DM_TAIL_LEN = 4"

definition DM_MAX_DATA_LEN :: nat where
  [simp]: "DM_MAX_DATA_LEN = DM_MAX_FRAME_LEN - DM_HEADER_LEN - DM_TAIL_LEN"

definition DM_MAX_DATA_READ :: nat where
  [simp]: "DM_MAX_DATA_READ = 1024"

definition EDMODEM_NOERROR :: int where
  [simp]: "EDMODEM_NOERROR = 0"

definition EDMODEM_FATAL :: int where
  [simp]: "EDMODEM_FATAL = 1"

definition EDMODEM_TXUPLAYER_TO :: int where
  [simp]: "EDMODEM_TXUPLAYER_TO = 2"

definition EDMODEM_RXUPLAYER_TO :: int where
  [simp]: "EDMODEM_RXUPLAYER_TO = 3"

definition EDMODEM_MAXRETRIES :: int where
  [simp]: "EDMODEM_MAXRETRIES = 4"

definition EDMODEM_CONNECTION_TO :: int where
  [simp]: "EDMODEM_CONNECTION_TO = 5"

definition EDMODEM_EOT :: int where
  [simp]: "EDMODEM_EOT = 6"

definition DM_ACK :: byte where
  [simp]: "DM_ACK = 0x06"

definition DM_ACK_COMP :: byte where
  [simp]: "DM_ACK_COMP = NOT 0x06"

definition DM_NACK :: byte where
  [simp]: "DM_NACK = 0x15"

definition DM_NACK_COMP :: byte where
  [simp]: "DM_NACK_COMP = NOT 0x15"

definition DM_EOT :: byte where
  [simp]: "DM_EOT = 0x04"

definition DM_EOTCOMP :: byte where
  [simp]: "DM_EOTCOMP = NOT 0x04"

definition DM_SYN :: byte where
  [simp]: "DM_SYN = 0x16"

definition DM_SYNCOMP :: byte where
  [simp]: "DM_SYNCOMP = NOT 0x16"

definition DMODEM_MAX_DATA_SIZE_DEF :: nat where
  [simp]: "DMODEM_MAX_DATA_SIZE_DEF = 512"

definition DMODEM_TXFRAME_TO_DEF :: ulong where
  [simp]: "DMODEM_TXFRAME_TO_DEF = 10000"

definition DMODEM_RXBYTE_TO_DEF :: ulong where
  [simp]: "DMODEM_RXBYTE_TO_DEF = 1000"

definition DMODEM_MAX_RETIRES_DEF :: int where
  [simp]: "DMODEM_MAX_RETIRES_DEF = 15"

definition DMODEM_TXUPLAYER_TO_DEF :: ulong where
  [simp]: "DMODEM_TXUPLAYER_TO_DEF = 60000"

definition DMODEM_RXUPLAYER_TO_DEF :: ulong where
  [simp]: "DMODEM_RXUPLAYER_TO_DEF = 60000"

definition DMODEM_STARTCONN_TO_DEF :: ulong where
  [simp]: "DMODEM_STARTCONN_TO_DEF = 60000"

definition MAX_CONN_ACCEPTED :: nat where
  [simp]: "MAX_CONN_ACCEPTED = 32"

definition O_DMODEM_SPRD_BLOCK :: ulong where
  [simp]: "O_DMODEM_SPRD_BLOCK = 0"

definition O_DMODEM_SPRD_NONBLOCK :: ulong where
  [simp]: "O_DMODEM_SPRD_NONBLOCK = 1"

subsection \<open>States of the protocols\<close>

definition INVALID_ST :: int where
  [simp]: "INVALID_ST = 0"

definition EXIT_ST :: int where
  [simp]: "EXIT_ST = 1"

definition START_WRST :: int where
  [simp]: "START_WRST = 2"

definition FRAMESENDED_WRST :: int where
  [simp]: "FRAMESENDED_WRST = 3"

definition CTRLMOREFRAMES_WRST :: int where
  [simp]: "CTRLMOREFRAMES_WRST = 4"

definition CTRLRETRANS_WRST :: int where
  [simp]: "CTRLRETRANS_WRST = 5"

definition ACKRCV_WRST :: int where
  [simp]: "ACKRCV_WRST = 6"

definition NACKRCV_WRST :: int where
  [simp]: "NACKRCV_WRST = 7"

definition WAITSOH_RDST :: int where
  [simp]: "WAITSOH_RDST = 8"

definition WAITCTRL0_RDST :: int where
  [simp]: "WAITCTRL0_RDST = 9"

definition WAITCTRL1_RDST :: int where
  [simp]: "WAITCTRL1_RDST = 10"

definition WAITSEQ_RDST :: int where
  [simp]: "WAITSEQ_RDST = 11"

definition WAITSEQCOMP_RDST :: int where
  [simp]: "WAITSEQCOMP_RDST = 12"

definition WAITLEN0_RDST :: int where
  [simp]: "WAITLEN0_RDST = 13"

definition WAITLEN1_RDST :: int where
  [simp]: "WAITLEN1_RDST = 14"

definition WAITLEN0COMP_RDST :: int where
  [simp]: "WAITLEN0COMP_RDST = 15"

definition WAITLEN1COMP_RDST :: int where
  [simp]: "WAITLEN1COMP_RDST = 16"

definition WAITPAYLOAD_RDST :: int where
  [simp]: "WAITPAYLOAD_RDST = 17"

definition WAITCHECKSUM_RDST :: int where
  [simp]: "WAITCHECKSUM_RDST = 18"

definition CTRLRETRANS_RDST :: int where
  [simp]: "CTRLRETRANS_RDST = 19"

definition DISCARDBYTES_RDST :: int where
  [simp]: "DISCARDBYTES_RDST = 20"

definition DISCARDRETRANS_RDST :: int where
  [simp]: "DISCARDRETRANS_RDST = 21"

definition SYNRCV_RDST :: int where
  [simp]: "SYNRCV_RDST = 22"

definition SYNCOMPRCV_RDST :: int where
  [simp]: "SYNCOMPRCV_RDST = 23"

definition EOTRCV_RDST :: int where
  [simp]: "EOTRCV_RDST = 24"

definition EOTCOMPRCV_RDST :: int where
  [simp]: "EOTCOMPRCV_RDST = 25"

definition START_CONNST :: int where
  [simp]: "START_CONNST = 26"

definition SYNSENDED_CONNST :: int where
  [simp]: "SYNSENDED_CONNST = 27"

definition CTRLRETRANS_CONNST :: int where
  [simp]: "CTRLRETRANS_CONNST = 28"

definition NACKRCV_CONNST :: int where
  [simp]: "NACKRCV_CONNST = 29"

definition START_DISCONNST :: int where
  [simp]: "START_DISCONNST = 30"

definition EOTSENDED_DISCONNST :: int where
  [simp]: "EOTSENDED_DISCONNST = 31"

definition CTRLRETRANS_DISCONNST :: int where
  [simp]: "CTRLRETRANS_DISCONNST = 32"

definition ACKRCV_DISCONNST :: int where
  [simp]: "ACKRCV_DISCONNST = 33"

subsection \<open>Events of the protocols\<close>

definition NO_EVT :: int where
  [simp]: "NO_EVT = 0"

definition START_EVT :: int where
  [simp]: "START_EVT = 1"

definition SENDFRAME_WREVT :: int where
  [simp]: "SENDFRAME_WREVT = 2"

definition ACK_WREVT :: int where
  [simp]: "ACK_WREVT = 3"

definition ACKCOMP_WREVT :: int where
  [simp]: "ACKCOMP_WREVT = 4"

definition NACK_WREVT :: int where
  [simp]: "NACK_WREVT = 5"

definition NACKCOMP_WREVT :: int where
  [simp]: "NACKCOMP_WREVT = 6"

definition UNBYTE_WREVT :: int where
  [simp]: "UNBYTE_WREVT = 7"

definition TXFRAMETO_WREVT :: int where
  [simp]: "TXFRAMETO_WREVT = 8"

definition TXUPLAYERTO_WREVT :: int where
  [simp]: "TXUPLAYERTO_WREVT = 9"

definition MOREFRAMES_WREVT :: int where
  [simp]: "MOREFRAMES_WREVT = 10"

definition NOMOREFRAMES_WREVT :: int where
  [simp]: "NOMOREFRAMES_WREVT = 11"

definition MORERETRANS_WREVT :: int where
  [simp]: "MORERETRANS_WREVT = 12"

definition NOMORERETRANS_WREVT :: int where
  [simp]: "NOMORERETRANS_WREVT = 13"

definition FRAMESENDEDERR_WREVT :: int where
  [simp]: "FRAMESENDEDERR_WREVT = 14"

definition RCVSOH_RDEVT :: int where
  [simp]: "RCVSOH_RDEVT = 15"

definition NOTSOH_RDEVT :: int where
  [simp]: "NOTSOH_RDEVT = 16"

definition RCVCTRL0_RDEVT :: int where
  [simp]: "RCVCTRL0_RDEVT = 17"

definition RCVCTRL1_RDEVT :: int where
  [simp]: "RCVCTRL1_RDEVT = 18"

definition RCVSEQ_RDEVT :: int where
  [simp]: "RCVSEQ_RDEVT = 19"

definition RCVSEQCOMP_RDEVT :: int where
  [simp]: "RCVSEQCOMP_RDEVT = 20"

definition RCVLEN0_RDEVT :: int where
  [simp]: "RCVLEN0_RDEVT = 21"

definition RCVLEN1_RDEVT :: int where
  [simp]: "RCVLEN1_RDEVT = 22"

definition RCVLEN0COMP_RDEVT :: int where
  [simp]: "RCVLEN0COMP_RDEVT = 23"

definition RCVLEN1COMP_RDEVT :: int where
  [simp]: "RCVLEN1COMP_RDEVT = 24"

definition RCVBYTE_RDEVT :: int where
  [simp]: "RCVBYTE_RDEVT = 25"

definition PAYLOADRCV_RDEVT :: int where
  [simp]: "PAYLOADRCV_RDEVT = 26"

definition NOMOREFRAMES_RDEVT :: int where
  [simp]: "NOMOREFRAMES_RDEVT = 27"

definition MOREFRAMES_RDEVT :: int where
  [simp]: "MOREFRAMES_RDEVT = 28"

definition MORERETRANS_RDEVT :: int where
  [simp]: "MORERETRANS_RDEVT = 29"

definition NOMORERETRANS_RDEVT :: int where
  [simp]: "NOMORERETRANS_RDEVT = 30"

definition BADFRAME_RDEVT :: int where
  [simp]: "BADFRAME_RDEVT = 31"

definition RETRANS_RDEVT :: int where
  [simp]: "RETRANS_RDEVT = 32"

definition RXBYTETO_RDEVT :: int where
  [simp]: "RXBYTETO_RDEVT = 33"

definition RXUPLAYERTO_RDEVT :: int where
  [simp]: "RXUPLAYERTO_RDEVT = 34"

definition SYN_RDEVT :: int where
  [simp]: "SYN_RDEVT = 35"

definition SENDSYN_CONNEVT :: int where
  [simp]: "SENDSYN_CONNEVT = 36"

definition UNBYTE_CONNEVT :: int where
  [simp]: "UNBYTE_CONNEVT = 37"

definition TXFRAMETO_CONNEVT :: int where
  [simp]: "TXFRAMETO_CONNEVT = 38"

definition TXUPLAYERTO_CONNEVT :: int where
  [simp]: "TXUPLAYERTO_CONNEVT = 39"

definition NACK_CONNEVT :: int where
  [simp]: "NACK_CONNEVT = 40"

definition SYN_SENDEDERR_CONNEVT :: int where
  [simp]: "SYN_SENDEDERR_CONNEVT = 41"

definition MORERETRANS_CONNEVT :: int where
  [simp]: "MORERETRANS_CONNEVT = 42"

definition NOMORERETRANS_CONNEVT :: int where
  [simp]: "NOMORERETRANS_CONNEVT = 43"

definition NACKCOMP_CONNEVT :: int where
  [simp]: "NACKCOMP_CONNEVT = 44"

definition EOT_RDEVT :: int where
  [simp]: "EOT_RDEVT = 45"

definition SENDEOT_DISCONNEVT :: int where
  [simp]: "SENDEOT_DISCONNEVT = 46"

definition UNBYTE_DISCONNEVT :: int where
  [simp]: "UNBYTE_DISCONNEVT = 47"

definition TXFRAMETO_DISCONNEVT :: int where
  [simp]: "TXFRAMETO_DISCONNEVT = 48"

definition TXUPLAYERTO_DISCONNEVT :: int where
  [simp]: "TXUPLAYERTO_DISCONNEVT = 49"

definition ACK_DISCONNEVT :: int where
  [simp]: "ACK_DISCONNEVT = 50"

definition EOT_SENDEDERR_DISCONNEVT :: int where
  [simp]: "EOT_SENDEDERR_DISCONNEVT = 51"

definition MORERETRANS_DISCONNEVT :: int where
  [simp]: "MORERETRANS_DISCONNEVT = 52"

definition NOMORERETRANS_DISCONNEVT :: int where
  [simp]: "NOMORERETRANS_DISCONNEVT = 53"

definition ACKCOMP_DISCONNEVT :: int where
  [simp]: "ACKCOMP_DISCONNEVT = 54"

subsection \<open>The state of a connection\<close>

record DModemConfig =
  max_data_size :: nat
  txframe_to :: ulong
  rxbyte_to :: ulong
  max_retries :: int
  txuplayer_to :: ulong
  rxuplayer_to :: ulong
  startconn_to :: ulong
  flags :: ulong

record Statistic =
  txnaks :: ushort
  txacks :: ushort
  txframeTO :: ushort
  rxacks :: ushort
  rxnaks :: ushort

record DMReadCurrState =
  rd_ppayload :: nat
  rd_size_to_read :: nat
  rd_size_readed :: nat
  rd_curr_bytes_readed :: nat
  rd_next_seqno :: byte
  rd_curr_seqno :: byte
  rd_byte_rcv :: byte
  rd_curr_payload_len :: ushort
  rd_curr_payload_len_comp :: ushort
  rd_checksum :: "byte list"
  rd_pchecksum :: nat
  rd_retrans_no :: int
  rd_databuf :: "byte list"
  rd_last_data_index :: nat
  rd_first_data_index :: nat
  rd_data_count :: nat
  rd_max_data_count :: nat
  rd_rxuplayer_timer_expired :: bool

record DMWriteCurrState =
  wr_pdata :: "byte list"
  wr_data_size :: nat
  wr_remain_size :: nat
  wr_curr_frame_data_size :: nat
  wr_curr_seqno :: byte
  wr_retrans_no :: int
  wr_txuplayer_timer_expired :: bool
  wr_txframe_timer_expired :: bool

record DMConnectCurrState =
  conn_retrans_no :: int
  conn_connuplayer_timer_expired :: bool
  conn_connframe_timer_expired :: bool

record DMDisconnectCurrState =
  disconn_retrans_no :: int
  disconn_disconnuplayer_timer_expired :: bool
  disconn_disconnframe_timer_expired :: bool

record 'w DmodemHandler =
  handle :: int
  dm_global_error :: int
  send_buf :: "'w \<Rightarrow> byte list \<Rightarrow> 'w \<times> int"
  rcv_byte :: "'w \<Rightarrow> int \<Rightarrow> 'w \<times> int \<times> byte"
  uplayer_data :: 'w
  get_dcd_status :: "'w \<Rightarrow> 'w \<times> int"
  dmconf :: DModemConfig
  dmodem_frame :: "byte list"
  wr_curr_state :: DMWriteCurrState
  rd_curr_state :: DMReadCurrState
  conn_curr_state :: DMConnectCurrState
  disconn_curr_state :: DMDisconnectCurrState
  statistics :: Statistic
  logActive :: int

text \<open>
  The timers of a connection that have a callback, and those of the rest of the program. The two of the
  disconnect operation, which have none, are in \<open>Dmodem_Link\<close>: no other operation registers them, and
  that one never returns.
\<close>

datatype dm_timer =
    txuplayer_timer | txframe_timer | rxuplayer_timer | connuplayer_timer | connframe_timer
  | other_timer nat

type_synonym 'w dm_sys = "(dm_timer, 'w DmodemHandler) ctworld"

text \<open>Writing through the nested structures.\<close>

abbreviation upd_h :: "('w DmodemHandler \<Rightarrow> 'w DmodemHandler) \<Rightarrow> ('t, 'w DmodemHandler) ctworld \<Rightarrow> ('t, 'w DmodemHandler) ctworld" where
  "upd_h f s \<equiv> s\<lparr>ct_user := f (ct_user s)\<rparr>"

abbreviation upd_wr :: "(DMWriteCurrState \<Rightarrow> DMWriteCurrState) \<Rightarrow> 'w dm_sys \<Rightarrow> 'w dm_sys" where
  "upd_wr f \<equiv> upd_h (\<lambda>h. h\<lparr>wr_curr_state := f (wr_curr_state h)\<rparr>)"

abbreviation upd_rd :: "(DMReadCurrState \<Rightarrow> DMReadCurrState) \<Rightarrow> 'w dm_sys \<Rightarrow> 'w dm_sys" where
  "upd_rd f \<equiv> upd_h (\<lambda>h. h\<lparr>rd_curr_state := f (rd_curr_state h)\<rparr>)"

abbreviation upd_conn :: "(DMConnectCurrState \<Rightarrow> DMConnectCurrState) \<Rightarrow> 'w dm_sys \<Rightarrow> 'w dm_sys" where
  "upd_conn f \<equiv> upd_h (\<lambda>h. h\<lparr>conn_curr_state := f (conn_curr_state h)\<rparr>)"

abbreviation upd_disconn ::
  "(DMDisconnectCurrState \<Rightarrow> DMDisconnectCurrState) \<Rightarrow> ('t, 'w DmodemHandler) ctworld \<Rightarrow> ('t, 'w DmodemHandler) ctworld" where
  "upd_disconn f \<equiv> upd_h (\<lambda>h. h\<lparr>disconn_curr_state := f (disconn_curr_state h)\<rparr>)"

abbreviation upd_stat :: "(Statistic \<Rightarrow> Statistic) \<Rightarrow> 'w dm_sys \<Rightarrow> 'w dm_sys" where
  "upd_stat f \<equiv> upd_h (\<lambda>h. h\<lparr>statistics := f (statistics h)\<rparr>)"

abbreviation wrs :: "'w dm_sys \<Rightarrow> DMWriteCurrState" where
  "wrs s \<equiv> wr_curr_state (ct_user s)"

abbreviation rds :: "'w dm_sys \<Rightarrow> DMReadCurrState" where
  "rds s \<equiv> rd_curr_state (ct_user s)"

abbreviation conf :: "('t, 'w DmodemHandler) ctworld \<Rightarrow> DModemConfig" where
  "conf s \<equiv> dmconf (ct_user s)"

definition SET_GLOBAL_ERROR :: "int \<Rightarrow> ('t, 'w DmodemHandler) ctworld \<Rightarrow> ('t, 'w DmodemHandler) ctworld" where
  "SET_GLOBAL_ERROR err s = upd_h (\<lambda>h. h\<lparr>dm_global_error := err\<rparr>) s"

definition CLEAR_GLOBAL_ERROR :: "('t, 'w DmodemHandler) ctworld \<Rightarrow> ('t, 'w DmodemHandler) ctworld" where
  "CLEAR_GLOBAL_ERROR s = upd_h (\<lambda>h. h\<lparr>dm_global_error := EDMODEM_NOERROR\<rparr>) s"

definition GET_GLOBAL_ERROR :: "'w dm_sys \<Rightarrow> int" where
  "GET_GLOBAL_ERROR s = dm_global_error (ct_user s)"

subsection \<open>The line\<close>

definition line_send :: "byte list \<Rightarrow> ('t, 'w DmodemHandler) ctworld \<Rightarrow> ('t, 'w DmodemHandler) ctworld \<times> int" where
  "line_send bs s =
     (let h = ct_user s; (w, r) = send_buf h (uplayer_data h) bs
      in (s\<lparr>ct_user := h\<lparr>uplayer_data := w\<rparr>\<rparr>, r))"

definition line_recv :: "int \<Rightarrow> ('t, 'w DmodemHandler) ctworld \<Rightarrow> ('t, 'w DmodemHandler) ctworld \<times> int \<times> byte" where
  "line_recv rcv_type s =
     (let h = ct_user s; (w, r, b) = rcv_byte h (uplayer_data h) rcv_type
      in (s\<lparr>ct_user := h\<lparr>uplayer_data := w\<rparr>\<rparr>, r, b))"

definition line_dcd :: "('t, 'w DmodemHandler) ctworld \<Rightarrow> ('t, 'w DmodemHandler) ctworld \<times> int" where
  "line_dcd s =
     (let h = ct_user s; (w, r) = get_dcd_status h (uplayer_data h)
      in (s\<lparr>ct_user := h\<lparr>uplayer_data := w\<rparr>\<rparr>, r))"

subsection \<open>The timers' callbacks\<close>

definition txuplayer_timer_handler :: "'w DmodemHandler \<Rightarrow> 'w DmodemHandler" where
  "txuplayer_timer_handler h =
     h\<lparr>wr_curr_state := (wr_curr_state h)\<lparr>wr_txuplayer_timer_expired := True\<rparr>\<rparr>"

definition txframe_timer_handler :: "'w DmodemHandler \<Rightarrow> 'w DmodemHandler" where
  "txframe_timer_handler h =
     h\<lparr>wr_curr_state := (wr_curr_state h)\<lparr>wr_txframe_timer_expired := True\<rparr>\<rparr>"

definition rxuplayer_timer_handler :: "'w DmodemHandler \<Rightarrow> 'w DmodemHandler" where
  "rxuplayer_timer_handler h =
     h\<lparr>rd_curr_state := (rd_curr_state h)\<lparr>rd_rxuplayer_timer_expired := True\<rparr>\<rparr>"

definition connuplayer_timer_handler :: "'w DmodemHandler \<Rightarrow> 'w DmodemHandler" where
  "connuplayer_timer_handler h =
     h\<lparr>conn_curr_state := (conn_curr_state h)\<lparr>conn_connuplayer_timer_expired := True\<rparr>\<rparr>"

definition connframe_timer_handler :: "'w DmodemHandler \<Rightarrow> 'w DmodemHandler" where
  "connframe_timer_handler h =
     h\<lparr>conn_curr_state := (conn_curr_state h)\<lparr>conn_connframe_timer_expired := True\<rparr>\<rparr>"

text \<open>These two are defined by the source and installed nowhere.\<close>

definition disconnuplayer_timer_handler :: "'w DmodemHandler \<Rightarrow> 'w DmodemHandler" where
  "disconnuplayer_timer_handler h =
     h\<lparr>disconn_curr_state := (disconn_curr_state h)\<lparr>disconn_disconnuplayer_timer_expired := True\<rparr>\<rparr>"

definition disconnframe_timer_handler :: "'w DmodemHandler \<Rightarrow> 'w DmodemHandler" where
  "disconnframe_timer_handler h =
     h\<lparr>disconn_curr_state := (disconn_curr_state h)\<lparr>disconn_disconnframe_timer_expired := True\<rparr>\<rparr>"

text \<open>
  The callbacks that \<open>dmodem_open\<close> installs in the timers. Timers of other modules do not touch a
  connection.
\<close>

fun timer_handler :: "dm_timer \<Rightarrow> 'w DmodemHandler \<Rightarrow> 'w DmodemHandler" where
  "timer_handler txuplayer_timer = txuplayer_timer_handler"
| "timer_handler txframe_timer = txframe_timer_handler"
| "timer_handler rxuplayer_timer = rxuplayer_timer_handler"
| "timer_handler connuplayer_timer = connuplayer_timer_handler"
| "timer_handler connframe_timer = connframe_timer_handler"
| "timer_handler (other_timer n) = (\<lambda>h. h)"

lemmas timer_handler_defs = txuplayer_timer_handler_def txframe_timer_handler_def
  rxuplayer_timer_handler_def connuplayer_timer_handler_def connframe_timer_handler_def

text \<open>The timer thread's turn before a poll of the line.\<close>

definition dm_timers_run :: "'w dm_sys \<Rightarrow> 'w dm_sys" where
  "dm_timers_run s = timer_turn (user_fire timer_handler) s"

end
