(* ===== verification/Dmodem_Frame.thy ===== *)
theory Dmodem_Frame
  imports Dmodem_Types
begin

text \<open>
  Frames of \<open>src/src/framework/telesup/dmodem/dmodem.c\<close>: the table-driven CRC-32
  (\<open>get_dmchecksum\<close>), the frame layout (\<open>make_dmframe\<close>) and the two-byte acknowledgements.

  The CRC lemmas show that the table routine is the bit-serial CRC-32 with the reflected
  polynomial 0xEDB88320 and that a corruption confined to four consecutive bytes of a payload
  always changes the checksum.
\<close>

subsection \<open>The checksum\<close>

definition crc32_tab :: "ulong list" where
  "crc32_tab = [
    0x00000000, 0x77073096, 0xEE0E612C, 0x990951BA, 0x076DC419, 0x706AF48F,
    0xE963A535, 0x9E6495A3, 0x0EDB8832, 0x79DCB8A4, 0xE0D5E91E, 0x97D2D988,
    0x09B64C2B, 0x7EB17CBD, 0xE7B82D07, 0x90BF1D91, 0x1DB71064, 0x6AB020F2,
    0xF3B97148, 0x84BE41DE, 0x1ADAD47D, 0x6DDDE4EB, 0xF4D4B551, 0x83D385C7,
    0x136C9856, 0x646BA8C0, 0xFD62F97A, 0x8A65C9EC, 0x14015C4F, 0x63066CD9,
    0xFA0F3D63, 0x8D080DF5, 0x3B6E20C8, 0x4C69105E, 0xD56041E4, 0xA2677172,
    0x3C03E4D1, 0x4B04D447, 0xD20D85FD, 0xA50AB56B, 0x35B5A8FA, 0x42B2986C,
    0xDBBBC9D6, 0xACBCF940, 0x32D86CE3, 0x45DF5C75, 0xDCD60DCF, 0xABD13D59,
    0x26D930AC, 0x51DE003A, 0xC8D75180, 0xBFD06116, 0x21B4F4B5, 0x56B3C423,
    0xCFBA9599, 0xB8BDA50F, 0x2802B89E, 0x5F058808, 0xC60CD9B2, 0xB10BE924,
    0x2F6F7C87, 0x58684C11, 0xC1611DAB, 0xB6662D3D, 0x76DC4190, 0x01DB7106,
    0x98D220BC, 0xEFD5102A, 0x71B18589, 0x06B6B51F, 0x9FBFE4A5, 0xE8B8D433,
    0x7807C9A2, 0x0F00F934, 0x9609A88E, 0xE10E9818, 0x7F6A0DBB, 0x086D3D2D,
    0x91646C97, 0xE6635C01, 0x6B6B51F4, 0x1C6C6162, 0x856530D8, 0xF262004E,
    0x6C0695ED, 0x1B01A57B, 0x8208F4C1, 0xF50FC457, 0x65B0D9C6, 0x12B7E950,
    0x8BBEB8EA, 0xFCB9887C, 0x62DD1DDF, 0x15DA2D49, 0x8CD37CF3, 0xFBD44C65,
    0x4DB26158, 0x3AB551CE, 0xA3BC0074, 0xD4BB30E2, 0x4ADFA541, 0x3DD895D7,
    0xA4D1C46D, 0xD3D6F4FB, 0x4369E96A, 0x346ED9FC, 0xAD678846, 0xDA60B8D0,
    0x44042D73, 0x33031DE5, 0xAA0A4C5F, 0xDD0D7CC9, 0x5005713C, 0x270241AA,
    0xBE0B1010, 0xC90C2086, 0x5768B525, 0x206F85B3, 0xB966D409, 0xCE61E49F,
    0x5EDEF90E, 0x29D9C998, 0xB0D09822, 0xC7D7A8B4, 0x59B33D17, 0x2EB40D81,
    0xB7BD5C3B, 0xC0BA6CAD, 0xEDB88320, 0x9ABFB3B6, 0x03B6E20C, 0x74B1D29A,
    0xEAD54739, 0x9DD277AF, 0x04DB2615, 0x73DC1683, 0xE3630B12, 0x94643B84,
    0x0D6D6A3E, 0x7A6A5AA8, 0xE40ECF0B, 0x9309FF9D, 0x0A00AE27, 0x7D079EB1,
    0xF00F9344, 0x8708A3D2, 0x1E01F268, 0x6906C2FE, 0xF762575D, 0x806567CB,
    0x196C3671, 0x6E6B06E7, 0xFED41B76, 0x89D32BE0, 0x10DA7A5A, 0x67DD4ACC,
    0xF9B9DF6F, 0x8EBEEFF9, 0x17B7BE43, 0x60B08ED5, 0xD6D6A3E8, 0xA1D1937E,
    0x38D8C2C4, 0x4FDFF252, 0xD1BB67F1, 0xA6BC5767, 0x3FB506DD, 0x48B2364B,
    0xD80D2BDA, 0xAF0A1B4C, 0x36034AF6, 0x41047A60, 0xDF60EFC3, 0xA867DF55,
    0x316E8EEF, 0x4669BE79, 0xCB61B38C, 0xBC66831A, 0x256FD2A0, 0x5268E236,
    0xCC0C7795, 0xBB0B4703, 0x220216B9, 0x5505262F, 0xC5BA3BBE, 0xB2BD0B28,
    0x2BB45A92, 0x5CB36A04, 0xC2D7FFA7, 0xB5D0CF31, 0x2CD99E8B, 0x5BDEAE1D,
    0x9B64C2B0, 0xEC63F226, 0x756AA39C, 0x026D930A, 0x9C0906A9, 0xEB0E363F,
    0x72076785, 0x05005713, 0x95BF4A82, 0xE2B87A14, 0x7BB12BAE, 0x0CB61B38,
    0x92D28E9B, 0xE5D5BE0D, 0x7CDCEFB7, 0x0BDBDF21, 0x86D3D2D4, 0xF1D4E242,
    0x68DDB3F8, 0x1FDA836E, 0x81BE16CD, 0xF6B9265B, 0x6FB077E1, 0x18B74777,
    0x88085AE6, 0xFF0F6A70, 0x66063BCA, 0x11010B5C, 0x8F659EFF, 0xF862AE69,
    0x616BFFD3, 0x166CCF45, 0xA00AE278, 0xD70DD2EE, 0x4E048354, 0x3903B3C2,
    0xA7672661, 0xD06016F7, 0x4969474D, 0x3E6E77DB, 0xAED16A4A, 0xD9D65ADC,
    0x40DF0B66, 0x37D83BF0, 0xA9BCAE53, 0xDEBB9EC5, 0x47B2CF7F, 0x30B5FFE9,
    0xBDBDF21C, 0xCABAC28A, 0x53B39330, 0x24B4A3A6, 0xBAD03605, 0xCDD70693,
    0x54DE5729, 0x23D967BF, 0xB3667A2E, 0xC4614AB8, 0x5D681B02, 0x2A6F2B94,
    0xB40BBE37, 0xC30C8EA1, 0x5A05DF1B, 0x2D02EF8D]"

definition crc_step :: "ulong \<Rightarrow> byte \<Rightarrow> ulong" where
  "crc_step crc b = (crc32_tab ! unat ((crc AND 0xFF) XOR ucast b)) XOR drop_bit 8 crc"

definition crc32 :: "byte list \<Rightarrow> ulong" where
  "crc32 bs = foldl crc_step 0xFFFFFFFF bs XOR 0xFFFFFFFF"

text \<open>
  The loop counter is an \<open>unsigned short\<close>: the loop ends only for sizes up to 65535; reading
  past the payload is outside the buffer.
\<close>

definition get_dmchecksum :: "byte list \<Rightarrow> nat \<Rightarrow> ulong option" where
  "get_dmchecksum payload sz =
     (if sz \<le> 65535 \<and> sz \<le> length payload then Some (crc32 (take sz payload)) else None)"

subsection \<open>Frames\<close>

definition make_dmframe ::
  "byte \<Rightarrow> byte \<Rightarrow> byte \<Rightarrow> byte list \<Rightarrow> nat \<Rightarrow> byte list option" where
  "make_dmframe ctrl1 ctrl2 seqno payload sz = do {
     _ \<leftarrow> guard_ok (sz \<le> DM_MAX_DATA_LEN);
     _ \<leftarrow> guard_ok (sz \<le> length payload);
     let len = (of_nat sz :: ushort);
     let size2 = NOT len;
     l \<leftarrow> get_dmchecksum payload sz;
     Some ([DM_SOH, ctrl1, ctrl2, seqno, NOT seqno, lobyte16 len, hibyte16 len,
            lobyte16 size2, hibyte16 size2] @ take sz payload @ bytes32 l)
   }"

text \<open>The frame is built in \<open>dmodem_frame\<close>, whose bytes past its end stay as they were.\<close>

definition put_frame :: "byte list \<Rightarrow> byte list \<Rightarrow> byte list" where
  "put_frame fr buf = fr @ drop (length fr) buf"

definition send_nack :: "'w dm_sys \<Rightarrow> 'w dm_sys \<times> int" where
  "send_nack s = line_send [DM_NACK, NOT DM_NACK] s"

definition send_ack :: "'w dm_sys \<Rightarrow> 'w dm_sys \<times> int" where
  "send_ack s = line_send [DM_ACK, NOT DM_ACK] s"

subsection \<open>The bit-serial CRC-32\<close>

definition crc32_bit :: "ulong \<Rightarrow> ulong" where
  "crc32_bit c = (if bit c 0 then drop_bit 1 c XOR 0xEDB88320 else drop_bit 1 c)"

lemma crc32_bit_xor: "crc32_bit (a XOR b) = crc32_bit a XOR crc32_bit b"
proof (rule bit_word_eqI)
  fix n assume "n < LENGTH(32)"
  then have "\<not> bit a (Suc n) \<and> \<not> bit b (Suc n)" if "n = 31" 
    using that bit_imp_le_length [of a "Suc n"] bit_imp_le_length [of b "Suc n"] by auto
  then show "bit (crc32_bit (a XOR b)) n = bit (crc32_bit a XOR crc32_bit b) n"
    unfolding crc32_bit_def by (auto simp: bit_simps)
qed

lemma crc32_bit_inj: "crc32_bit a = crc32_bit b \<Longrightarrow> a = b"
proof -
  assume eq: "crc32_bit a = crc32_bit b"
  have b31: "bit (crc32_bit c) 31 = bit c 0" for c
    using bit_imp_le_length [of c 32] by (auto simp: crc32_bit_def bit_simps)
  have b0: "bit a 0 = bit b 0" using b31 [of a] b31 [of b] eq by simp
  have cancel: "x = y" if "x XOR k = y XOR k" for x y k :: ulong
  proof -
    have "(x XOR k) XOR k = (y XOR k) XOR k" using that by simp
    then show ?thesis by (simp only: xor.assoc xor_self_eq xor.right_neutral)
  qed
  have "drop_bit 1 a = drop_bit 1 b"
    using eq b0 cancel [of "drop_bit 1 a" "0xEDB88320" "drop_bit 1 b"]
    by (auto simp only: crc32_bit_def split: if_splits)
  then have "bit (drop_bit 1 a) n = bit (drop_bit 1 b) n" for n by simp
  then have suc: "bit a (Suc n) = bit b (Suc n)" for n by (simp only: bit_drop_bit_eq) simp
  show "a = b"
  proof (rule bit_word_eqI)
    fix n show "bit a n = bit b n" using b0 suc by (cases n) simp_all
  qed
qed

definition crc32_byte :: "ulong \<Rightarrow> ulong" where
  "crc32_byte c = (crc32_bit ^^ 8) c"

lemma crc32_byte_xor: "crc32_byte (a XOR b) = crc32_byte a XOR crc32_byte b"
proof -
  have "(crc32_bit ^^ n) (a XOR b) = (crc32_bit ^^ n) a XOR (crc32_bit ^^ n) b" for n
    by (induction n) (simp_all add: crc32_bit_xor)
  then show ?thesis by (simp add: crc32_byte_def)
qed

lemma crc32_byte_inj: "crc32_byte a = crc32_byte b \<Longrightarrow> a = b"
proof -
  have "(crc32_bit ^^ n) a = (crc32_bit ^^ n) b \<Longrightarrow> a = b" for n
    by (induction n) (auto dest: crc32_bit_inj)
  then show "crc32_byte a = crc32_byte b \<Longrightarrow> a = b" by (simp add: crc32_byte_def)
qed

lemma crc32_bits_shift: "(\<And>i. i < n \<Longrightarrow> \<not> bit c i) \<Longrightarrow> (crc32_bit ^^ n) c = drop_bit n c"
proof (induction n)
  case 0
  then show ?case by simp
next
  case (Suc n)
  then have "(crc32_bit ^^ n) c = drop_bit n c" by auto
  moreover have "\<not> bit (drop_bit n c) 0" using Suc.prems [of n] by (simp add: bit_simps)
  ultimately show ?case
    by (simp add: crc32_bit_def [of "drop_bit n c"] drop_bit_drop_bit del: drop_bit_Suc)
qed

lemma crc32_byte_shift: "(\<And>i. i < 8 \<Longrightarrow> \<not> bit c i) \<Longrightarrow> crc32_byte c = drop_bit 8 c"
  unfolding crc32_byte_def by (rule crc32_bits_shift)

lemma crc32_byte_8:
  "crc32_byte c = crc32_bit (crc32_bit (crc32_bit (crc32_bit (crc32_bit (crc32_bit
     (crc32_bit (crc32_bit c)))))))"
  by (simp add: crc32_byte_def numeral_eq_Suc)

lemma upt_256: "[0..<256] = 0 # 1 # [2..<256]"
  by (simp add: upt_conv_Cons numeral_2_eq_2)

lemma crc32_tab_bits: "crc32_tab = map (\<lambda>n. crc32_byte (of_nat n)) [0..<256]"
proof -
  have l: "map (\<lambda>n. crc32_byte (of_nat n)) [0..<256] = map crc32_byte (map of_nat [0..<256])"
    by simp
  have "map of_nat [0..<256] = (map of_nat (0 # 1 # [2..<256]) :: ulong list)"
    by (simp only: upt_256)
  also have "\<dots> = [0, 1, 2, 3, 4, 5, 6, 7, 8, 9, 10, 11, 12, 13, 14, 15, 16, 17, 18, 19,
      20, 21, 22, 23, 24, 25, 26, 27, 28, 29, 30, 31, 32, 33, 34, 35, 36, 37, 38, 39, 40, 41,
      42, 43, 44, 45, 46, 47, 48, 49, 50, 51, 52, 53, 54, 55, 56, 57, 58, 59, 60, 61, 62, 63,
      64, 65, 66, 67, 68, 69, 70, 71, 72, 73, 74, 75, 76, 77, 78, 79, 80, 81, 82, 83, 84, 85,
      86, 87, 88, 89, 90, 91, 92, 93, 94, 95, 96, 97, 98, 99, 100, 101, 102, 103, 104, 105,
      106, 107, 108, 109, 110, 111, 112, 113, 114, 115, 116, 117, 118, 119, 120, 121, 122, 123,
      124, 125, 126, 127, 128, 129, 130, 131, 132, 133, 134, 135, 136, 137, 138, 139, 140, 141,
      142, 143, 144, 145, 146, 147, 148, 149, 150, 151, 152, 153, 154, 155, 156, 157, 158, 159,
      160, 161, 162, 163, 164, 165, 166, 167, 168, 169, 170, 171, 172, 173, 174, 175, 176, 177,
      178, 179, 180, 181, 182, 183, 184, 185, 186, 187, 188, 189, 190, 191, 192, 193, 194, 195,
      196, 197, 198, 199, 200, 201, 202, 203, 204, 205, 206, 207, 208, 209, 210, 211, 212, 213,
      214, 215, 216, 217, 218, 219, 220, 221, 222, 223, 224, 225, 226, 227, 228, 229, 230, 231,
      232, 233, 234, 235, 236, 237, 238, 239, 240, 241, 242, 243, 244, 245, 246, 247, 248, 249,
      250, 251, 252, 253, 254, 255]"
    by (simp add: upt_rec_numeral)
  finally show ?thesis
    unfolding l by (simp add: crc32_tab_def crc32_byte_8 crc32_bit_def)
qed

lemma crc32_tab_nth: "n < 256 \<Longrightarrow> crc32_tab ! n = crc32_byte (of_nat n)"
  by (simp only: crc32_tab_bits) simp

lemma and_FF: "(w::ulong) AND 0xFF = take_bit 8 w"
proof -
  have "(0xFF::ulong) = mask 8" by (simp add: mask_eq_exp_minus_1)
  then show ?thesis by (simp only: take_bit_eq_mask)
qed

text \<open>One step of the table routine is eight steps of the serial one.\<close>

lemma crc_step_bits: "crc_step c b = crc32_byte (c XOR ucast b)"
proof -
  let ?lo = "take_bit 8 c XOR (ucast b :: ulong)"
  let ?hi = "c XOR take_bit 8 c"
  have lo8: "\<not> bit ?lo n" if "8 \<le> n" for n
    using that by (auto simp: bit_simps)
  have "?lo = take_bit 8 ?lo"
    using lo8 by (intro bit_word_eqI) (auto simp: bit_simps)
  then have "unat ?lo < 2 ^ 8"
    by (metis take_bit_nat_less_exp unsigned_take_bit_eq)
  then have tab: "crc32_tab ! unat ?lo = crc32_byte ?lo"
    using crc32_tab_nth [of "unat ?lo"] by simp
  have "crc32_byte ?hi = drop_bit 8 ?hi"
    by (rule crc32_byte_shift) (auto simp: bit_simps)
  also have "drop_bit 8 ?hi = drop_bit 8 c"
    by (rule bit_word_eqI) (auto simp: bit_simps)
  finally have hi: "crc32_byte ?hi = drop_bit 8 c" .
  have "c XOR ucast b = ?lo XOR ?hi"
    by (rule bit_word_eqI) (auto simp: bit_simps)
  then have "crc32_byte (c XOR ucast b) = crc32_byte ?lo XOR crc32_byte ?hi"
    by (simp only: crc32_byte_xor)
  then show ?thesis
    by (simp only: crc_step_def and_FF tab hi)
qed

lemma crc32_byte_push:
  assumes "m \<le> 16"
  shows "crc32_byte (push_bit (8 + m) (ucast (b::byte))) = push_bit m (ucast b)"
proof -
  have "crc32_byte (push_bit (8 + m) (ucast b)) = drop_bit 8 (push_bit (8 + m) (ucast b))"
    by (rule crc32_byte_shift) (auto simp: bit_simps)
  also have "\<dots> = push_bit m (ucast b)"
  proof (rule bit_word_eqI)
    fix n assume n: "n < LENGTH(32)"
    have "bit b (n - m) \<Longrightarrow> m \<le> n \<Longrightarrow> n < 24"
      using bit_byte [of b "n - m"] assms by linarith
    with n show "bit (drop_bit 8 (push_bit (8 + m) (ucast b :: ulong))) n = bit (push_bit m (ucast b :: ulong)) n"
      by (auto simp: bit_simps)
  qed
  finally show ?thesis .
qed

lemma crc32_four_bytes:
  "foldl crc_step c [x0, x1, x2, x3] =
     crc32_byte (crc32_byte (crc32_byte (crc32_byte (c XOR le32 x0 x1 x2 x3))))"
proof -
  have l: "le32 x0 x1 x2 x3 = ucast x0 XOR push_bit 8 (ucast x1) XOR push_bit 16 (ucast x2)
      XOR push_bit 24 (ucast x3)"
    unfolding le32_def by (rule bit_word_eqI) (auto simp: bit_simps)
  have p8: "crc32_byte (push_bit 8 (ucast x)) = ucast x" for x :: byte
    using crc32_byte_push [of 0 x] by simp
  have p16: "crc32_byte (push_bit 16 (ucast x)) = push_bit 8 (ucast x)" for x :: byte
    using crc32_byte_push [of 8 x] by simp
  have p24: "crc32_byte (push_bit 24 (ucast x)) = push_bit 16 (ucast x)" for x :: byte
    using crc32_byte_push [of 16 x] by simp
  show ?thesis
    unfolding l
    by (simp only: foldl.simps crc_step_bits crc32_byte_xor p8 p16 p24 xor.assoc)
qed

lemma crc_step_inj_state: "foldl crc_step a bs = foldl crc_step b bs \<Longrightarrow> a = b"
proof (induction bs arbitrary: a b)
  case Nil
  then show ?case by simp
next
  case (Cons x xs)
  then have "crc_step a x = crc_step b x" by simp
  then have "a XOR ucast x = b XOR ucast x"
    unfolding crc_step_bits by (rule crc32_byte_inj)
  then show ?case by simp
qed

lemma crc_step_inj_burst:
  assumes eq: "foldl crc_step c u = foldl crc_step c v"
    and len: "length u = length v" "length u \<le> 4"
  shows "u = v"
proof -
  define z where "z = replicate (4 - length u) (0::byte)"
  have four: "\<exists>x0 x1 x2 x3. w @ z = [x0, x1, x2, x3]" if "length w = length u" for w
  proof -
    have "length (w @ z) = 4" using that len by (simp add: z_def)
    then show ?thesis by (rule length_4)
  qed
  obtain u0 u1 u2 u3 where u: "u @ z = [u0, u1, u2, u3]" using four [of u] by auto
  obtain v0 v1 v2 v3 where v: "v @ z = [v0, v1, v2, v3]" using four [of v] len by auto
  have "foldl crc_step c (u @ z) = foldl crc_step c (v @ z)" using eq by simp
  then have "c XOR le32 u0 u1 u2 u3 = c XOR le32 v0 v1 v2 v3"
    unfolding u v crc32_four_bytes by (auto dest!: crc32_byte_inj)
  then have "c XOR (c XOR le32 u0 u1 u2 u3) = c XOR (c XOR le32 v0 v1 v2 v3)" by simp
  then have "le32 u0 u1 u2 u3 = le32 v0 v1 v2 v3"
    by (simp only: xor.assoc [symmetric] xor_self_eq xor.left_neutral)
  then have "bytes32 (le32 u0 u1 u2 u3) = bytes32 (le32 v0 v1 v2 v3)" by simp
  then have "u @ z = v @ z" unfolding bytes32_le32 u v .
  then show ?thesis by simp
qed
text \<open>
  C19. The table-driven checksum of the frames is the bit-serial CRC-32 (reflected polynomial
  0xEDB88320, initial value and final complement 0xFFFFFFFF) of the payload.
\<close>

theorem crc32_is_bit_serial:
  "crc32 bs = foldl (\<lambda>c b. (crc32_bit ^^ 8) (c XOR ucast b)) 0xFFFFFFFF bs XOR 0xFFFFFFFF"
proof -
  have "crc_step = (\<lambda>c b. (crc32_bit ^^ 8) (c XOR ucast b))"
    by (simp add: fun_eq_iff crc_step_bits crc32_byte_def)
  then show ?thesis by (simp only: crc32_def)
qed

text \<open>
  C18. A corruption of a payload that is confined to at most four consecutive bytes always changes
  the checksum.
\<close>

theorem crc32_detects_bursts:
  assumes "length u = length v" "length u \<le> 4" "u \<noteq> v"
  shows "crc32 (p @ u @ q) \<noteq> crc32 (p @ v @ q)"
proof
  assume "crc32 (p @ u @ q) = crc32 (p @ v @ q)"
  then have "foldl crc_step (foldl crc_step (foldl crc_step 0xFFFFFFFF p) u) q =
      foldl crc_step (foldl crc_step (foldl crc_step 0xFFFFFFFF p) v) q"
    unfolding crc32_def foldl_append xor_cancel .
  from crc_step_inj_state [OF this] crc_step_inj_burst assms show False by blast
qed

theorem crc32_detects_bursts_witness:
  "length [0x31, 0x32 :: byte] = length [0x32, 0x31 :: byte] \<and>
   crc32 ([0x41] @ [0x31, 0x32] @ [0x42]) \<noteq> crc32 ([0x41] @ [0x32, 0x31] @ [0x42])"
  using crc32_detects_bursts [of "[0x31, 0x32]" "[0x32, 0x31]" "[0x41]" "[0x42]"] by simp

end
