(* ===== verification/Dmodem_Line.thy ===== *)
theory Dmodem_Line
  imports Dmodem_Frame
begin

text \<open>
  Facts the four protocols of the modem share: what a turn of the timer thread and a use of the
  line leave unchanged, histories of a line, and the frame as a total function of its payload.

  A history is what an observer of the line writes down: the buffers sent and the bytes got, in
  order. \<open>records hist h\<close> says that \<open>hist\<close> reads such a history off the application's data, for
  whatever line is behind the callbacks of \<open>h\<close>.
\<close>

subsection \<open>What a poll leaves unchanged\<close>

definition forget :: "'w \<Rightarrow> 'w DmodemHandler \<Rightarrow> 'w DmodemHandler" where
  "forget w h = h\<lparr>uplayer_data := w,
     statistics := \<lparr>txnaks = 0, txacks = 0, txframeTO = 0, rxacks = 0, rxnaks = 0\<rparr>,
     wr_curr_state := (wr_curr_state h)
       \<lparr>wr_txuplayer_timer_expired := False, wr_txframe_timer_expired := False\<rparr>,
     rd_curr_state := (rd_curr_state h)\<lparr>rd_rxuplayer_timer_expired := False\<rparr>,
     conn_curr_state := (conn_curr_state h)
       \<lparr>conn_connuplayer_timer_expired := False, conn_connframe_timer_expired := False\<rparr>,
     disconn_curr_state := (disconn_curr_state h)
       \<lparr>disconn_disconnuplayer_timer_expired := False,
         disconn_disconnframe_timer_expired := False\<rparr>\<rparr>"

text \<open>Only the application's data, the statistics and the timers' flags may differ.\<close>

definition quiet :: "'w DmodemHandler \<Rightarrow> 'w DmodemHandler \<Rightarrow> bool" where
  "quiet h h' \<longleftrightarrow> (\<forall>w. forget w h' = forget w h)"

lemma quiet_refl [simp, intro]: "quiet h h"
  by (simp add: quiet_def)

lemma quiet_trans: "quiet a b \<Longrightarrow> quiet b c \<Longrightarrow> quiet a c"
  by (simp add: quiet_def)

lemma quiet_fields:
  assumes "quiet h h'"
  shows
    "dmconf h' = dmconf h" "send_buf h' = send_buf h" "rcv_byte h' = rcv_byte h"
    "get_dcd_status h' = get_dcd_status h" "dm_global_error h' = dm_global_error h"
    "dmodem_frame h' = dmodem_frame h" "handle h' = handle h" "logActive h' = logActive h"
    "wr_pdata (wr_curr_state h') = wr_pdata (wr_curr_state h)"
    "wr_data_size (wr_curr_state h') = wr_data_size (wr_curr_state h)"
    "wr_remain_size (wr_curr_state h') = wr_remain_size (wr_curr_state h)"
    "wr_curr_frame_data_size (wr_curr_state h') = wr_curr_frame_data_size (wr_curr_state h)"
    "wr_curr_seqno (wr_curr_state h') = wr_curr_seqno (wr_curr_state h)"
    "wr_retrans_no (wr_curr_state h') = wr_retrans_no (wr_curr_state h)"
    "conn_retrans_no (conn_curr_state h') = conn_retrans_no (conn_curr_state h)"
    "disconn_retrans_no (disconn_curr_state h') = disconn_retrans_no (disconn_curr_state h)"
    "\<exists>c. rd_curr_state h' = (rd_curr_state h)\<lparr>rd_rxuplayer_timer_expired := c\<rparr>"
proof -
  from assms have e: "forget undefined h' = forget undefined h" by (simp add: quiet_def)
  show "dmconf h' = dmconf h" using arg_cong [OF e, of dmconf] by (simp add: forget_def)
  show "send_buf h' = send_buf h" using arg_cong [OF e, of send_buf] by (simp add: forget_def)
  show "rcv_byte h' = rcv_byte h" using arg_cong [OF e, of rcv_byte] by (simp add: forget_def)
  show "get_dcd_status h' = get_dcd_status h" using arg_cong [OF e, of get_dcd_status] by (simp add: forget_def)
  show "dm_global_error h' = dm_global_error h" using arg_cong [OF e, of dm_global_error] by (simp add: forget_def)
  show "dmodem_frame h' = dmodem_frame h" using arg_cong [OF e, of dmodem_frame] by (simp add: forget_def)
  show "handle h' = handle h" using arg_cong [OF e, of handle] by (simp add: forget_def)
  show "logActive h' = logActive h" using arg_cong [OF e, of logActive] by (simp add: forget_def)
  show "wr_pdata (wr_curr_state h') = wr_pdata (wr_curr_state h)"
    using arg_cong [OF e, of "\<lambda>h. wr_pdata (wr_curr_state h)"] by (simp add: forget_def)
  show "wr_data_size (wr_curr_state h') = wr_data_size (wr_curr_state h)"
    using arg_cong [OF e, of "\<lambda>h. wr_data_size (wr_curr_state h)"] by (simp add: forget_def)
  show "wr_remain_size (wr_curr_state h') = wr_remain_size (wr_curr_state h)"
    using arg_cong [OF e, of "\<lambda>h. wr_remain_size (wr_curr_state h)"] by (simp add: forget_def)
  show "wr_curr_frame_data_size (wr_curr_state h') = wr_curr_frame_data_size (wr_curr_state h)"
    using arg_cong [OF e, of "\<lambda>h. wr_curr_frame_data_size (wr_curr_state h)"] by (simp add: forget_def)
  show "wr_curr_seqno (wr_curr_state h') = wr_curr_seqno (wr_curr_state h)"
    using arg_cong [OF e, of "\<lambda>h. wr_curr_seqno (wr_curr_state h)"] by (simp add: forget_def)
  show "wr_retrans_no (wr_curr_state h') = wr_retrans_no (wr_curr_state h)"
    using arg_cong [OF e, of "\<lambda>h. wr_retrans_no (wr_curr_state h)"] by (simp add: forget_def)
  show "conn_retrans_no (conn_curr_state h') = conn_retrans_no (conn_curr_state h)"
    using arg_cong [OF e, of "\<lambda>h. conn_retrans_no (conn_curr_state h)"] by (simp add: forget_def)
  show "disconn_retrans_no (disconn_curr_state h') = disconn_retrans_no (disconn_curr_state h)"
    using arg_cong [OF e, of "\<lambda>h. disconn_retrans_no (disconn_curr_state h)"] by (simp add: forget_def)
  have "(rd_curr_state h')\<lparr>rd_rxuplayer_timer_expired := False\<rparr> =
      (rd_curr_state h)\<lparr>rd_rxuplayer_timer_expired := False\<rparr>"
    using arg_cong [OF e, of rd_curr_state] by (simp add: forget_def)
  from arg_cong [OF this, of "\<lambda>r. r\<lparr>rd_rxuplayer_timer_expired := rd_rxuplayer_timer_expired (rd_curr_state h')\<rparr>"]
  have "rd_curr_state h' = (rd_curr_state h)\<lparr>rd_rxuplayer_timer_expired :=
      rd_rxuplayer_timer_expired (rd_curr_state h')\<rparr>" by simp
  then show "\<exists>c. rd_curr_state h' = (rd_curr_state h)\<lparr>rd_rxuplayer_timer_expired := c\<rparr>" ..
qed

lemma quiet_flag: "quiet h (timer_handler t h)"
  by (cases t) (simp_all add: quiet_def forget_def timer_handler_defs)

lemma quiet_updates [simp]:
  "quiet h (h\<lparr>uplayer_data := w\<rparr>)" "quiet h (h\<lparr>statistics := st\<rparr>)"
  "quiet h (h\<lparr>wr_curr_state := (wr_curr_state h)\<lparr>wr_txuplayer_timer_expired := a\<rparr>\<rparr>)"
  "quiet h (h\<lparr>wr_curr_state := (wr_curr_state h)\<lparr>wr_txframe_timer_expired := a\<rparr>\<rparr>)"
  "quiet h (h\<lparr>rd_curr_state := (rd_curr_state h)\<lparr>rd_rxuplayer_timer_expired := a\<rparr>\<rparr>)"
  by (simp_all add: quiet_def forget_def)

lemma timers_quiet:
  "quiet (ct_user s) (ct_user (dm_timers_run s))" "ct_locked (dm_timers_run s) = ct_locked s"
  "uplayer_data (ct_user (dm_timers_run s)) = uplayer_data (ct_user s)"
proof -
  have c: "uplayer_data u = uplayer_data (timer_handler t u)" for u :: "'a DmodemHandler" and t
    by (cases t) (simp_all add: timer_handler_defs)
  have "quiet (ct_user s) (ct_user (dm_timers_run s)) \<and> ct_locked (dm_timers_run s) = ct_locked s
    \<and> uplayer_data (ct_user s) = uplayer_data (ct_user (dm_timers_run s))"
  proof (cases "ct_locked s")
    case True
    with timer_turn_locked [OF True] show ?thesis by (simp add: dm_timers_run_def)
  next
    case False
    note user = timer_turn_user [where f = timer_handler and w = s, OF False]
    have "quiet (ct_user s) (ct_user (dm_timers_run s)) \<and> \<not> ct_locked (dm_timers_run s)"
      unfolding dm_timers_run_def
      using user [where R = quiet, OF quiet_refl quiet_flag quiet_trans] by auto
    moreover have "uplayer_data (ct_user s) = uplayer_data (ct_user (dm_timers_run s))"
      unfolding dm_timers_run_def
      by (rule user(1) [where R = "\<lambda>u v. uplayer_data u = uplayer_data v"]) (auto intro: c)
    ultimately show ?thesis using False by simp
  qed
  then show "quiet (ct_user s) (ct_user (dm_timers_run s))"
    "ct_locked (dm_timers_run s) = ct_locked s"
    "uplayer_data (ct_user (dm_timers_run s)) = uplayer_data (ct_user s)" by auto
qed

subsection \<open>Histories\<close>

datatype io = Sent "byte list" | Got byte

definition records :: "('w \<Rightarrow> io list) \<Rightarrow> 'w DmodemHandler \<Rightarrow> bool" where
  "records hist h \<longleftrightarrow>
     (\<forall>w bs. hist (fst (send_buf h w bs)) = hist w @ [Sent bs]) \<and>
     (\<forall>w k. hist (fst (rcv_byte h w k)) =
        hist w @ (if fst (snd (rcv_byte h w k)) = 1 then [Got (snd (snd (rcv_byte h w k)))] else [])) \<and>
     (\<forall>w. hist (fst (get_dcd_status h w)) = hist w)"

abbreviation sys_hist :: "('w \<Rightarrow> io list) \<Rightarrow> 'w dm_sys \<Rightarrow> io list" where
  "sys_hist hist s \<equiv> hist (uplayer_data (ct_user s))"

lemma records_quiet: "records hist h \<Longrightarrow> quiet h h' \<Longrightarrow> records hist h'"
  by (simp add: records_def quiet_fields)

lemma line_send_spec:
  assumes "line_send bs s = (s', r)"
  shows "quiet (ct_user s) (ct_user s')" "ct_locked s' = ct_locked s"
    "records hist (ct_user s) \<Longrightarrow> sys_hist hist s' = sys_hist hist s @ [Sent bs]"
    "r = snd (send_buf (ct_user s) (uplayer_data (ct_user s)) bs)"
    "ct_user s' = (ct_user s)\<lparr>uplayer_data := uplayer_data (ct_user s')\<rparr>"
  using assms
  by (auto simp: line_send_def Let_def records_def prod.case_eq_if)

lemma line_recv_spec:
  assumes "line_recv k s = (s', r, b)"
  shows "quiet (ct_user s) (ct_user s')" "ct_locked s' = ct_locked s"
    "records hist (ct_user s) \<Longrightarrow>
       sys_hist hist s' = sys_hist hist s @ (if r = 1 then [Got b] else [])"
  using assms
  by (auto simp: line_recv_def Let_def records_def prod.case_eq_if)

lemma line_dcd_spec:
  assumes "line_dcd s = (s', d)"
  shows "quiet (ct_user s) (ct_user s')" "ct_locked s' = ct_locked s"
    "records hist (ct_user s) \<Longrightarrow> sys_hist hist s' = sys_hist hist s"
  using assms
  by (auto simp: line_dcd_def Let_def records_def prod.case_eq_if)

subsection \<open>Frames as a total function\<close>

definition dmframe :: "byte \<Rightarrow> byte \<Rightarrow> byte \<Rightarrow> byte list \<Rightarrow> byte list" where
  "dmframe c1 c2 q p =
     (let len = (of_nat (length p) :: ushort) in
      [DM_SOH, c1, c2, q, NOT q, lobyte16 len, hibyte16 len, lobyte16 (NOT len), hibyte16 (NOT len)]
      @ p @ bytes32 (crc32 p))"

lemma make_dmframe_eq:
  "make_dmframe c1 c2 q payload n =
     (if n \<le> 512 \<and> n \<le> length payload then Some (dmframe c1 c2 q (take n payload)) else None)"
  by (auto simp: make_dmframe_def get_dmchecksum_def dmframe_def Let_def guard_ok_def min_def)

text \<open>The first nine bytes.\<close>

definition frame_head :: "byte \<Rightarrow> byte \<Rightarrow> byte \<Rightarrow> ushort \<Rightarrow> byte list" where
  "frame_head c1 c2 q len = [DM_SOH, c1, c2, q, NOT q, lobyte16 len, hibyte16 len,
     lobyte16 (NOT len), hibyte16 (NOT len)]"

lemma dmframe_head:
  "dmframe c1 c2 q p = frame_head c1 c2 q (of_nat (length p)) @ p @ bytes32 (crc32 p)"
  by (simp add: dmframe_def frame_head_def Let_def)

lemma length_dmframe [simp]: "length (dmframe c1 c2 q p) = length p + 13"
  by (simp add: dmframe_def Let_def)

subsection \<open>Lines that go silent\<close>

text \<open>
  \<open>line_dies \<mu> h\<close>: the line delivers finitely many bytes and then, poll by poll, loses the
  carrier; \<open>\<mu>\<close> bounds what is left. It is what the liveness statements assume of the peer.
\<close>

definition line_dies :: "('w \<Rightarrow> nat) \<Rightarrow> 'w DmodemHandler \<Rightarrow> bool" where
  "line_dies \<mu> h \<longleftrightarrow>
     (\<forall>w bs. \<mu> (fst (send_buf h w bs)) \<le> \<mu> w) \<and>
     (\<forall>w k. if fst (snd (rcv_byte h w k)) = 1 then \<mu> (fst (rcv_byte h w k)) < \<mu> w
            else \<mu> (fst (rcv_byte h w k)) \<le> \<mu> w) \<and>
     (\<forall>w. if snd (get_dcd_status h w) = 0 then \<mu> (fst (get_dcd_status h w)) \<le> \<mu> w
          else \<mu> (fst (get_dcd_status h w)) < \<mu> w)"

abbreviation sys_left :: "('w \<Rightarrow> nat) \<Rightarrow> 'w dm_sys \<Rightarrow> nat" where
  "sys_left \<mu> s \<equiv> \<mu> (uplayer_data (ct_user s))"

lemma line_dies_quiet: "line_dies \<mu> h \<Longrightarrow> quiet h h' \<Longrightarrow> line_dies \<mu> h'"
  by (simp add: line_dies_def quiet_fields)

lemma line_send_left:
  "line_send bs s = (s', r) \<Longrightarrow> line_dies \<mu> (ct_user s) \<Longrightarrow> sys_left \<mu> s' \<le> sys_left \<mu> s"
  by (auto simp: line_send_def Let_def line_dies_def prod.case_eq_if)

lemma line_recv_left:
  "line_recv k s = (s', r, b) \<Longrightarrow> line_dies \<mu> (ct_user s) \<Longrightarrow>
    (if r = 1 then sys_left \<mu> s' < sys_left \<mu> s else sys_left \<mu> s' \<le> sys_left \<mu> s)"
  by (cases "rcv_byte (ct_user s) (uplayer_data (ct_user s)) k")
    (auto simp: line_recv_def Let_def line_dies_def split: if_splits dest: spec2 [of _ "uplayer_data (ct_user s)" k])

lemma line_dcd_left:
  "line_dcd s = (s', d) \<Longrightarrow> line_dies \<mu> (ct_user s) \<Longrightarrow>
    (if d = 0 then sys_left \<mu> s' \<le> sys_left \<mu> s else sys_left \<mu> s' < sys_left \<mu> s)"
  by (auto simp: line_dcd_def Let_def line_dies_def prod.case_eq_if split: if_splits)

subsection \<open>A scripted line\<close>

text \<open>
  A concrete line, for the statements about single runs: the bytes still to come, the polls of the
  carrier that will find it, and the history.
\<close>

type_synonym wire = "byte list \<times> nat \<times> io list"

fun script_send :: "wire \<Rightarrow> byte list \<Rightarrow> wire \<times> int" where
  "script_send (q, n, h) bs = ((q, n, h @ [Sent bs]), 1)"

fun script_recv :: "wire \<Rightarrow> int \<Rightarrow> wire \<times> int \<times> byte" where
  "script_recv ([], n, h) k = (([], n, h), 0, 0)"
| "script_recv (b # q, n, h) k = ((q, n, h @ [Got b]), 1, b)"

fun script_dcd :: "wire \<Rightarrow> wire \<times> int" where
  "script_dcd (q, 0, h) = ((q, 0, h), 0)"
| "script_dcd (q, Suc n, h) = ((q, n, h), 1)"

fun script_log :: "wire \<Rightarrow> io list" where
  "script_log (q, n, h) = h"

fun script_left :: "wire \<Rightarrow> nat" where
  "script_left (q, n, h) = length q + n"

definition script_handler :: "byte list \<Rightarrow> nat \<Rightarrow> wire DmodemHandler" where
  "script_handler q n =
     \<lparr>handle = 0, dm_global_error = EDMODEM_NOERROR, send_buf = script_send, rcv_byte = script_recv,
      uplayer_data = (q, n, []), get_dcd_status = script_dcd,
      dmconf = \<lparr>max_data_size = 512, txframe_to = 10000, rxbyte_to = 10000, max_retries = 3,
        txuplayer_to = 6000, rxuplayer_to = 6000, startconn_to = 6000, flags = 0\<rparr>,
      dmodem_frame = replicate 525 0,
      wr_curr_state = \<lparr>wr_pdata = [], wr_data_size = 0, wr_remain_size = 0,
        wr_curr_frame_data_size = 0, wr_curr_seqno = 1, wr_retrans_no = 0,
        wr_txuplayer_timer_expired = False, wr_txframe_timer_expired = False\<rparr>,
      rd_curr_state = \<lparr>rd_ppayload = 0, rd_size_to_read = 0, rd_size_readed = 0,
        rd_curr_bytes_readed = 0, rd_next_seqno = 1, rd_curr_seqno = 0, rd_byte_rcv = 0,
        rd_curr_payload_len = 0, rd_curr_payload_len_comp = 0, rd_checksum = replicate 4 0,
        rd_pchecksum = 0, rd_retrans_no = 0, rd_databuf = replicate 1024 0,
        rd_last_data_index = 0, rd_first_data_index = 0, rd_data_count = 0,
        rd_max_data_count = 1024, rd_rxuplayer_timer_expired = False\<rparr>,
      conn_curr_state = \<lparr>conn_retrans_no = 0, conn_connuplayer_timer_expired = False,
        conn_connframe_timer_expired = False\<rparr>,
      disconn_curr_state = \<lparr>disconn_retrans_no = 0, disconn_disconnuplayer_timer_expired = False,
        disconn_disconnframe_timer_expired = False\<rparr>,
      statistics = \<lparr>txnaks = 0, txacks = 0, txframeTO = 0, rxacks = 0, rxnaks = 0\<rparr>,
      logActive = 0\<rparr>"

definition script_sys :: "byte list \<Rightarrow> nat \<Rightarrow> wire dm_sys" where
  "script_sys q n = \<lparr>ct_running = True, ct_timers = replicate MAX_CTIMERS None,
     ct_objs = (\<lambda>_. \<lparr>expires = 0, periodic = False, period = 0\<rparr>), ct_locked = False,
     ct_ticks = 0, ct_sched = [], ct_user = script_handler q n\<rparr>"

lemma script_recv_log:
  "script_log (fst (script_recv w k)) = script_log w @
     (if fst (snd (script_recv w k)) = 1 then [Got (snd (snd (script_recv w k)))] else [])"
  by (cases "(w, k)" rule: script_recv.cases) auto

lemma script_dcd_log: "script_log (fst (script_dcd w)) = script_log w"
  by (cases w rule: script_dcd.cases) auto

lemma script_records: "records script_log (script_handler q n)"
  unfolding records_def script_handler_def
  by (auto simp: script_recv_log script_dcd_log)

lemma script_dies: "line_dies script_left (script_handler q n)"
proof -
  have r: "if fst (snd (script_recv w k)) = 1 then script_left (fst (script_recv w k)) < script_left w
      else script_left (fst (script_recv w k)) \<le> script_left w" for w k
    by (cases "(w, k)" rule: script_recv.cases) auto
  have d: "if snd (script_dcd w) = 0 then script_left (fst (script_dcd w)) \<le> script_left w
      else script_left (fst (script_dcd w)) < script_left w" for w
    by (cases w rule: script_dcd.cases) auto
  have s: "script_left (fst (script_send w bs)) \<le> script_left w" for w bs
    by (cases w) simp
  show ?thesis
    unfolding line_dies_def script_handler_def
    by (simp only: DmodemHandler.simps) (intro conjI allI s r d)
qed

lemma script_sys_simps [simp]:
  "\<not> ct_locked (script_sys q n)" "ct_sched (script_sys q n) = []"
  "ct_user (script_sys q n) = script_handler q n" "ct_running (script_sys q n)"
  by (simp_all add: script_sys_def)

lemma dm_timers_asleep: "ct_sched s = [] \<Longrightarrow> dm_timers_run s = s"
  by (simp add: dm_timers_run_def timer_turn_def)

end
