(* ===== verification/Dmodem_Write.thy ===== *)
theory Dmodem_Write
  imports Dmodem_Frame
begin

text \<open>
  The write operation of \<open>src/src/framework/telesup/dmodem/dmodem.c\<close>: the handlers of the
  transmitter, its table, the wait for an event and \<open>dmodem_write\<close>.

  The transmitter is a stop-and-wait sender: one frame is on the line until the two bytes ACK and
  its complement arrive; a NACK, a wrong complement or the frame timer cause a retransmission, up
  to \<open>max_retries\<close> of them in the whole call.
\<close>

subsection \<open>Handlers\<close>

definition wr_none :: "'w dm_sys handler" where
  "wr_none s = Some (s, NO_EVT)"

definition wr_send_frame :: "'w dm_sys handler" where
  "wr_send_frame s = do {
     let s = set_expires txframe_timer (txframe_to (conf s)) s;
     s \<leftarrow> start_timer txframe_timer s;
     let n = (if wr_remain_size (wrs s) \<le> max_data_size (conf s)
              then wr_remain_size (wrs s) else max_data_size (conf s));
     let s = upd_wr (\<lambda>c. c\<lparr>wr_curr_frame_data_size := n\<rparr>) s;
     fr \<leftarrow> make_dmframe DM_CTRL_BYTE_0 DM_CTRL_BYTE_1 (wr_curr_seqno (wrs s)) (wr_pdata (wrs s)) n;
     let s = upd_h (\<lambda>h. h\<lparr>dmodem_frame := put_frame fr (dmodem_frame h)\<rparr>) s;
     let (s, r) = line_send fr s;
     if r = 0 then Some (SET_GLOBAL_ERROR EDMODEM_FATAL s, FRAMESENDEDERR_WREVT)
     else Some (s, NO_EVT)
   }"

definition wr_prepare_next_frame :: "'w dm_sys handler" where
  "wr_prepare_next_frame s = do {
     s \<leftarrow> stop_timer txframe_timer s;
     let s = upd_wr (\<lambda>c. c\<lparr>wr_pdata := drop (wr_curr_frame_data_size c) (wr_pdata c)\<rparr>) s;
     let s = upd_wr (\<lambda>c. c\<lparr>wr_remain_size := wr_remain_size c - wr_curr_frame_data_size c\<rparr>) s;
     let s = upd_wr (\<lambda>c. c\<lparr>wr_curr_seqno := wr_curr_seqno c + 1\<rparr>) s;
     if wr_remain_size (wrs s) \<noteq> 0 then Some (s, MOREFRAMES_WREVT)
     else Some (s, NOMOREFRAMES_WREVT)
   }"

definition wr_prepare_retrans :: "'w dm_sys handler" where
  "wr_prepare_retrans s = do {
     s \<leftarrow> stop_timer txframe_timer s;
     let s = upd_stat (\<lambda>c. c\<lparr>txframeTO := txframeTO c + 1\<rparr>) s;
     let s = upd_wr (\<lambda>c. c\<lparr>wr_retrans_no := wr_retrans_no c + 1\<rparr>) s;
     if wr_retrans_no (wrs s) < max_retries (conf s) then Some (s, MORERETRANS_WREVT)
     else Some (s, NOMORERETRANS_WREVT)
   }"

definition wr_exit_ok :: "'w dm_sys handler" where
  "wr_exit_ok s = do {
     s \<leftarrow> stop_timer txuplayer_timer s;
     Some (SET_GLOBAL_ERROR EDMODEM_NOERROR s, NO_EVT)
   }"

definition wr_exit_txuplayerto :: "'w dm_sys handler" where
  "wr_exit_txuplayerto s = do {
     s \<leftarrow> stop_timer txuplayer_timer s;
     Some (SET_GLOBAL_ERROR EDMODEM_TXUPLAYER_TO s, NO_EVT)
   }"

definition wr_exit_retrans :: "'w dm_sys handler" where
  "wr_exit_retrans s = do {
     s \<leftarrow> stop_timer txuplayer_timer s;
     Some (SET_GLOBAL_ERROR EDMODEM_MAXRETRIES s, NO_EVT)
   }"

definition wr_exit_frame_error :: "'w dm_sys handler" where
  "wr_exit_frame_error s = do {
     s \<leftarrow> stop_timer txuplayer_timer s;
     Some (SET_GLOBAL_ERROR EDMODEM_FATAL s, NO_EVT)
   }"

subsection \<open>The table\<close>

definition wr_transitions :: "'w dm_sys ProtoTransition list" where
  "wr_transitions =
   [ ProtoTransition START_WRST SENDFRAME_WREVT FRAMESENDED_WRST wr_send_frame
   , ProtoTransition FRAMESENDED_WRST ACK_WREVT ACKRCV_WRST wr_none
   , ProtoTransition FRAMESENDED_WRST TXFRAMETO_WREVT CTRLRETRANS_WRST wr_prepare_retrans
   , ProtoTransition FRAMESENDED_WRST TXUPLAYERTO_WREVT EXIT_ST wr_exit_txuplayerto
   , ProtoTransition FRAMESENDED_WRST NACK_WREVT NACKRCV_WRST wr_none
   , ProtoTransition FRAMESENDED_WRST UNBYTE_WREVT FRAMESENDED_WRST wr_none
   , ProtoTransition FRAMESENDED_WRST FRAMESENDEDERR_WREVT EXIT_ST wr_exit_frame_error
   , ProtoTransition CTRLMOREFRAMES_WRST MOREFRAMES_WREVT FRAMESENDED_WRST wr_send_frame
   , ProtoTransition CTRLMOREFRAMES_WRST NOMOREFRAMES_WREVT EXIT_ST wr_exit_ok
   , ProtoTransition CTRLMOREFRAMES_WRST TXUPLAYERTO_WREVT EXIT_ST wr_exit_txuplayerto
   , ProtoTransition ACKRCV_WRST ACKCOMP_WREVT CTRLMOREFRAMES_WRST wr_prepare_next_frame
   , ProtoTransition ACKRCV_WRST UNBYTE_WREVT CTRLRETRANS_WRST wr_prepare_retrans
   , ProtoTransition ACKRCV_WRST TXFRAMETO_WREVT CTRLRETRANS_WRST wr_prepare_retrans
   , ProtoTransition ACKRCV_WRST TXUPLAYERTO_WREVT EXIT_ST wr_exit_txuplayerto
   , ProtoTransition NACKRCV_WRST NACKCOMP_WREVT CTRLRETRANS_WRST wr_prepare_retrans
   , ProtoTransition NACKRCV_WRST UNBYTE_WREVT FRAMESENDED_WRST wr_none
   , ProtoTransition NACKRCV_WRST TXFRAMETO_WREVT CTRLRETRANS_WRST wr_prepare_retrans
   , ProtoTransition NACKRCV_WRST TXUPLAYERTO_WREVT EXIT_ST wr_exit_txuplayerto
   , ProtoTransition CTRLRETRANS_WRST MORERETRANS_WREVT FRAMESENDED_WRST wr_send_frame
   , ProtoTransition CTRLRETRANS_WRST NOMORERETRANS_WREVT EXIT_ST wr_exit_retrans
   , ProtoTransition CTRLRETRANS_WRST TXUPLAYERTO_WREVT EXIT_ST wr_exit_txuplayerto ]"

subsection \<open>Waiting for an event\<close>

definition wr_byte_event :: "byte \<Rightarrow> 'w dm_sys \<Rightarrow> 'w dm_sys \<times> int" where
  "wr_byte_event b s =
     (if b = DM_ACK then (s, ACK_WREVT)
      else if b = DM_ACK_COMP then
        (upd_stat (\<lambda>c. c\<lparr>txacks := txacks c + 1\<rparr>) s, ACKCOMP_WREVT)
      else if b = DM_NACK then (s, NACK_WREVT)
      else if b = DM_NACK_COMP then
        (upd_stat (\<lambda>c. c\<lparr>txnaks := txnaks c + 1\<rparr>) s, NACKCOMP_WREVT)
      else (s, UNBYTE_WREVT))"

definition wr_wait_event :: "'w dm_sys handler" where
  "wr_wait_event s =
     (let s = dm_timers_run s; (s, r, b) = line_recv 0 s in
      if r = 1 then Some (wr_byte_event b s)
      else (let (s, d) = line_dcd s in
        if d = 0 then Some (s, TXUPLAYERTO_WREVT)
        else if wr_txuplayer_timer_expired (wrs s) then
          Some (upd_wr (\<lambda>c. c\<lparr>wr_txuplayer_timer_expired := False\<rparr>) s, TXUPLAYERTO_WREVT)
        else if wr_txframe_timer_expired (wrs s) then
          Some (upd_wr (\<lambda>c. c\<lparr>wr_txframe_timer_expired := False\<rparr>) s, TXFRAMETO_WREVT)
        else Some (s, NO_EVT)))"

subsection \<open>The operation\<close>

definition wr_clean_curr_state :: "'w dm_sys \<Rightarrow> 'w dm_sys option" where
  "wr_clean_curr_state s = do {
     s \<leftarrow> stop_timer txuplayer_timer s;
     stop_timer txframe_timer s
   }"

definition wr_init :: "'w dm_sys \<Rightarrow> ('w dm_sys \<times> int) option" where
  "wr_init s = do {
     let s = upd_wr (\<lambda>c. c\<lparr>wr_remain_size := wr_data_size c, wr_retrans_no := 0,
        wr_txuplayer_timer_expired := False, wr_txframe_timer_expired := False\<rparr>) s;
     let s = set_expires txframe_timer (txframe_to (conf s)) s;
     let s = set_period txuplayer_timer (txuplayer_to (conf s) * 10) s;
     let s = set_expires txuplayer_timer (ct_ticks s + txuplayer_to (conf s) * 10) s;
     s \<leftarrow> start_timer txuplayer_timer s;
     (s, ev) \<leftarrow> wr_send_frame s;
     Some (s, if ev = NO_EVT then 1 else 0)
   }"

text \<open>
  The outcome of a public operation: its result with the final state, a crash, or still running
  when the fuel is used up.
\<close>

datatype ('s, 'r) outcome = Done 's 'r | Fault | NotYet

definition dmodem_write :: "nat \<Rightarrow> byte list \<Rightarrow> nat \<Rightarrow> 'w dm_sys \<Rightarrow> ('w dm_sys, int) outcome" where
  "dmodem_write fuel buf sz s =
     (let s = CLEAR_GLOBAL_ERROR s;
          s = upd_wr (\<lambda>c. c\<lparr>wr_pdata := buf, wr_data_size := sz\<rparr>) s in
      case wr_init s of
        None \<Rightarrow> Fault
      | Some (s, rv) \<Rightarrow>
          if rv = -1 then Done s (-1)
          else (case proto_engine wr_transitions wr_wait_event wr_clean_curr_state
                       NO_EVT FRAMESENDED_WRST EXIT_ST fuel s of
                  Returned s \<Rightarrow> Done s (if GET_GLOBAL_ERROR s = EDMODEM_NOERROR then 1 else 0)
                | Crashed \<Rightarrow> Fault
                | Running _ \<Rightarrow> NotYet))"

end
