(* ===== verification/Dmodem_Write_Props.thy ===== *)
theory Dmodem_Write_Props
  imports Dmodem_Write Dmodem_Line
begin

text \<open>
  What the transmitter guarantees on an arbitrary line and for every schedule of the timer
  thread: \<open>wr_all\<close> is the stop-and-wait discipline (the frames of the caller's bytes, in order,
  each repeated until its acknowledgement arrives), \<open>wr_count\<close> the bound on transmissions, and
  the liveness part says when the operation returns.
\<close>

subsection \<open>The abstract specification: cutting a buffer into numbered frames\<close>

function chunks :: "nat \<Rightarrow> 'a list \<Rightarrow> 'a list list" where
  "chunks n d = (if n = 0 \<or> length d \<le> n then [d] else take n d # chunks n (drop n d))"
  by pat_completeness auto
termination
  by (relation "measure (\<lambda>(n, d). length d)") auto

declare chunks.simps [simp del]

lemma concat_chunks: "concat (chunks n d) = d"
proof (induction n d rule: chunks.induct)
  case (1 n d)
  then show ?case by (subst chunks.simps) (simp add: append_take_drop_id)
qed

lemma chunks_nonempty [simp]: "chunks n d \<noteq> []"
  by (subst chunks.simps) simp

lemma chunks_bound: "0 < n \<Longrightarrow> c \<in> set (chunks n d) \<Longrightarrow> length c \<le> n"
proof (induction n d rule: chunks.induct)
  case (1 n d)
  from "1.prems" "1.IH" show ?case
    by (cases "n = 0 \<or> length d \<le> n") (auto simp: chunks.simps [of n d])
qed

text \<open>Successive frames carry successive sequence numbers, modulo 256.\<close>

fun number_frames :: "byte \<Rightarrow> byte list list \<Rightarrow> byte list list" where
  "number_frames q [] = []"
| "number_frames q (p # ps) = dmframe DM_CTRL_BYTE_0 DM_CTRL_BYTE_1 q p # number_frames (q + 1) ps"

lemma length_number_frames [simp]: "length (number_frames q ps) = length ps"
  by (induction ps arbitrary: q) auto

text \<open>
  One frame's exchange on the line: the frame, then any bytes and repetitions of the frame, then
  ACK and its complement; between these two the code skips stray ACK, NACK and NACK-complement
  bytes.
\<close>

definition noise :: "byte list \<Rightarrow> io list \<Rightarrow> bool" where
  "noise f m \<longleftrightarrow> (\<forall>x \<in> set m. x = Sent f \<or> (\<exists>b. x = Got b))"

definition stray :: "byte list \<Rightarrow> bool" where
  "stray ds \<longleftrightarrow> set ds \<subseteq> {DM_ACK, DM_NACK, DM_NACK_COMP}"

definition exchange :: "byte list \<Rightarrow> io list \<Rightarrow> bool" where
  "exchange f t \<longleftrightarrow> (\<exists>m ds. t = Sent f # m @ Got DM_ACK # map Got ds @ [Got DM_ACK_COMP]
     \<and> noise f m \<and> stray ds)"

lemma noise_simps [simp]:
  "noise f []" "noise f (m @ m') \<longleftrightarrow> noise f m \<and> noise f m'"
  "noise f (x # m) \<longleftrightarrow> (x = Sent f \<or> (\<exists>b. x = Got b)) \<and> noise f m"
  by (auto simp: noise_def)

lemma noise_map_Got [simp]: "noise f (map Got ds)"
  by (auto simp: noise_def)

lemma stray_simps [simp]:
  "stray []" "stray (ds @ es) \<longleftrightarrow> stray ds \<and> stray es"
  "stray (d # ds) \<longleftrightarrow> (d = DM_ACK \<or> d = DM_NACK \<or> d = DM_NACK_COMP) \<and> stray ds"
  by (auto simp: stray_def)

subsection \<open>What the handlers do\<close>

definition byte_event :: "byte \<Rightarrow> int" where
  "byte_event b = (if b = DM_ACK then ACK_WREVT else if b = DM_ACK_COMP then ACKCOMP_WREVT
     else if b = DM_NACK then NACK_WREVT else if b = DM_NACK_COMP then NACKCOMP_WREVT
     else UNBYTE_WREVT)"

lemma wr_byte_event_spec:
  "wr_byte_event b s = (s', ev) \<Longrightarrow> ev = byte_event b \<and> quiet (ct_user s) (ct_user s')
    \<and> ct_locked s' = ct_locked s \<and> uplayer_data (ct_user s') = uplayer_data (ct_user s)"
  by (auto simp: wr_byte_event_def byte_event_def split: if_splits)

lemma wr_wait_spec:
  assumes w: "wr_wait_event s = Some (s', ev)" and free: "\<not> ct_locked s"
  shows "quiet (ct_user s) (ct_user s') \<and> \<not> ct_locked s' \<and>
    (records hist (ct_user s) \<longrightarrow>
      (\<exists>b. ev = byte_event b \<and> sys_hist hist s' = sys_hist hist s @ [Got b]) \<or>
      (ev \<in> {TXUPLAYERTO_WREVT, TXFRAMETO_WREVT, NO_EVT} \<and> sys_hist hist s' = sys_hist hist s))"
proof -
  define s0 where "s0 = dm_timers_run s"
  note t = timers_quiet [of s, folded s0_def]
  obtain s1 r b where r: "line_recv 0 s0 = (s1, r, b)" by (cases "line_recv 0 s0") auto
  note r1 = line_recv_spec [OF r]
  have q1: "quiet (ct_user s) (ct_user s1)" "\<not> ct_locked s1"
    using t r1 free by (auto intro: quiet_trans)
  have h1: "sys_hist hist s1 = sys_hist hist s @ (if r = 1 then [Got b] else [])"
    if "records hist (ct_user s)"
    using r1(3) [OF records_quiet [OF that t(1)]] t(3) by simp
  show ?thesis
  proof (cases "r = 1")
    case True
    with w r have "wr_byte_event b s1 = (s', ev)"
      by (simp add: wr_wait_event_def s0_def [symmetric])
    from wr_byte_event_spec [OF this] q1 h1 True show ?thesis
      by (auto intro: quiet_trans)
  next
    case False
    obtain s2 d where d: "line_dcd s1 = (s2, d)" by fastforce
    note d1 = line_dcd_spec [OF d]
    have q2: "quiet (ct_user s) (ct_user s2)" "\<not> ct_locked s2"
      using q1 d1 by (auto intro: quiet_trans)
    have h2: "sys_hist hist s2 = sys_hist hist s" if "records hist (ct_user s)"
      using d1(3) [OF records_quiet [OF that q1(1)]] h1 [OF that] False by simp
    have "(s' = s2 \<or> s' = upd_wr (\<lambda>c. c\<lparr>wr_txuplayer_timer_expired := False\<rparr>) s2 \<or>
        s' = upd_wr (\<lambda>c. c\<lparr>wr_txframe_timer_expired := False\<rparr>) s2) \<and>
        ev \<in> {TXUPLAYERTO_WREVT, TXFRAMETO_WREVT, NO_EVT}"
      using w r d False by (auto simp: wr_wait_event_def s0_def [symmetric] Let_def split: if_splits)
    then show ?thesis
      using q2 h2 by (auto intro: quiet_trans)
  qed
qed

text \<open>Sending: the frame cut from the data, and the state with which it goes to the line.\<close>

abbreviation wr_cut :: "'w dm_sys \<Rightarrow> nat" where
  "wr_cut s \<equiv> min (wr_remain_size (wrs s)) (max_data_size (conf s))"

definition wr_frame :: "'w dm_sys \<Rightarrow> byte list" where
  "wr_frame s = dmframe 0 0 (wr_curr_seqno (wrs s)) (take (wr_cut s) (wr_pdata (wrs s)))"

definition wr_armed :: "'w dm_sys \<Rightarrow> 'w dm_sys" where
  "wr_armed s =
     upd_h (\<lambda>h. h\<lparr>wr_curr_state := (wrs s)\<lparr>wr_curr_frame_data_size := wr_cut s\<rparr>,
                  dmodem_frame := put_frame (wr_frame s) (dmodem_frame h)\<rparr>)
       (add_ct txframe_timer (set_expires txframe_timer (txframe_to (conf s)) s))"

lemma wr_armed_user: "ct_user (wr_armed s) = (ct_user s)
    \<lparr>wr_curr_state := (wrs s)\<lparr>wr_curr_frame_data_size := wr_cut s\<rparr>,
     dmodem_frame := put_frame (wr_frame s) (dmodem_frame (ct_user s))\<rparr>"
  by (simp add: wr_armed_def)

lemma wr_armed_locked [simp]: "ct_locked (wr_armed s) = ct_locked s"
  by (simp add: wr_armed_def)

lemma wr_send_eq:
  assumes "\<not> ct_locked s"
  shows "wr_send_frame s = (if wr_cut s \<le> 512 \<and> wr_cut s \<le> length (wr_pdata (wrs s)) then
      (case line_send (wr_frame s) (wr_armed s) of (s', r) \<Rightarrow>
        if r = 0 then Some (SET_GLOBAL_ERROR EDMODEM_FATAL s', FRAMESENDEDERR_WREVT)
        else Some (s', NO_EVT)) else None)"
  using assms
  by (auto simp: wr_send_frame_def Let_def make_dmframe_eq wr_armed_def wr_frame_def min_def
      split: if_splits)

lemma wr_send_spec:
  assumes w: "wr_send_frame s = Some (s', ev)" and free: "\<not> ct_locked s"
  defines "n \<equiv> wr_cut s" and "f \<equiv> wr_frame s"
  shows "n \<le> 512" "n \<le> length (wr_pdata (wrs s))"
    "\<exists>u. ct_user s' = (ct_user s)\<lparr>wr_curr_state := (wrs s)\<lparr>wr_curr_frame_data_size := n\<rparr>,
        dmodem_frame := put_frame f (dmodem_frame (ct_user s)), uplayer_data := u,
        dm_global_error := (if ev = NO_EVT then dm_global_error (ct_user s) else EDMODEM_FATAL)\<rparr>"
    "ev = NO_EVT \<or> ev = FRAMESENDEDERR_WREVT" "\<not> ct_locked s'"
    "records hist (ct_user s) \<Longrightarrow> sys_hist hist s' = sys_hist hist s @ [Sent f]"
    "(ev = NO_EVT) = (snd (send_buf (ct_user s) (uplayer_data (ct_user s)) f) \<noteq> 0)"
    "line_dies \<mu> (ct_user s) \<Longrightarrow> sys_left \<mu> s' \<le> sys_left \<mu> s"
proof -
  note eq = wr_send_eq [OF free, folded n_def f_def]
  note u3 = wr_armed_user [of s, folded n_def f_def]
  obtain s4 r where snd: "line_send f (wr_armed s) = (s4, r)" by fastforce
  have bounds: "n \<le> 512 \<and> n \<le> length (wr_pdata (wrs s))"
    using w unfolding eq by (simp split: if_splits)
  have out: "s' = (if r = 0 then SET_GLOBAL_ERROR EDMODEM_FATAL s4 else s4) \<and>
      ev = (if r = 0 then FRAMESENDEDERR_WREVT else NO_EVT)"
    using w unfolding eq snd by (simp split: if_splits)
  note l = line_send_spec [OF snd]
  show "n \<le> 512" "n \<le> length (wr_pdata (wrs s))" using bounds by auto
  show "ev = NO_EVT \<or> ev = FRAMESENDEDERR_WREVT" using out by auto
  show "\<not> ct_locked s'" using out l(2) free by (auto simp: SET_GLOBAL_ERROR_def)
  show "(ev = NO_EVT) = (snd (send_buf (ct_user s) (uplayer_data (ct_user s)) f) \<noteq> 0)"
    using out l(4) u3 by auto
  show "\<exists>u. ct_user s' = (ct_user s)\<lparr>wr_curr_state := (wrs s)\<lparr>wr_curr_frame_data_size := n\<rparr>,
        dmodem_frame := put_frame f (dmodem_frame (ct_user s)), uplayer_data := u,
        dm_global_error := (if ev = NO_EVT then dm_global_error (ct_user s) else EDMODEM_FATAL)\<rparr>"
  proof -
    obtain u where "ct_user s4 = (ct_user (wr_armed s))\<lparr>uplayer_data := u\<rparr>" using l(5) by blast
    with out u3 show ?thesis
      by (intro exI [of _ u]) (auto simp: SET_GLOBAL_ERROR_def)
  qed
  show "sys_hist hist s' = sys_hist hist s @ [Sent f]" if "records hist (ct_user s)"
  proof -
    from that have "records hist (ct_user (wr_armed s))" by (simp add: u3 records_def)
    from l(3) [OF this] out u3 show ?thesis by (auto simp: SET_GLOBAL_ERROR_def)
  qed
  show "sys_left \<mu> s' \<le> sys_left \<mu> s" if "line_dies \<mu> (ct_user s)"
  proof -
    from that have "line_dies \<mu> (ct_user (wr_armed s))" by (simp add: u3 line_dies_def)
    from line_send_left [OF snd this] out u3 show ?thesis by (auto simp: SET_GLOBAL_ERROR_def)
  qed
qed

lemma wr_next_spec:
  assumes "wr_prepare_next_frame s = Some (s', ev)" "\<not> ct_locked s"
  shows "ct_user s' = (ct_user s)\<lparr>wr_curr_state := (wrs s)
      \<lparr>wr_pdata := drop (wr_curr_frame_data_size (wrs s)) (wr_pdata (wrs s)),
       wr_remain_size := wr_remain_size (wrs s) - wr_curr_frame_data_size (wrs s),
       wr_curr_seqno := wr_curr_seqno (wrs s) + 1\<rparr>\<rparr>" "\<not> ct_locked s'"
    "ev = (if wr_remain_size (wrs s') = 0 then NOMOREFRAMES_WREVT else MOREFRAMES_WREVT)"
  using assms by (auto simp: wr_prepare_next_frame_def Let_def split: if_splits)

lemma wr_retrans_spec:
  assumes "wr_prepare_retrans s = Some (s', ev)" "\<not> ct_locked s"
  shows "ct_user s' = (ct_user s)
      \<lparr>statistics := (statistics (ct_user s))\<lparr>txframeTO := txframeTO (statistics (ct_user s)) + 1\<rparr>,
       wr_curr_state := (wrs s)\<lparr>wr_retrans_no := wr_retrans_no (wrs s) + 1\<rparr>\<rparr>" "\<not> ct_locked s'"
    "ev = (if wr_retrans_no (wrs s) + 1 < max_retries (conf s) then MORERETRANS_WREVT
       else NOMORERETRANS_WREVT)"
  using assms by (auto simp: wr_prepare_retrans_def Let_def split: if_splits)

subsection \<open>The invariant of the transmitter\<close>

definition wr_todo :: "'w dm_sys \<Rightarrow> byte list list" where
  "wr_todo s = number_frames (wr_curr_seqno (wrs s))
     (chunks (max_data_size (conf s)) (take (wr_remain_size (wrs s)) (wr_pdata (wrs s))))"

definition wr_poll_events :: "int set" where
  "wr_poll_events = {ACK_WREVT, ACKCOMP_WREVT, NACK_WREVT, NACKCOMP_WREVT, UNBYTE_WREVT,
     TXUPLAYERTO_WREVT, TXFRAMETO_WREVT, NO_EVT}"

definition sents :: "io list \<Rightarrow> nat" where
  "sents t = length (filter (\<lambda>x. case x of Sent f \<Rightarrow> True | Got b \<Rightarrow> False) t)"

lemma sents_simps [simp]:
  "sents [] = 0" "sents (Sent f # t) = Suc (sents t)" "sents (Got b # t) = sents t"
  "sents (t @ u) = sents t + sents u" "sents (map Got ds) = 0"
  by (simp_all add: sents_def filter_map comp_def)

text \<open>What the current frame has on the line, by the state of the engine and the pending event.\<close>

definition wr_shape :: "int \<Rightarrow> int \<Rightarrow> byte list \<Rightarrow> io list \<Rightarrow> bool" where
  "wr_shape st ev f m \<longleftrightarrow>
     (if st = CTRLMOREFRAMES_WRST then ev \<in> {MOREFRAMES_WREVT, NOMOREFRAMES_WREVT} \<and> m = []
      else \<exists>m'. m = Sent f # m' \<and> noise f m' \<and>
        (st = FRAMESENDED_WRST \<and> ev \<in> insert FRAMESENDEDERR_WREVT wr_poll_events \<and>
           (ev = ACK_WREVT \<longrightarrow> (\<exists>m''. m' = m'' @ [Got DM_ACK])) \<or>
         st = NACKRCV_WRST \<and> ev \<in> wr_poll_events \<or>
         st = CTRLRETRANS_WRST \<and> ev \<in> {MORERETRANS_WREVT, NOMORERETRANS_WREVT} \<or>
         st = ACKRCV_WRST \<and> ev \<in> wr_poll_events \<and>
           (\<exists>m'' ds. m' = m'' @ Got DM_ACK # map Got ds \<and>
              (ev = UNBYTE_WREVT \<or> (if ev = ACKCOMP_WREVT then
                  \<exists>ds'. ds = ds' @ [DM_ACK_COMP] \<and> stray ds' else stray ds)))))"

definition wr_inv :: "('w \<Rightarrow> io list) \<Rightarrow> io list \<Rightarrow> byte list list \<Rightarrow> int \<Rightarrow> int \<Rightarrow> 'w dm_sys \<Rightarrow> bool" where
  "wr_inv hist H0 F st ev s \<longleftrightarrow>
     \<not> ct_locked s \<and> records hist (ct_user s) \<and> 0 < max_data_size (conf s) \<and>
     wr_remain_size (wrs s) \<le> length (wr_pdata (wrs s)) \<and>
     (st \<noteq> CTRLMOREFRAMES_WRST \<longrightarrow>
        wr_curr_frame_data_size (wrs s) = min (wr_remain_size (wrs s)) (max_data_size (conf s))) \<and>
     (\<exists>dn ts m. sys_hist hist s = H0 @ concat ts @ m \<and> list_all2 exchange dn ts \<and>
        F = dn @ (if st = CTRLMOREFRAMES_WRST \<and> ev = NOMOREFRAMES_WREVT then [] else wr_todo s) \<and>
        wr_shape st ev (hd (wr_todo s)) m)"

definition wr_post :: "('w \<Rightarrow> io list) \<Rightarrow> io list \<Rightarrow> byte list list \<Rightarrow> 'w dm_sys \<Rightarrow> bool" where
  "wr_post hist H0 F s \<longleftrightarrow> \<not> ct_locked s \<and>
     (dm_global_error (ct_user s) = EDMODEM_NOERROR \<longrightarrow>
       (\<exists>ts. sys_hist hist s = H0 @ concat ts \<and> list_all2 exchange F ts))"

lemma wr_todo_quiet: "quiet (ct_user s) (ct_user s') \<Longrightarrow> wr_todo s' = wr_todo s"
  by (simp add: wr_todo_def quiet_fields)

lemma number_chunks:
  assumes "0 < mx"
  shows "number_frames q (chunks mx d) =
    dmframe 0 0 q (take (min (length d) mx) d) #
      (if length d \<le> mx then [] else number_frames (q + 1) (chunks mx (drop mx d)))"
  using assms by (simp add: chunks.simps [of mx d] min_def)

lemma hd_wr_todo:
  assumes "0 < max_data_size (conf s)" "wr_remain_size (wrs s) \<le> length (wr_pdata (wrs s))"
  shows "hd (wr_todo s) = dmframe 0 0 (wr_curr_seqno (wrs s))
    (take (min (wr_remain_size (wrs s)) (max_data_size (conf s))) (wr_pdata (wrs s)))"
  using assms by (simp add: wr_todo_def number_chunks min_def)

lemma poll_events [simp]: "byte_event b \<in> wr_poll_events"
  by (simp add: byte_event_def wr_poll_events_def)

lemma wr_shape_wait:
  assumes sh: "wr_shape st NO_EVT f m"
    and ev: "(ev = byte_event b \<and> m' = m @ [Got b]) \<or>
      (ev \<in> {TXUPLAYERTO_WREVT, TXFRAMETO_WREVT, NO_EVT} \<and> m' = m)"
  shows "wr_shape st ev f m'"
proof -
  have pe: "ev \<in> wr_poll_events"
    using ev poll_events [of b] by (auto simp: wr_poll_events_def simp del: byte_event_def)
  from sh obtain m1 where m1: "m = Sent f # m1" "noise f m1"
    and sub: "st = FRAMESENDED_WRST \<or> st = NACKRCV_WRST \<or>
      st = ACKRCV_WRST \<and> (\<exists>m'' ds. m1 = m'' @ Got DM_ACK # map Got ds \<and> stray ds)"
    by (auto simp: wr_shape_def split: if_splits)
  obtain x where x: "m' = Sent f # (m1 @ x)" "noise f (m1 @ x)"
    "(ev = byte_event b \<and> x = [Got b]) \<or> (ev \<in> {TXUPLAYERTO_WREVT, TXFRAMETO_WREVT, NO_EVT} \<and> x = [])"
    using ev m1 by auto
  from sub show ?thesis
  proof (elim disjE conjE exE)
    assume "st = FRAMESENDED_WRST"
    then show ?thesis using pe x
      by (auto simp: wr_shape_def byte_event_def split: if_splits)
  next
    assume "st = NACKRCV_WRST"
    then show ?thesis using pe x by (auto simp: wr_shape_def)
  next
    fix m'' ds
    assume st: "st = ACKRCV_WRST" and d: "m1 = m'' @ Got DM_ACK # map Got ds" "stray ds"
    obtain es where es: "x = map Got es" using x(3) by (metis list.simps(8,9))
    have "ev = UNBYTE_WREVT \<or> (if ev = ACKCOMP_WREVT then
        \<exists>ds'. ds @ es = ds' @ [DM_ACK_COMP] \<and> stray ds' else stray (ds @ es))"
      using x(3) es d(2) by (auto simp: byte_event_def split: if_splits)
    moreover have "m1 @ x = m'' @ Got DM_ACK # map Got (ds @ es)" using d es by simp
    ultimately have "\<exists>m'' ds. m1 @ x = m'' @ Got DM_ACK # map Got ds \<and>
        (ev = UNBYTE_WREVT \<or> (if ev = ACKCOMP_WREVT then
            \<exists>ds'. ds = ds' @ [DM_ACK_COMP] \<and> stray ds' else stray ds))"
      by blast
    then show ?thesis using st pe x(1,2) by (simp add: wr_shape_def)
  qed
qed

lemma wr_invE:
  assumes "wr_inv hist H0 F st ev s"
  obtains dn ts m where "\<not> ct_locked s" "records hist (ct_user s)" "0 < max_data_size (conf s)"
    "wr_remain_size (wrs s) \<le> length (wr_pdata (wrs s))"
    "st \<noteq> CTRLMOREFRAMES_WRST \<longrightarrow>
       wr_curr_frame_data_size (wrs s) = min (wr_remain_size (wrs s)) (max_data_size (conf s))"
    "sys_hist hist s = H0 @ concat ts @ m" "list_all2 exchange dn ts"
    "F = dn @ (if st = CTRLMOREFRAMES_WRST \<and> ev = NOMOREFRAMES_WREVT then [] else wr_todo s)"
    "wr_shape st ev (hd (wr_todo s)) m"
  using assms unfolding wr_inv_def by blast

lemma wr_inv_wait:
  assumes inv: "wr_inv hist H0 F st NO_EVT s" and w: "wr_wait_event s = Some (s', ev)"
  shows "wr_inv hist H0 F st ev s'"
proof -
  from inv obtain dn ts m where i: "\<not> ct_locked s" "records hist (ct_user s)"
    "sys_hist hist s = H0 @ concat ts @ m" "list_all2 exchange dn ts"
    "wr_shape st NO_EVT (hd (wr_todo s)) m" "F = dn @ wr_todo s"
    by (auto simp: wr_inv_def)
  note ws = wr_wait_spec [OF w i(1), of hist]
  then have q: "quiet (ct_user s) (ct_user s')" "\<not> ct_locked s'" by auto
  from ws i(2,3) obtain m' b where
    m': "sys_hist hist s' = H0 @ concat ts @ m'"
    "(ev = byte_event b \<and> m' = m @ [Got b]) \<or>
      (ev \<in> {TXUPLAYERTO_WREVT, TXFRAMETO_WREVT, NO_EVT} \<and> m' = m)"
    by (metis append.assoc)
  have st: "st \<noteq> CTRLMOREFRAMES_WRST"
    using i(5) by (auto simp: wr_shape_def)
  show ?thesis
    unfolding wr_inv_def
    using inv q m' i st wr_shape_wait [OF i(5) m'(2)] records_quiet [OF i(2) q(1)]
    by (auto simp: wr_inv_def quiet_fields [OF q(1)] wr_todo_quiet [OF q(1)] simp del: byte_event_def
        intro!: exI [of _ dn] exI [of _ ts])
qed

lemma wr_row_none: "wr_none s = Some (s', ev) \<longleftrightarrow> s' = s \<and> ev = NO_EVT"
  by (auto simp: wr_none_def)

text \<open>Sending the current frame, for the first time or again.\<close>

lemma wr_inv_send:
  assumes inv: "wr_inv hist H0 F st ev s"
    and st: "st = CTRLMOREFRAMES_WRST \<and> ev = MOREFRAMES_WREVT \<or> st = CTRLRETRANS_WRST"
    and w: "wr_send_frame s = Some (s', ev')"
  shows "wr_inv hist H0 F FRAMESENDED_WRST ev' s'"
proof -
  from inv have l: "\<not> ct_locked s" by (simp add: wr_inv_def)
  note sp = wr_send_spec [OF w l]
  from inv obtain dn ts m where j: "sys_hist hist s = H0 @ concat ts @ m" "list_all2 exchange dn ts"
    "F = dn @ (if st = CTRLMOREFRAMES_WRST \<and> ev = NOMOREFRAMES_WREVT then [] else wr_todo s)"
    "wr_shape st ev (hd (wr_todo s)) m"
    by (rule wr_invE)
  have i: "records hist (ct_user s)" "0 < max_data_size (conf s)"
    "wr_remain_size (wrs s) \<le> length (wr_pdata (wrs s))"
    "F = dn @ wr_todo s" "m = [] \<or> (\<exists>m'. m = Sent (hd (wr_todo s)) # m' \<and> noise (hd (wr_todo s)) m')"
    using inv j(3,4) st by (auto simp: wr_inv_def wr_shape_def)
  from sp(3) obtain u where u: "ct_user s' = (ct_user s)
    \<lparr>wr_curr_state := (wrs s)\<lparr>wr_curr_frame_data_size := min (wr_remain_size (wrs s)) (max_data_size (conf s))\<rparr>,
     dmodem_frame := put_frame (hd (wr_todo s)) (dmodem_frame (ct_user s)), uplayer_data := u,
     dm_global_error := (if ev' = NO_EVT then dm_global_error (ct_user s) else EDMODEM_FATAL)\<rparr>"
    by (auto simp: hd_wr_todo [OF i(2,3)] wr_frame_def)
  have todo: "wr_todo s' = wr_todo s" by (simp add: wr_todo_def u)
  have h: "sys_hist hist s' = H0 @ concat ts @ (m @ [Sent (hd (wr_todo s))])"
    using sp(6) [OF i(1)] j(1) by (simp add: hd_wr_todo [OF i(2,3)] wr_frame_def)
  have rec: "records hist (ct_user s')" using i(1) by (simp add: u records_def)
  show ?thesis
    unfolding wr_inv_def
    using sp(4,5) i j(2) h todo rec
    by (intro conjI exI [of _ dn] exI [of _ ts] exI [of _ "m @ [Sent (hd (wr_todo s))]"])
      (auto simp: u wr_shape_def wr_poll_events_def)
qed

text \<open>The acknowledgement: the exchange is complete and the rest of the data is to be sent.\<close>

lemma wr_todo_next:
  assumes "0 < max_data_size (conf s)" "wr_remain_size (wrs s) \<le> length (wr_pdata (wrs s))"
    and n: "n = min (wr_remain_size (wrs s)) (max_data_size (conf s))"
    and s': "conf s' = conf s" "wr_pdata (wrs s') = drop n (wr_pdata (wrs s))"
      "wr_remain_size (wrs s') = wr_remain_size (wrs s) - n"
      "wr_curr_seqno (wrs s') = wr_curr_seqno (wrs s) + 1"
  shows "wr_todo s = hd (wr_todo s) # (if wr_remain_size (wrs s') = 0 then [] else wr_todo s')"
  using assms by (auto simp: wr_todo_def number_chunks drop_take min_def)

lemma wr_inv_next:
  assumes inv: "wr_inv hist H0 F ACKRCV_WRST ACKCOMP_WREVT s"
    and w: "wr_prepare_next_frame s = Some (s', ev')"
  shows "wr_inv hist H0 F CTRLMOREFRAMES_WRST ev' s'"
proof -
  from inv obtain dn ts m where j: "\<not> ct_locked s" "records hist (ct_user s)"
    "0 < max_data_size (conf s)" "wr_remain_size (wrs s) \<le> length (wr_pdata (wrs s))"
    "ACKRCV_WRST \<noteq> CTRLMOREFRAMES_WRST \<longrightarrow>
       wr_curr_frame_data_size (wrs s) = min (wr_remain_size (wrs s)) (max_data_size (conf s))"
    "sys_hist hist s = H0 @ concat ts @ m" "list_all2 exchange dn ts"
    "F = dn @ (if ACKRCV_WRST = CTRLMOREFRAMES_WRST \<and> ACKCOMP_WREVT = NOMOREFRAMES_WREVT then [] else wr_todo s)"
    "wr_shape ACKRCV_WRST ACKCOMP_WREVT (hd (wr_todo s)) m"
    by (rule wr_invE)
  have ex: "exchange (hd (wr_todo s)) m"
  proof -
    from j(9) obtain m'' ds' where "noise (hd (wr_todo s)) m''" "stray ds'"
      "m = Sent (hd (wr_todo s)) # m'' @ Got DM_ACK # map Got ds' @ [Got DM_ACK_COMP]"
      by (auto simp: wr_shape_def)
    then show ?thesis unfolding exchange_def by blast
  qed
  note us = wr_next_spec(1) [OF w j(1)] and l = wr_next_spec(2) [OF w j(1)]
    and ev = wr_next_spec(3) [OF w j(1)]
  have td: "wr_todo s = hd (wr_todo s) # (if wr_remain_size (wrs s') = 0 then [] else wr_todo s')"
    by (rule wr_todo_next [OF j(3,4) refl]) (use j(5) us in auto)
  have "list_all2 exchange (dn @ [hd (wr_todo s)]) (ts @ [m])"
    using j(7) ex by (simp add: list_all2_appendI)
  moreover have "sys_hist hist s' = H0 @ concat (ts @ [m]) @ []" using us j(6) by simp
  moreover have "F = (dn @ [hd (wr_todo s)]) @ (if ev' = NOMOREFRAMES_WREVT then [] else wr_todo s')"
    using j(8) td ev by (auto split: if_splits)
  moreover have "wr_shape CTRLMOREFRAMES_WRST ev' (hd (wr_todo s')) []"
    using ev by (simp add: wr_shape_def)
  moreover have "records hist (ct_user s')" using j(2) us by (simp add: records_def)
  ultimately show ?thesis
    unfolding wr_inv_def using l j(3,4,5) us by (intro conjI exI) auto
qed

lemma wr_inv_retrans:
  assumes inv: "wr_inv hist H0 F st ev s" and st: "st \<noteq> CTRLMOREFRAMES_WRST"
    and w: "wr_prepare_retrans s = Some (s', ev')"
  shows "wr_inv hist H0 F CTRLRETRANS_WRST ev' s'"
proof -
  from inv have l: "\<not> ct_locked s" by (simp add: wr_inv_def)
  note u = wr_retrans_spec [OF w l]
  from inv obtain dn ts m where j: "records hist (ct_user s)" "0 < max_data_size (conf s)"
    "wr_remain_size (wrs s) \<le> length (wr_pdata (wrs s))"
    "st \<noteq> CTRLMOREFRAMES_WRST \<longrightarrow>
       wr_curr_frame_data_size (wrs s) = min (wr_remain_size (wrs s)) (max_data_size (conf s))"
    "sys_hist hist s = H0 @ concat ts @ m" "list_all2 exchange dn ts"
    "F = dn @ (if st = CTRLMOREFRAMES_WRST \<and> ev = NOMOREFRAMES_WREVT then [] else wr_todo s)"
    "wr_shape st ev (hd (wr_todo s)) m"
    by (rule wr_invE)
  have "wr_todo s' = wr_todo s" by (simp add: wr_todo_def u)
  moreover have "records hist (ct_user s')" using j(1) by (simp add: u records_def)
  moreover have "wr_shape CTRLRETRANS_WRST ev' (hd (wr_todo s)) m"
    using j(8) st u(3) by (auto simp: wr_shape_def)
  ultimately show ?thesis
    unfolding wr_inv_def using u j(2-7) st
    by (intro conjI exI [of _ dn] exI [of _ ts] exI [of _ m]) simp_all
qed

lemma wr_handlers_error:
  "\<not> ct_locked s \<Longrightarrow> wr_exit_txuplayerto s = Some (s', ev) \<Longrightarrow> wr_post hist H0 F s'"
  "\<not> ct_locked s \<Longrightarrow> wr_exit_retrans s = Some (s', ev) \<Longrightarrow> wr_post hist H0 F s'"
  "\<not> ct_locked s \<Longrightarrow> wr_exit_frame_error s = Some (s', ev) \<Longrightarrow> wr_post hist H0 F s'"
  by (auto simp: wr_exit_txuplayerto_def wr_exit_retrans_def wr_exit_frame_error_def wr_post_def
      SET_GLOBAL_ERROR_def)

lemma wr_handler_ok:
  assumes "wr_inv hist H0 F CTRLMOREFRAMES_WRST NOMOREFRAMES_WREVT s"
    and "wr_exit_ok s = Some (s', ev)"
  shows "wr_post hist H0 F s'"
proof -
  from assms(1) obtain dn ts m where j: "\<not> ct_locked s" "sys_hist hist s = H0 @ concat ts @ m"
    "list_all2 exchange dn ts"
    "F = dn @ (if CTRLMOREFRAMES_WRST = CTRLMOREFRAMES_WRST \<and> NOMOREFRAMES_WREVT = NOMOREFRAMES_WREVT then [] else wr_todo s)"
    "wr_shape CTRLMOREFRAMES_WRST NOMOREFRAMES_WREVT (hd (wr_todo s)) m"
    by (rule wr_invE)
  with assms(2) show ?thesis
    by (auto simp: wr_exit_ok_def SET_GLOBAL_ERROR_def wr_post_def wr_shape_def)
qed

lemma wr_inv_states: "wr_inv hist H0 F st ev s \<Longrightarrow>
    st \<in> {FRAMESENDED_WRST, ACKRCV_WRST, NACKRCV_WRST} \<and>
      ev \<in> insert FRAMESENDEDERR_WREVT wr_poll_events \<and>
      (ev = FRAMESENDEDERR_WREVT \<longrightarrow> st = FRAMESENDED_WRST) \<or>
    st = CTRLRETRANS_WRST \<and> ev \<in> {MORERETRANS_WREVT, NOMORERETRANS_WREVT} \<or>
    st = CTRLMOREFRAMES_WRST \<and> ev \<in> {MOREFRAMES_WREVT, NOMOREFRAMES_WREVT}"
  by (auto simp: wr_inv_def wr_shape_def wr_poll_events_def split: if_splits)

lemma wr_row_cases:
  assumes "first_row wr_transitions st ev = Some (nx, f)"
  obtains (none) "f = wr_none" "(st, ev, nx) \<in>
      {(FRAMESENDED_WRST, ACK_WREVT, ACKRCV_WRST), (FRAMESENDED_WRST, NACK_WREVT, NACKRCV_WRST),
       (FRAMESENDED_WRST, UNBYTE_WREVT, FRAMESENDED_WRST), (NACKRCV_WRST, UNBYTE_WREVT, FRAMESENDED_WRST)}"
  | (send) "f = wr_send_frame" "nx = FRAMESENDED_WRST"
      "st = START_WRST \<or> st = CTRLMOREFRAMES_WRST \<and> ev = MOREFRAMES_WREVT \<or>
       st = CTRLRETRANS_WRST \<and> ev = MORERETRANS_WREVT"
  | (advance) "f = wr_prepare_next_frame" "st = ACKRCV_WRST" "ev = ACKCOMP_WREVT" "nx = CTRLMOREFRAMES_WRST"
  | (retrans) "f = wr_prepare_retrans" "st \<in> {FRAMESENDED_WRST, ACKRCV_WRST, NACKRCV_WRST}"
      "nx = CTRLRETRANS_WRST"
  | (finish) "f = wr_exit_ok" "st = CTRLMOREFRAMES_WRST" "ev = NOMOREFRAMES_WREVT" "nx = EXIT_ST"
  | (error) "f \<in> {wr_exit_txuplayerto, wr_exit_retrans, wr_exit_frame_error}" "nx = EXIT_ST"
  using first_row_mem [OF assms] unfolding wr_transitions_def
  by (simp only: list.set insert_iff empty_iff ProtoTransition.inject simp_thms) (elim disjE conjE; simp)

lemma wr_inv_none:
  assumes inv: "wr_inv hist H0 F st ev s" and r: "(st, ev, nx) \<in>
      {(FRAMESENDED_WRST, ACK_WREVT, ACKRCV_WRST), (FRAMESENDED_WRST, NACK_WREVT, NACKRCV_WRST),
       (FRAMESENDED_WRST, UNBYTE_WREVT, FRAMESENDED_WRST), (NACKRCV_WRST, UNBYTE_WREVT, FRAMESENDED_WRST)}"
  shows "wr_inv hist H0 F nx NO_EVT s"
proof -
  from inv obtain dn ts m where j: "\<not> ct_locked s" "records hist (ct_user s)" "0 < max_data_size (conf s)"
    "wr_remain_size (wrs s) \<le> length (wr_pdata (wrs s))"
    "st \<noteq> CTRLMOREFRAMES_WRST \<longrightarrow>
       wr_curr_frame_data_size (wrs s) = min (wr_remain_size (wrs s)) (max_data_size (conf s))"
    "sys_hist hist s = H0 @ concat ts @ m" "list_all2 exchange dn ts"
    "F = dn @ (if st = CTRLMOREFRAMES_WRST \<and> ev = NOMOREFRAMES_WREVT then [] else wr_todo s)"
    "wr_shape st ev (hd (wr_todo s)) m"
    by (rule wr_invE)
  have "wr_shape nx NO_EVT (hd (wr_todo s)) m"
  proof (cases "nx = ACKRCV_WRST")
    case True
    with j(9) r obtain m'' where m: "m = Sent (hd (wr_todo s)) # m'' @ Got DM_ACK # map Got []"
      "noise (hd (wr_todo s)) (m'' @ Got DM_ACK # map Got [])"
      by (auto simp: wr_shape_def)
    have "\<exists>m3 ds. m'' @ Got DM_ACK # map Got [] = m3 @ Got DM_ACK # map Got ds \<and> stray ds"
      by (intro exI [of _ m''] exI [of _ "[]"]) simp
    with m True show ?thesis by (simp add: wr_shape_def wr_poll_events_def)
  next
    case False
    with j(9) r show ?thesis by (auto simp: wr_shape_def wr_poll_events_def)
  qed
  with j r show ?thesis
    unfolding wr_inv_def by (intro conjI exI [of _ dn] exI [of _ ts] exI [of _ m]) auto
qed

lemma wr_inv_row:
  assumes inv: "wr_inv hist H0 F st ev s" and row: "first_row wr_transitions st ev = Some (nx, f)"
    and f: "f s = Some (s', ev')"
  shows "if nx = EXIT_ST then wr_post hist H0 F s' else wr_inv hist H0 F nx ev' s'"
  using row
proof (cases rule: wr_row_cases)
  case none
  with f wr_inv_none [OF inv none(2)] show ?thesis by (auto simp: wr_none_def)
next
  case send
  with wr_inv_states [OF inv] have "st = CTRLMOREFRAMES_WRST \<and> ev = MOREFRAMES_WREVT \<or> st = CTRLRETRANS_WRST"
    by auto
  with send f wr_inv_send [OF inv] show ?thesis by simp
next
  case advance
  with f inv wr_inv_next show ?thesis by auto
next
  case retrans
  with f wr_inv_retrans [OF inv] show ?thesis by auto
next
  case finish
  with f inv wr_handler_ok show ?thesis by auto
next
  case error
  moreover have "\<not> ct_locked s" using inv by (simp add: wr_inv_def)
  ultimately show ?thesis using f wr_handlers_error by auto
qed

lemma wr_inv_drop:
  assumes inv: "wr_inv hist H0 F st ev s" and row: "first_row wr_transitions st ev = None"
  shows "wr_inv hist H0 F st NO_EVT s"
proof -
  have ev: "(st, ev) \<in> {FRAMESENDED_WRST, NACKRCV_WRST} \<times> {ACKCOMP_WREVT, NACKCOMP_WREVT, NACK_WREVT, ACK_WREVT, NO_EVT}
      \<union> {ACKRCV_WRST} \<times> {ACK_WREVT, NACK_WREVT, NACKCOMP_WREVT, NO_EVT}"
    using wr_inv_states [OF inv] row unfolding wr_poll_events_def insert_iff empty_iff
    by (elim disjE conjE FalseE; hypsubst?; simp add: wr_transitions_def)
  from inv obtain dn ts m where j: "\<not> ct_locked s" "records hist (ct_user s)" "0 < max_data_size (conf s)"
    "wr_remain_size (wrs s) \<le> length (wr_pdata (wrs s))"
    "st \<noteq> CTRLMOREFRAMES_WRST \<longrightarrow>
       wr_curr_frame_data_size (wrs s) = min (wr_remain_size (wrs s)) (max_data_size (conf s))"
    "sys_hist hist s = H0 @ concat ts @ m" "list_all2 exchange dn ts"
    "F = dn @ (if st = CTRLMOREFRAMES_WRST \<and> ev = NOMOREFRAMES_WREVT then [] else wr_todo s)"
    "wr_shape st ev (hd (wr_todo s)) m"
    by (rule wr_invE)
  have "wr_shape st NO_EVT (hd (wr_todo s)) m"
    using j(9) ev by (auto simp: wr_shape_def wr_poll_events_def split: if_splits)
  with j ev show ?thesis
    unfolding wr_inv_def by (intro conjI exI [of _ dn] exI [of _ ts] exI [of _ m]) auto
qed

subsection \<open>Counting transmissions\<close>

text \<open>
  Frames sent and frames still to be sent for the first time add up to the number of frames plus
  the retransmissions counted so far.
\<close>

definition wr_count :: "('w \<Rightarrow> io list) \<Rightarrow> io list \<Rightarrow> nat \<Rightarrow> int \<Rightarrow> int \<Rightarrow> int \<Rightarrow> 'w dm_sys \<Rightarrow> bool" where
  "wr_count hist H0 N mr st ev s \<longleftrightarrow> max_retries (conf s) = mr \<and> 0 \<le> wr_retrans_no (wrs s) \<and>
     (if st = CTRLRETRANS_WRST
      then 0 < wr_retrans_no (wrs s) \<and>
        (ev = MORERETRANS_WREVT \<longrightarrow> wr_retrans_no (wrs s) < max_retries (conf s)) \<and>
        wr_retrans_no (wrs s) \<le> max 1 (max_retries (conf s))
      else wr_retrans_no (wrs s) < max 1 (max_retries (conf s))) \<and>
     (\<exists>t. sys_hist hist s = H0 @ t \<and>
        int (sents t) + (if st = CTRLMOREFRAMES_WRST then (if ev = NOMOREFRAMES_WREVT then 0
            else int (length (wr_todo s))) else int (length (wr_todo s)) - 1) =
        int N + wr_retrans_no (wrs s) - (if st = CTRLRETRANS_WRST then 1 else 0))"

definition wr_count_post :: "('w \<Rightarrow> io list) \<Rightarrow> io list \<Rightarrow> nat \<Rightarrow> int \<Rightarrow> 'w dm_sys \<Rightarrow> bool" where
  "wr_count_post hist H0 N mr s \<longleftrightarrow>
     (\<exists>t. sys_hist hist s = H0 @ t \<and> int (sents t) < int N + max 1 mr)"

lemma wr_todo_pos: "0 < length (wr_todo s)"
  by (simp add: wr_todo_def)

lemma wr_count_wait:
  assumes inv: "wr_inv hist H0 F st NO_EVT s" and c: "wr_count hist H0 N mr st NO_EVT s"
    and w: "wr_wait_event s = Some (s', ev)"
  shows "wr_count hist H0 N mr st ev s'"
proof -
  from inv have i: "\<not> ct_locked s" "records hist (ct_user s)" by (auto simp: wr_inv_def)
  have st: "st \<noteq> CTRLMOREFRAMES_WRST" "st \<noteq> CTRLRETRANS_WRST"
    using wr_inv_states [OF inv] by auto
  note ws = wr_wait_spec [OF w i(1), of hist]
  then have q: "quiet (ct_user s) (ct_user s')" by auto
  from ws i(2) obtain x where "sys_hist hist s' = sys_hist hist s @ x" "sents x = 0"
    by (metis append_Nil2 sents_simps(1,3))
  then show ?thesis
    using c st by (auto simp: wr_count_def quiet_fields [OF q] wr_todo_quiet [OF q])
qed

lemma wr_count_row:
  assumes inv: "wr_inv hist H0 F st ev s" and c: "wr_count hist H0 N mr st ev s"
    and row: "first_row wr_transitions st ev = Some (nx, f)" and f: "f s = Some (s', ev')"
  shows "if nx = EXIT_ST then wr_count_post hist H0 N mr s'
    else wr_count hist H0 N mr nx ev' s'"
  using row
proof (cases rule: wr_row_cases)
  case none
  with f c show ?thesis by (auto simp: wr_none_def wr_count_def)
next
  case send
  from inv have l: "\<not> ct_locked s" "records hist (ct_user s)" by (auto simp: wr_inv_def)
  from send wr_inv_states [OF inv] have st: "st = CTRLMOREFRAMES_WRST \<and> ev = MOREFRAMES_WREVT \<or>
      st = CTRLRETRANS_WRST \<and> ev = MORERETRANS_WREVT"
    by auto
  note sp = wr_send_spec [OF f [unfolded send(1)] l(1)]
  from sp(3) obtain u where u: "wrs s' = (wrs s)\<lparr>wr_curr_frame_data_size :=
      min (wr_remain_size (wrs s)) (max_data_size (conf s))\<rparr>" "conf s' = conf s"
    by auto
  then have "wr_todo s' = wr_todo s" by (simp add: wr_todo_def)
  moreover obtain x where "sys_hist hist s' = sys_hist hist s @ x" "sents x = 1"
    using sp(6) [OF l(2)] by auto
  ultimately show ?thesis
    using c st send(2) u by (auto simp: wr_count_def)
next
  case advance
  then have cs: "wr_curr_frame_data_size (wrs s) = min (wr_remain_size (wrs s)) (max_data_size (conf s))"
    "0 < max_data_size (conf s)" "wr_remain_size (wrs s) \<le> length (wr_pdata (wrs s))" "\<not> ct_locked s"
    using inv by (auto simp: wr_inv_def)
  note us = wr_next_spec(1) [OF f [unfolded advance(1)] cs(4)]
    and ev = wr_next_spec(3) [OF f [unfolded advance(1)] cs(4)]
  have td: "wr_todo s = hd (wr_todo s) # (if wr_remain_size (wrs s') = 0 then [] else wr_todo s')"
    by (rule wr_todo_next [OF cs(2,3) refl]) (use cs us in auto)
  have "length (wr_todo s) = Suc (if wr_remain_size (wrs s') = 0 then 0 else length (wr_todo s'))"
    using arg_cong [OF td, of length] by (simp split: if_splits)
  then show ?thesis
    using c advance us ev by (auto simp: wr_count_def)
next
  case retrans
  from inv have l: "\<not> ct_locked s" by (simp add: wr_inv_def)
  note u = wr_retrans_spec [OF f [unfolded retrans(1)] l]
  then have "wr_todo s' = wr_todo s" by (simp add: wr_todo_def)
  with u c retrans show ?thesis by (auto simp: wr_count_def)
next
  case finish
  have "\<not> ct_locked s" using inv by (simp add: wr_inv_def)
  with finish f c show ?thesis
    by (auto simp: wr_count_def wr_count_post_def wr_exit_ok_def SET_GLOBAL_ERROR_def)
next
  case error
  have "\<not> ct_locked s" using inv by (simp add: wr_inv_def)
  with error f have "uplayer_data (ct_user s') = uplayer_data (ct_user s)"
    by (auto simp: wr_exit_txuplayerto_def wr_exit_retrans_def wr_exit_frame_error_def SET_GLOBAL_ERROR_def)
  moreover obtain k where "length (wr_todo s) = Suc k"
    using wr_todo_pos [of s] by (cases "length (wr_todo s)") auto
  ultimately show ?thesis using error c
    by (auto simp: wr_count_def wr_count_post_def split: if_splits)
qed

subsection \<open>The transmitter offers the engine's interface\<close>

definition wr_holds ::
  "('w \<Rightarrow> io list) \<Rightarrow> io list \<Rightarrow> byte list list \<Rightarrow> int \<Rightarrow> int \<Rightarrow> int \<Rightarrow> 'w dm_sys \<Rightarrow> bool" where
  "wr_holds hist H0 F mr st ev s \<longleftrightarrow>
     wr_inv hist H0 F st ev s \<and> wr_count hist H0 (length F) mr st ev s"

interpretation wr: proto_machine wr_transitions wr_wait_event NO_EVT EXIT_ST
  "wr_holds hist H0 F mr" "\<lambda>s. wr_post hist H0 F s \<and> wr_count_post hist H0 (length F) mr s"
  for hist H0 F mr
proof unfold_locales
  fix st ev s nx s' ev' and f :: "'a dm_sys handler"
  show "states_valid wr_transitions" by (simp add: states_valid_def wr_transitions_def)
  show "wr_holds hist H0 F mr st ev s'" if "wr_holds hist H0 F mr st NO_EVT s" "wr_wait_event s = Some (s', ev)"
    using that wr_inv_wait wr_count_wait unfolding wr_holds_def by blast
  show "if nx = EXIT_ST then wr_post hist H0 F s' \<and> wr_count_post hist H0 (length F) mr s'
      else wr_holds hist H0 F mr nx ev' s'"
    if "wr_holds hist H0 F mr st ev s" "first_row wr_transitions st ev = Some (nx, f)" "f s = Some (s', ev')"
  proof -
    from that(1) have i: "wr_inv hist H0 F st ev s" "wr_count hist H0 (length F) mr st ev s"
      by (auto simp: wr_holds_def)
    from wr_inv_row [OF i(1) that(2,3)] wr_count_row [OF i that(2,3)] show ?thesis
      by (auto simp: wr_holds_def split: if_splits)
  qed
  show "wr_holds hist H0 F mr st NO_EVT s"
    if i: "wr_holds hist H0 F mr st ev s" and r: "first_row wr_transitions st ev = None"
  proof -
    from i have i': "wr_inv hist H0 F st ev s" "wr_count hist H0 (length F) mr st ev s"
      by (auto simp: wr_holds_def)
    have "st \<noteq> CTRLRETRANS_WRST \<and> st \<noteq> CTRLMOREFRAMES_WRST"
      using wr_inv_states [OF i'(1)] r by (auto simp: wr_transitions_def)
    with i'(2) have "wr_count hist H0 (length F) mr st NO_EVT s" by (auto simp: wr_count_def)
    with wr_inv_drop [OF i'(1) r] show ?thesis by (simp add: wr_holds_def)
  qed
qed

text \<open>The first transmission puts the engine's initial state under the invariant.\<close>

definition wr_request :: "byte list \<Rightarrow> nat \<Rightarrow> 'w dm_sys \<Rightarrow> 'w dm_sys" where
  "wr_request buf sz s = upd_wr (\<lambda>c. c\<lparr>wr_pdata := buf, wr_data_size := sz\<rparr>) (CLEAR_GLOBAL_ERROR s)"

definition wr_started :: "byte list \<Rightarrow> nat \<Rightarrow> 'w dm_sys \<Rightarrow> 'w dm_sys" where
  "wr_started buf sz s = add_ct txuplayer_timer
    (set_expires txuplayer_timer (ct_ticks s + txuplayer_to (conf s) * 10)
      (set_period txuplayer_timer (txuplayer_to (conf s) * 10)
        (set_expires txframe_timer (txframe_to (conf s))
          (upd_wr (\<lambda>c. c\<lparr>wr_remain_size := wr_data_size c, wr_retrans_no := 0,
             wr_txuplayer_timer_expired := False, wr_txframe_timer_expired := False\<rparr>)
            (wr_request buf sz s)))))"

lemma wr_started_user:
  "ct_user (wr_started buf sz s) = (ct_user s)\<lparr>dm_global_error := EDMODEM_NOERROR,
     wr_curr_state := (wrs s)\<lparr>wr_pdata := buf, wr_data_size := sz, wr_remain_size := sz,
       wr_retrans_no := 0, wr_txuplayer_timer_expired := False, wr_txframe_timer_expired := False\<rparr>\<rparr>"
  "ct_locked (wr_started buf sz s) = ct_locked s"
  by (simp_all add: wr_started_def wr_request_def CLEAR_GLOBAL_ERROR_def)

lemma wr_init_eq:
  "\<not> ct_locked s \<Longrightarrow> wr_init (wr_request buf sz s) =
    map_option (\<lambda>(s', ev). (s', if ev = NO_EVT then 1 else 0)) (wr_send_frame (wr_started buf sz s))"
  by (cases "wr_send_frame (wr_started buf sz s)")
    (auto simp: wr_init_def Let_def wr_started_def wr_request_def CLEAR_GLOBAL_ERROR_def)

lemma wr_init_holds:
  assumes w: "wr_init (wr_request buf sz s) = Some (s', rv)" and free: "\<not> ct_locked s"
    and rec: "records hist (ct_user s)" and sz: "sz \<le> length buf" and mx: "0 < max_data_size (conf s)"
  defines "F \<equiv> number_frames (wr_curr_seqno (wrs s)) (chunks (max_data_size (conf s)) (take sz buf))"
  shows "wr_holds hist (sys_hist hist s) F (max_retries (conf s)) FRAMESENDED_WRST NO_EVT s'"
    "rv = 0 \<or> rv = 1"
proof -
  define s1 where "s1 = wr_started buf sz s"
  note u1 = wr_started_user(1) [of buf sz s, folded s1_def]
  have l1: "\<not> ct_locked s1" using free by (simp add: s1_def wr_started_user)
  from w free obtain ev where snd: "wr_send_frame s1 = Some (s', ev)"
    and rv: "rv = (if ev = NO_EVT then 1 else 0)"
    by (auto simp: wr_init_eq s1_def)
  from rv show "rv = 0 \<or> rv = 1" by auto
  have todo1: "wr_todo s1 = F" by (simp add: wr_todo_def u1 F_def)
  note sp = wr_send_spec [OF snd l1]
  show "wr_holds hist (sys_hist hist s) F (max_retries (conf s)) FRAMESENDED_WRST NO_EVT s'"
  proof -
    have i1: "wr_inv hist (sys_hist hist s) F CTRLMOREFRAMES_WRST MOREFRAMES_WREVT s1"
      using l1 rec mx sz unfolding wr_inv_def
      by (intro conjI exI [of _ "[]"]) (auto simp: u1 records_def todo1 wr_shape_def)
    have c1: "wr_count hist (sys_hist hist s) (length F) (max_retries (conf s))
        CTRLMOREFRAMES_WRST MOREFRAMES_WREVT s1"
      by (simp add: wr_count_def todo1) (simp add: u1)
    have row: "first_row wr_transitions CTRLMOREFRAMES_WRST MOREFRAMES_WREVT =
        Some (FRAMESENDED_WRST, wr_send_frame)"
      by (simp add: wr_transitions_def)
    from wr_inv_row [OF i1 row snd] wr_count_row [OF i1 c1 row snd]
    have "wr_inv hist (sys_hist hist s) F FRAMESENDED_WRST ev s'"
      "wr_count hist (sys_hist hist s) (length F) (max_retries (conf s)) FRAMESENDED_WRST ev s'"
      by simp_all
    then show ?thesis
      using sp(4) by (auto simp: wr_holds_def wr_inv_def wr_count_def wr_shape_def wr_poll_events_def)
  qed
qed

lemma wr_clean_user: "wr_clean_curr_state s = Some s' \<Longrightarrow> \<not> ct_locked s \<Longrightarrow> ct_user s' = ct_user s"
  by (auto simp: wr_clean_curr_state_def)

lemma dmodem_write_post:
  assumes w: "dmodem_write fuel buf sz s = Done s' r" and free: "\<not> ct_locked s"
    and rec: "records hist (ct_user s)" and sz: "sz \<le> length buf" and mx: "0 < max_data_size (conf s)"
  defines "F \<equiv> number_frames (wr_curr_seqno (wrs s)) (chunks (max_data_size (conf s)) (take sz buf))"
  shows "\<exists>s1. wr_post hist (sys_hist hist s) F s1 \<and>
    wr_count_post hist (sys_hist hist s) (length F) (max_retries (conf s)) s1 \<and>
    ct_user s' = ct_user s1 \<and> r = (if dm_global_error (ct_user s') = EDMODEM_NOERROR then 1 else 0)"
proof -
  from w obtain s0 rv where i: "wr_init (wr_request buf sz s) = Some (s0, rv)"
    by (auto simp: dmodem_write_def wr_request_def Let_def split: option.splits)
  note h = wr_init_holds [OF i free rec sz mx, folded F_def]
  from w i h(2) have e: "proto_engine wr_transitions wr_wait_event wr_clean_curr_state
      NO_EVT FRAMESENDED_WRST EXIT_ST fuel s0 = Returned s'"
    and r: "r = (if dm_global_error (ct_user s') = EDMODEM_NOERROR then 1 else 0)"
    by (auto simp: dmodem_write_def wr_request_def Let_def GET_GLOBAL_ERROR_def split: engine_result.splits)
  from wr.engine_post [OF h(1) e] obtain s1 where
    "wr_post hist (sys_hist hist s) F s1 \<and> wr_count_post hist (sys_hist hist s) (length F) (max_retries (conf s)) s1"
    "wr_clean_curr_state s1 = Some s'" .
  moreover from this have "ct_user s' = ct_user s1"
    by (auto simp: wr_post_def intro: wr_clean_user)
  ultimately show ?thesis using r by blast
qed

subsection \<open>When the operation returns\<close>

definition wr_pending :: "int \<Rightarrow> int \<Rightarrow> bool" where
  "wr_pending st ev \<longleftrightarrow>
     st \<in> {FRAMESENDED_WRST, ACKRCV_WRST, NACKRCV_WRST} \<and>
       ev \<in> insert FRAMESENDEDERR_WREVT wr_poll_events \<and>
       (ev = FRAMESENDEDERR_WREVT \<longrightarrow> st = FRAMESENDED_WRST) \<or>
     st = CTRLRETRANS_WRST \<and> ev \<in> {MORERETRANS_WREVT, NOMORERETRANS_WREVT} \<or>
     st = CTRLMOREFRAMES_WRST \<and> ev \<in> {MOREFRAMES_WREVT, NOMOREFRAMES_WREVT}"

lemma wr_poll_none: "NO_EVT \<in> wr_poll_events"
  by (simp add: wr_poll_events_def)

lemma wr_pending_simps:
  "ev \<in> wr_poll_events \<Longrightarrow> wr_pending FRAMESENDED_WRST ev"
  "ev \<in> wr_poll_events \<Longrightarrow> wr_pending ACKRCV_WRST ev"
  "ev \<in> wr_poll_events \<Longrightarrow> wr_pending NACKRCV_WRST ev"
  "wr_pending FRAMESENDED_WRST FRAMESENDEDERR_WREVT"
  "ev \<in> {MORERETRANS_WREVT, NOMORERETRANS_WREVT} \<Longrightarrow> wr_pending CTRLRETRANS_WRST ev"
  "ev \<in> {MOREFRAMES_WREVT, NOMOREFRAMES_WREVT} \<Longrightarrow> wr_pending CTRLMOREFRAMES_WRST ev"
  by (auto simp: wr_pending_def wr_poll_events_def)

definition wr_safe :: "('w \<Rightarrow> nat) \<Rightarrow> int \<Rightarrow> int \<Rightarrow> 'w dm_sys \<Rightarrow> bool" where
  "wr_safe \<mu> st ev s \<longleftrightarrow>
     \<not> ct_locked s \<and> line_dies \<mu> (ct_user s) \<and> max_data_size (conf s) \<le> 512 \<and>
     wr_remain_size (wrs s) \<le> length (wr_pdata (wrs s)) \<and>
     wr_pending st ev"

definition wr_left :: "('w \<Rightarrow> nat) \<Rightarrow> int \<Rightarrow> int \<Rightarrow> 'w dm_sys \<Rightarrow> nat" where
  "wr_left \<mu> st ev s =
     (if ev \<in> {TXUPLAYERTO_WREVT, FRAMESENDEDERR_WREVT} then 0
      else 4 * sys_left \<mu> s + (if ev = NO_EVT then 2
        else if st \<in> {CTRLRETRANS_WRST, CTRLMOREFRAMES_WRST} then 4 else 5))"

lemma wr_wait_left:
  assumes w: "wr_wait_event s = Some (s', ev)" and free: "\<not> ct_locked s"
    and d: "line_dies \<mu> (ct_user s)"
  shows "sys_left \<mu> s' < sys_left \<mu> s \<or> ev = TXUPLAYERTO_WREVT" "ev \<in> wr_poll_events"
proof -
  define s0 where "s0 = dm_timers_run s"
  note t = timers_quiet [of s, folded s0_def]
  have d0: "line_dies \<mu> (ct_user s0)" using d t(1) by (rule line_dies_quiet)
  obtain s1 r b where r: "line_recv 0 s0 = (s1, r, b)" by (cases "line_recv 0 s0") auto
  have d1: "line_dies \<mu> (ct_user s1)" using d0 line_recv_spec(1) [OF r] by (rule line_dies_quiet)
  obtain s2 c where c: "line_dcd s1 = (s2, c)" by fastforce
  show "sys_left \<mu> s' < sys_left \<mu> s \<or> ev = TXUPLAYERTO_WREVT" "ev \<in> wr_poll_events"
    using w r c t(3) line_recv_left [OF r d0] line_dcd_left [OF c d1]
    by (auto simp: wr_wait_event_def s0_def [symmetric] wr_byte_event_def wr_poll_events_def
        split: if_splits)
qed


lemma wr_safe_send:
  assumes "\<not> ct_locked s" "line_dies \<mu> (ct_user s)" "max_data_size (conf s) \<le> 512"
    and "wr_remain_size (wrs s) \<le> length (wr_pdata (wrs s))"
  shows "\<exists>s' ev. wr_send_frame s = Some (s', ev) \<and> wr_safe \<mu> FRAMESENDED_WRST ev s'
    \<and> ev \<in> {NO_EVT, FRAMESENDEDERR_WREVT} \<and> sys_left \<mu> s' \<le> sys_left \<mu> s"
proof -
  have "wr_cut s \<le> 512 \<and> wr_cut s \<le> length (wr_pdata (wrs s))" using assms(3,4) by auto
  then have "wr_send_frame s \<noteq> None" using assms(1) by (simp add: wr_send_eq prod.case_eq_if)
  then obtain s' ev where w: "wr_send_frame s = Some (s', ev)" by auto
  note sp = wr_send_spec [OF w assms(1)]
  from sp(3) obtain u where u: "wrs s' = (wrs s)\<lparr>wr_curr_frame_data_size :=
      min (wr_remain_size (wrs s)) (max_data_size (conf s))\<rparr>" "conf s' = conf s"
    "send_buf (ct_user s') = send_buf (ct_user s)" "rcv_byte (ct_user s') = rcv_byte (ct_user s)"
    "get_dcd_status (ct_user s') = get_dcd_status (ct_user s)"
    by auto
  have d: "line_dies \<mu> (ct_user s')" using assms(2) u(3-5) by (simp add: line_dies_def)
  have "wr_safe \<mu> FRAMESENDED_WRST ev s'"
    using assms sp(4,5) d u wr_pending_simps(1) [OF wr_poll_none] wr_pending_simps(4)
    by (auto simp: wr_safe_def)
  then show ?thesis using w sp(4) sp(8) [OF assms(2)] by auto
qed

lemma wr_safe_row:
  assumes i: "wr_safe \<mu> st ev s" and row: "first_row wr_transitions st ev = Some (nx, f)"
  shows "\<exists>s' ev'. f s = Some (s', ev') \<and> \<not> ct_locked s' \<and>
    (nx \<noteq> EXIT_ST \<longrightarrow> ev \<noteq> NO_EVT \<longrightarrow> wr_safe \<mu> nx ev' s' \<and> wr_left \<mu> nx ev' s' < wr_left \<mu> st ev s)"
  using row
proof (cases rule: wr_row_cases)
  case none
  from none(2) have e: "ev \<in> {ACK_WREVT, NACK_WREVT, UNBYTE_WREVT}"
    and n: "nx \<in> {FRAMESENDED_WRST, ACKRCV_WRST, NACKRCV_WRST}" and st: "st \<in> {FRAMESENDED_WRST, NACKRCV_WRST}" by auto
  have "wr_safe \<mu> nx NO_EVT s"
    using i n wr_pending_simps(1-3) [OF wr_poll_none] by (auto simp: wr_safe_def)
  moreover have "wr_left \<mu> nx NO_EVT s < wr_left \<mu> st ev s"
    using e st by (auto simp: wr_left_def)
  ultimately show ?thesis using none(1) i by (simp add: wr_none_def wr_safe_def)
next
  case send
  with i have st: "ev \<in> {MOREFRAMES_WREVT, MORERETRANS_WREVT}" "st \<in> {CTRLRETRANS_WRST, CTRLMOREFRAMES_WRST}"
    by (auto simp: wr_safe_def wr_pending_def)
  from i wr_safe_send [of s \<mu>] send(1) obtain s' ev' where
    "f s = Some (s', ev')" "wr_safe \<mu> FRAMESENDED_WRST ev' s'" "ev' \<in> {NO_EVT, FRAMESENDEDERR_WREVT}"
    "sys_left \<mu> s' \<le> sys_left \<mu> s"
    by (auto simp: wr_safe_def)
  moreover from this(2) have "\<not> ct_locked s'" by (simp add: wr_safe_def)
  ultimately show ?thesis using st send(2) by (auto simp: wr_left_def)
next
  case advance
  with i have l: "\<not> ct_locked s" by (simp add: wr_safe_def)
  have "f s \<noteq> None" using l advance(1) by (simp add: wr_prepare_next_frame_def Let_def)
  then obtain s' ev' where f: "f s = Some (s', ev')" by auto
  note u = wr_next_spec [OF f [unfolded advance(1)] l]
  have e: "ev' \<in> {MOREFRAMES_WREVT, NOMOREFRAMES_WREVT}" using u(3) by auto
  have "wr_safe \<mu> nx ev' s'"
    using i advance(4) wr_pending_simps(6) [OF e] u(1,2)
    by (simp add: wr_safe_def line_dies_def diff_le_mono)
  moreover have "wr_left \<mu> nx ev' s' < wr_left \<mu> st ev s"
    using e advance u(1) by (auto simp: wr_left_def)
  ultimately show ?thesis using f u(2) by blast
next
  case retrans
  with i have l: "\<not> ct_locked s" by (simp add: wr_safe_def)
  have "f s \<noteq> None" using l retrans(1) by (simp add: wr_prepare_retrans_def Let_def)
  then obtain s' ev' where f: "f s = Some (s', ev')" by auto
  note u = wr_retrans_spec [OF f [unfolded retrans(1)] l]
  have e: "ev' \<in> {MORERETRANS_WREVT, NOMORERETRANS_WREVT}" using u(3) by auto
  have "ev \<notin> {TXUPLAYERTO_WREVT, FRAMESENDEDERR_WREVT}"
    using row retrans(2,3) by (auto simp: wr_transitions_def)
  then have "ev = NO_EVT \<or> wr_left \<mu> nx ev' s' < wr_left \<mu> st ev s"
    using e retrans(2,3) u(1) by (auto simp: wr_left_def)
  moreover have "wr_safe \<mu> nx ev' s'"
    using i retrans(3) wr_pending_simps(5) [OF e] u(1,2) by (simp add: wr_safe_def line_dies_def)
  ultimately show ?thesis using f u(2) by blast
next
  case finish
  with i show ?thesis by (auto simp: wr_safe_def wr_exit_ok_def SET_GLOBAL_ERROR_def)
next
  case error
  with i show ?thesis
    by (auto simp: wr_safe_def wr_exit_txuplayerto_def wr_exit_retrans_def wr_exit_frame_error_def
        SET_GLOBAL_ERROR_def)
qed

lemma wr_safe_wait:
  assumes i: "wr_safe \<mu> st NO_EVT s" and w: "wr_wait_event s = Some (s', ev)"
  shows "wr_safe \<mu> st ev s'" "wr_left \<mu> st ev s' < wr_left \<mu> st NO_EVT s"
proof -
  from i have l: "\<not> ct_locked s" and d: "line_dies \<mu> (ct_user s)" by (auto simp: wr_safe_def)
  note ws = wr_wait_spec [OF w l, where hist = "\<lambda>_. []"]
  then have q: "quiet (ct_user s) (ct_user s')" "\<not> ct_locked s'" by auto
  note wl = wr_wait_left [OF w l d]
  have "st \<in> {FRAMESENDED_WRST, ACKRCV_WRST, NACKRCV_WRST}"
    using i by (auto simp: wr_safe_def wr_pending_def)
  then have st: "wr_pending st ev" "st \<notin> {CTRLRETRANS_WRST, CTRLMOREFRAMES_WRST}"
    using wr_pending_simps(1-3) [OF wl(2)] by auto
  show "wr_safe \<mu> st ev s'"
    using i st q line_dies_quiet [OF d q(1)] by (simp add: wr_safe_def quiet_fields [OF q(1)])
  show "wr_left \<mu> st ev s' < wr_left \<mu> st NO_EVT s"
    using wl(1) st(2) by (auto simp: wr_left_def)
qed

lemma wr_safe_drop:
  assumes i: "wr_safe \<mu> st ev s" and ev: "ev \<noteq> NO_EVT" and row: "first_row wr_transitions st ev = None"
  shows "wr_safe \<mu> st NO_EVT s" "wr_left \<mu> st NO_EVT s < wr_left \<mu> st ev s"
proof -
  have p: "wr_pending st ev" using i by (simp add: wr_safe_def)
  have "st \<notin> {CTRLRETRANS_WRST, CTRLMOREFRAMES_WRST} \<and> ev \<notin> {TXUPLAYERTO_WREVT, FRAMESENDEDERR_WREVT}"
    using p row unfolding wr_pending_def wr_poll_events_def insert_iff empty_iff
    by (elim disjE conjE FalseE; hypsubst?; simp add: wr_transitions_def)
  then show "wr_left \<mu> st NO_EVT s < wr_left \<mu> st ev s" "wr_safe \<mu> st NO_EVT s"
    using i ev wr_pending_simps(1-3) [OF wr_poll_none]
    by (auto simp: wr_left_def wr_safe_def wr_pending_def)
qed

lemma wr_wait_total: "wr_wait_event s \<noteq> None"
  by (simp add: wr_wait_event_def Let_def prod.case_eq_if)

interpretation wrl: proto_live wr_transitions wr_wait_event NO_EVT EXIT_ST
  "wr_safe \<mu>" "\<lambda>s. \<not> ct_locked s" "wr_left \<mu>" for \<mu>
proof unfold_locales
  fix st ev s nx s' ev' and f :: "'a dm_sys handler"
  show "wr_safe \<mu> st ev s'" "wr_left \<mu> st ev s' < wr_left \<mu> st NO_EVT s"
    if "wr_safe \<mu> st NO_EVT s" "wr_wait_event s = Some (s', ev)"
    using wr_safe_wait [OF that] by auto
  show "wr_safe \<mu> st NO_EVT s" "wr_left \<mu> st NO_EVT s < wr_left \<mu> st ev s"
    if "wr_safe \<mu> st ev s" "ev \<noteq> NO_EVT" "first_row wr_transitions st ev = None"
    using wr_safe_drop [OF that] by auto
  show "states_valid wr_transitions" by (simp add: states_valid_def wr_transitions_def)
  show "wr_wait_event s \<noteq> None" by (rule wr_wait_total)
  note row = wr_safe_row [of \<mu> st ev s nx f]
  show "f s \<noteq> None" if "wr_safe \<mu> st ev s" "first_row wr_transitions st ev = Some (nx, f)"
    using row [OF that] by auto
  show "if nx = EXIT_ST then \<not> ct_locked s' else wr_safe \<mu> nx ev' s'"
    if "wr_safe \<mu> st ev s" "ev \<noteq> NO_EVT" "first_row wr_transitions st ev = Some (nx, f)"
      "f s = Some (s', ev')"
    using row [OF that(1,3)] that(2,4) by auto
  show "wr_left \<mu> nx ev' s' < wr_left \<mu> st ev s"
    if "wr_safe \<mu> st ev s" "ev \<noteq> NO_EVT" "first_row wr_transitions st ev = Some (nx, f)"
      "f s = Some (s', ev')" "nx \<noteq> EXIT_ST"
    using row [OF that(1,3)] that(2,4,5) by auto
qed

lemma wr_init_total:
  assumes "line_dies \<mu> (ct_user s)" "\<not> ct_locked s" "max_data_size (conf s) \<le> 512" "sz \<le> length buf"
  shows "\<exists>s' rv. wr_init (wr_request buf sz s) = Some (s', rv) \<and> rv \<noteq> -1
    \<and> wr_safe \<mu> FRAMESENDED_WRST NO_EVT s' \<and> sys_left \<mu> s' \<le> sys_left \<mu> s"
proof -
  let ?s1 = "wr_started buf sz s"
  have "line_dies \<mu> (ct_user ?s1)"
    using assms(1) by (simp add: wr_started_user line_dies_def)
  from wr_safe_send [OF _ this] assms obtain s' ev where w: "wr_send_frame ?s1 = Some (s', ev)"
    and i: "wr_safe \<mu> FRAMESENDED_WRST ev s'" "sys_left \<mu> s' \<le> sys_left \<mu> ?s1"
    by (auto simp: wr_started_user)
  have "wr_safe \<mu> FRAMESENDED_WRST NO_EVT s'"
    using i(1) wr_pending_simps(1) [OF wr_poll_none] by (simp add: wr_safe_def)
  with w i(2) show ?thesis using assms(2) by (auto simp: wr_init_eq wr_started_user)
qed

subsection \<open>A run on the scripted line\<close>

lemma wr_started_sched: "ct_sched (wr_started buf sz s) = ct_sched s"
  by (simp add: wr_started_def wr_request_def CLEAR_GLOBAL_ERROR_def)

lemma wr_armed_sched: "ct_sched (wr_armed s) = ct_sched s"
  by (simp add: wr_armed_def)

lemma wr_wait_script:
  assumes "ct_sched s = []" "rcv_byte (ct_user s) = script_recv" "uplayer_data (ct_user s) = (b # q, n, h)"
  shows "wr_wait_event s = Some (wr_byte_event b (upd_h (\<lambda>u. u\<lparr>uplayer_data := (q, n, h @ [Got b])\<rparr>) s))"
  using assms by (simp add: wr_wait_event_def dm_timers_asleep line_recv_def)

lemma wr_sample_run:
  "\<exists>s'. dmodem_write 9 [1, 2, 3] 3 (script_sys [DM_ACK, DM_ACK_COMP] 0) = Done s' 1"
proof -
  let ?s = "script_sys [DM_ACK, DM_ACK_COMP] 0"
  define h where "h = [Sent (wr_frame (wr_started [1,2,3] 3 ?s))]"
  obtain s0 where i: "wr_init (wr_request [1,2,3] 3 ?s) = Some (s0, 1)"
    and u: "rcv_byte (ct_user s0) = script_recv"
      "uplayer_data (ct_user s0) = ([DM_ACK, DM_ACK_COMP], 0, h)" "ct_sched s0 = []"
      "\<not> ct_locked s0" "wr_remain_size (wrs s0) = 3" "wr_curr_frame_data_size (wrs s0) = 3"
    by (simp add: wr_init_eq wr_send_eq wr_started_user line_send_def wr_armed_user
        wr_started_sched wr_armed_sched script_handler_def h_def)
  have "\<exists>s'. proto_engine wr_transitions wr_wait_event wr_clean_curr_state NO_EVT FRAMESENDED_WRST
      EXIT_ST 9 s0 = Returned s' \<and> dm_global_error (ct_user s') = 0"
    by (simp add: proto_engine_def proto_turn_def dispatch_def wr_wait_script wr_byte_event_def u
        wr_transitions_def wr_none_def wr_prepare_next_frame_def wr_exit_ok_def SET_GLOBAL_ERROR_def
        wr_clean_curr_state_def)
  then obtain s' where "proto_engine wr_transitions wr_wait_event wr_clean_curr_state NO_EVT
      FRAMESENDED_WRST EXIT_ST 9 s0 = Returned s'" "dm_global_error (ct_user s') = 0" by blast
  with i show ?thesis by (simp add: dmodem_write_def wr_request_def GET_GLOBAL_ERROR_def)
qed

lemma script_start [simp]: "uplayer_data (script_handler q n) = (q, n, [])"
  "max_data_size (dmconf (script_handler q n)) = 512" "max_retries (dmconf (script_handler q n)) = 3"
  "wr_curr_seqno (wr_curr_state (script_handler q n)) = 1"
  by (simp_all add: script_handler_def)

subsection \<open>The properties\<close>

text \<open>C4. Stop and wait: when the write operation returns 1, what it added to the line is one
  exchange per frame, in order, for exactly the frames that cut the caller's bytes: each frame was
  sent, possibly repeated, and ended with ACK and its complement before the next was started.\<close>

theorem dmodem_write_stop_and_wait:
  assumes "dmodem_write fuel buf sz s = Done s' 1" "records hist (ct_user s)"
    and "\<not> ct_locked s" "sz \<le> length buf" "0 < max_data_size (conf s)"
  shows "\<exists>ts. sys_hist hist s' = sys_hist hist s @ concat ts \<and>
    list_all2 exchange
      (number_frames (wr_curr_seqno (wrs s)) (chunks (max_data_size (conf s)) (take sz buf))) ts"
  using dmodem_write_post [OF assms(1,3,2,4,5)] by (auto simp: wr_post_def split: if_splits)

lemma dmodem_write_stop_and_wait_witness:
  "\<exists>s' ts. dmodem_write 9 [1, 2, 3] 3 (script_sys [DM_ACK, DM_ACK_COMP] 0) = Done s' 1 \<and>
     sys_hist script_log s' = concat ts \<and>
     list_all2 exchange (number_frames 1 (chunks 512 [1, 2, 3])) ts"
proof -
  from wr_sample_run obtain s' where
    r: "dmodem_write 9 [1, 2, 3] 3 (script_sys [DM_ACK, DM_ACK_COMP] 0) = Done s' 1" by blast
  from dmodem_write_stop_and_wait [OF r, where hist = script_log] show ?thesis
    using r by (auto simp: script_records)
qed

text \<open>C17. However the line and the timers behave, a write operation that returns has put fewer
  buffers on the line than its frames plus the larger of one and the configured retries.\<close>

theorem dmodem_write_bounded_sends:
  assumes "dmodem_write fuel buf sz s = Done s' r" "records hist (ct_user s)"
    and "\<not> ct_locked s" "sz \<le> length buf" "0 < max_data_size (conf s)"
  shows "\<exists>t. sys_hist hist s' = sys_hist hist s @ t \<and>
    int (sents t) < int (length (chunks (max_data_size (conf s)) (take sz buf)))
      + max 1 (max_retries (conf s))"
  using dmodem_write_post [OF assms(1,3,2,4,5)] by (auto simp: wr_count_post_def)

lemma dmodem_write_bounded_sends_witness:
  "\<exists>s' t. dmodem_write 9 [1, 2, 3] 3 (script_sys [DM_ACK, DM_ACK_COMP] 0) = Done s' 1 \<and>
     sys_hist script_log s' = t \<and> int (sents t) < int (length (chunks 512 [1, 2, 3 :: byte])) + 3"
proof -
  from wr_sample_run obtain s' where
    r: "dmodem_write 9 [1, 2, 3] 3 (script_sys [DM_ACK, DM_ACK_COMP] 0) = Done s' 1" by blast
  from dmodem_write_bounded_sends [OF r, where hist = script_log] show ?thesis
    using r by (auto simp: script_records)
qed

text \<open>C16. On a line that delivers finitely many bytes and then loses the carrier the write
  operation returns, and does not crash, whatever the timer thread does: the number of turns of
  the engine is at most four per byte or carrier poll, and three more.\<close>

theorem dmodem_write_returns:
  assumes "line_dies \<mu> (ct_user s)" "\<not> ct_locked s" "max_data_size (conf s) \<le> 512"
    and "sz \<le> length buf" "4 * sys_left \<mu> s + 2 < fuel"
  shows "\<exists>s' r. dmodem_write fuel buf sz s = Done s' r \<and> (r = 0 \<or> r = 1)"
proof -
  from wr_init_total [OF assms(1-4)] obtain s0 rv where
    i: "wr_init (wr_request buf sz s) = Some (s0, rv)" "rv \<noteq> -1"
    "wr_safe \<mu> FRAMESENDED_WRST NO_EVT s0" "sys_left \<mu> s0 \<le> sys_left \<mu> s" by blast
  have "wr_left \<mu> FRAMESENDED_WRST NO_EVT s0 < fuel" using i(4) assms(5) by (simp add: wr_left_def)
  from wrl.run_returns [OF i(3) this] obtain s1 where
    "proto_run wr_transitions wr_wait_event NO_EVT EXIT_ST fuel (FRAMESENDED_WRST, NO_EVT, s0)
      = Returned s1" "\<not> ct_locked s1" by blast
  with i(1,2) show ?thesis
    by (simp add: dmodem_write_def wr_request_def [symmetric] Let_def proto_engine_def
        wr_clean_curr_state_def)
qed

lemma dmodem_write_returns_witness:
  "\<exists>s' r. dmodem_write 200 [1, 2, 3] 3 (script_sys [DM_NACK, 7, DM_ACK] 5) = Done s' r"
  using dmodem_write_returns [where \<mu> = script_left and buf = "[1, 2, 3]" and sz = 3
      and s = "script_sys [DM_NACK, 7, DM_ACK] 5" and fuel = 200]
  by (auto simp: script_dies)

end
