(* ===== verification/Dmodem_Read.thy ===== *)
theory Dmodem_Read
  imports Dmodem_Write Ring_Buffer
begin

text \<open>
  The read operation of \<open>src/src/framework/telesup/dmodem/dmodem.c\<close>: the circular buffer of
  received bytes, the handlers of the receiver, its table, the wait for an event and
  \<open>dmodem_read\<close>.

  The receiver takes one byte per poll and walks through the fields of a frame. The payload is
  written through the pointer \<open>ppayload\<close> into \<open>dmodem_frame\<close>, the checksum through
  \<open>pchecksum\<close> into a 4-byte word; here both pointers are offsets, and a write past the end of the
  object is a crash (\<open>None\<close>).
\<close>

subsection \<open>The buffer of received bytes\<close>

fun rd_read_data :: "nat \<Rightarrow> 'w dm_sys \<Rightarrow> ('w dm_sys \<times> byte list) option" where
  "rd_read_data 0 s = Some (s, [])"
| "rd_read_data (Suc n) s =
     (if rd_data_count (rds s) = 0 then Some (s, [])
      else do {
        _ \<leftarrow> guard_ok (rd_first_data_index (rds s) < length (rd_databuf (rds s)));
        _ \<leftarrow> guard_ok (rd_max_data_count (rds s) \<noteq> 0);
        let b = rd_databuf (rds s) ! rd_first_data_index (rds s);
        let s = upd_rd (\<lambda>c. c\<lparr>rd_data_count := rd_data_count c - 1,
           rd_first_data_index := (rd_first_data_index c + 1) mod rd_max_data_count c\<rparr>) s;
        (s, bs) \<leftarrow> rd_read_data n s;
        Some (s, b # bs)
      })"

fun rd_write_data :: "byte list \<Rightarrow> 'w dm_sys \<Rightarrow> 'w dm_sys option" where
  "rd_write_data [] s = Some s"
| "rd_write_data (b # bs) s =
     (if rd_data_count (rds s) = rd_max_data_count (rds s) then Some s
      else do {
        _ \<leftarrow> guard_ok (rd_last_data_index (rds s) < length (rd_databuf (rds s)));
        _ \<leftarrow> guard_ok (rd_max_data_count (rds s) \<noteq> 0);
        let s = upd_rd (\<lambda>c. c\<lparr>rd_databuf := (rd_databuf c)[rd_last_data_index c := b],
           rd_data_count := rd_data_count c + 1,
           rd_last_data_index := (rd_last_data_index c + 1) mod rd_max_data_count c\<rparr>) s;
        rd_write_data bs s
      })"

subsection \<open>Waiting for a byte\<close>

definition rd_wait_event :: "'w dm_sys handler" where
  "rd_wait_event s =
     (let s = dm_timers_run s; (s, r, b) = line_recv 1 s in
      if r = 1 then Some (upd_rd (\<lambda>c. c\<lparr>rd_byte_rcv := b\<rparr>) s, RCVBYTE_RDEVT)
      else (let rslt = (if r = 2 then RXBYTETO_RDEVT else NO_EVT);
                (s, rslt) = (if rd_rxuplayer_timer_expired (rds s)
                  then (upd_rd (\<lambda>c. c\<lparr>rd_rxuplayer_timer_expired := False\<rparr>) s, RXUPLAYERTO_RDEVT)
                  else (s, rslt));
                (s, d) = line_dcd s in
            Some (s, if d = 0 then RXUPLAYERTO_RDEVT else rslt)))"

definition rd_clean_curr_state :: "'w dm_sys \<Rightarrow> 'w dm_sys option" where
  "rd_clean_curr_state s = stop_timer rxuplayer_timer s"

text \<open>\<open>rd_init\<close> returns \<open>NO_EVT\<close>, never -1.\<close>

definition rd_init :: "'w dm_sys \<Rightarrow> ('w dm_sys \<times> int) option" where
  "rd_init s = do {
     let s = upd_rd (\<lambda>c. c\<lparr>rd_ppayload := 0, rd_size_readed := 0, rd_retrans_no := 0,
        rd_rxuplayer_timer_expired := False\<rparr>) s;
     let s = set_period rxuplayer_timer (rxuplayer_to (conf s) * 10) s;
     let s = set_expires rxuplayer_timer (ct_ticks s + rxuplayer_to (conf s) * 10) s;
     s \<leftarrow> start_timer rxuplayer_timer s;
     Some (s, NO_EVT)
   }"

subsection \<open>Handlers\<close>

text \<open>The status of \<open>mod_ctimer\<close> is ignored; \<open>RCVBYTE_RDEVT\<close> forces the next transition.\<close>

definition rd_syn_comp_rcv :: "'w dm_sys handler" where
  "rd_syn_comp_rcv s = do {
     s \<leftarrow> (if rd_byte_rcv (rds s) = DM_SYNCOMP
          then map_option fst (mod_ctimer rxuplayer_timer (rxuplayer_to (conf s)) s) else Some s);
     Some (s, RCVBYTE_RDEVT)
   }"

definition rd_none :: "'w dm_sys handler" where
  "rd_none s = Some (s, NO_EVT)"

definition rd_soh :: "'w dm_sys handler" where
  "rd_soh s =
     (let s = upd_rd (\<lambda>c. c\<lparr>rd_ppayload := 0, rd_curr_bytes_readed := 0, rd_retrans_no := 0,
         rd_pchecksum := 0\<rparr>) s;
          b = rd_byte_rcv (rds s) in
      Some (s, if b = DM_SYN then SYN_RDEVT else if b = DM_EOT then EOT_RDEVT
               else if b \<noteq> DM_SOH then NOTSOH_RDEVT else NO_EVT))"

definition rd_seqno :: "'w dm_sys handler" where
  "rd_seqno s =
     (let s = upd_rd (\<lambda>c. c\<lparr>rd_curr_seqno := rd_byte_rcv c\<rparr>) s; c = rds s in
      Some (s, if rd_next_seqno c \<noteq> 0 \<and> rd_curr_seqno c = rd_next_seqno c - 1 then RETRANS_RDEVT
               else if rd_curr_seqno c \<noteq> rd_next_seqno c then BADFRAME_RDEVT else NO_EVT))"

definition rd_seqnocomp :: "'w dm_sys handler" where
  "rd_seqnocomp s = Some (s,
     if unat (rd_curr_seqno (rds s)) + unat (rd_byte_rcv (rds s)) \<noteq> 0xFF then BADFRAME_RDEVT
     else NO_EVT)"

definition rd_len0 :: "'w dm_sys handler" where
  "rd_len0 s = Some (upd_rd (\<lambda>c. c\<lparr>rd_curr_payload_len := ucast (rd_byte_rcv c)\<rparr>) s, NO_EVT)"

definition rd_len1 :: "'w dm_sys handler" where
  "rd_len1 s =
     (let s = upd_rd (\<lambda>c. c\<lparr>rd_curr_payload_len :=
         rd_curr_payload_len c + push_bit 8 (ucast (rd_byte_rcv c))\<rparr>) s in
      Some (s, if unat (rd_curr_payload_len (rds s)) > DM_MAX_DATA_LEN then BADFRAME_RDEVT
               else NO_EVT))"

definition rd_len0comp :: "'w dm_sys handler" where
  "rd_len0comp s =
     Some (upd_rd (\<lambda>c. c\<lparr>rd_curr_payload_len_comp := ucast (rd_byte_rcv c)\<rparr>) s, NO_EVT)"

definition rd_len1comp :: "'w dm_sys handler" where
  "rd_len1comp s =
     (let s = upd_rd (\<lambda>c. c\<lparr>rd_curr_payload_len_comp :=
         rd_curr_payload_len_comp c + push_bit 8 (ucast (rd_byte_rcv c)),
         rd_curr_bytes_readed := 0\<rparr>) s in
      Some (s, if rd_curr_payload_len (rds s) \<noteq> NOT (rd_curr_payload_len_comp (rds s))
               then BADFRAME_RDEVT else NO_EVT))"

definition rd_rcv_byte :: "'w dm_sys handler" where
  "rd_rcv_byte s = do {
     _ \<leftarrow> guard_ok (rd_ppayload (rds s) < length (dmodem_frame (ct_user s)));
     let s = upd_h (\<lambda>h. h\<lparr>dmodem_frame :=
        (dmodem_frame h)[rd_ppayload (rds s) := rd_byte_rcv (rds s)]\<rparr>) s;
     let s = upd_rd (\<lambda>c. c\<lparr>rd_ppayload := rd_ppayload c + 1,
        rd_curr_bytes_readed := rd_curr_bytes_readed c + 1\<rparr>) s;
     Some (s, if rd_curr_bytes_readed (rds s) = unat (rd_curr_payload_len (rds s))
              then PAYLOADRCV_RDEVT else NO_EVT)
   }"

definition rd_rcv_checksum_byte :: "'w dm_sys handler" where
  "rd_rcv_checksum_byte s = do {
     _ \<leftarrow> guard_ok (rd_pchecksum (rds s) < length (rd_checksum (rds s)));
     let s = upd_rd (\<lambda>c. c\<lparr>rd_checksum := (rd_checksum c)[rd_pchecksum c := rd_byte_rcv c],
        rd_pchecksum := rd_pchecksum c + 1\<rparr>) s;
     if rd_pchecksum (rds s) = 4 then do {
       cs \<leftarrow> get_dmchecksum (dmodem_frame (ct_user s)) (rd_curr_bytes_readed (rds s));
       if cs \<noteq> le32 (rd_checksum (rds s) ! 0) (rd_checksum (rds s) ! 1)
            (rd_checksum (rds s) ! 2) (rd_checksum (rds s) ! 3) then Some (s, BADFRAME_RDEVT)
       else do {
         s \<leftarrow> rd_write_data (take (rd_curr_bytes_readed (rds s)) (dmodem_frame (ct_user s))) s;
         let s = upd_rd (\<lambda>c. c\<lparr>rd_size_readed := rd_size_readed c + rd_curr_bytes_readed c\<rparr>) s;
         if rd_curr_bytes_readed (rds s) < max_data_size (conf s) then Some (s, NOMOREFRAMES_RDEVT)
         else if rd_size_readed (rds s) \<ge> rd_size_to_read (rds s)
             \<or> (flags (conf s)) AND O_DMODEM_SPRD_NONBLOCK \<noteq> 0
           then Some (s, NOMOREFRAMES_RDEVT)
           else Some (s, MOREFRAMES_RDEVT)
       }
     } else Some (s, NO_EVT)
   }"

definition rd_more_frames :: "'w dm_sys handler" where
  "rd_more_frames s =
     (let (s, r) = send_ack s; s = upd_rd (\<lambda>c. c\<lparr>rd_next_seqno := rd_next_seqno c + 1\<rparr>) s in
      Some (s, NO_EVT))"

definition rd_prepare_retrans :: "'w dm_sys handler" where
  "rd_prepare_retrans s =
     (let s = upd_rd (\<lambda>c. c\<lparr>rd_retrans_no := rd_retrans_no c + 1\<rparr>) s in
      Some (s, if rd_retrans_no (rds s) < max_retries (conf s) then MORERETRANS_RDEVT
               else NOMORERETRANS_RDEVT))"

definition rd_discard_byte :: "'w dm_sys handler" where
  "rd_discard_byte s = Some (s, NO_EVT)"

definition rd_discard_retrans :: "'w dm_sys handler" where
  "rd_discard_retrans s = Some (s, NO_EVT)"

definition rd_send_ack :: "'w dm_sys handler" where
  "rd_send_ack s =
     (let (s, r) = send_ack s; s = upd_stat (\<lambda>c. c\<lparr>rxacks := rxacks c + 1\<rparr>) s in Some (s, NO_EVT))"

definition rd_send_nack :: "'w dm_sys handler" where
  "rd_send_nack s =
     (let (s, r) = send_nack s; s = upd_stat (\<lambda>c. c\<lparr>rxnaks := rxnaks c + 1\<rparr>) s in Some (s, NO_EVT))"

definition rd_exit_ok :: "'w dm_sys handler" where
  "rd_exit_ok s = do {
     s \<leftarrow> stop_timer rxuplayer_timer s;
     (s, _) \<leftarrow> rd_send_ack s;
     let s = upd_rd (\<lambda>c. c\<lparr>rd_next_seqno := rd_next_seqno c + 1\<rparr>) s;
     Some (s, NO_EVT)
   }"

definition rd_exit_rxuplayerto :: "'w dm_sys handler" where
  "rd_exit_rxuplayerto s = Some (SET_GLOBAL_ERROR EDMODEM_RXUPLAYER_TO s, NO_EVT)"

definition rd_exit_retrans :: "'w dm_sys handler" where
  "rd_exit_retrans s = do {
     s \<leftarrow> stop_timer rxuplayer_timer s;
     Some (SET_GLOBAL_ERROR EDMODEM_MAXRETRIES s, NO_EVT)
   }"

definition rd_send_eof_ack :: "'w dm_sys handler" where
  "rd_send_eof_ack s = do {
     s \<leftarrow> stop_timer rxuplayer_timer s;
     (s, _) \<leftarrow> rd_send_ack s;
     Some (SET_GLOBAL_ERROR EDMODEM_EOT s, NO_EVT)
   }"

definition rd_eot_comp_rcv :: "'w dm_sys handler" where
  "rd_eot_comp_rcv s =
     Some (s, if rd_byte_rcv (rds s) = DM_EOTCOMP then RCVBYTE_RDEVT else RXBYTETO_RDEVT)"

subsection \<open>The table\<close>

definition rd_transitions :: "'w dm_sys ProtoTransition list" where
  "rd_transitions =
   [ ProtoTransition WAITSOH_RDST RCVBYTE_RDEVT WAITCTRL0_RDST rd_soh
   , ProtoTransition WAITSOH_RDST BADFRAME_RDEVT CTRLRETRANS_RDST rd_prepare_retrans
   , ProtoTransition WAITSOH_RDST RXBYTETO_RDEVT WAITSOH_RDST rd_none
   , ProtoTransition WAITSOH_RDST RXUPLAYERTO_RDEVT EXIT_ST rd_exit_rxuplayerto
   , ProtoTransition WAITCTRL0_RDST RCVBYTE_RDEVT WAITCTRL1_RDST rd_none
   , ProtoTransition WAITCTRL0_RDST NOTSOH_RDEVT WAITSOH_RDST rd_none
   , ProtoTransition WAITCTRL0_RDST SYN_RDEVT SYNRCV_RDST rd_none
   , ProtoTransition WAITCTRL0_RDST EOT_RDEVT EOTRCV_RDST rd_none
   , ProtoTransition WAITCTRL0_RDST BADFRAME_RDEVT CTRLRETRANS_RDST rd_prepare_retrans
   , ProtoTransition WAITCTRL0_RDST RXBYTETO_RDEVT CTRLRETRANS_RDST rd_prepare_retrans
   , ProtoTransition WAITCTRL0_RDST RXUPLAYERTO_RDEVT EXIT_ST rd_exit_rxuplayerto
   , ProtoTransition WAITCTRL1_RDST RCVBYTE_RDEVT WAITSEQ_RDST rd_none
   , ProtoTransition WAITCTRL1_RDST BADFRAME_RDEVT CTRLRETRANS_RDST rd_prepare_retrans
   , ProtoTransition WAITCTRL1_RDST RXBYTETO_RDEVT CTRLRETRANS_RDST rd_prepare_retrans
   , ProtoTransition WAITCTRL1_RDST RXUPLAYERTO_RDEVT EXIT_ST rd_exit_rxuplayerto
   , ProtoTransition WAITSEQ_RDST RCVBYTE_RDEVT WAITSEQCOMP_RDST rd_seqno
   , ProtoTransition WAITSEQ_RDST BADFRAME_RDEVT CTRLRETRANS_RDST rd_prepare_retrans
   , ProtoTransition WAITSEQ_RDST RXBYTETO_RDEVT CTRLRETRANS_RDST rd_prepare_retrans
   , ProtoTransition WAITSEQ_RDST RXUPLAYERTO_RDEVT EXIT_ST rd_exit_rxuplayerto
   , ProtoTransition WAITSEQCOMP_RDST RCVBYTE_RDEVT WAITLEN0_RDST rd_seqnocomp
   , ProtoTransition WAITSEQCOMP_RDST BADFRAME_RDEVT CTRLRETRANS_RDST rd_prepare_retrans
   , ProtoTransition WAITSEQCOMP_RDST RETRANS_RDEVT DISCARDRETRANS_RDST rd_discard_retrans
   , ProtoTransition WAITSEQCOMP_RDST RXBYTETO_RDEVT CTRLRETRANS_RDST rd_prepare_retrans
   , ProtoTransition WAITSEQCOMP_RDST RXUPLAYERTO_RDEVT EXIT_ST rd_exit_rxuplayerto
   , ProtoTransition WAITLEN0_RDST RCVBYTE_RDEVT WAITLEN1_RDST rd_len0
   , ProtoTransition WAITLEN0_RDST BADFRAME_RDEVT CTRLRETRANS_RDST rd_prepare_retrans
   , ProtoTransition WAITLEN0_RDST RXBYTETO_RDEVT CTRLRETRANS_RDST rd_prepare_retrans
   , ProtoTransition WAITLEN0_RDST RXUPLAYERTO_RDEVT EXIT_ST rd_exit_rxuplayerto
   , ProtoTransition WAITLEN1_RDST RCVBYTE_RDEVT WAITLEN0COMP_RDST rd_len1
   , ProtoTransition WAITLEN1_RDST BADFRAME_RDEVT CTRLRETRANS_RDST rd_prepare_retrans
   , ProtoTransition WAITLEN1_RDST RXBYTETO_RDEVT CTRLRETRANS_RDST rd_prepare_retrans
   , ProtoTransition WAITLEN1_RDST RXUPLAYERTO_RDEVT EXIT_ST rd_exit_rxuplayerto
   , ProtoTransition WAITLEN0COMP_RDST RCVBYTE_RDEVT WAITLEN1COMP_RDST rd_len0comp
   , ProtoTransition WAITLEN0COMP_RDST BADFRAME_RDEVT CTRLRETRANS_RDST rd_prepare_retrans
   , ProtoTransition WAITLEN0COMP_RDST RXBYTETO_RDEVT CTRLRETRANS_RDST rd_prepare_retrans
   , ProtoTransition WAITLEN0COMP_RDST RXUPLAYERTO_RDEVT EXIT_ST rd_exit_rxuplayerto
   , ProtoTransition WAITLEN1COMP_RDST RCVBYTE_RDEVT WAITPAYLOAD_RDST rd_len1comp
   , ProtoTransition WAITLEN1COMP_RDST BADFRAME_RDEVT CTRLRETRANS_RDST rd_prepare_retrans
   , ProtoTransition WAITLEN1COMP_RDST RXBYTETO_RDEVT CTRLRETRANS_RDST rd_prepare_retrans
   , ProtoTransition WAITLEN1COMP_RDST RXUPLAYERTO_RDEVT EXIT_ST rd_exit_rxuplayerto
   , ProtoTransition WAITPAYLOAD_RDST RCVBYTE_RDEVT WAITPAYLOAD_RDST rd_rcv_byte
   , ProtoTransition WAITPAYLOAD_RDST PAYLOADRCV_RDEVT WAITCHECKSUM_RDST rd_none
   , ProtoTransition WAITPAYLOAD_RDST BADFRAME_RDEVT CTRLRETRANS_RDST rd_prepare_retrans
   , ProtoTransition WAITPAYLOAD_RDST RXBYTETO_RDEVT CTRLRETRANS_RDST rd_prepare_retrans
   , ProtoTransition WAITPAYLOAD_RDST RXUPLAYERTO_RDEVT EXIT_ST rd_exit_rxuplayerto
   , ProtoTransition WAITCHECKSUM_RDST RCVBYTE_RDEVT WAITCHECKSUM_RDST rd_rcv_checksum_byte
   , ProtoTransition WAITCHECKSUM_RDST MOREFRAMES_RDEVT WAITSOH_RDST rd_more_frames
   , ProtoTransition WAITCHECKSUM_RDST NOMOREFRAMES_RDEVT EXIT_ST rd_exit_ok
   , ProtoTransition WAITCHECKSUM_RDST BADFRAME_RDEVT CTRLRETRANS_RDST rd_prepare_retrans
   , ProtoTransition WAITCHECKSUM_RDST RXBYTETO_RDEVT CTRLRETRANS_RDST rd_prepare_retrans
   , ProtoTransition WAITCHECKSUM_RDST RXUPLAYERTO_RDEVT EXIT_ST rd_exit_rxuplayerto
   , ProtoTransition CTRLRETRANS_RDST NOMORERETRANS_RDEVT EXIT_ST rd_exit_retrans
   , ProtoTransition CTRLRETRANS_RDST MORERETRANS_RDEVT DISCARDBYTES_RDST rd_none
   , ProtoTransition CTRLRETRANS_RDST RXUPLAYERTO_RDEVT EXIT_ST rd_exit_rxuplayerto
   , ProtoTransition DISCARDRETRANS_RDST RXBYTETO_RDEVT WAITSOH_RDST rd_send_ack
   , ProtoTransition DISCARDRETRANS_RDST RCVBYTE_RDEVT DISCARDRETRANS_RDST rd_discard_byte
   , ProtoTransition DISCARDRETRANS_RDST RXUPLAYERTO_RDEVT EXIT_ST rd_exit_rxuplayerto
   , ProtoTransition DISCARDBYTES_RDST RCVBYTE_RDEVT DISCARDBYTES_RDST rd_discard_byte
   , ProtoTransition DISCARDBYTES_RDST RXBYTETO_RDEVT WAITSOH_RDST rd_send_nack
   , ProtoTransition DISCARDBYTES_RDST RXUPLAYERTO_RDEVT EXIT_ST rd_exit_rxuplayerto
   , ProtoTransition SYNRCV_RDST RCVBYTE_RDEVT SYNCOMPRCV_RDST rd_syn_comp_rcv
   , ProtoTransition SYNRCV_RDST RXBYTETO_RDEVT WAITSOH_RDST rd_none
   , ProtoTransition SYNRCV_RDST RXUPLAYERTO_RDEVT EXIT_ST rd_exit_rxuplayerto
   , ProtoTransition SYNCOMPRCV_RDST RCVBYTE_RDEVT WAITSOH_RDST rd_none
   , ProtoTransition SYNCOMPRCV_RDST RXBYTETO_RDEVT WAITSOH_RDST rd_none
   , ProtoTransition SYNCOMPRCV_RDST RXUPLAYERTO_RDEVT EXIT_ST rd_exit_rxuplayerto
   , ProtoTransition EOTRCV_RDST RCVBYTE_RDEVT EOTCOMPRCV_RDST rd_eot_comp_rcv
   , ProtoTransition EOTRCV_RDST RXBYTETO_RDEVT WAITSOH_RDST rd_none
   , ProtoTransition EOTRCV_RDST RXUPLAYERTO_RDEVT EXIT_ST rd_exit_rxuplayerto
   , ProtoTransition EOTCOMPRCV_RDST RCVBYTE_RDEVT EXIT_ST rd_send_eof_ack
   , ProtoTransition EOTCOMPRCV_RDST RXBYTETO_RDEVT WAITSOH_RDST rd_none
   , ProtoTransition EOTCOMPRCV_RDST RXUPLAYERTO_RDEVT EXIT_ST rd_exit_rxuplayerto ]"

subsection \<open>The operation\<close>

text \<open>
  The result is what was copied into the caller's buffer; the code returns its length. The
  amount is the number of bytes received in this call, whatever the caller asked for.
\<close>

definition dmodem_read :: "nat \<Rightarrow> nat \<Rightarrow> 'w dm_sys \<Rightarrow> ('w dm_sys, byte list) outcome" where
  "dmodem_read fuel sz s =
     (let s = CLEAR_GLOBAL_ERROR s;
          give = (\<lambda>n s. case rd_read_data n s of None \<Rightarrow> Fault | Some (s, bs) \<Rightarrow> Done s bs) in
      if sz \<le> rd_data_count (rds s) then give sz s
      else if rd_data_count (rds s) \<noteq> 0 \<and> (flags (conf s)) AND O_DMODEM_SPRD_NONBLOCK \<noteq> 0
        then give sz s
      else case rd_init s of
        None \<Rightarrow> Fault
      | Some (s, rv) \<Rightarrow>
          (let s = upd_rd (\<lambda>c. c\<lparr>rd_size_to_read := sz\<rparr>) s in
           case proto_engine rd_transitions rd_wait_event rd_clean_curr_state
                  NO_EVT WAITSOH_RDST EXIT_ST fuel s of
             Returned s \<Rightarrow> give (rd_size_readed (rds s)) s
           | Crashed \<Rightarrow> Fault
           | Running _ \<Rightarrow> NotYet))"

end
