(* ===== verification/Dmodem_Read_Props.thy ===== *)
theory Dmodem_Read_Props
  imports Dmodem_Read Dmodem_Line
begin

text \<open>
  What the receiver guarantees on an arbitrary line. \<open>accepted\<close> is the abstract specification: a
  history of the line in which some runs of bytes are well-formed frames with consecutive
  sequence numbers, each immediately acknowledged, and everything else is noise; their payloads,
  in order, are what reaches the reader, up to the capacity of the buffer.
\<close>

subsection \<open>The buffer is a bounded queue\<close>

definition rd_buf_wf :: "DMReadCurrState \<Rightarrow> bool" where
  "rd_buf_wf r \<longleftrightarrow> rd_max_data_count r = length (rd_databuf r) \<and>
     ring_wf (rd_databuf r) (rd_first_data_index r) (rd_last_data_index r) (rd_data_count r)"

definition rd_items :: "DMReadCurrState \<Rightarrow> byte list" where
  "rd_items r = ring (rd_databuf r) (rd_first_data_index r) (rd_data_count r)"

definition rd_put :: "byte \<Rightarrow> DMReadCurrState \<Rightarrow> DMReadCurrState option" where
  "rd_put b c = (if rd_data_count c = rd_max_data_count c then None
     else Some (c\<lparr>rd_databuf := (rd_databuf c)[rd_last_data_index c := b],
           rd_data_count := rd_data_count c + 1,
           rd_last_data_index := (rd_last_data_index c + 1) mod rd_max_data_count c\<rparr>))"

definition rd_get :: "DMReadCurrState \<Rightarrow> (byte \<times> DMReadCurrState) option" where
  "rd_get c = (if rd_data_count c = 0 then None
     else Some (rd_databuf c ! rd_first_data_index c, c\<lparr>rd_data_count := rd_data_count c - 1,
           rd_first_data_index := (rd_first_data_index c + 1) mod rd_max_data_count c\<rparr>))"

interpretation rb: fifo rd_buf_wf rd_max_data_count rd_items "\<lambda>_. True" rd_put rd_get
proof unfold_locales
  fix r r' :: DMReadCurrState and b x :: byte and xs
  show "length (rd_items r) \<le> rd_max_data_count r" if "rd_buf_wf r"
    using that by (simp add: rd_buf_wf_def rd_items_def ring_wf_def)
  show "\<exists>q'. rd_put b r = Some q' \<and> rd_buf_wf q' \<and> rd_max_data_count q' = rd_max_data_count r \<and>
      rd_items q' = rd_items r @ [b]"
    if w: "rd_buf_wf r" and l: "length (rd_items r) < rd_max_data_count r"
  proof -
    from w have rw: "ring_wf (rd_databuf r) (rd_first_data_index r) (rd_last_data_index r) (rd_data_count r)"
      and m: "rd_max_data_count r = length (rd_databuf r)" by (auto simp: rd_buf_wf_def)
    have "rd_data_count r < length (rd_databuf r)" using l m by (simp add: rd_items_def)
    with ring_put [OF rw this, of b] m show ?thesis
      by (simp add: rd_put_def rd_buf_wf_def rd_items_def)
  qed
  show "rd_put b r = None" if "rd_buf_wf r" "length (rd_items r) = rd_max_data_count r"
    using that by (simp add: rd_put_def rd_items_def)
  show "\<exists>q'. rd_get r = Some (x, q') \<and> rd_buf_wf q' \<and> rd_max_data_count q' = rd_max_data_count r \<and>
      rd_items q' = xs"
    if w: "rd_buf_wf r" and i: "rd_items r = x # xs"
  proof -
    obtain n where n: "rd_data_count r = Suc n"
      using arg_cong [OF i, of length] by (simp add: rd_items_def)
    from w have rw: "ring_wf (rd_databuf r) (rd_first_data_index r) (rd_last_data_index r) (Suc n)"
      and m: "rd_max_data_count r = length (rd_databuf r)" by (auto simp: rd_buf_wf_def n)
    from ring_get [OF rw] i n m show ?thesis
      by (auto simp: rd_get_def rd_buf_wf_def rd_items_def)
  qed
  show "rd_get r = None" if "rd_buf_wf r" "rd_items r = []"
    using arg_cong [OF that(2), of length] by (simp add: rd_get_def rd_items_def)
qed

lemma rd_fits: "list_all (\<lambda>_. True) xs"
  by (simp add: list_all_iff)

lemma rd_buf_byte [simp]:
  "rd_buf_wf (r\<lparr>rd_byte_rcv := b\<rparr>) = rd_buf_wf r" "rd_items (r\<lparr>rd_byte_rcv := b\<rparr>) = rd_items r"
  by (simp_all add: rd_buf_wf_def rd_items_def)

lemma rd_buf_index:
  "rd_buf_wf r \<Longrightarrow> rd_last_data_index r < length (rd_databuf r) \<and>
    rd_first_data_index r < length (rd_databuf r) \<and> rd_max_data_count r \<noteq> 0"
  by (auto simp: rd_buf_wf_def ring_wf_def)

lemma rd_write_data_put:
  "rd_buf_wf (rds s) \<Longrightarrow> rd_write_data bs s = Some (upd_rd (put_all rd_put bs) s)"
proof (induction bs arbitrary: s)
  case Nil
  then show ?case by simp
next
  case (Cons b bs)
  show ?case
  proof (cases "rd_data_count (rds s) = rd_max_data_count (rds s)")
    case True
    then show ?thesis by (simp add: rd_put_def)
  next
    case False
    then obtain r where r: "rd_put b (rds s) = Some r" by (simp add: rd_put_def)
    have "length (rd_items (rds s)) < rd_max_data_count (rds s)"
      using False rb.bounded [OF Cons.prems] by (simp add: rd_items_def)
    with rb.put_room [OF Cons.prems TrueI this, of b] r have "rd_buf_wf r" by auto
    then have "rd_write_data bs (upd_rd (\<lambda>_. r) s) = Some (upd_rd (put_all rd_put bs) (upd_rd (\<lambda>_. r) s))"
      using Cons.IH [of "upd_rd (\<lambda>_. r) s"] by simp
    moreover have "rd_write_data (b # bs) s = rd_write_data bs (upd_rd (\<lambda>_. r) s)"
      using False r rd_buf_index [OF Cons.prems] by (auto simp: rd_put_def guard_ok_def Let_def)
    ultimately show ?thesis using r by simp
  qed
qed

lemma rd_read_data_get:
  "rd_buf_wf (rds s) \<Longrightarrow> rd_read_data n s =
    Some (upd_rd (\<lambda>r. snd (get_upto rd_get n r)) s, fst (get_upto rd_get n (rds s)))"
proof (induction n arbitrary: s)
  case 0
  then show ?case by simp
next
  case (Suc n)
  show ?case
  proof (cases "rd_data_count (rds s) = 0")
    case True
    then show ?thesis by (simp add: rd_get_def)
  next
    case False
    then obtain x r where r: "rd_get (rds s) = Some (x, r)" by (simp add: rd_get_def)
    obtain y ys where "rd_items (rds s) = y # ys"
      using False by (cases "rd_items (rds s)") (auto simp: rd_items_def dest: arg_cong [where f = length])
    from rb.get_some [OF Suc.prems this] r have "rd_buf_wf r" by auto
    then have "rd_read_data n (upd_rd (\<lambda>_. r) s) = Some (upd_rd (\<lambda>r. snd (get_upto rd_get n r)) (upd_rd (\<lambda>_. r) s),
        fst (get_upto rd_get n r))"
      using Suc.IH [of "upd_rd (\<lambda>_. r) s"] by simp
    moreover have "rd_read_data (Suc n) s = do {
        (s, bs) \<leftarrow> rd_read_data n (upd_rd (\<lambda>_. r) s); Some (s, x # bs) }"
      using False r rd_buf_index [OF Suc.prems] by (auto simp: rd_get_def guard_ok_def Let_def)
    ultimately show ?thesis using r by (simp add: prod.case_eq_if)
  qed
qed

text \<open>Nothing else in the receiver's state changes.\<close>

definition rd_rest :: "DMReadCurrState \<Rightarrow> DMReadCurrState" where
  "rd_rest r = r\<lparr>rd_databuf := [], rd_data_count := 0, rd_last_data_index := 0, rd_first_data_index := 0\<rparr>"

lemma rd_put_rest: "rd_rest (put_all rd_put bs r) = rd_rest r"
proof (induction bs arbitrary: r)
  case (Cons b bs)
  have "rd_put b r = Some r' \<Longrightarrow> rd_rest r' = rd_rest r" for r'
    by (auto simp: rd_put_def rd_rest_def split: if_splits)
  with Cons show ?case by (simp split: option.split)
qed simp

lemma rd_get_rest: "rd_rest (snd (get_upto rd_get n r)) = rd_rest r"
proof (induction n arbitrary: r)
  case (Suc n)
  have "rd_get r = Some (x, r') \<Longrightarrow> rd_rest r' = rd_rest r" for x r'
    by (auto simp: rd_get_def rd_rest_def split: if_splits)
  with Suc show ?case by (auto simp: Let_def prod.case_eq_if split: option.split)
qed simp

lemma rd_rest_fields:
  assumes "rd_rest r' = rd_rest r"
  shows "rd_ppayload r' = rd_ppayload r" "rd_size_to_read r' = rd_size_to_read r"
    "rd_size_readed r' = rd_size_readed r" "rd_curr_bytes_readed r' = rd_curr_bytes_readed r"
    "rd_next_seqno r' = rd_next_seqno r" "rd_curr_seqno r' = rd_curr_seqno r"
    "rd_byte_rcv r' = rd_byte_rcv r" "rd_curr_payload_len r' = rd_curr_payload_len r"
    "rd_checksum r' = rd_checksum r" "rd_pchecksum r' = rd_pchecksum r"
    "rd_retrans_no r' = rd_retrans_no r"
  using assms unfolding rd_rest_def
  by (auto dest: arg_cong [where f = rd_ppayload] arg_cong [where f = rd_size_to_read]
      arg_cong [where f = rd_size_readed] arg_cong [where f = rd_curr_bytes_readed]
      arg_cong [where f = rd_next_seqno] arg_cong [where f = rd_curr_seqno]
      arg_cong [where f = rd_byte_rcv] arg_cong [where f = rd_curr_payload_len]
      arg_cong [where f = rd_checksum] arg_cong [where f = rd_pchecksum]
      arg_cong [where f = rd_retrans_no])

subsection \<open>The abstract specification\<close>

definition ack_bytes :: "byte list" where
  "ack_bytes = [DM_ACK, NOT DM_ACK]"

definition nack_bytes :: "byte list" where
  "nack_bytes = [DM_NACK, NOT DM_NACK]"

definition noise_io :: "io \<Rightarrow> bool" where
  "noise_io x \<longleftrightarrow> (case x of Got b \<Rightarrow> True | Sent f \<Rightarrow> f = ack_bytes \<or> f = nack_bytes)"

inductive accepted :: "byte \<Rightarrow> io list \<Rightarrow> byte list list \<Rightarrow> bool" where
  start: "accepted q [] []"
| other: "accepted q t ps \<Longrightarrow> noise_io x \<Longrightarrow> accepted q (t @ [x]) ps"
| frame: "accepted q t ps \<Longrightarrow> 0 < length p \<Longrightarrow> length p \<le> 512 \<Longrightarrow>
    accepted q (t @ map Got (dmframe c1 c2 (q + of_nat (length ps)) p) @ [Sent ack_bytes]) (ps @ [p])"

lemma noise_io_simps [simp]: "noise_io (Got b)" "noise_io (Sent ack_bytes)" "noise_io (Sent nack_bytes)"
  by (simp_all add: noise_io_def)

lemma accepted_bytes: "accepted q t ps \<Longrightarrow> accepted q (t @ map Got bs) ps"
proof (induction bs arbitrary: t)
  case Nil
  then show ?case by simp
next
  case (Cons b bs)
  from Cons.IH [OF accepted.other [OF Cons.prems, of "Got b"]] show ?case by simp
qed

subsection \<open>The poll\<close>

definition rd_poll_events :: "int set" where
  "rd_poll_events = {RCVBYTE_RDEVT, RXBYTETO_RDEVT, RXUPLAYERTO_RDEVT, NO_EVT}"

text \<open>After a poll the receiver's state differs in the last byte only, beside the timer's flag.\<close>

definition rd_after :: "byte \<Rightarrow> 'w DmodemHandler \<Rightarrow> 'w DmodemHandler" where
  "rd_after b h = h\<lparr>rd_curr_state := (rd_curr_state h)\<lparr>rd_byte_rcv := b\<rparr>\<rparr>"

lemma rd_after_rds: "rd_curr_state (rd_after b h) = (rd_curr_state h)\<lparr>rd_byte_rcv := b\<rparr>"
  by (simp add: rd_after_def)

lemma quiet_rd_after: "quiet h h' \<Longrightarrow> quiet (rd_after b h) (rd_after b h')"
  unfolding quiet_def
proof
  fix w assume a: "\<forall>w. forget w h' = forget w h"
  have f: "forget w (rd_after b h) = rd_after b (forget w h)" for h :: "'a DmodemHandler"
    by (simp add: forget_def rd_after_def)
  from a show "forget w (rd_after b h') = forget w (rd_after b h)" by (simp add: f)
qed

lemma rd_wait_spec:
  assumes w: "rd_wait_event s = Some (s', ev)"
  shows "quiet (rd_after (rd_byte_rcv (rds s')) (ct_user s)) (ct_user s')"
    "ct_locked s' = ct_locked s" "ev \<in> rd_poll_events"
    "records hist (ct_user s) \<Longrightarrow> sys_hist hist s' = sys_hist hist s @
       (if ev = RCVBYTE_RDEVT then [Got (rd_byte_rcv (rds s'))] else [])"
    "ev \<noteq> RCVBYTE_RDEVT \<Longrightarrow> rd_byte_rcv (rds s') = rd_byte_rcv (rds s)"
    "line_dies \<mu> (ct_user s) \<Longrightarrow> sys_left \<mu> s' < sys_left \<mu> s \<or> ev = RXUPLAYERTO_RDEVT"
proof -
  define s0 where "s0 = dm_timers_run s"
  note t = timers_quiet [of s, folded s0_def]
  obtain s1 r b where r: "line_recv 1 s0 = (s1, r, b)" by (cases "line_recv 1 s0") auto
  note r1 = line_recv_spec [OF r]
  have q1: "quiet (ct_user s) (ct_user s1)" "ct_locked s1 = ct_locked s"
    using t r1 by (auto intro: quiet_trans)
  define s2 where "s2 = (if rd_rxuplayer_timer_expired (rds s1)
    then upd_rd (\<lambda>c. c\<lparr>rd_rxuplayer_timer_expired := False\<rparr>) s1 else s1)"
  obtain s3 d where d: "line_dcd s2 = (s3, d)" by fastforce
  note d1 = line_dcd_spec [OF d]
  have q2: "quiet (ct_user s) (ct_user s2)" "ct_locked s2 = ct_locked s"
    "uplayer_data (ct_user s2) = uplayer_data (ct_user s1)"
    using q1 by (auto simp: s2_def intro: quiet_trans)
  have q3: "quiet (ct_user s) (ct_user s3)" "ct_locked s3 = ct_locked s"
    using q2 d1 by (auto intro: quiet_trans)
  have out: "if r = 1 then s' = upd_h (rd_after b) s1 \<and> ev = RCVBYTE_RDEVT
    else s' = s3 \<and> ev \<in> {RXBYTETO_RDEVT, RXUPLAYERTO_RDEVT, NO_EVT} \<and> (d = 0 \<longrightarrow> ev = RXUPLAYERTO_RDEVT)"
    using w r d by (auto simp: rd_wait_event_def s0_def [symmetric] s2_def rd_after_def Let_def
        split: if_splits)
  have same: "rd_after (rd_byte_rcv (rd_curr_state h')) h = h"
    if "quiet h h'" for h h' :: "'a DmodemHandler"
    using quiet_fields(17) [OF that] by (auto simp: rd_after_def)
  show "quiet (rd_after (rd_byte_rcv (rds s')) (ct_user s)) (ct_user s')"
    "ct_locked s' = ct_locked s"
    using out q1 q3 same [OF q3(1)] quiet_rd_after [OF q1(1), of b]
    by (auto simp: rd_after_def split: if_splits)
  show "ev \<in> rd_poll_events" using out by (auto simp: rd_poll_events_def split: if_splits)
  show "rd_byte_rcv (rds s') = rd_byte_rcv (rds s)" if "ev \<noteq> RCVBYTE_RDEVT"
    using out that quiet_fields(17) [OF q3(1)] by (auto split: if_splits)
  show "sys_hist hist s' = sys_hist hist s @
       (if ev = RCVBYTE_RDEVT then [Got (rd_byte_rcv (rds s'))] else [])"
    if h: "records hist (ct_user s)"
    using out r1(3) [OF records_quiet [OF h t(1)]] t(3) q2(3) d1(3) [OF records_quiet [OF h q2(1)]]
    by (auto simp: rd_after_def split: if_splits)
  show "sys_left \<mu> s' < sys_left \<mu> s \<or> ev = RXUPLAYERTO_RDEVT" if l: "line_dies \<mu> (ct_user s)"
    using out line_recv_left [OF r line_dies_quiet [OF l t(1)]] t(3) q2(3)
      line_dcd_left [OF d line_dies_quiet [OF l q2(1)]]
    by (auto simp: rd_after_def split: if_splits)
qed

subsection \<open>The invariant of the receiver\<close>

definition rd_loose :: "int set" where
  "rd_loose = {WAITSOH_RDST, DISCARDBYTES_RDST, DISCARDRETRANS_RDST, SYNRCV_RDST, SYNCOMPRCV_RDST,
     EOTRCV_RDST, EOTCOMPRCV_RDST}"

definition rd_framed :: "int set" where
  "rd_framed = {WAITCTRL0_RDST, WAITCTRL1_RDST, WAITSEQ_RDST, WAITSEQCOMP_RDST, WAITLEN0_RDST,
     WAITLEN1_RDST, WAITLEN0COMP_RDST, WAITLEN1COMP_RDST, WAITPAYLOAD_RDST, WAITCHECKSUM_RDST}"

text \<open>The bytes of a frame that have been read, by the state in which the next one is awaited.\<close>

definition rd_at :: "int \<Rightarrow> byte list \<Rightarrow> byte list \<Rightarrow> DMReadCurrState \<Rightarrow> bool" where
  "rd_at st part frm r \<longleftrightarrow>
     (st = WAITPAYLOAD_RDST \<and> (\<exists>c1 c2.
        part = frame_head c1 c2 (rd_next_seqno r) (rd_curr_payload_len r)
          @ take (rd_curr_bytes_readed r) frm \<and>
        rd_ppayload r = rd_curr_bytes_readed r \<and> rd_curr_bytes_readed r \<le> length frm \<and>
        unat (rd_curr_payload_len r) \<le> 512 \<and> rd_pchecksum r = 0) \<or>
      st = WAITCHECKSUM_RDST \<and> (\<exists>c1 c2.
        part = frame_head c1 c2 (rd_next_seqno r) (rd_curr_payload_len r)
          @ take (rd_curr_bytes_readed r) frm @ take (rd_pchecksum r) (rd_checksum r) \<and>
        rd_curr_bytes_readed r \<le> length frm \<and> 0 < rd_curr_bytes_readed r \<and>
        rd_curr_bytes_readed r = unat (rd_curr_payload_len r) \<and>
        unat (rd_curr_payload_len r) \<le> 512 \<and> rd_pchecksum r < 4) \<or>
      rd_ppayload r = 0 \<and> rd_curr_bytes_readed r = 0 \<and> rd_pchecksum r = 0 \<and>
      (\<exists>c1 c2 q l0 l1 m0. q = rd_next_seqno r \<and>
        (st = WAITCTRL0_RDST \<and> part = [DM_SOH] \<or>
         st = WAITCTRL1_RDST \<and> part = [DM_SOH, c1] \<or>
         st = WAITSEQ_RDST \<and> part = [DM_SOH, c1, c2] \<or>
         st = WAITSEQCOMP_RDST \<and> part = [DM_SOH, c1, c2, q] \<and> rd_curr_seqno r = q \<or>
         st = WAITLEN0_RDST \<and> part = [DM_SOH, c1, c2, q, NOT q] \<or>
         st = WAITLEN1_RDST \<and> part = [DM_SOH, c1, c2, q, NOT q, l0] \<and>
           rd_curr_payload_len r = ucast l0 \<or>
         st = WAITLEN0COMP_RDST \<and> part = [DM_SOH, c1, c2, q, NOT q, l0, l1] \<and>
           rd_curr_payload_len r = le16 l0 l1 \<and> unat (rd_curr_payload_len r) \<le> 512 \<or>
         st = WAITLEN1COMP_RDST \<and> part = [DM_SOH, c1, c2, q, NOT q, l0, l1, m0] \<and>
           rd_curr_payload_len r = le16 l0 l1 \<and> unat (rd_curr_payload_len r) \<le> 512 \<and>
           rd_curr_payload_len_comp r = ucast m0)))"

text \<open>The events that may be pending in a state, and what has been read when one is.\<close>

definition rd_now :: "int \<Rightarrow> int \<Rightarrow> byte list \<Rightarrow> byte list \<Rightarrow> DMReadCurrState \<Rightarrow> bool" where
  "rd_now st ev part frm r \<longleftrightarrow>
     (if st = CTRLRETRANS_RDST then ev \<in> {MORERETRANS_RDEVT, NOMORERETRANS_RDEVT}
      else if st \<in> rd_loose then ev \<in> rd_poll_events \<and>
        (st = WAITSOH_RDST \<longrightarrow> ev = RCVBYTE_RDEVT \<longrightarrow> (\<exists>part'. part = part' @ [rd_byte_rcv r]))
      else st \<in> rd_framed \<and>
        (if ev = RCVBYTE_RDEVT then \<exists>part'. part = part' @ [rd_byte_rcv r] \<and> rd_at st part' frm r
         else if ev \<in> {RXBYTETO_RDEVT, RXUPLAYERTO_RDEVT, NO_EVT} then rd_at st part frm r
         else if ev = PAYLOADRCV_RDEVT then st = WAITPAYLOAD_RDST \<and> rd_at st part frm r \<and>
           0 < rd_curr_bytes_readed r \<and> rd_curr_bytes_readed r = unat (rd_curr_payload_len r)
         else ev = BADFRAME_RDEVT \<or>
           st = WAITCTRL0_RDST \<and> ev \<in> {NOTSOH_RDEVT, SYN_RDEVT, EOT_RDEVT} \<or>
           st = WAITSEQCOMP_RDST \<and> ev = RETRANS_RDEVT))"

definition rd_done :: "byte \<Rightarrow> byte list \<Rightarrow> nat \<Rightarrow> byte list list \<Rightarrow> DMReadCurrState \<Rightarrow> bool" where
  "rd_done q0 c0 cap ps r \<longleftrightarrow>
     rd_buf_wf r \<and> rd_max_data_count r = cap \<and> length (rd_checksum r) = 4 \<and>
     rd_items r = take cap (c0 @ concat ps) \<and> rd_size_readed r = length (concat ps)"

text \<open>
  Either the frames accepted so far have been acknowledged, or one has just been stored and its
  acknowledgement is the pending event.
\<close>

definition rd_inv ::
  "('w \<Rightarrow> io list) \<Rightarrow> io list \<Rightarrow> byte \<Rightarrow> byte list \<Rightarrow> nat \<Rightarrow> int \<Rightarrow> int \<Rightarrow> 'w dm_sys \<Rightarrow> bool" where
  "rd_inv hist H0 q0 c0 cap st ev s \<longleftrightarrow> records hist (ct_user s) \<and>
     (\<exists>t part ps. sys_hist hist s = H0 @ t @ map Got part \<and> accepted q0 t ps \<and>
        rd_next_seqno (rds s) = q0 + of_nat (length ps) \<and>
        (if st = WAITCHECKSUM_RDST \<and> ev \<in> {MOREFRAMES_RDEVT, NOMOREFRAMES_RDEVT}
         then \<exists>c1 c2 p. part = dmframe c1 c2 (rd_next_seqno (rds s)) p \<and> 0 < length p \<and>
           length p \<le> 512 \<and> rd_done q0 c0 cap (ps @ [p]) (rds s)
         else rd_done q0 c0 cap ps (rds s) \<and> rd_now st ev part (dmodem_frame (ct_user s)) (rds s)))"

definition rd_post :: "('w \<Rightarrow> io list) \<Rightarrow> io list \<Rightarrow> byte \<Rightarrow> byte list \<Rightarrow> nat \<Rightarrow> 'w dm_sys \<Rightarrow> bool" where
  "rd_post hist H0 q0 c0 cap s \<longleftrightarrow>
     (\<exists>t ps. sys_hist hist s = H0 @ t \<and> accepted q0 t ps \<and>
        rd_next_seqno (rds s) = q0 + of_nat (length ps) \<and> rd_done q0 c0 cap ps (rds s))"

lemma rd_invE:
  assumes "rd_inv hist H0 q0 c0 cap st ev s" "\<not> (st = WAITCHECKSUM_RDST \<and> ev \<in> {MOREFRAMES_RDEVT, NOMOREFRAMES_RDEVT})"
  obtains t part ps where "records hist (ct_user s)" "sys_hist hist s = H0 @ t @ map Got part"
    "accepted q0 t ps" "rd_next_seqno (rds s) = q0 + of_nat (length ps)"
    "rd_done q0 c0 cap ps (rds s)" "rd_now st ev part (dmodem_frame (ct_user s)) (rds s)"
  using assms unfolding rd_inv_def by (simp only: if_False) blast

lemma rd_invI:
  assumes "records hist (ct_user s)" "sys_hist hist s = H0 @ t @ map Got part"
    "accepted q0 t ps" "rd_next_seqno (rds s) = q0 + of_nat (length ps)"
    "rd_done q0 c0 cap ps (rds s)" "rd_now st ev part (dmodem_frame (ct_user s)) (rds s)"
    "\<not> (st = WAITCHECKSUM_RDST \<and> ev \<in> {MOREFRAMES_RDEVT, NOMOREFRAMES_RDEVT})"
  shows "rd_inv hist H0 q0 c0 cap st ev s"
  using assms unfolding rd_inv_def by (simp only: if_False) blast

text \<open>Only these fields of the receiver's state matter to a frame in progress.\<close>

lemma rd_at_byte [simp]: "rd_at st part frm (r\<lparr>rd_byte_rcv := b\<rparr>) = rd_at st part frm r"
  "rd_at st part frm (r\<lparr>rd_rxuplayer_timer_expired := c\<rparr>) = rd_at st part frm r"
  by (simp_all add: rd_at_def)

lemma rd_done_byte [simp]: "rd_done q0 c0 cap ps (r\<lparr>rd_byte_rcv := b\<rparr>) = rd_done q0 c0 cap ps r"
  "rd_done q0 c0 cap ps (r\<lparr>rd_rxuplayer_timer_expired := c\<rparr>) = rd_done q0 c0 cap ps r"
  by (simp_all add: rd_done_def rd_buf_wf_def rd_items_def)

lemma rd_now_wait:
  assumes "rd_now st NO_EVT part frm r" "ev \<in> rd_poll_events" "ev \<noteq> RCVBYTE_RDEVT \<Longrightarrow> b = rd_byte_rcv r"
  shows "rd_now st ev (part @ (if ev = RCVBYTE_RDEVT then [b] else [])) frm
    (r\<lparr>rd_byte_rcv := b, rd_rxuplayer_timer_expired := c\<rparr>)"
  using assms by (auto simp: rd_now_def rd_poll_events_def)

lemma rd_inv_wait:
  assumes i: "rd_inv hist H0 q0 c0 cap st NO_EVT s" and w: "rd_wait_event s = Some (s', ev)"
  shows "rd_inv hist H0 q0 c0 cap st ev s'"
proof -
  have no: "\<not> (st = WAITCHECKSUM_RDST \<and> NO_EVT \<in> {MOREFRAMES_RDEVT, NOMOREFRAMES_RDEVT})" by simp
  from i no obtain t part ps where j: "records hist (ct_user s)" "sys_hist hist s = H0 @ t @ map Got part"
    "accepted q0 t ps" "rd_next_seqno (rds s) = q0 + of_nat (length ps)"
    "rd_done q0 c0 cap ps (rds s)" "rd_now st NO_EVT part (dmodem_frame (ct_user s)) (rds s)"
    by (rule rd_invE)
  note ws = rd_wait_spec [OF w]
  define b where "b = rd_byte_rcv (rds s')"
  have "\<exists>c. rds s' = (rds s)\<lparr>rd_byte_rcv := b, rd_rxuplayer_timer_expired := c\<rparr>"
    using quiet_fields(17) [OF ws(1)] unfolding rd_after_rds b_def .
  then obtain c where r: "rds s' = (rds s)\<lparr>rd_byte_rcv := b, rd_rxuplayer_timer_expired := c\<rparr>" ..
  have f: "dmodem_frame (ct_user s') = dmodem_frame (ct_user s)"
    using quiet_fields(6) [OF ws(1)] by (simp add: rd_after_def)
  have rec: "records hist (ct_user s')"
    by (rule records_quiet [OF _ ws(1)]) (simp add: rd_after_def records_def j(1) [unfolded records_def])
  have now: "rd_now st ev (part @ (if ev = RCVBYTE_RDEVT then [b] else [])) (dmodem_frame (ct_user s')) (rds s')"
    unfolding r f by (rule rd_now_wait [OF j(6) ws(3)]) (use ws(5) b_def in simp)
  have h: "sys_hist hist s' = H0 @ t @ map Got (part @ (if ev = RCVBYTE_RDEVT then [b] else []))"
    using ws(4) [OF j(1)] j(2) b_def by simp
  show ?thesis
    by (rule rd_invI [OF rec h j(3) _ _ now]) (use j(4,5) r ws(3) in \<open>auto simp: rd_poll_events_def\<close>)
qed

subsection \<open>The rows of the table\<close>

lemma rd_row_cases:
  assumes "first_row rd_transitions st ev = Some (nx, f)"
  obtains (soh) "f = rd_soh" "st = WAITSOH_RDST" "ev = RCVBYTE_RDEVT" "nx = WAITCTRL0_RDST"
  | (skip) "f = rd_none" "ev = RCVBYTE_RDEVT"
      "(st, nx) \<in> {(WAITCTRL0_RDST, WAITCTRL1_RDST), (WAITCTRL1_RDST, WAITSEQ_RDST)}"
  | (loose) "f \<in> {rd_none, rd_discard_byte, rd_discard_retrans}" "nx \<in> rd_loose" "st \<noteq> WAITCHECKSUM_RDST"
      "ev \<noteq> NO_EVT"
  | (reack) "f = rd_send_ack" "st = DISCARDRETRANS_RDST" "ev = RXBYTETO_RDEVT" "nx = WAITSOH_RDST"
  | (nack) "f = rd_send_nack" "st = DISCARDBYTES_RDST" "ev = RXBYTETO_RDEVT" "nx = WAITSOH_RDST"
  | (retrans) "f = rd_prepare_retrans" "st \<in> insert WAITSOH_RDST rd_framed"
      "ev \<in> {BADFRAME_RDEVT, RXBYTETO_RDEVT}" "nx = CTRLRETRANS_RDST"
  | (timeout) "f = rd_exit_rxuplayerto" "ev = RXUPLAYERTO_RDEVT" "nx = EXIT_ST"
  | (seqno) "f = rd_seqno" "st = WAITSEQ_RDST" "ev = RCVBYTE_RDEVT" "nx = WAITSEQCOMP_RDST"
  | (seqnocomp) "f = rd_seqnocomp" "st = WAITSEQCOMP_RDST" "ev = RCVBYTE_RDEVT" "nx = WAITLEN0_RDST"
  | (len0) "f = rd_len0" "st = WAITLEN0_RDST" "ev = RCVBYTE_RDEVT" "nx = WAITLEN1_RDST"
  | (len1) "f = rd_len1" "st = WAITLEN1_RDST" "ev = RCVBYTE_RDEVT" "nx = WAITLEN0COMP_RDST"
  | (len0comp) "f = rd_len0comp" "st = WAITLEN0COMP_RDST" "ev = RCVBYTE_RDEVT" "nx = WAITLEN1COMP_RDST"
  | (len1comp) "f = rd_len1comp" "st = WAITLEN1COMP_RDST" "ev = RCVBYTE_RDEVT" "nx = WAITPAYLOAD_RDST"
  | (payload) "f = rd_rcv_byte" "st = WAITPAYLOAD_RDST" "ev = RCVBYTE_RDEVT" "nx = WAITPAYLOAD_RDST"
  | (paid) "f = rd_none" "st = WAITPAYLOAD_RDST" "ev = PAYLOADRCV_RDEVT" "nx = WAITCHECKSUM_RDST"
  | (sum) "f = rd_rcv_checksum_byte" "st = WAITCHECKSUM_RDST" "ev = RCVBYTE_RDEVT" "nx = WAITCHECKSUM_RDST"
  | (more) "f = rd_more_frames" "st = WAITCHECKSUM_RDST" "ev = MOREFRAMES_RDEVT" "nx = WAITSOH_RDST"
  | (finish) "f = rd_exit_ok" "st = WAITCHECKSUM_RDST" "ev = NOMOREFRAMES_RDEVT" "nx = EXIT_ST"
  | (giveup) "f = rd_exit_retrans" "st = CTRLRETRANS_RDST" "ev = NOMORERETRANS_RDEVT" "nx = EXIT_ST"
  | (syn) "f = rd_syn_comp_rcv" "st = SYNRCV_RDST" "ev = RCVBYTE_RDEVT" "nx = SYNCOMPRCV_RDST"
  | (eot) "f = rd_eot_comp_rcv" "st = EOTRCV_RDST" "ev = RCVBYTE_RDEVT" "nx = EOTCOMPRCV_RDST"
  | (eof) "f = rd_send_eof_ack" "st = EOTCOMPRCV_RDST" "ev = RCVBYTE_RDEVT" "nx = EXIT_ST"
  using first_row_mem [OF assms] unfolding rd_transitions_def
  by (simp only: list.set insert_iff empty_iff ProtoTransition.inject simp_thms)
    (elim disjE conjE; simp add: rd_loose_def rd_framed_def)

text \<open>Sending the two-byte answers.\<close>

lemma rd_answer_spec:
  assumes "line_send bs s = (s', r)"
  shows "rds s' = rds s" "dmodem_frame (ct_user s') = dmodem_frame (ct_user s)" "conf s' = conf s"
    "ct_locked s' = ct_locked s" "records hist (ct_user s') = records hist (ct_user s)"
    "records hist (ct_user s) \<Longrightarrow> sys_hist hist s' = sys_hist hist s @ [Sent bs]"
    "line_dies \<mu> (ct_user s') = line_dies \<mu> (ct_user s)"
    "line_dies \<mu> (ct_user s) \<Longrightarrow> sys_left \<mu> s' \<le> sys_left \<mu> s"
proof -
  from line_send_spec(5) [OF assms] obtain u where u: "ct_user s' = (ct_user s)\<lparr>uplayer_data := u\<rparr>"
    by blast
  then show "rds s' = rds s" "dmodem_frame (ct_user s') = dmodem_frame (ct_user s)" "conf s' = conf s"
    "records hist (ct_user s') = records hist (ct_user s)"
    "line_dies \<mu> (ct_user s') = line_dies \<mu> (ct_user s)"
    by (simp_all add: records_def line_dies_def)
qed (use line_send_spec(2,3) [OF assms] line_send_left [OF assms] in auto)

text \<open>States that expect nothing in particular.\<close>

lemma rd_now_loose: "nx \<in> rd_loose \<Longrightarrow> rd_now nx NO_EVT part frm r"
  by (auto simp: rd_now_def rd_loose_def rd_poll_events_def)

lemma rd_inv_loose:
  assumes i: "rd_inv hist H0 q0 c0 cap st ev s" and st: "st \<noteq> WAITCHECKSUM_RDST"
    and nx: "nx \<in> rd_loose"
  shows "rd_inv hist H0 q0 c0 cap nx NO_EVT s"
proof -
  from i st obtain t part ps where j: "records hist (ct_user s)" "sys_hist hist s = H0 @ t @ map Got part"
    "accepted q0 t ps" "rd_next_seqno (rds s) = q0 + of_nat (length ps)"
    "rd_done q0 c0 cap ps (rds s)" "rd_now st ev part (dmodem_frame (ct_user s)) (rds s)"
    by - (erule rd_invE, simp, blast)
  show ?thesis
    by (rule rd_invI [OF j(1-5) rd_now_loose [OF nx]]) (use nx in \<open>auto simp: rd_loose_def\<close>)
qed

lemma rd_inv_answer:
  assumes i: "rd_inv hist H0 q0 c0 cap st ev s" and st: "st \<noteq> WAITCHECKSUM_RDST"
    and snd: "line_send bs s = (s1, r)" and bs: "bs = ack_bytes \<or> bs = nack_bytes"
    and s': "rds s' = rds s1" "uplayer_data (ct_user s') = uplayer_data (ct_user s1)"
      "records hist (ct_user s') = records hist (ct_user s1)"
  shows "\<exists>t ps. records hist (ct_user s') \<and> sys_hist hist s' = H0 @ t \<and> accepted q0 t ps \<and>
    rd_next_seqno (rds s') = q0 + of_nat (length ps) \<and> rd_done q0 c0 cap ps (rds s')"
proof -
  from i st obtain t part ps where j: "records hist (ct_user s)" "sys_hist hist s = H0 @ t @ map Got part"
    "accepted q0 t ps" "rd_next_seqno (rds s) = q0 + of_nat (length ps)"
    "rd_done q0 c0 cap ps (rds s)"
    by - (erule rd_invE, simp, blast)
  note a = rd_answer_spec [OF snd]
  have "accepted q0 ((t @ map Got part) @ [Sent bs]) ps"
    by (rule accepted.other [OF accepted_bytes [OF j(3)]]) (use bs in auto)
  moreover have "sys_hist hist s' = H0 @ ((t @ map Got part) @ [Sent bs])"
    using a(6) [OF j(1)] j(2) s'(2) by simp
  ultimately show ?thesis using j a s' by metis
qed

text \<open>The bytes of the header.\<close>

lemma rd_inv_framed:
  assumes i: "rd_inv hist H0 q0 c0 cap st RCVBYTE_RDEVT s" and st: "st \<in> rd_framed"
  obtains t part ps where "records hist (ct_user s)"
    "sys_hist hist s = H0 @ t @ map Got (part @ [rd_byte_rcv (rds s)])"
    "accepted q0 t ps" "rd_next_seqno (rds s) = q0 + of_nat (length ps)"
    "rd_done q0 c0 cap ps (rds s)" "rd_at st part (dmodem_frame (ct_user s)) (rds s)"
proof -
  from i obtain t part ps where j: "records hist (ct_user s)" "sys_hist hist s = H0 @ t @ map Got part"
    "accepted q0 t ps" "rd_next_seqno (rds s) = q0 + of_nat (length ps)"
    "rd_done q0 c0 cap ps (rds s)" "rd_now st RCVBYTE_RDEVT part (dmodem_frame (ct_user s)) (rds s)"
    by - (erule rd_invE, simp, blast)
  from j(6) st obtain part' where "part = part' @ [rd_byte_rcv (rds s)]"
    "rd_at st part' (dmodem_frame (ct_user s)) (rds s)"
    by (auto simp: rd_now_def rd_framed_def rd_loose_def)
  with that j show thesis by blast
qed

text \<open>A handler that writes only the fields of the frame in progress.\<close>

definition rd_frame_only :: "DMReadCurrState \<Rightarrow> DMReadCurrState \<Rightarrow> bool" where
  "rd_frame_only r r' \<longleftrightarrow> rd_databuf r' = rd_databuf r \<and> rd_first_data_index r' = rd_first_data_index r \<and>
     rd_last_data_index r' = rd_last_data_index r \<and> rd_data_count r' = rd_data_count r \<and>
     rd_max_data_count r' = rd_max_data_count r \<and> length (rd_checksum r') = length (rd_checksum r) \<and>
     rd_size_readed r' = rd_size_readed r \<and> rd_next_seqno r' = rd_next_seqno r"

lemma rd_done_frame_only: "rd_frame_only r r' \<Longrightarrow> rd_done q0 c0 cap ps r' = rd_done q0 c0 cap ps r"
  by (simp add: rd_done_def rd_frame_only_def rd_buf_wf_def rd_items_def)

lemma rd_inv_byte:
  assumes i: "rd_inv hist H0 q0 c0 cap st RCVBYTE_RDEVT s" and st: "st \<in> rd_framed"
    and u: "records hist (ct_user s') = records hist (ct_user s)"
      "uplayer_data (ct_user s') = uplayer_data (ct_user s)" "rd_frame_only (rds s) (rds s')"
    and at: "\<And>part. rd_at st part (dmodem_frame (ct_user s)) (rds s) \<Longrightarrow>
      rd_now nx ev' (part @ [rd_byte_rcv (rds s)]) (dmodem_frame (ct_user s')) (rds s')"
    and no: "ev' \<notin> {MOREFRAMES_RDEVT, NOMOREFRAMES_RDEVT}"
  shows "rd_inv hist H0 q0 c0 cap nx ev' s'"
proof -
  from i st obtain t part ps where j: "records hist (ct_user s)"
    "sys_hist hist s = H0 @ t @ map Got (part @ [rd_byte_rcv (rds s)])"
    "accepted q0 t ps" "rd_next_seqno (rds s) = q0 + of_nat (length ps)"
    "rd_done q0 c0 cap ps (rds s)" "rd_at st part (dmodem_frame (ct_user s)) (rds s)"
    by (rule rd_inv_framed)
  show ?thesis
    by (rule rd_invI [OF _ _ j(3) _ _ at [OF j(6)]])
      (use j u no rd_done_frame_only [OF u(3)] in \<open>auto simp: rd_frame_only_def\<close>)
qed

lemma unat_not_byte: "unat (NOT (a::byte)) = 255 - unat a"
proof -
  have "NOT a = -1 - a" by (simp add: not_eq_complement)
  then show ?thesis using unat_sub [of a "-1"] by (simp add: unsigned_minus_1_eq_mask mask_eq_exp_minus_1)
qed

lemma not_from_sum: "unat (a::byte) + unat b = 255 \<Longrightarrow> b = NOT a"
  by (rule word_unat_eq_iff [THEN iffD2]) (simp add: unat_not_byte)

lemma rd_now_noise: "rd_now st BADFRAME_RDEVT part frm r" if "st \<in> rd_framed"
  using that by (auto simp: rd_now_def rd_framed_def rd_loose_def)

lemma rd_now_at: "rd_now st NO_EVT part frm r" if "st \<in> rd_framed" "rd_at st part frm r"
  using that by (auto simp: rd_now_def rd_framed_def rd_loose_def)

lemma rd_step_skip:
  "rd_at WAITCTRL0_RDST part frm r \<Longrightarrow> rd_at WAITCTRL1_RDST (part @ [b]) frm r"
  "rd_at WAITCTRL1_RDST part frm r \<Longrightarrow> rd_at WAITSEQ_RDST (part @ [b]) frm r"
  by (auto simp: rd_at_def)

lemma rd_step_seqno:
  "rd_at WAITSEQ_RDST part frm r \<Longrightarrow> rd_next_seqno r = b \<Longrightarrow>
    rd_at WAITSEQCOMP_RDST (part @ [b]) frm (r\<lparr>rd_curr_seqno := b\<rparr>)"
  "rd_at WAITSEQCOMP_RDST part frm r \<Longrightarrow> unat (rd_curr_seqno r) + unat b = 255 \<Longrightarrow>
    rd_at WAITLEN0_RDST (part @ [b]) frm r"
  by (auto simp: rd_at_def dest!: not_from_sum)

lemma rd_step_len:
  "rd_at WAITLEN0_RDST part frm r \<Longrightarrow>
    rd_at WAITLEN1_RDST (part @ [b]) frm (r\<lparr>rd_curr_payload_len := ucast b\<rparr>)"
  "rd_at WAITLEN1_RDST part frm r \<Longrightarrow> l = rd_curr_payload_len r + push_bit 8 (ucast b) \<Longrightarrow>
    unat l \<le> 512 \<Longrightarrow> rd_at WAITLEN0COMP_RDST (part @ [b]) frm (r\<lparr>rd_curr_payload_len := l\<rparr>)"
  "rd_at WAITLEN0COMP_RDST part frm r \<Longrightarrow>
    rd_at WAITLEN1COMP_RDST (part @ [b]) frm (r\<lparr>rd_curr_payload_len_comp := ucast b\<rparr>)"
  by (auto simp: rd_at_def le16_def)

lemma rd_step_head:
  assumes "rd_at WAITLEN1COMP_RDST part frm r"
    and m: "m = rd_curr_payload_len_comp r + push_bit 8 (ucast b)" "rd_curr_payload_len r = NOT m"
  shows "rd_at WAITPAYLOAD_RDST (part @ [b]) frm
    (r\<lparr>rd_curr_payload_len_comp := m, rd_curr_bytes_readed := 0\<rparr>)"
proof -
  from assms(1) obtain c1 c2 l0 l1 m0 where p: "part = [DM_SOH, c1, c2, rd_next_seqno r, NOT (rd_next_seqno r), l0, l1, m0]"
    "rd_curr_payload_len r = le16 l0 l1" "unat (rd_curr_payload_len r) \<le> 512"
    "rd_curr_payload_len_comp r = ucast m0" "rd_ppayload r = 0" "rd_pchecksum r = 0"
    by (auto simp: rd_at_def)
  have "m = le16 m0 b" using m(1) p(4) by (simp add: le16_def)
  then have n: "NOT (le16 l0 l1) = le16 m0 b" using m(2) p(2) by simp
  have "part @ [b] = frame_head c1 c2 (rd_next_seqno r) (le16 l0 l1)"
    by (simp add: frame_head_def p(1) n)
  then show ?thesis using p by (auto simp: rd_at_def)
qed

lemma rd_step_payload:
  assumes "rd_at WAITPAYLOAD_RDST part frm r" and n: "rd_ppayload r < length frm"
    and b: "b = rd_byte_rcv r"
  shows "rd_at WAITPAYLOAD_RDST (part @ [b]) (frm[rd_ppayload r := b])
    (r\<lparr>rd_ppayload := Suc (rd_ppayload r), rd_curr_bytes_readed := Suc (rd_curr_bytes_readed r)\<rparr>)"
proof -
  from assms(1) obtain c1 c2 where p: "part = frame_head c1 c2 (rd_next_seqno r) (rd_curr_payload_len r)
      @ take (rd_curr_bytes_readed r) frm" "rd_ppayload r = rd_curr_bytes_readed r"
    "unat (rd_curr_payload_len r) \<le> 512" "rd_pchecksum r = 0"
    by (auto simp: rd_at_def)
  have "take (Suc (rd_ppayload r)) (frm[rd_ppayload r := b]) = take (rd_ppayload r) frm @ [b]"
    using n by (simp add: take_Suc_conv_app_nth)
  with p n show ?thesis by (auto simp: rd_at_def)
qed

lemma rd_step_paid:
  assumes "rd_at WAITPAYLOAD_RDST part frm r" "0 < rd_curr_bytes_readed r"
    "rd_curr_bytes_readed r = unat (rd_curr_payload_len r)"
  shows "rd_at WAITCHECKSUM_RDST part frm r"
  using assms by (auto simp: rd_at_def)

lemma rd_step_sum:
  assumes "rd_at WAITCHECKSUM_RDST part frm r" "length (rd_checksum r) = 4"
  defines "r' \<equiv> r\<lparr>rd_checksum := (rd_checksum r)[rd_pchecksum r := rd_byte_rcv r],
    rd_pchecksum := Suc (rd_pchecksum r)\<rparr>"
  shows "rd_pchecksum r' \<noteq> 4 \<Longrightarrow> rd_at WAITCHECKSUM_RDST (part @ [rd_byte_rcv r]) frm r'"
    "rd_pchecksum r' = 4 \<Longrightarrow> bytes32 (crc32 (take (rd_curr_bytes_readed r) frm)) = rd_checksum r' \<Longrightarrow>
      \<exists>c1 c2. part @ [rd_byte_rcv r] = dmframe c1 c2 (rd_next_seqno r) (take (rd_curr_bytes_readed r) frm)"
    "0 < rd_curr_bytes_readed r" "rd_curr_bytes_readed r \<le> 512" "rd_curr_bytes_readed r \<le> length frm"
proof -
  from assms(1) obtain c1 c2 where p: "part = frame_head c1 c2 (rd_next_seqno r) (rd_curr_payload_len r)
      @ take (rd_curr_bytes_readed r) frm @ take (rd_pchecksum r) (rd_checksum r)"
    "rd_curr_bytes_readed r \<le> length frm" "0 < rd_curr_bytes_readed r"
    "rd_curr_bytes_readed r = unat (rd_curr_payload_len r)"
    "unat (rd_curr_payload_len r) \<le> 512" "rd_pchecksum r < 4"
    by (auto simp: rd_at_def)
  have cs: "take (Suc (rd_pchecksum r)) ((rd_checksum r)[rd_pchecksum r := rd_byte_rcv r]) =
      take (rd_pchecksum r) (rd_checksum r) @ [rd_byte_rcv r]"
    using p(6) assms(2) by (simp add: take_Suc_conv_app_nth)
  show "0 < rd_curr_bytes_readed r" "rd_curr_bytes_readed r \<le> 512" "rd_curr_bytes_readed r \<le> length frm"
    using p by auto
  show "rd_at WAITCHECKSUM_RDST (part @ [rd_byte_rcv r]) frm r'" if "rd_pchecksum r' \<noteq> 4"
    using that p cs by (auto simp: rd_at_def r'_def)
  show "\<exists>c1 c2. part @ [rd_byte_rcv r] = dmframe c1 c2 (rd_next_seqno r) (take (rd_curr_bytes_readed r) frm)"
    if "rd_pchecksum r' = 4" "bytes32 (crc32 (take (rd_curr_bytes_readed r) frm)) = rd_checksum r'"
  proof -
    have "rd_checksum r' = take (rd_pchecksum r) (rd_checksum r) @ [rd_byte_rcv r]"
      using cs that(1) assms(2) by (simp add: r'_def)
    moreover have "of_nat (length (take (rd_curr_bytes_readed r) frm)) = rd_curr_payload_len r"
      using p(2,4) by simp
    ultimately show ?thesis using p(1) that(2) by (auto simp: dmframe_head)
  qed
qed

subsection \<open>The rows keep the invariant\<close>

lemma rd_inv_soh:
  assumes i: "rd_inv hist H0 q0 c0 cap WAITSOH_RDST RCVBYTE_RDEVT s" and f: "rd_soh s = Some (s', ev')"
  shows "rd_inv hist H0 q0 c0 cap WAITCTRL0_RDST ev' s'"
proof -
  from i obtain t part ps where j: "records hist (ct_user s)" "sys_hist hist s = H0 @ t @ map Got part"
    "accepted q0 t ps" "rd_next_seqno (rds s) = q0 + of_nat (length ps)"
    "rd_done q0 c0 cap ps (rds s)" "rd_now WAITSOH_RDST RCVBYTE_RDEVT part (dmodem_frame (ct_user s)) (rds s)"
    by - (erule rd_invE, simp, blast)
  from j(6) obtain part' where part: "part = part' @ [rd_byte_rcv (rds s)]"
    by (auto simp: rd_now_def rd_loose_def)
  define b where "b = rd_byte_rcv (rds s)"
  have s': "s' = upd_rd (\<lambda>c. c\<lparr>rd_ppayload := 0, rd_curr_bytes_readed := 0, rd_retrans_no := 0,
         rd_pchecksum := 0\<rparr>) s"
    and ev: "ev' = (if b = DM_SYN then SYN_RDEVT else if b = DM_EOT then EOT_RDEVT
       else if b \<noteq> DM_SOH then NOTSOH_RDEVT else NO_EVT)"
    using f by (auto simp: rd_soh_def Let_def b_def)
  have now: "rd_now WAITCTRL0_RDST ev' [b] (dmodem_frame (ct_user s')) (rds s')"
    by (simp add: ev rd_now_def rd_loose_def rd_framed_def rd_at_def s')
  have acc: "accepted q0 (t @ map Got part') ps" using j(3) by (rule accepted_bytes)
  have rec: "records hist (ct_user s')" using j(1) by (simp add: s' records_def)
  have h: "sys_hist hist s' = H0 @ (t @ map Got part') @ map Got [b]"
    using j(2) part by (simp add: s' b_def)
  have d: "rd_done q0 c0 cap ps (rds s')"
    using j(5) by (simp add: s' rd_done_def rd_buf_wf_def rd_items_def)
  show ?thesis by (rule rd_invI [OF rec h acc _ d now]) (use j(4) s' in simp_all)
qed

lemma rd_inv_skip:
  assumes i: "rd_inv hist H0 q0 c0 cap st RCVBYTE_RDEVT s"
    and n: "(st, nx) \<in> {(WAITCTRL0_RDST, WAITCTRL1_RDST), (WAITCTRL1_RDST, WAITSEQ_RDST)}"
  shows "rd_inv hist H0 q0 c0 cap nx NO_EVT s"
proof (rule rd_inv_byte [OF i])
  have nx: "nx \<in> rd_framed" using n by (auto simp: rd_framed_def)
  show "st \<in> rd_framed" using n by (auto simp: rd_framed_def)
  show "rd_frame_only (rds s) (rds s)" by (simp add: rd_frame_only_def)
  fix part assume "rd_at st part (dmodem_frame (ct_user s)) (rds s)"
  then have "rd_at nx (part @ [rd_byte_rcv (rds s)]) (dmodem_frame (ct_user s)) (rds s)"
    using n rd_step_skip by auto
  then show "rd_now nx NO_EVT (part @ [rd_byte_rcv (rds s)]) (dmodem_frame (ct_user s)) (rds s)"
    by (rule rd_now_at [OF nx])
qed simp_all

lemma rd_inv_seqno:
  assumes i: "rd_inv hist H0 q0 c0 cap WAITSEQ_RDST RCVBYTE_RDEVT s" and f: "rd_seqno s = Some (s', ev')"
  shows "rd_inv hist H0 q0 c0 cap WAITSEQCOMP_RDST ev' s'"
proof (rule rd_inv_byte [OF i])
  have nx: "WAITSEQCOMP_RDST \<in> rd_framed" by (simp add: rd_framed_def)
  show "WAITSEQ_RDST \<in> rd_framed" by (simp add: rd_framed_def)
  define b where "b = rd_byte_rcv (rds s)"
  have s': "s' = upd_rd (\<lambda>c. c\<lparr>rd_curr_seqno := b\<rparr>) s"
    and ev: "ev' = RETRANS_RDEVT \<or> ev' = BADFRAME_RDEVT \<or> ev' = NO_EVT \<and> rd_next_seqno (rds s) = b"
    using f by (auto simp: rd_seqno_def Let_def b_def split: if_splits)
  show "records hist (ct_user s') = records hist (ct_user s)"
    "uplayer_data (ct_user s') = uplayer_data (ct_user s)" "rd_frame_only (rds s) (rds s')"
    by (simp_all add: s' records_def rd_frame_only_def)
  show "ev' \<notin> {MOREFRAMES_RDEVT, NOMOREFRAMES_RDEVT}" using ev by auto
  fix part assume at: "rd_at WAITSEQ_RDST part (dmodem_frame (ct_user s)) (rds s)"
  have "rd_now WAITSEQCOMP_RDST RETRANS_RDEVT (part @ [b]) (dmodem_frame (ct_user s')) (rds s')"
    by (simp add: rd_now_def rd_framed_def rd_loose_def)
  then show "rd_now WAITSEQCOMP_RDST ev' (part @ [rd_byte_rcv (rds s)]) (dmodem_frame (ct_user s')) (rds s')"
    using ev rd_now_noise [OF nx] rd_now_at [OF nx] rd_step_seqno(1) [OF at, of b]
    unfolding b_def [symmetric] by (auto simp: s')
qed

lemma rd_inv_seqnocomp:
  assumes i: "rd_inv hist H0 q0 c0 cap WAITSEQCOMP_RDST RCVBYTE_RDEVT s"
    and f: "rd_seqnocomp s = Some (s', ev')"
  shows "rd_inv hist H0 q0 c0 cap WAITLEN0_RDST ev' s'"
proof (rule rd_inv_byte [OF i])
  have nx: "WAITLEN0_RDST \<in> rd_framed" by (simp add: rd_framed_def)
  show "WAITSEQCOMP_RDST \<in> rd_framed" by (simp add: rd_framed_def)
  define b where "b = rd_byte_rcv (rds s)"
  have s': "s' = s" and ev: "ev' = BADFRAME_RDEVT \<or> ev' = NO_EVT \<and> unat (rd_curr_seqno (rds s)) + unat b = 255"
    using f by (auto simp: rd_seqnocomp_def b_def split: if_splits)
  show "records hist (ct_user s') = records hist (ct_user s)"
    "uplayer_data (ct_user s') = uplayer_data (ct_user s)" "rd_frame_only (rds s) (rds s')"
    by (simp_all add: s' rd_frame_only_def)
  show "ev' \<notin> {MOREFRAMES_RDEVT, NOMOREFRAMES_RDEVT}" using ev by auto
  fix part assume at: "rd_at WAITSEQCOMP_RDST part (dmodem_frame (ct_user s)) (rds s)"
  show "rd_now WAITLEN0_RDST ev' (part @ [rd_byte_rcv (rds s)]) (dmodem_frame (ct_user s')) (rds s')"
    using ev rd_now_noise [OF nx] rd_now_at [OF nx] rd_step_seqno(2) [OF at, of b]
    unfolding b_def [symmetric] by (auto simp: s')
qed

lemma rd_inv_len0:
  assumes i: "rd_inv hist H0 q0 c0 cap WAITLEN0_RDST RCVBYTE_RDEVT s" and f: "rd_len0 s = Some (s', ev')"
  shows "rd_inv hist H0 q0 c0 cap WAITLEN1_RDST ev' s'"
proof (rule rd_inv_byte [OF i])
  have nx: "WAITLEN1_RDST \<in> rd_framed" by (simp add: rd_framed_def)
  show "WAITLEN0_RDST \<in> rd_framed" by (simp add: rd_framed_def)
  define b where "b = rd_byte_rcv (rds s)"
  have s': "s' = upd_rd (\<lambda>c. c\<lparr>rd_curr_payload_len := ucast b\<rparr>) s" and ev: "ev' = NO_EVT"
    using f by (auto simp: rd_len0_def b_def)
  show "records hist (ct_user s') = records hist (ct_user s)"
    "uplayer_data (ct_user s') = uplayer_data (ct_user s)" "rd_frame_only (rds s) (rds s')"
    by (simp_all add: s' records_def rd_frame_only_def)
  show "ev' \<notin> {MOREFRAMES_RDEVT, NOMOREFRAMES_RDEVT}" using ev by auto
  fix part assume at: "rd_at WAITLEN0_RDST part (dmodem_frame (ct_user s)) (rds s)"
  show "rd_now WAITLEN1_RDST ev' (part @ [rd_byte_rcv (rds s)]) (dmodem_frame (ct_user s')) (rds s')"
    using ev rd_now_at [OF nx] rd_step_len(1) [OF at, of b]
    unfolding b_def [symmetric] by (auto simp: s')
qed

lemma rd_inv_len1:
  assumes i: "rd_inv hist H0 q0 c0 cap WAITLEN1_RDST RCVBYTE_RDEVT s" and f: "rd_len1 s = Some (s', ev')"
  shows "rd_inv hist H0 q0 c0 cap WAITLEN0COMP_RDST ev' s'"
proof (rule rd_inv_byte [OF i])
  have nx: "WAITLEN0COMP_RDST \<in> rd_framed" by (simp add: rd_framed_def)
  show "WAITLEN1_RDST \<in> rd_framed" by (simp add: rd_framed_def)
  define b where "b = rd_byte_rcv (rds s)"
  define l where "l = rd_curr_payload_len (rds s) + push_bit 8 (ucast b)"
  have s': "s' = upd_rd (\<lambda>c. c\<lparr>rd_curr_payload_len := l\<rparr>) s"
    and ev: "ev' = BADFRAME_RDEVT \<or> ev' = NO_EVT \<and> unat l \<le> 512"
    using f by (auto simp: rd_len1_def Let_def b_def l_def split: if_splits)
  show "records hist (ct_user s') = records hist (ct_user s)"
    "uplayer_data (ct_user s') = uplayer_data (ct_user s)" "rd_frame_only (rds s) (rds s')"
    by (simp_all add: s' records_def rd_frame_only_def)
  show "ev' \<notin> {MOREFRAMES_RDEVT, NOMOREFRAMES_RDEVT}" using ev by auto
  fix part assume at: "rd_at WAITLEN1_RDST part (dmodem_frame (ct_user s)) (rds s)"
  show "rd_now WAITLEN0COMP_RDST ev' (part @ [rd_byte_rcv (rds s)]) (dmodem_frame (ct_user s')) (rds s')"
    using ev rd_now_noise [OF nx] rd_now_at [OF nx] rd_step_len(2) [OF at l_def]
    unfolding b_def [symmetric] by (auto simp: s')
qed

lemma rd_inv_len0comp:
  assumes i: "rd_inv hist H0 q0 c0 cap WAITLEN0COMP_RDST RCVBYTE_RDEVT s"
    and f: "rd_len0comp s = Some (s', ev')"
  shows "rd_inv hist H0 q0 c0 cap WAITLEN1COMP_RDST ev' s'"
proof (rule rd_inv_byte [OF i])
  have nx: "WAITLEN1COMP_RDST \<in> rd_framed" by (simp add: rd_framed_def)
  show "WAITLEN0COMP_RDST \<in> rd_framed" by (simp add: rd_framed_def)
  define b where "b = rd_byte_rcv (rds s)"
  have s': "s' = upd_rd (\<lambda>c. c\<lparr>rd_curr_payload_len_comp := ucast b\<rparr>) s" and ev: "ev' = NO_EVT"
    using f by (auto simp: rd_len0comp_def b_def)
  show "records hist (ct_user s') = records hist (ct_user s)"
    "uplayer_data (ct_user s') = uplayer_data (ct_user s)" "rd_frame_only (rds s) (rds s')"
    by (simp_all add: s' records_def rd_frame_only_def)
  show "ev' \<notin> {MOREFRAMES_RDEVT, NOMOREFRAMES_RDEVT}" using ev by auto
  fix part assume at: "rd_at WAITLEN0COMP_RDST part (dmodem_frame (ct_user s)) (rds s)"
  show "rd_now WAITLEN1COMP_RDST ev' (part @ [rd_byte_rcv (rds s)]) (dmodem_frame (ct_user s')) (rds s')"
    using ev rd_now_at [OF nx] rd_step_len(3) [OF at, of b]
    unfolding b_def [symmetric] by (auto simp: s')
qed

lemma rd_inv_len1comp:
  assumes i: "rd_inv hist H0 q0 c0 cap WAITLEN1COMP_RDST RCVBYTE_RDEVT s"
    and f: "rd_len1comp s = Some (s', ev')"
  shows "rd_inv hist H0 q0 c0 cap WAITPAYLOAD_RDST ev' s'"
proof (rule rd_inv_byte [OF i])
  have nx: "WAITPAYLOAD_RDST \<in> rd_framed" by (simp add: rd_framed_def)
  show "WAITLEN1COMP_RDST \<in> rd_framed" by (simp add: rd_framed_def)
  define b where "b = rd_byte_rcv (rds s)"
  define m where "m = rd_curr_payload_len_comp (rds s) + push_bit 8 (ucast b)"
  have s': "s' = upd_rd (\<lambda>c. c\<lparr>rd_curr_payload_len_comp := m, rd_curr_bytes_readed := 0\<rparr>) s"
    and ev: "ev' = BADFRAME_RDEVT \<or> ev' = NO_EVT \<and> rd_curr_payload_len (rds s) = NOT m"
    using f by (auto simp: rd_len1comp_def Let_def b_def m_def split: if_splits)
  show "records hist (ct_user s') = records hist (ct_user s)"
    "uplayer_data (ct_user s') = uplayer_data (ct_user s)" "rd_frame_only (rds s) (rds s')"
    by (simp_all add: s' records_def rd_frame_only_def)
  show "ev' \<notin> {MOREFRAMES_RDEVT, NOMOREFRAMES_RDEVT}" using ev by auto
  fix part assume at: "rd_at WAITLEN1COMP_RDST part (dmodem_frame (ct_user s)) (rds s)"
  show "rd_now WAITPAYLOAD_RDST ev' (part @ [rd_byte_rcv (rds s)]) (dmodem_frame (ct_user s')) (rds s')"
    using ev rd_now_noise [OF nx] rd_now_at [OF nx] rd_step_head [OF at m_def]
    unfolding b_def [symmetric] by (auto simp: s')
qed

lemma rd_inv_payload:
  assumes i: "rd_inv hist H0 q0 c0 cap WAITPAYLOAD_RDST RCVBYTE_RDEVT s"
    and f: "rd_rcv_byte s = Some (s', ev')"
  shows "rd_inv hist H0 q0 c0 cap WAITPAYLOAD_RDST ev' s'"
proof (rule rd_inv_byte [OF i])
  have nx: "WAITPAYLOAD_RDST \<in> rd_framed" by (simp add: rd_framed_def)
  then show "WAITPAYLOAD_RDST \<in> rd_framed" .
  define b where "b = rd_byte_rcv (rds s)"
  define k where "k = rd_ppayload (rds s)"
  have lt: "k < length (dmodem_frame (ct_user s))"
    and u: "ct_user s' = (ct_user s)\<lparr>dmodem_frame := (dmodem_frame (ct_user s))[k := b],
        rd_curr_state := (rds s)\<lparr>rd_ppayload := Suc k,
          rd_curr_bytes_readed := Suc (rd_curr_bytes_readed (rds s))\<rparr>\<rparr>"
    and ev: "ev' = NO_EVT \<or> ev' = PAYLOADRCV_RDEVT \<and>
        Suc (rd_curr_bytes_readed (rds s)) = unat (rd_curr_payload_len (rds s))"
    using f by (auto simp: rd_rcv_byte_def Let_def b_def k_def elim!: bind_SomeE split: if_splits)
  show "records hist (ct_user s') = records hist (ct_user s)"
    "uplayer_data (ct_user s') = uplayer_data (ct_user s)" "rd_frame_only (rds s) (rds s')"
    by (simp_all add: u records_def rd_frame_only_def)
  show "ev' \<notin> {MOREFRAMES_RDEVT, NOMOREFRAMES_RDEVT}" using ev by auto
  fix part assume "rd_at WAITPAYLOAD_RDST part (dmodem_frame (ct_user s)) (rds s)"
  from rd_step_payload [OF this lt [unfolded k_def] b_def] have
    at: "rd_at WAITPAYLOAD_RDST (part @ [b]) (dmodem_frame (ct_user s')) (rds s')"
    by (simp add: u k_def)
  have "rd_now WAITPAYLOAD_RDST PAYLOADRCV_RDEVT (part @ [b]) (dmodem_frame (ct_user s')) (rds s')"
    if "Suc (rd_curr_bytes_readed (rds s)) = unat (rd_curr_payload_len (rds s))"
    using at that by (simp add: rd_now_def rd_framed_def rd_loose_def u)
  then show "rd_now WAITPAYLOAD_RDST ev' (part @ [rd_byte_rcv (rds s)]) (dmodem_frame (ct_user s')) (rds s')"
    using ev rd_now_at [OF nx at] unfolding b_def [symmetric] by auto
qed

lemma rd_inv_paid:
  assumes i: "rd_inv hist H0 q0 c0 cap WAITPAYLOAD_RDST PAYLOADRCV_RDEVT s"
  shows "rd_inv hist H0 q0 c0 cap WAITCHECKSUM_RDST NO_EVT s"
proof -
  from i obtain t part ps where j: "records hist (ct_user s)" "sys_hist hist s = H0 @ t @ map Got part"
    "accepted q0 t ps" "rd_next_seqno (rds s) = q0 + of_nat (length ps)"
    "rd_done q0 c0 cap ps (rds s)"
    "rd_now WAITPAYLOAD_RDST PAYLOADRCV_RDEVT part (dmodem_frame (ct_user s)) (rds s)"
    by - (erule rd_invE, simp, blast)
  have nx: "WAITCHECKSUM_RDST \<in> rd_framed" by (simp add: rd_framed_def)
  from j(6) have at: "rd_at WAITCHECKSUM_RDST part (dmodem_frame (ct_user s)) (rds s)"
    by (intro rd_step_paid) (simp_all add: rd_now_def rd_framed_def rd_loose_def)
  show ?thesis by (rule rd_invI [OF j(1-5) rd_now_at [OF nx at]]) simp
qed

text \<open>The last byte of the checksum: the payload goes to the reader's buffer.\<close>

lemma rd_store:
  fixes p :: "byte list"
  assumes d: "rd_done q0 c0 cap ps r" and c0: "length c0 \<le> cap"
  defines "r' \<equiv> put_all rd_put p r"
  shows "rd_done q0 c0 cap (ps @ [p]) (r'\<lparr>rd_size_readed := rd_size_readed r' + length p\<rparr>)"
proof -
  from d have w: "rd_buf_wf r" and c: "rd_max_data_count r = cap" and ck: "length (rd_checksum r) = 4"
    and it: "rd_items r = take cap (c0 @ concat ps)" and sz: "rd_size_readed r = length (concat ps)"
    by (auto simp: rd_done_def)
  from rb.put_all_items [OF w rd_fits, of p] have p: "rd_buf_wf r'" "rd_max_data_count r' = cap"
    "rd_items r' = take cap (c0 @ concat ps) @ take (cap - length (take cap (c0 @ concat ps))) p"
    using c it by (auto simp: r'_def)
  have "rd_items r' = take cap (c0 @ concat (ps @ [p]))"
    unfolding p(3) by (simp add: min_def)
  moreover note rd_rest_fields(3,9) [OF rd_put_rest, of p r, folded r'_def]
  ultimately show ?thesis
    using p(1,2) ck sz by (simp add: rd_done_def rd_buf_wf_def rd_items_def)
qed

lemma rd_inv_sum:
  assumes i: "rd_inv hist H0 q0 c0 cap WAITCHECKSUM_RDST RCVBYTE_RDEVT s" and c0: "length c0 \<le> cap"
    and f: "rd_rcv_checksum_byte s = Some (s', ev')"
  shows "rd_inv hist H0 q0 c0 cap WAITCHECKSUM_RDST ev' s'"
proof -
  have nx: "WAITCHECKSUM_RDST \<in> rd_framed" by (simp add: rd_framed_def)
  from i nx obtain t part ps where j: "records hist (ct_user s)"
    "sys_hist hist s = H0 @ t @ map Got (part @ [rd_byte_rcv (rds s)])"
    "accepted q0 t ps" "rd_next_seqno (rds s) = q0 + of_nat (length ps)"
    "rd_done q0 c0 cap ps (rds s)" "rd_at WAITCHECKSUM_RDST part (dmodem_frame (ct_user s)) (rds s)"
    by (rule rd_inv_framed)
  define r1 where "r1 = (rds s)\<lparr>rd_checksum := (rd_checksum (rds s))[rd_pchecksum (rds s) := rd_byte_rcv (rds s)],
    rd_pchecksum := Suc (rd_pchecksum (rds s))\<rparr>"
  define s1 where "s1 = upd_rd (\<lambda>_. r1) s"
  define n where "n = rd_curr_bytes_readed (rds s)"
  have l4: "length (rd_checksum (rds s)) = 4" using j(5) by (simp add: rd_done_def)
  note st = rd_step_sum [OF j(6) l4, folded r1_def]
  have d1: "rd_done q0 c0 cap ps r1"
    using j(5) by (simp add: r1_def rd_done_def rd_buf_wf_def rd_items_def)
  have rec1: "records hist (ct_user s1)" using j(1) by (simp add: s1_def records_def)
  show ?thesis
  proof (cases "rd_pchecksum r1 = 4")
    case False
    with f have s': "s' = s1" "ev' = NO_EVT"
      by (auto simp: rd_rcv_checksum_byte_def Let_def s1_def r1_def elim!: bind_SomeE)
    show ?thesis unfolding s'
      by (rule rd_invI [OF rec1 _ j(3) _ _ rd_now_at [OF nx]])
        (use j st(1) [OF False] d1 in \<open>simp_all add: s1_def r1_def\<close>)
  next
    case True
    define p where "p = take n (dmodem_frame (ct_user s))"
    have lp: "length p = n" "0 < n" "n \<le> 512" using st(3-5) by (auto simp: p_def n_def)
    have n1: "rd_curr_bytes_readed r1 = n" by (simp add: r1_def n_def)
    have ck: "get_dmchecksum (dmodem_frame (ct_user s)) n = Some (crc32 p)"
      using st(3-5) by (simp add: get_dmchecksum_def p_def n_def)
    have w1: "rd_write_data p s1 = Some (upd_rd (put_all rd_put p) s1)"
      by (rule rd_write_data_put) (use d1 in \<open>simp add: s1_def rd_done_def\<close>)
    define r2 where "r2 = (put_all rd_put p r1)\<lparr>rd_size_readed := rd_size_readed (put_all rd_put p r1) + length p\<rparr>"
    have l1: "length (rd_checksum r1) = 4" using l4 by (simp add: r1_def)
    then obtain a b c d where abcd: "rd_checksum r1 = [a, b, c, d]"
      by (metis length_4)
    define good where "good \<longleftrightarrow> crc32 p = le32 a b c d"
    have out: "if good then s' = upd_rd (\<lambda>_. r2) s \<and> ev' \<in> {MOREFRAMES_RDEVT, NOMOREFRAMES_RDEVT}
        else s' = s1 \<and> ev' = BADFRAME_RDEVT"
    proof -
      have "rd_curr_bytes_readed (put_all rd_put p r1) = n"
        using rd_rest_fields(4) [OF rd_put_rest] n1 by simp
      moreover have "rd_rcv_checksum_byte s = (if crc32 p \<noteq> le32 a b c d then Some (s1, BADFRAME_RDEVT)
        else do {
         s \<leftarrow> rd_write_data p s1;
         let s = upd_rd (\<lambda>c. c\<lparr>rd_size_readed := rd_size_readed c + rd_curr_bytes_readed c\<rparr>) s;
         if rd_curr_bytes_readed (rds s) < max_data_size (conf s) then Some (s, NOMOREFRAMES_RDEVT)
         else if rd_size_readed (rds s) \<ge> rd_size_to_read (rds s)
             \<or> (flags (conf s)) AND O_DMODEM_SPRD_NONBLOCK \<noteq> 0
           then Some (s, NOMOREFRAMES_RDEVT)
           else Some (s, MOREFRAMES_RDEVT)
       })"
        using True l4 ck abcd n1 p_def
        by (simp add: rd_rcv_checksum_byte_def Let_def s1_def r1_def guard_ok_def n_def)
      ultimately show ?thesis
        using f w1 lp by (auto simp: good_def s1_def r2_def Let_def split: if_splits)
    qed
    show ?thesis
    proof (cases good)
      case False
      with out have s': "s' = s1" "ev' = BADFRAME_RDEVT" by auto
      show ?thesis unfolding s'
        by (rule rd_invI [OF rec1 _ j(3) _ _ rd_now_noise [OF nx], where part = "part @ [rd_byte_rcv (rds s)]"])
          (use j d1 in \<open>simp_all add: s1_def r1_def\<close>)
    next
      case True
      with out have s': "s' = upd_rd (\<lambda>_. r2) s" "ev' \<in> {MOREFRAMES_RDEVT, NOMOREFRAMES_RDEVT}" by auto
      have "bytes32 (crc32 p) = rd_checksum r1"
        using True unfolding good_def abcd by (simp only: bytes32_le32)
      then obtain c1 c2 where fr: "part @ [rd_byte_rcv (rds s)] = dmframe c1 c2 (rd_next_seqno (rds s)) p"
        using st(2) [OF \<open>rd_pchecksum r1 = 4\<close>] by (auto simp: p_def n_def)
      have d2: "rd_done q0 c0 cap (ps @ [p]) r2" unfolding r2_def by (rule rd_store [OF d1 c0])
      have nx2: "rd_next_seqno r2 = rd_next_seqno (rds s)"
        using rd_rest_fields(5) [OF rd_put_rest, of p r1] by (simp add: r2_def r1_def)
      have "records hist (ct_user s')" using j(1) by (simp add: s' records_def)
      moreover have "sys_hist hist s' = H0 @ t @ map Got (part @ [rd_byte_rcv (rds s)])"
        using j(2) by (simp add: s')
      moreover have "rd_next_seqno (rds s') = q0 + of_nat (length ps)" using j(4) nx2 by (simp add: s')
      moreover have "\<exists>c1 c2 p. part @ [rd_byte_rcv (rds s)] = dmframe c1 c2 (rd_next_seqno (rds s')) p \<and>
          0 < length p \<and> length p \<le> 512 \<and> rd_done q0 c0 cap (ps @ [p]) (rds s')"
        using fr d2 lp nx2 by (auto simp: s')
      ultimately show ?thesis
        using j(3) s'(2) unfolding rd_inv_def by (intro conjI exI) auto
    qed
  qed
qed

text \<open>The acknowledgement of a stored frame.\<close>

lemma rd_inv_ack:
  assumes i: "rd_inv hist H0 q0 c0 cap WAITCHECKSUM_RDST ev s" "ev \<in> {MOREFRAMES_RDEVT, NOMOREFRAMES_RDEVT}"
    and s1: "rds s1 = rds s" "uplayer_data (ct_user s1) = uplayer_data (ct_user s)"
      "records hist (ct_user s1) = records hist (ct_user s)"
    and snd: "line_send ack_bytes s1 = (s2, r)"
    and s': "rds s' = (rds s2)\<lparr>rd_next_seqno := rd_next_seqno (rds s2) + 1\<rparr>"
      "uplayer_data (ct_user s') = uplayer_data (ct_user s2)"
      "records hist (ct_user s') = records hist (ct_user s2)"
  shows "records hist (ct_user s') \<and> rd_post hist H0 q0 c0 cap s'"
proof -
  from i obtain t part ps c1 c2 p where j: "records hist (ct_user s)"
    "sys_hist hist s = H0 @ t @ map Got part" "accepted q0 t ps"
    "rd_next_seqno (rds s) = q0 + of_nat (length ps)"
    "part = dmframe c1 c2 (rd_next_seqno (rds s)) p" "0 < length p" "length p \<le> 512"
    "rd_done q0 c0 cap (ps @ [p]) (rds s)"
    unfolding rd_inv_def by auto
  note a = rd_answer_spec [OF snd]
  have "accepted q0 (t @ map Got part @ [Sent ack_bytes]) (ps @ [p])"
    using accepted.frame [OF j(3,6,7), of c1 c2] j(4,5) by simp
  moreover have "sys_hist hist s' = H0 @ (t @ map Got part @ [Sent ack_bytes])"
    using a(6) [of hist] s1 s' j(1,2) by simp
  moreover have "rd_done q0 c0 cap (ps @ [p]) (rds s')"
    using j(8) s'(1) a(1) s1(1) by (simp add: rd_done_def rd_buf_wf_def rd_items_def)
  moreover have "rd_next_seqno (rds s') = q0 + of_nat (length (ps @ [p]))"
    using s'(1) a(1) s1(1) j(4) by simp
  ultimately show ?thesis using j(1) s1(3) s'(3) a(5) unfolding rd_post_def by blast
qed

lemma rd_post_loose:
  assumes "records hist (ct_user s)" "rd_post hist H0 q0 c0 cap s" "nx \<in> rd_loose"
  shows "rd_inv hist H0 q0 c0 cap nx NO_EVT s"
proof -
  from assms(2) obtain t ps where j: "sys_hist hist s = H0 @ t @ map Got []" "accepted q0 t ps"
    "rd_next_seqno (rds s) = q0 + of_nat (length ps)" "rd_done q0 c0 cap ps (rds s)"
    by (auto simp: rd_post_def)
  show ?thesis
    by (rule rd_invI [OF assms(1) j rd_now_loose [OF assms(3)]]) (use assms(3) in \<open>auto simp: rd_loose_def\<close>)
qed

lemma rd_inv_post:
  assumes i: "rd_inv hist H0 q0 c0 cap st ev s"
    and ev: "\<not> (st = WAITCHECKSUM_RDST \<and> ev \<in> {MOREFRAMES_RDEVT, NOMOREFRAMES_RDEVT})"
    and s': "rd_frame_only (rds s) (rds s')" "uplayer_data (ct_user s') = uplayer_data (ct_user s)"
  shows "rd_post hist H0 q0 c0 cap s'"
proof -
  from i ev obtain t part ps where j: "records hist (ct_user s)" "sys_hist hist s = H0 @ t @ map Got part"
    "accepted q0 t ps" "rd_next_seqno (rds s) = q0 + of_nat (length ps)"
    "rd_done q0 c0 cap ps (rds s)"
    by (rule rd_invE)
  have "accepted q0 (t @ map Got part) ps" using j(3) by (rule accepted_bytes)
  moreover have "sys_hist hist s' = H0 @ (t @ map Got part)" using j(2) s'(2) by simp
  moreover have "rd_done q0 c0 cap ps (rds s')" using j(5) rd_done_frame_only [OF s'(1)] by simp
  moreover have "rd_next_seqno (rds s') = q0 + of_nat (length ps)" using j(4) s'(1) by (simp add: rd_frame_only_def)
  ultimately show ?thesis unfolding rd_post_def by blast
qed

lemma rd_frame_only_refl [simp]: "rd_frame_only r r"
  by (simp add: rd_frame_only_def)

lemma rd_inv_retrans:
  assumes i: "rd_inv hist H0 q0 c0 cap st ev s" and ev: "ev \<in> {BADFRAME_RDEVT, RXBYTETO_RDEVT}"
    and f: "rd_prepare_retrans s = Some (s', ev')"
  shows "rd_inv hist H0 q0 c0 cap CTRLRETRANS_RDST ev' s'"
proof -
  from i ev obtain t part ps where j: "records hist (ct_user s)" "sys_hist hist s = H0 @ t @ map Got part"
    "accepted q0 t ps" "rd_next_seqno (rds s) = q0 + of_nat (length ps)"
    "rd_done q0 c0 cap ps (rds s)" "rd_now st ev part (dmodem_frame (ct_user s)) (rds s)"
    by - (erule rd_invE, auto)
  have s': "s' = upd_rd (\<lambda>c. c\<lparr>rd_retrans_no := rd_retrans_no c + 1\<rparr>) s"
    and ev': "ev' \<in> {MORERETRANS_RDEVT, NOMORERETRANS_RDEVT}"
    using f by (auto simp: rd_prepare_retrans_def Let_def split: if_splits)
  have now: "rd_now CTRLRETRANS_RDST ev' part (dmodem_frame (ct_user s')) (rds s')"
    using ev' by (simp add: rd_now_def)
  have fo: "rd_frame_only (rds s) (rds s')" by (simp add: s' rd_frame_only_def)
  show ?thesis
    by (rule rd_invI [OF _ _ j(3) _ _ now])
      (use j(1,2,4,5) rd_done_frame_only [OF fo] in \<open>simp_all add: s' records_def\<close>)
qed

lemma rd_send_eq:
  "rd_send_ack s = (case line_send ack_bytes s of (s1, r) \<Rightarrow>
     Some (upd_stat (\<lambda>c. c\<lparr>rxacks := rxacks c + 1\<rparr>) s1, NO_EVT))"
  "rd_send_nack s = (case line_send nack_bytes s of (s1, r) \<Rightarrow>
     Some (upd_stat (\<lambda>c. c\<lparr>rxnaks := rxnaks c + 1\<rparr>) s1, NO_EVT))"
  "rd_more_frames s = (case line_send ack_bytes s of (s1, r) \<Rightarrow>
     Some (upd_rd (\<lambda>c. c\<lparr>rd_next_seqno := rd_next_seqno c + 1\<rparr>) s1, NO_EVT))"
  by (simp_all add: rd_send_ack_def rd_send_nack_def rd_more_frames_def send_ack_def send_nack_def
      ack_bytes_def nack_bytes_def Let_def)

lemma rd_inv_answered:
  assumes i: "rd_inv hist H0 q0 c0 cap st ev s" and st: "st \<noteq> WAITCHECKSUM_RDST"
    and bs: "bs = ack_bytes \<or> bs = nack_bytes"
    and g: "(case line_send bs s of (s1, r) \<Rightarrow> Some (upd_stat g s1, NO_EVT)) = Some (s', ev')"
  shows "records hist (ct_user s') \<and> rd_post hist H0 q0 c0 cap s' \<and> ev' = NO_EVT"
proof -
  obtain s1 r where l: "line_send bs s = (s1, r)" by fastforce
  with g have s': "s' = upd_stat g s1" "ev' = NO_EVT" by simp_all
  have "rds s' = rds s1" "uplayer_data (ct_user s') = uplayer_data (ct_user s1)"
    "records hist (ct_user s') = records hist (ct_user s1)"
    by (simp_all add: s' records_def)
  from rd_inv_answer [OF i st l bs this] s'(2) show ?thesis by (auto simp: rd_post_def)
qed

lemma rd_inv_synthetic:
  assumes i: "rd_inv hist H0 q0 c0 cap st ev s" "st \<noteq> WAITCHECKSUM_RDST"
    and nx: "nx \<in> {SYNCOMPRCV_RDST, EOTCOMPRCV_RDST}" and ev': "ev' \<in> rd_poll_events"
    and s': "rds s' = rds s" "uplayer_data (ct_user s') = uplayer_data (ct_user s)"
      "records hist (ct_user s') = records hist (ct_user s)"
  shows "rd_inv hist H0 q0 c0 cap nx ev' s'"
proof -
  from i obtain t part ps where j: "records hist (ct_user s)" "sys_hist hist s = H0 @ t @ map Got part"
    "accepted q0 t ps" "rd_next_seqno (rds s) = q0 + of_nat (length ps)"
    "rd_done q0 c0 cap ps (rds s)"
    by - (erule rd_invE, simp, blast)
  have "rd_now nx ev' part (dmodem_frame (ct_user s')) (rds s')"
    using nx ev' by (auto simp: rd_now_def rd_loose_def)
  with j s' show ?thesis by (intro rd_invI [OF _ _ j(3)]) (use nx in auto)
qed

lemma rd_inv_row:
  assumes i: "rd_inv hist H0 q0 c0 cap st ev s" and c0: "length c0 \<le> cap"
    and row: "first_row rd_transitions st ev = Some (nx, f)" and f: "f s = Some (s', ev')"
  shows "if nx = EXIT_ST then rd_post hist H0 q0 c0 cap s' else rd_inv hist H0 q0 c0 cap nx ev' s'"
  using row
proof (cases rule: rd_row_cases)
  case soh
  with f i rd_inv_soh show ?thesis by auto
next
  case skip
  with f have "s' = s" "ev' = NO_EVT" by (auto simp: rd_none_def)
  with skip i rd_inv_skip [OF _ skip(3)] show ?thesis by auto
next
  case loose
  then have "s' = s" "ev' = NO_EVT"
    using f by (auto simp: rd_none_def rd_discard_byte_def rd_discard_retrans_def)
  moreover have "nx \<noteq> EXIT_ST" using loose(2) by (auto simp: rd_loose_def)
  ultimately show ?thesis using rd_inv_loose [OF i loose(3,2)] by simp
next
  case reack
  then have "st \<noteq> WAITCHECKSUM_RDST" and nx: "nx \<in> rd_loose" by (auto simp: rd_loose_def)
  from rd_inv_answered [OF i this(1) _ f [unfolded reack(1) rd_send_eq]] have
    "records hist (ct_user s') \<and> rd_post hist H0 q0 c0 cap s' \<and> ev' = NO_EVT" by blast
  with rd_post_loose nx reack show ?thesis by auto
next
  case nack
  then have "st \<noteq> WAITCHECKSUM_RDST" and nx: "nx \<in> rd_loose" by (auto simp: rd_loose_def)
  from rd_inv_answered [OF i this(1) _ f [unfolded nack(1) rd_send_eq]] have
    "records hist (ct_user s') \<and> rd_post hist H0 q0 c0 cap s' \<and> ev' = NO_EVT" by blast
  with rd_post_loose nx nack show ?thesis by auto
next
  case retrans
  with f rd_inv_retrans [OF i retrans(3)] show ?thesis by auto
next
  case timeout
  with f have "s' = SET_GLOBAL_ERROR EDMODEM_RXUPLAYER_TO s" by (auto simp: rd_exit_rxuplayerto_def)
  with timeout rd_inv_post [OF i] show ?thesis by (auto simp: SET_GLOBAL_ERROR_def)
next
  case seqno
  with f i rd_inv_seqno show ?thesis by auto
next
  case seqnocomp
  with f i rd_inv_seqnocomp show ?thesis by auto
next
  case len0
  with f i rd_inv_len0 show ?thesis by auto
next
  case len1
  with f i rd_inv_len1 show ?thesis by auto
next
  case len0comp
  with f i rd_inv_len0comp show ?thesis by auto
next
  case len1comp
  with f i rd_inv_len1comp show ?thesis by auto
next
  case payload
  with f i rd_inv_payload show ?thesis by auto
next
  case paid
  with f have "s' = s" "ev' = NO_EVT" by (auto simp: rd_none_def)
  with paid i rd_inv_paid show ?thesis by auto
next
  case sum
  with f i rd_inv_sum [OF _ c0] show ?thesis by auto
next
  case more
  obtain s2 r where l: "line_send ack_bytes s = (s2, r)" by fastforce
  from more(1) f l have s': "s' = upd_rd (\<lambda>c. c\<lparr>rd_next_seqno := rd_next_seqno c + 1\<rparr>) s2" "ev' = NO_EVT"
    by (auto simp: rd_send_eq)
  have "records hist (ct_user s') \<and> rd_post hist H0 q0 c0 cap s'"
    using i more(2,3) by (intro rd_inv_ack [OF _ _ refl refl refl l]) (auto simp: s' records_def)
  with rd_post_loose [of hist s' H0 q0 c0 cap nx] more s'(2) show ?thesis by (simp add: rd_loose_def)
next
  case finish
  have "stop_timer rxuplayer_timer s \<noteq> None"
    using f by (rule contrapos_pn) (simp add: finish(1) rd_exit_ok_def)
  then obtain s1 where t: "stop_timer rxuplayer_timer s = Some s1" by blast
  have u: "ct_user s1 = ct_user s" using stop_timer_frame [OF t] by simp
  obtain s2 r where l: "line_send ack_bytes s1 = (s2, r)" by fastforce
  have s': "s' = upd_rd (\<lambda>c. c\<lparr>rd_next_seqno := rd_next_seqno c + 1\<rparr>)
      (upd_stat (\<lambda>c. c\<lparr>rxacks := rxacks c + 1\<rparr>) s2)"
    using f unfolding finish(1) rd_exit_ok_def t rd_send_eq by (simp add: l)
  have "rd_post hist H0 q0 c0 cap s'"
    by (rule rd_inv_ack [THEN conjunct2, OF i [unfolded finish(2)] _ _ _ _ l])
      (simp_all add: finish(3) u s' records_def)
  with finish show ?thesis by simp
next
  case giveup
  then obtain s1 where "stop_timer rxuplayer_timer s = Some s1" "s' = SET_GLOBAL_ERROR EDMODEM_MAXRETRIES s1"
    using f by (auto simp: rd_exit_retrans_def elim!: bind_SomeE)
  then have "rds s' = rds s" "uplayer_data (ct_user s') = uplayer_data (ct_user s)"
    using stop_timer_frame [of rxuplayer_timer s s1] by (auto simp: SET_GLOBAL_ERROR_def)
  with giveup rd_inv_post [OF i] show ?thesis by auto
next
  case syn
  have "rds s' = rds s" "uplayer_data (ct_user s') = uplayer_data (ct_user s)"
    "records hist (ct_user s') = records hist (ct_user s)" "ev' = RCVBYTE_RDEVT"
    using syn(1) f
    by (auto simp: rd_syn_comp_rcv_def mod_ctimer_def TAKE_MUTEX_def RELEASE_MUTEX_def records_def
        elim!: bind_SomeE split: if_splits option.splits)
  with rd_inv_synthetic [OF i, of SYNCOMPRCV_RDST ev' s'] syn have "rd_inv hist H0 q0 c0 cap SYNCOMPRCV_RDST ev' s'"
    by (simp add: rd_poll_events_def)
  with syn show ?thesis by simp
next
  case eot
  then have "s' = s" "ev' \<in> rd_poll_events"
    using f by (auto simp: rd_eot_comp_rcv_def rd_poll_events_def split: if_splits)
  with rd_inv_synthetic [OF i, of EOTCOMPRCV_RDST ev' s'] eot have "rd_inv hist H0 q0 c0 cap EOTCOMPRCV_RDST ev' s'"
    by simp
  with eot show ?thesis by simp
next
  case eof
  have "stop_timer rxuplayer_timer s \<noteq> None"
    using f by (rule contrapos_pn) (simp add: eof(1) rd_send_eof_ack_def)
  then obtain s1 where t: "stop_timer rxuplayer_timer s = Some s1" by blast
  have u: "ct_user s1 = ct_user s" using stop_timer_frame [OF t] by simp
  have i1: "rd_inv hist H0 q0 c0 cap EOTCOMPRCV_RDST RCVBYTE_RDEVT s1"
    using i u eof(2,3) by (simp add: rd_inv_def)
  from eof(1) f t obtain s2 e where s2: "rd_send_ack s1 = Some (s2, e)" "s' = SET_GLOBAL_ERROR EDMODEM_EOT s2"
    by (auto simp: rd_send_eof_ack_def elim!: bind_SomeE)
  from rd_inv_answered [OF i1 _ _ s2(1) [unfolded rd_send_eq]] have "rd_post hist H0 q0 c0 cap s2"
    by simp
  then have "rd_post hist H0 q0 c0 cap s'" by (simp add: s2(2) rd_post_def SET_GLOBAL_ERROR_def)
  with eof show ?thesis by simp
qed

text \<open>Every event that can be pending has a row.\<close>

definition rd_keys :: "(int \<times> int) set" where
  "rd_keys = rd_loose \<times> {RCVBYTE_RDEVT, RXBYTETO_RDEVT, RXUPLAYERTO_RDEVT}
     \<union> rd_framed \<times> {RCVBYTE_RDEVT, BADFRAME_RDEVT, RXBYTETO_RDEVT, RXUPLAYERTO_RDEVT}
     \<union> {CTRLRETRANS_RDST} \<times> {MORERETRANS_RDEVT, NOMORERETRANS_RDEVT}
     \<union> {WAITCTRL0_RDST} \<times> {NOTSOH_RDEVT, SYN_RDEVT, EOT_RDEVT}
     \<union> {(WAITSEQCOMP_RDST, RETRANS_RDEVT), (WAITPAYLOAD_RDST, PAYLOADRCV_RDEVT),
        (WAITCHECKSUM_RDST, MOREFRAMES_RDEVT), (WAITCHECKSUM_RDST, NOMOREFRAMES_RDEVT)}"

lemma first_row_None: "first_row sm st ev = None \<longleftrightarrow> (st, ev) \<notin> set (map (\<lambda>p. (current_state p, event p)) sm)"
  by (induction sm) auto

lemma rd_keys_row: "(st, ev) \<in> rd_keys \<Longrightarrow> first_row rd_transitions st ev \<noteq> None"
proof -
  have "rd_keys \<subseteq> set (map (\<lambda>p. (current_state p, event p)) rd_transitions)"
    unfolding rd_keys_def rd_framed_def rd_loose_def rd_transitions_def by simp
  then show "(st, ev) \<in> rd_keys \<Longrightarrow> first_row rd_transitions st ev \<noteq> None"
    unfolding first_row_None by blast
qed

lemma rd_now_keys: "rd_now st ev part frm r \<Longrightarrow> ev \<noteq> NO_EVT \<Longrightarrow> (st, ev) \<in> rd_keys"
  by (cases "st = CTRLRETRANS_RDST"; cases "st \<in> rd_loose")
    (auto simp: rd_now_def rd_keys_def rd_poll_events_def split: if_split_asm)

lemma rd_inv_drop:
  assumes i: "rd_inv hist H0 q0 c0 cap st ev s" and ev: "ev \<noteq> NO_EVT"
  shows "first_row rd_transitions st ev \<noteq> None"
proof (cases "st = WAITCHECKSUM_RDST \<and> ev \<in> {MOREFRAMES_RDEVT, NOMOREFRAMES_RDEVT}")
  case True
  then show ?thesis by (intro rd_keys_row) (auto simp: rd_keys_def)
next
  case False
  with i obtain part where "rd_now st ev part (dmodem_frame (ct_user s)) (rds s)"
    by (rule rd_invE)
  with ev show ?thesis by (intro rd_keys_row rd_now_keys)
qed

subsection \<open>The receiver offers the engine's interface\<close>

definition rd_holds ::
  "('w \<Rightarrow> io list) \<Rightarrow> io list \<Rightarrow> byte \<Rightarrow> byte list \<Rightarrow> nat \<Rightarrow> int \<Rightarrow> int \<Rightarrow> 'w dm_sys \<Rightarrow> bool" where
  "rd_holds hist H0 q0 c0 cap st ev s \<longleftrightarrow> length c0 \<le> cap \<and> rd_inv hist H0 q0 c0 cap st ev s"

lemma rd_states_valid: "states_valid rd_transitions"
  by (simp add: states_valid_def rd_transitions_def)

interpretation rd: proto_machine rd_transitions rd_wait_event NO_EVT EXIT_ST
  "rd_holds hist H0 q0 c0 cap" "rd_post hist H0 q0 c0 cap" for hist H0 q0 c0 cap
proof unfold_locales
  fix st ev s nx s' ev' and f :: "'a dm_sys handler"
  show "states_valid rd_transitions" by (rule rd_states_valid)
  show "rd_holds hist H0 q0 c0 cap st ev s'"
    if "rd_holds hist H0 q0 c0 cap st NO_EVT s" "rd_wait_event s = Some (s', ev)"
    using that rd_inv_wait unfolding rd_holds_def by blast
  show "if nx = EXIT_ST then rd_post hist H0 q0 c0 cap s' else rd_holds hist H0 q0 c0 cap nx ev' s'"
    if "rd_holds hist H0 q0 c0 cap st ev s" "first_row rd_transitions st ev = Some (nx, f)"
      "f s = Some (s', ev')"
    using rd_inv_row [OF _ _ that(2,3)] that(1) by (simp add: rd_holds_def)
  show "rd_holds hist H0 q0 c0 cap st NO_EVT s"
    if "rd_holds hist H0 q0 c0 cap st ev s" "ev \<noteq> NO_EVT" "first_row rd_transitions st ev = None"
    using rd_inv_drop [OF _ that(2)] that(1,3) unfolding rd_holds_def by blast
qed

text \<open>What the connection's state must look like between calls.\<close>

definition rd_ready :: "'w dm_sys \<Rightarrow> bool" where
  "rd_ready s \<longleftrightarrow> rd_buf_wf (rds s) \<and> length (rd_checksum (rds s)) = 4"

abbreviation rd_buffered :: "'w dm_sys \<Rightarrow> byte list" where
  "rd_buffered s \<equiv> rd_items (rds s)"

lemma rd_start_holds:
  assumes "rd_init s = Some (s', rv)" "records hist (ct_user s)" "rd_ready s"
  shows "rd_holds hist (sys_hist hist s) (rd_next_seqno (rds s)) (rd_buffered s)
    (rd_max_data_count (rds s)) WAITSOH_RDST NO_EVT (upd_rd (\<lambda>c. c\<lparr>rd_size_to_read := sz\<rparr>) s')"
proof -
  have w: "rd_buf_wf (rds s)" "length (rd_checksum (rds s)) = 4" using assms(3) by (auto simp: rd_ready_def)
  have le: "length (rd_buffered s) \<le> rd_max_data_count (rds s)" by (rule rb.bounded [OF w(1)])
  define s1 where "s1 = upd_rd (\<lambda>c. c\<lparr>rd_ppayload := 0, rd_size_readed := 0, rd_retrans_no := 0,
        rd_rxuplayer_timer_expired := False\<rparr>) s"
  define s2 where "s2 = set_expires rxuplayer_timer (ct_ticks s1 + rxuplayer_to (conf s1) * 10)
      (set_period rxuplayer_timer (rxuplayer_to (conf s1) * 10) s1)"
  have "start_timer rxuplayer_timer s2 = Some s'"
    using assms(1) by (auto simp: rd_init_def Let_def s1_def s2_def elim!: bind_SomeE)
  from start_timer_frame [OF this] have u: "ct_user s' = ct_user s1" by (simp add: s2_def)
  let ?s = "upd_rd (\<lambda>c. c\<lparr>rd_size_to_read := sz\<rparr>) s'"
  have "rd_now WAITSOH_RDST NO_EVT [] (dmodem_frame (ct_user ?s)) (rds ?s)"
    by (rule rd_now_loose) (simp add: rd_loose_def)
  moreover have "rd_done (rd_next_seqno (rds s)) (rd_buffered s) (rd_max_data_count (rds s)) [] (rds ?s)"
    using w le by (simp add: rd_done_def u s1_def rd_buf_wf_def rd_items_def)
  ultimately have "rd_inv hist (sys_hist hist s) (rd_next_seqno (rds s)) (rd_buffered s)
      (rd_max_data_count (rds s)) WAITSOH_RDST NO_EVT ?s"
    by (intro rd_invI [where t = "[]" and part = "[]" and ps = "[]"])
      (use assms(2) accepted.start in \<open>simp_all add: u s1_def records_def\<close>)
  with le show ?thesis by (simp add: rd_holds_def)
qed

lemma rd_give:
  assumes "rd_buf_wf (rds s)" "rd_read_data n s = Some (s', bs)"
  shows "bs = take n (rd_buffered s)" "rd_buffered s' = drop n (rd_buffered s)"
    "rd_next_seqno (rds s') = rd_next_seqno (rds s)" "uplayer_data (ct_user s') = uplayer_data (ct_user s)"
    "rd_buf_wf (rds s')" "length (rd_checksum (rds s')) = length (rd_checksum (rds s))"
    "dm_global_error (ct_user s') = dm_global_error (ct_user s)"
proof -
  obtain ys r where g: "get_upto rd_get n (rds s) = (ys, r)" by fastforce
  with rd_read_data_get [OF assms(1), of n] assms(2) have s': "s' = upd_rd (\<lambda>_. r) s" "bs = ys" by auto
  note rest = rd_rest_fields [OF rd_get_rest, of n "rds s", unfolded g snd_conv]
  from rb.get_upto_items [OF assms(1) g] rest s' show
    "bs = take n (rd_buffered s)" "rd_buffered s' = drop n (rd_buffered s)"
    "rd_next_seqno (rds s') = rd_next_seqno (rds s)" "uplayer_data (ct_user s') = uplayer_data (ct_user s)"
    "rd_buf_wf (rds s')" "length (rd_checksum (rds s')) = length (rd_checksum (rds s))"
    "dm_global_error (ct_user s') = dm_global_error (ct_user s)" by auto
qed

lemma rd_clean_user: "rd_clean_curr_state s = Some s' \<Longrightarrow> ct_user s' = ct_user s"
  using stop_timer_frame [of rxuplayer_timer s s'] by (simp add: rd_clean_curr_state_def)

text \<open>The three ways out of a read.\<close>

lemma dmodem_read_cases:
  assumes "dmodem_read fuel sz s = Done s' bs" "rd_ready s"
  obtains (buffered) "rd_read_data sz (CLEAR_GLOBAL_ERROR s) = Some (s', bs)"
      "sz \<le> rd_data_count (rds s) \<or> rd_data_count (rds s) \<noteq> 0"
  | (engine) s1 s2 rv where "rd_init (CLEAR_GLOBAL_ERROR s) = Some (s1, rv)"
      "proto_engine rd_transitions rd_wait_event rd_clean_curr_state NO_EVT WAITSOH_RDST EXIT_ST fuel
         (upd_rd (\<lambda>c. c\<lparr>rd_size_to_read := sz\<rparr>) s1) = Returned s2"
      "rd_read_data (rd_size_readed (rds s2)) s2 = Some (s', bs)"
proof (cases "sz \<le> rd_data_count (rds s) \<or>
    rd_data_count (rds s) \<noteq> 0 \<and> (flags (conf s)) AND O_DMODEM_SPRD_NONBLOCK \<noteq> 0")
  case True
  then have "rd_read_data sz (CLEAR_GLOBAL_ERROR s) = Some (s', bs)"
    using assms(1)
    by (auto simp: dmodem_read_def Let_def CLEAR_GLOBAL_ERROR_def split: if_splits option.splits)
  with True buffered show thesis by blast
next
  case False
  have rd: "dmodem_read fuel sz s = (case rd_init (CLEAR_GLOBAL_ERROR s) of None \<Rightarrow> Fault
      | Some (s, rv) \<Rightarrow>
          (let s = upd_rd (\<lambda>c. c\<lparr>rd_size_to_read := sz\<rparr>) s in
           case proto_engine rd_transitions rd_wait_event rd_clean_curr_state
                  NO_EVT WAITSOH_RDST EXIT_ST fuel s of
             Returned s \<Rightarrow> (case rd_read_data (rd_size_readed (rds s)) s of None \<Rightarrow> Fault | Some (s, bs) \<Rightarrow> Done s bs)
           | Crashed \<Rightarrow> Fault | Running _ \<Rightarrow> NotYet))"
    using False unfolding dmodem_read_def Let_def by (auto simp: CLEAR_GLOBAL_ERROR_def)
  from assms(1) [unfolded rd] engine show thesis
    by (auto simp: Let_def split: option.splits engine_result.splits)
qed

text \<open>C5. Integrity of reception: whatever the line delivers, what a read operation returns and
  leaves buffered is what was buffered before followed by the payloads of the frames that arrived
  whole during the call, in the order of their sequence numbers, each with a matching CRC and
  each acknowledged at once; bytes beyond the buffer's capacity are lost from the end, and only
  from there. The next expected sequence number counts exactly these frames.\<close>

theorem dmodem_read_integrity:
  assumes "dmodem_read fuel sz s = Done s' bs" "records hist (ct_user s)" "rd_ready s"
  shows "\<exists>t ps. sys_hist hist s' = sys_hist hist s @ t \<and> accepted (rd_next_seqno (rds s)) t ps \<and>
    bs @ rd_buffered s' = take (rd_max_data_count (rds s)) (rd_buffered s @ concat ps) \<and>
    rd_next_seqno (rds s') = rd_next_seqno (rds s) + of_nat (length ps) \<and> rd_ready s'"
  using assms(1,3)
proof (cases rule: dmodem_read_cases)
  case buffered
  have w: "rd_buf_wf (rds (CLEAR_GLOBAL_ERROR s))" "length (rd_checksum (rds s)) = 4"
    using assms(3) by (simp_all add: rd_ready_def CLEAR_GLOBAL_ERROR_def)
  note g = rd_give [OF w(1) buffered(1)]
  have "take (rd_max_data_count (rds s)) (rd_buffered s) = rd_buffered s"
    using rb.bounded [OF w(1)] by (simp add: CLEAR_GLOBAL_ERROR_def)
  with g w(2) show ?thesis
    by (intro exI [of _ "[]"]) (simp add: accepted.start rd_ready_def CLEAR_GLOBAL_ERROR_def)
next
  case (engine s1 s2 rv)
  let ?q = "rd_next_seqno (rds s)" and ?c = "rd_buffered s" and ?cap = "rd_max_data_count (rds s)"
  have "rd_holds hist (sys_hist hist s) ?q ?c ?cap WAITSOH_RDST NO_EVT
      (upd_rd (\<lambda>c. c\<lparr>rd_size_to_read := sz\<rparr>) s1)"
    using rd_start_holds [OF engine(1), where hist = hist] assms(2,3)
    by (simp add: CLEAR_GLOBAL_ERROR_def records_def rd_ready_def)
  from rd.engine_post [OF this engine(2)] obtain s3 where
    s3: "rd_post hist (sys_hist hist s) ?q ?c ?cap s3" "rd_clean_curr_state s3 = Some s2" .
  from s3(1) rd_clean_user [OF s3(2)] obtain t ps where p: "sys_hist hist s2 = sys_hist hist s @ t"
    "accepted ?q t ps" "rd_next_seqno (rds s2) = ?q + of_nat (length ps)" "rd_done ?q ?c ?cap ps (rds s2)"
    by (auto simp: rd_post_def)
  from p(4) have d: "rd_buf_wf (rds s2)" "length (rd_checksum (rds s2)) = 4"
    "rd_buffered s2 = take ?cap (?c @ concat ps)" by (auto simp: rd_done_def)
  note g = rd_give [OF d(1) engine(3)]
  have "bs @ rd_buffered s' = rd_buffered s2"
    unfolding g(1,2) by (rule append_take_drop_id)
  with d(3) have "bs @ rd_buffered s' = take ?cap (?c @ concat ps)" by simp
  moreover have "rd_ready s'" using g(5,6) d(2) by (simp add: rd_ready_def)
  ultimately show ?thesis
    using p(1-3) g(3,4) by (intro exI [of _ t] exI [of _ ps]) simp
qed

subsection \<open>Reception of a frame\<close>

text \<open>
  A state seen through what the receiver uses of it, on a scripted line with the timer thread
  asleep.
\<close>

definition rd_view :: "wire dm_sys \<Rightarrow> byte list \<Rightarrow> DMReadCurrState \<Rightarrow> wire \<Rightarrow> wire dm_sys" where
  "rd_view s frm r w = upd_h (\<lambda>h. h\<lparr>dmodem_frame := frm, rd_curr_state := r, uplayer_data := w\<rparr>) s"

definition scripted :: "wire dm_sys \<Rightarrow> bool" where
  "scripted s \<longleftrightarrow> ct_sched s = [] \<and> \<not> ct_locked s \<and> send_buf (ct_user s) = script_send \<and>
     rcv_byte (ct_user s) = script_recv \<and> get_dcd_status (ct_user s) = script_dcd"

lemma rd_view_fields [simp]:
  "rds (rd_view s frm r w) = r" "dmodem_frame (ct_user (rd_view s frm r w)) = frm"
  "uplayer_data (ct_user (rd_view s frm r w)) = w" "conf (rd_view s frm r w) = conf s"
  "scripted (rd_view s frm r w) = scripted s"
  "upd_rd (\<lambda>_. r') (rd_view s frm r w) = rd_view s frm r' w"
  by (simp_all add: rd_view_def scripted_def)

abbreviation rd_go :: "nat \<Rightarrow> int \<times> int \<times> wire dm_sys \<Rightarrow> wire dm_sys engine_result" where
  "rd_go \<equiv> proto_run rd_transitions rd_wait_event NO_EVT EXIT_ST"

lemma rd_wait_script:
  "scripted s \<Longrightarrow> rd_wait_event (rd_view s frm r (b # q, n, h)) =
    Some (rd_view s frm (r\<lparr>rd_byte_rcv := b\<rparr>) (q, n, h @ [Got b]), RCVBYTE_RDEVT)"
  by (simp add: rd_wait_event_def scripted_def rd_view_def dm_timers_asleep line_recv_def)

lemma rd_rows:
  "first_row rd_transitions WAITSOH_RDST RCVBYTE_RDEVT = Some (WAITCTRL0_RDST, rd_soh)"
  "first_row rd_transitions WAITCTRL0_RDST RCVBYTE_RDEVT = Some (WAITCTRL1_RDST, rd_none)"
  "first_row rd_transitions WAITCTRL1_RDST RCVBYTE_RDEVT = Some (WAITSEQ_RDST, rd_none)"
  "first_row rd_transitions WAITSEQ_RDST RCVBYTE_RDEVT = Some (WAITSEQCOMP_RDST, rd_seqno)"
  "first_row rd_transitions WAITSEQCOMP_RDST RCVBYTE_RDEVT = Some (WAITLEN0_RDST, rd_seqnocomp)"
  "first_row rd_transitions WAITLEN0_RDST RCVBYTE_RDEVT = Some (WAITLEN1_RDST, rd_len0)"
  "first_row rd_transitions WAITLEN1_RDST RCVBYTE_RDEVT = Some (WAITLEN0COMP_RDST, rd_len1)"
  "first_row rd_transitions WAITLEN0COMP_RDST RCVBYTE_RDEVT = Some (WAITLEN1COMP_RDST, rd_len0comp)"
  "first_row rd_transitions WAITLEN1COMP_RDST RCVBYTE_RDEVT = Some (WAITPAYLOAD_RDST, rd_len1comp)"
  "first_row rd_transitions WAITPAYLOAD_RDST RCVBYTE_RDEVT = Some (WAITPAYLOAD_RDST, rd_rcv_byte)"
  "first_row rd_transitions WAITPAYLOAD_RDST PAYLOADRCV_RDEVT = Some (WAITCHECKSUM_RDST, rd_none)"
  "first_row rd_transitions WAITCHECKSUM_RDST RCVBYTE_RDEVT = Some (WAITCHECKSUM_RDST, rd_rcv_checksum_byte)"
  "first_row rd_transitions WAITCHECKSUM_RDST NOMOREFRAMES_RDEVT = Some (EXIT_ST, rd_exit_ok)"
  by (simp_all add: rd_transitions_def)

definition rd_headed :: "byte \<Rightarrow> ushort \<Rightarrow> DMReadCurrState \<Rightarrow> DMReadCurrState" where
  "rd_headed q len r = r\<lparr>rd_ppayload := 0, rd_retrans_no := 0, rd_pchecksum := 0,
     rd_curr_seqno := q, rd_curr_payload_len := len, rd_byte_rcv := hibyte16 (NOT len),
     rd_curr_payload_len_comp := NOT len, rd_curr_bytes_readed := 0\<rparr>"

lemma le16_sum: "ucast (lobyte16 len) + push_bit 8 (ucast (hibyte16 len)) = (len :: ushort)"
  using le16_bytes [of len] by (simp add: le16_def)

lemma rd_dispatch:
  assumes "first_row rd_transitions st ev = Some (nx, f)" "ev \<noteq> NO_EVT"
  shows "dispatch rd_transitions NO_EVT EXIT_ST st ev s =
    (case f s of None \<Rightarrow> Crashed
     | Some (s', ev') \<Rightarrow> if nx = EXIT_ST then Returned s' else Running (nx, ev', s'))"
proof -
  have "nx \<noteq> -1" using states_validD [OF rd_states_valid assms(1)] .
  with assms show ?thesis by (intro dispatch_row) auto
qed

text \<open>A turn on the next byte of the script, and on a pending event.\<close>

lemma rd_turn_byte:
  "scripted s \<Longrightarrow> proto_turn rd_transitions rd_wait_event NO_EVT EXIT_ST
      (st, NO_EVT, rd_view s frm r (b # q, n, h)) =
    dispatch rd_transitions NO_EVT EXIT_ST st RCVBYTE_RDEVT
      (rd_view s frm (r\<lparr>rd_byte_rcv := b\<rparr>) (q, n, h @ [Got b]))"
  by (simp only: proto_turn_wait rd_wait_script option.case prod.case)

lemmas rd_run_simps = rd_turn_byte [simplified] proto_turn_pending [where ne = NO_EVT, simplified]
  rd_rows [THEN rd_dispatch, simplified]

lemma rd_header_run:
  assumes s: "scripted s" and q: "rd_next_seqno r = q" and len: "unat len \<le> 512"
  shows "rd_go 9 (WAITSOH_RDST, NO_EVT, rd_view s frm r (frame_head c1 c2 q len @ rest, n, h)) =
     Running (WAITPAYLOAD_RDST, NO_EVT,
       rd_view s frm (rd_headed q len r) (rest, n, h @ map Got (frame_head c1 c2 q len)))"
proof -
  have dup: "q \<noteq> q - 1" by simp
  have comp: "unat q + unat (NOT q) = 255" using unat_byte_less [of q] unat_not_byte [of q] by linarith
  show ?thesis
    using s q len dup comp
    by (simp add: frame_head_def rd_run_simps rd_soh_def rd_none_def rd_seqno_def rd_seqnocomp_def
        rd_len0_def rd_len1_def rd_len0comp_def rd_len1comp_def Let_def le16_sum rd_headed_def)
qed

lemma rd_rcv_byte_view:
  "rd_ppayload r < length frm \<Longrightarrow> rd_rcv_byte (rd_view s frm r w) =
    Some (rd_view s (frm[rd_ppayload r := rd_byte_rcv r])
      (r\<lparr>rd_ppayload := rd_ppayload r + 1, rd_curr_bytes_readed := rd_curr_bytes_readed r + 1\<rparr>) w,
     if rd_curr_bytes_readed r + 1 = unat (rd_curr_payload_len r) then PAYLOADRCV_RDEVT else NO_EVT)"
  by (simp add: rd_rcv_byte_def rd_view_def guard_ok_def Let_def)

lemma rd_payload_run:
  assumes s: "scripted s"
  shows "p \<noteq> [] \<Longrightarrow> rd_ppayload r = rd_curr_bytes_readed r \<Longrightarrow>
    rd_curr_bytes_readed r + length p = unat (rd_curr_payload_len r) \<Longrightarrow>
    unat (rd_curr_payload_len r) \<le> length frm \<Longrightarrow>
    rd_go (length p) (WAITPAYLOAD_RDST, NO_EVT, rd_view s frm r (p @ rest, n, h)) =
      Running (WAITPAYLOAD_RDST, PAYLOADRCV_RDEVT,
        rd_view s (take (rd_ppayload r) frm @ p @ drop (unat (rd_curr_payload_len r)) frm)
          (r\<lparr>rd_byte_rcv := last p, rd_ppayload := unat (rd_curr_payload_len r),
             rd_curr_bytes_readed := unat (rd_curr_payload_len r)\<rparr>) (rest, n, h @ map Got p))"
proof (induction p arbitrary: r frm h)
  case Nil
  then show ?case by simp
next
  case (Cons b p)
  let ?k = "rd_ppayload r"
  let ?r = "r\<lparr>rd_byte_rcv := b, rd_ppayload := Suc ?k, rd_curr_bytes_readed := Suc ?k\<rparr>"
  have k: "?k < length frm" "rd_curr_bytes_readed r = ?k" using Cons.prems by auto
  have turn: "proto_turn rd_transitions rd_wait_event NO_EVT EXIT_ST
      (WAITPAYLOAD_RDST, NO_EVT, rd_view s frm r ((b # p) @ rest, n, h)) =
    Running (WAITPAYLOAD_RDST, if p = [] then PAYLOADRCV_RDEVT else NO_EVT,
      rd_view s (frm[?k := b]) ?r (p @ rest, n, h @ [Got b]))"
    using s k Cons.prems(3) by (cases p) (simp_all add: rd_run_simps rd_rcv_byte_view)
  have tk: "take (Suc ?k) (frm[?k := b]) = take ?k frm @ [b]"
    using k(1) by (simp add: take_Suc_conv_app_nth)
  show ?case
  proof (cases "p = []")
    case True
    have "take (Suc ?k) (frm[?k := b]) @ drop (Suc ?k) (frm[?k := b]) = frm[?k := b]"
      by (rule append_take_drop_id)
    then have "frm[?k := b] = take ?k frm @ b # drop (Suc ?k) frm" by (simp add: tk)
    with True Cons.prems(3) k turn show ?thesis by simp
  next
    case False
    have "rd_go (length p) (WAITPAYLOAD_RDST, NO_EVT, rd_view s (frm[?k := b]) ?r (p @ rest, n, h @ [Got b])) =
      Running (WAITPAYLOAD_RDST, PAYLOADRCV_RDEVT,
        rd_view s (take (Suc ?k) (frm[?k := b]) @ p @ drop (unat (rd_curr_payload_len r)) (frm[?k := b]))
          (?r\<lparr>rd_byte_rcv := last p, rd_ppayload := unat (rd_curr_payload_len r),
             rd_curr_bytes_readed := unat (rd_curr_payload_len r)\<rparr>) (rest, n, (h @ [Got b]) @ map Got p))"
      using Cons.IH [OF False, of ?r "frm[?k := b]" "h @ [Got b]"] Cons.prems(3,4) k(2) by simp
    moreover have "drop (unat (rd_curr_payload_len r)) (frm[?k := b]) = drop (unat (rd_curr_payload_len r)) frm"
      using Cons.prems(3) k(2) by (simp add: drop_update_cancel)
    moreover have "rd_go (length (b # p)) (WAITPAYLOAD_RDST, NO_EVT, rd_view s frm r ((b # p) @ rest, n, h)) =
        rd_go (length p) (WAITPAYLOAD_RDST, NO_EVT, rd_view s (frm[?k := b]) ?r (p @ rest, n, h @ [Got b]))"
      using False by (simp only: length_Cons proto_run.simps turn if_False engine_result.case)
    ultimately show ?thesis using False by (simp add: tk)
  qed
qed

lemma rd_sum_byte:
  assumes "rd_pchecksum r < 3" "length (rd_checksum r) = 4"
  shows "rd_rcv_checksum_byte (rd_view s frm r w) = Some (rd_view s frm
    (r\<lparr>rd_checksum := (rd_checksum r)[rd_pchecksum r := rd_byte_rcv r], rd_pchecksum := rd_pchecksum r + 1\<rparr>) w,
    NO_EVT)"
  using assms by (simp add: rd_rcv_checksum_byte_def guard_ok_def Let_def)

definition rd_verdict :: "DModemConfig \<Rightarrow> nat \<Rightarrow> DMReadCurrState \<Rightarrow> int" where
  "rd_verdict cf n r = (if n < max_data_size cf \<or> rd_size_to_read r \<le> rd_size_readed r + n \<or>
       flags cf AND O_DMODEM_SPRD_NONBLOCK \<noteq> 0 then NOMOREFRAMES_RDEVT else MOREFRAMES_RDEVT)"

lemma rd_sum_last:
  assumes "rd_pchecksum r = 3" "length (rd_checksum r) = 4" "rd_buf_wf r"
    and n: "rd_curr_bytes_readed r \<le> length frm" "rd_curr_bytes_readed r \<le> 512"
    and ok: "(rd_checksum r)[3 := rd_byte_rcv r] = bytes32 (crc32 (take (rd_curr_bytes_readed r) frm))"
  shows "\<exists>r'. rd_rcv_checksum_byte (rd_view s frm r w) =
      Some (rd_view s frm r' w, rd_verdict (conf s) (rd_curr_bytes_readed r) r) \<and>
    rd_buf_wf r' \<and> rd_max_data_count r' = rd_max_data_count r \<and>
    rd_items r' = rd_items r @ take (rd_max_data_count r - length (rd_items r)) (take (rd_curr_bytes_readed r) frm) \<and>
    rd_size_readed r' = rd_size_readed r + rd_curr_bytes_readed r \<and> rd_next_seqno r' = rd_next_seqno r \<and>
    rd_size_to_read r' = rd_size_to_read r \<and> length (rd_checksum r') = 4"
proof -
  let ?n = "rd_curr_bytes_readed r"
  let ?p = "take ?n frm"
  define r1 where "r1 = r\<lparr>rd_checksum := (rd_checksum r)[rd_pchecksum r := rd_byte_rcv r], rd_pchecksum := rd_pchecksum r + 1\<rparr>"
  define r2 where "r2 = put_all rd_put ?p r1"
  have w1: "rd_buf_wf r1" "rd_items r1 = rd_items r" "rd_max_data_count r1 = rd_max_data_count r"
    using assms(3) by (simp_all add: r1_def rd_buf_wf_def rd_items_def)
  note rest = rd_rest_fields [OF rd_put_rest, of ?p r1, folded r2_def]
  note put = rb.put_all_items [OF w1(1) rd_fits, of ?p, folded r2_def]
  have w: "rd_write_data ?p (rd_view s frm r1 w) = Some (rd_view s frm r2 w)"
    using rd_write_data_put [of "rd_view s frm r1 w" ?p] w1(1) by (simp add: r2_def)
  have ck: "get_dmchecksum frm ?n = Some (crc32 ?p)" using n by (simp add: get_dmchecksum_def)
  have "crc32 ?p = le32 (rd_checksum r1 ! 0) (rd_checksum r1 ! 1) (rd_checksum r1 ! 2) (rd_checksum r1 ! 3)"
  proof -
    have "rd_checksum r1 = bytes32 (crc32 ?p)" using ok assms(1) by (simp add: r1_def)
    then show ?thesis by (simp add: bytes32_def)
  qed
  moreover have "rd_curr_bytes_readed r1 = ?n" "rd_pchecksum r1 = 4" by (simp_all add: r1_def assms(1))
  ultimately have "rd_rcv_checksum_byte (rd_view s frm r w) = Some (rd_view s frm
      (r2\<lparr>rd_size_readed := rd_size_readed r2 + rd_curr_bytes_readed r2\<rparr>) w, rd_verdict (conf s) ?n r)"
    using assms(1,2) w ck rest(2,3,4)
    by (auto simp: rd_rcv_checksum_byte_def guard_ok_def Let_def r1_def rd_verdict_def)
  then show ?thesis
    using put w1 rest(2,3,4,5,9) assms(1,2) by (intro exI) (auto simp: rd_buf_wf_def rd_items_def r1_def)
qed

lemma rd_view_self: "rd_view s (dmodem_frame (ct_user s)) (rds s) (uplayer_data (ct_user s)) = s"
  by (simp add: rd_view_def)

text \<open>From the header to the last byte but one of the checksum.\<close>

lemma rd_frame_run:
  assumes s: "scripted s" and p: "0 < length p" "length p \<le> 512" "length p \<le> length frm"
    and ck: "length (rd_checksum r) = 4" and q: "rd_next_seqno r = q"
    and cs: "bytes32 (crc32 p) = [k0, k1, k2, k3]"
  shows "\<exists>r' frm'. rd_go (length p + 13)
      (WAITSOH_RDST, NO_EVT, rd_view s frm r (dmframe c1 c2 q p @ rest, n, h)) =
      Running (WAITCHECKSUM_RDST, NO_EVT, rd_view s frm' r' (k3 # rest, n, h @ map Got (butlast (dmframe c1 c2 q p)))) \<and>
    take (length p) frm' = p \<and> length frm' = length frm \<and> rd_pchecksum r' = 3 \<and>
    rd_checksum r' = [k0, k1, k2, rd_checksum r ! 3] \<and> rd_curr_bytes_readed r' = length p \<and>
    rd_size_readed r' = rd_size_readed r \<and> rd_size_to_read r' = rd_size_to_read r \<and>
    rd_next_seqno r' = q \<and>
    rd_buf_wf r' = rd_buf_wf r \<and> rd_items r' = rd_items r \<and> rd_max_data_count r' = rd_max_data_count r"
proof -
  let ?len = "of_nat (length p) :: ushort"
  let ?head = "frame_head c1 c2 q ?len"
  have len: "unat ?len = length p" using p(2) by (simp add: unsigned_of_nat take_bit_nat_eq_self)
  define r1 where "r1 = rd_headed q ?len r"
  define r2 where "r2 = r1\<lparr>rd_byte_rcv := last p, rd_ppayload := length p, rd_curr_bytes_readed := length p\<rparr>"
  define frm2 where "frm2 = p @ drop (length p) frm"
  define r3 where "r3 = r2\<lparr>rd_byte_rcv := k2, rd_checksum := [k0, k1, k2, rd_checksum r ! 3],
    rd_pchecksum := Suc (Suc (Suc 0))\<rparr>"
  let ?x0 = "(WAITSOH_RDST, NO_EVT, rd_view s frm r (dmframe c1 c2 q p @ rest, n, h))"
  let ?x1 = "(WAITPAYLOAD_RDST, NO_EVT, rd_view s frm r1 (p @ k0 # k1 # k2 # k3 # rest, n, h @ map Got ?head))"
  let ?x2 = "(WAITPAYLOAD_RDST, PAYLOADRCV_RDEVT, rd_view s frm2 r2 (k0 # k1 # k2 # k3 # rest, n, h @ map Got (?head @ p)))"
  let ?x3 = "(WAITCHECKSUM_RDST, NO_EVT, rd_view s frm2 r3 (k3 # rest, n, h @ map Got (?head @ p @ [k0, k1, k2])))"
  have "rd_go 9 ?x0 = Running ?x1"
    unfolding dmframe_head cs r1_def append_assoc append_Cons append_Nil by (rule rd_header_run [OF s q]) (simp add: len p(2))
  moreover have "rd_go (length p) ?x1 = Running ?x2"
    using rd_payload_run [OF s, of p r1 frm "k0 # k1 # k2 # k3 # rest" n "h @ map Got ?head"] p len
    by (simp add: r1_def r2_def frm2_def rd_headed_def)
  moreover have "rd_go 4 ?x2 = Running ?x3"
  proof -
    from ck obtain x0 x1 x2 x3 where "rd_checksum r = [x0, x1, x2, x3]" by (metis length_4)
    then show ?thesis
      using s by (simp add: rd_run_simps rd_none_def rd_sum_byte r3_def r2_def r1_def rd_headed_def)
  qed
  moreover have "length p + 13 = 9 + (length p + 4)" by simp
  ultimately have "rd_go (length p + 13) ?x0 = Running ?x3"
    by (simp only: proto_run_add engine_result.case)
  moreover have "butlast (dmframe c1 c2 q p) = ?head @ p @ [k0, k1, k2]"
    by (simp add: dmframe_head cs butlast_append)
  ultimately show ?thesis
    using p q by (intro exI [of _ r3] exI [of _ frm2])
      (simp add: r3_def r2_def r1_def frm2_def rd_headed_def rd_buf_wf_def rd_items_def numeral_3_eq_3)
qed

lemma rd_receives:
  assumes s: "scripted s" "rd_ready s" "rd_buffered s = []"
    and w: "uplayer_data (ct_user s) = (fr, n, h)"
    and fr: "make_dmframe c1 c2 (rd_next_seqno (rds s)) p (length p) = Some fr"
    and p: "0 < length p" "length p \<le> length (dmodem_frame (ct_user s))"
      "length p \<le> rd_max_data_count (rds s)"
    and sz: "0 < sz" "sz \<le> length p \<or> length p < max_data_size (conf s)"
  shows "\<exists>s'. dmodem_read (length p + 15) sz s = Done s' p \<and>
    sys_hist script_log s' = h @ map Got fr @ [Sent ack_bytes] \<and>
    rd_next_seqno (rds s') = rd_next_seqno (rds s) + 1 \<and> dm_global_error (ct_user s') = EDMODEM_NOERROR"
proof -
  let ?q = "rd_next_seqno (rds s)"
  from fr have fr': "fr = dmframe c1 c2 ?q p" "length p \<le> 512" by (auto simp: make_dmframe_eq split: if_splits)
  obtain k0 k1 k2 k3 where cs: "bytes32 (crc32 p) = [k0, k1, k2, k3]" by (simp add: bytes32_def)
  define s0 where "s0 = CLEAR_GLOBAL_ERROR s"
  define r where "r = (rds s)\<lparr>rd_ppayload := 0, rd_size_readed := 0, rd_retrans_no := 0,
        rd_rxuplayer_timer_expired := False, rd_size_to_read := sz\<rparr>"
  obtain s1 where i: "rd_init s0 = Some (s1, NO_EVT)" and "ct_sched s1 = []" "\<not> ct_locked s1"
    and u1: "ct_user s1 = (ct_user s)\<lparr>dm_global_error := EDMODEM_NOERROR,
      rd_curr_state := (rds s)\<lparr>rd_ppayload := 0, rd_size_readed := 0, rd_retrans_no := 0,
        rd_rxuplayer_timer_expired := False\<rparr>\<rparr>"
    using s(1) by (simp add: rd_init_def scripted_def s0_def CLEAR_GLOBAL_ERROR_def Let_def)
  define s2 where "s2 = upd_rd (\<lambda>c. c\<lparr>rd_size_to_read := sz\<rparr>) s1"
  have v: "s2 = rd_view s2 (dmodem_frame (ct_user s)) r (dmframe c1 c2 ?q p, n, h)"
    using rd_view_self [of s2] u1 w fr' by (simp add: s2_def r_def)
  have sc: "scripted s2"
    using s(1) \<open>ct_sched s1 = []\<close> \<open>\<not> ct_locked s1\<close> u1 by (simp add: scripted_def s2_def)
  have r: "rd_buf_wf r" "rd_items r = []" "length (rd_checksum r) = 4" "rd_max_data_count r = rd_max_data_count (rds s)"
    using s(2,3) by (simp_all add: r_def rd_ready_def rd_buf_wf_def rd_items_def)
  from rd_frame_run [OF sc p(1) fr'(2) p(2) r(3) _ cs, of ?q c1 c2 "[]" n h] obtain r' frm' where
    run: "rd_go (length p + 13) (WAITSOH_RDST, NO_EVT, s2) =
      Running (WAITCHECKSUM_RDST, NO_EVT, rd_view s2 frm' r' ([k3], n, h @ map Got (butlast fr)))"
    and f: "take (length p) frm' = p" "length frm' = length (dmodem_frame (ct_user s))" "rd_pchecksum r' = 3"
      "rd_checksum r' = [k0, k1, k2, rd_checksum r ! 3]" "rd_curr_bytes_readed r' = length p"
      "rd_size_readed r' = 0" "rd_size_to_read r' = sz" "rd_next_seqno r' = ?q"
      "rd_buf_wf r'" "rd_items r' = []" "rd_max_data_count r' = rd_max_data_count (rds s)"
    unfolding append_Nil2 v [symmetric] fr'(1) using r by (auto simp: r_def)
  have conf: "conf s2 = conf s" by (simp add: s2_def u1)
  let ?w = "([], n, h @ map Got fr)"
  have lastb: "butlast fr @ [k3] = fr" by (simp add: fr'(1) dmframe_head cs butlast_append)
  have "\<exists>r3. rd_rcv_checksum_byte (rd_view s2 frm' (r'\<lparr>rd_byte_rcv := k3\<rparr>) ?w) =
      Some (rd_view s2 frm' r3 ?w, NOMOREFRAMES_RDEVT) \<and> rd_buf_wf r3 \<and>
      rd_max_data_count r3 = rd_max_data_count r' \<and>
      rd_items r3 = [] @ take (rd_max_data_count r' - 0) p \<and>
      rd_size_readed r3 = 0 + length p \<and> rd_next_seqno r3 = rd_next_seqno r'"
    using rd_sum_last [of "r'\<lparr>rd_byte_rcv := k3\<rparr>" frm' s2 ?w] f fr'(2) p(2) cs sz(2) conf
    by (auto simp: rd_verdict_def)
  then obtain r3 where
    sum: "rd_rcv_checksum_byte (rd_view s2 frm' (r'\<lparr>rd_byte_rcv := k3\<rparr>) ?w) =
      Some (rd_view s2 frm' r3 ?w, NOMOREFRAMES_RDEVT)"
    and r3: "rd_buf_wf r3" "rd_items r3 = p" "rd_size_readed r3 = length p" "rd_next_seqno r3 = ?q"
    using f(8,11) p(3) by auto
  define x where "x = del_ct rxuplayer_timer (rd_view s2 frm' r3 ?w)"
  have xu: "ct_user x = (ct_user s2)\<lparr>dmodem_frame := frm', rd_curr_state := r3, uplayer_data := ?w\<rparr>"
    and xl: "\<not> ct_locked x" "send_buf (ct_user x) = script_send"
    using sc by (simp_all add: x_def rd_view_def scripted_def)
  define s4 where "s4 = upd_rd (\<lambda>c. c\<lparr>rd_next_seqno := rd_next_seqno c + 1\<rparr>)
    (upd_stat (\<lambda>c. c\<lparr>rxacks := rxacks c + 1\<rparr>)
      (upd_h (\<lambda>u. u\<lparr>uplayer_data := ([], n, h @ map Got fr @ [Sent ack_bytes])\<rparr>) x))"
  have ex: "rd_exit_ok (rd_view s2 frm' r3 ?w) = Some (s4, NO_EVT)"
  proof -
    have "\<not> ct_locked (rd_view s2 frm' r3 ?w)" using sc by (simp add: scripted_def rd_view_def)
    then have "stop_timer rxuplayer_timer (rd_view s2 frm' r3 ?w) = Some x" by (simp add: x_def)
    moreover have "line_send ack_bytes x = (upd_h (\<lambda>u. u\<lparr>uplayer_data := ([], n, h @ map Got fr @ [Sent ack_bytes])\<rparr>) x, 1)"
      using xu xl(2) by (simp add: line_send_def)
    ultimately show ?thesis by (simp add: rd_exit_ok_def rd_send_eq s4_def)
  qed
  have "rd_go 2 (WAITCHECKSUM_RDST, NO_EVT, rd_view s2 frm' r' ([k3], n, h @ map Got (butlast fr))) = Returned s4"
  proof -
    have "h @ map Got (butlast fr) @ [Got k3] = h @ map Got fr"
      using arg_cong [OF lastb, of "map Got"] by simp
    with sc sum ex show ?thesis by (simp add: rd_run_simps)
  qed
  moreover have "length p + 15 = (length p + 13) + 2" by simp
  ultimately have "rd_go (length p + 15) (WAITSOH_RDST, NO_EVT, s2) = Returned s4"
    using run by (simp only: proto_run_add engine_result.case)
  moreover have "\<not> ct_locked s4" using xl by (simp add: s4_def)
  ultimately have eng: "proto_engine rd_transitions rd_wait_event rd_clean_curr_state NO_EVT WAITSOH_RDST
      EXIT_ST (length p + 15) s2 = Returned (del_ct rxuplayer_timer s4)"
    by (simp add: proto_engine_def rd_clean_curr_state_def)
  let ?s5 = "del_ct rxuplayer_timer s4"
  have s5: "rd_buf_wf (rds ?s5)" "rd_buffered ?s5 = p" "rd_size_readed (rds ?s5) = length p"
    "rd_next_seqno (rds ?s5) = ?q + 1" "sys_hist script_log ?s5 = h @ map Got fr @ [Sent ack_bytes]"
    "dm_global_error (ct_user ?s5) = EDMODEM_NOERROR"
    using r3 xu by (simp_all add: s4_def rd_buf_wf_def rd_items_def s2_def u1)
  obtain s6 bs where give: "rd_read_data (length p) ?s5 = Some (s6, bs)"
    using rd_read_data_get [OF s5(1)] by fastforce
  note g = rd_give [OF s5(1) give]
  have "rd_data_count (rds s) = 0" using arg_cong [OF s(3), of length] by (simp add: rd_items_def)
  then have "dmodem_read (length p + 15) sz s = Done s6 p"
    using sz(1) i eng give s5(3) g(1) s5(2)
    by (simp add: dmodem_read_def s0_def [symmetric] s2_def [symmetric] Let_def)
      (simp add: s0_def CLEAR_GLOBAL_ERROR_def)
  then show ?thesis using g s5 by auto
qed

text \<open>A single frame: if the line brings the frame that the transmitter builds for a
  payload of 1 to 512 bytes, with the sequence number the receiver expects, a read that asks for
  no more than it (or a payload shorter than a full frame) returns exactly that payload, puts one
  ACK on the line and advances the sequence number, in one turn per byte and two more.\<close>

theorem dmodem_read_receives_frame:
  assumes s: "scripted s" "rd_ready s" "rd_buffered s = []"
    and w: "uplayer_data (ct_user s) = (fr, n, h)"
    and fr: "make_dmframe c1 c2 (rd_next_seqno (rds s)) p (length p) = Some fr"
    and p: "0 < length p" "length p \<le> length (dmodem_frame (ct_user s))"
      "length p \<le> rd_max_data_count (rds s)"
    and sz: "0 < sz" "sz \<le> length p \<or> length p < max_data_size (conf s)"
  shows "\<exists>s'. dmodem_read (length p + 15) sz s = Done s' p \<and>
    sys_hist script_log s' = h @ map Got fr @ [Sent ack_bytes] \<and>
    rd_next_seqno (rds s') = rd_next_seqno (rds s) + 1 \<and> dm_global_error (ct_user s') = EDMODEM_NOERROR"
  using assms by (rule rd_receives)

subsection \<open>Runs on the scripted line\<close>

lemma script_rd_ready:
  "scripted (script_sys q n)" "rd_ready (script_sys q n)"
  "rd_items (rd_curr_state (script_handler q n)) = []"
  "uplayer_data (script_handler q n) = (q, n, [])"
  "rd_next_seqno (rd_curr_state (script_handler q n)) = 1"
  "length (dmodem_frame (script_handler q n)) = 525"
  "rd_max_data_count (rd_curr_state (script_handler q n)) = 1024"
  by (simp_all add: scripted_def rd_ready_def rd_buf_wf_def ring_wf_def rd_items_def script_handler_def)

lemma dmodem_read_receives_frame_witness:
  "\<exists>s'. dmodem_read 17 1 (script_sys (dmframe 0 0 1 [0x41, 0x42]) 0) = Done s' [0x41, 0x42] \<and>
     sys_hist script_log s' = map Got (dmframe 0 0 1 [0x41, 0x42]) @ [Sent ack_bytes]"
  using dmodem_read_receives_frame [of "script_sys (dmframe 0 0 1 [0x41, 0x42]) 0"
      "dmframe 0 0 1 [0x41, 0x42]" 0 "[]" 0 0 "[0x41, 0x42]" 1]
  by (auto simp: script_rd_ready make_dmframe_eq)

lemma dmodem_read_integrity_witness:
  "\<exists>s' t ps. dmodem_read 17 1 (script_sys (dmframe 0 0 1 [0x41, 0x42]) 0) = Done s' [0x41, 0x42] \<and>
     sys_hist script_log s' = t \<and> accepted 1 t ps \<and>
     [0x41, 0x42] @ rd_buffered s' = take 1024 (concat ps)"
proof -
  obtain s' where r: "dmodem_read 17 1 (script_sys (dmframe 0 0 1 [0x41, 0x42]) 0) = Done s' [0x41, 0x42]"
    using rd_receives [of "script_sys (dmframe 0 0 1 [0x41, 0x42]) 0"
      "dmframe 0 0 1 [0x41, 0x42]" 0 "[]" 0 0 "[0x41, 0x42]" 1]
    by (auto simp: script_rd_ready make_dmframe_eq)
  from dmodem_read_integrity [OF r, where hist = script_log] r show ?thesis
    by (auto simp: script_rd_ready script_records)
qed

end
