(* ===== verification/Dmodem_Read_Live.thy ===== *)
theory Dmodem_Read_Live
  imports Dmodem_Read_Props
begin

text \<open>
  When a read returns. Every turn of the receiver decreases a measure on the bytes and carrier polls
  that are left and the rank of the pending event, so a read of a line that dies never runs for ever.
  It crashes only by storing beyond its frame or by blocking on the mutex of the timers; neither
  happens when the timer gets a slot of the table and the line brings no more bytes than the frame
  has room for.
\<close>

subsection \<open>What a row does to the line and the timers\<close>

text \<open>Sending does not create bytes.\<close>

definition line_kept :: "('w \<Rightarrow> nat) \<Rightarrow> 'w DmodemHandler \<Rightarrow> bool" where
  "line_kept \<mu> h \<longleftrightarrow> (\<forall>w bs. \<mu> (fst (send_buf h w bs)) \<le> \<mu> w)"

lemma line_dies_kept: "line_dies \<mu> h \<Longrightarrow> line_kept \<mu> h"
  by (simp add: line_dies_def line_kept_def)

definition rd_effect :: "'w dm_sys \<Rightarrow> 'w dm_sys \<Rightarrow> bool" where
  "rd_effect s s' \<longleftrightarrow>
     send_buf (ct_user s') = send_buf (ct_user s) \<and> rcv_byte (ct_user s') = rcv_byte (ct_user s) \<and>
     get_dcd_status (ct_user s') = get_dcd_status (ct_user s) \<and>
     (\<forall>\<mu>. line_kept \<mu> (ct_user s) \<longrightarrow> sys_left \<mu> s' \<le> sys_left \<mu> s)"

definition timers_kept :: "'w dm_sys \<Rightarrow> 'w dm_sys \<Rightarrow> bool" where
  "timers_kept s s' \<longleftrightarrow> ct_timers s' = ct_timers s \<and> ct_running s' = ct_running s \<and> ct_locked s' = ct_locked s"

lemma timers_kept_refl [simp]: "timers_kept s s" "timers_kept s (s\<lparr>ct_user := h\<rparr>)"
  by (simp_all add: timers_kept_def)

definition rd_only :: "'w dm_sys \<Rightarrow> 'w dm_sys \<Rightarrow> bool" where
  "rd_only s s' \<longleftrightarrow> (\<exists>r. s' = upd_rd (\<lambda>_. r) s)"

lemma rd_only_upd [simp]: "rd_only s (upd_rd (\<lambda>_. r) s)"
  by (auto simp: rd_only_def)

lemma rd_only_refl [simp]: "rd_only s s"
  unfolding rd_only_def by (rule exI [of _ "rds s"]) simp

lemma rd_only_trans: "rd_only a b \<Longrightarrow> rd_only b c \<Longrightarrow> rd_only a c"
  by (auto simp: rd_only_def)

lemma rd_write_data_user: "rd_write_data bs s = Some s' \<Longrightarrow> rd_only s s'"
proof (induction bs arbitrary: s)
  case (Cons b bs)
  show ?case
  proof (cases "rd_data_count (rds s) = rd_max_data_count (rds s)")
    case True
    with Cons.prems show ?thesis by simp
  next
    case False
    define s1 where "s1 = upd_rd (\<lambda>c. c\<lparr>rd_databuf := (rd_databuf c)[rd_last_data_index c := b],
           rd_data_count := rd_data_count c + 1,
           rd_last_data_index := (rd_last_data_index c + 1) mod rd_max_data_count c\<rparr>) s"
    have "rd_write_data bs s1 = Some s'"
      using Cons.prems False by (auto simp: s1_def Let_def elim!: bind_SomeE)
    from Cons.IH [OF this] have "rd_only s1 s'" .
    moreover have "rd_only s s1" by (simp add: s1_def)
    ultimately show ?thesis by (rule rd_only_trans [rotated])
  qed
qed simp

lemma rd_effect_rd [simp]: "rd_effect s (upd_rd (\<lambda>_. r) s)" "rd_effect s s"
  "rd_effect s (upd_h (\<lambda>h. h\<lparr>dmodem_frame := frm, rd_curr_state := r\<rparr>) s)" "rd_effect s (SET_GLOBAL_ERROR e s)"
  by (simp_all add: rd_effect_def SET_GLOBAL_ERROR_def)

lemma rd_effect_send:
  assumes "line_send bs s = (s1, r)"
  shows "rd_effect s (upd_rd (\<lambda>_. c) s1)" "rd_effect s (upd_stat (\<lambda>_. g) s1)" "timers_kept s s1"
  using assms by (auto simp: rd_effect_def line_send_def line_kept_def timers_kept_def Let_def prod.case_eq_if)

lemma rd_sum_user:
  assumes "rd_rcv_checksum_byte s = Some (s', ev)"
  shows "rd_only s s' \<and> ev \<in> {NO_EVT, BADFRAME_RDEVT, MOREFRAMES_RDEVT, NOMOREFRAMES_RDEVT}"
proof -
  define s1 where "s1 = upd_rd (\<lambda>c. c\<lparr>rd_checksum := (rd_checksum c)[rd_pchecksum c := rd_byte_rcv c],
        rd_pchecksum := rd_pchecksum c + 1\<rparr>) s"
  have u1: "rd_only s s1" by (simp add: s1_def)
  have "s' = s1 \<and> ev \<in> {NO_EVT, BADFRAME_RDEVT} \<or>
      (\<exists>p s2. rd_write_data p s1 = Some s2 \<and> rd_only s2 s' \<and> ev \<in> {MOREFRAMES_RDEVT, NOMOREFRAMES_RDEVT})"
    using assms unfolding rd_rcv_checksum_byte_def s1_def [symmetric] Let_def
    by (auto elim!: bind_SomeE split: if_splits)
  then show ?thesis
  proof (elim disjE exE conjE)
    fix p s2 assume "rd_write_data p s1 = Some s2" "rd_only s2 s'" "ev \<in> {MOREFRAMES_RDEVT, NOMOREFRAMES_RDEVT}"
    with rd_only_trans [OF u1 rd_only_trans [OF rd_write_data_user]] show ?thesis by auto
  qed (use u1 in auto)
qed

text \<open>Rows that do not leave the table; only the second SYN byte reaches for the timers.\<close>

lemma rd_row_effect:
  assumes row: "first_row rd_transitions st ev = Some (nx, f)" and f: "f s = Some (s', ev')" and nx: "nx \<noteq> EXIT_ST"
  shows "rd_effect s s'" "f \<noteq> rd_syn_comp_rcv \<Longrightarrow> timers_kept s s'"
proof -
  have "rd_effect s s' \<and> (f \<noteq> rd_syn_comp_rcv \<longrightarrow> timers_kept s s')"
    using row
  proof (cases rule: rd_row_cases)
    case payload
    with f show ?thesis by (auto simp: rd_rcv_byte_def Let_def elim!: bind_SomeE)
  next
    case sum
    with f rd_sum_user [of s s' ev'] have "rd_only s s'" by simp
    then obtain r where "s' = upd_rd (\<lambda>_. r) s" unfolding rd_only_def by blast
    then show ?thesis by simp
  next
    case more
    obtain s1 r where l: "line_send ack_bytes s = (s1, r)" by fastforce
    from more(1) f l rd_effect_send [OF l] show ?thesis by (auto simp: rd_send_eq timers_kept_def)
  next
    case reack
    obtain s1 r where l: "line_send ack_bytes s = (s1, r)" by fastforce
    from reack(1) f l rd_effect_send [OF l] show ?thesis by (auto simp: rd_send_eq timers_kept_def)
  next
    case nack
    obtain s1 r where l: "line_send nack_bytes s = (s1, r)" by fastforce
    from nack(1) f l rd_effect_send [OF l] show ?thesis by (auto simp: rd_send_eq timers_kept_def)
  next
    case syn
    with f show ?thesis
      by (auto simp: rd_syn_comp_rcv_def mod_ctimer_def TAKE_MUTEX_def RELEASE_MUTEX_def rd_effect_def
          elim!: bind_SomeE split: if_splits option.splits)
  qed (use f nx in \<open>auto simp: rd_soh_def rd_none_def rd_discard_byte_def rd_discard_retrans_def rd_prepare_retrans_def
      rd_seqno_def rd_seqnocomp_def rd_len0_def rd_len1_def rd_len0comp_def rd_len1comp_def rd_eot_comp_rcv_def Let_def\<close>)
  then show "rd_effect s s'" "f \<noteq> rd_syn_comp_rcv \<Longrightarrow> timers_kept s s'" by auto
qed

subsection \<open>The measure\<close>

definition rd_rank :: "int \<Rightarrow> int \<Rightarrow> nat" where
  "rd_rank st ev =
     (if ev = NO_EVT then 0 else if st = CTRLRETRANS_RDST then 1
      else if st = SYNCOMPRCV_RDST \<or> st = EOTCOMPRCV_RDST then 2 else if ev = RCVBYTE_RDEVT then 4 else 3)"

definition rd_left :: "('w \<Rightarrow> nat) \<Rightarrow> int \<Rightarrow> int \<Rightarrow> 'w dm_sys \<Rightarrow> nat" where
  "rd_left \<mu> st ev s = (if ev = RXUPLAYERTO_RDEVT then 0 else 5 * sys_left \<mu> s + 1 + rd_rank st ev)"

definition rd_live :: "('w \<Rightarrow> nat) \<Rightarrow> int \<Rightarrow> int \<Rightarrow> 'w dm_sys \<Rightarrow> bool" where
  "rd_live \<mu> st ev s \<longleftrightarrow> line_dies \<mu> (ct_user s) \<and> st \<in> insert CTRLRETRANS_RDST (rd_loose \<union> rd_framed)"

lemma rd_row_states: "first_row rd_transitions st ev = Some (nx, f) \<Longrightarrow>
    nx = EXIT_ST \<or> nx \<in> insert CTRLRETRANS_RDST (rd_loose \<union> rd_framed)"
  by (erule rd_row_cases) (auto simp: rd_loose_def rd_framed_def)

lemma rd_row_timeout:
  assumes "st \<in> insert CTRLRETRANS_RDST (rd_loose \<union> rd_framed)"
  shows "first_row rd_transitions st RXUPLAYERTO_RDEVT = Some (EXIT_ST, rd_exit_rxuplayerto)"
proof -
  have "\<forall>x \<in> insert CTRLRETRANS_RDST (rd_loose \<union> rd_framed).
      first_row rd_transitions x RXUPLAYERTO_RDEVT = Some (EXIT_ST, rd_exit_rxuplayerto)"
    unfolding rd_loose_def rd_framed_def rd_transitions_def by simp
  with assms show ?thesis by blast
qed

lemma rd_row_no_timeout:
  assumes "st \<in> insert CTRLRETRANS_RDST (rd_loose \<union> rd_framed)" "ev = RXUPLAYERTO_RDEVT"
  shows "first_row rd_transitions st ev \<noteq> None"
    "first_row rd_transitions st ev = Some (nx, f) \<Longrightarrow> nx = EXIT_ST"
  unfolding assms(2) by (simp_all only: rd_row_timeout [OF assms(1)]) simp_all

lemma rd_rank_row:
  assumes row: "first_row rd_transitions st ev = Some (nx, f)" and f: "f s = Some (s', ev')" and nx: "nx \<noteq> EXIT_ST"
    and ev: "ev \<noteq> NO_EVT"
  shows "rd_rank nx ev' < rd_rank st ev" "ev' \<noteq> RXUPLAYERTO_RDEVT"
proof -
  have "rd_rank nx ev' < rd_rank st ev \<and> ev' \<noteq> RXUPLAYERTO_RDEVT"
    using row
  proof (cases rule: rd_row_cases)
    case sum
    with f rd_sum_user [of s s' ev'] show ?thesis by (auto simp: rd_rank_def)
  next
    case retrans
    with f show ?thesis
      by (auto simp: rd_prepare_retrans_def Let_def rd_rank_def rd_framed_def split: if_splits)
  next
    case skip
    with f show ?thesis by (auto simp: rd_none_def rd_rank_def)
  next
    case loose
    with f have "ev' = NO_EVT" by (auto simp: rd_none_def rd_discard_byte_def rd_discard_retrans_def)
    with ev show ?thesis by (simp add: rd_rank_def)
  next
    case more
    with f show ?thesis by (auto simp: rd_send_eq rd_rank_def split: prod.splits)
  next
    case reack
    with f show ?thesis by (auto simp: rd_send_eq rd_rank_def split: prod.splits)
  next
    case nack
    with f show ?thesis by (auto simp: rd_send_eq rd_rank_def split: prod.splits)
  qed (use f nx in \<open>auto simp: rd_soh_def rd_none_def rd_seqno_def rd_seqnocomp_def rd_len0_def rd_len1_def
      rd_len0comp_def rd_len1comp_def rd_eot_comp_rcv_def rd_syn_comp_rcv_def rd_rcv_byte_def rd_rank_def Let_def
      elim!: bind_SomeE split: if_splits\<close>)
  then show "rd_rank nx ev' < rd_rank st ev" "ev' \<noteq> RXUPLAYERTO_RDEVT" by auto
qed

lemma rd_effect_dies: "rd_effect s s' \<Longrightarrow> line_dies \<mu> (ct_user s) \<Longrightarrow> line_dies \<mu> (ct_user s') \<and> sys_left \<mu> s' \<le> sys_left \<mu> s"
  using line_dies_kept [of \<mu> "ct_user s"] by (simp add: rd_effect_def) (simp add: line_dies_def)

lemma rd_live_wait:
  assumes i: "rd_live \<mu> st NO_EVT s" and w: "rd_wait_event s = Some (s', ev)"
  shows "rd_live \<mu> st ev s'" "rd_left \<mu> st ev s' < rd_left \<mu> st NO_EVT s"
proof -
  have d: "line_dies \<mu> (ct_user s)" using i by (simp add: rd_live_def)
  have "line_dies \<mu> (rd_after b (ct_user s))" for b using d by (simp add: rd_after_def line_dies_def)
  from line_dies_quiet [OF this rd_wait_spec(1) [OF w]] i show "rd_live \<mu> st ev s'" by (simp add: rd_live_def)
  have "rd_rank st ev \<le> 4" by (simp add: rd_rank_def)
  with rd_wait_spec(6) [OF w d] show "rd_left \<mu> st ev s' < rd_left \<mu> st NO_EVT s"
    by (auto simp: rd_left_def rd_rank_def)
qed

lemma rd_live_row:
  assumes i: "rd_live \<mu> st ev s" and ev: "ev \<noteq> NO_EVT"
    and row: "first_row rd_transitions st ev = Some (nx, f)" and f: "f s = Some (s', ev')" and nx: "nx \<noteq> EXIT_ST"
  shows "rd_live \<mu> nx ev' s'" "rd_left \<mu> nx ev' s' < rd_left \<mu> st ev s"
proof -
  from i have d: "line_dies \<mu> (ct_user s)" and st: "st \<in> insert CTRLRETRANS_RDST (rd_loose \<union> rd_framed)"
    by (auto simp: rd_live_def)
  note e = rd_effect_dies [OF rd_row_effect(1) [OF row f nx] d]
  show "rd_live \<mu> nx ev' s'" using e rd_row_states [OF row] nx by (simp add: rd_live_def)
  have "ev \<noteq> RXUPLAYERTO_RDEVT" using rd_row_no_timeout(2) [OF st _ row] nx by blast
  then show "rd_left \<mu> nx ev' s' < rd_left \<mu> st ev s"
    using e rd_rank_row [OF row f nx ev] by (simp add: rd_left_def)
qed

lemma rd_live_drop:
  assumes i: "rd_live \<mu> st ev s" and ev: "ev \<noteq> NO_EVT" and row: "first_row rd_transitions st ev = None"
  shows "rd_live \<mu> st NO_EVT s" "rd_left \<mu> st NO_EVT s < rd_left \<mu> st ev s"
proof -
  show "rd_live \<mu> st NO_EVT s" using i by (simp add: rd_live_def)
  have "ev \<noteq> RXUPLAYERTO_RDEVT" using rd_row_no_timeout(1) [of st ev] i row unfolding rd_live_def by blast
  then show "rd_left \<mu> st NO_EVT s < rd_left \<mu> st ev s" using ev by (simp add: rd_left_def rd_rank_def)
qed

interpretation rdh: proto_halts rd_transitions rd_wait_event NO_EVT EXIT_ST "rd_live \<mu>" "\<lambda>_. True" "rd_left \<mu>" for \<mu>
proof unfold_locales
  fix st ev s nx s' ev' and f :: "'a dm_sys handler"
  show "rd_live \<mu> st ev s'" "rd_left \<mu> st ev s' < rd_left \<mu> st NO_EVT s"
    if "rd_live \<mu> st NO_EVT s" "rd_wait_event s = Some (s', ev)" using rd_live_wait [OF that] by auto
  show "rd_live \<mu> st NO_EVT s" "rd_left \<mu> st NO_EVT s < rd_left \<mu> st ev s"
    if "rd_live \<mu> st ev s" "ev \<noteq> NO_EVT" "first_row rd_transitions st ev = None"
    using rd_live_drop [OF that] by auto
  show "if nx = EXIT_ST then True else rd_live \<mu> nx ev' s'"
    if "rd_live \<mu> st ev s" "ev \<noteq> NO_EVT" "first_row rd_transitions st ev = Some (nx, f)" "f s = Some (s', ev')"
    using rd_live_row(1) [OF that] by simp
  show "rd_left \<mu> nx ev' s' < rd_left \<mu> st ev s"
    if "rd_live \<mu> st ev s" "ev \<noteq> NO_EVT" "first_row rd_transitions st ev = Some (nx, f)" "f s = Some (s', ev')"
      "nx \<noteq> EXIT_ST"
    using that by (rule rd_live_row(2))
qed (rule rd_states_valid)

subsection \<open>Runs that do not crash\<close>

text \<open>\<open>\<nu>\<close> bounds the bytes the line will deliver.\<close>

definition line_brings :: "('w \<Rightarrow> nat) \<Rightarrow> 'w DmodemHandler \<Rightarrow> bool" where
  "line_brings \<nu> h \<longleftrightarrow> line_kept \<nu> h \<and>
     (\<forall>w k. \<nu> (fst (rcv_byte h w k)) + (if fst (snd (rcv_byte h w k)) = 1 then 1 else 0) \<le> \<nu> w) \<and>
     (\<forall>w. \<nu> (fst (get_dcd_status h w)) \<le> \<nu> w)"

lemma line_brings_quiet: "line_brings \<nu> h \<Longrightarrow> quiet h h' \<Longrightarrow> line_brings \<nu> h'"
  by (simp add: line_brings_def line_kept_def quiet_fields)

lemma rd_wait_brings:
  assumes w: "rd_wait_event s = Some (s', ev)" and b: "line_brings \<nu> (ct_user s)" and free: "\<not> ct_locked s"
  shows "sys_left \<nu> s' + (if ev = RCVBYTE_RDEVT then 1 else 0) \<le> sys_left \<nu> s" "timers_kept s s'"
proof -
  define s0 where "s0 = dm_timers_run s"
  note t = timers_quiet [of s, folded s0_def]
  have k0: "timers_kept s s0"
    using timer_turn_user(2,3) [OF free, where f = timer_handler and R = "\<lambda>_ _. True"] t(2)
    by (simp add: timers_kept_def s0_def dm_timers_run_def)
  have b0: "line_brings \<nu> (ct_user s0)" by (rule line_brings_quiet [OF b t(1)])
  obtain s1 r x where r: "line_recv 1 s0 = (s1, r, x)" by (cases "line_recv 1 s0") auto
  have s1: "s1 = s0\<lparr>ct_user := (ct_user s0)\<lparr>uplayer_data := uplayer_data (ct_user s1)\<rparr>\<rparr>"
    using r by (auto simp: line_recv_def Let_def prod.case_eq_if)
  have l1: "sys_left \<nu> s1 + (if r = 1 then 1 else 0) \<le> sys_left \<nu> s0"
    using r b0 by (auto simp: line_recv_def Let_def prod.case_eq_if line_brings_def
        dest: spec2 [of _ "uplayer_data (ct_user s0)" 1])
  define s2 where "s2 = (if rd_rxuplayer_timer_expired (rds s1)
    then upd_rd (\<lambda>c. c\<lparr>rd_rxuplayer_timer_expired := False\<rparr>) s1 else s1)"
  obtain s3 d where d: "line_dcd s2 = (s3, d)" by fastforce
  have e2: "get_dcd_status (ct_user s2) = get_dcd_status (ct_user s0)" "uplayer_data (ct_user s2) = uplayer_data (ct_user s1)"
    "timers_kept s0 s2" using arg_cong [OF s1, of "\<lambda>s. get_dcd_status (ct_user s)"]
      arg_cong [OF s1, of ct_timers] arg_cong [OF s1, of ct_running] arg_cong [OF s1, of ct_locked]
    by (auto simp: s2_def timers_kept_def)
  have l3: "sys_left \<nu> s3 \<le> sys_left \<nu> s1" "timers_kept s2 s3"
    using d e2(1,2) b0 by (auto simp: line_dcd_def Let_def prod.case_eq_if line_brings_def timers_kept_def)
  have out: "if r = 1 then s' = upd_rd (\<lambda>c. c\<lparr>rd_byte_rcv := x\<rparr>) s1 \<and> ev = RCVBYTE_RDEVT
    else s' = s3 \<and> ev \<noteq> RCVBYTE_RDEVT"
    using w r d by (auto simp: rd_wait_event_def s0_def [symmetric] s2_def Let_def split: if_splits)
  show "sys_left \<nu> s' + (if ev = RCVBYTE_RDEVT then 1 else 0) \<le> sys_left \<nu> s"
    using out l1 l3(1) t(3) by (auto split: if_splits)
  show "timers_kept s s'"
    using out k0 e2(3) l3(2) arg_cong [OF s1, of ct_timers] arg_cong [OF s1, of ct_running] arg_cong [OF s1, of ct_locked]
    by (auto simp: timers_kept_def split: if_splits)
qed

text \<open>
  The mutex is free, the timer has its slot, and the frame has room for every byte to come.
\<close>

definition rd_calm :: "('w \<Rightarrow> nat) \<Rightarrow> int \<Rightarrow> int \<Rightarrow> 'w dm_sys \<Rightarrow> bool" where
  "rd_calm \<nu> st ev s \<longleftrightarrow> line_brings \<nu> (ct_user s) \<and> \<not> ct_locked s \<and>
     (ct_running s \<longrightarrow> get_slot rxuplayer_timer s \<noteq> None) \<and>
     (if st = WAITPAYLOAD_RDST then rd_ppayload (rds s) else 0) + (if ev = RCVBYTE_RDEVT then 1 else 0)
       + sys_left \<nu> s \<le> length (dmodem_frame (ct_user s))"

lemma timers_kept_slot: "timers_kept s s' \<Longrightarrow> get_slot t s' = get_slot t s \<and> ct_running s' = ct_running s \<and> ct_locked s' = ct_locked s"
  by (simp add: timers_kept_def get_slot_def)

lemma rd_calm_wait:
  assumes c: "rd_calm \<nu> st NO_EVT s" and w: "rd_wait_event s = Some (s', ev)"
  shows "rd_calm \<nu> st ev s'"
proof -
  from c have b: "line_brings \<nu> (ct_user s)" and free: "\<not> ct_locked s" by (auto simp: rd_calm_def)
  note wb = rd_wait_brings [OF w b free] and ws = rd_wait_spec(1) [OF w]
  have "line_brings \<nu> (rd_after x (ct_user s))" for x using b by (simp add: rd_after_def line_brings_def line_kept_def)
  then have "line_brings \<nu> (ct_user s')" using line_brings_quiet [OF _ ws] by blast
  moreover have "dmodem_frame (ct_user s') = dmodem_frame (ct_user s)"
    using quiet_fields(6) [OF ws] by (simp add: rd_after_def)
  moreover have "rd_ppayload (rds s') = rd_ppayload (rds s)"
  proof -
    from quiet_fields(17) [OF ws] obtain c where
      "rds s' = (rds s)\<lparr>rd_byte_rcv := rd_byte_rcv (rds s'), rd_rxuplayer_timer_expired := c\<rparr>"
      unfolding rd_after_rds by blast
    from arg_cong [OF this, of rd_ppayload] show ?thesis by simp
  qed
  ultimately show ?thesis
    using c wb(1) timers_kept_slot [OF wb(2), of rxuplayer_timer] by (auto simp: rd_calm_def)
qed

lemma rd_row_frame:
  assumes row: "first_row rd_transitions st ev = Some (nx, f)" and f: "f s = Some (s', ev')" and nx: "nx \<noteq> EXIT_ST"
  shows "length (dmodem_frame (ct_user s')) = length (dmodem_frame (ct_user s))"
    "ev' = RCVBYTE_RDEVT \<Longrightarrow> ev = RCVBYTE_RDEVT \<and> nx \<in> {SYNCOMPRCV_RDST, EOTCOMPRCV_RDST}"
    "nx = WAITPAYLOAD_RDST \<Longrightarrow> f = rd_len1comp \<and> st = WAITLEN1COMP_RDST \<and> ev = RCVBYTE_RDEVT \<and> rd_ppayload (rds s') = rd_ppayload (rds s)
       \<or> f = rd_rcv_byte \<and> st = WAITPAYLOAD_RDST \<and> ev = RCVBYTE_RDEVT \<and> rd_ppayload (rds s') = Suc (rd_ppayload (rds s))"
proof -
  have "length (dmodem_frame (ct_user s')) = length (dmodem_frame (ct_user s)) \<and>
    (ev' = RCVBYTE_RDEVT \<longrightarrow> ev = RCVBYTE_RDEVT \<and> nx \<in> {SYNCOMPRCV_RDST, EOTCOMPRCV_RDST}) \<and>
    (nx = WAITPAYLOAD_RDST \<longrightarrow> f = rd_len1comp \<and> st = WAITLEN1COMP_RDST \<and> ev = RCVBYTE_RDEVT \<and> rd_ppayload (rds s') = rd_ppayload (rds s)
       \<or> f = rd_rcv_byte \<and> st = WAITPAYLOAD_RDST \<and> ev = RCVBYTE_RDEVT \<and> rd_ppayload (rds s') = Suc (rd_ppayload (rds s)))"
    using row
  proof (cases rule: rd_row_cases)
    case sum
    with f rd_sum_user [of s s' ev'] have "rd_only s s'" "ev' \<noteq> RCVBYTE_RDEVT" by auto
    with sum show ?thesis by (auto simp: rd_only_def)
  next
    case more
    obtain s1 r where l: "line_send ack_bytes s = (s1, r)" by fastforce
    from more f l rd_answer_spec(2) [OF l] show ?thesis by (auto simp: rd_send_eq)
  next
    case reack
    obtain s1 r where l: "line_send ack_bytes s = (s1, r)" by fastforce
    from reack f l rd_answer_spec(2) [OF l] show ?thesis by (auto simp: rd_send_eq)
  next
    case nack
    obtain s1 r where l: "line_send nack_bytes s = (s1, r)" by fastforce
    from nack f l rd_answer_spec(2) [OF l] show ?thesis by (auto simp: rd_send_eq)
  next
    case syn
    with f show ?thesis
      by (auto simp: rd_syn_comp_rcv_def mod_ctimer_def TAKE_MUTEX_def RELEASE_MUTEX_def
          elim!: bind_SomeE split: if_splits option.splits)
  qed (use f nx in \<open>auto simp: rd_soh_def rd_none_def rd_discard_byte_def rd_discard_retrans_def rd_prepare_retrans_def
      rd_seqno_def rd_seqnocomp_def rd_len0_def rd_len1_def rd_len0comp_def rd_len1comp_def rd_eot_comp_rcv_def
      rd_rcv_byte_def rd_loose_def Let_def elim!: bind_SomeE split: if_splits\<close>)
  then show "length (dmodem_frame (ct_user s')) = length (dmodem_frame (ct_user s))"
    "ev' = RCVBYTE_RDEVT \<Longrightarrow> ev = RCVBYTE_RDEVT \<and> nx \<in> {SYNCOMPRCV_RDST, EOTCOMPRCV_RDST}"
    "nx = WAITPAYLOAD_RDST \<Longrightarrow> f = rd_len1comp \<and> st = WAITLEN1COMP_RDST \<and> ev = RCVBYTE_RDEVT \<and> rd_ppayload (rds s') = rd_ppayload (rds s)
       \<or> f = rd_rcv_byte \<and> st = WAITPAYLOAD_RDST \<and> ev = RCVBYTE_RDEVT \<and> rd_ppayload (rds s') = Suc (rd_ppayload (rds s))"
    by auto
qed

lemma rd_syn_timers:
  assumes "rd_syn_comp_rcv s = Some (s', ev')" "\<not> ct_locked s" "ct_running s \<longrightarrow> get_slot rxuplayer_timer s \<noteq> None"
  shows "timers_kept s s'"
  using assms
  by (auto simp: rd_syn_comp_rcv_def mod_ctimer_def TAKE_MUTEX_def RELEASE_MUTEX_def get_slot_def timers_kept_def
      elim!: bind_SomeE split: if_splits option.splits)

lemma rd_calm_row:
  assumes c: "rd_calm \<nu> st ev s" and i: "rd_inv hist H0 q0 c0 cap st ev s"
    and row: "first_row rd_transitions st ev = Some (nx, f)" and f: "f s = Some (s', ev')" and nx: "nx \<noteq> EXIT_ST"
  shows "rd_calm \<nu> nx ev' s'"
proof -
  from c have free: "\<not> ct_locked s" and slot: "ct_running s \<longrightarrow> get_slot rxuplayer_timer s \<noteq> None"
    and b: "line_brings \<nu> (ct_user s)" by (auto simp: rd_calm_def)
  have t: "timers_kept s s'"
    using rd_row_effect(2) [OF row f nx] rd_syn_timers [of s s' ev'] f free slot by auto
  have e: "line_brings \<nu> (ct_user s')" "sys_left \<nu> s' \<le> sys_left \<nu> s"
    using rd_row_effect(1) [OF row f nx] b by (auto simp: rd_effect_def line_brings_def line_kept_def)
  have p0: "rd_ppayload (rds s) = 0" if "st = WAITLEN1COMP_RDST" "ev = RCVBYTE_RDEVT"
  proof -
    have st: "st \<in> rd_framed" using that(1) by (simp add: rd_framed_def)
    from i [unfolded that(2)] st obtain part where "rd_at st part (dmodem_frame (ct_user s)) (rds s)"
      by (rule rd_inv_framed)
    then show ?thesis using that(1) by (auto simp: rd_at_def)
  qed
  note fr = rd_row_frame [OF row f nx]
  have "(if nx = WAITPAYLOAD_RDST then rd_ppayload (rds s') else 0) + (if ev' = RCVBYTE_RDEVT then 1 else 0)
      \<le> (if st = WAITPAYLOAD_RDST then rd_ppayload (rds s) else 0) + (if ev = RCVBYTE_RDEVT then 1 else 0)"
    using fr(2,3) p0 by (cases "nx = WAITPAYLOAD_RDST") auto
  then show ?thesis
    using c t e fr(1) timers_kept_slot [OF t, of rxuplayer_timer] by (auto simp: rd_calm_def)
qed

lemma rd_sum_total:
  assumes i: "rd_inv hist H0 q0 c0 cap WAITCHECKSUM_RDST RCVBYTE_RDEVT s"
  shows "rd_rcv_checksum_byte s \<noteq> None"
proof -
  have "WAITCHECKSUM_RDST \<in> rd_framed" by (simp add: rd_framed_def)
  with i obtain ps part where d: "rd_done q0 c0 cap ps (rds s)" and at: "rd_at WAITCHECKSUM_RDST part (dmodem_frame (ct_user s)) (rds s)"
    by (rule rd_inv_framed)
  have l4: "length (rd_checksum (rds s)) = 4" using d by (simp add: rd_done_def)
  note n = rd_step_sum(3-5) [OF at l4]
  have lt: "rd_pchecksum (rds s) < 4" using at by (auto simp: rd_at_def)
  define s1 where "s1 = upd_rd (\<lambda>c. c\<lparr>rd_checksum := (rd_checksum c)[rd_pchecksum c := rd_byte_rcv c],
        rd_pchecksum := rd_pchecksum c + 1\<rparr>) s"
  have w: "rd_buf_wf (rds s1)" using d by (simp add: s1_def rd_done_def rd_buf_wf_def rd_items_def)
  have "\<exists>cs. get_dmchecksum (dmodem_frame (ct_user s1)) (rd_curr_bytes_readed (rds s1)) = Some cs"
    using n by (simp add: s1_def get_dmchecksum_def)
  then show ?thesis
    unfolding rd_rcv_checksum_byte_def s1_def [symmetric] Let_def
    using lt l4 rd_write_data_put [OF w] by (auto simp: guard_ok_def)
qed

lemma rd_row_total:
  assumes c: "rd_calm \<nu> st ev s" and i: "rd_inv hist H0 q0 c0 cap st ev s"
    and row: "first_row rd_transitions st ev = Some (nx, f)"
  shows "f s \<noteq> None"
  using row
proof (cases rule: rd_row_cases)
  case payload
  with c have "rd_ppayload (rds s) < length (dmodem_frame (ct_user s))" by (simp add: rd_calm_def)
  with payload show ?thesis by (simp add: rd_rcv_byte_def guard_ok_def Let_def)
next
  case sum
  with i rd_sum_total show ?thesis by auto
next
  case syn
  with c show ?thesis
    by (auto simp: rd_calm_def rd_syn_comp_rcv_def mod_ctimer_def TAKE_MUTEX_def split: option.splits)
next
  case finish
  with c show ?thesis by (simp add: rd_calm_def rd_exit_ok_def rd_send_eq prod.case_eq_if)
next
  case eof
  with c show ?thesis by (simp add: rd_calm_def rd_send_eof_ack_def rd_send_eq prod.case_eq_if)
next
  case giveup
  with c show ?thesis by (simp add: rd_calm_def rd_exit_retrans_def)
qed (auto simp: rd_soh_def rd_none_def rd_discard_byte_def rd_discard_retrans_def rd_prepare_retrans_def
    rd_seqno_def rd_seqnocomp_def rd_len0_def rd_len1_def rd_len0comp_def rd_len1comp_def rd_eot_comp_rcv_def
    rd_exit_rxuplayerto_def rd_send_eq Let_def prod.case_eq_if)

lemma rd_wait_total: "rd_wait_event s \<noteq> None"
  by (simp add: rd_wait_event_def Let_def prod.case_eq_if)

text \<open>Leaving the table frees nothing and takes nothing.\<close>

lemma rd_exit_unlocked:
  assumes row: "first_row rd_transitions st ev = Some (EXIT_ST, f)" and f: "f s = Some (s', ev')" and l: "\<not> ct_locked s"
  shows "\<not> ct_locked s'"
  using row
proof (cases rule: rd_row_cases)
  case finish
  obtain s1 r where "line_send ack_bytes (del_ct rxuplayer_timer s) = (s1, r)" by fastforce
  with finish f l rd_answer_spec(4) [OF this] show ?thesis by (auto simp: rd_exit_ok_def rd_send_eq)
next
  case eof
  obtain s1 r where "line_send ack_bytes (del_ct rxuplayer_timer s) = (s1, r)" by fastforce
  with eof f l rd_answer_spec(4) [OF this] show ?thesis
    by (auto simp: rd_send_eof_ack_def rd_send_eq SET_GLOBAL_ERROR_def)
qed (use f l in \<open>auto simp: rd_exit_rxuplayerto_def rd_exit_retrans_def SET_GLOBAL_ERROR_def rd_loose_def\<close>)

definition rd_sound ::
  "('w \<Rightarrow> nat) \<Rightarrow> ('w \<Rightarrow> nat) \<Rightarrow> ('w \<Rightarrow> io list) \<Rightarrow> io list \<Rightarrow> byte \<Rightarrow> byte list \<Rightarrow> nat \<Rightarrow> int \<Rightarrow> int \<Rightarrow> 'w dm_sys \<Rightarrow> bool" where
  "rd_sound \<mu> \<nu> hist H0 q0 c0 cap st ev s \<longleftrightarrow>
     rd_live \<mu> st ev s \<and> rd_calm \<nu> st ev s \<and> rd_holds hist H0 q0 c0 cap st ev s"

interpretation rdl: proto_live rd_transitions rd_wait_event NO_EVT EXIT_ST "rd_sound \<mu> \<nu> hist H0 q0 c0 cap"
  "\<lambda>s. rd_post hist H0 q0 c0 cap s \<and> \<not> ct_locked s" "rd_left \<mu>" for \<mu> \<nu> hist H0 q0 c0 cap
proof unfold_locales
  fix st ev s nx s' ev' and f :: "'a dm_sys handler"
  show "rd_sound \<mu> \<nu> hist H0 q0 c0 cap st ev s'" "rd_left \<mu> st ev s' < rd_left \<mu> st NO_EVT s"
    if "rd_sound \<mu> \<nu> hist H0 q0 c0 cap st NO_EVT s" "rd_wait_event s = Some (s', ev)"
    using that rd_live_wait [OF _ that(2)] rd_calm_wait [OF _ that(2)] rd_inv_wait [OF _ that(2)]
    unfolding rd_sound_def rd_holds_def by blast+
  show "rd_sound \<mu> \<nu> hist H0 q0 c0 cap st NO_EVT s" "rd_left \<mu> st NO_EVT s < rd_left \<mu> st ev s"
    if "rd_sound \<mu> \<nu> hist H0 q0 c0 cap st ev s" "ev \<noteq> NO_EVT" "first_row rd_transitions st ev = None"
    using that rd_inv_drop [OF _ that(2)] unfolding rd_sound_def rd_holds_def by blast+
  show "if nx = EXIT_ST then rd_post hist H0 q0 c0 cap s' \<and> \<not> ct_locked s' else rd_sound \<mu> \<nu> hist H0 q0 c0 cap nx ev' s'"
    if i: "rd_sound \<mu> \<nu> hist H0 q0 c0 cap st ev s" "ev \<noteq> NO_EVT"
      and r: "first_row rd_transitions st ev = Some (nx, f)" "f s = Some (s', ev')"
  proof (cases "nx = EXIT_ST")
    case True
    then show ?thesis
      using i rd_inv_row [OF _ _ r] rd_exit_unlocked [of st ev f s s' ev'] r
      by (auto simp: rd_sound_def rd_holds_def rd_calm_def)
  next
    case False
    from i have j: "rd_inv hist H0 q0 c0 cap st ev s" "length c0 \<le> cap" "rd_calm \<nu> st ev s" "rd_live \<mu> st ev s"
      by (auto simp: rd_sound_def rd_holds_def)
    show ?thesis
      using rd_inv_row [OF j(1,2) r] rd_calm_row [OF j(3,1) r False] rd_live_row(1) [OF j(4) i(2) r False] j(2) False
      by (simp add: rd_sound_def rd_holds_def)
  qed
  show "rd_left \<mu> nx ev' s' < rd_left \<mu> st ev s"
    if "rd_sound \<mu> \<nu> hist H0 q0 c0 cap st ev s" "ev \<noteq> NO_EVT" "first_row rd_transitions st ev = Some (nx, f)"
      "f s = Some (s', ev')" "nx \<noteq> EXIT_ST"
    using that rd_live_row(2) [OF _ that(2-5)] unfolding rd_sound_def by blast
  show "f s \<noteq> None"
    if "rd_sound \<mu> \<nu> hist H0 q0 c0 cap st ev s" "first_row rd_transitions st ev = Some (nx, f)"
    using that rd_row_total unfolding rd_sound_def rd_holds_def by blast
  show "rd_wait_event s \<noteq> None" by (rule rd_wait_total)
qed (rule rd_states_valid)

subsection \<open>The operation\<close>

definition rd_may_start :: "('w \<Rightarrow> nat) \<Rightarrow> ('w \<Rightarrow> io list) \<Rightarrow> 'w dm_sys \<Rightarrow> bool" where
  "rd_may_start \<nu> hist s \<longleftrightarrow> records hist (ct_user s) \<and> rd_ready s \<and> \<not> ct_locked s \<and>
     (ct_running s \<longrightarrow> get_free_slot s \<noteq> None) \<and> line_brings \<nu> (ct_user s) \<and>
     sys_left \<nu> s \<le> length (dmodem_frame (ct_user s))"

lemma add_ct_slot: "ct_running s \<Longrightarrow> get_free_slot s \<noteq> None \<Longrightarrow> get_slot t (add_ct t s) \<noteq> None"
proof -
  assume r: "ct_running s" and "get_free_slot s \<noteq> None"
  then obtain i where i: "find_slot None (ct_timers s) = Some i" by (auto simp: get_free_slot_def)
  note f = find_slot_Some [OF i]
  then have "Some t \<in> set ((ct_timers s)[i := Some t])" by (intro set_update_memI) auto
  with r i show ?thesis by (simp add: add_ct_def get_free_slot_def get_slot_def find_slot_None)
qed

lemma rd_init_user:
  assumes "rd_init s = Some (s', rv)"
  shows "ct_user s' = ct_user (upd_rd (\<lambda>c. c\<lparr>rd_ppayload := 0, rd_size_readed := 0, rd_retrans_no := 0,
        rd_rxuplayer_timer_expired := False\<rparr>) s)" "ct_locked s' = ct_locked s"
  using assms
  by (auto simp: rd_init_def Let_def elim!: bind_SomeE dest!: start_timer_frame)

lemma rd_init_slot:
  assumes "rd_init s = Some (s', rv)" "\<not> ct_locked s" "ct_running s \<longrightarrow> get_free_slot s \<noteq> None"
  shows "ct_running s' \<longrightarrow> get_slot rxuplayer_timer s' \<noteq> None"
proof -
  define s1 where "s1 = set_expires rxuplayer_timer (ct_ticks s + rxuplayer_to (conf s) * 10)
    (set_period rxuplayer_timer (rxuplayer_to (conf s) * 10) (upd_rd (\<lambda>c. c\<lparr>rd_ppayload := 0, rd_size_readed := 0,
       rd_retrans_no := 0, rd_rxuplayer_timer_expired := False\<rparr>) s))"
  have "s' = add_ct rxuplayer_timer s1"
    using assms(1,2) by (auto simp: rd_init_def Let_def s1_def)
  moreover have "get_free_slot s1 = get_free_slot s" "ct_running s1 = ct_running s"
    by (simp_all add: s1_def get_free_slot_def)
  ultimately show ?thesis using add_ct_slot [of s1 rxuplayer_timer] assms(3) by simp
qed

lemma rd_start_live:
  assumes "rd_init (CLEAR_GLOBAL_ERROR s) = Some (s1, rv)" "line_dies \<mu> (ct_user s)"
  shows "rd_live \<mu> WAITSOH_RDST NO_EVT (upd_rd (\<lambda>c. c\<lparr>rd_size_to_read := sz\<rparr>) s1)"
    "rd_left \<mu> WAITSOH_RDST NO_EVT (upd_rd (\<lambda>c. c\<lparr>rd_size_to_read := sz\<rparr>) s1) = 5 * sys_left \<mu> s + 1"
  using assms(2) by (simp_all add: rd_init_user [OF assms(1)] rd_live_def rd_loose_def line_dies_def rd_left_def
      rd_rank_def CLEAR_GLOBAL_ERROR_def)

lemma rd_start_calm:
  assumes "rd_init (CLEAR_GLOBAL_ERROR s) = Some (s1, rv)" "rd_may_start \<nu> hist s"
  shows "rd_calm \<nu> WAITSOH_RDST NO_EVT (upd_rd (\<lambda>c. c\<lparr>rd_size_to_read := sz\<rparr>) s1)"
proof -
  have "ct_running s1 \<longrightarrow> get_slot rxuplayer_timer s1 \<noteq> None"
    using assms(2) by (intro rd_init_slot [OF assms(1)]) (auto simp: rd_may_start_def CLEAR_GLOBAL_ERROR_def get_free_slot_def)
  then show ?thesis
    using assms(2) rd_init_user [OF assms(1)]
    by (simp add: rd_calm_def rd_may_start_def CLEAR_GLOBAL_ERROR_def line_brings_def line_kept_def get_slot_def)
qed

lemma rd_start_sound:
  assumes "rd_init (CLEAR_GLOBAL_ERROR s) = Some (s1, rv)" "rd_may_start \<nu> hist s" "line_dies \<mu> (ct_user s)"
  shows "rd_sound \<mu> \<nu> hist (sys_hist hist s) (rd_next_seqno (rds s)) (rd_buffered s) (rd_max_data_count (rds s))
    WAITSOH_RDST NO_EVT (upd_rd (\<lambda>c. c\<lparr>rd_size_to_read := sz\<rparr>) s1)"
proof -
  have "rd_holds hist (sys_hist hist s) (rd_next_seqno (rds s)) (rd_buffered s) (rd_max_data_count (rds s))
      WAITSOH_RDST NO_EVT (upd_rd (\<lambda>c. c\<lparr>rd_size_to_read := sz\<rparr>) s1)"
    using rd_start_holds [OF assms(1), where hist = hist] assms(2)
    by (simp add: rd_may_start_def CLEAR_GLOBAL_ERROR_def records_def rd_ready_def)
  with rd_start_live(1) [OF assms(1,3)] rd_start_calm [OF assms(1,2)] show ?thesis by (simp add: rd_sound_def)
qed

lemma dmodem_read_start:
  "dmodem_read fuel sz s =
     (if sz \<le> rd_data_count (rds s) \<or> rd_data_count (rds s) \<noteq> 0 \<and> (flags (conf s)) AND O_DMODEM_SPRD_NONBLOCK \<noteq> 0
      then (case rd_read_data sz (CLEAR_GLOBAL_ERROR s) of None \<Rightarrow> Fault | Some (s, bs) \<Rightarrow> Done s bs)
      else case rd_init (CLEAR_GLOBAL_ERROR s) of None \<Rightarrow> Fault
      | Some (s, rv) \<Rightarrow>
          (case proto_engine rd_transitions rd_wait_event rd_clean_curr_state
                  NO_EVT WAITSOH_RDST EXIT_ST fuel (upd_rd (\<lambda>c. c\<lparr>rd_size_to_read := sz\<rparr>) s) of
             Returned s \<Rightarrow> (case rd_read_data (rd_size_readed (rds s)) s of None \<Rightarrow> Fault | Some (s, bs) \<Rightarrow> Done s bs)
           | Crashed \<Rightarrow> Fault | Running _ \<Rightarrow> NotYet))"
  unfolding dmodem_read_def Let_def by (auto simp: CLEAR_GLOBAL_ERROR_def)

lemma rd_read_done: "rd_buf_wf (rds s) \<Longrightarrow> \<exists>s' bs. (case rd_read_data n s of None \<Rightarrow> Fault | Some (s, bs) \<Rightarrow> Done s bs) = Done s' bs"
  by (simp add: rd_read_data_get)

lemma dmodem_read_not_running:
  assumes "line_dies \<mu> (ct_user s)" "5 * sys_left \<mu> s + 1 < fuel"
  shows "dmodem_read fuel sz s \<noteq> NotYet"
proof (cases "rd_init (CLEAR_GLOBAL_ERROR s)")
  case None
  then show ?thesis unfolding dmodem_read_start by (auto split: option.splits)
next
  case (Some r)
  obtain s1 rv where r: "rd_init (CLEAR_GLOBAL_ERROR s) = Some (s1, rv)" using Some by (cases r) auto
  let ?s = "upd_rd (\<lambda>c. c\<lparr>rd_size_to_read := sz\<rparr>) s1"
  from rdh.run_halts [OF rd_start_live(1) [OF r assms(1)], of sz fuel] rd_start_live(2) [OF r assms(1), of sz] assms(2)
  have "case proto_run rd_transitions rd_wait_event NO_EVT EXIT_ST fuel (WAITSOH_RDST, NO_EVT, ?s) of Running c \<Rightarrow> False | _ \<Rightarrow> True"
    by (auto split: engine_result.splits)
  then show ?thesis
    unfolding dmodem_read_start r proto_engine_def
    by (auto split: option.splits engine_result.splits)
qed

lemma dmodem_read_total:
  assumes "line_dies \<mu> (ct_user s)" "5 * sys_left \<mu> s + 1 < fuel" "rd_may_start \<nu> hist s"
  shows "\<exists>s' bs. dmodem_read fuel sz s = Done s' bs"
proof (cases "sz \<le> rd_data_count (rds s) \<or> rd_data_count (rds s) \<noteq> 0 \<and> (flags (conf s)) AND O_DMODEM_SPRD_NONBLOCK \<noteq> 0")
  case True
  have "rd_buf_wf (rds (CLEAR_GLOBAL_ERROR s))"
    using assms(3) by (simp add: rd_may_start_def rd_ready_def CLEAR_GLOBAL_ERROR_def)
  from rd_read_done [OF this] True show ?thesis unfolding dmodem_read_start by simp
next
  case False
  have "\<not> ct_locked s" using assms(3) by (simp add: rd_may_start_def)
  then obtain s1 rv where r: "rd_init (CLEAR_GLOBAL_ERROR s) = Some (s1, rv)"
    by (simp add: rd_init_def Let_def CLEAR_GLOBAL_ERROR_def)
  let ?s = "upd_rd (\<lambda>c. c\<lparr>rd_size_to_read := sz\<rparr>) s1"
  from rdl.run_returns [OF rd_start_sound [OF r assms(3,1)], of sz fuel] rd_start_live(2) [OF r assms(1), of sz] assms(2)
  obtain s2 where run: "proto_run rd_transitions rd_wait_event NO_EVT EXIT_ST fuel (WAITSOH_RDST, NO_EVT, ?s) = Returned s2"
    and post: "rd_post hist (sys_hist hist s) (rd_next_seqno (rds s)) (rd_buffered s) (rd_max_data_count (rds s)) s2"
      "\<not> ct_locked s2" by auto
  have c: "rd_clean_curr_state s2 = Some (del_ct rxuplayer_timer s2)" using post(2) by (simp add: rd_clean_curr_state_def)
  have "rd_buf_wf (rds (del_ct rxuplayer_timer s2))" using post(1) by (auto simp: rd_post_def rd_done_def)
  from rd_read_done [OF this] show ?thesis
    unfolding dmodem_read_start r proto_engine_def option.case prod.case run engine_result.case c if_not_P [OF False] by blast
qed

text \<open>C8. On a line that delivers finitely many bytes and then loses the carrier a read never runs for
  ever, whatever the timer thread does: five turns of the engine per byte or carrier poll, and two more,
  decide it. It returns, and does not crash, if the mutex of the timers is free, its timer gets a slot,
  and the line brings at most as many bytes as the frame buffer holds.\<close>

theorem dmodem_read_returns:
  assumes "line_dies \<mu> (ct_user s)" "5 * sys_left \<mu> s + 1 < fuel"
  shows "dmodem_read fuel sz s \<noteq> NotYet \<and>
    (rd_may_start \<nu> hist s \<longrightarrow> (\<exists>s' bs. dmodem_read fuel sz s = Done s' bs))"
  using dmodem_read_not_running [OF assms] dmodem_read_total [OF assms] by blast

lemma script_brings: "line_brings (\<lambda>w. length (fst w)) (script_handler q n)"
proof -
  have r: "length (fst (fst (script_recv w k))) + (if fst (snd (script_recv w k)) = 1 then 1 else 0) \<le> length (fst w)" for w k
    by (cases "(w, k)" rule: script_recv.cases) auto
  have d: "length (fst (fst (script_dcd w))) \<le> length (fst w)" for w by (cases w rule: script_dcd.cases) auto
  have s: "length (fst (fst (script_send w bs))) \<le> length (fst w)" for w bs by (cases w) simp
  show ?thesis
    unfolding line_brings_def line_kept_def script_handler_def
    by (simp only: DmodemHandler.simps) (intro conjI allI s r d)
qed

lemma script_may_start: "length q \<le> 525 \<Longrightarrow> rd_may_start (\<lambda>w. length (fst w)) script_log (script_sys q n)"
  unfolding rd_may_start_def
  by (simp add: script_records script_rd_ready script_brings) (simp add: script_sys_def get_free_slot_def numeral_eq_Suc)

lemma dmodem_read_returns_witness:
  "\<exists>s' bs. dmodem_read 100 4 (script_sys [7, DM_SOH, 0, 0, DM_SYN, DM_SOH, DM_EOT, DM_EOTCOMP] 6) = Done s' bs"
  using dmodem_read_returns [where \<mu> = script_left and \<nu> = "\<lambda>w. length (fst w)" and hist = script_log and sz = 4
      and s = "script_sys [7, DM_SOH, 0, 0, DM_SYN, DM_SOH, DM_EOT, DM_EOTCOMP] 6" and fuel = 100]
    script_may_start [of "[7, DM_SOH, 0, 0, DM_SYN, DM_SOH, DM_EOT, DM_EOTCOMP]" 6]
  by (auto simp: script_dies script_rd_ready)

end
