(* ===== verification/Dmodem_Read_Msg.thy ===== *)
theory Dmodem_Read_Msg
  imports Dmodem_Read_Props Dmodem_Write_Props
begin

text \<open>
  Reception of a message of several frames: the frames into which the transmitter cuts a message, one
  after the other on the line, are read back as the message, each acknowledged.
\<close>

subsection \<open>The receiver between two frames\<close>

definition rd_between :: "nat \<Rightarrow> nat \<Rightarrow> byte \<Rightarrow> byte list \<Rightarrow> DMReadCurrState \<Rightarrow> bool" where
  "rd_between cap sz q c r \<longleftrightarrow> rd_buf_wf r \<and> rd_max_data_count r = cap \<and> length (rd_checksum r) = 4 \<and>
     rd_size_to_read r = sz \<and> rd_next_seqno r = q \<and> rd_items r = c \<and> rd_size_readed r = length c"

text \<open>A whole frame, up to the verdict on the last byte of its checksum.\<close>

lemma rd_frame_done:
  assumes s: "scripted s" and p: "0 < length p" "length p \<le> 512" "length p \<le> length frm"
    and b: "rd_between cap sz q c r" and room: "length c + length p \<le> cap"
  shows "\<exists>r' frm'. rd_go (length p + 14)
      (WAITSOH_RDST, NO_EVT, rd_view s frm r (dmframe c1 c2 q p @ rest, n, h)) =
      Running (WAITCHECKSUM_RDST,
        if length p < max_data_size (conf s) \<or> sz \<le> length c + length p \<or> flags (conf s) AND O_DMODEM_SPRD_NONBLOCK \<noteq> 0
        then NOMOREFRAMES_RDEVT else MOREFRAMES_RDEVT,
        rd_view s frm' r' (rest, n, h @ map Got (dmframe c1 c2 q p))) \<and>
    length frm' = length frm \<and> rd_between cap sz q (c @ p) r'"
proof -
  let ?fr = "dmframe c1 c2 q p"
  from b have r: "rd_buf_wf r" "rd_max_data_count r = cap" "length (rd_checksum r) = 4" "rd_size_to_read r = sz"
    "rd_next_seqno r = q" "rd_items r = c" "rd_size_readed r = length c" by (auto simp: rd_between_def)
  obtain k0 k1 k2 k3 where cs: "bytes32 (crc32 p) = [k0, k1, k2, k3]" by (simp add: bytes32_def)
  from rd_frame_run [OF s p r(3,5) cs, of c1 c2 rest n h] obtain r1 frm1 where
    run: "rd_go (length p + 13) (WAITSOH_RDST, NO_EVT, rd_view s frm r (?fr @ rest, n, h)) =
      Running (WAITCHECKSUM_RDST, NO_EVT, rd_view s frm1 r1 (k3 # rest, n, h @ map Got (butlast ?fr)))"
    and f: "take (length p) frm1 = p" "length frm1 = length frm" "rd_pchecksum r1 = 3"
      "rd_checksum r1 = [k0, k1, k2, rd_checksum r ! 3]" "rd_curr_bytes_readed r1 = length p"
      "rd_size_readed r1 = length c" "rd_size_to_read r1 = sz" "rd_next_seqno r1 = q"
      "rd_buf_wf r1" "rd_items r1 = c" "rd_max_data_count r1 = cap"
    using r by auto
  let ?r = "r1\<lparr>rd_byte_rcv := k3\<rparr>" and ?w = "(rest, n, h @ map Got ?fr)"
  have lastb: "butlast ?fr @ [k3] = ?fr" by (simp add: dmframe_head cs butlast_append)
  have "\<exists>r'. rd_rcv_checksum_byte (rd_view s frm1 ?r ?w) = Some (rd_view s frm1 r' ?w, rd_verdict (conf s) (rd_curr_bytes_readed ?r) ?r) \<and>
    rd_buf_wf r' \<and> rd_max_data_count r' = rd_max_data_count ?r \<and>
    rd_items r' = rd_items ?r @ take (rd_max_data_count ?r - length (rd_items ?r)) (take (rd_curr_bytes_readed ?r) frm1) \<and>
    rd_size_readed r' = rd_size_readed ?r + rd_curr_bytes_readed ?r \<and> rd_next_seqno r' = rd_next_seqno ?r \<and>
    rd_size_to_read r' = rd_size_to_read ?r \<and> length (rd_checksum r') = 4"
    by (rule rd_sum_last) (use f p cs in simp_all)
  then obtain r' where
    sum: "rd_rcv_checksum_byte (rd_view s frm1 ?r ?w) = Some (rd_view s frm1 r' ?w, rd_verdict (conf s) (length p) ?r)"
    and r': "rd_buf_wf r'" "rd_max_data_count r' = cap" "rd_items r' = c @ p" "rd_size_readed r' = length c + length p"
      "rd_next_seqno r' = q" "rd_size_to_read r' = sz" "length (rd_checksum r') = 4"
    using f room by auto
  have "h @ map Got (butlast ?fr) @ [Got k3] = h @ map Got ?fr" using arg_cong [OF lastb, of "map Got"] by simp
  then have "rd_go 1 (WAITCHECKSUM_RDST, NO_EVT, rd_view s frm1 r1 (k3 # rest, n, h @ map Got (butlast ?fr))) =
      Running (WAITCHECKSUM_RDST, rd_verdict (conf s) (length p) ?r, rd_view s frm1 r' ?w)"
    using s sum by (simp add: rd_run_simps)
  moreover have "length p + 14 = (length p + 13) + 1" by simp
  ultimately have "rd_go (length p + 14) (WAITSOH_RDST, NO_EVT, rd_view s frm r (?fr @ rest, n, h)) =
      Running (WAITCHECKSUM_RDST, rd_verdict (conf s) (length p) ?r, rd_view s frm1 r' ?w)"
    using run by (simp only: proto_run_add engine_result.case)
  moreover have v: "rd_verdict (conf s) (length p) ?r =
     (if length p < max_data_size (conf s) \<or> sz \<le> length c + length p \<or> flags (conf s) AND O_DMODEM_SPRD_NONBLOCK \<noteq> 0
      then NOMOREFRAMES_RDEVT else MOREFRAMES_RDEVT)"
    using f(6,7) by (simp add: rd_verdict_def)
  moreover have "rd_between cap sz q (c @ p) r'" using r' by (simp add: rd_between_def)
  ultimately show ?thesis unfolding v using f(2) by (intro exI [of _ r'] exI [of _ frm1] conjI)
qed

lemma rd_ack_script:
  "scripted s \<Longrightarrow> line_send ack_bytes (rd_view s frm r (q, n, h)) = (rd_view s frm r (q, n, h @ [Sent ack_bytes]), 1)"
  by (simp add: line_send_def rd_view_def scripted_def)

lemma rd_more_run:
  assumes "scripted s" "rd_between cap sz q c r"
  shows "rd_go 1 (WAITCHECKSUM_RDST, MOREFRAMES_RDEVT, rd_view s frm r (rest, n, h)) =
      Running (WAITSOH_RDST, NO_EVT, rd_view s frm (r\<lparr>rd_next_seqno := q + 1\<rparr>) (rest, n, h @ [Sent ack_bytes]))"
    "rd_between cap sz (q + 1) c (r\<lparr>rd_next_seqno := q + 1\<rparr>)"
proof -
  have row: "first_row rd_transitions WAITCHECKSUM_RDST MOREFRAMES_RDEVT = Some (WAITSOH_RDST, rd_more_frames)"
    by (simp add: rd_transitions_def)
  have f: "rd_more_frames (rd_view s frm r (rest, n, h)) =
      Some (rd_view s frm (r\<lparr>rd_next_seqno := q + 1\<rparr>) (rest, n, h @ [Sent ack_bytes]), NO_EVT)"
    using assms by (simp add: rd_send_eq rd_ack_script rd_between_def)
  show "rd_go 1 (WAITCHECKSUM_RDST, MOREFRAMES_RDEVT, rd_view s frm r (rest, n, h)) =
      Running (WAITSOH_RDST, NO_EVT, rd_view s frm (r\<lparr>rd_next_seqno := q + 1\<rparr>) (rest, n, h @ [Sent ack_bytes]))"
    using f by (simp add: rd_run_simps row [THEN rd_dispatch, simplified])
  show "rd_between cap sz (q + 1) c (r\<lparr>rd_next_seqno := q + 1\<rparr>)"
    using assms(2) by (simp add: rd_between_def rd_buf_wf_def rd_items_def)
qed

text \<open>The last acknowledgement and the way out.\<close>

lemma rd_finish_run:
  assumes "scripted s" "rd_between cap sz q c r"
  shows "\<exists>s'. rd_go 1 (WAITCHECKSUM_RDST, NOMOREFRAMES_RDEVT, rd_view s frm r (rest, n, h)) = Returned s' \<and>
    \<not> ct_locked s' \<and> uplayer_data (ct_user s') = (rest, n, h @ [Sent ack_bytes]) \<and>
    rd_between cap sz (q + 1) c (rds s') \<and> dm_global_error (ct_user s') = dm_global_error (ct_user s)"
proof -
  define x where "x = del_ct rxuplayer_timer (rd_view s frm r (rest, n, h))"
  have xu: "ct_user x = (ct_user s)\<lparr>dmodem_frame := frm, rd_curr_state := r, uplayer_data := (rest, n, h)\<rparr>"
    and xl: "\<not> ct_locked x" "send_buf (ct_user x) = script_send"
    using assms(1) by (simp_all add: x_def rd_view_def scripted_def)
  define s4 where "s4 = upd_rd (\<lambda>c. c\<lparr>rd_next_seqno := rd_next_seqno c + 1\<rparr>)
    (upd_stat (\<lambda>c. c\<lparr>rxacks := rxacks c + 1\<rparr>)
      (upd_h (\<lambda>u. u\<lparr>uplayer_data := (rest, n, h @ [Sent ack_bytes])\<rparr>) x))"
  have "\<not> ct_locked (rd_view s frm r (rest, n, h))" using assms(1) by (simp add: scripted_def rd_view_def)
  then have "stop_timer rxuplayer_timer (rd_view s frm r (rest, n, h)) = Some x" by (simp add: x_def)
  moreover have "line_send ack_bytes x = (upd_h (\<lambda>u. u\<lparr>uplayer_data := (rest, n, h @ [Sent ack_bytes])\<rparr>) x, 1)"
    using xu xl(2) by (simp add: line_send_def)
  ultimately have "rd_exit_ok (rd_view s frm r (rest, n, h)) = Some (s4, NO_EVT)"
    by (simp add: rd_exit_ok_def rd_send_eq s4_def)
  then have "rd_go 1 (WAITCHECKSUM_RDST, NOMOREFRAMES_RDEVT, rd_view s frm r (rest, n, h)) = Returned s4"
    by (simp add: rd_run_simps)
  moreover have "\<not> ct_locked s4 \<and> uplayer_data (ct_user s4) = (rest, n, h @ [Sent ack_bytes]) \<and>
    rd_between cap sz (q + 1) c (rds s4) \<and> dm_global_error (ct_user s4) = dm_global_error (ct_user s)"
    using assms(2) xl(1) by (simp add: s4_def xu rd_between_def rd_buf_wf_def rd_items_def)
  ultimately show ?thesis by blast
qed

subsection \<open>All the frames of a message\<close>

definition acked :: "byte list list \<Rightarrow> io list" where
  "acked F = concat (map (\<lambda>f. map Got f @ [Sent ack_bytes]) F)"

definition wire_bytes :: "byte \<Rightarrow> nat \<Rightarrow> byte list \<Rightarrow> byte list" where
  "wire_bytes q mx d = concat (number_frames q (chunks mx d))"

lemma chunk_frames:
  assumes "0 < mx"
  shows "length d \<le> mx \<Longrightarrow> number_frames q (chunks mx d) = [dmframe DM_CTRL_BYTE_0 DM_CTRL_BYTE_1 q d]"
    "mx < length d \<Longrightarrow> number_frames q (chunks mx d) =
      dmframe DM_CTRL_BYTE_0 DM_CTRL_BYTE_1 q (take mx d) # number_frames (q + 1) (chunks mx (drop mx d))"
  using assms by (simp_all add: chunks.simps [of mx d])

lemma rd_message_run:
  assumes s: "scripted s" and mx: "0 < max_data_size (conf s)" "max_data_size (conf s) \<le> 512"
    and block: "flags (conf s) AND O_DMODEM_SPRD_NONBLOCK = 0"
  shows "0 < length d \<Longrightarrow> max_data_size (conf s) \<le> length frm \<Longrightarrow> rd_between cap (length c + length d) q c r \<Longrightarrow>
    length c + length d \<le> cap \<Longrightarrow>
    \<exists>s'. rd_go (length d + 15 * length (chunks (max_data_size (conf s)) d))
        (WAITSOH_RDST, NO_EVT, rd_view s frm r (wire_bytes q (max_data_size (conf s)) d @ rest, n, h)) = Returned s' \<and>
      \<not> ct_locked s' \<and>
      uplayer_data (ct_user s') = (rest, n, h @ acked (number_frames q (chunks (max_data_size (conf s)) d))) \<and>
      rd_between cap (length c + length d) (q + of_nat (length (chunks (max_data_size (conf s)) d))) (c @ d) (rds s') \<and>
      dm_global_error (ct_user s') = dm_global_error (ct_user s)"
proof (induction "length d" arbitrary: d c q r frm h rule: less_induct)
  case less
  let ?mx = "max_data_size (conf s)" and ?sz = "length c + length d"
  show ?case
  proof (cases "length d \<le> ?mx")
    case True
    let ?fr = "dmframe DM_CTRL_BYTE_0 DM_CTRL_BYTE_1 q d"
    have F: "number_frames q (chunks ?mx d) = [?fr]" by (rule chunk_frames(1) [OF mx(1) True])
    have n1: "length (chunks ?mx d) = 1" using True by (simp add: chunks.simps [of ?mx d])
    from rd_frame_done [OF s _ _ _ less.prems(3,4), of frm DM_CTRL_BYTE_0 DM_CTRL_BYTE_1 rest n h] less.prems(1,2) True mx(2)
    obtain r1 frm1 where run: "rd_go (length d + 14) (WAITSOH_RDST, NO_EVT, rd_view s frm r (?fr @ rest, n, h)) =
        Running (WAITCHECKSUM_RDST, NOMOREFRAMES_RDEVT, rd_view s frm1 r1 (rest, n, h @ map Got ?fr))"
      and b: "rd_between cap ?sz q (c @ d) r1" by auto
    from rd_finish_run [OF s b, of frm1 rest n "h @ map Got ?fr"] obtain s' where
      fin: "rd_go 1 (WAITCHECKSUM_RDST, NOMOREFRAMES_RDEVT, rd_view s frm1 r1 (rest, n, h @ map Got ?fr)) = Returned s'"
      and s': "\<not> ct_locked s'" "uplayer_data (ct_user s') = (rest, n, (h @ map Got ?fr) @ [Sent ack_bytes])"
        "rd_between cap ?sz (q + 1) (c @ d) (rds s')" "dm_global_error (ct_user s') = dm_global_error (ct_user s)" by blast
    have "length d + 15 * length (chunks ?mx d) = (length d + 14) + 1" by (simp add: n1)
    then have "rd_go (length d + 15 * length (chunks ?mx d))
        (WAITSOH_RDST, NO_EVT, rd_view s frm r (wire_bytes q ?mx d @ rest, n, h)) = Returned s'"
      using run fin by (simp only: proto_run_add engine_result.case wire_bytes_def F concat.simps append_Nil2)
    with s' show ?thesis by (simp add: F n1 acked_def)
  next
    case False
    let ?p = "take ?mx d" and ?e = "drop ?mx d"
    let ?fr = "dmframe DM_CTRL_BYTE_0 DM_CTRL_BYTE_1 q ?p"
    have long: "?mx < length d" using False by simp
    have lp: "length ?p = ?mx" "length ?e < length d" "0 < length ?e" using long mx(1) by simp_all
    have F: "number_frames q (chunks ?mx d) = ?fr # number_frames (q + 1) (chunks ?mx ?e)"
      by (rule chunk_frames(2) [OF mx(1) long])
    have n1: "length (chunks ?mx d) = Suc (length (chunks ?mx ?e))"
      using long mx(1) by (simp add: chunks.simps [of ?mx d])
    let ?tail = "wire_bytes (q + 1) ?mx ?e @ rest"
    have W: "wire_bytes q ?mx d @ rest = ?fr @ ?tail" by (simp add: wire_bytes_def F)
    from rd_frame_done [OF s _ _ _ less.prems(3), of ?p frm DM_CTRL_BYTE_0 DM_CTRL_BYTE_1 ?tail n h] less.prems(2,4) lp mx block long
    obtain r1 frm1 where run: "rd_go (?mx + 14) (WAITSOH_RDST, NO_EVT, rd_view s frm r (?fr @ ?tail, n, h)) =
        Running (WAITCHECKSUM_RDST, MOREFRAMES_RDEVT, rd_view s frm1 r1 (?tail, n, h @ map Got ?fr))"
      and b: "rd_between cap ?sz q (c @ ?p) r1" "length frm1 = length frm" by auto
    note more = rd_more_run(1) [OF s b(1), of frm1 ?tail n "h @ map Got ?fr"] rd_more_run(2) [OF s b(1)]
    have sz: "length (c @ ?p) + length ?e = ?sz" using lp(1) long by simp
    have "\<exists>s'. rd_go (length ?e + 15 * length (chunks ?mx ?e))
        (WAITSOH_RDST, NO_EVT, rd_view s frm1 (r1\<lparr>rd_next_seqno := q + 1\<rparr>) (?tail, n, (h @ map Got ?fr) @ [Sent ack_bytes])) = Returned s' \<and>
      \<not> ct_locked s' \<and>
      uplayer_data (ct_user s') = (rest, n, ((h @ map Got ?fr) @ [Sent ack_bytes]) @ acked (number_frames (q + 1) (chunks ?mx ?e))) \<and>
      rd_between cap (length (c @ ?p) + length ?e) ((q + 1) + of_nat (length (chunks ?mx ?e))) ((c @ ?p) @ ?e) (rds s') \<and>
      dm_global_error (ct_user s') = dm_global_error (ct_user s)"
      by (rule less.hyps) (use lp less.prems(2,4) b(2) more(2) sz in simp_all)
    then obtain s' where rec: "rd_go (length ?e + 15 * length (chunks ?mx ?e))
        (WAITSOH_RDST, NO_EVT, rd_view s frm1 (r1\<lparr>rd_next_seqno := q + 1\<rparr>) (?tail, n, (h @ map Got ?fr) @ [Sent ack_bytes])) = Returned s'"
      and s': "\<not> ct_locked s'"
        "uplayer_data (ct_user s') = (rest, n, ((h @ map Got ?fr) @ [Sent ack_bytes]) @ acked (number_frames (q + 1) (chunks ?mx ?e)))"
        "rd_between cap ?sz ((q + 1) + of_nat (length (chunks ?mx ?e))) ((c @ ?p) @ ?e) (rds s')"
        "dm_global_error (ct_user s') = dm_global_error (ct_user s)" unfolding sz by blast
    have "length d + 15 * length (chunks ?mx d) = (?mx + 14) + (1 + (length ?e + 15 * length (chunks ?mx ?e)))"
      using long by (simp add: n1)
    then have "rd_go (length d + 15 * length (chunks ?mx d))
        (WAITSOH_RDST, NO_EVT, rd_view s frm r (wire_bytes q ?mx d @ rest, n, h)) = Returned s'"
      using run more(1) rec by (simp only: proto_run_add engine_result.case W)
    with s' show ?thesis by (simp add: F n1 acked_def algebra_simps)
  qed
qed

lemma rd_receives_message:
  assumes s: "scripted s" "rd_ready s" "rd_buffered s = []"
    and w: "uplayer_data (ct_user s) = (wire_bytes (rd_next_seqno (rds s)) (max_data_size (conf s)) d @ rest, n, h)"
    and d: "0 < length d" "length d \<le> rd_max_data_count (rds s)"
    and mx: "0 < max_data_size (conf s)" "max_data_size (conf s) \<le> 512" "max_data_size (conf s) \<le> length (dmodem_frame (ct_user s))"
    and block: "flags (conf s) AND O_DMODEM_SPRD_NONBLOCK = 0"
  defines "F \<equiv> number_frames (rd_next_seqno (rds s)) (chunks (max_data_size (conf s)) d)"
  shows "\<exists>s'. dmodem_read (length d + 15 * length F) (length d) s = Done s' d \<and>
    uplayer_data (ct_user s') = (rest, n, h @ acked F) \<and>
    rd_next_seqno (rds s') = rd_next_seqno (rds s) + of_nat (length F) \<and>
    dm_global_error (ct_user s') = EDMODEM_NOERROR"
proof -
  let ?q = "rd_next_seqno (rds s)" and ?mx = "max_data_size (conf s)"
  define s0 where "s0 = CLEAR_GLOBAL_ERROR s"
  define r where "r = (rds s)\<lparr>rd_ppayload := 0, rd_size_readed := 0, rd_retrans_no := 0,
        rd_rxuplayer_timer_expired := False, rd_size_to_read := length d\<rparr>"
  obtain s1 where i: "rd_init s0 = Some (s1, NO_EVT)" and "ct_sched s1 = []" "\<not> ct_locked s1"
    and u1: "ct_user s1 = (ct_user s)\<lparr>dm_global_error := EDMODEM_NOERROR,
      rd_curr_state := (rds s)\<lparr>rd_ppayload := 0, rd_size_readed := 0, rd_retrans_no := 0,
        rd_rxuplayer_timer_expired := False\<rparr>\<rparr>"
    using s(1) by (simp add: rd_init_def scripted_def s0_def CLEAR_GLOBAL_ERROR_def Let_def)
  define s2 where "s2 = upd_rd (\<lambda>c. c\<lparr>rd_size_to_read := length d\<rparr>) s1"
  have v: "s2 = rd_view s2 (dmodem_frame (ct_user s)) r (wire_bytes ?q ?mx d @ rest, n, h)"
    using rd_view_self [of s2] u1 w by (simp add: s2_def r_def)
  have sc: "scripted s2"
    using s(1) \<open>ct_sched s1 = []\<close> \<open>\<not> ct_locked s1\<close> u1 by (simp add: scripted_def s2_def)
  have conf: "conf s2 = conf s" "dm_global_error (ct_user s2) = EDMODEM_NOERROR" by (simp_all add: s2_def u1)
  have "rd_between (rd_max_data_count (rds s)) (length ([] :: byte list) + length d) ?q [] r"
    using s(2,3) by (simp add: r_def rd_between_def rd_ready_def rd_buf_wf_def rd_items_def)
  from rd_message_run [OF sc _ _ _ d(1) _ this, of "dmodem_frame (ct_user s)" rest n h] mx block d(2)
  obtain s3 where run: "rd_go (length d + 15 * length F) (WAITSOH_RDST, NO_EVT, s2) = Returned s3"
    and s3: "\<not> ct_locked s3" "uplayer_data (ct_user s3) = (rest, n, h @ acked F)"
      "rd_between (rd_max_data_count (rds s)) (length d) (?q + of_nat (length F)) d (rds s3)"
      "dm_global_error (ct_user s3) = EDMODEM_NOERROR"
    unfolding conf v [symmetric] F_def by auto
  let ?s4 = "del_ct rxuplayer_timer s3"
  have eng: "proto_engine rd_transitions rd_wait_event rd_clean_curr_state NO_EVT WAITSOH_RDST
      EXIT_ST (length d + 15 * length F) s2 = Returned ?s4"
    using run s3(1) by (simp add: proto_engine_def rd_clean_curr_state_def)
  have b4: "rd_buf_wf (rds ?s4)" "rd_buffered ?s4 = d" "rd_size_readed (rds ?s4) = length d"
    "rd_next_seqno (rds ?s4) = ?q + of_nat (length F)" using s3(3) by (simp_all add: rd_between_def)
  obtain s5 bs where give: "rd_read_data (length d) ?s4 = Some (s5, bs)"
    using rd_read_data_get [OF b4(1)] by fastforce
  note g = rd_give [OF b4(1) give]
  have "rd_data_count (rds s) = 0" using arg_cong [OF s(3), of length] by (simp add: rd_items_def)
  then have "dmodem_read (length d + 15 * length F) (length d) s = Done s5 d"
    using d(1) i eng give b4(2,3) g(1)
    by (simp add: dmodem_read_def s0_def [symmetric] s2_def [symmetric] Let_def)
      (simp add: s0_def CLEAR_GLOBAL_ERROR_def)
  then show ?thesis using g(3,4,7) b4(4) s3(2,4) by (intro exI [of _ s5]) simp
qed

subsection \<open>The property\<close>

text \<open>C6. Round trip of the two ends, for a message that fits the receive buffer (1024 bytes). Take a line
  that delivers its bytes without a gap, while the timer thread does not run, and brings the frames into
  which the transmitter cuts the message, numbered from the sequence number the receiver expects. Then a
  blocking read that asks for the message, with nothing buffered, returns exactly the message,
  acknowledges every frame as soon as it has it, advances the sequence number by the number of frames
  and leaves the rest of the line unread; it takes one turn of the engine per byte of the message and
  fifteen more per frame. Of a longer message the receiver acknowledges frames it has no room for.\<close>

theorem dmodem_read_receives_message:
  assumes s: "scripted s" "rd_ready s" "rd_buffered s = []"
    and w: "uplayer_data (ct_user s) =
      (concat (number_frames (rd_next_seqno (rds s)) (chunks (max_data_size (conf s)) d)) @ rest, n, h)"
    and d: "0 < length d" "length d \<le> rd_max_data_count (rds s)"
    and mx: "0 < max_data_size (conf s)" "max_data_size (conf s) \<le> 512" "max_data_size (conf s) \<le> length (dmodem_frame (ct_user s))"
    and block: "flags (conf s) AND O_DMODEM_SPRD_NONBLOCK = 0"
  shows "\<exists>s' k. k = length (chunks (max_data_size (conf s)) d) \<and> dmodem_read (length d + 15 * k) (length d) s = Done s' d \<and>
    uplayer_data (ct_user s') = (rest, n, h @ acked (number_frames (rd_next_seqno (rds s)) (chunks (max_data_size (conf s)) d))) \<and>
    rd_next_seqno (rds s') = rd_next_seqno (rds s) + of_nat k \<and> dm_global_error (ct_user s') = EDMODEM_NOERROR"
  using rd_receives_message [OF s w [folded wire_bytes_def] d mx block] by simp

lemma script_conf:
  "conf (script_sys q n) = dmconf (script_handler q n)" "flags (dmconf (script_handler q n)) = 0"
  by (simp_all add: script_handler_def)

lemma dmodem_read_receives_message_witness:
  "\<exists>s'. dmodem_read 630 600
      (script_sys (concat (number_frames 1 (chunks 512 (replicate 600 7))) @ [DM_SYN]) 3) = Done s' (replicate 600 7)"
proof -
  define d :: "byte list" where "d = replicate 600 7"
  have l: "length d = 600" by (simp add: d_def)
  then have k: "length (chunks 512 d) = 2" by (simp add: chunks.simps [of 512])
  from dmodem_read_receives_message [of "script_sys (concat (number_frames 1 (chunks 512 d)) @ [DM_SYN]) 3" d "[DM_SYN]" 3 "[]"]
  show ?thesis unfolding d_def [symmetric] by (simp add: script_rd_ready script_conf l k) blast
qed

end
