(* ===== verification/Dmodem_Link.thy ===== *)
theory Dmodem_Link
  imports Dmodem_Write
begin

text \<open>
  Opening and closing a DMODEM session: the connect and disconnect protocols of
  \<open>src/src/framework/telesup/dmodem/dmodem.c\<close>.

  The client sends SYN and its complement until NACK and its complement arrive; the closing side
  sends EOT and its complement until ACK and its complement arrive. Both count retries in a field
  that nothing resets, and set their timers to the bare timeout, an absolute tick count.
\<close>

subsection \<open>Connecting: handlers\<close>

definition conn_send_syn :: "'w dm_sys handler" where
  "conn_send_syn s = do {
     let s = set_expires connframe_timer (txframe_to (conf s)) s;
     s \<leftarrow> start_timer connframe_timer s;
     let (s, r) = line_send [DM_SYN, NOT DM_SYN] s;
     if r = 0 then Some (SET_GLOBAL_ERROR EDMODEM_FATAL s, SYN_SENDEDERR_CONNEVT)
     else Some (s, NO_EVT)
   }"

definition conn_none :: "'w dm_sys handler" where
  "conn_none s = Some (s, NO_EVT)"

definition conn_prepare_retrans :: "'w dm_sys handler" where
  "conn_prepare_retrans s = do {
     s \<leftarrow> stop_timer connframe_timer s;
     let s = upd_conn (\<lambda>c. c\<lparr>conn_retrans_no := conn_retrans_no c + 1\<rparr>) s;
     if conn_retrans_no (conn_curr_state (ct_user s)) < max_retries (conf s)
     then Some (s, MORERETRANS_CONNEVT) else Some (s, NOMORERETRANS_CONNEVT)
   }"

definition conn_exit_txuplayerto :: "'w dm_sys handler" where
  "conn_exit_txuplayerto s = do {
     s \<leftarrow> stop_timer connuplayer_timer s;
     Some (SET_GLOBAL_ERROR EDMODEM_TXUPLAYER_TO s, NO_EVT)
   }"

definition conn_exit_syn_error :: "'w dm_sys handler" where
  "conn_exit_syn_error s = do {
     s \<leftarrow> stop_timer connuplayer_timer s;
     Some (SET_GLOBAL_ERROR EDMODEM_FATAL s, NO_EVT)
   }"

definition conn_exit_retrans :: "'w dm_sys handler" where
  "conn_exit_retrans s = do {
     s \<leftarrow> stop_timer connuplayer_timer s;
     Some (SET_GLOBAL_ERROR EDMODEM_MAXRETRIES s, NO_EVT)
   }"

definition conn_exit_ok :: "'w dm_sys handler" where
  "conn_exit_ok s = do {
     s \<leftarrow> stop_timer connuplayer_timer s;
     s \<leftarrow> stop_timer connframe_timer s;
     Some (SET_GLOBAL_ERROR EDMODEM_NOERROR s, NO_EVT)
   }"

definition conn_transitions :: "'w dm_sys ProtoTransition list" where
  "conn_transitions =
   [ ProtoTransition START_CONNST SENDSYN_CONNEVT SYNSENDED_CONNST conn_send_syn
   , ProtoTransition SYNSENDED_CONNST UNBYTE_CONNEVT SYNSENDED_CONNST conn_none
   , ProtoTransition SYNSENDED_CONNST TXFRAMETO_CONNEVT CTRLRETRANS_CONNST conn_prepare_retrans
   , ProtoTransition SYNSENDED_CONNST TXUPLAYERTO_CONNEVT EXIT_ST conn_exit_txuplayerto
   , ProtoTransition SYNSENDED_CONNST NACK_CONNEVT NACKRCV_CONNST conn_none
   , ProtoTransition SYNSENDED_CONNST SYN_SENDEDERR_CONNEVT EXIT_ST conn_exit_syn_error
   , ProtoTransition CTRLRETRANS_CONNST MORERETRANS_CONNEVT SYNSENDED_CONNST conn_send_syn
   , ProtoTransition CTRLRETRANS_CONNST NOMORERETRANS_CONNEVT EXIT_ST conn_exit_retrans
   , ProtoTransition CTRLRETRANS_CONNST TXUPLAYERTO_CONNEVT EXIT_ST conn_exit_txuplayerto
   , ProtoTransition NACKRCV_CONNST NACKCOMP_CONNEVT EXIT_ST conn_exit_ok
   , ProtoTransition NACKRCV_CONNST UNBYTE_CONNEVT SYNSENDED_CONNST conn_none
   , ProtoTransition NACKRCV_CONNST TXFRAMETO_CONNEVT CTRLRETRANS_CONNST conn_prepare_retrans
   , ProtoTransition NACKRCV_CONNST TXUPLAYERTO_CONNEVT EXIT_ST conn_exit_txuplayerto ]"

subsection \<open>Connecting: the operation\<close>

definition conn_wait_event :: "'w dm_sys handler" where
  "conn_wait_event s =
     (let s = dm_timers_run s; (s, r, b) = line_recv 0 s in
      if r = 1 then
        Some (s, if b = DM_NACK then NACK_CONNEVT
                 else if b = DM_NACK_COMP then NACKCOMP_CONNEVT else UNBYTE_CONNEVT)
      else (let (s, d) = line_dcd s in
        if d = 0 then Some (s, TXUPLAYERTO_CONNEVT)
        else if conn_connuplayer_timer_expired (conn_curr_state (ct_user s)) then
          Some (upd_conn (\<lambda>c. c\<lparr>conn_connuplayer_timer_expired := False\<rparr>) s, TXUPLAYERTO_CONNEVT)
        else if conn_connframe_timer_expired (conn_curr_state (ct_user s)) then
          Some (upd_conn (\<lambda>c. c\<lparr>conn_connframe_timer_expired := False\<rparr>) s, TXFRAMETO_CONNEVT)
        else Some (s, NO_EVT)))"

definition conn_clean_curr_state :: "'w dm_sys \<Rightarrow> 'w dm_sys option" where
  "conn_clean_curr_state s = do {
     s \<leftarrow> stop_timer connuplayer_timer s;
     stop_timer connframe_timer s
   }"

definition conn_init :: "'w dm_sys \<Rightarrow> ('w dm_sys \<times> int) option" where
  "conn_init s = do {
     let s = upd_conn (\<lambda>c. c\<lparr>conn_connuplayer_timer_expired := False,
        conn_connframe_timer_expired := False\<rparr>) s;
     let s = set_expires connframe_timer (txframe_to (conf s)) s;
     let s = set_expires connuplayer_timer (txuplayer_to (conf s)) s;
     s \<leftarrow> start_timer connuplayer_timer s;
     (s, ev) \<leftarrow> conn_send_syn s;
     Some (s, if ev = NO_EVT then 1 else 0)
   }"

definition dmodem_connect :: "nat \<Rightarrow> 'w dm_sys \<Rightarrow> ('w dm_sys, int) outcome" where
  "dmodem_connect fuel s =
     (let s = CLEAR_GLOBAL_ERROR s in
      case conn_init s of
        None \<Rightarrow> Fault
      | Some (s, rv) \<Rightarrow>
          if rv = -1 then Done s (-1)
          else (case proto_engine conn_transitions conn_wait_event conn_clean_curr_state
                       NO_EVT SYNSENDED_CONNST EXIT_ST fuel s of
                  Returned s \<Rightarrow> Done s 1
                | Crashed \<Rightarrow> Fault
                | Running _ \<Rightarrow> NotYet))"

text \<open>The server's answer to a SYN.\<close>

definition dmodem_accept :: "'w dm_sys \<Rightarrow> 'w dm_sys \<times> int" where
  "dmodem_accept s = (let (s, r) = send_ack s in (s, 1))"

subsection \<open>Disconnecting: the timers\<close>

text \<open>
  The two timers of the disconnect operation beside those of \<open>dm_timer\<close>. \<open>dmodem_open\<close> sets the callbacks of
  the other timers, not of these, which lie in static memory: their callback is a null pointer. So the
  table as the operation finds it does not hold them, and a scan that finds one of them due, after the
  operation has registered them, ends the process (\<open>None\<close>).
\<close>

datatype link_timer = Timer dm_timer | disconnuplayer_timer | disconnframe_timer

type_synonym 'w link_sys = "(link_timer, 'w DmodemHandler) ctworld"

fun link_objs :: "(dm_timer \<Rightarrow> CTimer) \<Rightarrow> link_timer \<Rightarrow> CTimer" where
  "link_objs objs (Timer t) = objs t"
| "link_objs objs _ = \<lparr>expires = 0, periodic = False, period = 0\<rparr>"

definition link_sys :: "'w dm_sys \<Rightarrow> 'w link_sys" where
  "link_sys s = \<lparr>ct_running = ct_running s, ct_timers = map (map_option Timer) (ct_timers s),
     ct_objs = link_objs (ct_objs s), ct_locked = ct_locked s, ct_ticks = ct_ticks s, ct_sched = ct_sched s,
     ct_user = ct_user s\<rparr>"

fun link_fire :: "(link_timer, 'w DmodemHandler) callback" where
  "link_fire (Timer t) s = user_fire (\<lambda>_. timer_handler t) (Timer t) s"
| "link_fire _ s = None"

text \<open>The turn of the timer thread before a poll. The operation holds no mutex, so it does not block.\<close>

definition disconn_timers_run :: "'w link_sys \<Rightarrow> 'w link_sys option" where
  "disconn_timers_run s =
     (case ct_sched s of [] \<Rightarrow> Some s | ts # rest \<Rightarrow> thread_handle link_fire ts (s\<lparr>ct_sched := rest\<rparr>))"

subsection \<open>Disconnecting: handlers\<close>

definition disconn_send_eot :: "'w link_sys handler" where
  "disconn_send_eot s = do {
     let s = set_expires disconnframe_timer (txframe_to (conf s)) s;
     s \<leftarrow> start_timer disconnframe_timer s;
     let (s, r) = line_send [DM_EOT, NOT DM_EOT] s;
     if r = 0 then Some (SET_GLOBAL_ERROR EDMODEM_FATAL s, EOT_SENDEDERR_DISCONNEVT)
     else Some (s, NO_EVT)
   }"

definition disconn_none :: "'w link_sys handler" where
  "disconn_none s = Some (s, NO_EVT)"

definition disconn_prepare_retrans :: "'w link_sys handler" where
  "disconn_prepare_retrans s = do {
     s \<leftarrow> stop_timer disconnframe_timer s;
     let s = upd_disconn (\<lambda>c. c\<lparr>disconn_retrans_no := disconn_retrans_no c + 1\<rparr>) s;
     if disconn_retrans_no (disconn_curr_state (ct_user s)) < max_retries (conf s)
     then Some (s, MORERETRANS_DISCONNEVT) else Some (s, NOMORERETRANS_DISCONNEVT)
   }"

definition disconn_exit_txuplayerto :: "'w link_sys handler" where
  "disconn_exit_txuplayerto s = do {
     s \<leftarrow> stop_timer disconnuplayer_timer s;
     Some (SET_GLOBAL_ERROR EDMODEM_TXUPLAYER_TO s, NO_EVT)
   }"

definition disconn_exit_error :: "'w link_sys handler" where
  "disconn_exit_error s = do {
     s \<leftarrow> stop_timer disconnuplayer_timer s;
     Some (SET_GLOBAL_ERROR EDMODEM_FATAL s, NO_EVT)
   }"

definition disconn_exit_retrans :: "'w link_sys handler" where
  "disconn_exit_retrans s = do {
     s \<leftarrow> stop_timer disconnuplayer_timer s;
     Some (SET_GLOBAL_ERROR EDMODEM_MAXRETRIES s, NO_EVT)
   }"

definition disconn_exit_ok :: "'w link_sys handler" where
  "disconn_exit_ok s = do {
     s \<leftarrow> stop_timer disconnuplayer_timer s;
     s \<leftarrow> stop_timer disconnframe_timer s;
     Some (SET_GLOBAL_ERROR EDMODEM_NOERROR s, NO_EVT)
   }"

definition disconnect_transitions :: "'w link_sys ProtoTransition list" where
  "disconnect_transitions =
   [ ProtoTransition START_DISCONNST SENDEOT_DISCONNEVT EOTSENDED_DISCONNST disconn_send_eot
   , ProtoTransition EOTSENDED_DISCONNST UNBYTE_DISCONNEVT EOTSENDED_DISCONNST disconn_none
   , ProtoTransition EOTSENDED_DISCONNST TXFRAMETO_DISCONNEVT CTRLRETRANS_DISCONNST disconn_prepare_retrans
   , ProtoTransition EOTSENDED_DISCONNST TXUPLAYERTO_DISCONNEVT EXIT_ST disconn_exit_txuplayerto
   , ProtoTransition EOTSENDED_DISCONNST ACK_DISCONNEVT ACKRCV_DISCONNST disconn_none
   , ProtoTransition EOTSENDED_DISCONNST EOT_SENDEDERR_DISCONNEVT EXIT_ST disconn_exit_error
   , ProtoTransition CTRLRETRANS_DISCONNST MORERETRANS_DISCONNEVT EOTSENDED_DISCONNST disconn_send_eot
   , ProtoTransition CTRLRETRANS_DISCONNST NOMORERETRANS_DISCONNEVT EXIT_ST disconn_exit_retrans
   , ProtoTransition CTRLRETRANS_DISCONNST TXUPLAYERTO_DISCONNEVT EXIT_ST disconn_exit_txuplayerto
   , ProtoTransition ACKRCV_DISCONNST ACKCOMP_DISCONNEVT EXIT_ST disconn_exit_ok
   , ProtoTransition ACKRCV_DISCONNST UNBYTE_DISCONNEVT EOTSENDED_DISCONNST disconn_none
   , ProtoTransition ACKRCV_DISCONNST TXFRAMETO_DISCONNEVT CTRLRETRANS_DISCONNST disconn_prepare_retrans
   , ProtoTransition ACKRCV_DISCONNST TXUPLAYERTO_DISCONNEVT EXIT_ST disconn_exit_txuplayerto ]"

subsection \<open>Disconnecting: the operation\<close>

definition disconn_wait_event :: "'w link_sys handler" where
  "disconn_wait_event s = do {
     s \<leftarrow> disconn_timers_run s;
     let (s, r, b) = line_recv 0 s;
     if r = 1 then
       Some (s, if b = DM_ACK then ACK_DISCONNEVT
                else if b = DM_ACK_COMP then ACKCOMP_DISCONNEVT else UNBYTE_DISCONNEVT)
     else (let (s, d) = line_dcd s in
       if d = 0 then Some (s, TXUPLAYERTO_DISCONNEVT)
       else if disconn_disconnuplayer_timer_expired (disconn_curr_state (ct_user s)) then
         Some (upd_disconn (\<lambda>c. c\<lparr>disconn_disconnuplayer_timer_expired := False\<rparr>) s,
           TXUPLAYERTO_DISCONNEVT)
       else if disconn_disconnframe_timer_expired (disconn_curr_state (ct_user s)) then
         Some (upd_disconn (\<lambda>c. c\<lparr>disconn_disconnframe_timer_expired := False\<rparr>) s,
           TXFRAMETO_DISCONNEVT)
       else Some (s, NO_EVT))
   }"

definition disconn_clean_curr_state :: "'w link_sys \<Rightarrow> 'w link_sys option" where
  "disconn_clean_curr_state s = do {
     s \<leftarrow> stop_timer disconnuplayer_timer s;
     stop_timer disconnframe_timer s
   }"

definition disconn_init :: "'w link_sys \<Rightarrow> ('w link_sys \<times> int) option" where
  "disconn_init s = do {
     let s = upd_disconn (\<lambda>c. c\<lparr>disconn_disconnuplayer_timer_expired := False,
        disconn_disconnframe_timer_expired := False\<rparr>) s;
     let s = set_expires disconnframe_timer (txframe_to (conf s)) s;
     let s = set_expires disconnuplayer_timer (txuplayer_to (conf s)) s;
     s \<leftarrow> start_timer disconnuplayer_timer s;
     (s, ev) \<leftarrow> disconn_send_eot s;
     Some (s, if ev = NO_EVT then 1 else 0)
   }"

text \<open>The engine is started in \<open>SENDEOT_DISCONNEVT\<close>, which is an event.\<close>

definition dmodem_disconnect :: "nat \<Rightarrow> 'w dm_sys \<Rightarrow> ('w link_sys, int) outcome" where
  "dmodem_disconnect fuel s =
     (let s = CLEAR_GLOBAL_ERROR (link_sys s) in
      case disconn_init s of
        None \<Rightarrow> Fault
      | Some (s, rv) \<Rightarrow>
          if rv = -1 then Done s (-1)
          else (case proto_engine disconnect_transitions disconn_wait_event disconn_clean_curr_state
                       NO_EVT SENDEOT_DISCONNEVT EXIT_ST fuel s of
                  Returned s \<Rightarrow> Done s 1
                | Crashed \<Rightarrow> Fault
                | Running _ \<Rightarrow> NotYet))"

end
