(* ===== verification/Dmodem_Link_Props.thy ===== *)
theory Dmodem_Link_Props
  imports Dmodem_Link Dmodem_Write_Props
begin

text \<open>
  Correctness of the connect and disconnect protocols.

  The invariant of connecting (\<open>conn_holds\<close>) relates the state of the engine and the pending
  event to the end of the history of the line, and counts the SYNs against the retries; it gives
  the exact meaning of a successful connection. A measure on the rest of the line gives
  termination. Disconnecting starts its engine outside its table and polls until the timer thread
  calls a callback that was never installed.
\<close>

abbreviation conns :: "'w dm_sys \<Rightarrow> DMConnectCurrState" where
  "conns s \<equiv> conn_curr_state (ct_user s)"

abbreviation syn_bytes :: "byte list" where
  "syn_bytes \<equiv> [DM_SYN, DM_SYNCOMP]"

subsection \<open>What the handlers leave alone\<close>

definition calm :: "'w DmodemHandler \<Rightarrow> 'w DmodemHandler \<Rightarrow> bool" where
  "calm h h' \<longleftrightarrow> send_buf h' = send_buf h \<and> rcv_byte h' = rcv_byte h \<and>
     get_dcd_status h' = get_dcd_status h \<and> dmconf h' = dmconf h"

lemma quiet_calm: "quiet h h' \<Longrightarrow> calm h h'"
  by (simp add: calm_def quiet_fields)

lemma calm_transfer:
  assumes "calm h h'"
  shows "records hist h \<Longrightarrow> records hist h'" "line_dies \<mu> h \<Longrightarrow> line_dies \<mu> h'" "dmconf h' = dmconf h"
  using assms by (simp_all add: calm_def records_def line_dies_def)

lemma conn_send_spec:
  assumes "\<not> ct_locked s"
  shows "\<exists>s' ev. conn_send_syn s = Some (s', ev) \<and> calm (ct_user s) (ct_user s') \<and> \<not> ct_locked s' \<and>
    conns s' = conns s \<and> ev \<in> {NO_EVT, SYN_SENDEDERR_CONNEVT} \<and>
    (records hist (ct_user s) \<longrightarrow> sys_hist hist s' = sys_hist hist s @ [Sent syn_bytes]) \<and>
    (line_dies \<mu> (ct_user s) \<longrightarrow> sys_left \<mu> s' \<le> sys_left \<mu> s)"
  using assms
  by (auto simp: conn_send_syn_def Let_def line_send_def prod.case_eq_if SET_GLOBAL_ERROR_def
      calm_def records_def line_dies_def)

lemma conn_retrans_spec:
  assumes "\<not> ct_locked s"
  shows "\<exists>s' ev. conn_prepare_retrans s = Some (s', ev) \<and> calm (ct_user s) (ct_user s') \<and>
    \<not> ct_locked s' \<and> conn_retrans_no (conns s') = conn_retrans_no (conns s) + 1 \<and>
    uplayer_data (ct_user s') = uplayer_data (ct_user s) \<and>
    ev = (if conn_retrans_no (conns s') < max_retries (conf s') then MORERETRANS_CONNEVT
          else NOMORERETRANS_CONNEVT)"
  using assms by (auto simp: conn_prepare_retrans_def Let_def calm_def)

definition conn_fails :: "'w dm_sys handler set" where
  "conn_fails = {conn_exit_txuplayerto, conn_exit_syn_error, conn_exit_retrans}"

lemma conn_exit_spec:
  assumes "\<not> ct_locked s"
  shows "f \<in> conn_fails \<Longrightarrow> \<exists>s'. f s = Some (s', NO_EVT) \<and> \<not> ct_locked s' \<and>
      dm_global_error (ct_user s') \<noteq> EDMODEM_NOERROR \<and> uplayer_data (ct_user s') = uplayer_data (ct_user s)"
    "\<exists>s'. conn_exit_ok s = Some (s', NO_EVT) \<and> \<not> ct_locked s' \<and>
      dm_global_error (ct_user s') = EDMODEM_NOERROR \<and> uplayer_data (ct_user s') = uplayer_data (ct_user s)"
  using assms
  by (auto simp: conn_fails_def conn_exit_txuplayerto_def conn_exit_syn_error_def
      conn_exit_retrans_def conn_exit_ok_def SET_GLOBAL_ERROR_def)

definition conn_byte :: "byte \<Rightarrow> int" where
  "conn_byte b = (if b = DM_NACK then NACK_CONNEVT else if b = DM_NACK_COMP then NACKCOMP_CONNEVT
     else UNBYTE_CONNEVT)"

lemma conn_wait_spec:
  assumes "conn_wait_event s = Some (s', ev)"
  shows "calm (ct_user s) (ct_user s')" "ct_locked s' = ct_locked s"
    "conn_retrans_no (conns s') = conn_retrans_no (conns s)"
    "records hist (ct_user s) \<Longrightarrow> (\<exists>b. ev = conn_byte b \<and> sys_hist hist s' = sys_hist hist s @ [Got b])
      \<or> ev \<in> {TXUPLAYERTO_CONNEVT, TXFRAMETO_CONNEVT, NO_EVT} \<and> sys_hist hist s' = sys_hist hist s"
    "line_dies \<mu> (ct_user s) \<Longrightarrow> sys_left \<mu> s' < sys_left \<mu> s \<or> ev = TXUPLAYERTO_CONNEVT"
    "ev \<in> {TXUPLAYERTO_CONNEVT, TXFRAMETO_CONNEVT, NO_EVT} \<union> range conn_byte"
proof -
  define s0 where "s0 = dm_timers_run s"
  note t = timers_quiet [of s, folded s0_def]
  obtain s1 r b where r: "line_recv 0 s0 = (s1, r, b)" by (cases "line_recv 0 s0") auto
  obtain s2 d where d: "line_dcd s1 = (s2, d)" by fastforce
  note r1 = line_recv_spec [OF r] and d1 = line_dcd_spec [OF d]
  note q1 = quiet_trans [OF t(1) r1(1)] note q2 = quiet_trans [OF q1 d1(1)]
  have w: "if r = 1 then s' = s1 \<and> ev = conn_byte b
     else ev \<in> {TXUPLAYERTO_CONNEVT, TXFRAMETO_CONNEVT, NO_EVT} \<and> (d = 0 \<longrightarrow> ev = TXUPLAYERTO_CONNEVT) \<and>
       (s' = s2 \<or> s' = upd_conn (\<lambda>c. c\<lparr>conn_connuplayer_timer_expired := False\<rparr>) s2 \<or>
        s' = upd_conn (\<lambda>c. c\<lparr>conn_connframe_timer_expired := False\<rparr>) s2)"
    using assms r d
    by (auto simp: conn_wait_event_def s0_def [symmetric] Let_def conn_byte_def split: if_splits)
  show "calm (ct_user s) (ct_user s')"
    using w quiet_calm [OF q1] quiet_calm [OF q2] by (auto simp: calm_def split: if_splits)
  show "ct_locked s' = ct_locked s"
    using w t(2) r1(2) d1(2) by (auto split: if_splits)
  show "conn_retrans_no (conns s') = conn_retrans_no (conns s)"
    using w quiet_fields(15) [OF q1] quiet_fields(15) [OF q2] by (auto split: if_splits)
  show "ev \<in> {TXUPLAYERTO_CONNEVT, TXFRAMETO_CONNEVT, NO_EVT} \<union> range conn_byte"
    using w by (auto split: if_splits)
  show "(\<exists>b. ev = conn_byte b \<and> sys_hist hist s' = sys_hist hist s @ [Got b])
      \<or> ev \<in> {TXUPLAYERTO_CONNEVT, TXFRAMETO_CONNEVT, NO_EVT} \<and> sys_hist hist s' = sys_hist hist s"
    if "records hist (ct_user s)"
    using w r1(3) [OF records_quiet [OF that t(1)]] d1(3) [OF records_quiet [OF that q1]] t(3)
    by (auto split: if_splits)
  show "sys_left \<mu> s' < sys_left \<mu> s \<or> ev = TXUPLAYERTO_CONNEVT" if "line_dies \<mu> (ct_user s)"
    using w t(3) line_recv_left [OF r line_dies_quiet [OF that t(1)]]
      line_dcd_left [OF d line_dies_quiet [OF that q1]]
    by (auto split: if_splits)
qed

lemma conn_row_cases:
  assumes "first_row conn_transitions st ev = Some (nx, f)"
  obtains (none) "f = conn_none" "(st, ev, nx) \<in>
      {(SYNSENDED_CONNST, UNBYTE_CONNEVT, SYNSENDED_CONNST), (SYNSENDED_CONNST, NACK_CONNEVT, NACKRCV_CONNST),
       (NACKRCV_CONNST, UNBYTE_CONNEVT, SYNSENDED_CONNST)}"
  | (send) "f = conn_send_syn" "nx = SYNSENDED_CONNST"
      "st = START_CONNST \<or> st = CTRLRETRANS_CONNST \<and> ev = MORERETRANS_CONNEVT"
  | (retrans) "f = conn_prepare_retrans" "st \<in> {SYNSENDED_CONNST, NACKRCV_CONNST}"
      "ev = TXFRAMETO_CONNEVT" "nx = CTRLRETRANS_CONNST"
  | (finish) "f = conn_exit_ok" "st = NACKRCV_CONNST" "ev = NACKCOMP_CONNEVT" "nx = EXIT_ST"
  | (fail) "f \<in> conn_fails" "nx = EXIT_ST" "\<not> (st = NACKRCV_CONNST \<and> ev = NACKCOMP_CONNEVT)"
      "\<not> (st = NACKRCV_CONNST \<and> ev = NACKCOMP_CONNEVT)"
  using first_row_mem [OF assms] unfolding conn_transitions_def
  by (simp only: list.set insert_iff empty_iff ProtoTransition.inject simp_thms)
    (elim disjE conjE; simp add: conn_fails_def)

subsection \<open>The handshake\<close>

text \<open>
  \<open>ends_nack\<close> and \<open>shaken\<close> say how the part of the history that belongs to the operation ends:
  with a NACK, or with a NACK and, next to it, its complement.
\<close>

definition ends_nack :: "io list \<Rightarrow> bool" where
  "ends_nack t \<longleftrightarrow> (\<exists>u. t = u @ [Got DM_NACK])"

definition shaken :: "io list \<Rightarrow> bool" where
  "shaken t \<longleftrightarrow> (\<exists>u. t = u @ [Got DM_NACK, Got DM_NACK_COMP])"

lemma ends_simps [simp]:
  "\<not> ends_nack []" "\<not> shaken []" "ends_nack (t @ [Got b]) \<longleftrightarrow> b = DM_NACK"
  "\<not> ends_nack (t @ [Sent bs])" "\<not> shaken (t @ [Sent bs])"
  "shaken (t @ [Got b]) \<longleftrightarrow> b = DM_NACK_COMP \<and> ends_nack t"
proof -
  show "shaken (t @ [Got b]) \<longleftrightarrow> b = DM_NACK_COMP \<and> ends_nack t"
    unfolding shaken_def ends_nack_def
    using append_eq_append_conv2 by (metis append.assoc append1_eq_conv append_Cons append_Nil io.inject(2))
qed (auto simp: ends_nack_def shaken_def append_eq_append_conv2 Cons_eq_append_conv)

lemma ends_nack_not_shaken: "ends_nack t \<Longrightarrow> \<not> shaken t"
  by (auto simp: ends_nack_def)

definition conn_shape :: "int \<Rightarrow> int \<Rightarrow> io list \<Rightarrow> bool" where
  "conn_shape st ev t \<longleftrightarrow>
     (st = SYNSENDED_CONNST \<and> \<not> shaken t \<and> (ends_nack t \<longleftrightarrow> ev = NACK_CONNEVT)
        \<and> ev \<noteq> MORERETRANS_CONNEVT \<and> ev \<noteq> NOMORERETRANS_CONNEVT) \<or>
     (st = NACKRCV_CONNST \<and> (shaken t \<longleftrightarrow> ev = NACKCOMP_CONNEVT) \<and>
        (ends_nack t \<longleftrightarrow> ev \<notin> {NACKCOMP_CONNEVT, UNBYTE_CONNEVT})
        \<and> ev \<notin> {MORERETRANS_CONNEVT, NOMORERETRANS_CONNEVT, SYN_SENDEDERR_CONNEVT}) \<or>
     (st = CTRLRETRANS_CONNST \<and> \<not> shaken t \<and> ev \<in> {MORERETRANS_CONNEVT, NOMORERETRANS_CONNEVT})"

definition conn_holds ::
  "('w \<Rightarrow> io list) \<Rightarrow> io list \<Rightarrow> int \<Rightarrow> int \<Rightarrow> int \<Rightarrow> int \<Rightarrow> 'w dm_sys \<Rightarrow> bool" where
  "conn_holds hist H0 n0 mr st ev s \<longleftrightarrow>
     \<not> ct_locked s \<and> records hist (ct_user s) \<and> max_retries (conf s) = mr \<and>
     (\<exists>t. sys_hist hist s = H0 @ t \<and> conn_shape st ev t \<and> (\<forall>b. Sent b \<in> set t \<longrightarrow> b = syn_bytes) \<and>
        0 < sents t \<and> int (sents t) \<le> max 1 (mr - n0) \<and>
        int (sents t) = conn_retrans_no (conns s) - n0 + (if st = CTRLRETRANS_CONNST then 0 else 1) \<and>
        (ev = MORERETRANS_CONNEVT \<longrightarrow> conn_retrans_no (conns s) < mr))"

definition conn_post ::
  "('w \<Rightarrow> io list) \<Rightarrow> io list \<Rightarrow> int \<Rightarrow> int \<Rightarrow> 'w dm_sys \<Rightarrow> bool" where
  "conn_post hist H0 n0 mr s \<longleftrightarrow> \<not> ct_locked s \<and>
     (\<exists>t. sys_hist hist s = H0 @ t \<and> (\<forall>b. Sent b \<in> set t \<longrightarrow> b = syn_bytes) \<and>
        0 < sents t \<and> int (sents t) \<le> max 1 (mr - n0) \<and>
        (dm_global_error (ct_user s) = EDMODEM_NOERROR \<longleftrightarrow> shaken t))"

lemma conn_holdsE:
  assumes "conn_holds hist H0 n0 mr st ev s"
  obtains t where "\<not> ct_locked s" "records hist (ct_user s)" "max_retries (conf s) = mr"
    "sys_hist hist s = H0 @ t" "conn_shape st ev t" "\<And>b. Sent b \<in> set t \<Longrightarrow> b = syn_bytes"
    "0 < sents t" "int (sents t) \<le> max 1 (mr - n0)"
    "int (sents t) = conn_retrans_no (conns s) - n0 + (if st = CTRLRETRANS_CONNST then 0 else 1)"
    "ev = MORERETRANS_CONNEVT \<Longrightarrow> conn_retrans_no (conns s) < mr"
  using assms by (auto simp: conn_holds_def)

lemma conn_holdsI:
  assumes "\<not> ct_locked s" "records hist (ct_user s)" "max_retries (conf s) = mr"
    "sys_hist hist s = H0 @ t" "conn_shape st ev t" "\<And>b. Sent b \<in> set t \<Longrightarrow> b = syn_bytes"
    "0 < sents t" "int (sents t) \<le> max 1 (mr - n0)"
    "int (sents t) = conn_retrans_no (conns s) - n0 + (if st = CTRLRETRANS_CONNST then 0 else 1)"
    "ev = MORERETRANS_CONNEVT \<Longrightarrow> conn_retrans_no (conns s) < mr"
  shows "conn_holds hist H0 n0 mr st ev s"
  using assms by (auto simp: conn_holds_def)

lemma conn_holds_wait:
  assumes "conn_holds hist H0 n0 mr st NO_EVT s" "conn_wait_event s = Some (s', ev)"
  shows "conn_holds hist H0 n0 mr st ev s'"
  using assms(1)
proof (rule conn_holdsE)
  fix t
  assume t: "\<not> ct_locked s" "records hist (ct_user s)" "max_retries (conf s) = mr"
    "sys_hist hist s = H0 @ t" "conn_shape st NO_EVT t" "\<And>b. Sent b \<in> set t \<Longrightarrow> b = syn_bytes"
    "0 < sents t" "int (sents t) \<le> max 1 (mr - n0)"
    "int (sents t) = conn_retrans_no (conns s) - n0 + (if st = CTRLRETRANS_CONNST then 0 else 1)"
  note w = conn_wait_spec [OF assms(2)]
  note c = calm_transfer [OF w(1)]
  have st: "st = SYNSENDED_CONNST \<and> \<not> shaken t \<and> \<not> ends_nack t \<or>
      st = NACKRCV_CONNST \<and> \<not> shaken t \<and> ends_nack t"
    using t(5) by (auto simp: conn_shape_def)
  from w(4) [OF t(2)] show ?thesis
  proof (elim disjE exE conjE)
    fix b assume b: "ev = conn_byte b" "sys_hist hist s' = sys_hist hist s @ [Got b]"
    show ?thesis
    proof (rule conn_holdsI [where t = "t @ [Got b]"])
      show "conn_shape st ev (t @ [Got b])"
        using st b(1) by (auto simp: conn_shape_def conn_byte_def)
      show "ev = MORERETRANS_CONNEVT \<Longrightarrow> conn_retrans_no (conns s') < mr"
        using b(1) by (simp add: conn_byte_def split: if_splits)
    qed (use t b c w in \<open>auto simp: sents_def\<close>)
  next
    assume e: "ev \<in> {TXUPLAYERTO_CONNEVT, TXFRAMETO_CONNEVT, NO_EVT}" "sys_hist hist s' = sys_hist hist s"
    show ?thesis
    proof (rule conn_holdsI [where t = t])
      show "conn_shape st ev t" using st e(1) by (auto simp: conn_shape_def)
      show "ev = MORERETRANS_CONNEVT \<Longrightarrow> conn_retrans_no (conns s') < mr" using e(1) by auto
    qed (use t e c w in auto)
  qed
qed

lemma conn_holds_row:
  assumes i: "conn_holds hist H0 n0 mr st ev s" and row: "first_row conn_transitions st ev = Some (nx, f)"
    and f: "f s = Some (s', ev')" and ev: "ev \<noteq> NO_EVT"
  shows "if nx = EXIT_ST then conn_post hist H0 n0 mr s' else conn_holds hist H0 n0 mr nx ev' s'"
  using i
proof (rule conn_holdsE)
  fix t
  assume t: "\<not> ct_locked s" "records hist (ct_user s)" "max_retries (conf s) = mr"
    "sys_hist hist s = H0 @ t" "conn_shape st ev t" "\<And>b. Sent b \<in> set t \<Longrightarrow> b = syn_bytes"
    "0 < sents t" "int (sents t) \<le> max 1 (mr - n0)"
    "int (sents t) = conn_retrans_no (conns s) - n0 + (if st = CTRLRETRANS_CONNST then 0 else 1)"
    "ev = MORERETRANS_CONNEVT \<Longrightarrow> conn_retrans_no (conns s) < mr"
  from row show ?thesis
  proof (cases rule: conn_row_cases)
    case none
    have "conn_shape nx NO_EVT t" using none(2) t(5) by (auto simp: conn_shape_def ends_nack_not_shaken)
    then have "conn_holds hist H0 n0 mr nx NO_EVT s"
      using none t by (intro conn_holdsI [where t = t]) auto
    with none f show ?thesis by (auto simp: conn_none_def)
  next
    case send
    with t(5) have st: "st = CTRLRETRANS_CONNST" "ev = MORERETRANS_CONNEVT" by (auto simp: conn_shape_def)
    from conn_send_spec [OF t(1), of hist] f send(1) have s': "calm (ct_user s) (ct_user s')"
      "\<not> ct_locked s'" "conns s' = conns s" "ev' \<in> {NO_EVT, SYN_SENDEDERR_CONNEVT}"
      "sys_hist hist s' = sys_hist hist s @ [Sent syn_bytes]" using t(2) by auto
    have "conn_holds hist H0 n0 mr SYNSENDED_CONNST ev' s'"
    proof (rule conn_holdsI [where t = "t @ [Sent syn_bytes]"])
      show "conn_shape SYNSENDED_CONNST ev' (t @ [Sent syn_bytes])"
        using s'(4) by (auto simp: conn_shape_def)
      show "int (sents (t @ [Sent syn_bytes])) \<le> max 1 (mr - n0)" using t(9,10) st by simp
    qed (use t s' st calm_transfer [OF s'(1)] in auto)
    with send(2) show ?thesis by simp
  next
    case retrans
    from conn_retrans_spec [OF t(1)] f retrans(1) have s': "calm (ct_user s) (ct_user s')"
      "\<not> ct_locked s'" "conn_retrans_no (conns s') = conn_retrans_no (conns s) + 1"
      "uplayer_data (ct_user s') = uplayer_data (ct_user s)"
      "ev' = (if conn_retrans_no (conns s') < max_retries (conf s') then MORERETRANS_CONNEVT
          else NOMORERETRANS_CONNEVT)" by auto
    have cf: "max_retries (conf s') = mr" by (simp only: calm_transfer(3) [OF s'(1)] t(3))
    have "conn_holds hist H0 n0 mr CTRLRETRANS_CONNST ev' s'"
    proof (rule conn_holdsI [where t = t])
      show "conn_shape CTRLRETRANS_CONNST ev' t"
        using t(5) retrans(2,3) s'(5) by (auto simp: conn_shape_def)
      show "int (sents t) = conn_retrans_no (conns s') - n0 +
          (if CTRLRETRANS_CONNST = CTRLRETRANS_CONNST then 0 else 1)"
        using t(9) retrans(2) s'(3) by auto
      show "conn_retrans_no (conns s') < mr" if "ev' = MORERETRANS_CONNEVT"
        using that s'(5) unfolding cf by (cases "conn_retrans_no (conns s') < mr") simp_all
    qed (use t s' calm_transfer [OF s'(1)] in auto)
    with retrans(4) show ?thesis by simp
  next
    case finish
    with t(5) have "shaken t" by (auto simp: conn_shape_def)
    with t finish f conn_exit_spec(2) [OF t(1)] show ?thesis by (auto simp: conn_post_def)
  next
    case fail
    from fail(3) t(5) have "\<not> shaken t" by (auto simp: conn_shape_def ends_nack_not_shaken)
    with t f conn_exit_spec(1) [OF t(1) fail(1)] fail(2) show ?thesis by (auto simp: conn_post_def)
  qed
qed

lemma conn_holds_drop:
  assumes "conn_holds hist H0 n0 mr st ev s" "ev \<noteq> NO_EVT" "first_row conn_transitions st ev = None"
  shows "conn_holds hist H0 n0 mr st NO_EVT s"
  using assms(1)
proof (rule conn_holdsE)
  fix t
  assume t: "\<not> ct_locked s" "records hist (ct_user s)" "max_retries (conf s) = mr"
    "sys_hist hist s = H0 @ t" "conn_shape st ev t" "\<And>b. Sent b \<in> set t \<Longrightarrow> b = syn_bytes"
    "0 < sents t" "int (sents t) \<le> max 1 (mr - n0)"
    "int (sents t) = conn_retrans_no (conns s) - n0 + (if st = CTRLRETRANS_CONNST then 0 else 1)"
  have "conn_shape st NO_EVT t"
    using t(5) assms(3) by (auto simp: conn_shape_def conn_transitions_def split: if_splits)
  with t show ?thesis by (intro conn_holdsI [where t = t]) auto
qed

lemma conn_states_valid: "states_valid conn_transitions"
  by (simp add: states_valid_def conn_transitions_def)

interpretation conn: proto_machine conn_transitions conn_wait_event NO_EVT EXIT_ST
  "conn_holds hist H0 n0 mr" "conn_post hist H0 n0 mr" for hist H0 n0 mr
  by unfold_locales (rule conn_holds_wait conn_holds_row conn_holds_drop conn_states_valid; assumption)+

subsection \<open>The connection ends\<close>

definition conn_safe :: "('w \<Rightarrow> nat) \<Rightarrow> int \<Rightarrow> int \<Rightarrow> 'w dm_sys \<Rightarrow> bool" where
  "conn_safe \<mu> st ev s \<longleftrightarrow> \<not> ct_locked s \<and> line_dies \<mu> (ct_user s) \<and>
     (if st = CTRLRETRANS_CONNST then ev \<in> {MORERETRANS_CONNEVT, NOMORERETRANS_CONNEVT}
      else st \<in> {SYNSENDED_CONNST, NACKRCV_CONNST} \<and>
        ev \<notin> {MORERETRANS_CONNEVT, NOMORERETRANS_CONNEVT} \<and>
        (ev = SYN_SENDEDERR_CONNEVT \<longrightarrow> st = SYNSENDED_CONNST))"

definition conn_left :: "('w \<Rightarrow> nat) \<Rightarrow> int \<Rightarrow> int \<Rightarrow> 'w dm_sys \<Rightarrow> nat" where
  "conn_left \<mu> st ev s =
     (if ev \<in> {TXUPLAYERTO_CONNEVT, SYN_SENDEDERR_CONNEVT} then 0
      else 4 * sys_left \<mu> s + (if ev = NO_EVT then 2 else if st = CTRLRETRANS_CONNST then 4 else 5))"

lemma conn_safe_row:
  assumes i: "conn_safe \<mu> st ev s" and ev: "ev \<noteq> NO_EVT"
    and row: "first_row conn_transitions st ev = Some (nx, f)"
  shows "\<exists>s' ev'. f s = Some (s', ev') \<and> \<not> ct_locked s' \<and>
    (nx \<noteq> EXIT_ST \<longrightarrow> conn_safe \<mu> nx ev' s' \<and> conn_left \<mu> nx ev' s' < conn_left \<mu> st ev s)"
proof -
  from i have l: "\<not> ct_locked s" and d: "line_dies \<mu> (ct_user s)" by (auto simp: conn_safe_def)
  from row show ?thesis
  proof (cases rule: conn_row_cases)
    case none
    then have "conn_safe \<mu> nx NO_EVT s \<and> conn_left \<mu> nx NO_EVT s < conn_left \<mu> st ev s"
      using i by (auto simp: conn_safe_def conn_left_def)
    with none l show ?thesis by (simp add: conn_none_def)
  next
    case send
    with i have st: "st = CTRLRETRANS_CONNST" "ev = MORERETRANS_CONNEVT" by (auto simp: conn_safe_def)
    from conn_send_spec [OF l, of undefined \<mu>] obtain s' ev' where
      w: "conn_send_syn s = Some (s', ev')" "calm (ct_user s) (ct_user s')" "\<not> ct_locked s'"
      "ev' \<in> {NO_EVT, SYN_SENDEDERR_CONNEVT}" "sys_left \<mu> s' \<le> sys_left \<mu> s" using d by blast
    then have "conn_safe \<mu> SYNSENDED_CONNST ev' s'"
      using calm_transfer(2) [OF w(2) d] by (auto simp: conn_safe_def)
    moreover have "conn_left \<mu> SYNSENDED_CONNST ev' s' < conn_left \<mu> st ev s"
      using w(4,5) st by (auto simp: conn_left_def)
    ultimately show ?thesis using w send by blast
  next
    case retrans
    from conn_retrans_spec [OF l] obtain s' ev' where
      w: "conn_prepare_retrans s = Some (s', ev')" "calm (ct_user s) (ct_user s')" "\<not> ct_locked s'"
      "uplayer_data (ct_user s') = uplayer_data (ct_user s)"
      "ev' \<in> {MORERETRANS_CONNEVT, NOMORERETRANS_CONNEVT}" by auto
    then have "conn_safe \<mu> CTRLRETRANS_CONNST ev' s'"
      using calm_transfer(2) [OF w(2) d] by (auto simp: conn_safe_def)
    moreover have "conn_left \<mu> CTRLRETRANS_CONNST ev' s' < conn_left \<mu> st ev s"
      using w(4,5) retrans(2,3) by (auto simp: conn_left_def)
    ultimately show ?thesis using w retrans by blast
  next
    case finish
    with conn_exit_spec(2) [OF l] show ?thesis by auto
  next
    case fail
    with conn_exit_spec(1) [OF l fail(1)] show ?thesis by auto
  qed
qed

lemma conn_byte_range [simp]:
  "conn_byte b \<in> {NACK_CONNEVT, NACKCOMP_CONNEVT, UNBYTE_CONNEVT}"
  by (simp add: conn_byte_def)

lemma conn_safe_wait:
  assumes i: "conn_safe \<mu> st NO_EVT s" and w: "conn_wait_event s = Some (s', ev)"
  shows "conn_safe \<mu> st ev s'" "conn_left \<mu> st ev s' < conn_left \<mu> st NO_EVT s"
proof -
  from i have l: "\<not> ct_locked s" and d: "line_dies \<mu> (ct_user s)"
    and st: "st \<in> {SYNSENDED_CONNST, NACKRCV_CONNST}" by (auto simp: conn_safe_def split: if_splits)
  note c = conn_wait_spec [OF w]
  have e: "ev \<in> {TXUPLAYERTO_CONNEVT, TXFRAMETO_CONNEVT, NO_EVT, NACK_CONNEVT, NACKCOMP_CONNEVT, UNBYTE_CONNEVT}"
    using c(6) conn_byte_range by blast
  show "conn_safe \<mu> st ev s'"
    using e st l c(2) calm_transfer(2) [OF c(1) d] by (auto simp: conn_safe_def)
  show "conn_left \<mu> st ev s' < conn_left \<mu> st NO_EVT s"
    using c(5) [OF d] st by (auto simp: conn_left_def)
qed

lemma conn_safe_drop:
  assumes "conn_safe \<mu> st ev s" "ev \<noteq> NO_EVT" "first_row conn_transitions st ev = None"
  shows "conn_safe \<mu> st NO_EVT s" "conn_left \<mu> st NO_EVT s < conn_left \<mu> st ev s"
proof -
  from assms have "st \<noteq> CTRLRETRANS_CONNST" "ev \<notin> {TXUPLAYERTO_CONNEVT, SYN_SENDEDERR_CONNEVT}"
    by (auto simp: conn_safe_def conn_transitions_def split: if_splits)
  with assms(1,2) show "conn_safe \<mu> st NO_EVT s" "conn_left \<mu> st NO_EVT s < conn_left \<mu> st ev s"
    by (auto simp: conn_safe_def conn_left_def)
qed

lemma conn_wait_total: "conn_wait_event s \<noteq> None"
  by (simp add: conn_wait_event_def Let_def prod.case_eq_if)

interpretation connl: proto_live conn_transitions conn_wait_event NO_EVT EXIT_ST
  "conn_safe \<mu>" "\<lambda>s. \<not> ct_locked s" "conn_left \<mu>" for \<mu>
proof unfold_locales
  fix st ev s nx s' ev' and f :: "'a dm_sys handler"
  note row = conn_safe_row [of \<mu> st ev s nx f]
  show "f s \<noteq> None" "f s = Some (s', ev') \<Longrightarrow> if nx = EXIT_ST then \<not> ct_locked s' else conn_safe \<mu> nx ev' s'"
    "f s = Some (s', ev') \<Longrightarrow> nx \<noteq> EXIT_ST \<Longrightarrow> conn_left \<mu> nx ev' s' < conn_left \<mu> st ev s"
    if "conn_safe \<mu> st ev s" "ev \<noteq> NO_EVT" "first_row conn_transitions st ev = Some (nx, f)"
    using row [OF that] by auto
qed (rule conn_safe_wait conn_safe_drop conn_wait_total conn_states_valid; assumption)+

subsection \<open>The operation\<close>

text \<open>The state in which the first SYN is sent.\<close>

definition conn_started :: "'w dm_sys \<Rightarrow> 'w dm_sys" where
  "conn_started s = add_ct connuplayer_timer
     (set_expires connuplayer_timer (txuplayer_to (conf s)) (set_expires connframe_timer (txframe_to (conf s))
       (upd_conn (\<lambda>c. c\<lparr>conn_connuplayer_timer_expired := False, conn_connframe_timer_expired := False\<rparr>)
         (CLEAR_GLOBAL_ERROR s))))"

lemma conn_started_user:
  "ct_user (conn_started s) = (ct_user s)\<lparr>dm_global_error := EDMODEM_NOERROR, conn_curr_state :=
     (conns s)\<lparr>conn_connuplayer_timer_expired := False, conn_connframe_timer_expired := False\<rparr>\<rparr>"
  "ct_locked (conn_started s) = ct_locked s"
  by (simp_all add: conn_started_def CLEAR_GLOBAL_ERROR_def)

lemma conn_init_eq:
  "\<not> ct_locked s \<Longrightarrow> conn_init (CLEAR_GLOBAL_ERROR s) =
    map_option (\<lambda>(s', ev). (s', if ev = NO_EVT then 1 else 0)) (conn_send_syn (conn_started s))"
  by (cases "conn_send_syn (conn_started s)")
    (auto simp: conn_init_def Let_def conn_started_def CLEAR_GLOBAL_ERROR_def)

text \<open>After the first SYN, whether the line took it or not, both invariants hold.\<close>

lemma conn_init_spec:
  assumes "\<not> ct_locked s"
  obtains s' rv where "conn_init (CLEAR_GLOBAL_ERROR s) = Some (s', rv)" "rv \<in> {0, 1}"
    "records hist (ct_user s) \<Longrightarrow> conn_holds hist (sys_hist hist s) (conn_retrans_no (conns s))
       (max_retries (conf s)) SYNSENDED_CONNST NO_EVT s'"
    "line_dies \<mu> (ct_user s) \<Longrightarrow> conn_safe \<mu> SYNSENDED_CONNST NO_EVT s' \<and> sys_left \<mu> s' \<le> sys_left \<mu> s"
proof -
  define s1 where "s1 = conn_started s"
  note u = conn_started_user [of s, folded s1_def]
  have l: "\<not> ct_locked s1" and c1: "calm (ct_user s) (ct_user s1)"
    using assms by (simp_all add: u calm_def)
  from conn_send_spec [OF l, of hist \<mu>] obtain s' ev where
    w: "conn_send_syn s1 = Some (s', ev)" "calm (ct_user s1) (ct_user s')" "\<not> ct_locked s'"
    "conns s' = conns s1"
    and h: "records hist (ct_user s1) \<Longrightarrow> sys_hist hist s' = sys_hist hist s1 @ [Sent syn_bytes]"
    and d: "line_dies \<mu> (ct_user s1) \<Longrightarrow> sys_left \<mu> s' \<le> sys_left \<mu> s1" by blast
  have c: "calm (ct_user s) (ct_user s')" using c1 w(2) by (simp add: calm_def)
  show thesis
  proof (rule that)
    show "conn_init (CLEAR_GLOBAL_ERROR s) = Some (s', if ev = NO_EVT then 1 else 0)"
      using w(1) conn_init_eq [OF assms] by (simp add: s1_def)
    show "conn_holds hist (sys_hist hist s) (conn_retrans_no (conns s)) (max_retries (conf s))
        SYNSENDED_CONNST NO_EVT s'" if "records hist (ct_user s)"
      using w h [OF calm_transfer(1) [OF c1 that]] calm_transfer(1) [OF c that] calm_transfer(3) [OF c]
      by (intro conn_holdsI [where t = "[Sent syn_bytes]"]) (simp_all add: conn_shape_def ends_nack_def shaken_def u)
    show "conn_safe \<mu> SYNSENDED_CONNST NO_EVT s' \<and> sys_left \<mu> s' \<le> sys_left \<mu> s"
      if "line_dies \<mu> (ct_user s)"
      using w d [OF calm_transfer(2) [OF c1 that]] calm_transfer(2) [OF c that]
      by (simp add: conn_safe_def u)
  qed simp
qed

lemma conn_clean_user:
  "\<not> ct_locked s \<Longrightarrow> \<exists>s'. conn_clean_curr_state s = Some s' \<and> ct_user s' = ct_user s \<and> \<not> ct_locked s'"
  by (auto simp: conn_clean_curr_state_def)

lemma dmodem_connect_post:
  assumes c: "dmodem_connect fuel s = Done s' r" and rec: "records hist (ct_user s)" and l: "\<not> ct_locked s"
  shows "r = 1 \<and> conn_post hist (sys_hist hist s) (conn_retrans_no (conns s)) (max_retries (conf s)) s'"
  using l
proof (rule conn_init_spec [of s hist "\<lambda>_. 0"])
  fix s0 rv
  assume i: "conn_init (CLEAR_GLOBAL_ERROR s) = Some (s0, rv)" "rv \<in> {0, 1}"
    and h: "records hist (ct_user s) \<Longrightarrow> conn_holds hist (sys_hist hist s) (conn_retrans_no (conns s))
       (max_retries (conf s)) SYNSENDED_CONNST NO_EVT s0"
  from c i have r: "r = 1" and e: "proto_engine conn_transitions conn_wait_event conn_clean_curr_state
      NO_EVT SYNSENDED_CONNST EXIT_ST fuel s0 = Returned s'"
    by (auto simp: dmodem_connect_def Let_def split: engine_result.splits)
  from conn.engine_post [OF h [OF rec] e] obtain s1 where
    "conn_post hist (sys_hist hist s) (conn_retrans_no (conns s)) (max_retries (conf s)) s1"
    "conn_clean_curr_state s1 = Some s'" .
  with r conn_clean_user [of s1] show ?thesis by (auto simp: conn_post_def)
qed

subsection \<open>Disconnecting\<close>

lemma disconn_no_row: "first_row disconnect_transitions SENDEOT_DISCONNEVT ev = None"
  by (simp add: disconnect_transitions_def)

text \<open>A slot that holds one of the timers without callback, due at \<open>tick\<close>, ends the process.\<close>

definition null_timers :: "link_timer set" where
  "null_timers = {disconnuplayer_timer, disconnframe_timer}"

definition null_due :: "ulong \<Rightarrow> nat \<Rightarrow> 'w link_sys \<Rightarrow> bool" where
  "null_due tick i w \<longleftrightarrow> (\<exists>t \<in> null_timers. ct_timers w ! i = Some t \<and> expires (ct_objs w t) \<le> tick)"

definition link_kept :: "'w link_sys \<Rightarrow> 'w link_sys \<Rightarrow> bool" where
  "link_kept w w' \<longleftrightarrow> ct_timers w' = ct_timers w \<and> ct_running w' = ct_running w \<and> ct_sched w' = ct_sched w \<and>
     \<not> ct_locked w' \<and> (\<forall>t \<in> null_timers. ct_objs w' t = ct_objs w t)"

lemma link_kept_trans: "link_kept a b \<Longrightarrow> link_kept b c \<Longrightarrow> link_kept a c"
  by (simp add: link_kept_def)

lemma null_due_kept: "link_kept w w' \<Longrightarrow> null_due tick i w' = null_due tick i w"
  by (auto simp: link_kept_def null_due_def)

lemma link_slot:
  assumes "\<not> ct_locked w"
  shows "if null_due tick i w then handle_slot link_fire tick i w = None
    else \<exists>w'. handle_slot link_fire tick i w = Some w' \<and> link_kept w w'"
proof (cases "ct_timers w ! i")
  case None
  with assms show ?thesis
    by (simp add: handle_slot_def TAKE_MUTEX_def RELEASE_MUTEX_def null_due_def link_kept_def)
next
  case (Some t)
  with assms show ?thesis
    by (cases t) (auto simp: handle_slot_def TAKE_MUTEX_def RELEASE_MUTEX_def null_due_def null_timers_def link_kept_def
        user_fire_def Let_def)
qed

lemma link_scan:
  "\<not> ct_locked w \<Longrightarrow> if \<exists>i \<in> set is. null_due tick i w then handle_from link_fire tick is w = None
    else \<exists>w'. handle_from link_fire tick is w = Some w' \<and> link_kept w w'"
proof (induction "is" arbitrary: w)
  case (Cons i "is")
  show ?case
  proof (cases "null_due tick i w")
    case True
    with link_slot [OF Cons.prems, of tick i] show ?thesis by simp
  next
    case False
    with link_slot [OF Cons.prems, of tick i] obtain v where v: "handle_slot link_fire tick i w = Some v" "link_kept w v" by auto
    then have "\<not> ct_locked v" by (simp add: link_kept_def)
    from Cons.IH [OF this] v False show ?thesis by (auto simp: null_due_kept [OF v(2)] intro: link_kept_trans split: if_splits)
  qed
qed (simp add: link_kept_def)

text \<open>The two timers are registered and expire at \<open>e\<close>, the earlier of them.\<close>

definition poised :: "ulong \<Rightarrow> 'w link_sys \<Rightarrow> bool" where
  "poised e w \<longleftrightarrow> ct_running w \<and> \<not> ct_locked w \<and>
     (\<forall>t \<in> null_timers. \<exists>i < MAX_CTIMERS. ct_timers w ! i = Some t) \<and>
     e = min (expires (ct_objs w disconnuplayer_timer)) (expires (ct_objs w disconnframe_timer))"

lemma poised_due: "poised e w \<Longrightarrow> (\<exists>i \<in> {0..<MAX_CTIMERS}. null_due tick i w) \<longleftrightarrow> e \<le> tick"
  unfolding poised_def null_due_def null_timers_def by (auto simp: min_le_iff_disj)

lemma poised_kept: "link_kept w w' \<Longrightarrow> poised e w \<Longrightarrow> poised e w'"
  by (auto simp: poised_def link_kept_def null_timers_def)

lemma poised_wakes:
  "poised e w \<Longrightarrow> if \<exists>t \<in> set ts. e \<le> t then thread_handle link_fire ts w = None
    else \<exists>w'. thread_handle link_fire ts w = Some w' \<and> poised e w' \<and> ct_sched w' = ct_sched w"
proof (induction ts arbitrary: w)
  case (Cons t ts)
  let ?w = "w\<lparr>ct_ticks := t\<rparr>"
  have p: "poised e ?w" using Cons.prems by (simp add: poised_def)
  then have "\<not> ct_locked ?w" by (simp add: poised_def)
  note s = link_scan [OF this, of "[0..<MAX_CTIMERS]" t, folded handle_ctimers_def]
  show ?case
  proof (cases "e \<le> t")
    case True
    with s poised_due [OF p, of t] show ?thesis by simp
  next
    case False
    with s poised_due [OF p, of t] obtain v where v: "handle_ctimers link_fire t ?w = Some v" "link_kept ?w v" by auto
    from poised_kept [OF v(2) p] have q: "poised e v" .
    moreover from q have "ct_running v" by (simp add: poised_def)
    moreover have "ct_sched v = ct_sched w" using v(2) by (simp add: link_kept_def)
    ultimately show ?thesis using Cons.IH [of v] v(1) False by (auto split: if_splits)
  qed
qed simp

lemma disconn_rest:
  assumes "disconn_timers_run s = Some s0"
  shows "\<exists>s' ev. disconn_wait_event s = Some (s', ev) \<and> ct_timers s' = ct_timers s0 \<and> ct_running s' = ct_running s0 \<and>
    ct_locked s' = ct_locked s0 \<and> ct_sched s' = ct_sched s0 \<and> ct_objs s' = ct_objs s0"
  using assms by (auto simp: disconn_wait_event_def line_recv_def line_dcd_def Let_def prod.case_eq_if)

lemma disconn_poll:
  assumes "poised e s"
  shows "if \<exists>t \<in> set (concat (take 1 (ct_sched s))). e \<le> t then disconn_wait_event s = None
    else \<exists>s' ev. disconn_wait_event s = Some (s', ev) \<and> poised e s' \<and> ct_sched s' = tl (ct_sched s)"
proof (cases "ct_sched s")
  case Nil
  then have "disconn_timers_run s = Some s" by (simp add: disconn_timers_run_def)
  from disconn_rest [OF this] Nil assms show ?thesis by (auto simp: poised_def)
next
  case (Cons ts rest)
  let ?w = "s\<lparr>ct_sched := rest\<rparr>"
  have "poised e ?w" using assms by (simp add: poised_def)
  note w = poised_wakes [OF this, of ts]
  have run: "disconn_timers_run s = thread_handle link_fire ts ?w" using Cons by (simp add: disconn_timers_run_def)
  show ?thesis
  proof (cases "\<exists>t \<in> set ts. e \<le> t")
    case True
    with w run Cons show ?thesis by (simp add: disconn_wait_event_def)
  next
    case False
    with w run obtain s0 where "disconn_timers_run s = Some s0" "poised e s0" "ct_sched s0 = rest" by auto
    with disconn_rest [of s s0] Cons False show ?thesis by (auto simp: poised_def)
  qed
qed

definition disconn_go :: "nat \<Rightarrow> 'w link_sys \<Rightarrow> 'w link_sys engine_result" where
  "disconn_go n s = proto_run disconnect_transitions disconn_wait_event NO_EVT EXIT_ST n (SENDEOT_DISCONNEVT, NO_EVT, s)"

lemma disconn_turn:
  "proto_turn disconnect_transitions disconn_wait_event NO_EVT EXIT_ST (SENDEOT_DISCONNEVT, NO_EVT, s) =
    (case disconn_wait_event s of None \<Rightarrow> Crashed | Some (s', ev) \<Rightarrow> Running (SENDEOT_DISCONNEVT, NO_EVT, s'))"
  by (simp only: proto_turn_wait dispatch_none [OF disconn_no_row])

lemma disconn_go_simps [simp]:
  "disconn_go 0 s = Running (SENDEOT_DISCONNEVT, NO_EVT, s)"
  "disconn_go (Suc n) s = (case disconn_wait_event s of None \<Rightarrow> Crashed | Some (s', ev) \<Rightarrow> disconn_go n s')"
  unfolding disconn_go_def proto_run.simps disconn_turn by (simp_all split: option.split)

lemma disconn_run_stays: "disconn_go n s = Crashed \<or> (\<exists>s'. disconn_go n s = Running (SENDEOT_DISCONNEVT, NO_EVT, s'))"
proof (induction n arbitrary: s)
  case (Suc n)
  then show ?case by (cases "disconn_wait_event s") auto
qed simp

lemma disconn_run_poised:
  "poised e s \<Longrightarrow> disconn_go n s = Crashed \<longleftrightarrow> (\<exists>t \<in> set (concat (take n (ct_sched s))). e \<le> t)"
proof (induction n arbitrary: s)
  case (Suc n)
  have split: "concat (take (Suc n) xs) = concat (take 1 xs) @ concat (take n (tl xs))" for xs :: "ulong list list"
    by (cases xs) simp_all
  show ?case
  proof (cases "\<exists>t \<in> set (concat (take 1 (ct_sched s))). e \<le> t")
    case True
    with disconn_poll [OF Suc.prems] show ?thesis unfolding split by auto
  next
    case False
    with disconn_poll [OF Suc.prems] obtain s' ev where s': "disconn_wait_event s = Some (s', ev)" "poised e s'"
      "ct_sched s' = tl (ct_sched s)" by auto
    from Suc.IH [OF s'(2)] s' False show ?thesis unfolding split by auto
  qed
qed simp

text \<open>The start: two free slots of the table get the two timers.\<close>

lemma count_list_update: "i < length xs \<Longrightarrow> xs ! i = x \<Longrightarrow> y \<noteq> x \<Longrightarrow> count_list (xs[i := y]) x = count_list xs x - 1"
proof (induction xs arbitrary: i)
  case (Cons z xs)
  show ?case
  proof (cases i)
    case (Suc j)
    with Cons have "xs ! j = x" "j < length xs" by simp_all
    then have "0 < count_list xs x" by (metis count_list_0_iff gr0I nth_mem)
    with Suc Cons show ?thesis by simp
  qed (use Cons.prems in simp)
qed simp

lemma add_ct_fills:
  assumes "ct_running w" "1 \<le> count_list (ct_timers w) None" "length (ct_timers w) = MAX_CTIMERS"
  shows "\<exists>i < MAX_CTIMERS. ct_timers w ! i = None \<and> add_ct t w = w\<lparr>ct_timers := (ct_timers w)[i := Some t]\<rparr>"
proof -
  have "None \<in> set (ct_timers w)" using assms(2) by (metis count_notin not_one_le_zero)
  then obtain i where i: "get_free_slot w = Some i" by (auto simp: get_free_slot_def dest: find_slot_None [THEN iffD1, rotated])
     (metis find_slot_None not_None_eq)
  from find_slot_Some [of None "ct_timers w" i] i have "i < MAX_CTIMERS" "ct_timers w ! i = None"
    using assms(3) by (simp_all add: get_free_slot_def)
  with i assms(1) show ?thesis by (auto simp: add_ct_def)
qed

definition disconn_set :: "'w link_sys \<Rightarrow> 'w link_sys" where
  "disconn_set s = set_expires disconnuplayer_timer (txuplayer_to (conf s)) (set_expires disconnframe_timer (txframe_to (conf s))
     (upd_disconn (\<lambda>c. c\<lparr>disconn_disconnuplayer_timer_expired := False, disconn_disconnframe_timer_expired := False\<rparr>)
       (CLEAR_GLOBAL_ERROR s)))"

definition disconn_armed :: "'w link_sys \<Rightarrow> 'w link_sys" where
  "disconn_armed s = add_ct disconnframe_timer (set_expires disconnframe_timer (txframe_to (conf s))
     (add_ct disconnuplayer_timer (disconn_set s)))"

lemma disconn_init_armed:
  assumes "\<not> ct_locked s"
  shows "\<exists>s' rv. disconn_init (CLEAR_GLOBAL_ERROR s) = Some (s', rv) \<and> rv \<noteq> -1 \<and> ct_timers s' = ct_timers (disconn_armed s) \<and>
    ct_running s' = ct_running s \<and> \<not> ct_locked s' \<and> ct_sched s' = ct_sched s \<and> ct_objs s' = ct_objs (disconn_armed s)"
proof -
  let ?s1 = "disconn_set s"
  have l: "\<not> ct_locked ?s1" "ct_sched ?s1 = ct_sched s" "ct_running ?s1 = ct_running s"
    "conf (add_ct disconnuplayer_timer ?s1) = conf s" using assms by (simp_all add: disconn_set_def CLEAR_GLOBAL_ERROR_def)
  have "disconn_init (CLEAR_GLOBAL_ERROR s) = do {
      (s, ev) \<leftarrow> disconn_send_eot (add_ct disconnuplayer_timer ?s1); Some (s, if ev = NO_EVT then 1 else 0) }"
    using l(1) by (simp add: disconn_init_def disconn_set_def CLEAR_GLOBAL_ERROR_def Let_def)
  then show ?thesis
    using l by (auto simp: disconn_send_eot_def disconn_armed_def line_send_def SET_GLOBAL_ERROR_def Let_def prod.case_eq_if)
qed

lemma disconn_init_result: "disconn_init s = Some (s', rv) \<Longrightarrow> rv \<noteq> -1"
  by (auto simp: disconn_init_def Let_def elim!: bind_SomeE split: if_splits)

lemma armed_poised:
  assumes s: "ct_running s" "length (ct_timers s) = MAX_CTIMERS" "2 \<le> count_list (ct_timers s) None"
    and s': "ct_timers s' = ct_timers (disconn_armed s)" "ct_running s'" "\<not> ct_locked s'" "ct_objs s' = ct_objs (disconn_armed s)"
  shows "poised (min (txuplayer_to (conf s)) (txframe_to (conf s))) s'"
proof -
  let ?s1 = "disconn_set s"
  have t1: "ct_timers ?s1 = ct_timers s" "ct_running ?s1" using s(1) by (simp_all add: disconn_set_def CLEAR_GLOBAL_ERROR_def)
  obtain i where i: "i < MAX_CTIMERS" "ct_timers s ! i = None"
    "add_ct disconnuplayer_timer ?s1 = ?s1\<lparr>ct_timers := (ct_timers s)[i := Some disconnuplayer_timer]\<rparr>"
    using add_ct_fills [of ?s1 disconnuplayer_timer] t1 s by auto
  let ?s2 = "set_expires disconnframe_timer (txframe_to (conf s)) (add_ct disconnuplayer_timer ?s1)"
  have "count_list ((ct_timers s)[i := Some disconnuplayer_timer]) None = count_list (ct_timers s) None - 1"
    using i s(2) by (intro count_list_update) simp_all
  then obtain j where j: "j < MAX_CTIMERS" "(ct_timers s)[i := Some disconnuplayer_timer] ! j = None"
    "add_ct disconnframe_timer ?s2 = ?s2\<lparr>ct_timers := (ct_timers s)[i := Some disconnuplayer_timer, j := Some disconnframe_timer]\<rparr>"
    using add_ct_fills [of ?s2 disconnframe_timer] i(3) t1 s by fastforce
  have ne: "i \<noteq> j" using i(1) j(2) s(2) by auto
  have t: "ct_timers s' = (ct_timers s)[i := Some disconnuplayer_timer, j := Some disconnframe_timer]"
    using s'(1) j(3) by (simp add: disconn_armed_def)
  have "ct_timers s' ! i = Some disconnuplayer_timer" "ct_timers s' ! j = Some disconnframe_timer"
    using t ne i(1) j(1) s(2) by simp_all
  moreover have "expires (ct_objs s' disconnuplayer_timer) = txuplayer_to (conf s)"
    "expires (ct_objs s' disconnframe_timer) = txframe_to (conf s)"
    using s'(4) by (simp_all add: disconn_armed_def disconn_set_def set_expires_def CLEAR_GLOBAL_ERROR_def)
  ultimately show ?thesis using s'(2,3) i(1) j(1) unfolding poised_def null_timers_def by auto
qed

subsection \<open>A run on the scripted line\<close>

lemma conn_wait_script:
  assumes "ct_sched s = []" "rcv_byte (ct_user s) = script_recv" "uplayer_data (ct_user s) = (b # q, n, h)"
  shows "conn_wait_event s = Some (upd_h (\<lambda>u. u\<lparr>uplayer_data := (q, n, h @ [Got b])\<rparr>) s, conn_byte b)"
  using assms by (auto simp: conn_wait_event_def dm_timers_asleep line_recv_def conn_byte_def)

lemma conn_init_script:
  assumes "ct_sched s = []" "rcv_byte (ct_user s) = script_recv" "send_buf (ct_user s) = script_send"
    "get_dcd_status (ct_user s) = script_dcd" "uplayer_data (ct_user s) = (q, n, h)" "\<not> ct_locked s"
  shows "\<exists>s0. conn_init (CLEAR_GLOBAL_ERROR s) = Some (s0, 1) \<and> rcv_byte (ct_user s0) = script_recv \<and>
    get_dcd_status (ct_user s0) = script_dcd \<and> ct_sched s0 = [] \<and> \<not> ct_locked s0 \<and> uplayer_data (ct_user s0) = (q, n, h @ [Sent syn_bytes])"
proof -
  define s1 where "s1 = conn_started s"
  have u: "ct_sched s1 = []" "rcv_byte (ct_user s1) = script_recv" "send_buf (ct_user s1) = script_send"
    "get_dcd_status (ct_user s1) = script_dcd"
    "uplayer_data (ct_user s1) = (q, n, h)" "\<not> ct_locked s1"
    using assms by (simp_all add: s1_def conn_started_user) (simp add: conn_started_def CLEAR_GLOBAL_ERROR_def)
  have "\<exists>s0. conn_send_syn s1 = Some (s0, NO_EVT) \<and> rcv_byte (ct_user s0) = script_recv \<and>
    get_dcd_status (ct_user s0) = script_dcd \<and> ct_sched s0 = [] \<and> \<not> ct_locked s0 \<and> uplayer_data (ct_user s0) = (q, n, h @ [Sent syn_bytes])"
    by (simp add: conn_send_syn_def line_send_def u Let_def)
  then show ?thesis using conn_init_eq [OF assms(6)] by (auto simp: s1_def)
qed

lemma conn_sample_run:
  "\<exists>s'. dmodem_connect 5 (script_sys [7, DM_NACK, DM_NACK_COMP] 0) = Done s' 1 \<and>
    dm_global_error (ct_user s') = 0"
proof -
  let ?s = "script_sys [7, DM_NACK, DM_NACK_COMP] 0"
  from conn_init_script [of ?s "[7, DM_NACK, DM_NACK_COMP]" 0 "[]"] obtain s0 where
    i: "conn_init (CLEAR_GLOBAL_ERROR ?s) = Some (s0, 1)"
    and u: "rcv_byte (ct_user s0) = script_recv" "ct_sched s0 = []" "\<not> ct_locked s0"
      "uplayer_data (ct_user s0) = ([7, DM_NACK, DM_NACK_COMP], 0, [Sent syn_bytes])"
    by (auto simp: script_handler_def)
  have "\<exists>s'. proto_engine conn_transitions conn_wait_event conn_clean_curr_state NO_EVT SYNSENDED_CONNST
      EXIT_ST 5 s0 = Returned s' \<and> dm_global_error (ct_user s') = 0"
    by (simp add: proto_engine_def proto_turn_def dispatch_def conn_wait_script conn_byte_def u
        conn_transitions_def conn_none_def conn_exit_ok_def SET_GLOBAL_ERROR_def conn_clean_curr_state_def)
  with i show ?thesis by (auto simp: dmodem_connect_def)
qed

lemma conn_wait_script_lost:
  assumes "ct_sched s = []" "rcv_byte (ct_user s) = script_recv" "get_dcd_status (ct_user s) = script_dcd"
    "uplayer_data (ct_user s) = ([], 0, h)"
  shows "\<exists>s'. conn_wait_event s = Some (s', TXUPLAYERTO_CONNEVT) \<and> ct_locked s' = ct_locked s \<and>
    uplayer_data (ct_user s') = ([], 0, h)"
  using assms by (auto simp: conn_wait_event_def dm_timers_asleep line_recv_def line_dcd_def Let_def)

subsection \<open>The properties\<close>

text \<open>C11. Opening a session: when the connect operation returns, all it has sent is the SYN and its
  complement, at least once and at most as often as retries are left; and it reports no error exactly
  if the last two bytes that arrived are NACK and, with nothing sent in between, its complement. Its
  result is 1 in either case.\<close>

theorem dmodem_connect_handshake:
  assumes "dmodem_connect fuel s = Done s' r" "records hist (ct_user s)" "\<not> ct_locked s"
  shows "r = 1 \<and> (\<exists>t. sys_hist hist s' = sys_hist hist s @ t \<and>
    (\<forall>b. Sent b \<in> set t \<longrightarrow> b = [DM_SYN, DM_SYNCOMP]) \<and> 0 < sents t \<and>
    int (sents t) \<le> max 1 (max_retries (conf s) - conn_retrans_no (conn_curr_state (ct_user s))) \<and>
    (dm_global_error (ct_user s') = EDMODEM_NOERROR \<longleftrightarrow>
       (\<exists>u. t = u @ [Got DM_NACK, Got DM_NACK_COMP])))"
  using dmodem_connect_post [OF assms] unfolding conn_post_def shaken_def by blast

lemma dmodem_connect_handshake_witness:
  "\<exists>s' t u. dmodem_connect 5 (script_sys [7, DM_NACK, DM_NACK_COMP] 0) = Done s' 1 \<and>
    sys_hist script_log s' = t \<and> t = u @ [Got DM_NACK, Got DM_NACK_COMP] \<and> sents t \<le> 3"
proof -
  from conn_sample_run obtain s' where
    r: "dmodem_connect 5 (script_sys [7, DM_NACK, DM_NACK_COMP] 0) = Done s' 1"
    and e: "dm_global_error (ct_user s') = 0" by blast
  from dmodem_connect_handshake [OF r, where hist = script_log] e obtain t u where
    "sys_hist script_log s' = sys_hist script_log (script_sys [7, DM_NACK, DM_NACK_COMP] 0) @ t"
    "t = u @ [Got DM_NACK, Got DM_NACK_COMP]"
    "int (sents t) \<le> max 1 (3 - conn_retrans_no (conn_curr_state (script_handler [7, DM_NACK, DM_NACK_COMP] 0)))"
    by (auto simp: script_records)
  with r show ?thesis by (auto simp: script_handler_def)
qed

text \<open>C12. A peer that answers the SYN the way the accept operation does (ACK and its complement, where
  the interface documents a NACK) is never connected: if no NACK arrives, the connect operation
  returns with an error.\<close>

theorem dmodem_accept_never_connects:
  assumes "dmodem_connect fuel s = Done s' r" "records hist (ct_user s)" "\<not> ct_locked s"
    and "sys_hist hist s' = sys_hist hist s @ t"
    and "\<And>b. Got b \<in> set t \<Longrightarrow> b \<in> {DM_ACK, DM_ACK_COMP}"
  shows "dm_global_error (ct_user s') \<noteq> EDMODEM_NOERROR \<and>
    (records h' (ct_user p) \<longrightarrow> sys_hist h' (fst (dmodem_accept p)) = sys_hist h' p @ [Sent [DM_ACK, DM_ACK_COMP]])"
proof -
  from dmodem_connect_post [OF assms(1-3)] assms(4)
  have "dm_global_error (ct_user s') = EDMODEM_NOERROR \<longleftrightarrow> shaken t" by (auto simp: conn_post_def)
  moreover have "\<not> shaken t" using assms(5) [of DM_NACK] by (auto simp: shaken_def)
  ultimately show ?thesis
    by (auto simp: dmodem_accept_def send_ack_def line_send_def Let_def records_def prod.case_eq_if)
qed

lemma conn_accept_run:
  "\<exists>s'. dmodem_connect 5 (script_sys [DM_ACK, DM_ACK_COMP] 0) = Done s' 1 \<and>
    sys_hist script_log s' = [Sent syn_bytes, Got DM_ACK, Got DM_ACK_COMP]"
proof -
  let ?s = "script_sys [DM_ACK, DM_ACK_COMP] 0"
  let ?h = "[Sent syn_bytes, Got DM_ACK, Got DM_ACK_COMP]"
  from conn_init_script [of ?s "[DM_ACK, DM_ACK_COMP]" 0 "[]"] obtain s0 where
    i: "conn_init (CLEAR_GLOBAL_ERROR ?s) = Some (s0, 1)"
    and u: "rcv_byte (ct_user s0) = script_recv" "ct_sched s0 = []" "\<not> ct_locked s0"
      "get_dcd_status (ct_user s0) = script_dcd"
      "uplayer_data (ct_user s0) = ([DM_ACK, DM_ACK_COMP], 0, [Sent syn_bytes])"
    by (auto simp: script_handler_def)
  define s2 where "s2 = upd_h (\<lambda>v. v\<lparr>uplayer_data := ([], 0, ?h)\<rparr>) s0"
  have s2: "ct_sched s2 = []" "rcv_byte (ct_user s2) = script_recv"
    "get_dcd_status (ct_user s2) = script_dcd" "uplayer_data (ct_user s2) = ([], 0, ?h)" "\<not> ct_locked s2"
    using u by (simp_all add: s2_def)
  obtain s3 where w: "conn_wait_event s2 = Some (s3, TXUPLAYERTO_CONNEVT)" "\<not> ct_locked s3"
    "uplayer_data (ct_user s3) = ([], 0, ?h)"
    using conn_wait_script_lost [OF s2(1-4)] s2(5) by auto
  define s1 where "s1 = upd_h (\<lambda>v. v\<lparr>uplayer_data := ([DM_ACK_COMP], 0, [Sent syn_bytes, Got DM_ACK])\<rparr>) s0"
  have s1: "ct_sched s1 = []" "rcv_byte (ct_user s1) = script_recv"
    "uplayer_data (ct_user s1) = ([DM_ACK_COMP], 0, [Sent syn_bytes, Got DM_ACK])"
    using u by (simp_all add: s1_def)
  have w0: "conn_wait_event s0 = Some (s1, UNBYTE_CONNEVT)"
    using conn_wait_script [OF u(2,1,5)] by (simp add: s1_def conn_byte_def)
  have w1: "conn_wait_event s1 = Some (s2, UNBYTE_CONNEVT)"
    using conn_wait_script [OF s1] by (simp add: s1_def s2_def conn_byte_def)
  have "\<exists>s'. proto_engine conn_transitions conn_wait_event conn_clean_curr_state NO_EVT SYNSENDED_CONNST
      EXIT_ST 5 s0 = Returned s' \<and> uplayer_data (ct_user s') = ([], 0, ?h)"
    using w(2,3)
    by (simp add: proto_engine_def proto_turn_def dispatch_def w0 w1 w(1) conn_transitions_def
        conn_none_def conn_exit_txuplayerto_def SET_GLOBAL_ERROR_def conn_clean_curr_state_def)
  with i show ?thesis by (auto simp: dmodem_connect_def)
qed

lemma dmodem_accept_never_connects_witness:
  "\<exists>s'. dmodem_connect 5 (script_sys [DM_ACK, DM_ACK_COMP] 0) = Done s' 1 \<and>
    dm_global_error (ct_user s') \<noteq> EDMODEM_NOERROR"
proof -
  from conn_accept_run obtain s' where
    r: "dmodem_connect 5 (script_sys [DM_ACK, DM_ACK_COMP] 0) = Done s' 1"
    and h: "sys_hist script_log s' = [Sent syn_bytes, Got DM_ACK, Got DM_ACK_COMP]" by blast
  from dmodem_accept_never_connects [OF r, where hist = script_log and
      t = "[Sent syn_bytes, Got DM_ACK, Got DM_ACK_COMP]" and h' = script_log and p = s'] h
  have "dm_global_error (ct_user s') \<noteq> EDMODEM_NOERROR" by (auto simp: script_records)
  with r show ?thesis by blast
qed

text \<open>C13. On a line that delivers finitely many bytes and then loses the carrier, the connect
  operation returns, whatever the timer thread does.\<close>

theorem dmodem_connect_returns:
  assumes "line_dies \<mu> (ct_user s)" "\<not> ct_locked s" "4 * sys_left \<mu> s + 2 < fuel"
  shows "\<exists>s'. dmodem_connect fuel s = Done s' 1"
  using assms(2)
proof (rule conn_init_spec [of s "\<lambda>_. []" \<mu>])
  fix s0 rv
  assume i: "conn_init (CLEAR_GLOBAL_ERROR s) = Some (s0, rv)" "rv \<in> {0, 1}"
    and d: "line_dies \<mu> (ct_user s) \<Longrightarrow> conn_safe \<mu> SYNSENDED_CONNST NO_EVT s0 \<and> sys_left \<mu> s0 \<le> sys_left \<mu> s"
  from d [OF assms(1)] assms(3) have m: "conn_safe \<mu> SYNSENDED_CONNST NO_EVT s0"
    "conn_left \<mu> SYNSENDED_CONNST NO_EVT s0 < fuel" by (auto simp: conn_left_def)
  from connl.run_returns [OF m] obtain s1 where
    "proto_run conn_transitions conn_wait_event NO_EVT EXIT_ST fuel (SYNSENDED_CONNST, NO_EVT, s0) = Returned s1"
    "\<not> ct_locked s1" by blast
  with i conn_clean_user [of s1] show ?thesis by (auto simp: dmodem_connect_def proto_engine_def)
qed

lemma dmodem_connect_returns_witness:
  "\<exists>s'. dmodem_connect 200 (script_sys [DM_ACK, 7, DM_NACK] 5) = Done s' 1"
  using dmodem_connect_returns [where \<mu> = script_left and s = "script_sys [DM_ACK, 7, DM_NACK] 5" and fuel = 200]
  by (auto simp: script_dies)

text \<open>C14. Closing a session never ends well. The operation sends one EOT and polls the line; whatever
  arrives it never returns, because its engine is started with an event number where a state is
  expected. And the two timers it registers have no callback: if the table has a slot for both, then
  the first scan of the timer thread at or after the smaller of their two timeouts, which are absolute
  tick counts, calls a null pointer. So within \<open>fuel\<close> polls the process has crashed exactly if the thread
  has woken at such a time; else the operation is still polling.\<close>

theorem dmodem_disconnect_never_returns:
  "dmodem_disconnect fuel s \<noteq> Done s' r \<and>
   (ct_running s \<and> \<not> ct_locked s \<and> length (ct_timers s) = MAX_CTIMERS \<and> 2 \<le> count_list (ct_timers s) None \<longrightarrow>
     dmodem_disconnect fuel s =
       (if \<exists>t \<in> set (concat (take fuel (ct_sched s))). min (txuplayer_to (conf s)) (txframe_to (conf s)) \<le> t
        then Fault else NotYet))"
proof -
  let ?s = "link_sys s"
  have l: "ct_running ?s = ct_running s" "ct_locked ?s = ct_locked s" "conf ?s = conf s" "ct_sched ?s = ct_sched s"
    "length (ct_timers ?s) = length (ct_timers s)" by (simp_all add: link_sys_def)
  have c: "count_list (ct_timers ?s) None = count_list (ct_timers s) None"
  proof -
    have "count_list (map (map_option Timer) xs) None = count_list xs None" for xs :: "dm_timer option list"
      by (induction xs) auto
    then show ?thesis by (simp add: link_sys_def)
  qed
  have d: "dmodem_disconnect fuel s = (case disconn_init (CLEAR_GLOBAL_ERROR ?s) of None \<Rightarrow> Fault
    | Some (s, rv) \<Rightarrow> if rv = -1 then Done s (-1) else
        (case proto_engine disconnect_transitions disconn_wait_event disconn_clean_curr_state NO_EVT SENDEOT_DISCONNEVT EXIT_ST fuel s of
           Returned s \<Rightarrow> Done s 1 | Crashed \<Rightarrow> Fault | Running _ \<Rightarrow> NotYet))"
    by (simp only: dmodem_disconnect_def Let_def)
  have e: "(case proto_engine disconnect_transitions disconn_wait_event disconn_clean_curr_state NO_EVT SENDEOT_DISCONNEVT EXIT_ST fuel x of
           Returned s \<Rightarrow> Done s 1 | Crashed \<Rightarrow> Fault | Running _ \<Rightarrow> NotYet) = (if disconn_go fuel x = Crashed then Fault else NotYet)"
    for x :: "'a link_sys"
    using disconn_run_stays [of fuel x] unfolding proto_engine_def disconn_go_def by auto
  have "dmodem_disconnect fuel s \<noteq> Done s' r"
  proof (cases "disconn_init (CLEAR_GLOBAL_ERROR ?s)")
    case None
    with d show ?thesis by simp
  next
    case (Some y)
    obtain x rv where y: "y = (x, rv)" by (cases y)
    have "rv \<noteq> -1" using Some [unfolded y] by (rule disconn_init_result)
    then have "dmodem_disconnect fuel s = (if disconn_go fuel x = Crashed then Fault else NotYet)"
      unfolding d Some y option.case prod.case e by simp
    then show ?thesis by simp
  qed
  moreover have "dmodem_disconnect fuel s =
      (if \<exists>t \<in> set (concat (take fuel (ct_sched s))). min (txuplayer_to (conf s)) (txframe_to (conf s)) \<le> t
       then Fault else NotYet)"
    if a: "ct_running s" "\<not> ct_locked s" "length (ct_timers s) = MAX_CTIMERS" "2 \<le> count_list (ct_timers s) None"
  proof -
    from disconn_init_armed [of ?s] l(2) a(2) obtain x rv where x: "disconn_init (CLEAR_GLOBAL_ERROR ?s) = Some (x, rv)" "rv \<noteq> -1"
      "ct_timers x = ct_timers (disconn_armed ?s)" "ct_running x = ct_running ?s" "\<not> ct_locked x" "ct_sched x = ct_sched ?s"
      "ct_objs x = ct_objs (disconn_armed ?s)" by auto
    have o: "dmodem_disconnect fuel s = (if disconn_go fuel x = Crashed then Fault else NotYet)"
      using x(2) unfolding d x(1) option.case prod.case e by simp
    have "poised (min (txuplayer_to (conf s)) (txframe_to (conf s))) x"
      using armed_poised [of ?s x] x l c a by simp
    from disconn_run_poised [OF this] x(6) l(4) o show ?thesis by auto
  qed
  ultimately show ?thesis by blast
qed

text \<open>A connection that the timer thread leaves alone, and one where it wakes after a quarter of a second of
  an uptime of one minute.\<close>

lemma dmodem_disconnect_never_returns_witness:
  "dmodem_disconnect 1000 (script_sys [DM_ACK, DM_ACK_COMP] 0) = NotYet \<and>
   dmodem_disconnect 3 ((script_sys [DM_ACK, DM_ACK_COMP] 0)\<lparr>ct_sched := [[], [60250]]\<rparr>) = Fault"
proof -
  let ?s = "script_sys [DM_ACK, DM_ACK_COMP] 0"
  have "count_list (replicate n x) x = n" for n and x :: "dm_timer option" by (induction n) simp_all
  then have "length (ct_timers ?s) = MAX_CTIMERS" "2 \<le> count_list (ct_timers ?s) None" by (simp_all add: script_sys_def)
  then show ?thesis
    using dmodem_disconnect_never_returns [of 1000 ?s] dmodem_disconnect_never_returns [of 3 "?s\<lparr>ct_sched := [[], [60250]]\<rparr>"]
    by (simp add: script_handler_def word_le_nat_alt min_def)
qed

end
