(* ===== verification/Dmodem_Api.thy ===== *)
theory Dmodem_Api
  imports Dmodem_Read Dmodem_Link
begin

text \<open>
  The rest of the interface of \<open>src/src/framework/telesup/dmodem/dmodem.c\<close>: the table of
  connections and its handles, opening and closing a connection, configuration and queries.

  The table \<open>dmodemController\<close> is the list of its slots; the operations on an open connection work
  on its slot alone, as in the other theories. \<open>dmodem_open\<close> always takes slot 0. It installs the
  callbacks of the timers, which here are fixed (\<open>timer_handler\<close>); those of the two timers of the
  disconnect protocol are defined by the source and installed nowhere.
\<close>

subsection \<open>The table of connections\<close>

type_synonym 'w dm_controller = "(nat \<times> dm_timer, 'w DmodemHandler list) ctworld"

definition initDmodemController :: "bool \<Rightarrow> 'w dm_controller \<Rightarrow> 'w dm_controller" where
  "initDmodemController mutex_init_ok w =
     (let (w, _) = init_ctimers mutex_init_ok w
      in w\<lparr>ct_user := map (\<lambda>h. h\<lparr>handle := -1\<rparr>) (ct_user w)\<rparr>)"

text \<open>The loop of \<open>getDmodemHandle\<close> from index \<open>i\<close> on.\<close>

function free_handle :: "'w DmodemHandler list \<Rightarrow> nat \<Rightarrow> nat" where
  "free_handle hs i =
     (if i < MAX_CONN_ACCEPTED \<and> handle (hs ! i) \<noteq> -1 then free_handle hs (i + 1) else i)"
  by pat_completeness auto
termination
  by (relation "measure (\<lambda>(hs, i). MAX_CONN_ACCEPTED - i)") auto

declare free_handle.simps [simp del]

definition getDmodemHandle :: "'w DmodemHandler list \<Rightarrow> int" where
  "getDmodemHandle hs =
     (let i = free_handle hs 0 in if i \<ge> MAX_CONN_ACCEPTED then -1 else int i)"

subsection \<open>Opening and closing\<close>

text \<open>The status of \<open>init_ctimer\<close> is ignored; the handle of a new connection is 0.\<close>

definition dmodem_open ::
  "ulong \<Rightarrow> 'w \<Rightarrow> ('w \<Rightarrow> byte list \<Rightarrow> 'w \<times> int) \<Rightarrow> ('w \<Rightarrow> int \<Rightarrow> 'w \<times> int \<times> byte) \<Rightarrow>
   ('w \<Rightarrow> 'w \<times> int) \<Rightarrow> 'w dm_sys \<Rightarrow> 'w dm_sys \<times> int" where
  "dmodem_open f upldata sb rb getDCDStatus s =
     (let hd = 0 in
      if hd \<noteq> -1 then
        (let s = CLEAR_GLOBAL_ERROR s;
             s = upd_h (\<lambda>h. h\<lparr>handle := hd, dmconf :=
               \<lparr>max_data_size = DMODEM_MAX_DATA_SIZE_DEF, txframe_to = DMODEM_TXFRAME_TO_DEF,
                rxbyte_to = DMODEM_RXBYTE_TO_DEF, max_retries = DMODEM_MAX_RETIRES_DEF,
                txuplayer_to = DMODEM_TXUPLAYER_TO_DEF, rxuplayer_to = DMODEM_RXUPLAYER_TO_DEF,
                startconn_to = DMODEM_STARTCONN_TO_DEF, flags = f\<rparr>,
               send_buf := sb, rcv_byte := rb, get_dcd_status := getDCDStatus,
               uplayer_data := upldata\<rparr>) s;
             s = upd_wr (\<lambda>c. c\<lparr>wr_curr_seqno := 1\<rparr>) s;
             s = fst (init_ctimer txuplayer_timer s);
             s = fst (init_ctimer txframe_timer s);
             s = upd_rd (\<lambda>c. c\<lparr>rd_curr_seqno := 1, rd_next_seqno := 1\<rparr>) s;
             s = fst (init_ctimer rxuplayer_timer s);
             s = upd_rd (\<lambda>c. c\<lparr>rd_last_data_index := 0, rd_first_data_index := 0, rd_data_count := 0,
               rd_max_data_count := DM_MAX_DATA_READ\<rparr>) s;
             s = upd_stat (\<lambda>c. c\<lparr>txnaks := 0, txacks := 0, txframeTO := 0, rxacks := 0, rxnaks := 0\<rparr>) s;
             s = upd_h (\<lambda>h. h\<lparr>logActive := 0\<rparr>) s
         in (s, hd))
      else (s, -1))"

definition dmodem_close :: "'w dm_sys \<Rightarrow> ('w dm_sys \<times> int) option" where
  "dmodem_close s = do {
     let s = CLEAR_GLOBAL_ERROR s;
     s \<leftarrow> stop_timer txuplayer_timer s;
     s \<leftarrow> stop_timer txframe_timer s;
     s \<leftarrow> stop_timer rxuplayer_timer s;
     Some (s, 1)
   }"

subsection \<open>Configuration and queries\<close>

definition dmodem_conf :: "DModemConfig \<Rightarrow> 'w dm_sys \<Rightarrow> 'w dm_sys \<times> int" where
  "dmodem_conf cf s = (upd_h (\<lambda>h. h\<lparr>dmconf := cf\<rparr>) (CLEAR_GLOBAL_ERROR s), 0)"

definition dmodem_confDLL ::
  "nat \<Rightarrow> ulong \<Rightarrow> ulong \<Rightarrow> int \<Rightarrow> ulong \<Rightarrow> ulong \<Rightarrow> ulong \<Rightarrow> 'w dm_sys \<Rightarrow> 'w dm_sys \<times> int" where
  "dmodem_confDLL mds txf rxb mr txu rxu sto s =
     (upd_h (\<lambda>h. h\<lparr>dmconf := (dmconf h)\<lparr>max_data_size := mds, txframe_to := txf, rxbyte_to := rxb,
        max_retries := mr, txuplayer_to := txu, rxuplayer_to := rxu, startconn_to := sto\<rparr>\<rparr>)
      (CLEAR_GLOBAL_ERROR s), 0)"

definition dmodem_geterror :: "'w dm_sys \<Rightarrow> int" where
  "dmodem_geterror s = - GET_GLOBAL_ERROR s"

definition dmodem_init :: "'w dm_sys \<Rightarrow> 'w dm_sys \<times> int" where
  "dmodem_init s =
     (upd_rd (\<lambda>c. c\<lparr>rd_curr_seqno := 1, rd_next_seqno := 1\<rparr>)
       (upd_wr (\<lambda>c. c\<lparr>wr_curr_seqno := 1\<rparr>) s), 1)"

definition dmodem_setTxUpLayerTO :: "ulong \<Rightarrow> 'w dm_sys \<Rightarrow> 'w dm_sys" where
  "dmodem_setTxUpLayerTO v s = upd_h (\<lambda>h. h\<lparr>dmconf := (dmconf h)\<lparr>txuplayer_to := v\<rparr>\<rparr>) s"

definition dmodem_setRxUpLayerTO :: "ulong \<Rightarrow> 'w dm_sys \<Rightarrow> 'w dm_sys" where
  "dmodem_setRxUpLayerTO v s = upd_h (\<lambda>h. h\<lparr>dmconf := (dmconf h)\<lparr>rxuplayer_to := v\<rparr>\<rparr>) s"

text \<open>The statistics are copied field by field, in the order of the struct.\<close>

definition dmodem_getStatistics :: "'w dm_sys \<Rightarrow> ushort list" where
  "dmodem_getStatistics s =
     (let c = statistics (ct_user s) in [txnaks c, txacks c, txframeTO c, rxacks c, rxnaks c])"

definition dmodem_setLogState :: "int \<Rightarrow> 'w dm_sys \<Rightarrow> 'w dm_sys" where
  "dmodem_setLogState v s = upd_h (\<lambda>h. h\<lparr>logActive := v\<rparr>) s"

definition dmodem_getLogState :: "'w dm_sys \<Rightarrow> int" where
  "dmodem_getLogState s = logActive (ct_user s)"

definition dmodem_getUplData :: "'w dm_sys \<Rightarrow> 'w" where
  "dmodem_getUplData s = uplayer_data (ct_user s)"

definition dmodem_getError :: "'w dm_sys \<Rightarrow> int" where
  "dmodem_getError s = dm_global_error (ct_user s)"

end
