(* ===== verification/Dmodem_Api_Props.thy ===== *)
theory Dmodem_Api_Props
  imports Dmodem_Api Dmodem_Read_Msg Dmodem_Link_Props
begin

text \<open>
  Correctness of the interface of the modem: handles, the state a connection is opened in, and the
  transfer of a message from the write operation of one end to the read operation of the other,
  which puts the properties of the transmitter and of the receiver together.
\<close>

subsection \<open>Handles\<close>

lemma free_handle_spec:
  "i \<le> MAX_CONN_ACCEPTED \<Longrightarrow> i \<le> free_handle hs i \<and> free_handle hs i \<le> MAX_CONN_ACCEPTED \<and>
    (\<forall>j. i \<le> j \<longrightarrow> j < free_handle hs i \<longrightarrow> handle (hs ! j) \<noteq> -1) \<and>
    (free_handle hs i < MAX_CONN_ACCEPTED \<longrightarrow> handle (hs ! free_handle hs i) = -1)"
proof (induction hs i rule: free_handle.induct)
  case (1 hs i)
  show ?case
  proof (cases "i < MAX_CONN_ACCEPTED \<and> handle (hs ! i) \<noteq> -1")
    case True
    then have "free_handle hs i = free_handle hs (i + 1)" by (subst free_handle.simps) simp
    moreover have "handle (hs ! j) \<noteq> -1" if "i \<le> j" "j < free_handle hs (i + 1)" for j
      using True 1 that by (cases "j = i") auto
    ultimately show ?thesis using 1 True by auto
  next
    case False
    then have "free_handle hs i = i" by (subst free_handle.simps) auto
    with False 1(2) show ?thesis by auto
  qed
qed

subsection \<open>The state of a new connection\<close>

lemma init_ctimer_same:
  "ct_user (fst (init_ctimer t s)) = ct_user s" "ct_locked (fst (init_ctimer t s)) = ct_locked s"
  "ct_sched (fst (init_ctimer t s)) = ct_sched s"
  by (simp_all add: init_ctimer_def)

lemma dmodem_open_user:
  "ct_user (fst (dmodem_open f u sb rb dc s)) = (ct_user s)\<lparr>
     handle := 0, dm_global_error := EDMODEM_NOERROR,
     send_buf := sb, rcv_byte := rb, uplayer_data := u, get_dcd_status := dc,
     dmconf := \<lparr>max_data_size = 512, txframe_to = 10000, rxbyte_to = 1000, max_retries = 15,
        txuplayer_to = 60000, rxuplayer_to = 60000, startconn_to = 60000, flags = f\<rparr>,
     wr_curr_state := (wrs s)\<lparr>wr_curr_seqno := 1\<rparr>,
     rd_curr_state := (rds s)\<lparr>rd_curr_seqno := 1, rd_next_seqno := 1, rd_last_data_index := 0,
        rd_first_data_index := 0, rd_data_count := 0, rd_max_data_count := 1024\<rparr>,
     statistics := (statistics (ct_user s))\<lparr>txnaks := 0, txacks := 0, txframeTO := 0, rxacks := 0, rxnaks := 0\<rparr>,
     logActive := 0\<rparr>"
  "ct_locked (fst (dmodem_open f u sb rb dc s)) = ct_locked s"
  "ct_sched (fst (dmodem_open f u sb rb dc s)) = ct_sched s"
  "snd (dmodem_open f u sb rb dc s) = 0"
proof -
  define s1 where "s1 = CLEAR_GLOBAL_ERROR s"
  define s2 where "s2 = upd_h (\<lambda>h. h\<lparr>handle := 0, dmconf :=
               \<lparr>max_data_size = DMODEM_MAX_DATA_SIZE_DEF, txframe_to = DMODEM_TXFRAME_TO_DEF,
                rxbyte_to = DMODEM_RXBYTE_TO_DEF, max_retries = DMODEM_MAX_RETIRES_DEF,
                txuplayer_to = DMODEM_TXUPLAYER_TO_DEF, rxuplayer_to = DMODEM_RXUPLAYER_TO_DEF,
                startconn_to = DMODEM_STARTCONN_TO_DEF, flags = f\<rparr>,
               send_buf := sb, rcv_byte := rb, get_dcd_status := dc, uplayer_data := u\<rparr>) s1"
  define s3 where "s3 = upd_wr (\<lambda>c. c\<lparr>wr_curr_seqno := 1\<rparr>) s2"
  define s4 where "s4 = fst (init_ctimer txframe_timer (fst (init_ctimer txuplayer_timer s3)))"
  define s5 where "s5 = upd_rd (\<lambda>c. c\<lparr>rd_curr_seqno := 1, rd_next_seqno := 1\<rparr>) s4"
  define s6 where "s6 = fst (init_ctimer rxuplayer_timer s5)"
  define s7 where "s7 = upd_rd (\<lambda>c. c\<lparr>rd_last_data_index := 0, rd_first_data_index := 0, rd_data_count := 0,
               rd_max_data_count := DM_MAX_DATA_READ\<rparr>) s6"
  define s8 where "s8 = upd_stat (\<lambda>c. c\<lparr>txnaks := 0, txacks := 0, txframeTO := 0, rxacks := 0, rxnaks := 0\<rparr>) s7"
  have o: "dmodem_open f u sb rb dc s = (upd_h (\<lambda>h. h\<lparr>logActive := 0\<rparr>) s8, 0)"
    by (simp only: dmodem_open_def s1_def s2_def s3_def s4_def s5_def s6_def s7_def s8_def Let_def
        zero_neq_neg_one not_False_eq_True if_True)
  have u1: "ct_user s1 = (ct_user s)\<lparr>dm_global_error := EDMODEM_NOERROR\<rparr>" "ct_locked s1 = ct_locked s"
    "ct_sched s1 = ct_sched s" by (simp_all add: s1_def CLEAR_GLOBAL_ERROR_def)
  note u4 = init_ctimer_same [of txframe_timer "fst (init_ctimer txuplayer_timer s3)", folded s4_def]
    init_ctimer_same [of txuplayer_timer s3]
  note u6 = init_ctimer_same [of rxuplayer_timer s5, folded s6_def]
  show "snd (dmodem_open f u sb rb dc s) = 0" by (simp add: o)
  show "ct_locked (fst (dmodem_open f u sb rb dc s)) = ct_locked s"
    "ct_sched (fst (dmodem_open f u sb rb dc s)) = ct_sched s"
    by (simp_all add: o s8_def s7_def u6 s5_def u4(1-3)) (simp_all add: init_ctimer_same s3_def s2_def u1)
  have u4': "ct_user s4 = ct_user s3" by (simp add: u4)
  have "ct_user s3 = (ct_user s)\<lparr>dm_global_error := EDMODEM_NOERROR, handle := 0, dmconf :=
      \<lparr>max_data_size = 512, txframe_to = 10000, rxbyte_to = 1000, max_retries = 15,
        txuplayer_to = 60000, rxuplayer_to = 60000, startconn_to = 60000, flags = f\<rparr>,
      send_buf := sb, rcv_byte := rb, get_dcd_status := dc, uplayer_data := u,
      wr_curr_state := (wrs s)\<lparr>wr_curr_seqno := 1\<rparr>\<rparr>"
    by (simp add: s3_def s2_def u1)
  then show "ct_user (fst (dmodem_open f u sb rb dc s)) = (ct_user s)\<lparr>
     handle := 0, dm_global_error := EDMODEM_NOERROR,
     send_buf := sb, rcv_byte := rb, uplayer_data := u, get_dcd_status := dc,
     dmconf := \<lparr>max_data_size = 512, txframe_to = 10000, rxbyte_to = 1000, max_retries = 15,
        txuplayer_to = 60000, rxuplayer_to = 60000, startconn_to = 60000, flags = f\<rparr>,
     wr_curr_state := (wrs s)\<lparr>wr_curr_seqno := 1\<rparr>,
     rd_curr_state := (rds s)\<lparr>rd_curr_seqno := 1, rd_next_seqno := 1, rd_last_data_index := 0,
        rd_first_data_index := 0, rd_data_count := 0, rd_max_data_count := 1024\<rparr>,
     statistics := (statistics (ct_user s))\<lparr>txnaks := 0, txacks := 0, txframeTO := 0, rxacks := 0, rxnaks := 0\<rparr>,
     logActive := 0\<rparr>"
    by (simp add: o s8_def s7_def u6 s5_def u4')
qed

lemma dmodem_open_ready:
  assumes "length (rd_databuf (rds s)) = 1024" "length (rd_checksum (rds s)) = 4"
  shows "rd_ready (fst (dmodem_open f u sb rb dc s))" "rd_buffered (fst (dmodem_open f u sb rb dc s)) = []"
  using assms by (simp_all add: dmodem_open_user rd_ready_def rd_buf_wf_def rd_items_def ring_wf_def)

subsection \<open>A message from one end to the other\<close>

lemma one_frame: "length d \<le> n \<Longrightarrow> number_frames q (chunks n d) = [dmframe DM_CTRL_BYTE_0 DM_CTRL_BYTE_1 q d]"
  by (simp add: chunks.simps [of n d])

lemma make_dmframe_dmframe:
  "length d \<le> 512 \<Longrightarrow> make_dmframe c1 c2 q d (length d) = Some (dmframe c1 c2 q d)"
  by (simp add: make_dmframe_eq)

subsection \<open>The properties\<close>

text \<open>Handles: \<open>getDmodemHandle\<close> finds the first free slot of the 32, or -1 if all are taken;
  after the initialisation that is slot 0.\<close>

theorem getDmodemHandle_first_free:
  "(getDmodemHandle hs = -1 \<longleftrightarrow> (\<forall>j < MAX_CONN_ACCEPTED. handle (hs ! j) \<noteq> -1)) \<and>
   (\<forall>i. getDmodemHandle hs = int i \<longrightarrow> i < MAX_CONN_ACCEPTED \<and> handle (hs ! i) = -1 \<and>
      (\<forall>j < i. handle (hs ! j) \<noteq> -1)) \<and>
   (length (ct_user w) = MAX_CONN_ACCEPTED \<longrightarrow> getDmodemHandle (ct_user (initDmodemController ok w)) = 0)"
proof -
  have k: "(\<forall>j < free_handle hs 0. handle (hs ! j) \<noteq> -1)" "free_handle hs 0 \<le> MAX_CONN_ACCEPTED"
    "free_handle hs 0 < MAX_CONN_ACCEPTED \<longrightarrow> handle (hs ! free_handle hs 0) = -1" for hs :: "'a DmodemHandler list"
    using free_handle_spec [of 0 hs] by auto
  have "getDmodemHandle (ct_user (initDmodemController ok w)) = 0" if "length (ct_user w) = MAX_CONN_ACCEPTED"
    using that by (simp add: initDmodemController_def init_ctimers_def Let_def getDmodemHandle_def
        free_handle.simps [of "map f xs" 0 for f xs] prod.case_eq_if)
  moreover have "getDmodemHandle hs = -1 \<longleftrightarrow> (\<forall>j < MAX_CONN_ACCEPTED. handle (hs ! j) \<noteq> -1)"
    using k [of hs] by (cases "free_handle hs 0 < MAX_CONN_ACCEPTED") (auto simp: getDmodemHandle_def Let_def)
  moreover have "i < MAX_CONN_ACCEPTED \<and> handle (hs ! i) = -1 \<and> (\<forall>j < i. handle (hs ! j) \<noteq> -1)"
    if "getDmodemHandle hs = int i" for i
    using that k [of hs] by (cases "free_handle hs 0 < MAX_CONN_ACCEPTED") (auto simp: getDmodemHandle_def Let_def)
  ultimately show ?thesis by blast
qed

lemma getDmodemHandle_first_free_witness:
  "getDmodemHandle (ct_user (initDmodemController True
     \<lparr>ct_running = False, ct_timers = [], ct_objs = (\<lambda>_. \<lparr>expires = 0, periodic = False, period = 0\<rparr>),
       ct_locked = False, ct_ticks = 0, ct_sched = [], ct_user = replicate 32 (script_handler [] 0)\<rparr>)) = 0"
  by (rule getDmodemHandle_first_free [THEN conjunct2, THEN conjunct2, rule_format]) simp

text \<open>A connection is opened without error, with handle 0 whatever is in use, expecting the sequence
  number it starts to send with, with an empty, well-formed receive buffer and counters at zero.\<close>

theorem dmodem_open_initial:
  assumes "length (rd_databuf (rds s)) = DM_MAX_DATA_READ" "length (rd_checksum (rds s)) = 4"
    and "dmodem_open f u sb rb dc s = (s', r)"
  shows "r = 0 \<and> rd_ready s' \<and> rd_buffered s' = [] \<and> wr_curr_seqno (wrs s') = rd_next_seqno (rds s') \<and>
    dmodem_getError s' = EDMODEM_NOERROR \<and> max_data_size (conf s') \<le> DM_MAX_DATA_LEN \<and>
    dmodem_getStatistics s' = [0, 0, 0, 0, 0] \<and> dmodem_getUplData s' = u"
  using assms dmodem_open_ready [of s f u sb rb dc] dmodem_open_user(1,4) [where s = s, of f u sb rb dc]
  by (simp add: dmodem_getError_def dmodem_getStatistics_def dmodem_getUplData_def)

text \<open>A message of one frame: transfer of 1 to 512 bytes: when the write operation of one end returns 1, the
  first thing it put on the line is a frame, and a read operation of any other end that expects its
  sequence number and is fed that frame returns the message and acknowledges it.\<close>

theorem dmodem_transfer:
  assumes w: "dmodem_write fuel buf sz a = Done a' 1" "records hist (ct_user a)" "\<not> ct_locked a"
    and sz: "0 < sz" "sz \<le> length buf" "sz \<le> DM_MAX_DATA_LEN" "sz \<le> max_data_size (conf a)"
  shows "\<exists>fr t. sys_hist hist a' = sys_hist hist a @ Sent fr # t \<and>
    (\<forall>b n h. scripted b \<longrightarrow> rd_ready b \<longrightarrow> rd_buffered b = [] \<longrightarrow> uplayer_data (ct_user b) = (fr, n, h) \<longrightarrow>
      rd_next_seqno (rds b) = wr_curr_seqno (wrs a) \<longrightarrow> sz \<le> length (dmodem_frame (ct_user b)) \<longrightarrow>
      sz \<le> rd_max_data_count (rds b) \<longrightarrow>
      (\<exists>b'. dmodem_read (sz + 15) sz b = Done b' (take sz buf) \<and>
         sys_hist script_log b' = h @ map Got fr @ [Sent [DM_ACK, DM_ACK_COMP]]))"
proof -
  let ?d = "take sz buf" and ?q = "wr_curr_seqno (wrs a)"
  let ?fr = "dmframe DM_CTRL_BYTE_0 DM_CTRL_BYTE_1 ?q ?d"
  have len: "length ?d = sz" using sz by simp
  have "number_frames ?q (chunks (max_data_size (conf a)) ?d) = [?fr]"
    by (rule one_frame) (use len sz in simp)
  with dmodem_write_post [OF w(1,3,2) sz(2)] sz(1,4) obtain ts where
    h: "sys_hist hist a' = sys_hist hist a @ concat ts" "list_all2 exchange [?fr] ts"
    by (auto simp: wr_post_def split: if_splits)
  then obtain t where t: "ts = [Sent ?fr # t]" by (auto simp: list_all2_Cons1 exchange_def)
  have mk: "make_dmframe DM_CTRL_BYTE_0 DM_CTRL_BYTE_1 ?q ?d (length ?d) = Some ?fr"
    by (rule make_dmframe_dmframe) (use sz len in simp)
  show ?thesis
  proof (intro exI [of _ ?fr] exI [of _ t] conjI allI impI)
    show "sys_hist hist a' = sys_hist hist a @ Sent ?fr # t" using h(1) t by simp
    fix b :: "wire dm_sys" and n l
    assume b: "scripted b" "rd_ready b" "rd_buffered b = []" "uplayer_data (ct_user b) = (?fr, n, l)"
      "rd_next_seqno (rds b) = ?q" "sz \<le> length (dmodem_frame (ct_user b))" "sz \<le> rd_max_data_count (rds b)"
    show "\<exists>b'. dmodem_read (sz + 15) sz b = Done b' ?d \<and>
         sys_hist script_log b' = l @ map Got ?fr @ [Sent [DM_ACK, DM_ACK_COMP]]"
      using rd_receives [OF b(1-4), of DM_CTRL_BYTE_0 DM_CTRL_BYTE_1 ?d sz] mk b(5-7) sz(1,2) len
        by (auto simp: ack_bytes_def simp del: DM_CTRL_BYTE_0_def DM_CTRL_BYTE_1_def)
  qed
qed

lemma dmodem_transfer_witness:
  "\<exists>a' fr t. dmodem_write 9 [1, 2, 3] 3 (script_sys [DM_ACK, DM_ACK_COMP] 0) = Done a' 1 \<and>
    sys_hist script_log a' = Sent fr # t \<and>
    (\<exists>b'. dmodem_read 18 3 (script_sys fr 0) = Done b' [1, 2, 3])"
proof -
  from wr_sample_run obtain a' where
    r: "dmodem_write 9 [1, 2, 3] 3 (script_sys [DM_ACK, DM_ACK_COMP] 0) = Done a' 1" by blast
  from dmodem_transfer [OF r, where hist = script_log] obtain fr t where
    h: "sys_hist script_log a' = Sent fr # t"
    and rd: "\<forall>b n h. scripted b \<longrightarrow> rd_ready b \<longrightarrow> rd_buffered b = [] \<longrightarrow>
      uplayer_data (ct_user b) = (fr, n, h) \<longrightarrow> rd_next_seqno (rds b) = 1 \<longrightarrow>
      3 \<le> length (dmodem_frame (ct_user b)) \<longrightarrow> 3 \<le> rd_max_data_count (rds b) \<longrightarrow>
      (\<exists>b'. dmodem_read 18 3 b = Done b' [1, 2, 3] \<and>
         sys_hist script_log b' = h @ map Got fr @ [Sent [DM_ACK, DM_ACK_COMP]])"
    by (simp add: script_records del: ex_simps all_simps) blast
  show ?thesis
    using r h rd [rule_format, of "script_sys fr 0" 0 "[]"] script_rd_ready [of fr 0] by auto
qed

text \<open>
  What a receiver must be like to take a message from the transmitter \<open>a\<close>: empty, expecting its sequence
  number, configured with the same frame size, reading in blocking mode from a scripted line, with room in its
  receive buffer, of 1024 bytes, for the whole message.
\<close>

definition peer :: "'w dm_sys \<Rightarrow> nat \<Rightarrow> wire dm_sys \<Rightarrow> bool" where
  "peer a sz b \<longleftrightarrow> scripted b \<and> rd_ready b \<and> rd_buffered b = [] \<and>
     rd_next_seqno (rds b) = wr_curr_seqno (wrs a) \<and> max_data_size (conf b) = max_data_size (conf a) \<and>
     max_data_size (conf b) \<le> length (dmodem_frame (ct_user b)) \<and> sz \<le> rd_max_data_count (rds b) \<and>
     flags (conf b) AND O_DMODEM_SPRD_NONBLOCK = 0"

text \<open>C7. Transfer of a message. When the write operation of one end returns 1, whatever the length of the
  message and however its line and timers behave, the line carries, in order, the exchanges of its
  frames. A blocking read of a \<open>peer\<close>, whose receive buffer has room for the whole message and which is
  fed each of these frames once, without a gap and while its timer thread does not run, returns exactly
  the message, acknowledging each frame and leaving what follows.\<close>

theorem dmodem_transfer_message:
  assumes w: "dmodem_write fuel buf sz a = Done a' 1" "records hist (ct_user a)" "\<not> ct_locked a"
    and sz: "0 < sz" "sz \<le> length buf" and mx: "0 < max_data_size (conf a)" "max_data_size (conf a) \<le> 512"
  shows "\<exists>F ts. sys_hist hist a' = sys_hist hist a @ concat ts \<and> list_all2 exchange F ts \<and>
    (\<forall>b n h rest. peer a sz b \<and> uplayer_data (ct_user b) = (concat F @ rest, n, h) \<longrightarrow>
      (\<exists>b'. dmodem_read (sz + 15 * length F) sz b = Done b' (take sz buf) \<and>
         uplayer_data (ct_user b') = (rest, n, h @ acked F)))"
proof -
  let ?d = "take sz buf" and ?F = "number_frames (wr_curr_seqno (wrs a)) (chunks (max_data_size (conf a)) (take sz buf))"
  have len: "length ?d = sz" using sz by simp
  have ne: "buf \<noteq> []" using sz by auto
  from dmodem_write_post [OF w(1,3,2) sz(2) mx(1)] obtain ts where
    h: "sys_hist hist a' = sys_hist hist a @ concat ts" "list_all2 exchange ?F ts"
    by (auto simp: wr_post_def split: if_splits)
  have "\<exists>b'. dmodem_read (sz + 15 * length ?F) sz b = Done b' ?d \<and> uplayer_data (ct_user b') = (rest, n, l @ acked ?F)"
    if b: "peer a sz b" and u: "uplayer_data (ct_user b) = (concat ?F @ rest, n, l)" for b :: "wire dm_sys" and n l rest
    using rd_receives_message [of b ?d rest n l] b u sz(1) mx len ne
    by (auto simp: peer_def wire_bytes_def)
  with h show ?thesis by (intro exI [of _ ?F] exI [of _ ts]) simp
qed

lemma dmodem_transfer_message_witness:
  "\<exists>a' F ts b'. dmodem_write 9 [1, 2, 3] 3 (script_sys [DM_ACK, DM_ACK_COMP] 0) = Done a' 1 \<and>
    sys_hist script_log a' = concat ts \<and> list_all2 exchange F ts \<and>
    dmodem_read (3 + 15 * length F) 3 (script_sys (concat F @ [7]) 0) = Done b' [1, 2, 3]"
proof -
  let ?a = "script_sys [DM_ACK, DM_ACK_COMP] 0"
  from wr_sample_run obtain a' where r: "dmodem_write 9 [1, 2, 3] 3 ?a = Done a' 1" by blast
  have "records script_log (ct_user ?a)" by (simp add: script_records)
  from dmodem_transfer_message [OF r this] obtain F ts where
    h: "sys_hist script_log a' = sys_hist script_log ?a @ concat ts" "list_all2 exchange F ts"
    and rd: "\<And>b n h rest. peer ?a 3 b \<Longrightarrow> uplayer_data (ct_user b) = (concat F @ rest, n, h) \<Longrightarrow>
      \<exists>b'. dmodem_read (3 + 15 * length F) 3 b = Done b' (take 3 [1, 2, 3])"
    by (auto simp: script_conf) blast
  have "peer ?a 3 (script_sys (concat F @ [7]) 0)"
    using script_rd_ready [of "concat F @ [7]" 0] by (simp add: peer_def script_conf)
  from rd [OF this, of "[7]" 0 "[]"] h r show ?thesis by (auto simp: script_rd_ready)
qed

lemma dmodem_open_initial_witness:
  "wr_curr_seqno (wrs (fst (dmodem_open 0 ([], 0, []) script_send script_recv script_dcd (script_sys [] 0))))
   = rd_next_seqno (rds (fst (dmodem_open 0 ([], 0, []) script_send script_recv script_dcd (script_sys [] 0))))"
proof -
  let ?o = "dmodem_open 0 ([], 0, []) script_send script_recv script_dcd (script_sys [] 0)"
  have "?o = (fst ?o, snd ?o)" by simp
  with dmodem_open_initial [of "script_sys [] 0" 0 "([], 0, [])" script_send script_recv script_dcd "fst ?o" "snd ?o"]
  show ?thesis by (simp add: script_handler_def)
qed

end
