(* ===== verification/Memory.thy ===== *)
theory Memory
  imports Prelude
begin

text \<open>
  Blocks of memory, as lists of bytes. An access outside the block is undefined behaviour in C
  and \<open>None\<close> here; offsets and lengths are integers, so that a negative one is seen.
\<close>

definition block_write :: "byte list \<Rightarrow> int \<Rightarrow> byte list \<Rightarrow> byte list option" where
  "block_write b off xs =
     (if 0 \<le> off \<and> nat off + length xs \<le> length b
      then Some (take (nat off) b @ xs @ drop (nat off + length xs) b) else None)"

definition block_read :: "byte list \<Rightarrow> int \<Rightarrow> int \<Rightarrow> byte list option" where
  "block_read b off n =
     (if 0 \<le> off \<and> 0 \<le> n \<and> nat off + nat n \<le> length b
      then Some (take (nat n) (drop (nat off) b)) else None)"

text \<open>A block that has been filled from its start: the bytes \<open>pre\<close> over the old contents.\<close>

definition over :: "byte list \<Rightarrow> byte list \<Rightarrow> byte list" where
  "over pre b = pre @ drop (length pre) b"

lemma over_Nil: "over [] b = b"
  by (simp add: over_def)

lemma block_write_over:
  "off = int (length pre) \<Longrightarrow> length pre + length xs \<le> length b \<Longrightarrow>
     block_write (over pre b) off xs = Some (over (pre @ xs) b)"
  by (simp add: block_write_def over_def add.commute)

lemma block_write_start: "length xs \<le> length b \<Longrightarrow> block_write b 0 xs = Some (over xs b)"
  using block_write_over [of 0 "[]" xs b] by (simp add: over_Nil)

lemma block_read_prefix: "n = int (length xs) \<Longrightarrow> block_read (xs @ b) 0 n = Some xs"
  by (simp add: block_read_def)

lemma block_read_over: "n = int (length pre) \<Longrightarrow> block_read (over pre b) 0 n = Some pre"
  by (simp add: over_def block_read_prefix)

lemma block_read_inside:
  "off = int (length pre) \<Longrightarrow> n = int (length xs) \<Longrightarrow> block_read (pre @ xs @ b) off n = Some xs"
  by (simp add: block_read_def)

lemma block_read_out: "n < 0 \<or> int (length b) < off + n \<Longrightarrow> block_read b off n = None"
  by (auto simp: block_read_def)

lemma length_over [simp]: "length pre \<le> length b \<Longrightarrow> length (over pre b) = length b"
  by (simp add: over_def)

end
