(* ===== verification/Queue_C.thy ===== *)
theory Queue_C
  imports Ring_Buffer Memory "HOL-Library.Signed_Division"
begin

text \<open>
  The bounded queue of \<open>src/src/system/util/queue.c\<close>: elements of a fixed size, copied into one
  block of memory that is used as a circular array.

  A queue is the record of the C struct, with the block as a list of bytes; a null pointer is
  \<open>None\<close>. A routine returns \<open>Some (Inr _)\<close>, throws \<open>Some (Inl _)\<close> (the exceptions of
  \<open>UtilExcepts.h\<close>), or is undefined (\<open>None\<close>: an access outside the block, a null pointer
  followed, a division by zero). The remainder is that of C, \<open>smod\<close>.
\<close>

datatype queue_ex = INVALID_POINTER_EX | QUEUE_IS_FULL_EX | QUEUE_IS_EMPTY_EX

record Queue =
  indexFirst :: int
  indexLast :: int
  maxCount :: int
  count :: int
  dataSize :: int
  buf :: "byte list"

type_synonym 'a c_result = "(queue_ex + 'a) option"

subsection \<open>Operations\<close>

text \<open>\<open>mem\<close> is the block \<open>malloc\<close> returns, with whatever it contains.\<close>

definition qNew :: "int \<Rightarrow> int \<Rightarrow> byte list \<Rightarrow> Queue" where
  "qNew dsize mcount mem =
     \<lparr>indexFirst = 0, indexLast = 0, maxCount = mcount, count = 0, dataSize = dsize, buf = mem\<rparr>"

text \<open>The pointer is null after the queue is freed.\<close>

definition qFree :: "Queue option \<Rightarrow> Queue option option" where
  "qFree q = (case q of None \<Rightarrow> None | Some _ \<Rightarrow> Some None)"

definition qIsEmpty :: "Queue option \<Rightarrow> bool c_result" where
  "qIsEmpty q = (case q of None \<Rightarrow> Some (Inl INVALID_POINTER_EX) | Some q \<Rightarrow> Some (Inr (count q = 0)))"

definition qAdd :: "Queue option \<Rightarrow> byte list \<Rightarrow> Queue c_result" where
  "qAdd q element =
     (case q of
        None \<Rightarrow> Some (Inl INVALID_POINTER_EX)
      | Some q \<Rightarrow>
          if count q = maxCount q then Some (Inl QUEUE_IS_FULL_EX)
          else do {
            x \<leftarrow> block_read element 0 (dataSize q);
            b \<leftarrow> block_write (buf q) (indexLast q * dataSize q) x;
            _ \<leftarrow> guard_ok (maxCount q \<noteq> 0);
            Some (Inr (q\<lparr>buf := b, count := count q + 1,
              indexLast := (indexLast q + 1) smod maxCount q\<rparr>))
          })"

text \<open>\<open>want\<close> says whether the pointer to the element is not null.\<close>

definition qGetElement :: "Queue option \<Rightarrow> bool \<Rightarrow> byte list c_result" where
  "qGetElement q want =
     (case qIsEmpty q of
        None \<Rightarrow> None
      | Some (Inl e) \<Rightarrow> Some (Inl e)
      | Some (Inr True) \<Rightarrow> Some (Inl QUEUE_IS_EMPTY_EX)
      | Some (Inr False) \<Rightarrow>
          if \<not> want then Some (Inl INVALID_POINTER_EX)
          else (case q of
                  None \<Rightarrow> None
                | Some q \<Rightarrow> map_option Inr (block_read (buf q) (indexFirst q * dataSize q) (dataSize q))))"

definition qGetLastElement :: "Queue option \<Rightarrow> bool \<Rightarrow> byte list c_result" where
  "qGetLastElement q want =
     (case qIsEmpty q of
        None \<Rightarrow> None
      | Some (Inl e) \<Rightarrow> Some (Inl e)
      | Some (Inr True) \<Rightarrow> Some (Inl QUEUE_IS_EMPTY_EX)
      | Some (Inr False) \<Rightarrow>
          if \<not> want then Some (Inl INVALID_POINTER_EX)
          else (case q of
                  None \<Rightarrow> None
                | Some q \<Rightarrow> map_option Inr
                    (block_read (buf q) ((indexLast q - 1) * dataSize q) (dataSize q))))"

text \<open>Without an element to fill, nothing checks that there is one to remove.\<close>

definition qRemove :: "Queue option \<Rightarrow> bool \<Rightarrow> (Queue \<times> byte list option) c_result" where
  "qRemove q want =
     (case (if want then map_option (map_sum id Some) (qGetElement q want) else Some (Inr None)) of
        None \<Rightarrow> None
      | Some (Inl e) \<Rightarrow> Some (Inl e)
      | Some (Inr element) \<Rightarrow>
          (case q of
             None \<Rightarrow> None
           | Some q \<Rightarrow> do {
               _ \<leftarrow> guard_ok (maxCount q \<noteq> 0);
               Some (Inr (q\<lparr>count := count q - 1, indexFirst := (indexFirst q + 1) smod maxCount q\<rparr>,
                          element))
             }))"

end
