(* ===== verification/Queue_Props.thy ===== *)
theory Queue_Props
  imports Queue_C
begin

text \<open>
  Correctness of the queue: the block read as a circular array of slots, the invariant, the
  interpretation of the interface \<open>fifo\<close> on the queue's own operations, and the two operations
  that leave it (removing from an empty queue, looking at the last element after a wrap).
\<close>

subsection \<open>Slots of a block\<close>

definition slots :: "nat \<Rightarrow> nat \<Rightarrow> byte list \<Rightarrow> byte list list" where
  "slots ds n b = map (\<lambda>i. take ds (drop (i * ds) b)) [0..<n]"

lemma length_slots [simp]: "length (slots ds n b) = n"
  by (simp add: slots_def)

lemma slots_nth: "i < n \<Longrightarrow> slots ds n b ! i = take ds (drop (i * ds) b)"
  by (simp add: slots_def)

lemma slot_below: "(i :: nat) < j \<Longrightarrow> i * ds + ds \<le> j * ds"
  using mult_le_mono1 [of "Suc i" j ds] by (simp add: add.commute)

lemma slots_write:
  assumes "length b = n * ds" "i < n" "length x = ds"
  shows "slots ds n (take (i * ds) b @ x @ drop (i * ds + ds) b) = (slots ds n b)[i := x]"
proof (rule nth_equalityI)
  fix j assume "j < length (slots ds n (take (i * ds) b @ x @ drop (i * ds + ds) b))"
  then have j: "j < n" by simp
  have li: "i * ds + ds \<le> length b" using slot_below [OF assms(2), of ds] assms(1) by simp
  consider "j < i" | "j = i" | "i < j" by linarith
  then show "slots ds n (take (i * ds) b @ x @ drop (i * ds + ds) b) ! j = (slots ds n b)[i := x] ! j"
  proof cases
    case 1
    with j li slot_below [OF 1, of ds] show ?thesis
      by (simp add: slots_nth drop_take)
  next
    case 2
    with j li assms(3) show ?thesis by (simp add: slots_nth)
  next
    case 3
    from slot_below [OF 3, of ds] have "i * ds + ds + (j * ds - i * ds - ds) = j * ds" by simp
    with 3 j li slot_below [OF 3, of ds] assms(3) show ?thesis
      by (simp add: slots_nth)
  qed
qed simp

lemma smod_pos: "0 \<le> a \<Longrightarrow> 0 < b \<Longrightarrow> a smod b = a mod b" for a b :: int
  by (cases "a = 0") (simp_all add: signed_modulo_int_def)

lemma smod_next: "0 < b \<Longrightarrow> (int a + 1) smod int b = int ((a + 1) mod b)"
  using smod_pos [of "int (a + 1)" "int b"] by (simp add: zmod_int [of "Suc a" b] add.commute)

subsection \<open>The invariant\<close>

abbreviation q_cells :: "Queue \<Rightarrow> byte list list" where
  "q_cells q \<equiv> slots (nat (dataSize q)) (nat (maxCount q)) (buf q)"

definition q_wf :: "nat \<Rightarrow> Queue \<Rightarrow> bool" where
  "q_wf ds q \<longleftrightarrow> 0 < ds \<and> dataSize q = int ds \<and> 0 < maxCount q \<and>
     length (buf q) = nat (maxCount q) * ds \<and> 0 \<le> indexFirst q \<and> 0 \<le> indexLast q \<and> 0 \<le> count q \<and>
     ring_wf (q_cells q) (nat (indexFirst q)) (nat (indexLast q)) (nat (count q))"

definition q_items :: "Queue \<Rightarrow> byte list list" where
  "q_items q = ring (q_cells q) (nat (indexFirst q)) (nat (count q))"

definition q_cap :: "Queue \<Rightarrow> nat" where
  "q_cap q = nat (maxCount q)"

text \<open>In naturals: the struct of a well-formed queue.\<close>

lemma q_wfE:
  assumes "q_wf ds q"
  obtains f l c n b where "q = \<lparr>indexFirst = int f, indexLast = int l, maxCount = int n, count = int c,
      dataSize = int ds, buf = b\<rparr>"
    "0 < ds" "0 < n" "length b = n * ds" "f < n" "l < n" "c \<le> n" "ring_wf (slots ds n b) f l c"
    "q_items q = ring (slots ds n b) f c" "q_cap q = n"
proof -
  from assms have w: "ring_wf (q_cells q) (nat (indexFirst q)) (nat (indexLast q)) (nat (count q))"
    "0 \<le> indexFirst q" "0 \<le> indexLast q" "0 \<le> count q" "0 < maxCount q" "dataSize q = int ds"
    by (auto simp: q_wf_def)
  then have "nat (indexLast q) < nat (maxCount q)" by (simp add: ring_wf_def)
  moreover have "q = \<lparr>indexFirst = int (nat (indexFirst q)), indexLast = int (nat (indexLast q)),
      maxCount = int (nat (maxCount q)), count = int (nat (count q)), dataSize = int ds, buf = buf q\<rparr>"
    using w by (cases q) simp
  ultimately show thesis
    using w assms
    by - (rule that [of "nat (indexFirst q)" "nat (indexLast q)" "nat (maxCount q)" "nat (count q)" "buf q"],
      assumption, auto simp: q_wf_def q_items_def q_cap_def ring_wf_def)
qed

lemma q_wf_nat:
  "q_wf ds \<lparr>indexFirst = int f, indexLast = int l, maxCount = int n, count = int c, dataSize = int ds, buf = b\<rparr>
   \<longleftrightarrow> 0 < ds \<and> 0 < n \<and> length b = n * ds \<and> ring_wf (slots ds n b) f l c"
  by (auto simp: q_wf_def)

lemma q_items_nat:
  "q_items \<lparr>indexFirst = int f, indexLast = int l, maxCount = int n, count = int c, dataSize = int ds, buf = b\<rparr>
   = ring (slots ds n b) f c"
  by (simp add: q_items_def)

lemma length_q_items: "q_wf ds q \<Longrightarrow> length (q_items q) = nat (count q)"
  by (simp add: q_items_def)

lemma slot_read:
  assumes "length b = n * ds" "i < n"
  shows "block_read b (int i * int ds) (int ds) = Some (slots ds n b ! i)"
proof -
  have "i * ds + ds \<le> length b" using slot_below [OF assms(2), of ds] assms(1) by simp
  then show ?thesis using assms(2) by (simp add: block_read_def slots_nth nat_mult_distrib)
qed

subsection \<open>Operations on a well-formed queue\<close>

lemma qNew_wf:
  assumes "0 < ds" "0 < n" "length mem = n * ds"
  shows "q_wf ds (qNew (int ds) (int n) mem)" "q_items (qNew (int ds) (int n) mem) = []"
    "q_cap (qNew (int ds) (int n) mem) = n"
  using assms by (auto simp: qNew_def q_wf_def q_items_def q_cap_def ring_wf_def)

lemma qAdd_room:
  assumes w: "q_wf ds q" and x: "length x = ds" and r: "length (q_items q) < q_cap q"
  shows "\<exists>q'. qAdd (Some q) x = Some (Inr q') \<and> q_wf ds q' \<and> q_cap q' = q_cap q \<and>
    q_items q' = q_items q @ [x]"
  using w
proof (rule q_wfE)
  fix f l c n b
  assume q: "q = \<lparr>indexFirst = int f, indexLast = int l, maxCount = int n, count = int c,
      dataSize = int ds, buf = b\<rparr>"
    and b: "0 < ds" "0 < n" "length b = n * ds" "f < n" "l < n" "c \<le> n" "ring_wf (slots ds n b) f l c"
    and i: "q_items q = ring (slots ds n b) f c" "q_cap q = n"
  have c: "c < n" using r i by simp
  let ?b = "take (l * ds) b @ x @ drop (l * ds + ds) b"
  have len: "l * ds + ds \<le> length b" using slot_below [OF b(5), of ds] b(3) by simp
  have wr: "block_write b (int l * int ds) x = Some ?b"
    using len x by (simp add: block_write_def nat_mult_distrib)
  have rd: "block_read x 0 (int ds) = Some x" using x by (simp add: block_read_def)
  let ?l = "(l + 1) mod n"
  let ?q = "\<lparr>indexFirst = int f, indexLast = int ?l, maxCount = int n, count = int (Suc c),
      dataSize = int ds, buf = ?b\<rparr>"
  have m: "(int l + 1) smod int n = int ?l"
    using b(2) by (rule smod_next)
  have "qAdd (Some q) x = Some (Inr ?q)"
    using c b(2) by (simp add: q qAdd_def rd wr m [unfolded add.commute [of _ 1]] add.commute)
  moreover have "length ?b = n * ds" using len x b(3) by simp
  moreover note ring_put [OF b(7), of x] slots_write [OF b(3,5) x]
  ultimately show ?thesis
    using c b(1,2) i by (intro exI [of _ ?q]) (simp only: q_wf_nat q_items_nat length_slots, simp add: q_cap_def)
qed

lemma qRemove_items:
  assumes w: "q_wf ds q" and x: "q_items q = x # xs"
  shows "\<exists>q'. (\<forall>want. qRemove (Some q) want = Some (Inr (q', if want then Some x else None))) \<and>
    q_wf ds q' \<and> q_cap q' = q_cap q \<and> q_items q' = xs"
  using w
proof (rule q_wfE)
  fix f l c n b
  assume q: "q = \<lparr>indexFirst = int f, indexLast = int l, maxCount = int n, count = int c,
      dataSize = int ds, buf = b\<rparr>"
    and b: "0 < ds" "0 < n" "length b = n * ds" "f < n" "l < n" "c \<le> n" "ring_wf (slots ds n b) f l c"
    and i: "q_items q = ring (slots ds n b) f c" "q_cap q = n"
  obtain k where k: "c = Suc k" using x i by (cases c) auto
  note g = ring_get [OF b(7) [unfolded k]]
  from g(1) i x k have e: "x = slots ds n b ! f" "xs = ring (slots ds n b) ((f + 1) mod n) k" by simp_all
  let ?q = "\<lparr>indexFirst = int ((f + 1) mod n), indexLast = int l, maxCount = int n, count = int k,
      dataSize = int ds, buf = b\<rparr>"
  have m: "(int f + 1) smod int n = int ((f + 1) mod n)"
    using b(2) by (rule smod_next)
  have "qRemove (Some q) want = Some (Inr (?q, if want then Some x else None))" for want
    using b(2) by (simp add: q k qRemove_def qGetElement_def qIsEmpty_def slot_read [OF b(3,4)] m e)
  moreover have "q_wf ds ?q" using b(1-3) g(2) by (simp add: q_wf_nat)
  ultimately show ?thesis
    using e i by (intro exI [of _ ?q]) (simp only: q_items_nat, simp add: q_cap_def)
qed

subsection \<open>The queue offers the interface of a bounded buffer\<close>

definition q_put :: "byte list \<Rightarrow> Queue \<Rightarrow> Queue option" where
  "q_put x q = (case qAdd (Some q) x of Some (Inr q') \<Rightarrow> Some q' | _ \<Rightarrow> None)"

definition q_get :: "Queue \<Rightarrow> (byte list \<times> Queue) option" where
  "q_get q = (case qRemove (Some q) True of Some (Inr (q', Some x)) \<Rightarrow> Some (x, q') | _ \<Rightarrow> None)"

lemma q_count: "q_wf ds q \<Longrightarrow> count q = int (length (q_items q)) \<and> maxCount q = int (q_cap q)
    \<and> length (q_items q) \<le> q_cap q"
  by (erule q_wfE) simp

interpretation q: fifo "q_wf ds" q_cap q_items "\<lambda>x. length x = ds" q_put q_get for ds
proof unfold_locales
  fix q :: Queue and x :: "byte list" and xs
  assume w: "q_wf ds q"
  note c = q_count [OF w]
  show "length (q_items q) \<le> q_cap q" using c by simp
  show "\<exists>q'. q_put x q = Some q' \<and> q_wf ds q' \<and> q_cap q' = q_cap q \<and> q_items q' = q_items q @ [x]"
    if "length x = ds" "length (q_items q) < q_cap q"
    using qAdd_room [OF w that] by (auto simp: q_put_def)
  show "q_put x q = None" if "length (q_items q) = q_cap q"
    using c that by (simp add: q_put_def qAdd_def)
  show "\<exists>q'. q_get q = Some (x, q') \<and> q_wf ds q' \<and> q_cap q' = q_cap q \<and> q_items q' = xs"
    if "q_items q = x # xs"
    using qRemove_items [OF w that] by (force simp: q_get_def)
  show "q_get q = None" if "q_items q = []"
    using c that by (simp add: q_get_def qRemove_def qGetElement_def qIsEmpty_def)
qed

subsection \<open>The properties\<close>

text \<open>Adding to a queue that holds at most its maximum of elements: with room the element becomes
  the last one and everything else stays; a full queue throws.\<close>

theorem qAdd_correct:
  assumes "q_wf ds q" "length x = ds"
  shows "if length (q_items q) < q_cap q
    then \<exists>q'. qAdd (Some q) x = Some (Inr q') \<and> q_wf ds q' \<and> q_cap q' = q_cap q \<and> q_items q' = q_items q @ [x]
    else qAdd (Some q) x = Some (Inl QUEUE_IS_FULL_EX)"
  using qAdd_room [OF assms] q_count [OF assms(1)] by (auto simp: qAdd_def)

lemma qAdd_correct_witness:
  "\<exists>q'. qAdd (Some (qNew 2 1 [0, 0])) [7, 8] = Some (Inr q') \<and> q_items q' = [[7, 8]]"
  using qAdd_correct [OF qNew_wf(1) [of 2 1 "[0, 0]"], of "[7, 8]"] qNew_wf(2,3) [of 2 1 "[0, 0]"] by auto

text \<open>Whatever fits into a new queue comes out again, element by element, and leaves it empty.\<close>

theorem queue_drained:
  assumes "0 < ds" "0 < n" "length mem = n * ds"
    and "length xs \<le> n" "\<And>x. x \<in> set xs \<Longrightarrow> length x = ds"
  shows "\<exists>q. get_upto q_get (length xs) (put_all q_put xs (qNew (int ds) (int n) mem)) = (xs, q) \<and> q_items q = []"
  using assms q.put_then_get [of ds "qNew (int ds) (int n) mem" xs] qNew_wf [OF assms(1-3)]
  by (simp add: list_all_iff)

text \<open>Looking at the oldest element and removing it agree and do not depend on each other: a
  non-empty queue yields its first element and, when it is removed, keeps the rest; an empty one
  throws.\<close>

theorem qRemove_correct:
  assumes "q_wf ds q"
  shows "case q_items q of
      [] \<Rightarrow> qRemove (Some q) True = Some (Inl QUEUE_IS_EMPTY_EX) \<and>
        qGetElement (Some q) True = Some (Inl QUEUE_IS_EMPTY_EX)
    | x # xs \<Rightarrow> qGetElement (Some q) True = Some (Inr x) \<and>
        (\<exists>q'. qRemove (Some q) True = Some (Inr (q', Some x)) \<and> qRemove (Some q) False = Some (Inr (q', None)) \<and>
           q_wf ds q' \<and> q_cap q' = q_cap q \<and> q_items q' = xs)"
proof (cases "q_items q")
  case Nil
  with q_count [OF assms] show ?thesis by (simp add: qRemove_def qGetElement_def qIsEmpty_def)
next
  case (Cons x xs)
  from qRemove_items [OF assms Cons] obtain q' where
    r: "\<And>want. qRemove (Some q) want = Some (Inr (q', if want then Some x else None))"
    "q_wf ds q'" "q_cap q' = q_cap q" "q_items q' = xs" by blast
  from r(1) [of True] have "qGetElement (Some q) True = Some (Inr x)"
    by (auto simp: qRemove_def map_sum_def Option.bind_eq_Some_conv split: option.splits sum.splits)
  with r Cons show ?thesis by simp
qed

lemma qRemove_correct_witness:
  "qRemove (Some (qNew 1 2 [0, 0])) True = Some (Inl QUEUE_IS_EMPTY_EX)"
  using qRemove_correct [OF qNew_wf(1) [of 1 2 "[0, 0]"]] qNew_wf(2) [of 1 2 "[0, 0]"]
  by (simp add: numeral_2_eq_2)

subsection \<open>A queue is a bounded list\<close>

text \<open>The calls of a client, what each gives, and the queue it leaves; a call that throws changes nothing.\<close>

datatype q_op = Add "byte list" | Remove | Discard | Peek | AskEmpty

datatype q_out = Added | Got "byte list" | Discarded | Answered bool | Thrown queue_ex

definition outcome_of :: "('a \<Rightarrow> q_out \<times> Queue) \<Rightarrow> Queue \<Rightarrow> 'a c_result \<Rightarrow> (q_out \<times> Queue) option" where
  "outcome_of f q r = map_option (case_sum (\<lambda>e. (Thrown e, q)) f) r"

fun q_do :: "q_op \<Rightarrow> Queue \<Rightarrow> (q_out \<times> Queue) option" where
  "q_do (Add x) q = outcome_of (\<lambda>q'. (Added, q')) q (qAdd (Some q) x)"
| "q_do Remove q = outcome_of (\<lambda>(q', x). (case x of None \<Rightarrow> Discarded | Some x \<Rightarrow> Got x, q')) q (qRemove (Some q) True)"
| "q_do Discard q = outcome_of (\<lambda>(q', x). (case x of None \<Rightarrow> Discarded | Some x \<Rightarrow> Got x, q')) q (qRemove (Some q) False)"
| "q_do Peek q = outcome_of (\<lambda>x. (Got x, q)) q (qGetElement (Some q) True)"
| "q_do AskEmpty q = outcome_of (\<lambda>b. (Answered b, q)) q (qIsEmpty (Some q))"

text \<open>The same calls on a list of at most \<open>n\<close> elements. There is nothing to discard from an empty one.\<close>

fun l_do :: "nat \<Rightarrow> q_op \<Rightarrow> byte list list \<Rightarrow> (q_out \<times> byte list list) option" where
  "l_do n (Add x) xs = Some (if length xs < n then (Added, xs @ [x]) else (Thrown QUEUE_IS_FULL_EX, xs))"
| "l_do n Remove xs = Some (case xs of [] \<Rightarrow> (Thrown QUEUE_IS_EMPTY_EX, []) | x # xs \<Rightarrow> (Got x, xs))"
| "l_do n Discard xs = (case xs of [] \<Rightarrow> None | x # xs \<Rightarrow> Some (Discarded, xs))"
| "l_do n Peek xs = Some (case xs of [] \<Rightarrow> Thrown QUEUE_IS_EMPTY_EX | x # _ \<Rightarrow> Got x, xs)"
| "l_do n AskEmpty xs = Some (Answered (xs = []), xs)"

text \<open>What a sequence of calls gives.\<close>

fun outs :: "('o \<Rightarrow> 's \<Rightarrow> ('r \<times> 's) option) \<Rightarrow> 'o list \<Rightarrow> 's \<Rightarrow> 'r list option" where
  "outs f [] s = Some []"
| "outs f (x # xs) s = do { (r, s) \<leftarrow> f x s; rs \<leftarrow> outs f xs s; Some (r # rs) }"

fun q_sized :: "nat \<Rightarrow> q_op \<Rightarrow> bool" where
  "q_sized ds (Add x) \<longleftrightarrow> length x = ds"
| "q_sized ds _ \<longleftrightarrow> True"

lemma q_do_simulates:
  assumes w: "q_wf ds q" and op: "q_sized ds op" and l: "l_do (q_cap q) op (q_items q) = Some (r, xs)"
  shows "\<exists>q'. q_do op q = Some (r, q') \<and> q_wf ds q' \<and> q_cap q' = q_cap q \<and> q_items q' = xs"
proof (cases op)
  case (Add x)
  with qAdd_correct [OF w, of x] op l w show ?thesis by (auto simp: outcome_of_def split: if_splits)
next
  case AskEmpty
  with l w q_count [OF w] show ?thesis by (auto simp: outcome_of_def qIsEmpty_def)
qed (use l w qRemove_correct [OF w] in \<open>auto simp: outcome_of_def split: list.splits\<close>)

lemma outs_simulate:
  "q_wf ds q \<Longrightarrow> list_all (q_sized ds) ops \<Longrightarrow> outs (l_do (q_cap q)) ops (q_items q) = Some rs \<Longrightarrow> outs q_do ops q = Some rs"
proof (induction ops arbitrary: q rs)
  case (Cons op ops)
  from Cons.prems(3) obtain r xs rs' where l: "l_do (q_cap q) op (q_items q) = Some (r, xs)"
    "outs (l_do (q_cap q)) ops xs = Some rs'" "rs = r # rs'"
    by (auto simp: Option.bind_eq_Some_conv)
  from q_do_simulates [OF Cons.prems(1) _ l(1)] Cons.prems(2) obtain q' where
    q': "q_do op q = Some (r, q')" "q_wf ds q'" "q_cap q' = q_cap q" "q_items q' = xs" by auto
  with Cons.IH [OF q'(2), of rs'] Cons.prems(2) l show ?case by simp
qed simp

text \<open>C24. A queue is a bounded list, however often its indices wrap around. Make a queue of \<open>n\<close> elements
on any block of memory and call it in any order: add elements of its size, remove the oldest one with
or without looking at it, look at it, ask whether there is one. Then every call gives what it gives on
a list of at most \<open>n\<close> elements, to which adding appends and from whose front removing takes, the
exceptions of a full and of an empty queue included, and none leaves the block; all provided that no
element is discarded from an empty queue, which nothing checks.\<close>

theorem queue_is_bounded_list:
  assumes "0 < ds" "0 < n" "length mem = n * ds" "list_all (q_sized ds) ops"
    and "outs (l_do n) ops [] = Some rs"
  shows "outs q_do ops (qNew (int ds) (int n) mem) = Some rs"
  using outs_simulate [OF qNew_wf(1) [OF assms(1-3)] assms(4)] assms(5) qNew_wf(2,3) [OF assms(1-3)] by simp

lemma queue_is_bounded_list_witness:
  "outs q_do [Add [1], Add [2], Add [3], Remove, Add [3], Discard, Add [4], Peek, Remove, Remove, Remove, AskEmpty]
      (qNew (int 1) (int 2) [0, 0]) =
    Some [Added, Added, Thrown QUEUE_IS_FULL_EX, Got [1], Added, Discarded, Added, Got [3], Got [3], Got [4],
      Thrown QUEUE_IS_EMPTY_EX, Answered True]"
  by (rule queue_is_bounded_list) simp_all

text \<open>Removing without retrieving does not check for an element: on an empty queue the count
  becomes -1, and the queue passes for non-empty.\<close>

theorem qRemove_underflow:
  assumes "q_wf ds q" "q_items q = []"
  shows "\<exists>q'. qRemove (Some q) False = Some (Inr (q', None)) \<and> count q' = -1 \<and>
    qIsEmpty (Some q') = Some (Inr False) \<and> \<not> q_wf ds q'"
  using assms q_count [OF assms(1)]
  by (auto simp: qRemove_def qIsEmpty_def q_wf_def guard_ok_def)

lemma qRemove_underflow_witness:
  "\<exists>q'. qRemove (Some (qNew 1 2 [0, 0])) False = Some (Inr (q', None)) \<and> count q' = -1"
  using qRemove_underflow [OF qNew_wf(1,2) [of 1 2 "[0, 0]"]] by (auto simp: numeral_2_eq_2)

text \<open>The last element is found only while the index of the next free slot is not 0: after the
  index has wrapped, the routine reads before the block.\<close>

theorem qGetLastElement_wrap:
  assumes "q_wf ds q" "q_items q \<noteq> []"
  shows "qGetLastElement (Some q) True =
    (if indexLast q = 0 then None else Some (Inr (last (q_items q))))"
  using assms(1)
proof (rule q_wfE)
  fix f l c n b
  assume q: "q = \<lparr>indexFirst = int f, indexLast = int l, maxCount = int n, count = int c,
      dataSize = int ds, buf = b\<rparr>"
    and b: "0 < ds" "0 < n" "length b = n * ds" "f < n" "l < n" "c \<le> n" "ring_wf (slots ds n b) f l c"
    and i: "q_items q = ring (slots ds n b) f c" "q_cap q = n"
  obtain k where k: "c = Suc k" using assms(2) i by (cases c) auto
  have last: "last (q_items q) = slots ds n b ! ((f + k) mod n)"
    by (simp add: i k ring_def)
  show ?thesis
  proof (cases l)
    case 0
    then show ?thesis using b(1) by (simp add: q k qGetLastElement_def qIsEmpty_def block_read_def)
  next
    case (Suc m)
    have "l = (f + Suc k) mod n" using b(7) by (simp add: ring_wf_def k)
    then have "m = (f + k) mod n" using Suc by (simp add: mod_Suc split: if_splits)
    moreover have "m < n" using b(5) Suc by simp
    ultimately show ?thesis
      using last by (simp add: q k Suc qGetLastElement_def qIsEmpty_def slot_read [OF b(3)])
  qed
qed

lemma qGetLastElement_wrap_witness:
  "\<exists>q. qAdd (Some (qNew 1 1 [0])) [7] = Some (Inr q) \<and> q_items q = [[7]] \<and> qGetLastElement (Some q) True = None"
proof -
  from qAdd_room [OF qNew_wf(1) [of 1 1 "[0]"], of "[7]"] qNew_wf(2,3) [of 1 1 "[0]"] obtain q where
    q: "qAdd (Some (qNew 1 1 [0])) [7] = Some (Inr q)" "q_wf 1 q" "q_items q = [[7]]" by auto
  have "indexLast q = 0"
    using q(1) by (auto simp: qAdd_def qNew_def block_read_def block_write_def signed_modulo_int_def)
  with q qGetLastElement_wrap [OF q(2)] show ?thesis by simp
qed

end
