(* ===== verification/State_Machine.thy ===== *)
theory State_Machine
  imports Prelude
begin

text \<open>
  The state machines of \<open>src/src/system/util/state_machine.c\<close>, on which the drivers of the note
  and coin acceptors are built.

  A state is known by its address (type \<open>'st\<close>, looked up in the program's states), a null state
  is \<open>None\<close>; the context a machine works on is of type \<open>'c\<close>. Guards and actions take the
  machine and may change it. The array of transitions of a state has no length: the search for a
  transition that runs past its end reads foreign memory, which is \<open>None\<close> here.
\<close>

record ('st, 'c) StateMachine =
  currentState :: "'st option"
  lastState :: "'st option"
  "context" :: 'c
  currentEvent :: int

type_synonym ('st, 'c) StateAction = "('st, 'c) StateMachine \<Rightarrow> ('st, 'c) StateMachine option"
type_synonym ('st, 'c) GuardCondition = "('st, 'c) StateMachine \<Rightarrow> (bool \<times> ('st, 'c) StateMachine) option"

record ('st, 'c) Transition =
  tr_event :: int
  guardCondition :: "('st, 'c) GuardCondition option"
  "action" :: "('st, 'c) StateAction option"
  nextState :: "'st option"

record ('st, 'c) State =
  "entry" :: "('st, 'c) StateAction option"
  exit :: "('st, 'c) StateAction option"
  transitions :: "('st, 'c) Transition list"

definition SM_ANY :: int where
  [simp]: "SM_ANY = -1"

definition GUARD_CONDITION_FALSE :: "('st, 'c) GuardCondition" where
  "GUARD_CONDITION_FALSE sm = Some (False, sm)"

definition GUARD_CONDITION_TRUE :: "('st, 'c) GuardCondition" where
  "GUARD_CONDITION_TRUE sm = Some (True, sm)"

text \<open>Calling a function pointer that may be null.\<close>

definition call :: "('st, 'c) StateAction option \<Rightarrow> ('st, 'c) StateAction" where
  "call a sm = (case a of None \<Rightarrow> Some sm | Some f \<Rightarrow> f sm)"

fun find_transition ::
  "int \<Rightarrow> ('st, 'c) Transition list \<Rightarrow> ('st, 'c) StateMachine
   \<Rightarrow> (('st, 'c) Transition \<times> ('st, 'c) StateMachine) option" where
  "find_transition ev [] sm = None"
| "find_transition ev (t # ts) sm =
     (if tr_event t = ev \<or> tr_event t = SM_ANY then
        (case guardCondition t of
           None \<Rightarrow> Some (t, sm)
         | Some g \<Rightarrow> do {
             (ok, sm) \<leftarrow> g sm;
             if ok then Some (t, sm) else find_transition ev ts sm
           })
      else find_transition ev ts sm)"

definition executeStateMachine ::
  "('st \<Rightarrow> ('st, 'c) State) \<Rightarrow> int \<Rightarrow> ('st, 'c) StateAction" where
  "executeStateMachine st ev sm = do {
     let sm = sm\<lparr>currentEvent := ev\<rparr>;
     cur \<leftarrow> currentState sm;
     (t, sm) \<leftarrow> find_transition ev (transitions (st cur)) sm;
     let newState = nextState t;
     let sm = sm\<lparr>lastState := currentState sm\<rparr>;
     let sm = sm\<lparr>currentState := newState\<rparr>;
     sm \<leftarrow> (if newState \<noteq> Some cur then call (exit (st cur)) sm else Some sm);
     sm \<leftarrow> call (action t) sm;
     (case newState of
        Some new \<Rightarrow> if new \<noteq> cur then call (entry (st new)) sm else Some sm
      | None \<Rightarrow> Some sm)
   }"

definition startStateMachine ::
  "('st \<Rightarrow> ('st, 'c) State) \<Rightarrow> ('st, 'c) StateAction" where
  "startStateMachine st sm =
     (case currentState sm of None \<Rightarrow> Some sm | Some cur \<Rightarrow> call (entry (st cur)) sm)"

text \<open>The field \<open>currentEvent\<close> of a new machine is not initialised: \<open>ev0\<close>.\<close>

definition newStateMachine :: "'st option \<Rightarrow> 'c \<Rightarrow> int \<Rightarrow> ('st, 'c) StateMachine" where
  "newStateMachine initialState ctx ev0 =
     \<lparr>currentState = initialState, lastState = None, context = ctx, currentEvent = ev0\<rparr>"

definition gotoState ::
  "('st \<Rightarrow> ('st, 'c) State) \<Rightarrow> 'st option \<Rightarrow> ('st, 'c) StateAction" where
  "gotoState st newState sm =
     (let sm = sm\<lparr>lastState := currentState sm\<rparr>; sm = sm\<lparr>currentState := newState\<rparr> in
      case newState of None \<Rightarrow> Some sm | Some new \<Rightarrow> call (entry (st new)) sm)"

subsection \<open>The search for a transition\<close>

text \<open>
  An event for which the current state has no row makes the search leave the array. A row for every
  event, without a guard, keeps it inside as long as the guards before it come to an end.
\<close>

lemma find_transition_no_row:
  "\<forall>t \<in> set ts. tr_event t \<noteq> ev \<and> tr_event t \<noteq> SM_ANY \<Longrightarrow> find_transition ev ts sm = None"
  by (induction ts) auto

lemma find_transition_stays:
  assumes "\<forall>t \<in> set ts. \<forall>g sm. guardCondition t = Some g \<longrightarrow> g sm \<noteq> None"
    and "\<exists>t \<in> set ts. tr_event t = SM_ANY \<and> guardCondition t = None"
  shows "find_transition ev ts sm \<noteq> None"
  using assms
proof (induction ts arbitrary: sm)
  case (Cons t ts)
  show ?case
  proof (cases "guardCondition t")
    case None
    with Cons show ?thesis by auto
  next
    case (Some g)
    then obtain ok sm' where g: "g sm = Some (ok, sm')" using Cons.prems(1) by fastforce
    with Some Cons.IH [of sm'] Cons.IH [of sm] Cons.prems show ?thesis by (cases ok) auto
  qed
qed simp

theorem executeStateMachine_no_row:
  assumes "currentState sm = Some cur" "\<forall>t \<in> set (transitions (st cur)). tr_event t \<noteq> ev \<and> tr_event t \<noteq> SM_ANY"
  shows "executeStateMachine st ev sm = None"
  using assms by (simp add: executeStateMachine_def find_transition_no_row del: SM_ANY_def)

end
