(* ===== verification/Os_Runtime.thy ===== *)
theory Os_Runtime
  imports Prelude
begin

text \<open>
  Threads and exceptions of \<open>src/src/system/os/osrt.c\<close> and the macros of
  \<open>src/src/system/os/excepts.h\<close>.

  Exceptions are \<open>setjmp\<close> and \<open>longjmp\<close>: each thread has a stack of jump buffers
  (\<open>jmpenvs\<close>, with \<open>jenv\<close> at its top, here an index), pushed by TRY and popped by its end and by
  THROW. A jump buffer is the number of the \<open>setjmp\<close> that filled it, and \<open>longjmp\<close> to a buffer is
  the outcome \<open>Jump\<close> with that number, which the block that made that \<open>setjmp\<close> takes up. The
  process is ended by \<open>Stop\<close> (\<open>abort\<close>, \<open>exit\<close>, or a jump through a null pointer).

  \<open>strncpy\<close> into a message field keeps all but the last byte of the field, which is 0 from the
  start; so do the local copies of \<open>ex_do_rethrow\<close> here.
\<close>

definition MAX_THREADS :: nat where [simp]: "MAX_THREADS = 55"
definition MAX_NESTED_TRIES :: nat where [simp]: "MAX_NESTED_TRIES = 20"
definition NO_EXCEPTION :: int where [simp]: "NO_EXCEPTION = 0"
definition EX_NAME_SIZE :: nat where [simp]: "EX_NAME_SIZE = 100"
definition EX_FILE_SIZE :: nat where [simp]: "EX_FILE_SIZE = 100"
definition EX_MSG_SIZE :: nat where [simp]: "EX_MSG_SIZE = 100"

record Exception_t =
  jmpenvs :: "nat list"
  jenv :: "nat option"
  excode :: int
  adcode :: int
  line :: int
  inexception :: bool
  ex_file :: string
  ex_name :: string
  ex_msg :: string
  infinally :: bool

record Thread_t =
  threadid :: int
  priority :: int
  "exception" :: Exception_t

text \<open>A pointer to a \<open>Thread_t\<close> is a number; 0 is \<open>main_thread\<close>.\<close>

record Os =
  threads :: "nat option list"
  thread_mem :: "nat \<Rightarrow> Thread_t"

definition upd_exc :: "nat \<Rightarrow> (Exception_t \<Rightarrow> Exception_t) \<Rightarrow> Os \<Rightarrow> Os" where
  "upd_exc th f os = os\<lparr>thread_mem := (thread_mem os)(th := (thread_mem os th)
     \<lparr>exception := f (exception (thread_mem os th))\<rparr>)\<rparr>"

subsection \<open>Threads\<close>

definition initializeMainThread :: "Os \<Rightarrow> Os \<times> int" where
  "initializeMainThread os = (upd_exc 0 (\<lambda>e. e\<lparr>jenv := None\<rparr>) os, 1)"

text \<open>The first index from \<open>i\<close> on whose entry satisfies \<open>P\<close>.\<close>

fun scan_threads :: "(nat option \<Rightarrow> bool) \<Rightarrow> nat \<Rightarrow> nat option list \<Rightarrow> nat option" where
  "scan_threads P i [] = None"
| "scan_threads P i (t # ts) = (if P t then Some i else scan_threads P (Suc i) ts)"

definition threadRegister :: "nat \<Rightarrow> Os \<Rightarrow> Os option" where
  "threadRegister th os =
     (case scan_threads (\<lambda>t. t = None) 1 (tl (threads os)) of
        Some i \<Rightarrow> Some (upd_exc th (\<lambda>e. e\<lparr>jenv := None\<rparr>) (os\<lparr>threads := (threads os)[i := Some th]\<rparr>))
      | None \<Rightarrow> None)"

text \<open>\<open>tid\<close> and \<open>ret\<close> are what the operating system's \<open>threadCreate\<close> stores and returns.\<close>

definition threadCreate :: "nat \<Rightarrow> int \<Rightarrow> int \<Rightarrow> Os \<Rightarrow> (Os \<times> int) option" where
  "threadCreate th tid ret os = do {
     let os = upd_exc th (\<lambda>e. e\<lparr>jenv := None\<rparr>) os;
     os \<leftarrow> threadRegister th os;
     let os = os\<lparr>thread_mem := (thread_mem os)(th := (thread_mem os th)\<lparr>threadid := tid\<rparr>)\<rparr>;
     let os = upd_exc th (\<lambda>e. e\<lparr>inexception := False, infinally := False, excode := NO_EXCEPTION\<rparr>) os;
     _ \<leftarrow> guard_ok (ret = 0);
     Some (os, ret)
   }"

definition threadUnRegister :: "nat \<Rightarrow> Os \<Rightarrow> Os" where
  "threadUnRegister th os =
     (case scan_threads (\<lambda>t. t = Some th) 0 (threads os) of
        Some i \<Rightarrow> (upd_exc th (\<lambda>e. e\<lparr>jenv := None, inexception := False, infinally := False,
             excode := NO_EXCEPTION\<rparr>) os)\<lparr>threads := (threads os)[i := None]\<rparr>
      | None \<Rightarrow> os)"

definition threadExit :: "nat \<Rightarrow> Os \<Rightarrow> Os" where
  "threadExit th os = threadUnRegister th os"

definition threadEqual :: "nat \<Rightarrow> nat \<Rightarrow> Os \<Rightarrow> bool" where
  "threadEqual t1 t2 os \<longleftrightarrow> threadid (thread_mem os t1) = threadid (thread_mem os t2)"

text \<open>\<open>tid\<close> is the operating system's identification of the caller; the result may be null.\<close>

definition threadSelf :: "int \<Rightarrow> Os \<Rightarrow> nat option" where
  "threadSelf tid os =
     (case scan_threads (\<lambda>t. case t of None \<Rightarrow> False | Some th \<Rightarrow> threadid (thread_mem os th) = tid)
        1 (tl (threads os)) of
        Some i \<Rightarrow> threads os ! i
      | None \<Rightarrow> threads os ! 0)"

subsection \<open>The exception of the calling thread\<close>

definition ex_save_env :: "Exception_t \<Rightarrow> (Exception_t \<times> nat) option" where
  "ex_save_env e =
     (case jenv e of
        None \<Rightarrow> Some (e\<lparr>jenv := Some 0\<rparr>, 0)
      | Some i \<Rightarrow> if i \<ge> MAX_NESTED_TRIES - 1 then None else Some (e\<lparr>jenv := Some (i + 1)\<rparr>, i + 1))"

definition ex_remove_env :: "Exception_t \<Rightarrow> Exception_t" where
  "ex_remove_env e =
     (case jenv e of Some (Suc i) \<Rightarrow> e\<lparr>jenv := Some i\<rparr> | _ \<Rightarrow> e\<lparr>jenv := None\<rparr>)"

definition ex_set_except_block :: "Exception_t \<Rightarrow> Exception_t" where
  "ex_set_except_block e = e\<lparr>infinally := False, inexception := False\<rparr>"

definition ex_set_finally_block :: "Exception_t \<Rightarrow> Exception_t" where
  "ex_set_finally_block e = e\<lparr>infinally := True\<rparr>"

definition ex_curr_code :: "int \<Rightarrow> Exception_t \<Rightarrow> bool" where
  "ex_curr_code code e \<longleftrightarrow> excode e = code"

definition ex_get_line :: "Exception_t \<Rightarrow> int" where "ex_get_line e = line e"
definition ex_get_file :: "Exception_t \<Rightarrow> string" where "ex_get_file e = ex_file e"
definition ex_get_name :: "Exception_t \<Rightarrow> string" where "ex_get_name e = ex_name e"
definition ex_get_code :: "Exception_t \<Rightarrow> int" where "ex_get_code e = excode e"
definition ex_get_additional_code :: "Exception_t \<Rightarrow> int" where "ex_get_additional_code e = adcode e"
definition ex_get_msg :: "Exception_t \<Rightarrow> string" where "ex_get_msg e = ex_msg e"

datatype ctl = Go | Jump nat | Stop

text \<open>Without a TRY around it, \<open>ex_throw_msg\<close> aborts before it comes to the default handler.\<close>

definition ex_throw_msg ::
  "int \<Rightarrow> bool \<Rightarrow> int \<Rightarrow> string \<Rightarrow> int \<Rightarrow> string \<Rightarrow> string \<Rightarrow> Exception_t \<Rightarrow> Exception_t \<times> ctl" where
  "ex_throw_msg code fatal ad file ln name msg e =
     (let e = e\<lparr>ex_msg := take (EX_MSG_SIZE - 1) msg, ex_file := take (EX_FILE_SIZE - 1) file,
            ex_name := take (EX_NAME_SIZE - 1) name, excode := code, adcode := ad, line := ln,
            inexception := True\<rparr> in
      case jenv e of
        None \<Rightarrow> (e, Stop)
      | Some i \<Rightarrow> (e\<lparr>jenv := (case i of 0 \<Rightarrow> None | Suc k \<Rightarrow> Some k)\<rparr>, Jump (jmpenvs e ! i)))"

definition ex_throw ::
  "int \<Rightarrow> bool \<Rightarrow> int \<Rightarrow> string \<Rightarrow> int \<Rightarrow> string \<Rightarrow> Exception_t \<Rightarrow> Exception_t \<times> ctl" where
  "ex_throw code fatal ad file ln name e = ex_throw_msg code fatal ad file ln name [] e"

text \<open>
  The formatted message is a parameter. Without a TRY the default handler is called; it ends the
  process or returns, and then the jump goes through a null pointer.
\<close>

definition ex_throw_fmt ::
  "int \<Rightarrow> bool \<Rightarrow> int \<Rightarrow> string \<Rightarrow> int \<Rightarrow> string \<Rightarrow> string \<Rightarrow> Exception_t \<Rightarrow> Exception_t \<times> ctl" where
  "ex_throw_fmt code fatal ad file ln name formatted e =
     (let e = e\<lparr>ex_msg := take (EX_MSG_SIZE - 2) formatted, ex_file := take (EX_FILE_SIZE - 1) file,
            ex_name := take (EX_NAME_SIZE - 1) name, excode := code, adcode := ad, line := ln,
            inexception := True\<rparr> in
      case jenv e of
        None \<Rightarrow> (e, Stop)
      | Some i \<Rightarrow> (e\<lparr>jenv := (case i of 0 \<Rightarrow> None | Suc k \<Rightarrow> Some k)\<rparr>, Jump (jmpenvs e ! i)))"

definition ex_rethrow :: "Exception_t \<Rightarrow> Exception_t \<times> ctl" where
  "ex_rethrow e =
     (let e = e\<lparr>inexception := True\<rparr> in
      case jenv e of
        None \<Rightarrow> (e, Stop)
      | Some i \<Rightarrow> (e\<lparr>jenv := (case i of 0 \<Rightarrow> None | Suc k \<Rightarrow> Some k)\<rparr>, Jump (jmpenvs e ! i)))"

definition ex_do_rethrow :: "Exception_t \<Rightarrow> Exception_t \<times> ctl" where
  "ex_do_rethrow e =
     (if inexception e \<and> infinally e then
        ex_throw_msg (excode e) False (adcode e) (take (EX_FILE_SIZE - 1) (ex_file e)) (line e)
          (take (EX_NAME_SIZE - 1) (ex_name e)) (take (EX_MSG_SIZE - 1) (ex_msg e)) e
      else (e, Go))"

subsection \<open>Code between the macros\<close>

text \<open>
  Programs over a state of type \<open>'w\<close>: straight code, sequencing, tests (of the state, and of the
  current exception's code as EXCEPTION does), THROW, RETHROW and the two kinds of TRY block.
\<close>

datatype 'w prog =
    Do "'w \<Rightarrow> 'w"
  | Seq "'w prog" "'w prog"
  | Cond "'w \<Rightarrow> bool" "'w prog" "'w prog"
  | EXCEPTION int "'w prog" "'w prog"
  | THROW int
  | RETHROW
  | TRY_CATCH "'w prog" "'w prog"
  | TRY_FINALLY "'w prog" "'w prog"

record 'w rt =
  exc :: Exception_t
  setjmps :: nat
  world :: 'w

text \<open>\<open>setjmp(*ex_save_env())\<close>: the slot is filled with the number of this \<open>setjmp\<close>.\<close>

definition enter_try :: "'w rt \<Rightarrow> ('w rt \<times> nat) option" where
  "enter_try s =
     (case ex_save_env (exc s) of
        None \<Rightarrow> None
      | Some (e, i) \<Rightarrow> Some (s\<lparr>exc := e\<lparr>jmpenvs := (jmpenvs e)[i := setjmps s]\<rparr>, setjmps := setjmps s + 1\<rparr>,
          setjmps s))"

definition on_exc :: "(Exception_t \<Rightarrow> Exception_t \<times> ctl) \<Rightarrow> 'w rt \<Rightarrow> 'w rt \<times> ctl" where
  "on_exc f s = (case f (exc s) of (e, c) \<Rightarrow> (s\<lparr>exc := e\<rparr>, c))"

definition end_try :: "'w rt \<times> ctl \<Rightarrow> 'w rt \<times> ctl" where
  "end_try r = (case r of (s, Go) \<Rightarrow> on_exc ex_do_rethrow s | _ \<Rightarrow> r)"

text \<open>
  END_TRY is \<open>ex_do_rethrow(); } }\<close>. After CATCH it stands in the \<open>else\<close> of the test of \<open>setjmp\<close>, so a body
  that completes skips it; after FINALLY it is run on both ways.
\<close>

primrec exec :: "'w prog \<Rightarrow> 'w rt \<Rightarrow> 'w rt \<times> ctl" where
  "exec (Do f) s = (s\<lparr>world := f (world s)\<rparr>, Go)"
| "exec (Seq p q) s = (case exec p s of (s, Go) \<Rightarrow> exec q s | r \<Rightarrow> r)"
| "exec (Cond b p q) s = (if b (world s) then exec p s else exec q s)"
| "exec (EXCEPTION code p q) s = (if ex_curr_code code (exc s) then exec p s else exec q s)"
| "exec (THROW code) s = on_exc (ex_throw code False 0 [] 0 []) s"
| "exec RETHROW s = on_exc ex_rethrow s"
| "exec (TRY_CATCH p h) s =
     (case enter_try s of
        None \<Rightarrow> (s, Stop)
      | Some (s, tok) \<Rightarrow>
          (case exec p s of
             (s, Go) \<Rightarrow> (s\<lparr>exc := ex_remove_env (exc s)\<rparr>, Go)
           | (s, Jump k) \<Rightarrow>
               if k = tok then end_try (exec h (s\<lparr>exc := ex_set_except_block (exc s)\<rparr>)) else (s, Jump k)
           | (s, Stop) \<Rightarrow> (s, Stop)))"
| "exec (TRY_FINALLY p f) s =
     (case enter_try s of
        None \<Rightarrow> (s, Stop)
      | Some (s, tok) \<Rightarrow>
          (case exec p s of
             (s, Go) \<Rightarrow> end_try (exec f (s\<lparr>exc := ex_set_finally_block (ex_remove_env (exc s))\<rparr>))
           | (s, Jump k) \<Rightarrow>
               if k = tok then end_try (exec f (s\<lparr>exc := ex_set_finally_block (exc s)\<rparr>)) else (s, Jump k)
           | (s, Stop) \<Rightarrow> (s, Stop)))"

end
