(* ===== verification/Os_Props.thy ===== *)
theory Os_Props
  imports Os_Runtime
begin

text \<open>
  Correctness of the exception macros: the runtime on jump buffers implements structured
  exceptions (\<open>sem\<close>) for programs whose finally blocks contain no TRY; for the others it does not.
  Then the registration of threads.
\<close>

subsection \<open>Structured exceptions\<close>

text \<open>The state, the code of the last exception, and whether it is being raised.\<close>

primrec sem :: "'w prog \<Rightarrow> int \<Rightarrow> 'w \<Rightarrow> 'w \<times> int \<times> bool" where
  "sem (Do f) c w = (f w, c, False)"
| "sem (Seq p q) c w = (case sem p c w of (w, c, r) \<Rightarrow> if r then (w, c, True) else sem q c w)"
| "sem (Cond b p q) c w = (if b w then sem p c w else sem q c w)"
| "sem (EXCEPTION k p q) c w = (if c = k then sem p c w else sem q c w)"
| "sem (THROW k) c w = (w, k, True)"
| "sem RETHROW c w = (w, c, True)"
| "sem (TRY_CATCH p h) c w = (case sem p c w of (w, c, r) \<Rightarrow> if r then sem h c w else (w, c, False))"
| "sem (TRY_FINALLY p f) c w =
     (case sem p c w of (w, c, r) \<Rightarrow>
        (case sem f c w of (w', c', r') \<Rightarrow>
           if r' then (w', c', True) else (w', if r then c else c', r)))"

primrec tryless :: "'w prog \<Rightarrow> bool" where
  "tryless (Do f) = True"
| "tryless (Seq p q) = (tryless p \<and> tryless q)"
| "tryless (Cond b p q) = (tryless p \<and> tryless q)"
| "tryless (EXCEPTION k p q) = (tryless p \<and> tryless q)"
| "tryless (THROW k) = True"
| "tryless RETHROW = True"
| "tryless (TRY_CATCH p h) = False"
| "tryless (TRY_FINALLY p f) = False"

primrec plain_finally :: "'w prog \<Rightarrow> bool" where
  "plain_finally (Do f) = True"
| "plain_finally (Seq p q) = (plain_finally p \<and> plain_finally q)"
| "plain_finally (Cond b p q) = (plain_finally p \<and> plain_finally q)"
| "plain_finally (EXCEPTION k p q) = (plain_finally p \<and> plain_finally q)"
| "plain_finally (THROW k) = True"
| "plain_finally RETHROW = True"
| "plain_finally (TRY_CATCH p h) = (plain_finally p \<and> plain_finally h)"
| "plain_finally (TRY_FINALLY p f) = (plain_finally p \<and> tryless f)"

text \<open>How many TRY bodies a program nests.\<close>

primrec tries :: "'w prog \<Rightarrow> nat" where
  "tries (Do f) = 0"
| "tries (Seq p q) = max (tries p) (tries q)"
| "tries (Cond b p q) = max (tries p) (tries q)"
| "tries (EXCEPTION k p q) = max (tries p) (tries q)"
| "tries (THROW k) = 0"
| "tries RETHROW = 0"
| "tries (TRY_CATCH p h) = max (Suc (tries p)) (tries h)"
| "tries (TRY_FINALLY p f) = max (Suc (tries p)) (tries f)"

text \<open>The stack of jump buffers holds exactly the open TRY blocks \<open>E\<close>, outermost first.\<close>

definition stack :: "nat list \<Rightarrow> Exception_t \<Rightarrow> bool" where
  "stack E e \<longleftrightarrow> length (jmpenvs e) = MAX_NESTED_TRIES \<and> length E \<le> MAX_NESTED_TRIES \<and>
     take (length E) (jmpenvs e) = E \<and> jenv e = (if E = [] then None else Some (length E - 1))"

definition leaves :: "nat list \<Rightarrow> bool \<Rightarrow> ctl" where
  "leaves E r = (if \<not> r then Go else if E = [] then Stop else Jump (last E))"

definition settled :: "nat list \<Rightarrow> int \<Rightarrow> bool \<Rightarrow> Exception_t \<Rightarrow> bool" where
  "settled E c r e \<longleftrightarrow> stack (if r then butlast E else E) e \<and> excode e = c \<and> inexception e = r"

lemma stack_cases:
  "stack E e \<Longrightarrow> (E = [] \<and> jenv e = None) \<or> (\<exists>F t. E = F @ [t] \<and> jenv e = Some (length F) \<and>
     jmpenvs e ! length F = t \<and> length F < MAX_NESTED_TRIES)"
proof (cases E rule: rev_cases)
  case (snoc F t)
  assume "stack E e"
  with snoc have s: "take (Suc (length F)) (jmpenvs e) = F @ [t]" "jenv e = Some (length F)" "length F < 20"
    by (auto simp: stack_def)
  have "jmpenvs e ! length F = take (Suc (length F)) (jmpenvs e) ! length F" by simp
  also have "\<dots> = t" by (simp only: s(1)) simp
  finally show ?thesis using s snoc by simp
qed (simp add: stack_def)

lemma stack_fields:
  "stack E (e\<lparr>excode := c\<rparr>) = stack E e" "stack E (e\<lparr>inexception := b\<rparr>) = stack E e"
  "stack E (e\<lparr>infinally := b\<rparr>) = stack E e" "stack E (e\<lparr>adcode := c\<rparr>) = stack E e"
  "stack E (e\<lparr>line := c\<rparr>) = stack E e" "stack E (e\<lparr>ex_msg := m\<rparr>) = stack E e"
  "stack E (e\<lparr>ex_file := m\<rparr>) = stack E e" "stack E (e\<lparr>ex_name := m\<rparr>) = stack E e"
  by (simp_all add: stack_def)

lemma stack_pop:
  "stack (F @ [t]) e \<Longrightarrow> stack F (e\<lparr>jenv := (case length F of 0 \<Rightarrow> None | Suc k \<Rightarrow> Some k)\<rparr>)"
proof -
  assume s: "stack (F @ [t]) e"
  then have "take (length F) (take (Suc (length F)) (jmpenvs e)) = F" by (simp add: stack_def)
  then have "take (length F) (jmpenvs e) = F" by (simp add: min_def)
  with s show ?thesis by (auto simp: stack_def split: nat.split)
qed

lemma remove_pop: "stack (F @ [t]) e \<Longrightarrow> stack F (ex_remove_env e)"
proof -
  assume s: "stack (F @ [t]) e"
  then have "ex_remove_env e = e\<lparr>jenv := (case length F of 0 \<Rightarrow> None | Suc k \<Rightarrow> Some k)\<rparr>"
    by (auto simp: ex_remove_env_def stack_def split: nat.split)
  with stack_pop [OF s] show ?thesis by simp
qed

lemma remove_fields [simp]:
  "excode (ex_remove_env e) = excode e" "inexception (ex_remove_env e) = inexception e"
  by (auto simp: ex_remove_env_def split: option.split nat.split)

lemma throw_settled:
  assumes "stack E e" "ex_throw_msg c fa ad fi ln na ms e = (e', ctl)"
  shows "settled E c True e' \<and> ctl = leaves E True"
  using stack_cases [OF assms(1)]
proof (elim disjE exE conjE)
  assume "E = []" "jenv e = None"
  with assms show ?thesis
    by (auto simp: ex_throw_msg_def settled_def leaves_def stack_fields)
next
  fix F t assume "E = F @ [t]" "jenv e = Some (length F)" "jmpenvs e ! length F = t"
  with assms stack_pop [of F t e] show ?thesis
    by (auto simp: ex_throw_msg_def settled_def leaves_def stack_def)
qed

lemma rethrow_settled:
  assumes "stack E e" "ex_rethrow e = (e', ctl)"
  shows "settled E (excode e) True e' \<and> ctl = leaves E True"
  using stack_cases [OF assms(1)]
proof (elim disjE exE conjE)
  assume "E = []" "jenv e = None"
  with assms show ?thesis by (auto simp: ex_rethrow_def settled_def leaves_def stack_fields)
next
  fix F t assume "E = F @ [t]" "jenv e = Some (length F)" "jmpenvs e ! length F = t"
  with assms stack_pop [of F t e] show ?thesis
    by (auto simp: ex_rethrow_def settled_def leaves_def stack_def)
qed

lemma end_quiet:
  "\<not> inexception (exc s) \<Longrightarrow> end_try (s, Go) = (s, Go)"
  by (simp add: end_try_def on_exc_def ex_do_rethrow_def)

lemma end_raised: "r \<Longrightarrow> end_try (s, leaves E r) = (s, leaves E r)"
  by (simp add: end_try_def leaves_def)

text \<open>A finally block without TRY: it runs through, touching no exception, or raises.\<close>

lemma exec_tryless:
  assumes "tryless p" "stack E (exc s)" "sem p (excode (exc s)) (world s) = (w, c, r)"
  shows "\<exists>s'. exec p s = (s', leaves E r) \<and> world s' = w \<and> setjmps s' = setjmps s \<and>
    (if r then settled E c True (exc s') else exc s' = exc s \<and> c = excode (exc s))"
  using assms
proof (induction p arbitrary: s w c r)
  case (Seq p q)
  obtain w1 c1 r1 where p: "sem p (excode (exc s)) (world s) = (w1, c1, r1)" by (metis prod_cases3)
  from Seq.IH(1) [OF _ Seq.prems(2) p] Seq.prems(1) obtain s1 where
    s1: "exec p s = (s1, leaves E r1)" "world s1 = w1" "setjmps s1 = setjmps s"
    "if r1 then settled E c1 True (exc s1) else exc s1 = exc s \<and> c1 = excode (exc s)" by auto
  show ?case
  proof (cases r1)
    case True
    with s1 p Seq.prems show ?thesis by (auto simp: leaves_def)
  next
    case False
    with s1 p Seq.prems(2,3) have "sem q (excode (exc s1)) (world s1) = (w, c, r)" "stack E (exc s1)" by auto
    from Seq.IH(2) [OF _ this(2,1)] Seq.prems(1) s1 False show ?thesis by (auto simp: leaves_def)
  qed
next
  case (THROW k)
  then show ?case
    using throw_settled [OF THROW.prems(2), of k False 0 "[]" 0 "[]" "[]"]
    by (auto simp: on_exc_def ex_throw_def split: prod.splits)
next
  case RETHROW
  then show ?case
    using rethrow_settled [OF RETHROW.prems(2)] by (auto simp: on_exc_def split: prod.splits)
next
  case (Cond b p q)
  then show ?case by (cases "b (world s)") simp_all
next
  case (EXCEPTION k p q)
  then show ?case by (cases "excode (exc s) = k") (simp_all add: ex_curr_code_def)
qed (auto simp: leaves_def)

text \<open>Opening a block pushes its own \<open>setjmp\<close>, which no open block has.\<close>

lemma enter_stack:
  assumes "stack E (exc s)" "length E < MAX_NESTED_TRIES"
  shows "\<exists>s'. enter_try s = Some (s', setjmps s) \<and> stack (E @ [setjmps s]) (exc s') \<and>
    setjmps s' = setjmps s + 1 \<and> world s' = world s \<and> excode (exc s') = excode (exc s) \<and>
    inexception (exc s') = inexception (exc s)"
proof -
  let ?i = "length E"
  have i: "ex_save_env (exc s) = Some ((exc s)\<lparr>jenv := Some ?i\<rparr>, ?i)"
    using assms by (cases E rule: rev_cases) (auto simp: ex_save_env_def stack_def)
  have "take (Suc ?i) ((jmpenvs (exc s))[?i := setjmps s]) = E @ [setjmps s]"
    using assms by (simp add: take_update_same stack_def)
  then show ?thesis using assms i by (simp add: enter_try_def stack_def)
qed

lemma enter_full:
  "stack E (exc s) \<Longrightarrow> length E = MAX_NESTED_TRIES \<Longrightarrow> enter_try s = None"
  by (simp add: enter_try_def ex_save_env_def stack_def split: if_splits)

definition runs_to :: "nat list \<Rightarrow> 'w prog \<Rightarrow> 'w rt \<Rightarrow> 'w \<times> int \<times> bool \<Rightarrow> bool" where
  "runs_to E p s r \<longleftrightarrow> (case r of (w, c, r) \<Rightarrow>
     \<exists>s'. exec p s = (s', leaves E r) \<and> world s' = w \<and> setjmps s \<le> setjmps s' \<and> settled E c r (exc s'))"

lemma runs_toI:
  "exec p s = (s', leaves E r) \<Longrightarrow> world s' = w \<Longrightarrow> setjmps s \<le> setjmps s' \<Longrightarrow> settled E c r (exc s')
    \<Longrightarrow> runs_to E p s (w, c, r)"
  by (auto simp: runs_to_def)

lemma runs_toE:
  assumes "runs_to E p s (w, c, r)"
  obtains s' where "exec p s = (s', leaves E r)" "world s' = w" "setjmps s \<le> setjmps s'" "settled E c r (exc s')"
  using assms by (auto simp: runs_to_def)

lemma runs_catch:
  assumes e: "enter_try s = Some (s0, tok)" "setjmps s \<le> setjmps s0" and p: "runs_to (E @ [tok]) p s0 (w, c, r)"
    and h: "\<And>s'. stack E (exc s') \<Longrightarrow> \<not> inexception (exc s') \<Longrightarrow> excode (exc s') = c \<Longrightarrow> world s' = w \<Longrightarrow> r
      \<Longrightarrow> runs_to E h s' (sem h c w)"
  shows "runs_to E (TRY_CATCH p h) s (if r then sem h c w else (w, c, False))"
  using p
proof (rule runs_toE)
  fix s1 assume s1: "exec p s0 = (s1, leaves (E @ [tok]) r)" "world s1 = w" "setjmps s0 \<le> setjmps s1"
    "settled (E @ [tok]) c r (exc s1)"
  show ?thesis
  proof (cases r)
    case False
    let ?s2 = "s1\<lparr>exc := ex_remove_env (exc s1)\<rparr>"
    have st: "stack E (ex_remove_env (exc s1))" "excode (ex_remove_env (exc s1)) = c"
      "\<not> inexception (ex_remove_env (exc s1))"
      using s1(4) False remove_pop by (auto simp: settled_def)
    with s1 e False have "exec (TRY_CATCH p h) s = (?s2, leaves E False)"
      by (simp add: leaves_def)
    with st s1 e(2) False show ?thesis by (auto intro!: runs_toI simp: settled_def)
  next
    case True
    let ?s2 = "s1\<lparr>exc := ex_set_except_block (exc s1)\<rparr>"
    have "stack E (exc ?s2)" "\<not> inexception (exc ?s2)" "excode (exc ?s2) = c" "world ?s2 = w"
      using s1(2,4) True by (auto simp: settled_def ex_set_except_block_def stack_fields)
    note h2 = h [OF this True]
    obtain w2 c2 r2 where sh: "sem h c w = (w2, c2, r2)" by (metis prod_cases3)
    from h2 sh obtain s3 where s3: "exec h ?s2 = (s3, leaves E r2)" "world s3 = w2" "setjmps ?s2 \<le> setjmps s3"
      "settled E c2 r2 (exc s3)" by (auto elim: runs_toE)
    have "end_try (s3, leaves E r2) = (s3, leaves E r2)"
      using s3(4) by (cases r2) (auto simp: end_raised settled_def end_quiet leaves_def end_try_def on_exc_def ex_do_rethrow_def)
    with s1(1) e(1) s3(1) True have "exec (TRY_CATCH p h) s = (s3, leaves E r2)"
      by (simp add: leaves_def [of "E @ [tok]"])
    with s3 s1(3) e(2) sh True show ?thesis by (auto intro!: runs_toI)
  qed
qed

text \<open>The finally block runs with the exception pending, if there is one, and END_TRY throws it on.\<close>

lemma runs_fin:
  assumes f: "tryless f" and s: "stack E (exc s)" "excode (exc s) = c" "inexception (exc s) = r" "world s = w"
  shows "\<exists>s' w' c' r'. end_try (exec f (s\<lparr>exc := ex_set_finally_block (exc s)\<rparr>)) = (s', leaves E r') \<and>
    world s' = w' \<and> setjmps s \<le> setjmps s' \<and> settled E c' r' (exc s') \<and>
    (case sem f c w of (w1, c1, r1) \<Rightarrow> (w', c', r') = (if r1 then (w1, c1, True) else (w1, if r then c else c1, r)))"
proof -
  let ?s = "s\<lparr>exc := ex_set_finally_block (exc s)\<rparr>"
  have st: "stack E (exc ?s)" "excode (exc ?s) = c" "inexception (exc ?s) = r" "infinally (exc ?s)" "world ?s = w"
    using s by (simp_all add: ex_set_finally_block_def stack_fields)
  obtain w1 c1 r1 where sf: "sem f c w = (w1, c1, r1)" by (metis prod_cases3)
  from exec_tryless [OF f st(1)] sf st(2,5) obtain s1 where
    s1: "exec f ?s = (s1, leaves E r1)" "world s1 = w1" "setjmps s1 = setjmps s"
    "if r1 then settled E c1 True (exc s1) else exc s1 = exc ?s \<and> c1 = c" by force
  show ?thesis
  proof (cases r1)
    case True
    with s1 sf show ?thesis
      by (intro exI [of _ s1] exI [of _ w1] exI [of _ c1] exI [of _ True]) (simp add: end_raised)
  next
    case False
    then have x: "exc s1 = exc ?s" "c1 = c" using s1(4) by auto
    show ?thesis
    proof (cases r)
      case True
      obtain e' ctl where t: "ex_do_rethrow (exc s1) = (e', ctl)" by fastforce
      with True st have "settled E c True e'" "ctl = leaves E True"
        using throw_settled [OF st(1)] by (auto simp: x(1) ex_do_rethrow_def)
      moreover have "end_try (s1, Go) = (s1\<lparr>exc := e'\<rparr>, ctl)" using t by (simp add: end_try_def on_exc_def)
      ultimately show ?thesis
        using s1 sf False True
        by (intro exI [of _ "s1\<lparr>exc := e'\<rparr>"] exI [of _ w1] exI [of _ c] exI [of _ True]) (simp add: leaves_def)
    next
      case r: False
      with x st have "end_try (s1, Go) = (s1, Go)" "settled E c False (exc s1)"
        by (simp_all add: end_quiet settled_def)
      with s1 sf False r x show ?thesis
        by (intro exI [of _ s1] exI [of _ w1] exI [of _ c] exI [of _ False]) (simp add: leaves_def)
    qed
  qed
qed

lemma runs_finally:
  assumes e: "enter_try s = Some (s0, tok)" "setjmps s \<le> setjmps s0" and p: "runs_to (E @ [tok]) p s0 (w, c, r)"
    and f: "tryless f"
  shows "runs_to E (TRY_FINALLY p f) s (case sem f c w of (w', c', r') \<Rightarrow>
    if r' then (w', c', True) else (w', if r then c else c', r))"
  using p
proof (rule runs_toE)
  fix s1 assume s1: "exec p s0 = (s1, leaves (E @ [tok]) r)" "world s1 = w" "setjmps s0 \<le> setjmps s1"
    "settled (E @ [tok]) c r (exc s1)"
  define s2 where "s2 = (if r then s1 else s1\<lparr>exc := ex_remove_env (exc s1)\<rparr>)"
  have st: "stack E (exc s2)" "excode (exc s2) = c" "inexception (exc s2) = r" "world s2 = w"
    using s1(2,4) remove_pop by (auto simp: settled_def s2_def)
  have ex: "exec (TRY_FINALLY p f) s = end_try (exec f (s2\<lparr>exc := ex_set_finally_block (exc s2)\<rparr>))"
    using e(1) s1(1) by (cases r) (simp_all add: leaves_def [of "E @ [tok]"] s2_def)
  have n: "setjmps s \<le> setjmps s2" using s1(3) e(2) by (simp add: s2_def)
  obtain s3 w' c' r' where
    s3: "exec (TRY_FINALLY p f) s = (s3, leaves E r')" "world s3 = w'" "setjmps s2 \<le> setjmps s3"
    "settled E c' r' (exc s3)"
    and res: "case sem f c w of (w1, c1, r1) \<Rightarrow> (w', c', r') = (if r1 then (w1, c1, True) else (w1, if r then c else c1, r))"
    using runs_fin [OF f st] unfolding ex by (elim exE conjE) simp
  with n have "runs_to E (TRY_FINALLY p f) s (w', c', r')" by (auto intro: runs_toI)
  with res show ?thesis by (auto split: prod.splits if_splits)
qed

lemma exec_structured:
  assumes "plain_finally p" "tries p + length E \<le> MAX_NESTED_TRIES" "stack E (exc s)" "\<not> inexception (exc s)"
  shows "runs_to E p s (sem p (excode (exc s)) (world s))"
  using assms
proof (induction p arbitrary: s E)
  case (Do f)
  then show ?case by (simp add: runs_to_def leaves_def settled_def)
next
  case (Seq p q)
  obtain w c r where p: "sem p (excode (exc s)) (world s) = (w, c, r)" by (metis prod_cases3)
  have n: "tries p + length E \<le> MAX_NESTED_TRIES" "tries q + length E \<le> MAX_NESTED_TRIES"
    "plain_finally p" "plain_finally q" using Seq.prems by simp_all
  from Seq.IH(1) [OF n(3,1) Seq.prems(3,4)] p obtain s1 where s1: "exec p s = (s1, leaves E r)" "world s1 = w"
    "setjmps s \<le> setjmps s1" "settled E c r (exc s1)" by (auto elim: runs_toE)
  show ?case
  proof (cases r)
    case True
    with s1 p show ?thesis by (auto simp: runs_to_def leaves_def)
  next
    case False
    with s1 Seq.IH(2) [OF n(4,2), of s1] have "runs_to E q s1 (sem q c w)" by (auto simp: settled_def)
    with s1 p False show ?thesis by (auto simp: runs_to_def leaves_def split: prod.splits)
  qed
next
  case (Cond b p q)
  then have "runs_to E p s (sem p (excode (exc s)) (world s))" "runs_to E q s (sem q (excode (exc s)) (world s))"
    by simp_all
  then show ?case by (cases "b (world s)") (simp_all add: runs_to_def)
next
  case (EXCEPTION k p q)
  then have "runs_to E p s (sem p (excode (exc s)) (world s))" "runs_to E q s (sem q (excode (exc s)) (world s))"
    by simp_all
  then show ?case by (cases "excode (exc s) = k") (simp_all add: runs_to_def ex_curr_code_def)
next
  case (THROW k)
  then show ?case
    using throw_settled [OF THROW.prems(3), of k False 0 "[]" 0 "[]" "[]"]
    by (auto simp: runs_to_def on_exc_def ex_throw_def split: prod.splits)
next
  case RETHROW
  then show ?case
    using rethrow_settled [OF RETHROW.prems(3)] by (auto simp: runs_to_def on_exc_def split: prod.splits)
next
  case (TRY_CATCH p h)
  have n: "length E < MAX_NESTED_TRIES" using TRY_CATCH.prems(2) by simp
  from enter_stack [OF TRY_CATCH.prems(3) n] obtain s0 where
    s0: "enter_try s = Some (s0, setjmps s)" "stack (E @ [setjmps s]) (exc s0)" "setjmps s0 = setjmps s + 1"
    "world s0 = world s" "excode (exc s0) = excode (exc s)" "inexception (exc s0) = inexception (exc s)" by blast
  obtain w c r where p: "sem p (excode (exc s)) (world s) = (w, c, r)" by (metis prod_cases3)
  with TRY_CATCH.IH(1) [of "E @ [setjmps s]" s0] TRY_CATCH.prems s0
  have "runs_to (E @ [setjmps s]) p s0 (w, c, r)" by auto
  moreover have "runs_to E h s' (sem h c w)"
    if "stack E (exc s')" "\<not> inexception (exc s')" "excode (exc s') = c" "world s' = w" for s'
    using TRY_CATCH.IH(2) [of E s'] TRY_CATCH.prems(1,2) that by simp
  moreover have "setjmps s \<le> setjmps s0" using s0(3) by simp
  ultimately show ?case using runs_catch [OF s0(1)] p by simp
next
  case (TRY_FINALLY p f)
  have n: "length E < MAX_NESTED_TRIES" using TRY_FINALLY.prems(2) by simp
  from enter_stack [OF TRY_FINALLY.prems(3) n] obtain s0 where
    s0: "enter_try s = Some (s0, setjmps s)" "stack (E @ [setjmps s]) (exc s0)" "setjmps s0 = setjmps s + 1"
    "world s0 = world s" "excode (exc s0) = excode (exc s)" "inexception (exc s0) = inexception (exc s)" by blast
  obtain w c r where p: "sem p (excode (exc s)) (world s) = (w, c, r)" by (metis prod_cases3)
  with TRY_FINALLY.IH(1) [of "E @ [setjmps s]" s0] TRY_FINALLY.prems s0
  have "runs_to (E @ [setjmps s]) p s0 (w, c, r)" by auto
  from runs_finally [OF s0(1) _ this, of f] TRY_FINALLY.prems(1) s0(3) p
  show ?case by (auto simp: case_prod_beta' split: if_splits)
qed

lemma fresh_stack: "jenv e = None \<Longrightarrow> length (jmpenvs e) = MAX_NESTED_TRIES \<Longrightarrow> stack [] e"
  by (simp add: stack_def)

text \<open>C21. Exceptions are structured. A program whose finally blocks contain no TRY and whose TRY
blocks nest at most \<open>MAX_NESTED_TRIES\<close> deep, started in a thread with no TRY around it and no
exception pending, does what the block structure says: the state is the one of the reference
semantics, the current code is that of the last exception, an exception leaves the outermost block
if and only if the reference semantics raises it (and then the process is aborted), and every
pushed jump buffer has been popped.\<close>

theorem exceptions_structured:
  assumes "plain_finally p" "tries p \<le> MAX_NESTED_TRIES"
    and "jenv (exc s) = None" "length (jmpenvs (exc s)) = MAX_NESTED_TRIES" "\<not> inexception (exc s)"
    and "sem p (excode (exc s)) (world s) = (w, c, r)"
  shows "\<exists>s'. exec p s = (s', if r then Stop else Go) \<and> world s' = w \<and> excode (exc s') = c \<and>
    inexception (exc s') = r \<and> jenv (exc s') = None \<and> length (jmpenvs (exc s')) = MAX_NESTED_TRIES"
proof -
  from exec_structured [of p "[]" s] fresh_stack [OF assms(3,4)] assms(1,2,5,6) obtain s' where
    s': "exec p s = (s', leaves [] r)" "world s' = w" "settled [] c r (exc s')" by (auto elim: runs_toE)
  then have "leaves [] r = (if r then Stop else Go)" "stack [] (exc s')" "excode (exc s') = c"
    "inexception (exc s') = r" by (auto simp: leaves_def settled_def)
  with s'(1,2) show ?thesis by (intro exI [of _ s']) (auto simp: stack_def)
qed


theorem exceptions_structured_witness:
  "let s = \<lparr>exc = \<lparr>jmpenvs = replicate 20 0, jenv = None, excode = 0, adcode = 0, line = 0,
              inexception = False, ex_file = [], ex_name = [], ex_msg = [], infinally = False\<rparr>,
            setjmps = 0, world = [1 :: nat]\<rparr>;
       p = TRY_CATCH (TRY_FINALLY (Seq (Do (\<lambda>x. x @ [2])) (THROW 7)) (Do (\<lambda>x. x @ [3])))
             (EXCEPTION 7 (Do (\<lambda>x. x @ [4])) RETHROW)
   in \<exists>s'. exec p s = (s', Go) \<and> world s' = [1, 2, 3, 4] \<and> excode (exc s') = 7"
proof -
  let ?s = "\<lparr>exc = \<lparr>jmpenvs = replicate 20 0, jenv = None, excode = 0, adcode = 0, line = 0,
              inexception = False, ex_file = [], ex_name = [], ex_msg = [], infinally = False\<rparr>,
            setjmps = 0, world = [1 :: nat]\<rparr>"
  let ?p = "TRY_CATCH (TRY_FINALLY (Seq (Do (\<lambda>x. x @ [2])) (THROW 7)) (Do (\<lambda>x. x @ [3])))
             (EXCEPTION 7 (Do (\<lambda>x. x @ [4])) RETHROW)"
  have "sem ?p (excode (exc ?s)) (world ?s) = ([1, 2, 3, 4], 7, False)" by simp
  from exceptions_structured [OF _ _ _ _ _ this] show ?thesis by (simp add: Let_def, blast)
qed

text \<open>C22. What a TRY inside a finally block does to the pending exception. The protected code has raised
\<open>c\<close>. A TRY with a CATCH whose body completes does no harm: the block goes on and \<open>c\<close> is raised after it.
A TRY with a FINALLY that raises nothing throws \<open>c\<close> again at its own end, so the rest \<open>f\<close> of the
outer block is skipped. A CATCH whose handler runs to its end forgets \<open>c\<close>, so the code after the outer
block is run as if nothing had happened. In the reference semantics the block is run to its end and \<open>c\<close>
is raised in all three cases.\<close>

theorem try_in_finally_loses:
  assumes "jenv (exc s) = None" "length (jmpenvs (exc s)) = MAX_NESTED_TRIES" "\<not> inexception (exc s)"
  shows "world (fst (exec (TRY_CATCH (TRY_FINALLY (THROW c) (Seq (TRY_CATCH (Do a) h) (Do f))) (Do g)) s))
      = g (f (a (world s))) \<and>
    fst (sem (TRY_CATCH (TRY_FINALLY (THROW c) (Seq (TRY_CATCH (Do a) h) (Do f))) (Do g)) c0 (world s))
      = g (f (a (world s))) \<and>
    world (fst (exec (TRY_CATCH (TRY_FINALLY (THROW c) (Seq (TRY_FINALLY (Do a) (Do b)) (Do f))) (Do g)) s))
      = g (b (a (world s))) \<and>
    fst (sem (TRY_CATCH (TRY_FINALLY (THROW c) (Seq (TRY_FINALLY (Do a) (Do b)) (Do f))) (Do g)) c0 (world s))
      = g (f (b (a (world s)))) \<and>
    snd (exec (TRY_FINALLY (THROW c) (Seq (TRY_CATCH (THROW d) (Do g)) (Do f))) s) = Go \<and>
    sem (TRY_FINALLY (THROW c) (Seq (TRY_CATCH (THROW d) (Do g)) (Do f))) c0 (world s) = (f (g (world s)), c, True)"
  using assms
  by (simp_all add: enter_try_def ex_save_env_def on_exc_def ex_throw_def ex_throw_msg_def
      ex_remove_env_def ex_set_finally_block_def ex_set_except_block_def end_try_def ex_do_rethrow_def)

theorem try_in_finally_loses_witness:
  "let s = \<lparr>exc = \<lparr>jmpenvs = replicate 20 0, jenv = None, excode = 0, adcode = 0, line = 0,
              inexception = False, ex_file = [], ex_name = [], ex_msg = [], infinally = False\<rparr>,
            setjmps = 0, world = [1 :: nat]\<rparr>;
       p = TRY_CATCH (TRY_FINALLY (THROW 7) (Seq (TRY_FINALLY (Do (\<lambda>x. x @ [2])) (Do (\<lambda>x. x @ [3]))) (Do (\<lambda>x. x @ [4]))))
             (Do (\<lambda>x. x @ [5]))
   in world (fst (exec p s)) = [1, 2, 3, 5] \<and> fst (sem p 0 (world s)) = [1, 2, 3, 4, 5]"
proof -
  let ?s = "\<lparr>exc = \<lparr>jmpenvs = replicate 20 0, jenv = None, excode = 0, adcode = 0, line = 0,
              inexception = False, ex_file = [], ex_name = [], ex_msg = [], infinally = False\<rparr>,
            setjmps = 0, world = [1 :: nat]\<rparr>"
  show ?thesis
    using try_in_finally_loses [of ?s 7 "\<lambda>x. x @ [2]" RETHROW "\<lambda>x. x @ [4]" "\<lambda>x. x @ [5]" 0 "\<lambda>x. x @ [3]" 8]
    by (simp add: Let_def)
qed

subsection \<open>Nesting\<close>

primrec nested :: "nat \<Rightarrow> ('w \<Rightarrow> 'w) \<Rightarrow> 'w prog" where
  "nested 0 f = Do f"
| "nested (Suc n) f = TRY_CATCH (nested n f) RETHROW"

lemma nested_sem [simp]: "sem (nested n f) c w = (f w, c, False)"
  by (induction n) simp_all

lemma nested_plain [simp]: "plain_finally (nested n f)" "tries (nested n f) = n"
  by (induction n) simp_all

lemma nested_full:
  "stack E (exc s) \<Longrightarrow> n + length E > MAX_NESTED_TRIES \<Longrightarrow> snd (exec (nested n f) s) = Stop"
proof (induction n arbitrary: E s)
  case 0
  then show ?case by (simp add: stack_def)
next
  case (Suc n)
  show ?case
  proof (cases "length E < MAX_NESTED_TRIES")
    case True
    from enter_stack [OF Suc.prems(1) True] obtain s0 where
      s0: "enter_try s = Some (s0, setjmps s)" "stack (E @ [setjmps s]) (exc s0)" by blast
    have "snd (exec (nested n f) s0) = Stop" using Suc.prems(2) by (intro Suc.IH [OF s0(2)]) simp
    with s0(1) show ?thesis by (cases "exec (nested n f) s0") simp
  next
    case False
    with Suc.prems(1) have "length E = MAX_NESTED_TRIES" by (simp add: stack_def)
    from enter_full [OF Suc.prems(1) this] show ?thesis by simp
  qed
qed

text \<open>C15. The nesting bound is exact: in a fresh thread, \<open>n\<close> TRY blocks around a statement run the
statement when \<open>n\<close> is at most \<open>MAX_NESTED_TRIES\<close>, and abort the process when it is more.\<close>

theorem nested_tries_limit:
  assumes "jenv (exc s) = None" "length (jmpenvs (exc s)) = MAX_NESTED_TRIES" "\<not> inexception (exc s)"
  shows "(n \<le> MAX_NESTED_TRIES \<longrightarrow>
      snd (exec (nested n f) s) = Go \<and> world (fst (exec (nested n f) s)) = f (world s)) \<and>
    (n > MAX_NESTED_TRIES \<longrightarrow> snd (exec (nested n f) s) = Stop)"
proof (intro conjI impI)
  assume "n > MAX_NESTED_TRIES"
  with nested_full [OF fresh_stack [OF assms(1,2)], of n f] show "snd (exec (nested n f) s) = Stop" by simp
next
  assume n: "n \<le> MAX_NESTED_TRIES"
  with exec_structured [of "nested n f" "[]" s] fresh_stack [OF assms(1,2)] assms(3)
  have "runs_to [] (nested n f) s (f (world s), excode (exc s), False)" by simp
  then show "snd (exec (nested n f) s) = Go" "world (fst (exec (nested n f) s)) = f (world s)"
    by (auto simp: leaves_def elim: runs_toE)
qed

theorem nested_tries_limit_witness:
  "let s = \<lparr>exc = \<lparr>jmpenvs = replicate 20 0, jenv = None, excode = 0, adcode = 0, line = 0,
              inexception = False, ex_file = [], ex_name = [], ex_msg = [], infinally = False\<rparr>,
            setjmps = 0, world = 1 :: nat\<rparr>
   in world (fst (exec (nested 20 Suc) s)) = 2 \<and> snd (exec (nested 21 Suc) s) = Stop"
proof -
  let ?s = "\<lparr>exc = \<lparr>jmpenvs = replicate 20 0, jenv = None, excode = 0, adcode = 0, line = 0,
              inexception = False, ex_file = [], ex_name = [], ex_msg = [], infinally = False\<rparr>,
            setjmps = 0, world = 1 :: nat\<rparr>"
  show ?thesis
    using nested_tries_limit [of ?s 20 Suc] nested_tries_limit [of ?s 21 Suc]
    by (simp only: Let_def) (simp del: nested.simps)
qed

subsection \<open>Threads\<close>

lemma scan_None: "scan_threads P i ts = None \<longleftrightarrow> (\<forall>t \<in> set ts. \<not> P t)"
  by (induction P i ts rule: scan_threads.induct) auto

lemma scan_Some:
  "scan_threads P i ts = Some j \<Longrightarrow> i \<le> j \<and> j - i < length ts \<and> P (ts ! (j - i))"
  by (induction P i ts rule: scan_threads.induct) (auto simp: nth_Cons' split: if_splits)

lemma scan_unique:
  "k < length ts \<Longrightarrow> P (ts ! k) \<Longrightarrow> (\<And>m. m < length ts \<Longrightarrow> P (ts ! m) \<Longrightarrow> m = k) \<Longrightarrow>
    scan_threads P i ts = Some (i + k)"
proof -
  assume k: "k < length ts" "P (ts ! k)" and u: "\<And>m. m < length ts \<Longrightarrow> P (ts ! m) \<Longrightarrow> m = k"
  have "ts ! k \<in> set ts" using k(1) by simp
  with k(2) have "scan_threads P i ts \<noteq> None" unfolding scan_None by blast
  then obtain j where j: "scan_threads P i ts = Some j" by blast
  have "i \<le> j" "j - i < length ts" "P (ts ! (j - i))" using scan_Some [OF j] by blast+
  with u have "j - i = k" by blast
  with \<open>i \<le> j\<close> j show ?thesis by auto
qed

lemma scan_cong: "map P ts = map Q us \<Longrightarrow> scan_threads P i ts = scan_threads Q i us"
proof (induction ts arbitrary: i us)
  case (Cons t ts)
  then show ?case by (cases us) auto
qed simp

text \<open>
  \<open>thread_table\<close>: slot 0 is the main thread's, the other slots hold threads with different
  identifications; a thread is never twice in the table.
\<close>

definition once :: "nat option list \<Rightarrow> bool" where
  "once xs \<longleftrightarrow> (\<forall>i < length xs. \<forall>j < length xs. xs ! i = xs ! j \<and> xs ! i \<noteq> None \<longrightarrow> i = j)"

definition thread_table :: "Os \<Rightarrow> bool" where
  "thread_table os \<longleftrightarrow> length (threads os) = MAX_THREADS \<and> once (threads os) \<and>
     (\<forall>t u. Some t \<in> set (tl (threads os)) \<and> Some u \<in> set (tl (threads os)) \<and>
        threadid (thread_mem os t) = threadid (thread_mem os u) \<longrightarrow> t = u)"

lemma tl_nth: "k < length xs - 1 \<Longrightarrow> tl xs ! k = xs ! Suc k"
  by (cases xs) auto

lemma register_slot:
  assumes "threadRegister th os = Some os'" "length (threads os) = MAX_THREADS"
  obtains i where "1 \<le> i" "i < MAX_THREADS" "threads os ! i = None" "threads os' = (threads os)[i := Some th]"
    "thread_mem os' = (thread_mem os)(th := (thread_mem os th)\<lparr>exception := (exception (thread_mem os th))\<lparr>jenv := None\<rparr>\<rparr>)"
proof -
  from assms(1) obtain i where i: "scan_threads (\<lambda>t. t = None) 1 (tl (threads os)) = Some i"
    and os': "os' = upd_exc th (\<lambda>e. e\<lparr>jenv := None\<rparr>) (os\<lparr>threads := (threads os)[i := Some th]\<rparr>)"
    by (auto simp: threadRegister_def split: option.splits)
  from scan_Some [OF i] assms(2) have "1 \<le> i" "i < MAX_THREADS" "threads os ! i = None"
    by (auto simp: tl_nth)
  with os' show ?thesis by (intro that) (simp_all add: upd_exc_def)
qed

lemma create_slot:
  assumes "threadCreate th tid ret os = Some (os', r)" "length (threads os) = MAX_THREADS"
  obtains i where "1 \<le> i" "i < MAX_THREADS" "threads os ! i = None" "threads os' = (threads os)[i := Some th]"
    "\<forall>t. t \<noteq> th \<longrightarrow> thread_mem os' t = thread_mem os t" "threadid (thread_mem os' th) = tid" "ret = 0" "r = 0"
proof -
  let ?os1 = "upd_exc th (\<lambda>e. e\<lparr>jenv := None\<rparr>) os"
  obtain os2 where r: "threadRegister th ?os1 = Some os2"
    using assms(1) by (auto simp: threadCreate_def Let_def elim: bind_SomeE)
  have ret: "ret = 0" "r = 0" using assms(1) r by (auto simp: threadCreate_def Let_def elim: bind_SomeE)
  with assms(1) r have "os' = upd_exc th (\<lambda>e. e\<lparr>inexception := False, infinally := False, excode := NO_EXCEPTION\<rparr>)
      (os2\<lparr>thread_mem := (thread_mem os2)(th := (thread_mem os2 th)\<lparr>threadid := tid\<rparr>)\<rparr>)"
    by (simp add: threadCreate_def Let_def)
  then have os': "threads os' = threads os2" "\<And>t. t \<noteq> th \<Longrightarrow> thread_mem os' t = thread_mem os2 t"
    "threadid (thread_mem os' th) = tid" by (simp_all add: upd_exc_def)
  have "length (threads ?os1) = MAX_THREADS" using assms(2) by (simp add: upd_exc_def)
  from register_slot [OF r this] obtain i where i: "1 \<le> i" "i < MAX_THREADS" "threads ?os1 ! i = None"
    "threads os2 = (threads ?os1)[i := Some th]" and m: "thread_mem os2 = (thread_mem ?os1)(th :=
      (thread_mem ?os1 th)\<lparr>exception := (exception (thread_mem ?os1 th))\<lparr>jenv := None\<rparr>\<rparr>)" .
  show ?thesis
  proof (rule that [OF i(1,2) _ _ _ os'(3) ret])
    show "threads os ! i = None" "threads os' = (threads os)[i := Some th]"
      using i(3,4) os'(1) by (simp_all add: upd_exc_def)
    show "\<forall>t. t \<noteq> th \<longrightarrow> thread_mem os' t = thread_mem os t"
      using os'(2) by (simp add: m upd_exc_def)
  qed
qed

text \<open>What \<open>threadSelf\<close> looks for in a slot.\<close>

definition has_id :: "int \<Rightarrow> Os \<Rightarrow> nat option \<Rightarrow> bool" where
  "has_id tid os t \<longleftrightarrow> (case t of None \<Rightarrow> False | Some th \<Rightarrow> threadid (thread_mem os th) = tid)"

lemma self_alt:
  "threadSelf tid os = (case scan_threads (has_id tid os) 1 (tl (threads os)) of
     Some i \<Rightarrow> threads os ! i | None \<Rightarrow> threads os ! 0)"
  by (simp add: threadSelf_def has_id_def [abs_def])

lemma self_new:
  assumes i: "1 \<le> i" "i < length (threads os)" "threads os ! i = Some th" "threadid (thread_mem os th) = tid"
    and u: "\<And>j. 1 \<le> j \<Longrightarrow> j < length (threads os) \<Longrightarrow> has_id tid os (threads os ! j) \<Longrightarrow> j = i"
  shows "threadSelf tid os = Some th"
proof -
  have "scan_threads (has_id tid os) 1 (tl (threads os)) = Some (1 + (i - 1))"
  proof (rule scan_unique)
    show "i - 1 < length (tl (threads os))" using i by simp
    show "has_id tid os (tl (threads os) ! (i - 1))" using i by (simp add: tl_nth has_id_def)
    show "m = i - 1" if "m < length (tl (threads os))" "has_id tid os (tl (threads os) ! m)" for m
      using u [of "Suc m"] that by (simp add: tl_nth)
  qed
  with i show ?thesis by (simp add: self_alt)
qed

lemma self_other:
  assumes i: "threads os ! i = None" "threads os' = (threads os)[i := Some th]" "1 \<le> i"
    and m: "\<And>t. t \<noteq> th \<Longrightarrow> thread_mem os' t = thread_mem os t" "threadid (thread_mem os' th) \<noteq> tid"
    and th: "Some th \<notin> set (threads os)"
  shows "threadSelf tid os' = threadSelf tid os"
proof -
  have tl: "tl (threads os') = (tl (threads os))[i - 1 := Some th]"
    using i(2,3) by (cases "threads os"; cases i) simp_all
  have eq: "has_id tid os' t = has_id tid os t" if "t \<in> set (threads os)" for t
  proof (cases t rule: option.exhaust)
    case (Some u)
    with that th have "u \<noteq> th" by auto
    from m(1) [OF this] Some show ?thesis by (simp add: has_id_def)
  qed (simp add: has_id_def)
  have "map (has_id tid os') (tl (threads os')) = map (has_id tid os) (tl (threads os))"
  proof (rule nth_equalityI)
    fix k assume "k < length (map (has_id tid os') (tl (threads os')))"
    then have k: "k < length (threads os) - 1" by (simp add: tl)
    show "map (has_id tid os') (tl (threads os')) ! k = map (has_id tid os) (tl (threads os)) ! k"
      using k i m(2) eq [of "threads os ! Suc k"]
      by (cases "k = i - 1") (simp_all add: tl tl_nth has_id_def)
  qed (simp add: tl)
  from scan_cong [OF this] have sc: "scan_threads (has_id tid os') 1 (tl (threads os')) =
    scan_threads (has_id tid os) 1 (tl (threads os))" .
  show ?thesis
  proof (cases "scan_threads (has_id tid os) 1 (tl (threads os))")
    case None
    with sc i show ?thesis by (simp add: self_alt)
  next
    case (Some j)
    from scan_Some [OF Some] have "1 \<le> j" "j - 1 < length (tl (threads os))" "has_id tid os (tl (threads os) ! (j - 1))" by auto
    then have "has_id tid os (threads os ! j)" by (simp add: tl_nth)
    then have "j \<noteq> i" using i(1) by (auto simp: has_id_def)
    with Some sc i show ?thesis by (simp add: self_alt)
  qed
qed

lemma exit_slot:
  assumes "i < length (threads os)" "threads os ! i = Some th"
    and "\<And>j. j < length (threads os) \<Longrightarrow> threads os ! j = Some th \<Longrightarrow> j = i"
  shows "threads (threadExit th os) = (threads os)[i := None]"
proof -
  have "scan_threads (\<lambda>t. t = Some th) 0 (threads os) = Some (0 + i)"
    by (rule scan_unique) (use assms in blast)+
  then show ?thesis by (simp add: threadExit_def threadUnRegister_def upd_exc_def)
qed

lemma nth_in_tl: "1 \<le> j \<Longrightarrow> j < length xs \<Longrightarrow> xs ! j \<in> set (tl xs)"
  by (cases xs; cases j) simp_all

lemma tl_update: "1 \<le> i \<Longrightarrow> tl (xs[i := x]) = (tl xs)[i - 1 := x]"
  by (cases xs; cases i) simp_all

text \<open>The table with a free slot filled by a thread that was not in it.\<close>

lemma filled_slot:
  assumes "xs ! i = None" "Some th \<notin> set xs" "j < length xs" "xs[i := Some th] ! j = Some th"
  shows "j = i"
proof (rule ccontr)
  assume "j \<noteq> i"
  with assms(4) have "xs ! j = Some th" by simp
  with assms(2) nth_mem [OF assms(3)] show False by simp
qed

lemma filled_once:
  assumes d: "once xs" and i: "xs ! i = None" "Some th \<notin> set xs" "i < length xs"
  shows "once (xs[i := Some th])"
  unfolding once_def
proof (intro allI impI)
  let ?ys = "xs[i := Some th]"
  fix j k assume j: "j < length ?ys" and k: "k < length ?ys" and e: "?ys ! j = ?ys ! k \<and> ?ys ! j \<noteq> None"
  have l: "j < length xs" "k < length xs" using j k by simp_all
  show "j = k"
  proof (cases "j = i \<or> k = i")
    case True
    with i(3) e have "?ys ! j = Some th" "?ys ! k = Some th" by auto
    then have "j = i" "k = i" using filled_slot [OF i(1,2)] l by blast+
    then show ?thesis by simp
  next
    case False
    then have "?ys ! j = xs ! j" "?ys ! k = xs ! k" by auto
    with e d l show ?thesis unfolding once_def by metis
  qed
qed

lemma filled_mem: "Some t \<in> set (xs[i := Some th]) \<Longrightarrow> t = th \<or> Some t \<in> set xs"
  using set_update_subset_insert [of xs i "Some th"] by auto

lemma filled_table:
  assumes t: "thread_table os" "Some th \<notin> set (threads os)"
    and new: "\<And>t. Some t \<in> set (tl (threads os)) \<Longrightarrow> threadid (thread_mem os t) \<noteq> tid"
    and i: "1 \<le> i" "i < MAX_THREADS" "threads os ! i = None" "threads os' = (threads os)[i := Some th]"
    and m: "\<And>t. t \<noteq> th \<Longrightarrow> thread_mem os' t = thread_mem os t" "threadid (thread_mem os' th) = tid"
  shows "thread_table os'"
proof -
  have len: "length (threads os) = MAX_THREADS" using t(1) by (simp add: thread_table_def)
  have "once (threads os')"
    using filled_once [of "threads os" i th] t i len unfolding thread_table_def by simp
  moreover have "t = u" if tu: "Some t \<in> set (tl (threads os'))" "Some u \<in> set (tl (threads os'))"
    "threadid (thread_mem os' t) = threadid (thread_mem os' u)" for t u
  proof -
    have "t = th \<or> Some t \<in> set (tl (threads os))" "u = th \<or> Some u \<in> set (tl (threads os))"
      using tu(1,2) unfolding i(4) tl_update [OF i(1)] by (auto dest: filled_mem)
    with new m tu(3) t(1) show ?thesis unfolding thread_table_def by metis
  qed
  ultimately show ?thesis using len i(4) unfolding thread_table_def by (metis length_list_update)
qed

lemma filled_self:
  assumes t: "length (threads os) = MAX_THREADS" "Some th \<notin> set (threads os)"
    and new: "\<And>t. Some t \<in> set (tl (threads os)) \<Longrightarrow> threadid (thread_mem os t) \<noteq> tid"
    and i: "1 \<le> i" "i < MAX_THREADS" "threads os ! i = None" "threads os' = (threads os)[i := Some th]"
    and m: "\<And>t. t \<noteq> th \<Longrightarrow> thread_mem os' t = thread_mem os t" "threadid (thread_mem os' th) = tid"
  shows "threadSelf tid os' = Some th"
proof (rule self_new [of i])
  fix j assume j: "1 \<le> j" "j < length (threads os')" "has_id tid os' (threads os' ! j)"
  from j(3) obtain u where u: "threads os' ! j = Some u" "threadid (thread_mem os' u) = tid"
    by (auto simp: has_id_def split: option.splits)
  have "Some u \<in> set (tl (threads os'))" using nth_in_tl [OF j(1,2)] u(1) by simp
  then have "u = th \<or> Some u \<in> set (tl (threads os))"
    unfolding i(4) tl_update [OF i(1)] by (auto dest: filled_mem)
  with u(2) new m have "u = th" by metis
  with j(2) u(1) i(4) show "j = i" by (intro filled_slot [OF i(3) t(2)]) auto
qed (use i t m in simp_all)

text \<open>C23. A created thread is its own \<open>threadSelf\<close>. In a well-formed table, creating the thread \<open>th\<close>
with an identification no registered thread has keeps the table well-formed, makes \<open>threadSelf\<close>
answer \<open>th\<close> to that identification and what it answered before to every other one, and
\<open>threadExit\<close> gives the slot back.\<close>

theorem thread_create_self:
  assumes "thread_table os" "Some th \<notin> set (threads os)"
    and "\<And>t. Some t \<in> set (tl (threads os)) \<Longrightarrow> threadid (thread_mem os t) \<noteq> tid"
    and "threadCreate th tid ret os = Some (os', r)"
  shows "thread_table os' \<and> threadSelf tid os' = Some th \<and>
    (\<forall>id. id \<noteq> tid \<longrightarrow> threadSelf id os' = threadSelf id os) \<and> threads (threadExit th os') = threads os"
proof -
  have len: "length (threads os) = MAX_THREADS" using assms(1) by (simp add: thread_table_def)
  show ?thesis
  proof (rule create_slot [OF assms(4) len])
    fix i
    assume i: "1 \<le> i" "i < MAX_THREADS" "threads os ! i = None" "threads os' = (threads os)[i := Some th]"
      and ms: "\<forall>t. t \<noteq> th \<longrightarrow> thread_mem os' t = thread_mem os t" and mt: "threadid (thread_mem os' th) = tid"
    have m: "\<And>t. t \<noteq> th \<Longrightarrow> thread_mem os' t = thread_mem os t" "threadid (thread_mem os' th) = tid"
      using ms mt by blast+
    have slot: "j = i" if "j < length (threads os')" "threads os' ! j = Some th" for j
      by (rule filled_slot [OF i(3) assms(2)]) (use that i(4) in auto)
    have "threadSelf id os' = threadSelf id os" if "id \<noteq> tid" for id
      using self_other [OF i(3,4,1) m(1) _ assms(2), of id] m(2) that by simp
    moreover have "threads (threadExit th os') = (threads os')[i := None]"
      by (rule exit_slot [OF _ _ slot]) (use i len in simp_all)
    moreover have "(threads os')[i := None] = threads os" using i len by (simp add: list_update_same_conv)
    moreover have "thread_table os'" using filled_table [OF assms(1-3) i m] .
    moreover have "threadSelf tid os' = Some th" using filled_self [OF len assms(2,3) i m] .
    ultimately show ?thesis by simp
  qed
qed

text \<open>Threads are created until the table is full: \<open>threadCreate\<close> returns, with 0, if and only if
the operating system has made the thread and one of the slots 1 to 54 is free; otherwise the
process is aborted.\<close>

theorem threadCreate_aborts:
  assumes "length (threads os) = MAX_THREADS"
  shows "(\<exists>os'. threadCreate th tid ret os = Some (os', 0)) \<longleftrightarrow>
      ret = 0 \<and> (\<exists>i. 1 \<le> i \<and> i < MAX_THREADS \<and> threads os ! i = None)"
    (is "?l \<longleftrightarrow> ?r")
proof
  assume ?l
  then obtain os' where "threadCreate th tid ret os = Some (os', 0)" by blast
  from create_slot [OF this assms] show ?r by metis
next
  assume ?r
  then obtain i where i: "1 \<le> i" "i < MAX_THREADS" "threads os ! i = None" and ret: "ret = 0" by blast
  have "None \<in> set (tl (threads os))" using nth_in_tl [of i "threads os"] i assms by simp
  then have "scan_threads (\<lambda>t. t = None) 1 (tl (threads os)) \<noteq> None" by (auto simp: scan_None)
  then show ?l using ret by (auto simp: threadCreate_def threadRegister_def Let_def upd_exc_def)
qed

text \<open>A table with the main thread and two others, of which the second is not registered.\<close>

definition small_table :: Os where
  "small_table = \<lparr>threads = Some 0 # Some 1 # replicate 53 None,
     thread_mem = (\<lambda>th. \<lparr>threadid = 100 + int th, priority = 0,
       exception = \<lparr>jmpenvs = replicate 20 0, jenv = None, excode = 0, adcode = 0, line = 0,
              inexception = False, ex_file = [], ex_name = [], ex_msg = [], infinally = False\<rparr>\<rparr>)\<rparr>"

lemma small_table_ok: "thread_table small_table"
  by (auto simp: thread_table_def once_def small_table_def nth_Cons split: nat.splits)

theorem thread_create_self_witness:
  "\<exists>os'. threadCreate 2 7 0 small_table = Some (os', 0) \<and> threadSelf 7 os' = Some 2 \<and>
     threadSelf 101 os' = threadSelf 101 small_table"
proof -
  have "scan_threads (\<lambda>t. t = None) 1 (tl (threads small_table)) \<noteq> None"
    unfolding scan_None by (simp add: small_table_def)
  then obtain os' where c: "threadCreate 2 7 0 small_table = Some (os', 0)"
    by (auto simp: threadCreate_def threadRegister_def Let_def upd_exc_def)
  have "Some 2 \<notin> set (threads small_table)"
    "\<And>t. Some t \<in> set (tl (threads small_table)) \<Longrightarrow> threadid (thread_mem small_table t) \<noteq> 7"
    by (auto simp: small_table_def)
  from thread_create_self [OF small_table_ok this c] c show ?thesis by auto
qed

theorem threadCreate_aborts_witness:
  "(\<exists>os'. threadCreate 2 7 0 small_table = Some (os', 0)) \<and>
   \<not> (\<exists>os'. threadCreate 2 7 1 small_table = Some (os', 0))"
proof -
  have l: "length (threads small_table) = MAX_THREADS" by (simp add: small_table_def)
  have "\<exists>i. 1 \<le> i \<and> i < MAX_THREADS \<and> threads small_table ! i = None"
    by (intro exI [of _ 2]) (simp add: small_table_def)
  with threadCreate_aborts [OF l, of 2 7 0] threadCreate_aborts [OF l, of 2 7 1] show ?thesis by simp
qed

end
