(* ===== verification/C_Strings.thy ===== *)
theory C_Strings
  imports Memory
begin

text \<open>
  What several components use of the library's strings: a character array that holds a string is read
  up to its first 0, \<open>strcat\<close>, printing of a decimal number and \<open>atoi\<close>, and the arrays, in which
  an access outside the bounds is \<open>None\<close>.
\<close>

subsection \<open>Characters, strings and arrays\<close>

definition DASH :: byte where [simp]: "DASH = 45"
definition NEWLINE :: byte where [simp]: "NEWLINE = 10"

text \<open>The string in an array.\<close>

definition cstr :: "byte list \<Rightarrow> byte list" where
  "cstr b = takeWhile (\<lambda>c. c \<noteq> 0) b"

text \<open>The text of a literal, without its final 0.\<close>

definition chars :: "string \<Rightarrow> byte list" where
  "chars s = map of_char s"

definition strcat :: "nat \<Rightarrow> byte list \<Rightarrow> byte list \<Rightarrow> byte list option" where
  "strcat cap d s = (if length d + length s + 1 \<le> cap then Some (d @ s) else None)"

fun dec_nat :: "nat \<Rightarrow> byte list" where
  "dec_nat n = (if n < 10 then [of_nat (48 + n)] else dec_nat (n div 10) @ [of_nat (48 + n mod 10)])"

declare dec_nat.simps [simp del]

definition dec :: "int \<Rightarrow> byte list" where
  "dec x = (if x < 0 then DASH # dec_nat (nat (- x)) else dec_nat (nat x))"

definition is_digit :: "byte \<Rightarrow> bool" where
  "is_digit c \<longleftrightarrow> 48 \<le> c \<and> c \<le> 57"

definition digits_value :: "byte list \<Rightarrow> int" where
  "digits_value ds = foldl (\<lambda>v d. 10 * v + (uint d - 48)) 0 ds"

text \<open>White space, a sign, digits; undefined for a number that is no \<open>int\<close>.\<close>

definition atoi :: "byte list \<Rightarrow> int option" where
  "atoi s =
     (let s = dropWhile (\<lambda>c. c = 32 \<or> 9 \<le> c \<and> c \<le> 13) s;
          neg = (s \<noteq> [] \<and> hd s = 45);
          ds = takeWhile is_digit (if s \<noteq> [] \<and> (hd s = 45 \<or> hd s = 43) then tl s else s);
          v = (if neg then - digits_value ds else digits_value ds)
      in if - (2 ^ 31) \<le> v \<and> v < 2 ^ 31 then Some v else None)"

text \<open>Access to an array.\<close>

definition put_at :: "'a list \<Rightarrow> int \<Rightarrow> 'a \<Rightarrow> 'a list option" where
  "put_at xs i x = (if 0 \<le> i \<and> nat i < length xs then Some (xs[nat i := x]) else None)"

definition get_at :: "'a list \<Rightarrow> int \<Rightarrow> 'a option" where
  "get_at xs i = (if 0 \<le> i \<and> nat i < length xs then Some (xs ! nat i) else None)"

lemma strcat_Some: "strcat cap d s = Some r \<Longrightarrow> r = d @ s"
  by (simp add: strcat_def split: if_splits)

lemma put_at_Some: "put_at xs i x = Some ys \<longleftrightarrow> 0 \<le> i \<and> nat i < length xs \<and> ys = xs[nat i := x]"
  by (auto simp: put_at_def)

lemma get_at_Some: "get_at xs i = Some y \<longleftrightarrow> 0 \<le> i \<and> nat i < length xs \<and> y = xs ! nat i"
  by (auto simp: get_at_def)

lemma over_put: "length pre < length b \<Longrightarrow> put_at (over pre b) (int (length pre)) c = Some (over (pre @ [c]) b)"
proof -
  assume "length pre < length b"
  then have "drop (length pre) b = b ! length pre # drop (Suc (length pre)) b" by (rule Cons_nth_drop_Suc [symmetric])
  with \<open>length pre < length b\<close> show ?thesis by (simp add: put_at_def over_def)
qed

lemma cstr_app: "0 \<notin> set xs \<Longrightarrow> cstr (xs @ 0 # ys) = xs"
  by (auto simp: cstr_def takeWhile_append takeWhile_eq_all_conv)

subsection \<open>Printed numbers are read back\<close>

lemma unat_digit: "k < 10 \<Longrightarrow> unat (of_nat (48 + k) :: byte) = 48 + k"
  by (simp only: unat_of_nat) simp

lemma dec_nat_digits: "list_all is_digit (dec_nat n)"
proof (induction n rule: dec_nat.induct)
  case (1 n)
  have d: "is_digit (of_nat (48 + k))" if "k < 10" for k
    using unat_digit [OF that] that by (simp add: is_digit_def word_le_nat_alt del: of_nat_add)
  show ?case
    using 1 d [of n] d [of "n mod 10"] by (simp add: dec_nat.simps [of n] del: of_nat_add)
qed

lemma dec_nat_nonempty: "dec_nat n \<noteq> []"
  by (simp add: dec_nat.simps [of n])

lemma digits_value_snoc: "digits_value (ds @ [d]) = 10 * digits_value ds + (uint d - 48)"
  by (simp add: digits_value_def)

lemma digits_dec_nat: "digits_value (dec_nat n) = int n"
proof (induction n rule: dec_nat.induct)
  case (1 n)
  have d: "uint (of_nat (48 + k) :: byte) - 48 = int k" if "k < 10" for k
  proof -
    have "uint (of_nat (48 + k) :: byte) = int (unat (of_nat (48 + k) :: byte))" by (simp only: uint_nat)
    with unat_digit [OF that] show ?thesis by simp
  qed
  show ?case
  proof (cases "n < 10")
    case True
    then show ?thesis using d [of n] by (simp add: dec_nat.simps [of n] digits_value_def del: of_nat_add)
  next
    case False
    with 1 d [of "n mod 10"] show ?thesis
      by (simp add: dec_nat.simps [of n] digits_value_snoc zdiv_int zmod_int del: of_nat_add)
  qed
qed

lemma digit_not:
  assumes "is_digit c"
  shows "c \<noteq> 45" "c \<noteq> 43" "c \<noteq> 32" "\<not> (9 \<le> c \<and> c \<le> 13)" "c \<noteq> 10" "c \<noteq> 0" "c \<noteq> 101"
  using assms by (auto simp: is_digit_def word_le_nat_alt)

lemma atoi_digits:
  assumes "list_all is_digit ds" "digits_value ds < 2 ^ 31" "0 \<le> digits_value ds"
  shows "atoi ds = Some (digits_value ds)"
proof (cases ds)
  case Nil
  then show ?thesis by (simp add: atoi_def digits_value_def)
next
  case (Cons c cs)
  with assms(1) have c: "is_digit c" by simp
  have dw: "dropWhile (\<lambda>c. c = 32 \<or> 9 \<le> c \<and> c \<le> 13) ds = ds" using digit_not [OF c] Cons by auto
  have tw: "takeWhile is_digit ds = ds" using assms(1) by (simp add: takeWhile_eq_all_conv list_all_iff)
  have "hd ds \<noteq> 45" "hd ds \<noteq> 43" using digit_not [OF c] Cons by simp_all
  then show ?thesis
    using assms(2,3) unfolding atoi_def Let_def dw by (simp add: tw)
qed

lemma atoi_dec: "0 \<le> x \<Longrightarrow> x < 2 ^ 31 \<Longrightarrow> atoi (dec x) = Some x"
  using atoi_digits [OF dec_nat_digits, of "nat x"] by (simp add: dec_def digits_dec_nat)

lemma length_dec_nat: "n < 10 ^ Suc k \<Longrightarrow> length (dec_nat n) \<le> Suc k"
proof (induction k arbitrary: n)
  case 0
  then show ?case by (subst dec_nat.simps) simp
next
  case (Suc k)
  show ?case
  proof (cases "n < 10")
    case True
    then show ?thesis by (subst dec_nat.simps) simp
  next
    case False
    have "n div 10 < 10 ^ Suc k" using Suc.prems by (simp add: less_mult_imp_div_less)
    from Suc.IH [OF this] False show ?thesis by (subst dec_nat.simps) simp
  qed
qed

end
