(* ===== verification/Os_Layer.thy ===== *)
theory Os_Layer
  imports C_Strings
begin

text \<open>
  The layer over the operating system: \<open>src/src/system/os/arm-linux/osdep.c\<close>, and the functions of
  \<open>src/src/system/os/osrt.c\<close> that pass on to it.

  The calls of the system are a parameter \<open>os\<close>, from a call and the state \<open>'w\<close> of the world to the
  answer and the new state. Threads, mutexes and semaphores are the numbers that identify them.
\<close>

datatype os_call =
    Pthread_create nat nat "(int \<times> int) option"
  | Pthread_exit int | Pthread_self | Pthread_join int
  | Sleep ulong | Sched_yield | Usleep ulong | Gettimeofday
  | Get_errno | Set_errno int
  | Mutex_init int | Mutex_destroy int | Mutex_lock int | Mutex_trylock int | Mutex_unlock int
  | Sem_init int ulong | Sem_destroy int | Sem_post int | Sem_wait int | Sem_trywait int
  | System "byte list" | Fopen "byte list" | Mkdir "byte list" int

record os_answer =
  os_ret :: int
  tv_sec :: int
  tv_usec :: int
  os_file :: "byte list option"

type_synonym 'w os = "os_call \<Rightarrow> 'w \<Rightarrow> os_answer \<times> 'w"

definition os_int :: "'w os \<Rightarrow> os_call \<Rightarrow> 'w \<Rightarrow> int \<times> 'w" where
  "os_int os c w = (let (a, w) = os c w in (os_ret a, w))"

definition os_void :: "'w os \<Rightarrow> os_call \<Rightarrow> 'w \<Rightarrow> 'w" where
  "os_void os c w = snd (os c w)"

definition EOK :: int where [simp]: "EOK = 0"

subsection \<open>Threads\<close>

text \<open>
  The attributes are the system's, but for the scheduling that a thread of priority 15 asks for
  (round robin, 60). A failed creation is a failed assertion, \<open>None\<close>.
\<close>

definition threadCreate_OSPDep :: "'w os \<Rightarrow> nat \<Rightarrow> nat \<Rightarrow> int \<Rightarrow> 'w \<Rightarrow> (int \<times> 'w) option" where
  "threadCreate_OSPDep os ef ei prior w = do {
     let (ret, w) = os_int os (Pthread_create ef ei (if prior = 15 then Some (2, 60) else None)) w;
     _ \<leftarrow> guard_ok (ret = 0);
     Some (ret, w)
   }"

definition threadExit_OSPDep :: "'w os \<Rightarrow> int \<Rightarrow> 'w \<Rightarrow> 'w" where
  "threadExit_OSPDep os thid = os_void os (Pthread_exit thid)"

definition threadSelf_OSPDep :: "'w os \<Rightarrow> 'w \<Rightarrow> int \<times> 'w" where
  "threadSelf_OSPDep os = os_int os Pthread_self"

definition threadEqual_OSPDep :: "int \<Rightarrow> int \<Rightarrow> bool" where
  "threadEqual_OSPDep th1 th2 \<longleftrightarrow> th1 = th2"

definition threadSleep_OSPDep :: "'w os \<Rightarrow> ulong \<Rightarrow> 'w \<Rightarrow> 'w" where
  "threadSleep_OSPDep os secs = os_void os (Sleep secs)"

definition threadYield_OSPDep :: "'w os \<Rightarrow> 'w \<Rightarrow> 'w" where
  "threadYield_OSPDep os = os_void os Sched_yield"

definition threadJoin_OSDep :: "'w os \<Rightarrow> int \<Rightarrow> 'w \<Rightarrow> 'w" where
  "threadJoin_OSDep os thid = os_void os (Pthread_join thid)"

definition geterrno_OSPDep :: "'w os \<Rightarrow> 'w \<Rightarrow> int \<times> 'w" where
  "geterrno_OSPDep os = os_int os Get_errno"

definition seterrno_OSPDep :: "'w os \<Rightarrow> int \<Rightarrow> 'w \<Rightarrow> 'w" where
  "seterrno_OSPDep os eno = os_void os (Set_errno eno)"

definition threadSetPriority_OSDep :: "int \<Rightarrow> int" where
  "threadSetPriority_OSDep priority = 0"

subsection \<open>Mutexes and semaphores\<close>

definition eok :: "int \<times> 'w \<Rightarrow> int \<times> 'w" where
  "eok r = (if fst r = EOK then 0 else fst r, snd r)"

definition mutexInit_OSPDep :: "'w os \<Rightarrow> int \<Rightarrow> 'w \<Rightarrow> int \<times> 'w" where
  "mutexInit_OSPDep os m w = eok (os_int os (Mutex_init m) w)"

definition mutexDestroy_OSPDep :: "'w os \<Rightarrow> int \<Rightarrow> 'w \<Rightarrow> int \<times> 'w" where
  "mutexDestroy_OSPDep os m w = eok (os_int os (Mutex_destroy m) w)"

definition mutexLock_OSPDep :: "'w os \<Rightarrow> int \<Rightarrow> 'w \<Rightarrow> int \<times> 'w" where
  "mutexLock_OSPDep os m w = eok (os_int os (Mutex_lock m) w)"

definition mutexTrylock_OSPDep :: "'w os \<Rightarrow> int \<Rightarrow> 'w \<Rightarrow> int \<times> 'w" where
  "mutexTrylock_OSPDep os m w = eok (os_int os (Mutex_trylock m) w)"

definition mutexUnlock_OSPDep :: "'w os \<Rightarrow> int \<Rightarrow> 'w \<Rightarrow> int \<times> 'w" where
  "mutexUnlock_OSPDep os m w = eok (os_int os (Mutex_unlock m) w)"

definition semInit_OSPDep :: "'w os \<Rightarrow> int \<Rightarrow> ulong \<Rightarrow> 'w \<Rightarrow> int \<times> 'w" where
  "semInit_OSPDep os sem value = os_int os (Sem_init sem value)"

definition semDestroy_OSPDep :: "'w os \<Rightarrow> int \<Rightarrow> 'w \<Rightarrow> int \<times> 'w" where
  "semDestroy_OSPDep os sem = os_int os (Sem_destroy sem)"

definition semPost_OSPDep :: "'w os \<Rightarrow> int \<Rightarrow> 'w \<Rightarrow> int \<times> 'w" where
  "semPost_OSPDep os sem = os_int os (Sem_post sem)"

definition semWait_OSPDep :: "'w os \<Rightarrow> int \<Rightarrow> 'w \<Rightarrow> int \<times> 'w" where
  "semWait_OSPDep os sem = os_int os (Sem_wait sem)"

text \<open>Waiting with a time limit is not implemented.\<close>

definition semTimedwait_OSPDep :: "'w os \<Rightarrow> int \<Rightarrow> ulong \<Rightarrow> 'w \<Rightarrow> int \<times> 'w" where
  "semTimedwait_OSPDep os sem msecs w = (-1, w)"

definition semTrywait_OSPDep :: "'w os \<Rightarrow> int \<Rightarrow> 'w \<Rightarrow> int \<times> 'w" where
  "semTrywait_OSPDep os sem = os_int os (Sem_trywait sem)"

subsection \<open>Time and the rest\<close>

text \<open>The product of 32-bit numbers, reduced as the machine does.\<close>

definition getTicks :: "'w os \<Rightarrow> 'w \<Rightarrow> ulong \<times> 'w" where
  "getTicks os w =
     (let (tv, w) = os Gettimeofday w in (word_of_int (tv_sec tv) * 1000 + word_of_int (tv_usec tv div 1000), w))"

definition msleep :: "'w os \<Rightarrow> ulong \<Rightarrow> 'w \<Rightarrow> 'w" where
  "msleep os value = os_void os (Usleep (value * 1000))"

text \<open>
  The result is \<open>None\<close> inside for a null pointer. \<open>version\<close> is the static array of 255 bytes; the
  element before its first is looked at if the file is empty and so was the array.
\<close>

definition getKernelVersion_OSDep :: "'w os \<Rightarrow> byte list \<Rightarrow> 'w \<Rightarrow> (byte list option \<times> 'w) option" where
  "getKernelVersion_OSDep os version w =
     (let (ret, w) = os_int os (System (chars ''uname -r > /tmp/version.txt'')) w in
      if ret = -1 then Some (None, w)
      else
        (let (a, w) = os (Fopen (chars ''/tmp/version.txt'')) w in
         case os_file a of
           None \<Rightarrow> Some (None, w)
         | Some f \<Rightarrow> do {
             let first = takeWhile (\<lambda>c. c \<noteq> NEWLINE) (take 199 f);
             let text = (if length first < 199 \<and> length first < length f then first @ [NEWLINE] else first);
             version \<leftarrow> (if f = [] then Some version else block_write version 0 (text @ [0]));
             c \<leftarrow> get_at version (int (length (cstr version)) - 1);
             version \<leftarrow> (if c = NEWLINE then put_at version (int (length (cstr version)) - 1) 0 else Some version);
             Some (Some (cstr version), w)
           }))"

text \<open>The mode is the decimal number 777.\<close>

definition makeDir_OSDep :: "'w os \<Rightarrow> byte list \<Rightarrow> 'w \<Rightarrow> int \<times> 'w" where
  "makeDir_OSDep os path = os_int os (Mkdir path 777)"

subsection \<open>The functions of \<open>osrt.c\<close>\<close>

definition threadSleep :: "'w os \<Rightarrow> ulong \<Rightarrow> 'w \<Rightarrow> 'w" where
  "threadSleep os secs = threadSleep_OSPDep os secs"

definition threadJoin :: "'w os \<Rightarrow> int \<Rightarrow> 'w \<Rightarrow> 'w" where
  "threadJoin os th = threadJoin_OSDep os th"

definition geterrno :: "'w os \<Rightarrow> 'w \<Rightarrow> int \<times> 'w" where
  "geterrno os = geterrno_OSPDep os"

definition seterrno :: "'w os \<Rightarrow> int \<Rightarrow> 'w \<Rightarrow> 'w" where
  "seterrno os eno = seterrno_OSPDep os eno"

definition threadSetPriority :: "int \<Rightarrow> int" where
  "threadSetPriority priority = threadSetPriority_OSDep priority"

definition mutexInit :: "'w os \<Rightarrow> int \<Rightarrow> 'w \<Rightarrow> int \<times> 'w" where
  "mutexInit os m = mutexInit_OSPDep os m"

definition mutexDestroy :: "'w os \<Rightarrow> int \<Rightarrow> 'w \<Rightarrow> int \<times> 'w" where
  "mutexDestroy os m = mutexDestroy_OSPDep os m"

definition mutexLock :: "'w os \<Rightarrow> int \<Rightarrow> 'w \<Rightarrow> int \<times> 'w" where
  "mutexLock os m = mutexLock_OSPDep os m"

definition mutexTrylock :: "'w os \<Rightarrow> int \<Rightarrow> 'w \<Rightarrow> int \<times> 'w" where
  "mutexTrylock os m = mutexTrylock_OSPDep os m"

definition mutexUnlock :: "'w os \<Rightarrow> int \<Rightarrow> 'w \<Rightarrow> int \<times> 'w" where
  "mutexUnlock os m = mutexUnlock_OSPDep os m"

definition semInit :: "'w os \<Rightarrow> int \<Rightarrow> ulong \<Rightarrow> 'w \<Rightarrow> int \<times> 'w" where
  "semInit os sem value = semInit_OSPDep os sem value"

definition semDestroy :: "'w os \<Rightarrow> int \<Rightarrow> 'w \<Rightarrow> int \<times> 'w" where
  "semDestroy os sem = semDestroy_OSPDep os sem"

definition semPost :: "'w os \<Rightarrow> int \<Rightarrow> 'w \<Rightarrow> int \<times> 'w" where
  "semPost os sem = semPost_OSPDep os sem"

definition semWait :: "'w os \<Rightarrow> int \<Rightarrow> 'w \<Rightarrow> int \<times> 'w" where
  "semWait os sem = semWait_OSPDep os sem"

definition semTimedwait :: "'w os \<Rightarrow> int \<Rightarrow> ulong \<Rightarrow> 'w \<Rightarrow> int \<times> 'w" where
  "semTimedwait os sem msecs = semTimedwait_OSPDep os sem msecs"

definition semTrywait :: "'w os \<Rightarrow> int \<Rightarrow> 'w \<Rightarrow> int \<times> 'w" where
  "semTrywait os sem = semTrywait_OSPDep os sem"

definition getKernelVersion :: "'w os \<Rightarrow> byte list \<Rightarrow> 'w \<Rightarrow> (byte list option \<times> 'w) option" where
  "getKernelVersion os version = getKernelVersion_OSDep os version"

definition makeDir :: "'w os \<Rightarrow> byte list \<Rightarrow> 'w \<Rightarrow> int \<times> 'w" where
  "makeDir os path = makeDir_OSDep os path"

subsection \<open>Properties\<close>

text \<open>
  The difference of two readings of the clock is the time between them in milliseconds, also when the
  counter has wrapped, as long as that is less than the counter can hold.
\<close>

definition clock_ms :: "os_answer \<Rightarrow> int" where
  "clock_ms tv = tv_sec tv * 1000 + tv_usec tv div 1000"

theorem getTicks_elapsed:
  assumes "os Gettimeofday w1 = (tv1, w1')" "os Gettimeofday w2 = (tv2, w2')"
    and "clock_ms tv1 \<le> clock_ms tv2" "clock_ms tv2 - clock_ms tv1 < 2 ^ 32"
  shows "uint (fst (getTicks os w2) - fst (getTicks os w1)) = clock_ms tv2 - clock_ms tv1"
proof -
  have t: "fst (getTicks os w) = word_of_int (clock_ms tv)" if "os Gettimeofday w = (tv, w')" for w tv w'
    using that by (simp add: getTicks_def clock_ms_def)
  have "fst (getTicks os w2) - fst (getTicks os w1) = word_of_int (clock_ms tv2 - clock_ms tv1)"
    by (simp add: t [OF assms(1)] t [OF assms(2)])
  moreover have "uint (word_of_int (clock_ms tv2 - clock_ms tv1) :: ulong) = clock_ms tv2 - clock_ms tv1"
    using assms(3,4) by (subst uint_word_of_int_eq) (simp add: take_bit_int_eq_self)
  ultimately show ?thesis by (simp only:)
qed

text \<open>
  A sleep lasts the milliseconds asked for as long as their number in microseconds fits; beyond 4294967
  milliseconds it wraps around.
\<close>

theorem msleep_exact:
  "os_void os (Usleep u) w = msleep os value w" if "uint u = uint value * 1000"
proof -
  have "value * 1000 = word_of_int (uint value * 1000)" by simp
  also have "\<dots> = u" unfolding that [symmetric] by simp
  finally have "u = value * 1000" by (rule sym)
  then show ?thesis by (simp add: msleep_def)
qed

text \<open>The directory gets the permissions 01411, which are not those of the octal number 0777.\<close>

theorem makeDir_mode: "makeDir os path w = os_int os (Mkdir path (1 * 512 + 4 * 64 + 1 * 8 + 1)) w"
  by (simp add: makeDir_def makeDir_OSDep_def)

end
