(* ===== verification/Door_Override.thy ===== *)
theory Door_Override
  imports Prelude "HOL-Library.Signed_Division" "HOL-Library.Multiset"
begin

text \<open>
  The codes of the manual door override, \<open>src/src/framework/cim/doorover.c\<close>: the code the machine
  shows (made from its clock) and the access code it expects back (made from the clock, the hardware
  address and the point of sale).

  Numbers are those of the target: \<open>int\<close> for the fields of \<open>struct tm\<close>, \<open>unsigned char\<close>
  as 8-bit and \<open>unsigned long\<close> as 32-bit words, each conversion where the code has it. A string is
  the list of its characters, without the 0 that ends it.
\<close>

record tm =
  tm_min :: int
  tm_hour :: int
  tm_mday :: int
  tm_mon :: int
  tm_year :: int

definition calcChecksum :: "byte list \<Rightarrow> int \<Rightarrow> ulong" where
  "calcChecksum buf cant = foldl (\<lambda>checksum b. checksum + ucast b) 0 (take (nat cant) buf)"

definition genVerifCode :: "tm \<Rightarrow> byte list" where
  "genVerifCode t =
     [word_of_int (tm_mon t + 1 + 75),
      word_of_int ((tm_year t - 100) sdiv 10) + 48,
      word_of_int ((tm_year t - 100) smod 10) + 48,
      word_of_int (tm_hour t + 67),
      word_of_int (tm_min t sdiv 10) + 48,
      word_of_int (tm_min t smod 10) + 48,
      word_of_int (tm_mday t sdiv 10 + 65),
      word_of_int (tm_mday t smod 10 + 80),
      0]"

definition genInternalCode :: "byte list \<Rightarrow> byte list \<Rightarrow> tm \<Rightarrow> ulong" where
  "genInternalCode mac idPunto t =
     word_of_int (tm_mon t + 1) * 10000 + word_of_int (tm_year t - 100) * 555 +
     word_of_int (tm_hour t) * 33 + word_of_int (tm_min t) * 5 + word_of_int (tm_mday t) +
     calcChecksum mac (int (length mac)) + calcChecksum idPunto (int (length idPunto))"

subsection \<open>Clock values\<close>

text \<open>The values \<open>localtime\<close> gives in the years 2000 to 2099.\<close>

definition clock_value :: "tm \<Rightarrow> bool" where
  "clock_value t \<longleftrightarrow> 0 \<le> tm_min t \<and> tm_min t < 60 \<and> 0 \<le> tm_hour t \<and> tm_hour t < 24 \<and>
     1 \<le> tm_mday t \<and> tm_mday t \<le> 31 \<and> 0 \<le> tm_mon t \<and> tm_mon t < 12 \<and> 100 \<le> tm_year t \<and> tm_year t < 200"

lemma c_div_mod: "0 \<le> (a :: int) \<Longrightarrow> a sdiv 10 = a div 10" "0 \<le> (a :: int) \<Longrightarrow> a smod 10 = a mod 10"
  by (cases "a = 0"; simp add: signed_divide_int_def signed_modulo_int_def)+

lemma byte_int: "0 \<le> a \<Longrightarrow> a < 256 \<Longrightarrow> uint (word_of_int a :: byte) = a"
  by (simp add: unsigned_of_int take_bit_int_eq_self)

lemma byte_inj:
  assumes "0 \<le> a" "a < 256" "0 \<le> b" "b < 256" "(word_of_int a :: byte) = word_of_int b"
  shows "a = b"
proof -
  have "a = uint (word_of_int a :: byte)" by (rule byte_int [OF assms(1,2), symmetric])
  also have "\<dots> = uint (word_of_int b :: byte)" by (rule arg_cong [OF assms(5)])
  also have "\<dots> = b" by (rule byte_int [OF assms(3,4)])
  finally show ?thesis .
qed

lemma bytes_inj:
  assumes "map (word_of_int :: int \<Rightarrow> byte) xs = map word_of_int ys"
    and "list_all (\<lambda>a. 0 < a \<and> a < 256) xs" "list_all (\<lambda>a. 0 < a \<and> a < 256) ys"
  shows "xs = ys"
proof (rule map_inj_on [OF assms(1)])
  show "inj_on (word_of_int :: int \<Rightarrow> byte) (set xs \<union> set ys)"
  proof (rule inj_onI)
    fix a b assume "a \<in> set xs \<union> set ys" "b \<in> set xs \<union> set ys" and e: "(word_of_int a :: byte) = word_of_int b"
    then have "0 < a \<and> a < 256" "0 < b \<and> b < 256" using assms(2,3) unfolding list_all_iff by blast+
    then show "a = b" by (intro byte_inj [OF _ _ _ _ e]) simp_all
  qed
qed

text \<open>The characters of the code as integers, over the range of a clock value.\<close>

abbreviation verif_ints :: "tm \<Rightarrow> int list" where
  "verif_ints t \<equiv> [tm_mon t + 76, (tm_year t - 100) div 10 + 48, (tm_year t - 100) mod 10 + 48,
     tm_hour t + 67, tm_min t div 10 + 48, tm_min t mod 10 + 48, tm_mday t div 10 + 65, tm_mday t mod 10 + 80]"

lemma verif_digits: "clock_value t \<Longrightarrow> genVerifCode t = map word_of_int (verif_ints t) @ [0]"
  by (simp add: genVerifCode_def clock_value_def c_div_mod add.commute)

lemma digits_range:
  assumes "clock_value t"
  shows "list_all (\<lambda>a. 0 < a \<and> a < 256) (verif_ints t)"
proof -
  have "0 \<le> a div 10 \<and> a div 10 < 10 \<and> 0 \<le> a mod 10 \<and> a mod 10 < 10" if "0 \<le> a" "a < 100" for a :: int
    using that by auto
  from this [of "tm_year t - 100"] this [of "tm_min t"] this [of "tm_mday t"] assms show ?thesis
    by (auto simp: clock_value_def)
qed

lemma bytes_nonzero:
  assumes "list_all (\<lambda>a. 0 < a \<and> a < 256) xs"
  shows "0 \<notin> set (map (word_of_int :: int \<Rightarrow> byte) xs)"
proof
  assume "0 \<in> set (map (word_of_int :: int \<Rightarrow> byte) xs)"
  then obtain a where "a \<in> set xs" and z: "(word_of_int a :: byte) = word_of_int 0" by auto
  with assms have "0 < a" "a < 256" by (auto simp: list_all_iff)
  then have "a = 0" by (intro byte_inj [OF _ _ _ _ z]) simp_all
  with \<open>0 < a\<close> show False by simp
qed

lemma tens_units: "a div 10 = b div 10 \<Longrightarrow> a mod 10 = b mod 10 \<Longrightarrow> a = b" for a b :: int
  by (metis div_mult_mod_eq)

subsection \<open>The properties\<close>

text \<open>C38. The code on the display identifies the minute: two clock values of the years 2000 to 2099
with the same code are the same minute of the same day, and the code is a string of eight
characters, none of them 0.\<close>

theorem genVerifCode_identifies_minute:
  assumes "clock_value t" "clock_value u"
  shows "(genVerifCode t = genVerifCode u \<longleftrightarrow> t = u) \<and> length (genVerifCode t) = 9 \<and>
    0 \<notin> set (butlast (genVerifCode t)) \<and> last (genVerifCode t) = 0"
proof (intro conjI)
  show "genVerifCode t = genVerifCode u \<longleftrightarrow> t = u"
  proof
    assume "genVerifCode t = genVerifCode u"
    then have "map (word_of_int :: int \<Rightarrow> byte) (verif_ints t) = map word_of_int (verif_ints u)"
      by (simp only: verif_digits [OF assms(1)] verif_digits [OF assms(2)] append_same_eq)
    from bytes_inj [OF this digits_range [OF assms(1)] digits_range [OF assms(2)]]
    have "verif_ints t = verif_ints u" .
    then show "t = u"
      using tens_units [of "tm_year t - 100" "tm_year u - 100"] tens_units [of "tm_min t" "tm_min u"]
        tens_units [of "tm_mday t" "tm_mday u"] by simp
  qed simp
  show "0 \<notin> set (butlast (genVerifCode t))"
    using bytes_nonzero [OF digits_range [OF assms(1)]] unfolding verif_digits [OF assms(1)] butlast_snoc .
qed (simp_all add: genVerifCode_def)

lemma genVerifCode_identifies_minute_witness:
  "genVerifCode \<lparr>tm_min = 12, tm_hour = 19, tm_mday = 29, tm_mon = 5, tm_year = 107\<rparr> =
      [81, 48, 55, 86, 49, 50, 67, 89, 0] \<and>
   genVerifCode \<lparr>tm_min = 12, tm_hour = 19, tm_mday = 29, tm_mon = 5, tm_year = 107\<rparr> \<noteq>
   genVerifCode \<lparr>tm_min = 13, tm_hour = 19, tm_mday = 29, tm_mon = 5, tm_year = 107\<rparr>"
  using genVerifCode_identifies_minute [of "\<lparr>tm_min = 12, tm_hour = 19, tm_mday = 29, tm_mon = 5, tm_year = 107\<rparr>"
      "\<lparr>tm_min = 13, tm_hour = 19, tm_mday = 29, tm_mon = 5, tm_year = 107\<rparr>"]
  by (simp add: clock_value_def verif_digits)

subsection \<open>The access code\<close>

lemma foldl_checksum: "foldl (\<lambda>c b. c + ucast b) c bs = c + (\<Sum>b\<leftarrow>bs. ucast (b :: byte))" for c :: ulong
  by (induction bs arbitrary: c) (simp_all add: add.assoc)

lemma checksum_sum: "calcChecksum s (int (length s)) = (\<Sum>b\<leftarrow>s. ucast b)"
  by (simp add: calcChecksum_def foldl_checksum)

lemma sum_of_int: "(\<Sum>b\<leftarrow>s. ucast (b :: byte)) = (word_of_int (\<Sum>b\<leftarrow>s. uint b) :: ulong)"
proof (induction s)
  case (Cons b s)
  have "(word_of_int (\<Sum>b\<leftarrow>b # s. uint b) :: ulong) = word_of_int (uint b) + word_of_int (\<Sum>b\<leftarrow>s. uint b)"
    by (simp only: list.map sum_list.Cons wi_hom_add)
  then show ?case by (simp only: Cons.IH [symmetric] list.map sum_list.Cons ucast_eq)
qed simp

lemma sum_bound: "0 \<le> (\<Sum>b\<leftarrow>s. uint b) \<and> (\<Sum>b\<leftarrow>s. uint (b :: byte)) \<le> 255 * int (length s)"
proof (induction s)
  case (Cons b s)
  have "uint b < 256" "0 \<le> uint b" using uint_lt2p [of b] by simp_all
  with Cons show ?case by simp
qed simp

text \<open>The integer the access code is computed from.\<close>

definition access_sum :: "byte list \<Rightarrow> byte list \<Rightarrow> tm \<Rightarrow> int" where
  "access_sum mac idPunto t = (tm_mon t + 1) * 10000 + (tm_year t - 100) * 555 + tm_hour t * 33 +
     tm_min t * 5 + tm_mday t + (\<Sum>b\<leftarrow>mac @ idPunto. uint b)"

lemma code_of_sum: "genInternalCode mac idPunto t = word_of_int (access_sum mac idPunto t)"
  by (simp add: genInternalCode_def access_sum_def checksum_sum sum_of_int wi_hom_syms add.assoc)

text \<open>C39. The access code is the sum the code writes down, computed without wrap-around: for every
clock value and strings of together at most a million characters it is the integer sum. It exceeds
the part that the display code reveals by at most 255 for each character of the two strings, so
somebody who only reads the display has no more than that many codes to try.\<close>

theorem genInternalCode_exact:
  assumes "clock_value t" "length mac + length idPunto \<le> 1000000"
  shows "uint (genInternalCode mac idPunto t) = access_sum mac idPunto t \<and>
    access_sum [] [] t \<le> uint (genInternalCode mac idPunto t) \<and>
    uint (genInternalCode mac idPunto t) \<le> access_sum [] [] t + 255 * int (length mac + length idPunto)"
proof -
  let ?s = "\<Sum>b\<leftarrow>mac @ idPunto. uint b"
  have s: "0 \<le> ?s" "?s \<le> 255 * int (length mac + length idPunto)"
    using sum_bound [of "mac @ idPunto"] by simp_all
  have a: "access_sum mac idPunto t = access_sum [] [] t + ?s" by (simp add: access_sum_def)
  have b: "0 \<le> access_sum [] [] t" "access_sum [] [] t \<le> 300000"
    using assms(1) by (simp_all add: access_sum_def clock_value_def)
  from a b s assms(2) have "0 \<le> access_sum mac idPunto t" "access_sum mac idPunto t < 2 ^ 32" by simp_all
  then have "uint (genInternalCode mac idPunto t) = access_sum mac idPunto t"
    by (simp add: code_of_sum unsigned_of_int take_bit_int_eq_self)
  with a s show ?thesis by simp
qed

lemma genInternalCode_exact_witness:
  "uint (genInternalCode [48, 49] [66] \<lparr>tm_min = 12, tm_hour = 19, tm_mday = 29, tm_mon = 5, tm_year = 107\<rparr>) = 64764"
  using genInternalCode_exact [of "\<lparr>tm_min = 12, tm_hour = 19, tm_mday = 29, tm_mon = 5, tm_year = 107\<rparr>"
      "[48, 49]" "[66]"]
  by (simp add: clock_value_def access_sum_def)

text \<open>The access code does not separate machines: it depends on the hardware address and the
point of sale only through the multiset of their characters together, so two machines whose
characters are the same up to their order, or up to characters moved from one string to the other,
are opened by the same code in the same minute. It does not separate minutes either: five days
later, one minute earlier gives the same code.\<close>

theorem genInternalCode_collides:
  "(mset (mac @ idPunto) = mset (mac' @ idPunto') \<longrightarrow>
      genInternalCode mac idPunto t = genInternalCode mac' idPunto' t) \<and>
    genInternalCode mac idPunto (t\<lparr>tm_mday := tm_mday t + 5, tm_min := tm_min t - 1\<rparr>) = genInternalCode mac idPunto t"
proof (intro conjI impI)
  assume "mset (mac @ idPunto) = mset (mac' @ idPunto')"
  then have "mset (map uint (mac @ idPunto)) = mset (map uint (mac' @ idPunto'))" by (simp flip: image_mset_union)
  then have "sum_mset (mset (map uint (mac @ idPunto))) = sum_mset (mset (map uint (mac' @ idPunto')))" by simp
  then have "(\<Sum>b\<leftarrow>mac @ idPunto. uint b) = (\<Sum>b\<leftarrow>mac' @ idPunto'. uint b)"
    by (simp only: sum_mset_sum_list)
  then show "genInternalCode mac idPunto t = genInternalCode mac' idPunto' t"
    by (simp add: code_of_sum access_sum_def)
next
  show "genInternalCode mac idPunto (t\<lparr>tm_mday := tm_mday t + 5, tm_min := tm_min t - 1\<rparr>) = genInternalCode mac idPunto t"
    unfolding code_of_sum by (rule arg_cong [where f = word_of_int]) (simp add: access_sum_def)
qed

lemma genInternalCode_collides_witness:
  "genInternalCode [48, 49] [66] \<lparr>tm_min = 12, tm_hour = 19, tm_mday = 24, tm_mon = 5, tm_year = 107\<rparr> =
   genInternalCode [49] [66, 48] \<lparr>tm_min = 11, tm_hour = 19, tm_mday = 29, tm_mon = 5, tm_year = 107\<rparr>"
  using genInternalCode_collides [of "[48, 49]" "[66]" "[49]" "[66, 48]"
      "\<lparr>tm_min = 12, tm_hour = 19, tm_mday = 24, tm_mon = 5, tm_year = 107\<rparr>"]
    genInternalCode_collides [of "[49]" "[66, 48]" "[49]" "[66, 48]"
      "\<lparr>tm_min = 12, tm_hour = 19, tm_mday = 24, tm_mon = 5, tm_year = 107\<rparr>"]
  by simp

end
