(* ===== verification/Jcm_Comm.thy ===== *)
theory Jcm_Comm
  imports Memory
begin

text \<open>
  The frames exchanged with the note acceptors, \<open>src/src/framework/cim/device/jcmBillAcceptorComm.c\<close>.

  Protocol 0 is ID003 (header \<open>0xFC\<close>, length, command, data, CRC), protocol 1 is CCNET (header
  \<open>0x02 0x03\<close>, length, command, data, CRC), and any number above 2 is sent in the format of MEI
  (STX, length, command, data, ETX, exclusive or), which is read for protocol 4. The serial line is
  outside (\<open>safeBoxComm.m\<close>): \<open>jcmWrite\<close> yields the device and the bytes it hands over, and
  \<open>jcmRead\<close> is given the block the line delivers, or a null pointer; the first byte of that block
  is the device and the raw data start at its fifth. The log is not modelled. The target is
  little-endian, so \<open>SHORT_TO_L_ENDIAN\<close> is the identity, and its \<open>char\<close> is unsigned.
\<close>

record Jcm =
  sendBuf :: "byte list"
  lastDevice :: byte
  lastLenDevice :: int

definition jcm_init :: Jcm where
  "jcm_init = \<lparr>sendBuf = replicate 570 0, lastDevice = 0, lastLenDevice = 0\<rparr>"

definition crc_char :: "ushort \<Rightarrow> byte \<Rightarrow> ushort" where
  "crc_char baseCrc x =
     (let c = ucast x AND 0xFF;
          q = (baseCrc XOR c) AND 0x0F;
          baseCrc = drop_bit 4 baseCrc XOR (q * 0x1081);
          q = (baseCrc XOR drop_bit 4 c) AND 0x0F
      in drop_bit 4 baseCrc XOR (q * 0x1081))"

definition calcCrc :: "ushort \<Rightarrow> byte list \<Rightarrow> ushort \<Rightarrow> ushort option" where
  "calcCrc baseCrc data n = map_option (foldl crc_char baseCrc) (block_read data 0 (uint n))"

text \<open>The exclusive or of \<open>data[index]\<close> to \<open>data[n]\<close>; \<open>data[index]\<close> is read in any case.\<close>

definition calcChksumXor :: "byte list \<Rightarrow> int \<Rightarrow> int \<Rightarrow> byte option" where
  "calcChksumXor data n index = do {
     xs \<leftarrow> block_read data index (max 1 (n - index + 1));
     Some (foldl (\<lambda>sum d. sum XOR d) (hd xs) (tl xs))
   }"

text \<open>The loop runs up to \<open>len\<close> itself.\<close>

definition convertTo7Bit :: "byte list \<Rightarrow> int \<Rightarrow> byte list option" where
  "convertTo7Bit data len = do {
     xs \<leftarrow> block_read data 0 (max 0 (len + 1));
     block_write data 0 (map (\<lambda>d. d AND 0x7F) xs)
   }"

definition jcmWrite ::
  "byte \<Rightarrow> byte \<Rightarrow> byte \<Rightarrow> byte list \<Rightarrow> int \<Rightarrow> Jcm \<Rightarrow> (Jcm \<times> byte \<times> byte list) option" where
  "jcmWrite dev protocol cmd data dataLen s =
     (if protocol \<le> 2 then do {
        (baseLen, baseOffset, b) \<leftarrow>
          (if protocol = 0 then do {
             b \<leftarrow> block_write (sendBuf s) 0 [0xFC];
             b \<leftarrow> block_write b 1 [word_of_int (5 + dataLen)];
             Some (5, 3, b)
           } else if protocol = 1 then do {
             b \<leftarrow> block_write (sendBuf s) 0 [0x02];
             b \<leftarrow> block_write b 1 [0x03];
             b \<leftarrow> block_write b 2 [if dataLen > 255 then 0 else word_of_int (6 + dataLen)];
             Some (6, 4, b)
           } else Some (0, 0, sendBuf s));
        b \<leftarrow> block_write b (baseOffset - 1) [cmd];
        d \<leftarrow> block_read data 0 dataLen;
        b \<leftarrow> block_write b baseOffset d;
        crc \<leftarrow> calcCrc 0 b (word_of_int (dataLen + baseOffset));
        b \<leftarrow> block_write b (baseOffset + dataLen) [lobyte16 crc, hibyte16 crc];
        frame \<leftarrow> block_read b 0 (dataLen + baseLen);
        Some (s\<lparr>sendBuf := b, lastDevice := dev, lastLenDevice := dataLen + baseLen\<rparr>, dev, frame)
      }
      else do {
        b \<leftarrow> block_write (sendBuf s) 0 [0x02];
        b \<leftarrow> block_write b 1 [word_of_int (5 + dataLen)];
        b \<leftarrow> block_write b 2 [cmd];
        d \<leftarrow> block_read data 0 dataLen;
        b \<leftarrow> block_write b 3 d;
        b \<leftarrow> block_write b (3 + dataLen) [0x03];
        x \<leftarrow> calcChksumXor b (dataLen + 2) 1;
        b \<leftarrow> block_write b (4 + dataLen) [x];
        frame \<leftarrow> block_read b 0 (dataLen + 5);
        Some (s\<lparr>sendBuf := b, lastDevice := dev, lastLenDevice := dataLen + 5\<rparr>, dev, frame)
      })"

text \<open>
  What \<open>jcmRead\<close> leaves in its arguments (\<open>None\<close> where it does not write), and its result: the
  bytes from the returned pointer on, or \<open>None\<close> for the null pointer.
\<close>

record JcmReply =
  dev_out :: "byte option"
  cmdDataLen :: "int option"
  reply :: "byte list option"

definition no_reply :: "byte option \<Rightarrow> JcmReply" where
  "no_reply d = \<lparr>dev_out = d, cmdDataLen = None, reply = None\<rparr>"

definition block_at :: "byte list \<Rightarrow> int \<Rightarrow> byte option" where
  "block_at b i = map_option hd (block_read b i 1)"

text \<open>A negative index from \<open>rawData\<close> would still be inside the delivered block, hence \<open>frame\<close>.\<close>

definition read_crc_frame :: "byte list \<Rightarrow> int \<Rightarrow> int \<Rightarrow> int \<Rightarrow> JcmReply option" where
  "read_crc_frame frame lenAt cmdAt overhead = do {
     let rawData = drop 4 frame;
     len \<leftarrow> map_option uint (block_at rawData lenAt);
     crcval \<leftarrow> calcCrc 0 rawData (word_of_int (len - 2));
     lo \<leftarrow> block_at frame (4 + len - 2);
     hi \<leftarrow> block_at frame (4 + len - 1);
     Some (if crcval = le16 lo hi
           then \<lparr>dev_out = Some (hd frame), cmdDataLen = Some (len - overhead), reply = Some (drop (nat cmdAt) rawData)\<rparr>
           else no_reply (Some (hd frame)))
   }"

definition jcmRead :: "byte list option \<Rightarrow> byte \<Rightarrow> JcmReply option" where
  "jcmRead readFrame protocol =
     (case readFrame of
        None \<Rightarrow> Some (no_reply None)
      | Some frame \<Rightarrow>
          if protocol = 0 then do {
            h \<leftarrow> block_at frame 4;
            if h = 0xFC then read_crc_frame frame 1 2 5 else Some (no_reply None)
          } else if protocol = 1 then do {
            h \<leftarrow> block_at frame 4;
            if h = 0x02 then read_crc_frame frame 2 3 6 else Some (no_reply None)
          } else if protocol = 4 then do {
            h \<leftarrow> block_at frame 4;
            if h AND 0x7F = 0x02 then do {
              l \<leftarrow> block_at frame 5;
              let len = uint (l AND 0x7F);
              rawData \<leftarrow> convertTo7Bit (drop 4 frame) len;
              x \<leftarrow> calcChksumXor rawData (len - 3) 1;
              c \<leftarrow> block_at (take 4 frame @ rawData) (4 + len - 1);
              Some (if x = c
                    then \<lparr>dev_out = Some (hd frame), cmdDataLen = Some (len - 5), reply = Some (drop 2 rawData)\<rparr>
                    else no_reply (Some (hd frame)))
            } else Some (no_reply None)
          } else Some (no_reply None))"

definition jcmInitComm :: "byte \<Rightarrow> byte \<Rightarrow> byte" where
  "jcmInitComm portNumber protocol = 0"

end
