(* ===== verification/Jcm_Props.thy ===== *)
theory Jcm_Props
  imports Jcm_Comm
begin

text \<open>
  Correctness of the acceptor frames: the nibble-wise checksum is the bit-serial CRC-16, a frame
  that is written is read back, and the frames whose length byte is too small.
\<close>

subsection \<open>The checksum\<close>

text \<open>One bit of the reflected CRC-16 with polynomial 0x1021 (reflected 0x8408).\<close>

definition crc16_bit :: "ushort \<Rightarrow> ushort" where
  "crc16_bit c = (if bit c 0 then drop_bit 1 c XOR 0x8408 else drop_bit 1 c)"

definition crc16_byte :: "ushort \<Rightarrow> byte \<Rightarrow> ushort" where
  "crc16_byte c b = (crc16_bit ^^ 8) (c XOR ucast b)"

definition crc16_serial :: "ushort \<Rightarrow> byte list \<Rightarrow> ushort" where
  "crc16_serial c bs = foldl crc16_byte c bs"

lemma crc16_bit_xor: "crc16_bit (a XOR b) = crc16_bit a XOR crc16_bit b"
  unfolding crc16_bit_def by (rule bit_word_eqI) (auto simp: bit_simps)

lemma crc16_bits_xor: "(crc16_bit ^^ n) (a XOR b) = (crc16_bit ^^ n) a XOR (crc16_bit ^^ n) b"
  by (induction n) (simp_all add: crc16_bit_xor)

lemma crc16_bits_shift: "(\<And>i. i < n \<Longrightarrow> \<not> bit a i) \<Longrightarrow> (crc16_bit ^^ n) a = drop_bit n a"
proof (induction n)
  case (Suc n)
  then have "(crc16_bit ^^ Suc n) a = crc16_bit (drop_bit n a)" by simp
  also have "\<dots> = drop_bit 1 (drop_bit n a)"
    using Suc.prems [of n] by (simp add: crc16_bit_def bit_simps)
  finally show ?case by simp
qed simp

lemma crc16_bit_4: "(crc16_bit ^^ 4) q = crc16_bit (crc16_bit (crc16_bit (crc16_bit q)))"
  by (simp add: numeral_eq_Suc)

lemma nibble_cases:
  assumes "unat (q :: ushort) < 16"
  shows "(crc16_bit ^^ 4) q = q * 0x1081"
proof -
  define n where "n = unat q"
  have q: "q = word_of_nat n" by (simp add: n_def)
  have "n < 16" using assms by (simp add: n_def)
  then have "n = 0 \<or> n = 1 \<or> n = 2 \<or> n = 3 \<or> n = 4 \<or> n = 5 \<or> n = 6 \<or> n = 7 \<or> n = 8 \<or> n = 9 \<or> n = 10 \<or> n = 11 \<or> n = 12 \<or> n = 13 \<or> n = 14 \<or> n = 15" by presburger
  then show ?thesis unfolding q by (elim disjE) (simp_all add: crc16_bit_4 crc16_bit_def)
qed

lemma crc16_high: "(crc16_bit ^^ 4) (a AND NOT 0x0F) = drop_bit 4 a"
proof -
  have m: "(0x0F :: ushort) = mask 4" by (simp add: mask_eq_exp_minus_1)
  have "(crc16_bit ^^ 4) (a AND NOT (mask 4)) = drop_bit 4 (a AND NOT (mask 4))"
    by (rule crc16_bits_shift) (simp add: bit_simps)
  also have "\<dots> = drop_bit 4 a" by (rule bit_word_eqI) (auto simp: bit_simps dest: bit_imp_le_length)
  finally show ?thesis unfolding m .
qed

lemma crc16_nibble:
  "(crc16_bit ^^ 4) (a XOR x) = drop_bit 4 a XOR drop_bit 4 x XOR ((a XOR x) AND 0x0F) * 0x1081"
proof -
  let ?q = "(a XOR x) AND 0x0F"
  have m: "(0x0F :: ushort) = mask 4" by (simp add: mask_eq_exp_minus_1)
  have "?q = take_bit 4 (a XOR x)" by (simp only: m take_bit_eq_mask)
  then have "unat ?q < 2 ^ 4" by (metis take_bit_nat_less_exp unsigned_take_bit_eq)
  then have q: "(crc16_bit ^^ 4) ?q = ?q * 0x1081" by (intro nibble_cases) simp
  have "a XOR x = (a AND NOT 0x0F XOR x AND NOT 0x0F) XOR ?q"
    unfolding m by (rule bit_word_eqI) (auto simp: bit_simps)
  then have "(crc16_bit ^^ 4) (a XOR x) = (crc16_bit ^^ 4) ((a AND NOT 0x0F XOR x AND NOT 0x0F) XOR ?q)" by (rule arg_cong)
  also have "\<dots> = drop_bit 4 a XOR drop_bit 4 x XOR ?q * 0x1081"
    unfolding crc16_bits_xor crc16_high q by (simp only: xor.assoc)
  finally show ?thesis .
qed

lemma crc_char_bits: "crc_char c b = crc16_byte c b"
proof -
  let ?x = "ucast b :: ushort" let ?q = "(c XOR ?x) AND 0x0F"
  let ?c1 = "drop_bit 4 c XOR ?q * 0x1081" let ?q2 = "(?c1 XOR drop_bit 4 ?x) AND 0x0F"
  have m: "(0xFF :: ushort) = mask 8" by (simp add: mask_eq_exp_minus_1)
  have x: "?x AND 0xFF = ?x" unfolding m by (rule bit_word_eqI) (auto simp: bit_simps dest: bit_byte)
  have xx: "drop_bit 4 (drop_bit 4 ?x) = 0" by (rule bit_word_eqI) (auto simp: bit_simps)
  have "(crc16_bit ^^ 4) (c XOR ?x) = ?c1 XOR drop_bit 4 ?x"
    unfolding crc16_nibble by (simp only: xor.assoc xor.commute xor.left_commute)
  moreover have "(crc16_bit ^^ 4) (?c1 XOR drop_bit 4 ?x) = drop_bit 4 ?c1 XOR ?q2 * 0x1081"
    unfolding crc16_nibble xx by simp
  moreover have "(crc16_bit ^^ 8) y = (crc16_bit ^^ 4) ((crc16_bit ^^ 4) y)" for y
    by (simp add: crc16_bit_4 numeral_eq_Suc)
  ultimately show ?thesis by (simp only: crc_char_def crc16_byte_def Let_def x)
qed

text \<open>C30. The nibble-wise checksum of the acceptor frames is the bit-serial CRC-16 (reflected, with
polynomial 0x1021 and whatever initial value) of the first \<open>n\<close> bytes; it is undefined exactly if
there are fewer.\<close>

theorem calcCrc_is_crc16:
  "calcCrc c data n = (if unat n \<le> length data then Some (crc16_serial c (take (unat n) data)) else None)"
proof -
  have "crc_char = crc16_byte" by (intro ext) (rule crc_char_bits)
  then show ?thesis by (simp add: calcCrc_def block_read_def crc16_serial_def nat_uint_eq)
qed

lemma crc16_byte_8: "crc16_byte c b = crc16_bit (crc16_bit (crc16_bit (crc16_bit (crc16_bit (crc16_bit (crc16_bit (crc16_bit (c XOR ucast b))))))))"
  by (simp add: crc16_byte_def numeral_eq_Suc)

lemma calcCrc_is_crc16_witness:
  "calcCrc 0 [0x31, 0x32, 0x33, 0x34, 0x35, 0x36, 0x37, 0x38, 0x39] 9 = Some 0x2189"
  unfolding calcCrc_is_crc16 by (simp add: crc16_serial_def crc16_byte_8 crc16_bit_def)

subsection \<open>Frames as they are sent\<close>

lemma small_word: "x \<le> 65535 \<Longrightarrow> 0 \<le> x \<Longrightarrow> uint (word_of_int x :: ushort) = x"
  by (simp add: unsigned_of_int take_bit_int_eq_self)

lemma small_byte: "x \<le> 255 \<Longrightarrow> 0 \<le> x \<Longrightarrow> uint (word_of_int x :: byte) = x"
  by (simp add: unsigned_of_int take_bit_int_eq_self)

lemma calcCrc_over:
  "length pre \<le> 65535 \<Longrightarrow> n = int (length pre) \<Longrightarrow>
     calcCrc c (over pre b) (word_of_int n) = Some (foldl crc_char c pre)"
  using small_word [of n] block_read_over [of n pre b] by (simp add: calcCrc_def)

definition with_crc :: "byte list \<Rightarrow> byte list" where
  "with_crc pre = pre @ [lobyte16 (foldl crc_char 0 pre), hibyte16 (foldl crc_char 0 pre)]"

lemma length_with_crc [simp]: "length (with_crc pre) = length pre + 2"
  by (simp add: with_crc_def)

definition sent :: "byte \<Rightarrow> byte list \<Rightarrow> Jcm \<Rightarrow> Jcm" where
  "sent dev f s = s\<lparr>sendBuf := over f (sendBuf s), lastDevice := dev, lastLenDevice := int (length f)\<rparr>"

definition id003_frame :: "byte \<Rightarrow> byte list \<Rightarrow> byte list" where
  "id003_frame cmd data = with_crc ([0xFC, word_of_int (5 + int (length data)), cmd] @ data)"

definition ccnet_frame :: "byte \<Rightarrow> byte list \<Rightarrow> byte list" where
  "ccnet_frame cmd data = with_crc ([2, 3, if int (length data) > 255 then 0
     else word_of_int (6 + int (length data)), cmd] @ data)"

definition mei_sum :: "byte list \<Rightarrow> byte" where
  "mei_sum xs = foldl (\<lambda>sum d. sum XOR d) (hd xs) (tl xs)"

definition mei_frame :: "byte \<Rightarrow> byte list \<Rightarrow> byte list" where
  "mei_frame cmd data = (let l = word_of_int (5 + int (length data)) in
     [2, l, cmd] @ data @ [3, mei_sum ([l, cmd] @ data)])"

lemma calcChksum_inside:
  "xs \<noteq> [] \<Longrightarrow> n = int (length xs) \<Longrightarrow> calcChksumXor (x # xs @ ys) n 1 = Some (mei_sum xs)"
  using block_read_inside [of 1 "[x]" n xs ys] by (cases xs) (simp_all add: calcChksumXor_def mei_sum_def add.commute)

lemma whole_data: "block_read data 0 (int (length data)) = Some data"
  by (simp add: block_read_def)

lemma write_id003:
  assumes "length (sendBuf s) = 570" "length data \<le> 565"
  shows "jcmWrite dev 0 cmd data (int (length data)) s =
    Some (sent dev (id003_frame cmd data) s, dev, id003_frame cmd data)"
proof -
  let ?b = "sendBuf s" and ?l = "word_of_int (5 + int (length data)) :: byte"
  let ?p = "[0xFC, ?l, cmd] @ data" and ?f = "id003_frame cmd data"
  have "block_write ?b 0 [0xFC] = Some (over [0xFC] ?b)" using assms(1) by (simp add: block_write_start)
  moreover have "block_write (over [0xFC] ?b) 1 [?l] = Some (over [0xFC, ?l] ?b)"
    using assms(1) by (simp add: block_write_over)
  moreover have "block_write (over [0xFC, ?l] ?b) 2 [cmd] = Some (over [0xFC, ?l, cmd] ?b)"
    using assms(1) by (simp add: block_write_over)
  moreover have "block_write (over [0xFC, ?l, cmd] ?b) 3 data = Some (over ?p ?b)"
    using assms by (simp add: block_write_over)
  moreover have "calcCrc 0 (over ?p ?b) (word_of_int (int (length data) + 3)) = Some (foldl crc_char 0 ?p)"
    using assms(2) by (intro calcCrc_over) simp_all
  moreover have "block_write (over ?p ?b) (3 + int (length data))
      [lobyte16 (foldl crc_char 0 ?p), hibyte16 (foldl crc_char 0 ?p)] = Some (over ?f ?b)"
    unfolding id003_frame_def with_crc_def using assms by (intro block_write_over) simp_all
  moreover have "block_read (over ?f ?b) 0 (int (length data) + 5) = Some ?f"
    by (rule block_read_over) (simp add: id003_frame_def)
  moreover have "int (length ?f) = int (length data) + 5" by (simp add: id003_frame_def)
  ultimately show ?thesis by (simp add: jcmWrite_def sent_def whole_data del: append_Cons)
qed

lemma write_ccnet:
  assumes "length (sendBuf s) = 570" "length data \<le> 564"
  shows "jcmWrite dev 1 cmd data (int (length data)) s =
    Some (sent dev (ccnet_frame cmd data) s, dev, ccnet_frame cmd data)"
proof -
  let ?b = "sendBuf s" and ?l = "if int (length data) > 255 then 0 else word_of_int (6 + int (length data)) :: byte"
  let ?p = "[2, 3, ?l, cmd] @ data" and ?f = "ccnet_frame cmd data"
  have "block_write ?b 0 [2] = Some (over [2] ?b)" using assms(1) by (simp add: block_write_start)
  moreover have "block_write (over [2] ?b) 1 [3] = Some (over [2, 3] ?b)"
    using assms(1) by (simp add: block_write_over)
  moreover have "block_write (over [2, 3] ?b) 2 [?l] = Some (over [2, 3, ?l] ?b)"
    using assms(1) by (simp add: block_write_over)
  moreover have "block_write (over [2, 3, ?l] ?b) 3 [cmd] = Some (over [2, 3, ?l, cmd] ?b)"
    using assms(1) by (simp add: block_write_over)
  moreover have "block_write (over [2, 3, ?l, cmd] ?b) 4 data = Some (over ?p ?b)"
    using assms by (simp add: block_write_over)
  moreover have "calcCrc 0 (over ?p ?b) (word_of_int (int (length data) + 4)) = Some (foldl crc_char 0 ?p)"
    using assms(2) by (intro calcCrc_over) simp_all
  moreover have "block_write (over ?p ?b) (4 + int (length data))
      [lobyte16 (foldl crc_char 0 ?p), hibyte16 (foldl crc_char 0 ?p)] = Some (over ?f ?b)"
    unfolding ccnet_frame_def with_crc_def using assms by (intro block_write_over) simp_all
  moreover have "block_read (over ?f ?b) 0 (int (length data) + 6) = Some ?f"
    by (rule block_read_over) (simp add: ccnet_frame_def)
  moreover have "int (length ?f) = int (length data) + 6" by (simp add: ccnet_frame_def)
  ultimately show ?thesis by (simp add: jcmWrite_def sent_def whole_data del: append_Cons)
qed

lemma write_mei:
  assumes "length (sendBuf s) = 570" "length data \<le> 565" "protocol > 2"
  shows "jcmWrite dev protocol cmd data (int (length data)) s =
    Some (sent dev (mei_frame cmd data) s, dev, mei_frame cmd data)"
proof -
  let ?b = "sendBuf s" and ?l = "word_of_int (5 + int (length data)) :: byte"
  let ?p = "[2, ?l, cmd] @ data" and ?f = "mei_frame cmd data"
  have "block_write ?b 0 [2] = Some (over [2] ?b)" using assms(1) by (simp add: block_write_start)
  moreover have "block_write (over [2] ?b) 1 [?l] = Some (over [2, ?l] ?b)"
    using assms(1) by (simp add: block_write_over)
  moreover have "block_write (over [2, ?l] ?b) 2 [cmd] = Some (over [2, ?l, cmd] ?b)"
    using assms(1) by (simp add: block_write_over)
  moreover have "block_write (over [2, ?l, cmd] ?b) 3 data = Some (over ?p ?b)"
    using assms by (simp add: block_write_over)
  moreover have "block_write (over ?p ?b) (3 + int (length data)) [3] = Some (over (?p @ [3]) ?b)"
    using assms by (intro block_write_over) simp_all
  moreover have "calcChksumXor (over (?p @ [3]) ?b) (int (length data) + 2) 1 = Some (mei_sum ([?l, cmd] @ data))"
    using calcChksum_inside [of "[?l, cmd] @ data" "int (length data) + 2" 2 "[3] @ drop (length (?p @ [3])) ?b"]
    by (simp add: over_def)
  moreover have "block_write (over (?p @ [3]) ?b) (4 + int (length data)) [mei_sum ([?l, cmd] @ data)] = Some (over ?f ?b)"
    using block_write_over [of "4 + int (length data)" "?p @ [3]" "[mei_sum ([?l, cmd] @ data)]" ?b] assms
    by (simp add: mei_frame_def Let_def)
  moreover have "block_read (over ?f ?b) 0 (int (length data) + 5) = Some ?f"
    by (rule block_read_over) (simp add: mei_frame_def Let_def)
  moreover have "int (length ?f) = int (length data) + 5" by (simp add: mei_frame_def Let_def)
  moreover have "\<not> protocol \<le> 2" using assms(3) by simp
  ultimately show ?thesis by (simp add: jcmWrite_def sent_def whole_data del: append_Cons)
qed

subsection \<open>Frames as they are read\<close>

lemma block_at_nth: "0 \<le> i \<Longrightarrow> nat i < length b \<Longrightarrow> block_at b i = Some (b ! nat i)"
  by (simp add: block_at_def block_read_def hd_drop_conv_nth)

lemma block_at_inside: "i = int (length pre) \<Longrightarrow> block_at (pre @ x # xs) i = Some x"
  by (simp add: block_at_nth)

text \<open>A checked frame that carries its own length is accepted, whatever follows it.\<close>

lemma read_with_crc:
  assumes h: "length h = 4" and l: "pre ! nat lenAt = word_of_int (int (length pre) + 2)" "0 \<le> lenAt" "nat lenAt < length pre"
    and n: "length pre \<le> 253" and c: "nat cmdAt \<le> length pre"
  shows "read_crc_frame (h @ with_crc pre @ t) lenAt cmdAt overhead =
    Some \<lparr>dev_out = Some (hd h), cmdDataLen = Some (int (length pre) + 2 - overhead),
      reply = Some (drop (nat cmdAt) pre @ drop (length pre) (with_crc pre) @ t)\<rparr>"
proof -
  let ?crc = "foldl crc_char 0 pre" and ?lo = "lobyte16 (foldl crc_char 0 pre)" and ?hi = "hibyte16 (foldl crc_char 0 pre)"
  have raw: "drop 4 (h @ with_crc pre @ t) = with_crc pre @ t" using h by simp
  have len: "map_option uint (block_at (with_crc pre @ t) lenAt) = Some (int (length pre) + 2)"
  proof -
    have "block_at (with_crc pre @ t) lenAt = Some (pre ! nat lenAt)"
      using l(2,3) block_at_nth [of lenAt "with_crc pre @ t"] by (simp add: with_crc_def nth_append)
    then show ?thesis using l(1) small_byte [of "int (length pre) + 2"] n by simp
  qed
  have crc: "calcCrc 0 (with_crc pre @ t) (word_of_int (int (length pre) + 2 - 2)) = Some ?crc"
    using small_word [of "int (length pre)"] n block_read_prefix [of "int (length pre)" pre "[?lo, ?hi] @ t"]
    by (simp add: calcCrc_def with_crc_def)
  have lo: "block_at (h @ with_crc pre @ t) (4 + (int (length pre) + 2) - 2) = Some ?lo"
    using block_at_inside [of _ "h @ pre" ?lo "?hi # t"] h by (simp add: with_crc_def)
  have hi: "block_at (h @ with_crc pre @ t) (4 + (int (length pre) + 2) - 1) = Some ?hi"
    using block_at_inside [of _ "h @ pre @ [?lo]" ?hi t] h by (simp add: with_crc_def)
  have "h \<noteq> []" using h by auto
  then show ?thesis
    unfolding read_crc_frame_def raw Let_def len Option.bind.simps crc lo hi
    using c by (simp add: with_crc_def)
qed

text \<open>Characters of seven bits, which \<open>convertTo7Bit\<close> leaves as they are.\<close>

definition seven :: "byte \<Rightarrow> bool" where
  "seven d \<longleftrightarrow> d AND 0x7F = d"

lemma seven_xor: "seven a \<Longrightarrow> seven b \<Longrightarrow> seven (a XOR b)"
proof -
  assume "seven a" "seven b"
  moreover have "(a XOR b) AND 0x7F = (a AND 0x7F) XOR (b AND 0x7F)"
    by (rule bit_word_eqI) (auto simp: bit_simps)
  ultimately show ?thesis by (simp add: seven_def)
qed

lemma seven_sum: "xs \<noteq> [] \<Longrightarrow> list_all seven xs \<Longrightarrow> seven (mei_sum xs)"
proof -
  have f: "list_all seven ys \<Longrightarrow> seven a \<Longrightarrow> seven (foldl (\<lambda>sum d. sum XOR d) a ys)" for a ys
    by (induction ys arbitrary: a) (simp_all add: seven_xor)
  assume "xs \<noteq> []" "list_all seven xs"
  then show ?thesis unfolding mei_sum_def by (intro f) (cases xs; simp)+
qed

lemma seven_small: "0 \<le> x \<Longrightarrow> x \<le> 127 \<Longrightarrow> seven (word_of_int x)"
proof -
  assume x: "0 \<le> x" "x \<le> 127"
  have m: "(0x7F :: byte) = mask 7" by (simp add: mask_eq_exp_minus_1)
  have "take_bit 7 x = x" using x by (simp add: take_bit_int_eq_self)
  then have "(word_of_int x :: byte) = word_of_int (take_bit 7 x)" by simp
  also have "\<dots> = take_bit 7 (word_of_int x)" by (rule bit_word_eqI) (auto simp: bit_simps)
  finally show ?thesis by (simp only: seven_def m take_bit_eq_mask)
qed

lemma map_seven: "list_all seven xs \<Longrightarrow> map (\<lambda>d. d AND 0x7F) xs = xs"
  by (induction xs) (simp_all add: seven_def)

lemma convert_seven:
  "list_all seven xs \<Longrightarrow> n = int (length xs) \<Longrightarrow> convertTo7Bit (xs @ z # t) n = Some (xs @ (z AND 0x7F) # t)"
proof -
  assume x: "list_all seven xs" "n = int (length xs)"
  have "block_read (xs @ z # t) 0 (max 0 (n + 1)) = Some (xs @ [z])"
    using block_read_prefix [of "n + 1" "xs @ [z]" t] x(2) by simp
  moreover have "block_write (xs @ z # t) 0 (xs @ [z AND 0x7F]) = Some (xs @ (z AND 0x7F) # t)"
    by (simp add: block_write_def)
  ultimately show ?thesis using map_seven [OF x(1)] by (simp add: convertTo7Bit_def)
qed

lemma read_mei:
  assumes h: "length h = 4" and n: "length data \<le> 122" and s: "seven cmd" "list_all seven data"
  shows "jcmRead (Some (h @ mei_frame cmd data @ z # t)) 4 =
    Some \<lparr>dev_out = Some (hd h), cmdDataLen = Some (int (length data)),
      reply = Some (cmd # data @ [3, mei_sum ([word_of_int (5 + int (length data)), cmd] @ data)] @ (z AND 0x7F) # t)\<rparr>"
proof -
  let ?n = "int (length data)" let ?l = "word_of_int (5 + ?n) :: byte"
  let ?c = "mei_sum ([?l, cmd] @ data)" let ?f = "mei_frame cmd data" let ?raw = "?f @ (z AND 0x7F) # t"
  have f: "?f = [2, ?l] @ (cmd # data) @ [3, ?c]" by (simp add: mei_frame_def Let_def)
  have lf: "length ?f = length data + 5" by (simp add: f)
  have l: "seven ?l" using n by (intro seven_small) simp_all
  have c: "seven ?c" using l s by (intro seven_sum) simp_all
  have seven: "list_all seven ?f" using l c s by (simp add: f) (simp add: seven_def)
  have ul: "uint (?l AND 0x7F) = 5 + ?n" using l small_byte [of "5 + ?n"] n by (simp add: seven_def)
  have h0: "block_at (h @ ?f @ z # t) 4 = Some 2" using block_at_inside [of 4 h 2] h by (simp add: f)
  have h1: "block_at (h @ ?f @ z # t) 5 = Some ?l" using block_at_inside [of 5 "h @ [2]" ?l] h by (simp add: f)
  have conv: "convertTo7Bit (drop 4 (h @ ?f @ z # t)) (5 + ?n) = Some ?raw"
    using convert_seven [OF seven, of "5 + ?n" z t] h by (simp add: lf)
  have sum: "calcChksumXor ?raw (5 + ?n - 3) 1 = Some ?c"
    using calcChksum_inside [of "[?l, cmd] @ data" "?n + 2" 2 "[3, ?c] @ (z AND 0x7F) # t"] by (simp add: f add.commute)
  have chk: "block_at (take 4 (h @ ?f @ z # t) @ ?raw) (4 + (5 + ?n) - 1) = Some ?c"
    using block_at_inside [of "8 + ?n" "h @ [2, ?l] @ (cmd # data) @ [3]" ?c "(z AND 0x7F) # t"] h by (simp add: f)
  have "h \<noteq> []" "(2 :: byte) AND 0x7F = 2" using h by auto
  then show ?thesis
    unfolding jcmRead_def option.case h0 h1 Option.bind.simps Let_def ul conv sum chk by (simp add: f)
qed

subsection \<open>The properties\<close>

text \<open>What fits the length byte of each protocol: 250 bytes of data for ID003, 249 for CCNET, and
122, all of seven bits, for MEI.\<close>

definition jcm_fits :: "byte \<Rightarrow> byte \<Rightarrow> byte list \<Rightarrow> bool" where
  "jcm_fits protocol cmd data \<longleftrightarrow> protocol = 0 \<and> length data \<le> 250 \<or> protocol = 1 \<and> length data \<le> 249 \<or>
     protocol = 4 \<and> length data \<le> 122 \<and> seven cmd \<and> list_all seven data"

text \<open>C29. What \<open>jcmWrite\<close> sends, \<open>jcmRead\<close> understands, as long as it fits the length byte, which
\<open>jcmWrite\<close> does not check: a command and at most 250 bytes of data for ID003, 249 for CCNET and 122 of
seven bits for MEI are written, and the frame written, delivered by the line with its four bytes of
header and at least one byte behind it, is accepted; it yields the device of the header, the length of
the data and a pointer to the command followed by the data.\<close>

theorem jcm_round_trip:
  assumes "jcm_fits protocol cmd data" "length (sendBuf s) = 570" "length h = 4"
  shows "\<exists>s' f r. jcmWrite dev protocol cmd data (int (length data)) s = Some (s', dev, f) \<and>
    jcmRead (Some (h @ f @ z # t)) protocol = Some r \<and> dev_out r = Some (hd h) \<and>
    cmdDataLen r = Some (int (length data)) \<and> map_option (take (length data + 1)) (reply r) = Some (cmd # data)"
  using assms(1) unfolding jcm_fits_def
proof (elim disjE conjE)
  assume p: "protocol = 0" and n: "length data \<le> 250"
  let ?f = "id003_frame cmd data"
  have "block_at (h @ ?f @ z # t) 4 = Some 0xFC"
    using block_at_inside [of 4 h "0xFC"] assms(3) by (simp add: id003_frame_def with_crc_def)
  moreover note read_with_crc [OF assms(3), of "[0xFC, word_of_int (5 + int (length data)), cmd] @ data" 1 2 "z # t" 5]
  ultimately have "jcmRead (Some (h @ ?f @ z # t)) 0 = Some \<lparr>dev_out = Some (hd h), cmdDataLen = Some (int (length data)),
      reply = Some (cmd # data @ drop (length data + 3) ?f @ z # t)\<rparr>"
    using n by (simp add: jcmRead_def id003_frame_def numeral_eq_Suc add.commute)
  with write_id003 [OF assms(2), of data dev cmd] n p show ?thesis by simp
next
  assume p: "protocol = 1" and n: "length data \<le> 249"
  let ?f = "ccnet_frame cmd data"
  have "block_at (h @ ?f @ z # t) 4 = Some 2"
    using block_at_inside [of 4 h 2] assms(3) by (simp add: ccnet_frame_def with_crc_def)
  moreover note read_with_crc [OF assms(3), of "[2, 3, word_of_int (6 + int (length data)), cmd] @ data" 2 3 "z # t" 6]
  ultimately have "jcmRead (Some (h @ ?f @ z # t)) 1 = Some \<lparr>dev_out = Some (hd h), cmdDataLen = Some (int (length data)),
      reply = Some (cmd # data @ drop (length data + 4) ?f @ z # t)\<rparr>"
    using n by (simp add: jcmRead_def ccnet_frame_def numeral_eq_Suc add.commute)
  with write_ccnet [OF assms(2), of data dev cmd] n p show ?thesis by simp
next
  assume p: "protocol = 4" and n: "length data \<le> 122" and s: "seven cmd" "list_all seven data"
  from write_mei [OF assms(2), of data protocol dev cmd] n p
  have "jcmWrite dev 4 cmd data (int (length data)) s = Some (sent dev (mei_frame cmd data) s, dev, mei_frame cmd data)"
    by simp
  with read_mei [OF assms(3) n s, of z t] p show ?thesis by simp
qed

lemma jcm_round_trip_witness:
  "\<exists>s' f r. jcmWrite 3 1 0x33 [7, 8] (int (length [7 :: byte, 8])) jcm_init = Some (s', 3, f) \<and>
    jcmRead (Some ([3, 0, 0, 0] @ f @ 0 # [])) 1 = Some r \<and> dev_out r = Some (hd [3, 0, 0, 0]) \<and>
    cmdDataLen r = Some (int (length [7 :: byte, 8])) \<and> map_option (take (length [7 :: byte, 8] + 1)) (reply r) = Some (0x33 # [7, 8])"
  by (rule jcm_round_trip) (simp_all add: jcm_fits_def jcm_init_def)

lemma read_crc_short:
  assumes "block_at (drop 4 frame) lenAt = Some l" "l < 2" "length frame < 65538"
  shows "read_crc_frame frame lenAt cmdAt overhead = None"
proof -
  have "0 \<le> uint l" "uint l < 2" using assms(2) by (simp_all add: word_less_def)
  then have "uint l = 0 \<or> uint l = 1" by arith
  then have "uint (word_of_int (uint l - 2) :: ushort) \<ge> 65534"
    by (elim disjE) (simp_all only: unsigned_of_int take_bit_eq_mod, simp_all)
  then have "calcCrc 0 (drop 4 frame) (word_of_int (uint l - 2)) = None"
    using assms(3) by (simp add: calcCrc_def block_read_out)
  with assms(1) show ?thesis by (simp add: read_crc_frame_def)
qed

text \<open>The length byte is not checked. A frame of either CRC protocol whose length byte is 0 or 1
makes \<open>jcmRead\<close> compute the checksum of more than 65 thousand bytes, beyond any block the line
delivers, and \<open>jcmWrite\<close> itself sends such frames, with 250, 251 or more than 255 bytes of CCNET
data (or 251 and 252 of ID003). A frame of length 4 with a right checksum is accepted, with a data
length of -1.\<close>

theorem jcm_length_unchecked:
  "(frame ! 4 = 0xFC \<and> frame ! 5 < 2 \<and> 5 < length frame \<and> length frame < 65538 \<longrightarrow>
      jcmRead (Some frame) 0 = None) \<and>
   (frame ! 4 = 0x02 \<and> frame ! 6 < 2 \<and> 6 < length frame \<and> length frame < 65538 \<longrightarrow>
      jcmRead (Some frame) 1 = None) \<and>
   (length (sendBuf s) = 570 \<and> length data \<in> {250, 251} \<union> {256..564} \<and> length h = 4 \<longrightarrow>
      (\<exists>s' f. jcmWrite dev 1 cmd data (int (length data)) s = Some (s', dev, f) \<and> jcmRead (Some (h @ f)) 1 = None)) \<and>
   (length h = 4 \<longrightarrow> (\<exists>r. jcmRead (Some (h @ with_crc [0xFC, 4] @ t)) 0 = Some r \<and> cmdDataLen r = Some (-1)))"
proof (intro conjI impI)
  assume f: "frame ! 4 = 0xFC \<and> frame ! 5 < 2 \<and> 5 < length frame \<and> length frame < 65538"
  have "nat 1 < length (drop 4 frame)" "drop 4 frame ! nat 1 = frame ! 5" using f by (auto simp: less_diff_conv)
  then have "block_at (drop 4 frame) 1 = Some (frame ! 5)" by (subst block_at_nth) simp_all
  with f have "read_crc_frame frame 1 2 5 = None" by (intro read_crc_short) auto
  with f show "jcmRead (Some frame) 0 = None" by (simp add: jcmRead_def block_at_nth)
next
  assume f: "frame ! 4 = 0x02 \<and> frame ! 6 < 2 \<and> 6 < length frame \<and> length frame < 65538"
  have "nat 2 < length (drop 4 frame)" "drop 4 frame ! nat 2 = frame ! 6" using f by (auto simp: less_diff_conv)
  then have "block_at (drop 4 frame) 2 = Some (frame ! 6)" by (subst block_at_nth) simp_all
  with f have "read_crc_frame frame 2 3 6 = None" by (intro read_crc_short) auto
  with f show "jcmRead (Some frame) 1 = None" by (simp add: jcmRead_def block_at_nth)
next
  assume a: "length (sendBuf s) = 570 \<and> length data \<in> {250, 251} \<union> {256..564} \<and> length h = 4"
  let ?l = "if int (length data) > 255 then 0 else word_of_int (6 + int (length data)) :: byte"
  let ?f = "ccnet_frame cmd data"
  obtain u where f: "?f = [2, 3, ?l, cmd] @ data @ u" by (simp add: ccnet_frame_def with_crc_def)
  have l: "?l < 2" using a by auto
  have r: "block_at (h @ ?f) 4 = Some 2" "block_at (drop 4 (h @ ?f)) 2 = Some ?l"
    using block_at_inside [of 4 h 2] block_at_inside [of 2 "[2, 3]" ?l] a unfolding f by (simp_all del: of_nat_add)
  have "read_crc_frame (h @ ?f) 2 3 6 = None"
    using a by (intro read_crc_short [OF r(2) l]) (auto simp: ccnet_frame_def)
  with r(1) have "jcmRead (Some (h @ ?f)) 1 = None" by (simp add: jcmRead_def)
  moreover have "length data \<le> 564" using a by auto
  ultimately show "\<exists>s' f. jcmWrite dev 1 cmd data (int (length data)) s = Some (s', dev, f) \<and> jcmRead (Some (h @ f)) 1 = None"
    using write_ccnet a by blast
next
  assume h: "length h = 4"
  have "block_at (h @ with_crc [0xFC, 4] @ t) 4 = Some 0xFC"
    using block_at_inside [of 4 h "0xFC"] h by (simp add: with_crc_def)
  with read_with_crc [OF h, of "[0xFC, 4]" 1 2 t 5]
  show "\<exists>r. jcmRead (Some (h @ with_crc [0xFC, 4] @ t)) 0 = Some r \<and> cmdDataLen r = Some (-1)"
    by (simp add: jcmRead_def)
qed

lemma jcm_length_unchecked_witness:
  "jcmRead (Some [9, 0, 0, 0, 0xFC, 0, 0, 0]) 0 = None \<and>
   (\<exists>r. jcmRead (Some ([9, 0, 0, 0] @ with_crc [0xFC, 4] @ [])) 0 = Some r \<and> cmdDataLen r = Some (-1))"
  using jcm_length_unchecked [of "[9, 0, 0, 0, 0xFC, 0, 0, 0]" jcm_init "[]" "[9, 0, 0, 0]" 0 0 "[]"]
  by simp

end
