(* ===== verification/License_Util.thy ===== *)
theory License_Util
  imports C_Strings "HOL-Library.Signed_Division"
begin

text \<open>
  Licences: \<open>src/src/framework/system/license/LicUtil.c\<close>.

  A licence file holds, in a substitution cipher, two lines of numbers separated by dashes: blocks
  computed from the hardware address (the mask), and the same blocks with the values of the services
  added in. The global variables of the file are a record; the file \<open>licencia.enc\<close> is a field of
  it. A character array that holds a string is the list of its characters before the 0, and
  \<open>None\<close> is an access outside an array: the arrays of the file have 100 elements, the caller's
  buffer \<open>cap\<close>, and a block that \<open>malloc(n)\<close> returns has room for \<open>usable n\<close> bytes, a
  parameter (the allocator is outside; the standard promises \<open>n\<close>). A \<open>short\<close> is a 16-bit
  word that is read with \<open>sint\<close>.
\<close>

record Lic =
  block_count :: int
  str :: "byte list"
  str_result :: "byte list"
  str_result_info :: "16 word list"
  str_result_final :: "16 word list"
  str_service_info :: "byte list"
  str_service :: "byte list"
  licence_file :: "byte list option"

text \<open>The text \<open>"Dgroup-5231"\<close>, which \<open>LIBLIC_verifieLic\<close> and \<open>LIBLIC_hasVerifiedLic\<close> compare with.\<close>

definition master_text :: "byte list" where
  "master_text = [68, 103, 114, 111, 117, 112, 45, 53, 50, 51, 49]"

subsection \<open>The substitution cipher\<close>

definition encryptMatrix :: "byte list" where
  "encryptMatrix =
    [167, 243, 104, 103, 169, 18, 36, 185, 137, 131, 204, 72, 147, 96, 28, 161, 162, 34, 231, 201,
     77, 149, 230, 199, 192, 11, 136, 220, 23, 227, 148, 60, 241, 228, 7, 174, 69, 83, 31, 255, 209,
     124, 65, 78, 146, 46, 5, 216, 66, 84, 180, 89, 178, 212, 9, 115, 102, 87, 29, 198, 42, 68, 129,
     94, 236, 155, 39, 197, 151, 41, 160, 32, 163, 80, 186, 164, 49, 108, 120, 139, 122, 109, 43,
     184, 152, 98, 219, 217, 193, 233, 76, 112, 252, 150, 239, 251, 138, 99, 58, 126, 156, 0, 203,
     25, 218, 187, 254, 229, 116, 240, 153, 248, 97, 135, 222, 38, 125, 91, 225, 62, 133, 13, 213,
     189, 242, 33, 53, 118, 176, 190, 130, 50, 234, 51, 27, 56, 172, 44, 30, 194, 158, 143, 26, 15,
     12, 24, 165, 170, 235, 64, 117, 249, 221, 154, 157, 119, 171, 205, 10, 253, 67, 232, 195, 173,
     6, 200, 4, 175, 196, 105, 226, 224, 59, 106, 211, 61, 74, 237, 90, 145, 207, 93, 75, 95, 247,
     179, 1, 48, 45, 238, 132, 210, 144, 246, 113, 142, 114, 22, 57, 177, 52, 85, 3, 134, 168, 71,
     159, 127, 215, 244, 86, 208, 2, 81, 14, 182, 123, 107, 191, 141, 40, 214, 183, 128, 206, 250,
     73, 35, 181, 37, 16, 8, 202, 100, 166, 47, 140, 19, 223, 88, 82, 101, 20, 21, 54, 110, 245, 17,
     121, 79, 55, 111, 92, 188, 63, 70]"

definition decryptMatrix :: "byte list" where
  "decryptMatrix =
    [101, 186, 212, 202, 166, 46, 164, 34, 231, 54, 158, 25, 144, 121, 214, 143, 230, 247, 5, 237,
     242, 243, 197, 28, 145, 103, 142, 134, 14, 58, 138, 38, 71, 125, 17, 227, 6, 229, 115, 66, 220,
     69, 60, 82, 137, 188, 45, 235, 187, 76, 131, 133, 200, 126, 244, 250, 135, 198, 98, 172, 31,
     175, 119, 254, 149, 42, 48, 160, 61, 36, 255, 205, 11, 226, 176, 182, 90, 20, 43, 249, 73, 213,
     240, 37, 49, 201, 210, 57, 239, 51, 178, 117, 252, 181, 63, 183, 13, 112, 85, 97, 233, 241, 56,
     3, 2, 169, 173, 217, 77, 81, 245, 251, 91, 194, 196, 55, 108, 150, 127, 155, 78, 248, 80, 216,
     41, 116, 99, 207, 223, 62, 130, 9, 190, 120, 203, 113, 26, 8, 96, 79, 236, 219, 195, 141, 192,
     179, 44, 12, 30, 21, 93, 68, 84, 110, 153, 65, 100, 154, 140, 206, 70, 15, 16, 72, 75, 146,
     234, 0, 204, 4, 147, 156, 136, 163, 35, 167, 128, 199, 52, 185, 50, 228, 215, 222, 83, 7, 74,
     105, 253, 123, 129, 218, 24, 88, 139, 162, 168, 67, 59, 23, 165, 19, 232, 102, 10, 157, 224,
     180, 211, 40, 191, 174, 53, 122, 221, 208, 47, 87, 104, 86, 27, 152, 114, 238, 171, 118, 170,
     29, 33, 107, 22, 18, 161, 89, 132, 148, 64, 177, 189, 94, 109, 32, 124, 1, 209, 246, 193, 184,
     111, 151, 225, 95, 92, 159, 106, 39]"

definition encryptSimpleLic :: "byte list \<Rightarrow> byte list" where
  "encryptSimpleLic source = map (\<lambda>b. encryptMatrix ! unat b) source"

definition decryptSimpleLic :: "byte list \<Rightarrow> byte list" where
  "decryptSimpleLic source = map (\<lambda>b. decryptMatrix ! unat b) source"

text \<open>The file is decrypted whole; the callers take the result as a string, up to a 0.\<close>

definition decryptFileLic :: "Lic \<Rightarrow> byte list option" where
  "decryptFileLic g = map_option (\<lambda>b. takeWhile (\<lambda>c. c \<noteq> 0) (decryptSimpleLic b)) (licence_file g)"

text \<open>What is written is the string in the buffer, which ends at a 0 although the buffer is encrypted.\<close>

definition createFile :: "byte list \<Rightarrow> Lic \<Rightarrow> Lic" where
  "createFile buffer g = g\<lparr>licence_file := Some (takeWhile (\<lambda>c. c \<noteq> 0) buffer)\<rparr>"

subsection \<open>Masks, blocks and services\<close>

text \<open>\<open>init\<close> clears the first element of each array only.\<close>

definition init :: "Lic \<Rightarrow> Lic" where
  "init g = g\<lparr>block_count := 0, str := [], str_result := [],
     str_result_info := (str_result_info g)[0 := 0], str_result_final := (str_result_final g)[0 := 0],
     str_service_info := (str_service_info g)[0 := 0], str_service := (str_service g)[0 := 0]\<rparr>"

definition char_value :: "byte \<Rightarrow> nat \<Rightarrow> int" where
  "char_value c i = uint c + (10 + (int i + 1) * 2)"

fun mask_from :: "nat \<Rightarrow> int \<Rightarrow> byte list \<Rightarrow> byte list \<Rightarrow> byte list option" where
  "mask_from i value [] result = Some result"
| "mask_from i value (c # cs) result =
     (if c \<noteq> DASH then
        (let value = value + char_value c i in
         if (i + 1) mod 2 = 0 then do {
           let s = (if result = [] then dec value else DASH # dec value);
           result \<leftarrow> strcat 100 result s;
           mask_from (i + 1) 0 cs result
         } else mask_from (i + 1) value cs result)
      else mask_from (i + 1) value cs result)"

definition maskValue :: "byte list \<Rightarrow> byte list \<Rightarrow> byte list option" where
  "maskValue s result = mask_from 0 0 s result"

fun blocks_from ::
  "nat \<Rightarrow> int \<Rightarrow> byte list \<Rightarrow> int \<Rightarrow> int \<Rightarrow> 16 word list \<Rightarrow> (int \<times> int \<times> 16 word list) option" where
  "blocks_from i value [] service_count n info = Some (value, n, info)"
| "blocks_from i value (c # cs) service_count n info =
     (if c \<noteq> DASH then
        (let value = value + char_value c i in
         if (i + 1) mod 2 = 0 \<and> n < service_count then do {
           info \<leftarrow> put_at info n (word_of_int value);
           blocks_from (i + 1) 0 cs service_count (n + 1) info
         } else blocks_from (i + 1) value cs service_count n info)
      else blocks_from (i + 1) value cs service_count n info)"

text \<open>\<open>k\<close> more blocks, from index \<open>n\<close> on.\<close>

fun fill_blocks :: "nat \<Rightarrow> int \<Rightarrow> 16 word list \<Rightarrow> 16 word list option" where
  "fill_blocks 0 n info = Some info"
| "fill_blocks (Suc k) n info = do {
     a \<leftarrow> get_at info 0;
     b \<leftarrow> get_at info (n - 1);
     info \<leftarrow> put_at info n (a + b);
     fill_blocks k (n + 1) info
   }"

definition makeBlocks :: "int \<Rightarrow> byte list \<Rightarrow> Lic \<Rightarrow> Lic option" where
  "makeBlocks service_count masked g = do {
     (value, n, info) \<leftarrow> blocks_from 0 0 masked service_count (block_count g) (str_result_info g);
     info \<leftarrow> (if value \<noteq> 0 then do {
         a \<leftarrow> get_at info (n - 1);
         put_at info (n - 1) (word_of_int (sint a + value))
       } else Some info);
     if service_count > n then do {
       info \<leftarrow> fill_blocks (nat (service_count - n)) n info;
       Some (g\<lparr>block_count := service_count, str_result_info := info\<rparr>)
     } else do {
       info \<leftarrow> put_at info n 0;
       Some (g\<lparr>block_count := n, str_result_info := info\<rparr>)
     }
   }"

fun setInfo_from :: "nat \<Rightarrow> int \<Rightarrow> byte list \<Rightarrow> 16 word list \<Rightarrow> 16 word list \<Rightarrow> 16 word list option" where
  "setInfo_from 0 i service info final = Some final"
| "setInfo_from (Suc k) i service info final = do {
     a \<leftarrow> get_at info i;
     v \<leftarrow> get_at service i;
     final \<leftarrow> put_at final i (word_of_int (sint a + (uint v * (i + 2)) + ((i + 1) * 7)));
     setInfo_from k (i + 1) service info final
   }"

definition setInfo :: "int \<Rightarrow> Lic \<Rightarrow> Lic option" where
  "setInfo service_count g = do {
     final \<leftarrow> setInfo_from (nat service_count) 0 (str_service g) (str_result_info g) (str_result_final g);
     Some (g\<lparr>str_result_final := final\<rparr>)
   }"

fun serviceInfo_from :: "nat \<Rightarrow> int \<Rightarrow> byte list \<Rightarrow> 16 word list \<Rightarrow> 16 word list \<Rightarrow> byte list option" where
  "serviceInfo_from 0 i out info final = Some out"
| "serviceInfo_from (Suc k) i out info final = do {
     f \<leftarrow> get_at final i;
     a \<leftarrow> get_at info i;
     out \<leftarrow> put_at out i (word_of_int (((sint f - ((i + 1) * 7)) - sint a) sdiv (i + 2)));
     serviceInfo_from k (i + 1) out info final
   }"

definition getServiceInfo :: "int \<Rightarrow> Lic \<Rightarrow> Lic option" where
  "getServiceInfo service_count g = do {
     out \<leftarrow> serviceInfo_from (nat service_count) 0 (str_service_info g) (str_result_info g) (str_result_final g);
     Some (g\<lparr>str_service_info := out\<rparr>)
   }"

text \<open>Storing the services: \<open>vs\<close> are the ints of the caller.\<close>

fun load_services :: "int \<Rightarrow> int list \<Rightarrow> byte list \<Rightarrow> byte list option" where
  "load_services x [] service = Some service"
| "load_services x (v # vs) service = do {
     service \<leftarrow> put_at service x (word_of_int v);
     load_services (x + 1) vs service
   }"

subsection \<open>The text of a line of blocks\<close>

text \<open>
  Each number is printed into \<open>aux\<close>, which has room for \<open>u\<close> bytes, with a dash before it unless
  \<open>aux\<close> was empty, and appended to the buffer.
\<close>

fun cat_blocks :: "nat \<Rightarrow> nat \<Rightarrow> bool \<Rightarrow> 16 word list \<Rightarrow> byte list \<Rightarrow> byte list option" where
  "cat_blocks u cap unset [] buffer = Some buffer"
| "cat_blocks u cap unset (v # vs) buffer = do {
     let aux = (if unset then dec (sint v) else DASH # dec (sint v));
     _ \<leftarrow> guard_ok (length aux + 1 \<le> u);
     buffer \<leftarrow> strcat cap buffer aux;
     cat_blocks u cap False vs buffer
   }"

text \<open>The first \<open>n\<close> of an array of 100.\<close>

definition first_blocks :: "int \<Rightarrow> 16 word list \<Rightarrow> 16 word list option" where
  "first_blocks n xs = (if nat n \<le> length xs then Some (take (nat n) xs) else None)"

definition two_lines :: "nat \<Rightarrow> nat \<Rightarrow> Lic \<Rightarrow> byte list option" where
  "two_lines u cap g = do {
     info \<leftarrow> first_blocks (block_count g) (str_result_info g);
     buffer \<leftarrow> strcat cap [] [];
     buffer \<leftarrow> cat_blocks u cap True info buffer;
     buffer \<leftarrow> strcat cap buffer [NEWLINE];
     final \<leftarrow> first_blocks (block_count g) (str_result_final g);
     cat_blocks u cap True final buffer
   }"

text \<open>\<open>aux[0] = '\0'\<close> after \<open>malloc(block_count)\<close> needs room for one byte.\<close>

definition createLic :: "(nat \<Rightarrow> nat) \<Rightarrow> nat \<Rightarrow> Lic \<Rightarrow> byte list option" where
  "createLic usable cap g = do {
     let u = usable (nat (block_count g));
     _ \<leftarrow> guard_ok (0 < u);
     buffer \<leftarrow> two_lines u cap g;
     Some (encryptSimpleLic buffer)
   }"

definition createLicBlock :: "nat \<Rightarrow> byte list \<Rightarrow> byte list \<Rightarrow> byte list option" where
  "createLicBlock cap b1 b2 = do {
     buffer \<leftarrow> strcat cap [] b1;
     buffer \<leftarrow> strcat cap buffer [NEWLINE];
     buffer \<leftarrow> strcat cap buffer b2;
     Some (encryptSimpleLic buffer)
   }"

subsection \<open>The interface\<close>

definition LIBLIC_createLicToBlocks :: "nat \<Rightarrow> byte list \<Rightarrow> byte list \<Rightarrow> Lic \<Rightarrow> (Lic \<times> byte list) option" where
  "LIBLIC_createLicToBlocks cap b1 b2 g = do {
     buffer \<leftarrow> createLicBlock cap b1 b2;
     Some (createFile buffer g, buffer)
   }"

text \<open>The blocks without and with the services, as three of the routines begin.\<close>

definition prepare :: "int \<Rightarrow> byte list \<Rightarrow> int list \<Rightarrow> Lic \<Rightarrow> Lic option" where
  "prepare service_count masked vs g = do {
     let g = init g;
     service \<leftarrow> load_services 0 (take (nat service_count) vs) (str_service g);
     let g = g\<lparr>str_service := service\<rparr>;
     g \<leftarrow> makeBlocks service_count masked g;
     setInfo service_count g
   }"

definition LIBLIC_createLic ::
  "(nat \<Rightarrow> nat) \<Rightarrow> nat \<Rightarrow> int \<Rightarrow> byte list \<Rightarrow> int list \<Rightarrow> Lic \<Rightarrow> (Lic \<times> byte list) option" where
  "LIBLIC_createLic usable cap service_count masked vs g = do {
     _ \<leftarrow> guard_ok (nat service_count \<le> length vs);
     g \<leftarrow> prepare service_count masked vs g;
     buffer \<leftarrow> createLic usable cap g;
     Some (createFile buffer g, buffer)
   }"

definition LIBLIC_maskDiscMac :: "nat \<Rightarrow> byte list \<Rightarrow> Lic \<Rightarrow> (Lic \<times> byte list) option" where
  "LIBLIC_maskDiscMac cap s g = do {
     let g = init g;
     r \<leftarrow> maskValue s (str_result g);
     buffer \<leftarrow> strcat cap [] r;
     Some (g\<lparr>str_result := r\<rparr>, buffer)
   }"

definition first_line :: "byte list \<Rightarrow> byte list" where
  "first_line aux = takeWhile (\<lambda>c. c \<noteq> NEWLINE) aux"

definition LIBLIC_verifieLic ::
  "(nat \<Rightarrow> nat) \<Rightarrow> nat \<Rightarrow> int \<Rightarrow> byte list \<Rightarrow> Lic \<Rightarrow> (Lic \<times> byte list \<times> int) option" where
  "LIBLIC_verifieLic usable cap service_count masked g = do {
     let g = init g;
     buffer \<leftarrow> strcat cap [] [];
     g \<leftarrow> makeBlocks service_count masked g;
     g \<leftarrow> setInfo service_count g;
     case decryptFileLic g of
       None \<Rightarrow> Some (g, buffer, 2)
     | Some aux \<Rightarrow> do {
         s \<leftarrow> strcat 100 (str g) (first_line aux);
         let g = g\<lparr>str := s\<rparr>;
         let u = usable (nat (block_count g));
         _ \<leftarrow> guard_ok (0 < u);
         info \<leftarrow> first_blocks (block_count g) (str_result_info g);
         buffer \<leftarrow> cat_blocks u cap True info buffer;
         if s = buffer then do {
           buffer \<leftarrow> strcat cap [] aux;
           Some (g, buffer, 0)
         } else if s = master_text then do {
           buffer \<leftarrow> strcat cap buffer [NEWLINE];
           buffer \<leftarrow> strcat cap buffer s;
           let buffer = encryptSimpleLic buffer;
           Some (createFile buffer g, buffer, 0)
         } else Some (g, buffer, 1)
       }
   }"

text \<open>
  Numbers between dashes, up to the end of the line; \<open>s\<close> holds the characters since the last
  dash and is also returned. \<open>stops\<close> says at which character the line ends (the second line of a licence goes on to the
  end of the text).
\<close>

fun read_blocks ::
  "(byte \<Rightarrow> bool) \<Rightarrow> byte list \<Rightarrow> byte list \<Rightarrow> int \<Rightarrow> 16 word list \<Rightarrow> (int \<times> 16 word list \<times> byte list \<times> byte list) option" where
  "read_blocks stops [] s n out = do {
     v \<leftarrow> atoi s;
     out \<leftarrow> put_at out n (word_of_int v);
     Some (n + 1, out, [], s)
   }"
| "read_blocks stops (c # cs) s n out =
     (if stops c then do {
        v \<leftarrow> atoi s;
        out \<leftarrow> put_at out n (word_of_int v);
        Some (n + 1, out, cs, s)
      } else if c \<noteq> DASH then do {
        s \<leftarrow> strcat 100 s [c];
        read_blocks stops cs s n out
      } else do {
        v \<leftarrow> atoi s;
        out \<leftarrow> put_at out n (word_of_int v);
        read_blocks stops cs [] (n + 1) out
      })"

definition LIBLIC_getServiceValue :: "int \<Rightarrow> Lic \<Rightarrow> (Lic \<times> int) option" where
  "LIBLIC_getServiceValue service_type g = do {
     let g = init g;
     case decryptFileLic g of
       None \<Rightarrow> Some (g, 0)
     | Some aux \<Rightarrow> do {
         (n, info, rest, _) \<leftarrow> read_blocks (\<lambda>c. c = NEWLINE) aux (str g) (block_count g) (str_result_info g);
         (n, final, _, s) \<leftarrow> read_blocks (\<lambda>c. False) rest [] 0 (str_result_final g);
         let g = g\<lparr>block_count := n, str := s, str_result_info := info, str_result_final := final\<rparr>;
         g \<leftarrow> getServiceInfo n g;
         v \<leftarrow> get_at (str_service_info g) service_type;
         Some (g, uint v)
       }
   }"

definition LIBLIC_getBlockNumber ::
  "nat \<Rightarrow> int \<Rightarrow> byte list \<Rightarrow> int list \<Rightarrow> Lic \<Rightarrow> (Lic \<times> byte list) option" where
  "LIBLIC_getBlockNumber cap service_count masked vs g = do {
     _ \<leftarrow> guard_ok (nat service_count \<le> length vs);
     g \<leftarrow> prepare service_count masked vs g;
     buffer \<leftarrow> two_lines 50 cap g;
     Some (g, buffer)
   }"

definition LIBLIC_hasVerifiedLic :: "int \<Rightarrow> byte list \<Rightarrow> Lic \<Rightarrow> (Lic \<times> int) option" where
  "LIBLIC_hasVerifiedLic service_count masked g = do {
     let g = init g;
     case decryptFileLic g of
       None \<Rightarrow> Some (g, 0)
     | Some aux \<Rightarrow> do {
         s \<leftarrow> strcat 100 (str g) (first_line aux);
         let g = g\<lparr>str := s\<rparr>;
         g \<leftarrow> makeBlocks service_count masked g;
         info \<leftarrow> first_blocks (block_count g) (str_result_info g);
         buffer \<leftarrow> cat_blocks 50 100 True info [];
         if s \<noteq> buffer then
           (if s = master_text then do {
              (g, _) \<leftarrow> LIBLIC_createLicToBlocks 100 buffer master_text g;
              Some (g, 1)
            } else Some (g, 0))
         else do {
           let rest = drop (length s + 1) aux;
           s \<leftarrow> strcat 100 [] rest;
           Some (g\<lparr>str := s\<rparr>, if s = master_text then 1 else 0)
         }
       }
   }"

end
