(* ===== verification/License_Props.thy ===== *)
theory License_Props
  imports License_Util
begin

text \<open>
  Correctness of the licence file: the cipher tables are inverse, a printed number is read back, a
  licence that is created yields the services it was created for, and what verification checks.
\<close>

subsection \<open>The cipher\<close>

lemma encrypt_table: "map (\<lambda>e. decryptMatrix ! unat e) encryptMatrix = map of_nat [0..<256]"
proof -
  have "[0..<256] = 0 # 1 # [2..<256]" by (simp add: upt_conv_Cons numeral_2_eq_2)
  then have "map of_nat [0..<256] = (map of_nat (0 # 1 # [2..<256]) :: byte list)" by (rule arg_cong)
  also have "\<dots> = map (\<lambda>e. decryptMatrix ! unat e) encryptMatrix"
    by (simp add: encryptMatrix_def decryptMatrix_def upt_rec_numeral)
  finally show ?thesis by (rule sym)
qed

lemma length_encryptMatrix: "length encryptMatrix = 256"
  by (simp add: encryptMatrix_def)

lemma decrypt_encrypt: "decryptMatrix ! unat (encryptMatrix ! unat b) = b"
proof -
  have "decryptMatrix ! unat (encryptMatrix ! unat b) = map (\<lambda>e. decryptMatrix ! unat e) encryptMatrix ! unat b"
    by (simp add: length_encryptMatrix)
  also have "\<dots> = b" by (simp add: encrypt_table)
  finally show ?thesis .
qed

lemma decryptSimple_encryptSimple [simp]: "decryptSimpleLic (encryptSimpleLic xs) = xs"
  by (simp add: decryptSimpleLic_def encryptSimpleLic_def decrypt_encrypt comp_def)

text \<open>Only the letter e is encrypted as 0.\<close>

lemma encrypt_zero: "encryptMatrix ! unat b = 0 \<Longrightarrow> b = 101" for b :: byte
proof -
  assume "encryptMatrix ! unat b = 0"
  then have "decryptMatrix ! unat (encryptMatrix ! unat b) = decryptMatrix ! 0" by simp
  then have "b = decryptMatrix ! 0" by (simp add: decrypt_encrypt)
  then show ?thesis by (simp add: decryptMatrix_def)
qed

lemma encrypt_no_zero: "101 \<notin> set xs \<Longrightarrow> takeWhile (\<lambda>c. c \<noteq> 0) (encryptSimpleLic xs) = encryptSimpleLic xs"
  by (auto simp: takeWhile_eq_all_conv encryptSimpleLic_def dest!: encrypt_zero)

text \<open>A file that is written and read back.\<close>

lemma file_round_trip:
  assumes "0 \<notin> set text" "101 \<notin> set text"
  shows "decryptFileLic (createFile (encryptSimpleLic text) g) = Some text"
proof -
  have "takeWhile (\<lambda>c. c \<noteq> 0) text = text" using assms(1) by (auto simp: takeWhile_eq_all_conv)
  then show ?thesis using assms(2) by (simp add: decryptFileLic_def createFile_def encrypt_no_zero)
qed

subsection \<open>Numbers\<close>

lemma short_bound: "sint (v :: 16 word) < 32768"
  using sint_lt [of v] by simp

lemma dec_short: "0 \<le> sint (v :: 16 word) \<Longrightarrow> list_all is_digit (dec (sint v)) \<and> length (dec (sint v)) \<le> 5"
  using dec_nat_digits [of "nat (sint v)"] length_dec_nat [of "nat (sint v)" 4] short_bound [of v]
  by (simp add: dec_def)

subsection \<open>Lines\<close>

fun line_from :: "bool \<Rightarrow> 16 word list \<Rightarrow> byte list" where
  "line_from b [] = []"
| "line_from b (v # vs) = (if b then dec (sint v) else DASH # dec (sint v)) @ line_from False vs"

lemma line_False: "vs \<noteq> [] \<Longrightarrow> line_from False vs = DASH # line_from True vs"
  by (cases vs) simp_all

lemma cat_blocks_text: "cat_blocks u cap b vs buf = Some r \<Longrightarrow> r = buf @ line_from b vs"
proof (induction u cap b vs buf rule: cat_blocks.induct)
  case (2 u cap b v vs buf)
  let ?aux = "if b then dec (sint v) else DASH # dec (sint v)"
  from 2(2) obtain buf' where b: "strcat cap buf ?aux = Some buf'" "cat_blocks u cap False vs buf' = Some r"
    and g: "length ?aux + 1 \<le> u" by (auto simp: Let_def elim!: bind_SomeE split: if_splits)
  from g have "guard_ok (length ?aux + 1 \<le> u) = Some ()" by (simp add: guard_ok_def)
  from 2(1) [OF refl this b] strcat_Some [OF b(1)] show ?case by simp
qed simp

definition line_ok :: "16 word list \<Rightarrow> bool" where
  "line_ok vs \<longleftrightarrow> list_all (\<lambda>v. 0 \<le> sint v) vs"

lemma line_ok_simps [simp]: "line_ok []" "line_ok (v # vs) \<longleftrightarrow> 0 \<le> sint v \<and> line_ok vs"
  by (simp_all add: line_ok_def)

lemma line_chars: "line_ok vs \<Longrightarrow> c \<in> set (line_from b vs) \<Longrightarrow> is_digit c \<or> c = DASH"
proof (induction b vs rule: line_from.induct)
  case (2 b v vs)
  then show ?case using dec_short [of v] by (auto simp: list_all_iff split: if_splits)
qed simp

text \<open>Storing consecutive elements.\<close>

fun store_from :: "nat \<Rightarrow> 'a list \<Rightarrow> 'a list \<Rightarrow> 'a list" where
  "store_from n [] out = out"
| "store_from n (v # vs) out = store_from (Suc n) vs (out[n := v])"

lemma length_store_from [simp]: "length (store_from n vs out) = length out"
  by (induction n vs out rule: store_from.induct) simp_all

lemma store_from_before: "j < n \<Longrightarrow> store_from n vs out ! j = out ! j"
  by (induction n vs out rule: store_from.induct) simp_all

lemma store_from_nth: "i < length vs \<Longrightarrow> n + length vs \<le> length out \<Longrightarrow> store_from n vs out ! (n + i) = vs ! i"
proof (induction n vs out arbitrary: i rule: store_from.induct)
  case (2 n v vs out)
  then show ?case using 2(1) [of "i - 1"] by (cases i) (simp_all add: store_from_before)
qed simp

subsection \<open>Reading a line\<close>

lemma read_digits:
  assumes "list_all is_digit ds" "\<And>c. is_digit c \<Longrightarrow> \<not> stops c" "length s + length ds < 100"
  shows "read_blocks stops (ds @ r) s n out = read_blocks stops r (s @ ds) n out"
  using assms(1,3)
proof (induction ds arbitrary: s)
  case (Cons d ds)
  then have "\<not> stops d" "d \<noteq> DASH" using assms(2) digit_not(1) [of d] by simp_all
  with Cons show ?case by (simp add: strcat_def)
qed simp

lemma read_line:
  assumes "vs \<noteq> []" "line_ok vs" "n + length vs \<le> length out"
    and st: "\<And>c. is_digit c \<Longrightarrow> \<not> stops c" "\<not> stops DASH" and r: "r = [] \<or> stops (hd r)"
  shows "\<exists>s. read_blocks stops (line_from True vs @ r) [] (int n) out =
    Some (int (n + length vs), store_from n vs out, tl r, s)"
  using assms(1-3)
proof (induction vs arbitrary: n out)
  case (Cons v vs)
  let ?t = "line_from False vs @ r" let ?out = "out[n := v]"
  have v: "list_all is_digit (dec (sint v))" "length (dec (sint v)) \<le> 5" "0 \<le> sint v"
    using dec_short [of v] Cons.prems(2) by simp_all
  have a: "atoi (dec (sint v)) = Some (sint v)" using v(3) short_bound [of v] by (intro atoi_dec) simp_all
  have p: "put_at out (int n) (word_of_int (sint v)) = Some ?out" using Cons.prems(3) by (simp add: put_at_def)
  have d: "read_blocks stops (line_from True (v # vs) @ r) [] (int n) out = read_blocks stops ?t (dec (sint v)) (int n) out"
    using read_digits [where s = "[]" and stops = stops and r = ?t, OF v(1) st(1)] v(2) by simp
  show ?case
  proof (cases vs)
    case Nil
    have "read_blocks stops r (dec (sint v)) (int n) out = Some (int n + 1, ?out, tl r, dec (sint v))"
      using r a p by (cases r) simp_all
    with Nil show ?thesis unfolding d by simp
  next
    case (Cons w ws)
    have "read_blocks stops ?t (dec (sint v)) (int n) out = read_blocks stops (line_from True vs @ r) [] (int (Suc n)) ?out"
      using Cons st(2) a p line_False [of vs] by (simp add: add.commute)
    moreover obtain s where "read_blocks stops (line_from True vs @ r) [] (int (Suc n)) ?out =
        Some (int (Suc n + length vs), store_from (Suc n) vs ?out, tl r, s)"
      using Cons.IH [of "Suc n" ?out] Cons.prems Cons by auto
    ultimately show ?thesis unfolding d by simp
  qed
qed simp

subsection \<open>Blocks and services\<close>

lemma blocks_from_count:
  "blocks_from i value cs sc n info = Some (v', n', info') \<Longrightarrow> n \<le> sc \<Longrightarrow>
     n \<le> n' \<and> n' \<le> sc \<and> length info' = length info"
proof (induction cs arbitrary: i "value" n info)
  case (Cons c cs)
  from Cons.prems obtain v1 n1 info1 where s: "blocks_from (i + 1) v1 cs sc n1 info1 = Some (v', n', info')"
    and n: "n1 \<le> sc" "n \<le> n1" "length info1 = length info"
    by (auto simp: Let_def put_at_Some elim!: bind_SomeE split: if_splits)
  from Cons.IH [OF s n(1)] n show ?case by simp
qed simp

lemma fill_blocks_length: "fill_blocks k n info = Some info' \<Longrightarrow> length info' = length info"
proof (induction k n info rule: fill_blocks.induct)
  case (2 k n info)
  then show ?case by (auto elim!: bind_SomeE simp: put_at_Some)
qed simp

lemma makeBlocks_shape:
  assumes "makeBlocks sc m g = Some g'" "block_count g = 0" "0 \<le> sc"
  obtains info where "g' = g\<lparr>block_count := sc, str_result_info := info\<rparr>" "length info = length (str_result_info g)"
proof -
  from assms(1,2) obtain v n info1 where b: "blocks_from 0 0 m sc 0 (str_result_info g) = Some (v, n, info1)"
    by (auto simp: makeBlocks_def elim!: bind_SomeE)
  then have n: "n \<le> sc" "length info1 = length (str_result_info g)" using blocks_from_count [OF b] assms(3) by auto
  let ?fix = "if v \<noteq> 0 then do { a \<leftarrow> get_at info1 (n - 1); put_at info1 (n - 1) (word_of_int (sint a + v)) } else Some info1"
  let ?finish = "\<lambda>info2. if sc > n then do { info \<leftarrow> fill_blocks (nat (sc - n)) n info2;
        Some (g\<lparr>block_count := sc, str_result_info := info\<rparr>) }
      else do { info \<leftarrow> put_at info2 n 0; Some (g\<lparr>block_count := n, str_result_info := info\<rparr>) }"
  have "Option.bind ?fix ?finish = Some g'" using assms(1,2) b by (simp only: makeBlocks_def Option.bind.simps prod.case)
  then obtain info2 where f: "?fix = Some info2" and g': "?finish info2 = Some g'" by (rule bind_SomeE)
  have i2: "length info2 = length (str_result_info g)"
    using f n(2) by (auto simp: put_at_Some elim!: bind_SomeE split: if_splits)
  show thesis
  proof (cases "sc > n")
    case True
    with g' obtain info where i: "fill_blocks (nat (sc - n)) n info2 = Some info"
      "g' = g\<lparr>block_count := sc, str_result_info := info\<rparr>" by (auto elim!: bind_SomeE)
    from that [OF i(2)] fill_blocks_length [OF i(1)] i2 show thesis by simp
  next
    case False
    with n(1) have "n = sc" by simp
    with False g' i2 show thesis by (auto elim!: bind_SomeE simp: put_at_Some intro: that)
  qed
qed

text \<open>The loops store consecutive elements.\<close>

lemma load_services_store:
  "x + length vs \<le> length svc \<Longrightarrow> load_services (int x) vs svc = Some (store_from x (map word_of_int vs) svc)"
proof (induction vs arbitrary: x svc)
  case (Cons v vs)
  have "load_services (int (Suc x)) vs (svc[x := word_of_int v]) =
      Some (store_from (Suc x) (map word_of_int vs) (svc[x := word_of_int v]))"
    using Cons.prems by (intro Cons.IH) simp
  with Cons.prems show ?case by (simp add: put_at_def add.commute)
qed simp

definition with_service :: "byte list \<Rightarrow> 16 word list \<Rightarrow> nat \<Rightarrow> 16 word" where
  "with_service svc info i = word_of_int (sint (info ! i) + (uint (svc ! i) * (int i + 2)) + ((int i + 1) * 7))"

lemma setInfo_store:
  "i + k \<le> length info \<Longrightarrow> i + k \<le> length svc \<Longrightarrow> i + k \<le> length final \<Longrightarrow>
     setInfo_from k (int i) svc info final = Some (store_from i (map (with_service svc info) [i..<i + k]) final)"
proof (induction k arbitrary: i final)
  case (Suc k)
  have "setInfo_from k (int (Suc i)) svc info (final[i := with_service svc info i]) =
      Some (store_from (Suc i) (map (with_service svc info) [Suc i..<Suc i + k]) (final[i := with_service svc info i]))"
    using Suc.prems by (intro Suc.IH) simp_all
  then have "setInfo_from (Suc k) (int i) svc info final =
      Some (store_from (Suc i) (map (with_service svc info) [Suc i..<Suc i + k]) (final[i := with_service svc info i]))"
    using Suc.prems by (simp add: put_at_def get_at_def with_service_def add.commute)
  moreover have "[i..<i + Suc k] = i # [Suc i..<Suc i + k]" by (simp add: upt_conv_Cons)
  ultimately show ?case by simp
qed simp

definition the_service :: "16 word list \<Rightarrow> 16 word list \<Rightarrow> nat \<Rightarrow> byte" where
  "the_service info final i = word_of_int (((sint (final ! i) - ((int i + 1) * 7)) - sint (info ! i)) sdiv (int i + 2))"

lemma serviceInfo_store:
  "i + k \<le> length info \<Longrightarrow> i + k \<le> length final \<Longrightarrow> i + k \<le> length out \<Longrightarrow>
     serviceInfo_from k (int i) out info final = Some (store_from i (map (the_service info final) [i..<i + k]) out)"
proof (induction k arbitrary: i out)
  case (Suc k)
  have "serviceInfo_from k (int (Suc i)) (out[i := the_service info final i]) info final =
      Some (store_from (Suc i) (map (the_service info final) [Suc i..<Suc i + k]) (out[i := the_service info final i]))"
    using Suc.prems by (intro Suc.IH) simp_all
  then have "serviceInfo_from (Suc k) (int i) out info final =
      Some (store_from (Suc i) (map (the_service info final) [Suc i..<Suc i + k]) (out[i := the_service info final i]))"
    using Suc.prems by (simp add: put_at_def get_at_def the_service_def add.commute)
  moreover have "[i..<i + Suc k] = i # [Suc i..<Suc i + k]" by (simp add: upt_conv_Cons)
  ultimately show ?case by simp
qed simp

text \<open>Without overflow the service is recovered.\<close>

lemma short_value: "-32768 \<le> x \<Longrightarrow> x < 32768 \<Longrightarrow> sint (word_of_int x :: 16 word) = x"
  by (simp add: signed_of_int signed_take_bit_int_eq_self)

lemma sdiv_times: "0 \<le> (v :: int) \<Longrightarrow> (v * (int i + 2)) sdiv (int i + 2) = v"
  by (cases "v = 0") (simp_all add: signed_divide_int_def sgn_mult abs_mult)

lemma service_recovered:
  assumes "final ! i = with_service svc info i" "0 \<le> sint (info ! i)"
    and "sint (info ! i) + uint (svc ! i) * (int i + 2) + (int i + 1) * 7 < 32768"
  shows "the_service info final i = svc ! i"
proof -
  have "0 \<le> uint (svc ! i)" by (rule unsigned_greater_eq)
  then have "0 \<le> uint (svc ! i) * (int i + 2)" by simp
  with assms have "sint (final ! i) = sint (info ! i) + uint (svc ! i) * (int i + 2) + (int i + 1) * 7"
    unfolding assms(1) with_service_def by (intro short_value) simp_all
  then have "(sint (final ! i) - (int i + 1) * 7) - sint (info ! i) = uint (svc ! i) * (int i + 2)" by simp
  then show ?thesis unfolding the_service_def by (simp add: sdiv_times)
qed

subsection \<open>Creating and reading a licence\<close>

definition lic_wf :: "Lic \<Rightarrow> bool" where
  "lic_wf g \<longleftrightarrow> length (str_result_info g) = 100 \<and> length (str_result_final g) = 100 \<and>
     length (str_service_info g) = 100 \<and> length (str_service g) = 100"

lemma init_wf [simp]: "lic_wf g \<Longrightarrow> lic_wf (init g)"
  by (simp add: lic_wf_def init_def)

lemma init_simps [simp]: "block_count (init g) = 0" "str (init g) = []" "licence_file (init g) = licence_file g"
  by (simp_all add: init_def)

text \<open>The first \<open>n\<close> elements after they have been stored.\<close>

lemma take_store: "length vs = n \<Longrightarrow> n \<le> length out \<Longrightarrow> take n (store_from 0 vs out) = vs"
  by (rule nth_equalityI) (use store_from_nth [of _ vs 0 out] in auto)

lemma prepare_shape:
  assumes "prepare (int n) masked vs g = Some g1" "lic_wf g" "n \<le> 100" "length vs = n"
  shows "lic_wf g1 \<and> block_count g1 = int n \<and> take n (str_service g1) = map word_of_int vs \<and>
    take n (str_result_final g1) = map (with_service (str_service g1) (str_result_info g1)) [0..<n]"
proof -
  let ?g = "init g" let ?svc = "store_from 0 (map word_of_int vs) (str_service ?g)"
  let ?g1 = "?g\<lparr>str_service := ?svc\<rparr>"
  have wf: "lic_wf ?g" using assms(2) by simp
  then have "load_services 0 vs (str_service ?g) = Some ?svc"
    using load_services_store [of 0 vs "str_service ?g"] assms(3,4) by (simp add: lic_wf_def)
  with assms(1,4) obtain g2 where g2: "makeBlocks (int n) masked ?g1 = Some g2" and g1: "setInfo (int n) g2 = Some g1"
    by (auto simp: prepare_def Let_def elim!: bind_SomeE)
  obtain info where "g2 = ?g1\<lparr>block_count := int n, str_result_info := info\<rparr>" "length info = length (str_result_info ?g1)"
    by (rule makeBlocks_shape [OF g2]) simp_all
  then have s2: "str_service g2 = ?svc" "block_count g2 = int n" "lic_wf g2" using wf by (simp_all add: lic_wf_def)
  let ?final = "store_from 0 (map (with_service (str_service g2) (str_result_info g2)) [0..<n]) (str_result_final g2)"
  have "setInfo_from n 0 (str_service g2) (str_result_info g2) (str_result_final g2) = Some ?final"
    using setInfo_store [of 0 n "str_result_info g2" "str_service g2" "str_result_final g2"] s2(3) assms(3)
    by (simp add: lic_wf_def)
  with g1 have "g1 = g2\<lparr>str_result_final := ?final\<rparr>" by (simp add: setInfo_def)
  then show ?thesis using s2 assms(3,4) wf by (simp add: lic_wf_def take_store)
qed

lemma first_blocks_take: "first_blocks (int n) xs = Some ys \<Longrightarrow> ys = take n xs \<and> n \<le> length xs"
  by (simp add: first_blocks_def split: if_splits)

lemma createLic_text:
  assumes "createLic usable cap g = Some buffer" "block_count g = int n"
  shows "buffer = encryptSimpleLic (line_from True (take n (str_result_info g)) @ [NEWLINE] @
    line_from True (take n (str_result_final g)))"
  using assms
  by (auto simp: createLic_def two_lines_def Let_def elim!: bind_SomeE dest!: strcat_Some cat_blocks_text first_blocks_take)

lemma line_plain: "line_ok vs \<Longrightarrow> 0 \<notin> set (line_from b vs) \<and> 101 \<notin> set (line_from b vs)"
  using line_chars [of vs _ b] digit_not by fastforce

text \<open>Reading the services of a file with two lines of \<open>n\<close> blocks.\<close>

lemma getServiceValue_lines:
  assumes "decryptFileLic g = Some (line_from True a @ [NEWLINE] @ line_from True b)" "lic_wf g"
    and "length a = n" "length b = n" "0 < n" "n \<le> 100" "line_ok a" "line_ok b" "k < n"
  shows "\<exists>g'. LIBLIC_getServiceValue (int k) g = Some (g', uint (the_service a b k))"
proof -
  let ?g = "init g"
  have wf: "lic_wf ?g" using assms(2) by simp
  let ?a = "store_from 0 a (str_result_info ?g)" and ?b = "store_from 0 b (str_result_final ?g)"
  have d: "decryptFileLic ?g = Some (line_from True a @ [NEWLINE] @ line_from True b)"
    using assms(1) by (simp add: decryptFileLic_def)
  have r: "a \<noteq> []" "b \<noteq> []" "0 + length a \<le> length (str_result_info ?g)" "0 + length b \<le> length (str_result_final ?g)"
    using assms wf by (auto simp: lic_wf_def)
  obtain s1 where r1: "read_blocks (\<lambda>c. c = NEWLINE) (line_from True a @ [NEWLINE] @ line_from True b) [] 0 (str_result_info ?g) =
      Some (int n, ?a, line_from True b, s1)"
    using read_line [of a 0 "str_result_info ?g" "\<lambda>c. c = NEWLINE" "[NEWLINE] @ line_from True b"] r assms(3,7) digit_not
    by auto
  obtain s2 where r2: "read_blocks (\<lambda>c. False) (line_from True b) [] 0 (str_result_final ?g) = Some (int n, ?b, [], s2)"
    using read_line [of b 0 "str_result_final ?g" "\<lambda>c. False" "[]"] r assms(4,8) by auto
  have n: "n \<le> length ?a" "n \<le> length ?b" "n \<le> length (str_service_info ?g)" using wf assms(6) by (auto simp: lic_wf_def)
  let ?out = "store_from 0 (map (the_service ?a ?b) [0..<n]) (str_service_info ?g)"
  have "serviceInfo_from n 0 (str_service_info ?g) ?a ?b = Some ?out"
    using serviceInfo_store [of 0 n ?a ?b "str_service_info ?g"] n by simp
  moreover have "get_at ?out (int k) = Some (the_service a b k)"
    using store_from_nth [of k "map (the_service ?a ?b) [0..<n]" 0 "str_service_info ?g"] n(3) assms(3,4,9) r
      store_from_nth [of k a 0 "str_result_info ?g"] store_from_nth [of k b 0 "str_result_final ?g"]
    by (simp add: get_at_def the_service_def)
  ultimately show ?thesis
    using r1 r2 by (simp add: LIBLIC_getServiceValue_def d getServiceInfo_def Let_def)
qed

text \<open>The largest number that a block with its service may come to.\<close>

definition blocks_fit :: "nat \<Rightarrow> int list \<Rightarrow> Lic \<Rightarrow> bool" where
  "blocks_fit n vs g \<longleftrightarrow> (\<forall>i < n. 0 \<le> sint (str_result_info g ! i) \<and> 0 \<le> vs ! i \<and> vs ! i < 256 \<and>
     sint (str_result_info g ! i) + vs ! i * (int i + 2) + (int i + 1) * 7 < 32768)"

lemma service_byte: "0 \<le> v \<Longrightarrow> v < 256 \<Longrightarrow> uint (word_of_int v :: byte) = v"
  by (simp add: unsigned_of_int take_bit_int_eq_self)

lemma fitting_services:
  assumes "blocks_fit n vs g" "take n (str_service g) = map word_of_int vs" "length vs = n" "i < n"
    and "lic_wf g" "n \<le> 100"
  shows "uint (str_service g ! i) = vs ! i" "0 \<le> sint (with_service (str_service g) (str_result_info g) i)"
proof -
  have "str_service g ! i = take n (str_service g) ! i" using assms(4) by simp
  also have "\<dots> = word_of_int (vs ! i)" using assms(2-4) by simp
  finally have s: "str_service g ! i = word_of_int (vs ! i)" .
  with assms(1,4) show u: "uint (str_service g ! i) = vs ! i" by (simp add: blocks_fit_def service_byte)
  from assms(1,4) have v: "0 \<le> sint (str_result_info g ! i)" "0 \<le> vs ! i"
    "sint (str_result_info g ! i) + vs ! i * (int i + 2) + (int i + 1) * 7 < 32768" by (auto simp: blocks_fit_def)
  then have "0 \<le> vs ! i * (int i + 2)" by simp
  with v have "sint (with_service (str_service g) (str_result_info g) i) =
      sint (str_result_info g ! i) + vs ! i * (int i + 2) + (int i + 1) * 7"
    unfolding with_service_def u by (intro short_value) simp_all
  with v \<open>0 \<le> vs ! i * (int i + 2)\<close> show "0 \<le> sint (with_service (str_service g) (str_result_info g) i)" by simp
qed

text \<open>C26. A licence yields the services it was made for. When \<open>LIBLIC_createLic\<close> has written the
file for \<open>n\<close> services and none of the numbers overflows a \<open>short\<close>, \<open>LIBLIC_getServiceValue\<close>
reads back from that file, for each of the services, the value given.\<close>

theorem licence_round_trip:
  assumes "lic_wf g" "0 < n" "n \<le> 100" "length vs = n"
    and "prepare (int n) masked vs g = Some g1" "blocks_fit n vs g1"
    and "LIBLIC_createLic usable cap (int n) masked vs g = Some (g', buffer)" "k < n"
  shows "\<exists>g''. LIBLIC_getServiceValue (int k) g' = Some (g'', vs ! k)"
proof -
  let ?a = "take n (str_result_info g1)" and ?b = "take n (str_result_final g1)"
  let ?text = "line_from True ?a @ [NEWLINE] @ line_from True ?b"
  from prepare_shape [OF assms(5,1,3,4)] have g1: "lic_wf g1" "block_count g1 = int n"
    "take n (str_service g1) = map word_of_int vs"
    "?b = map (with_service (str_service g1) (str_result_info g1)) [0..<n]" by simp_all
  have len: "length ?a = n" "length ?b = n" using g1(1) assms(3) by (simp_all add: lic_wf_def)
  have ok: "line_ok ?a" "line_ok ?b"
    using assms(6) fitting_services(2) [OF assms(6) g1(3) assms(4) _ g1(1) assms(3)] g1(1) assms(3)
    unfolding g1(4) by (auto simp: line_ok_def list_all_length blocks_fit_def lic_wf_def)
  from assms(5,7) obtain b where "createLic usable cap g1 = Some b" "g' = createFile b g1"
    by (auto simp: LIBLIC_createLic_def elim!: bind_SomeE)
  with createLic_text [OF _ g1(2)] have g': "g' = createFile (encryptSimpleLic ?text) g1" by simp
  have "decryptFileLic g' = Some ?text"
    unfolding g' using line_plain ok by (intro file_round_trip) auto
  moreover have "lic_wf g'" using g1(1) by (simp add: g' lic_wf_def createFile_def)
  ultimately obtain g'' where "LIBLIC_getServiceValue (int k) g' = Some (g'', uint (the_service ?a ?b k))"
    using getServiceValue_lines [of g' ?a ?b n k] len ok assms(2,3,8) by blast
  moreover have "the_service ?a ?b k = str_service g1 ! k"
  proof (rule service_recovered)
    show "?b ! k = with_service (str_service g1) ?a k" using assms(8) unfolding g1(4) by (simp add: with_service_def)
  qed (use assms(6,8) fitting_services(1) [OF assms(6) g1(3) assms(4,8) g1(1) assms(3)] in \<open>auto simp: blocks_fit_def\<close>)
  moreover have "uint (str_service g1 ! k) = vs ! k"
    by (rule fitting_services(1) [OF assms(6) g1(3) assms(4,8) g1(1) assms(3)])
  ultimately show ?thesis by simp
qed

text \<open>Empty arrays, and a licence for two services on the mask \<open>12-34\<close>.\<close>

definition lic0 :: Lic where
  "lic0 = \<lparr>block_count = 0, str = [], str_result = [], str_result_info = replicate 100 0,
     str_result_final = replicate 100 0, str_service_info = replicate 100 0, str_service = replicate 100 0,
     licence_file = None\<rparr>"

lemma lic0_wf: "lic_wf lic0"
  by (simp add: lic_wf_def lic0_def)

lemma licence_round_trip_witness:
  "\<exists>g' buffer. LIBLIC_createLic (\<lambda>n. 16) 100 (int 2) [49, 50, 45, 51, 52] [5, 7] lic0 = Some (g', buffer) \<and>
     (\<exists>g''. LIBLIC_getServiceValue (int 1) g' = Some (g'', [5, 7] ! 1))"
proof -
  let ?m = "[49, 50, 45, 51, 52] :: byte list"
  have "prepare (int 2) ?m [5, 7] lic0 \<noteq> None" by code_simp
  then obtain g1 where g1: "prepare (int 2) ?m [5, 7] lic0 = Some g1" by blast
  have "blocks_fit 2 [5, 7] (the (prepare (int 2) ?m [5, 7] lic0))" by code_simp
  with g1 have fit: "blocks_fit 2 [5, 7] g1" by simp
  have "LIBLIC_createLic (\<lambda>n. 16) 100 (int 2) ?m [5, 7] lic0 \<noteq> None" by code_simp
  then obtain g' buffer where c: "LIBLIC_createLic (\<lambda>n. 16) 100 (int 2) ?m [5, 7] lic0 = Some (g', buffer)" by auto
  from licence_round_trip [OF lic0_wf _ _ _ g1 fit c, of 1] c show ?thesis by simp
qed

subsection \<open>Verification\<close>

lemma dec_chars: "c \<in> set (dec x) \<Longrightarrow> is_digit c \<or> c = DASH"
  using dec_nat_digits by (auto simp: dec_def list_all_iff split: if_splits)

lemma line_all_chars: "c \<in> set (line_from b vs) \<Longrightarrow> is_digit c \<or> c = DASH"
  by (induction b vs rule: line_from.induct) (auto dest: dec_chars split: if_splits)

lemma master_plain: "0 \<notin> set master_text \<and> 101 \<notin> set master_text"
  by (simp add: master_text_def)

lemma makeBlocks_keeps: "makeBlocks sc m g = Some g' \<Longrightarrow> licence_file g' = licence_file g \<and> str g' = str g"
  by (auto simp: makeBlocks_def elim!: bind_SomeE split: if_splits)

lemma setInfo_keeps: "setInfo sc g = Some g' \<Longrightarrow> licence_file g' = licence_file g \<and> str g' = str g \<and>
    block_count g' = block_count g \<and> str_result_info g' = str_result_info g"
  by (auto simp: setInfo_def elim!: bind_SomeE)

text \<open>C27. What verification verifies. \<open>LIBLIC_verifieLic\<close> answers 2 without a licence file;
otherwise 0 if the first line of the deciphered file is the line of blocks of this machine's mask
or the master string \<open>Dgroup-5231\<close>, and 1 if it is neither. So the second line, which holds the
services, is not checked, and the master string opens every machine: the file is then replaced by one
that names this machine and grants everything.\<close>

theorem verifieLic_checks_first_line:
  assumes "makeBlocks (int n) masked (init g) = Some g1"
    and "LIBLIC_verifieLic usable cap (int n) masked g = Some (g', buffer, r)"
  shows "let expected = line_from True (take n (str_result_info g1)) in
    (case decryptFileLic g of
       None \<Rightarrow> r = 2 \<and> licence_file g' = licence_file g
     | Some aux \<Rightarrow>
         if first_line aux = expected then r = 0 \<and> licence_file g' = licence_file g
         else if first_line aux = master_text then
           r = 0 \<and> decryptFileLic g' = Some (expected @ [NEWLINE] @ master_text)
         else r = 1 \<and> licence_file g' = licence_file g)"
proof -
  let ?ex = "line_from True (take n (str_result_info g1))"
  from assms obtain g2 where g2: "setInfo (int n) g1 = Some g2"
    by (auto simp: LIBLIC_verifieLic_def Let_def elim!: bind_SomeE)
  obtain info where g1: "g1 = init g\<lparr>block_count := int n, str_result_info := info\<rparr>"
    by (rule makeBlocks_shape [OF assms(1)]) simp_all
  have g2s: "block_count g2 = int n" "str_result_info g2 = str_result_info g1" "licence_file g2 = licence_file g" "str g2 = []"
    using setInfo_keeps [OF g2] by (simp_all add: g1)
  have dg: "decryptFileLic g2 = decryptFileLic g" using g2s(3) by (simp add: decryptFileLic_def)
  have plain: "0 \<notin> set (?ex @ [NEWLINE] @ master_text)" "101 \<notin> set (?ex @ [NEWLINE] @ master_text)"
    using line_all_chars digit_not(6,7) master_plain by fastforce+
  show ?thesis
  proof (cases "decryptFileLic g")
    case None
    with assms g2 dg g2s(3) show ?thesis by (auto simp: LIBLIC_verifieLic_def Let_def elim!: bind_SomeE)
  next
    case (Some aux)
    let ?g = "g2\<lparr>str := first_line aux\<rparr>"
    from assms g2 dg Some have rest: "(if first_line aux = ?ex then do { buffer \<leftarrow> strcat cap [] aux; Some (?g, buffer, 0) }
         else if first_line aux = master_text then do {
           buffer \<leftarrow> strcat cap ?ex [NEWLINE];
           buffer \<leftarrow> strcat cap buffer (first_line aux);
           Some (createFile (encryptSimpleLic buffer) ?g, encryptSimpleLic buffer, 0) }
         else Some (?g, ?ex, 1)) = Some (g', buffer, r)"
      by (auto simp: LIBLIC_verifieLic_def Let_def g2s elim!: bind_SomeE
          dest!: strcat_Some cat_blocks_text first_blocks_take)
    consider "first_line aux = ?ex" | "first_line aux \<noteq> ?ex" "first_line aux = master_text"
      | "first_line aux \<noteq> ?ex" "first_line aux \<noteq> master_text" by blast
    then show ?thesis
    proof cases
      case 1
      with rest Some g2s(3) show ?thesis by (auto elim!: bind_SomeE)
    next
      case 2
      with rest have "g' = createFile (encryptSimpleLic (?ex @ [NEWLINE] @ master_text)) ?g" "r = 0"
        by (auto elim!: bind_SomeE dest!: strcat_Some)
      with 2 Some file_round_trip [OF plain, of ?g] show ?thesis by simp
    next
      case 3
      with rest Some g2s(3) show ?thesis by auto
    qed
  qed
qed

lemma verifieLic_checks_first_line_witness:
  "\<exists>g' buffer. LIBLIC_verifieLic (\<lambda>n. 16) 100 (int 2) [49, 50, 45, 51, 52]
       (lic0\<lparr>licence_file := Some (encryptSimpleLic master_text)\<rparr>) = Some (g', buffer, 0) \<and>
     decryptFileLic g' = Some (line_from True [125, 141] @ [NEWLINE] @ master_text)"
proof -
  let ?m = "[49, 50, 45, 51, 52] :: byte list" and ?g = "lic0\<lparr>licence_file := Some (encryptSimpleLic master_text)\<rparr>"
  have "LIBLIC_verifieLic (\<lambda>n. 16) 100 (int 2) ?m ?g \<noteq> None" by code_simp
  then obtain g' buffer r where v: "LIBLIC_verifieLic (\<lambda>n. 16) 100 (int 2) ?m ?g = Some (g', buffer, r)" by auto
  have "makeBlocks (int 2) ?m (init ?g) \<noteq> None" by code_simp
  then obtain g1 where g1: "makeBlocks (int 2) ?m (init ?g) = Some g1" by blast
  have "take 2 (str_result_info (the (makeBlocks (int 2) ?m (init ?g)))) = [125, 141]" by code_simp
  with g1 have i: "take 2 (str_result_info g1) = [125, 141]" by simp
  have "decryptFileLic ?g = Some master_text" by code_simp
  moreover have "first_line master_text = master_text" "master_text \<noteq> line_from True [125, 141]" by code_simp+
  ultimately show ?thesis
    using verifieLic_checks_first_line [OF g1 v] v by (simp add: i)
qed

subsection \<open>The block that is too short\<close>

lemma long_number: "100 \<le> n \<Longrightarrow> 3 \<le> length (dec_nat n)"
proof -
  assume "100 \<le> n"
  then have "\<not> n < 10" "\<not> n div 10 < 10" by simp_all
  moreover have "1 \<le> length (dec_nat (n div 10 div 10))"
    using dec_nat_nonempty [of "n div 10 div 10"] by (cases "dec_nat (n div 10 div 10)") simp_all
  ultimately show ?thesis
    by (subst dec_nat.simps, subst dec_nat.simps) simp
qed

text \<open>The text of a block does not fit where it is printed. \<open>LIBLIC_createLic\<close> prints each number
into a block of \<open>malloc(block_count)\<close> bytes; if the allocator gives no more than was asked for,
creating a licence for the four services of the product is undefined as soon as the second block
is a number of three digits.\<close>

theorem createLic_overflows_aux:
  assumes "lic_wf g" "length vs = 4" "prepare (int 4) masked vs g = Some g1" "usable 4 = 4"
    and "100 \<le> sint (str_result_info g1 ! 1)"
  shows "LIBLIC_createLic usable cap (int 4) masked vs g = None"
proof -
  from prepare_shape [OF assms(3,1) _ assms(2)] have g1: "lic_wf g1" "block_count g1 = int 4" by simp_all
  obtain a c d where t: "take 4 (str_result_info g1) = [a, str_result_info g1 ! 1, c, d]"
  proof -
    have "length (take 4 (str_result_info g1)) = 4" using g1(1) by (simp add: lic_wf_def)
    then obtain a b c d where "take 4 (str_result_info g1) = [a, b, c, d]" using length_4 by blast
    moreover from this have "str_result_info g1 ! 1 = b" using nth_take [of 1 4 "str_result_info g1"] by simp
    ultimately show thesis by (intro that [of a c d]) (simp only:)
  qed
  let ?b = "str_result_info g1 ! 1"
  have "3 \<le> length (dec (sint ?b))" using long_number [of "nat (sint ?b)"] assms(5) by (simp add: dec_def)
  then have "cat_blocks 4 cap True [a, ?b, c, d] [] = None" for cap
    by (auto simp: Let_def bind_eq_None_conv)
  moreover have "first_blocks (int 4) (str_result_info g1) = Some [a, ?b, c, d]"
    using g1(1) t by (simp add: first_blocks_def lic_wf_def)
  moreover have "strcat cap [] [] = None \<or> strcat cap [] [] = Some []" by (simp add: strcat_def)
  ultimately have "two_lines 4 cap g1 = None"
    using g1(2) by (elim disjE) (simp_all add: two_lines_def del: cat_blocks.simps)
  then show ?thesis
    using assms(2,3,4) g1(2) by (simp add: LIBLIC_createLic_def createLic_def Let_def)
qed

lemma createLic_overflows_aux_witness:
  "LIBLIC_createLic (\<lambda>n. n) 100 (int 4) [49, 50, 45, 51, 52] [5, 7, 1, 1] lic0 = None"
proof -
  let ?m = "[49, 50, 45, 51, 52] :: byte list"
  have "prepare (int 4) ?m [5, 7, 1, 1] lic0 \<noteq> None" by code_simp
  then obtain g1 where g1: "prepare (int 4) ?m [5, 7, 1, 1] lic0 = Some g1" by blast
  have "100 \<le> sint (str_result_info (the (prepare (int 4) ?m [5, 7, 1, 1] lic0)) ! 1)" by code_simp
  with g1 have "100 \<le> sint (str_result_info g1 ! 1)" by simp
  with createLic_overflows_aux [OF lic0_wf _ g1] show ?thesis by simp
qed

end
