(* ===== verification/License_Host.thy ===== *)
theory License_Host
  imports License_Util
begin

text \<open>
  What a licence is bound to: \<open>LIBLIC_getDiscNumber\<close> and \<open>LIBLIC_getMacAddess\<close> of
  \<open>src/src/framework/system/license/LicUtil.c\<close>, and \<open>if_netInfo\<close> of \<open>net.c\<close> beside it.

  The answers of the system are parameters: the serial number of the disc, if there is one, and the
  network interfaces with their names and the bytes of their hardware addresses.
\<close>

subsection \<open>Hexadecimal\<close>

definition hex_digit :: "nat \<Rightarrow> byte" where
  "hex_digit k = (if k < 10 then of_nat (48 + k) else of_nat (55 + k))"

fun hex_nat :: "nat \<Rightarrow> byte list" where
  "hex_nat n = (if n < 16 then [hex_digit n] else hex_nat (n div 16) @ [hex_digit (n mod 16)])"

declare hex_nat.simps [simp del]

text \<open>Two digits, as \<open>%02X\<close> prints a byte.\<close>

definition hex2 :: "byte \<Rightarrow> byte list" where
  "hex2 b = [hex_digit (unat b div 16), hex_digit (unat b mod 16)]"

subsection \<open>The number of the disc\<close>

text \<open>
  The loop over the digits: \<open>i\<close> of them are done, and \<open>aux\<close> is the string so far, in an array of 50.
  After every fourth digit but the last a dash is appended.
\<close>

fun group_digits :: "nat \<Rightarrow> byte list \<Rightarrow> byte list \<Rightarrow> byte list option" where
  "group_digits i [] aux = Some aux"
| "group_digits i (c # cs) aux = do {
     aux \<leftarrow> strcat 50 aux [c];
     aux \<leftarrow> (if cs \<noteq> [] \<and> (i + 1) mod 4 = 0 then strcat 50 aux [DASH] else Some aux);
     group_digits (i + 1) cs aux
   }"

text \<open>The caller's buffer has room for \<open>cap\<close> bytes; 1 is returned if there is no such disc.\<close>

definition LIBLIC_getDiscNumber :: "nat \<Rightarrow> ulong option \<Rightarrow> byte list \<Rightarrow> Lic \<Rightarrow> (Lic \<times> byte list \<times> int) option" where
  "LIBLIC_getDiscNumber cap VolumeSerialNumber buffer g = do {
     let g = init g;
     case VolumeSerialNumber of
       None \<Rightarrow> Some (g, buffer, 1)
     | Some n \<Rightarrow> do {
         hexAux \<leftarrow> group_digits 0 (hex_nat (unat n)) [];
         buffer \<leftarrow> strcat cap [] hexAux;
         Some (g, buffer, 0)
       }
   }"

subsection \<open>The hardware address\<close>

record ifreq =
  ifr_name :: "byte list"
  ifr_hwaddr :: "byte list option"

text \<open>
  The loop over the interfaces. \<open>memcpy\<close> takes \<open>sizeof(struct sockaddr)\<close> bytes, 16, into the 10 of
  \<open>mac\<close>; an interface that does not answer is passed over.
\<close>

fun find_interface :: "byte list \<Rightarrow> ifreq list \<Rightarrow> nat \<Rightarrow> byte list \<Rightarrow> (byte list \<times> int) option" where
  "find_interface intf [] cap rslt = Some (rslt, 0)"
| "find_interface intf (p # ps) cap rslt =
     (if ifr_name p \<noteq> intf then find_interface intf ps cap rslt
      else (case ifr_hwaddr p of
          None \<Rightarrow> find_interface intf ps cap rslt
        | Some sa_data \<Rightarrow> do {
            xs \<leftarrow> block_read sa_data 0 16;
            mac \<leftarrow> block_write (replicate 10 0) 0 xs;
            rslt \<leftarrow> strcat cap [] (hex2 (mac ! 0) @ 58 # hex2 (mac ! 1) @ 58 # hex2 (mac ! 2) @ 58 #
                     hex2 (mac ! 3) @ 58 # hex2 (mac ! 4) @ 58 # hex2 (mac ! 5));
            Some (rslt, 0)
          }))"

text \<open>\<open>socket\<close> and the request for the list may fail; then the result is -1.\<close>

definition if_netInfo :: "int \<Rightarrow> ifreq list option \<Rightarrow> byte list \<Rightarrow> nat \<Rightarrow> byte list \<Rightarrow> (byte list \<times> int) option" where
  "if_netInfo fd ifc intf cap rslt =
     (if fd < 0 then Some (rslt, -1)
      else (case ifc of
          None \<Rightarrow> Some (rslt, -1)
        | Some reqs \<Rightarrow> find_interface intf reqs cap rslt))"

definition LIBLIC_getMacAddess :: "nat \<Rightarrow> int \<Rightarrow> ifreq list option \<Rightarrow> byte list \<Rightarrow> (byte list \<times> int) option" where
  "LIBLIC_getMacAddess cap fd ifc buffer = do {
     (strmac, i) \<leftarrow> if_netInfo fd ifc (map of_char ''eth0'') 100 [];
     buffer \<leftarrow> strcat cap [] strmac;
     Some (buffer, i)
   }"

subsection \<open>Properties\<close>

lemma hex_nat_length: "n < 16 ^ Suc k \<Longrightarrow> length (hex_nat n) \<le> Suc k"
proof (induction k arbitrary: n)
  case 0
  then show ?case by (subst hex_nat.simps) simp
next
  case (Suc k)
  show ?case
  proof (cases "n < 16")
    case True
    then show ?thesis by (subst hex_nat.simps) simp
  next
    case False
    have "n div 16 < 16 ^ Suc k" using Suc.prems by (simp add: less_mult_imp_div_less)
    from Suc.IH [OF this] False show ?thesis by (subst hex_nat.simps) simp
  qed
qed

text \<open>The digits, in groups of four.\<close>

fun grouped :: "byte list \<Rightarrow> byte list" where
  "grouped (a # b # c # d # e # xs) = [a, b, c, d, DASH] @ grouped (e # xs)"
| "grouped xs = xs"

lemma group_digits_four: "length cs \<le> 4 \<Longrightarrow> group_digits (Suc (Suc (Suc (Suc 0)))) cs [a, b, c, d, e] = Some ([a, b, c, d, e] @ cs)"
  by (cases cs rule: grouped.cases; simp add: strcat_def)

lemma group_digits_grouped: "length cs \<le> 8 \<Longrightarrow> group_digits 0 cs [] = Some (grouped cs)"
proof (cases cs rule: grouped.cases)
  case (1 a b c d e xs)
  assume "length cs \<le> 8"
  then have "group_digits (Suc (Suc (Suc (Suc 0)))) (e # xs) [a, b, c, d, DASH] = Some ([a, b, c, d, DASH] @ (e # xs))"
    using 1 by (intro group_digits_four) simp
  moreover have "grouped (e # xs) = e # xs" using 1 \<open>length cs \<le> 8\<close> by (cases "e # xs" rule: grouped.cases) simp_all
  ultimately show ?thesis using 1 by (simp add: strcat_def)
qed (simp_all add: strcat_def)

theorem getDiscNumber_groups:
  assumes "length (grouped (hex_nat (unat n))) < cap"
  shows "LIBLIC_getDiscNumber cap (Some n) buffer g = Some (init g, grouped (hex_nat (unat n)), 0)"
proof -
  have "unat n < 2 ^ 32" using unsigned_less [of n] by simp
  then have "length (hex_nat (unat n)) \<le> 8" using hex_nat_length [of "unat n" 7] by simp
  from group_digits_grouped [OF this] assms show ?thesis
    by (simp add: LIBLIC_getDiscNumber_def strcat_def)
qed

lemma find_interface_empty:
  "find_interface intf reqs cap [] = Some (r, i) \<Longrightarrow> r = [] \<and> i = 0"
proof (induction reqs)
  case (Cons p reqs)
  have "block_write (replicate 10 0) 0 xs = None" if "block_read s 0 16 = Some xs" for s xs :: "byte list"
    using that by (auto simp: block_read_def block_write_def split: if_splits)
  with Cons show ?case by (auto elim!: bind_SomeE split: if_splits option.splits)
qed simp

text \<open>
  The address that is returned is never that of the machine: copying it stores outside the array, and
  where that does not happen, because there is no such interface, the result is the empty string.
\<close>

theorem getMacAddess_empty:
  assumes "LIBLIC_getMacAddess cap fd ifc buffer = Some (addr, i)"
  shows "addr = []"
  using assms find_interface_empty
  by (fastforce simp: LIBLIC_getMacAddess_def if_netInfo_def strcat_def elim!: bind_SomeE split: if_splits option.splits)

end
