(* ===== verification/Aes_Cipher.thy ===== *)
theory Aes_Cipher
  imports Memory
begin

text \<open>
  The block cipher of the dynamic PINs, \<open>src/src/framework/cim/AESencript.c\<close>.

  The global variables of the file are a record; the state matrix is a list of its four rows, as
  \<open>state[row][column]\<close> has it. Each routine assigns in the order of the code. \<open>Cipher\<close> is called
  with pointers to at least 16 bytes of text and key; with fewer the copy leaves the array
  (\<open>None\<close>).
\<close>

definition Nb :: nat where [simp]: "Nb = 4"

record Aes =
  Nr :: nat
  Nk :: nat
  inb :: "byte list"
  out :: "byte list"
  state :: "byte list list"
  RoundKey :: "byte list"
  Key :: "byte list"

definition sbox :: "byte list" where
  "sbox =
    [0x63, 0x7c, 0x77, 0x7b, 0xf2, 0x6b, 0x6f, 0xc5, 0x30, 0x01, 0x67, 0x2b, 0xfe, 0xd7, 0xab, 0x76,
     0xca, 0x82, 0xc9, 0x7d, 0xfa, 0x59, 0x47, 0xf0, 0xad, 0xd4, 0xa2, 0xaf, 0x9c, 0xa4, 0x72, 0xc0,
     0xb7, 0xfd, 0x93, 0x26, 0x36, 0x3f, 0xf7, 0xcc, 0x34, 0xa5, 0xe5, 0xf1, 0x71, 0xd8, 0x31, 0x15,
     0x04, 0xc7, 0x23, 0xc3, 0x18, 0x96, 0x05, 0x9a, 0x07, 0x12, 0x80, 0xe2, 0xeb, 0x27, 0xb2, 0x75,
     0x09, 0x83, 0x2c, 0x1a, 0x1b, 0x6e, 0x5a, 0xa0, 0x52, 0x3b, 0xd6, 0xb3, 0x29, 0xe3, 0x2f, 0x84,
     0x53, 0xd1, 0x00, 0xed, 0x20, 0xfc, 0xb1, 0x5b, 0x6a, 0xcb, 0xbe, 0x39, 0x4a, 0x4c, 0x58, 0xcf,
     0xd0, 0xef, 0xaa, 0xfb, 0x43, 0x4d, 0x33, 0x85, 0x45, 0xf9, 0x02, 0x7f, 0x50, 0x3c, 0x9f, 0xa8,
     0x51, 0xa3, 0x40, 0x8f, 0x92, 0x9d, 0x38, 0xf5, 0xbc, 0xb6, 0xda, 0x21, 0x10, 0xff, 0xf3, 0xd2,
     0xcd, 0x0c, 0x13, 0xec, 0x5f, 0x97, 0x44, 0x17, 0xc4, 0xa7, 0x7e, 0x3d, 0x64, 0x5d, 0x19, 0x73,
     0x60, 0x81, 0x4f, 0xdc, 0x22, 0x2a, 0x90, 0x88, 0x46, 0xee, 0xb8, 0x14, 0xde, 0x5e, 0x0b, 0xdb,
     0xe0, 0x32, 0x3a, 0x0a, 0x49, 0x06, 0x24, 0x5c, 0xc2, 0xd3, 0xac, 0x62, 0x91, 0x95, 0xe4, 0x79,
     0xe7, 0xc8, 0x37, 0x6d, 0x8d, 0xd5, 0x4e, 0xa9, 0x6c, 0x56, 0xf4, 0xea, 0x65, 0x7a, 0xae, 0x08,
     0xba, 0x78, 0x25, 0x2e, 0x1c, 0xa6, 0xb4, 0xc6, 0xe8, 0xdd, 0x74, 0x1f, 0x4b, 0xbd, 0x8b, 0x8a,
     0x70, 0x3e, 0xb5, 0x66, 0x48, 0x03, 0xf6, 0x0e, 0x61, 0x35, 0x57, 0xb9, 0x86, 0xc1, 0x1d, 0x9e,
     0xe1, 0xf8, 0x98, 0x11, 0x69, 0xd9, 0x8e, 0x94, 0x9b, 0x1e, 0x87, 0xe9, 0xce, 0x55, 0x28, 0xdf,
     0x8c, 0xa1, 0x89, 0x0d, 0xbf, 0xe6, 0x42, 0x68, 0x41, 0x99, 0x2d, 0x0f, 0xb0, 0x54, 0xbb, 0x16]"

definition getSBoxValue :: "byte \<Rightarrow> byte" where
  "getSBoxValue num = sbox ! unat num"

definition Rcon :: "byte list" where
  "Rcon =
    [0x8d, 0x01, 0x02, 0x04, 0x08, 0x10, 0x20, 0x40, 0x80, 0x1b, 0x36, 0x6c, 0xd8, 0xab, 0x4d, 0x9a,
     0x2f, 0x5e, 0xbc, 0x63, 0xc6, 0x97, 0x35, 0x6a, 0xd4, 0xb3, 0x7d, 0xfa, 0xef, 0xc5, 0x91, 0x39,
     0x72, 0xe4, 0xd3, 0xbd, 0x61, 0xc2, 0x9f, 0x25, 0x4a, 0x94, 0x33, 0x66, 0xcc, 0x83, 0x1d, 0x3a,
     0x74, 0xe8, 0xcb, 0x8d, 0x01, 0x02, 0x04, 0x08, 0x10, 0x20, 0x40, 0x80, 0x1b, 0x36, 0x6c, 0xd8,
     0xab, 0x4d, 0x9a, 0x2f, 0x5e, 0xbc, 0x63, 0xc6, 0x97, 0x35, 0x6a, 0xd4, 0xb3, 0x7d, 0xfa, 0xef,
     0xc5, 0x91, 0x39, 0x72, 0xe4, 0xd3, 0xbd, 0x61, 0xc2, 0x9f, 0x25, 0x4a, 0x94, 0x33, 0x66, 0xcc,
     0x83, 0x1d, 0x3a, 0x74, 0xe8, 0xcb, 0x8d, 0x01, 0x02, 0x04, 0x08, 0x10, 0x20, 0x40, 0x80, 0x1b,
     0x36, 0x6c, 0xd8, 0xab, 0x4d, 0x9a, 0x2f, 0x5e, 0xbc, 0x63, 0xc6, 0x97, 0x35, 0x6a, 0xd4, 0xb3,
     0x7d, 0xfa, 0xef, 0xc5, 0x91, 0x39, 0x72, 0xe4, 0xd3, 0xbd, 0x61, 0xc2, 0x9f, 0x25, 0x4a, 0x94,
     0x33, 0x66, 0xcc, 0x83, 0x1d, 0x3a, 0x74, 0xe8, 0xcb, 0x8d, 0x01, 0x02, 0x04, 0x08, 0x10, 0x20,
     0x40, 0x80, 0x1b, 0x36, 0x6c, 0xd8, 0xab, 0x4d, 0x9a, 0x2f, 0x5e, 0xbc, 0x63, 0xc6, 0x97, 0x35,
     0x6a, 0xd4, 0xb3, 0x7d, 0xfa, 0xef, 0xc5, 0x91, 0x39, 0x72, 0xe4, 0xd3, 0xbd, 0x61, 0xc2, 0x9f,
     0x25, 0x4a, 0x94, 0x33, 0x66, 0xcc, 0x83, 0x1d, 0x3a, 0x74, 0xe8, 0xcb, 0x8d, 0x01, 0x02, 0x04,
     0x08, 0x10, 0x20, 0x40, 0x80, 0x1b, 0x36, 0x6c, 0xd8, 0xab, 0x4d, 0x9a, 0x2f, 0x5e, 0xbc, 0x63,
     0xc6, 0x97, 0x35, 0x6a, 0xd4, 0xb3, 0x7d, 0xfa, 0xef, 0xc5, 0x91, 0x39, 0x72, 0xe4, 0xd3, 0xbd,
     0x61, 0xc2, 0x9f, 0x25, 0x4a, 0x94, 0x33, 0x66, 0xcc, 0x83, 0x1d, 0x3a, 0x74, 0xe8, 0xcb]"

subsection \<open>The key schedule\<close>

text \<open>One iteration of the loop; \<open>rk\<close> is \<open>RoundKey\<close>.\<close>

definition expand_temp :: "nat \<Rightarrow> nat \<Rightarrow> byte list \<Rightarrow> byte list" where
  "expand_temp nk i rk =
     (let temp = map (\<lambda>j. rk ! ((i - 1) * 4 + j)) [0..<4] in
      if i mod nk = 0 then
        let temp = [temp ! 1, temp ! 2, temp ! 3, temp ! 0];
            temp = map getSBoxValue temp
        in temp[0 := temp ! 0 XOR Rcon ! (i div nk)]
      else if nk > 6 \<and> i mod nk = 4 then map getSBoxValue temp
      else temp)"

definition expand_step :: "nat \<Rightarrow> nat \<Rightarrow> byte list \<Rightarrow> byte list" where
  "expand_step nk i rk =
     (let temp = expand_temp nk i rk;
          rk = rk[i * 4 := rk ! ((i - nk) * 4) XOR temp ! 0];
          rk = rk[i * 4 + 1 := rk ! ((i - nk) * 4 + 1) XOR temp ! 1];
          rk = rk[i * 4 + 2 := rk ! ((i - nk) * 4 + 2) XOR temp ! 2]
      in rk[i * 4 + 3 := rk ! ((i - nk) * 4 + 3) XOR temp ! 3])"

definition KeyExpansion :: "Aes \<Rightarrow> Aes" where
  "KeyExpansion g =
     (let rk = foldl (\<lambda>rk i. rk[i * 4 := Key g ! (i * 4), i * 4 + 1 := Key g ! (i * 4 + 1),
             i * 4 + 2 := Key g ! (i * 4 + 2), i * 4 + 3 := Key g ! (i * 4 + 3)]) (RoundKey g) [0..<Nk g];
          rk = foldl (\<lambda>rk i. expand_step (Nk g) i rk) rk [Nk g..<Nb * (Nr g + 1)]
      in g\<lparr>RoundKey := rk\<rparr>)"

subsection \<open>The rounds\<close>

definition cell :: "byte list list \<Rightarrow> nat \<Rightarrow> nat \<Rightarrow> byte" where
  "cell st r c = st ! r ! c"

definition set_cell :: "nat \<Rightarrow> nat \<Rightarrow> byte \<Rightarrow> byte list list \<Rightarrow> byte list list" where
  "set_cell r c v st = st[r := (st ! r)[c := v]]"

definition AddRoundKey :: "nat \<Rightarrow> Aes \<Rightarrow> Aes" where
  "AddRoundKey round g = g\<lparr>state :=
     map (\<lambda>j. map (\<lambda>i. cell (state g) j i XOR RoundKey g ! (round * Nb * 4 + i * Nb + j)) [0..<4]) [0..<4]\<rparr>"

definition SubBytes :: "Aes \<Rightarrow> Aes" where
  "SubBytes g = g\<lparr>state := map (\<lambda>i. map (\<lambda>j. getSBoxValue (cell (state g) i j)) [0..<4]) [0..<4]\<rparr>"

definition ShiftRows :: "Aes \<Rightarrow> Aes" where
  "ShiftRows g =
     (let st = state g;
          temp = cell st 1 0;
          st = set_cell 1 0 (cell st 1 1) st;
          st = set_cell 1 1 (cell st 1 2) st;
          st = set_cell 1 2 (cell st 1 3) st;
          st = set_cell 1 3 temp st;
          temp = cell st 2 0;
          st = set_cell 2 0 (cell st 2 2) st;
          st = set_cell 2 2 temp st;
          temp = cell st 2 1;
          st = set_cell 2 1 (cell st 2 3) st;
          st = set_cell 2 3 temp st;
          temp = cell st 3 0;
          st = set_cell 3 0 (cell st 3 3) st;
          st = set_cell 3 3 (cell st 3 2) st;
          st = set_cell 3 2 (cell st 3 1) st;
          st = set_cell 3 1 temp st
      in g\<lparr>state := st\<rparr>)"

text \<open>The macro works on \<open>int\<close> and its value is stored into an \<open>unsigned char\<close>.\<close>

definition xtime :: "byte \<Rightarrow> byte" where
  "xtime x = word_of_int (push_bit 1 (uint x) XOR ((drop_bit 7 (uint x) AND 1) * 0x1b))"

definition mix_column :: "nat \<Rightarrow> byte list list \<Rightarrow> byte list list" where
  "mix_column i st =
     (let t = cell st 0 i;
          Tmp = cell st 0 i XOR cell st 1 i XOR cell st 2 i XOR cell st 3 i;
          Tm = xtime (cell st 0 i XOR cell st 1 i);
          st = set_cell 0 i (cell st 0 i XOR (Tm XOR Tmp)) st;
          Tm = xtime (cell st 1 i XOR cell st 2 i);
          st = set_cell 1 i (cell st 1 i XOR (Tm XOR Tmp)) st;
          Tm = xtime (cell st 2 i XOR cell st 3 i);
          st = set_cell 2 i (cell st 2 i XOR (Tm XOR Tmp)) st;
          Tm = xtime (cell st 3 i XOR t)
      in set_cell 3 i (cell st 3 i XOR (Tm XOR Tmp)) st)"

definition MixColumns :: "Aes \<Rightarrow> Aes" where
  "MixColumns g = g\<lparr>state := foldl (\<lambda>st i. mix_column i st) (state g) [0..<4]\<rparr>"

definition Cipher :: "byte list \<Rightarrow> byte list \<Rightarrow> Aes \<Rightarrow> (Aes \<times> byte list) option" where
  "Cipher plainText useKey g = do {
     let g = g\<lparr>Nr := 128\<rparr>;
     let g = g\<lparr>Nk := Nr g div 32\<rparr>;
     let g = g\<lparr>Nr := Nk g + 6\<rparr>;
     k \<leftarrow> block_read useKey 0 (int (Nk g * 4));
     p \<leftarrow> block_read plainText 0 (int (Nk g * 4));
     key \<leftarrow> block_write (Key g) 0 k;
     text \<leftarrow> block_write (inb g) 0 p;
     let g = KeyExpansion (g\<lparr>Key := key, inb := text\<rparr>);
     let g = g\<lparr>state := map (\<lambda>j. map (\<lambda>i. inb g ! (i * 4 + j)) [0..<4]) [0..<4]\<rparr>;
     let g = AddRoundKey 0 g;
     let g = foldl (\<lambda>g round. AddRoundKey round (MixColumns (ShiftRows (SubBytes g)))) g [1..<Nr g];
     let g = AddRoundKey (Nr g) (ShiftRows (SubBytes g));
     let g = g\<lparr>out := concat (map (\<lambda>i. map (\<lambda>j. cell (state g) j i) [0..<4]) [0..<4])\<rparr>;
     Some (g, out g)
   }"

definition aes_start :: Aes where
  "aes_start = \<lparr>Nr = 0, Nk = 0, inb = replicate 16 0, out = replicate 16 0, state = replicate 4 (replicate 4 0),
     RoundKey = replicate 240 0, Key = replicate 32 0\<rparr>"

end
