(* ===== verification/Aes_Field.thy ===== *)
theory Aes_Field
  imports Aes_Cipher
begin

text \<open>
  The arithmetic behind the cipher: multiplication in the field of 256 elements, and the S-box as the
  affine image of the inverses.
\<close>

subsection \<open>The field of 256 elements\<close>

text \<open>Multiplication by x modulo \<open>x^8 + x^4 + x^3 + x + 1\<close>, and by a polynomial \<open>a\<close>.\<close>

definition xt :: "byte \<Rightarrow> byte" where
  "xt b = (if bit b 7 then push_bit 1 b XOR 0x1b else push_bit 1 b)"

definition gmul_step :: "byte \<Rightarrow> byte \<Rightarrow> byte \<Rightarrow> nat \<Rightarrow> byte" where
  "gmul_step a b s i = (if bit a i then xt s XOR b else xt s)"

definition gmul :: "byte \<Rightarrow> byte \<Rightarrow> byte" where
  "gmul a b = foldl (gmul_step a b) 0 [7, 6, 5, 4, 3, 2, 1, 0]"

text \<open>The affine map of the S-box: each bit is a sum of five bits, plus the constant 0x63.\<close>

definition rotl :: "nat \<Rightarrow> byte \<Rightarrow> byte" where
  "rotl n y = push_bit n y OR drop_bit (8 - n) y"

definition affine :: "byte \<Rightarrow> byte" where
  "affine y = y XOR rotl 1 y XOR rotl 2 y XOR rotl 3 y XOR rotl 4 y XOR 0x63"

lemma xt_xor: "xt (a XOR b) = xt a XOR xt b"
  unfolding xt_def by (rule bit_word_eqI) (auto simp: bit_simps)

lemma xtime_xt: "xtime x = xt x"
proof -
  have m: "drop_bit 7 (uint x) AND 1 = (if bit x 7 then 1 else 0)"
  proof (cases "bit x 7")
    case True
    then have "bit (uint x) 7" by (simp add: bit_simps)
    then show ?thesis using True by (simp add: bit_iff_and_drop_bit_eq_1)
  next
    case False
    then have "\<not> bit (uint x) 7" by (simp add: bit_simps)
    then have "drop_bit 7 (uint x) AND 1 \<noteq> 1" by (simp add: bit_iff_and_drop_bit_eq_1)
    then show ?thesis using False by (simp add: and_one_eq)
  qed
  have x: "word_of_int (a XOR c) = (word_of_int a XOR word_of_int c :: byte)" for a c
    by (rule bit_word_eqI) (simp add: bit_simps)
  show ?thesis
    unfolding xtime_def xt_def m x by simp
qed

lemma xt_0 [simp]: "xt 0 = 0"
  by (simp add: xt_def)

lemma gmul_small: "gmul 1 b = b" "gmul 2 b = xt b" "gmul 3 b = xt b XOR b"
  by (simp_all add: gmul_def gmul_step_def)

subsection \<open>The S-box\<close>

definition inverses :: "byte list" where
  "inverses =
    [0, 1, 141, 246, 203, 82, 123, 209, 232, 79, 41, 192, 176, 225, 229, 199, 116, 180, 170, 75,
     153, 43, 96, 95, 88, 63, 253, 204, 255, 64, 238, 178, 58, 110, 90, 241, 85, 77, 168, 201, 193,
     10, 152, 21, 48, 68, 162, 194, 44, 69, 146, 108, 243, 57, 102, 66, 242, 53, 32, 111, 119, 187,
     89, 25, 29, 254, 55, 103, 45, 49, 245, 105, 167, 100, 171, 19, 84, 37, 233, 9, 237, 92, 5, 202,
     76, 36, 135, 191, 24, 62, 34, 240, 81, 236, 97, 23, 22, 94, 175, 211, 73, 166, 54, 67, 244, 71,
     145, 223, 51, 147, 33, 59, 121, 183, 151, 133, 16, 181, 186, 60, 182, 112, 208, 6, 161, 250,
     129, 130, 131, 126, 127, 128, 150, 115, 190, 86, 155, 158, 149, 217, 247, 2, 185, 164, 222,
     106, 50, 109, 216, 138, 132, 114, 42, 20, 159, 136, 249, 220, 137, 154, 251, 124, 46, 195, 143,
     184, 101, 72, 38, 200, 18, 74, 206, 231, 210, 98, 12, 224, 31, 239, 17, 117, 120, 113, 165,
     142, 118, 61, 189, 188, 134, 87, 11, 40, 47, 163, 218, 212, 228, 15, 169, 39, 83, 4, 27, 252,
     172, 230, 122, 7, 174, 99, 197, 219, 226, 234, 148, 139, 196, 213, 157, 248, 144, 107, 177, 13,
     214, 235, 198, 14, 207, 173, 8, 78, 215, 227, 93, 80, 30, 179, 91, 35, 56, 52, 104, 70, 3, 140,
     221, 156, 125, 160, 205, 26, 65, 28]"

definition inv_sbox :: "byte list" where
  "inv_sbox =
    [82, 9, 106, 213, 48, 54, 165, 56, 191, 64, 163, 158, 129, 243, 215, 251, 124, 227, 57, 130,
     155, 47, 255, 135, 52, 142, 67, 68, 196, 222, 233, 203, 84, 123, 148, 50, 166, 194, 35, 61,
     238, 76, 149, 11, 66, 250, 195, 78, 8, 46, 161, 102, 40, 217, 36, 178, 118, 91, 162, 73, 109,
     139, 209, 37, 114, 248, 246, 100, 134, 104, 152, 22, 212, 164, 92, 204, 93, 101, 182, 146, 108,
     112, 72, 80, 253, 237, 185, 218, 94, 21, 70, 87, 167, 141, 157, 132, 144, 216, 171, 0, 140,
     188, 211, 10, 247, 228, 88, 5, 184, 179, 69, 6, 208, 44, 30, 143, 202, 63, 15, 2, 193, 175,
     189, 3, 1, 19, 138, 107, 58, 145, 17, 65, 79, 103, 220, 234, 151, 242, 207, 206, 240, 180, 230,
     115, 150, 172, 116, 34, 231, 173, 53, 133, 226, 249, 55, 232, 28, 117, 223, 110, 71, 241, 26,
     113, 29, 41, 197, 137, 111, 183, 98, 14, 170, 24, 190, 27, 252, 86, 62, 75, 198, 210, 121, 32,
     154, 219, 192, 254, 120, 205, 90, 244, 31, 221, 168, 51, 136, 7, 199, 49, 177, 18, 16, 89, 39,
     128, 236, 95, 96, 81, 127, 169, 25, 181, 74, 13, 45, 229, 122, 159, 147, 201, 156, 239, 160,
     224, 59, 77, 174, 42, 245, 176, 200, 235, 187, 60, 131, 83, 153, 97, 23, 43, 4, 126, 186, 119,
     214, 38, 225, 105, 20, 99, 85, 33, 12, 125]"

lemma sbox_affine: "sbox = map affine inverses"
  by (simp add: sbox_def inverses_def affine_def rotl_def)

lemma all_bytes: "(map of_nat [0..<256] :: byte list) = 0 # 1 # map of_nat [2..<256]"
proof -
  have "[0..<256] = 0 # 1 # [2..<256]" by (simp add: upt_conv_Cons numeral_2_eq_2)
  then have "map of_nat [0..<256] = (map of_nat (0 # 1 # [2..<256]) :: byte list)" by (rule arg_cong)
  then show ?thesis by simp
qed

lemma inv_sbox_table: "map (\<lambda>e. inv_sbox ! unat e) sbox = map of_nat [0..<256]"
  unfolding all_bytes by (simp add: inv_sbox_def sbox_def upt_rec_numeral)

lemma length_sbox: "length sbox = 256" "length inverses = 256"
  by (simp_all add: sbox_def inverses_def)

lemma inv_sbox_sbox: "inv_sbox ! unat (getSBoxValue b) = b"
proof -
  have "inv_sbox ! unat (sbox ! unat b) = map (\<lambda>e. inv_sbox ! unat e) sbox ! unat b"
    by (simp add: length_sbox)
  also have "\<dots> = b" by (simp add: inv_sbox_table)
  finally show ?thesis by (simp add: getSBoxValue_def)
qed

lemma sbox_inj: "getSBoxValue a = getSBoxValue b \<Longrightarrow> a = b"
  by (metis inv_sbox_sbox)

lemma xt_eval: "xt b = (if b < 128 then 2 * b else 2 * (b - 128) XOR 0x1b)"
proof -
  have m: "(128 :: byte) = 2 ^ 7" by simp
  have "bit b 7 \<longleftrightarrow> \<not> b < 128"
  proof -
    have "bit b 7 \<longleftrightarrow> bit (unat b) 7" by (simp add: bit_unsigned_iff)
    also have "\<dots> \<longleftrightarrow> odd (unat b div 2 ^ 7)" by (simp add: bit_iff_odd)
    also have "\<dots> \<longleftrightarrow> odd (unat b div 128)" by simp
    also have "\<dots> \<longleftrightarrow> \<not> unat b < 128"
    proof -
      have "unat b div 128 = 0 \<or> unat b div 128 = 1" using unat_byte_less [of b] by linarith
      then show ?thesis by auto
    qed
    also have "\<dots> \<longleftrightarrow> \<not> b < 128" by (simp add: word_less_nat_alt)
    finally show ?thesis .
  qed
  moreover have "2 * (b - 128) = push_bit 1 b" by (simp add: push_bit_eq_mult)
  moreover have "2 * b = push_bit 1 b" by (simp add: push_bit_eq_mult)
  ultimately show ?thesis by (simp only: xt_def) simp
qed

definition inverse_pair :: "byte \<Rightarrow> byte \<Rightarrow> bool" where
  "inverse_pair x y \<longleftrightarrow> x = 0 \<or> gmul x y = 1"

lemma inverse_table: "list_all2 inverse_pair (map of_nat [0..<256]) inverses"
  unfolding all_bytes
  by (simp add: inverses_def upt_rec_numeral inverse_pair_def gmul_def gmul_step_def xt_eval)

text \<open>Each entry of the S-box is the affine image of the inverse of its index (of 0, at index 0).\<close>

lemma sbox_is_rijndael: "\<exists>y. getSBoxValue x = affine y \<and> (if x = 0 then y = 0 else gmul x y = 1)"
proof (intro exI conjI)
  show "getSBoxValue x = affine (inverses ! unat x)" by (simp add: getSBoxValue_def sbox_affine length_sbox)
  have "x = 0 \<or> gmul x (inverses ! unat x) = 1"
    using list_all2_nthD [OF inverse_table, of "unat x"] by (simp add: inverse_pair_def)
  moreover have "inverses ! unat (0 :: byte) = 0" by (simp add: inverses_def)
  ultimately show "if x = 0 then inverses ! unat x = 0 else gmul x (inverses ! unat x) = 1" by auto
qed

end
