(* ===== verification/Aes_Props.thy ===== *)
theory Aes_Props
  imports Aes_Field
begin

text \<open>
  Correctness of the cipher: it is AES with a key of 128 bits, stated on blocks of 16 bytes in the
  order of FIPS 197, and for each key it is a permutation of the blocks.
\<close>

subsection \<open>AES on blocks\<close>

text \<open>Byte \<open>4c + r\<close> of a block is row \<open>r\<close> of column \<open>c\<close>.\<close>

definition sub_block :: "byte list \<Rightarrow> byte list" where
  "sub_block b = map getSBoxValue b"

definition shift_block :: "byte list \<Rightarrow> byte list" where
  "shift_block b = map (\<lambda>n. b ! (4 * ((n div 4 + n mod 4) mod 4) + n mod 4)) [0..<16]"

definition mix_col :: "byte \<Rightarrow> byte \<Rightarrow> byte \<Rightarrow> byte \<Rightarrow> byte list" where
  "mix_col a b c d =
     [gmul 2 a XOR gmul 3 b XOR c XOR d, a XOR gmul 2 b XOR gmul 3 c XOR d,
      a XOR b XOR gmul 2 c XOR gmul 3 d, gmul 3 a XOR b XOR c XOR gmul 2 d]"

definition mix_block :: "byte list \<Rightarrow> byte list" where
  "mix_block b = concat (map (\<lambda>c. mix_col (b ! (4 * c)) (b ! (4 * c + 1)) (b ! (4 * c + 2)) (b ! (4 * c + 3))) [0..<4])"

definition xor_block :: "byte list \<Rightarrow> byte list \<Rightarrow> byte list" where
  "xor_block k b = map2 (\<lambda>x y. y XOR x) k b"

text \<open>The words of the expanded key.\<close>

primrec rcon :: "nat \<Rightarrow> byte" where
  "rcon 0 = 1"
| "rcon (Suc n) = xt (rcon n)"

fun key_word :: "byte list \<Rightarrow> nat \<Rightarrow> byte list" where
  "key_word k i =
     (if i < 4 then take 4 (drop (4 * i) k)
      else xor_block (key_word k (i - 4))
        (let w = key_word k (i - 1) in
         if i mod 4 = 0 then
           [getSBoxValue (w ! 1) XOR rcon (i div 4 - 1), getSBoxValue (w ! 2), getSBoxValue (w ! 3), getSBoxValue (w ! 0)]
         else w))"

declare key_word.simps [simp del]

definition round_key :: "byte list \<Rightarrow> nat \<Rightarrow> byte list" where
  "round_key k r = concat (map (key_word k) [4 * r..<4 * r + 4])"

definition aes128 :: "byte list \<Rightarrow> byte list \<Rightarrow> byte list" where
  "aes128 k b =
     (let b = xor_block (round_key k 0) b;
          b = foldl (\<lambda>b r. xor_block (round_key k r) (mix_block (shift_block (sub_block b)))) b [1..<10]
      in xor_block (round_key k 10) (shift_block (sub_block b)))"

subsection \<open>The state matrix\<close>

definition matrix :: "byte list \<Rightarrow> byte list list" where
  "matrix b = map (\<lambda>j. map (\<lambda>i. b ! (i * 4 + j)) [0..<4]) [0..<4]"

lemma length_16:
  assumes "length b = 16"
  obtains b0 b1 b2 b3 b4 b5 b6 b7 b8 b9 b10 b11 b12 b13 b14 b15 where
    "b = [b0, b1, b2, b3, b4, b5, b6, b7, b8, b9, b10, b11, b12, b13, b14, b15]"
  using assms by (auto simp: numeral_eq_Suc length_Suc_conv)

lemma upts: "[0..<4] = [0, 1, 2, 3]" "[0..<16] = [0, 1, 2, 3, 4, 5, 6, 7, 8, 9, 10, 11, 12, 13, 14, 15]"
  by (simp_all add: upt_rec)

lemma matrix_16:
  "matrix [b0, b1, b2, b3, b4, b5, b6, b7, b8, b9, b10, b11, b12, b13, b14, b15] =
     [[b0, b4, b8, b12], [b1, b5, b9, b13], [b2, b6, b10, b14], [b3, b7, b11, b15]]"
  by (simp add: matrix_def upts)

lemma block_lengths [simp]:
  "length (sub_block b) = length b" "length (shift_block b) = 16" "length (mix_block b) = 16"
  by (simp_all add: sub_block_def shift_block_def mix_block_def mix_col_def upts)

lemma length_xor_block [simp]: "length (xor_block k b) = min (length k) (length b)"
  by (simp add: xor_block_def)

lemma SubBytes_block: "length b = 16 \<Longrightarrow> state g = matrix b \<Longrightarrow> state (SubBytes g) = matrix (sub_block b)"
  by (erule length_16) (simp add: SubBytes_def sub_block_def cell_def upts matrix_16)

lemma ShiftRows_block: "length b = 16 \<Longrightarrow> state g = matrix b \<Longrightarrow> state (ShiftRows g) = matrix (shift_block b)"
  by (erule length_16)
    (simp add: ShiftRows_def shift_block_def cell_def set_cell_def upts matrix_16 Let_def)

lemma xor_left_cancel [simp]: "a XOR (a XOR b) = b" for a b :: "'a::len word"
  by (simp flip: xor.assoc)

text \<open>The assignments of \<open>MixColumns\<close>, which share sums, are the product with the matrix of FIPS 197.\<close>

lemma mix_sums:
  "a XOR (xt (a XOR b) XOR (a XOR b XOR c XOR d)) = gmul 2 a XOR gmul 3 b XOR c XOR d"
  "b XOR (xt (b XOR c) XOR (a XOR b XOR c XOR d)) = a XOR gmul 2 b XOR gmul 3 c XOR d"
  "c XOR (xt (c XOR d) XOR (a XOR b XOR c XOR d)) = a XOR b XOR gmul 2 c XOR gmul 3 d"
  "d XOR (xt (d XOR a) XOR (a XOR b XOR c XOR d)) = gmul 3 a XOR b XOR c XOR gmul 2 d"
  by (simp_all add: gmul_small xt_xor xor.assoc xor.commute xor.left_commute)

lemma mix_column_0:
  "mix_column 0 [[a, x1, x2, x3], [b, y1, y2, y3], [c, z1, z2, z3], [d, w1, w2, w3]] =
     (case mix_col a b c d of [a, b, c, d] \<Rightarrow> [[a, x1, x2, x3], [b, y1, y2, y3], [c, z1, z2, z3], [d, w1, w2, w3]] | _ \<Rightarrow> [])"
  by (simp add: mix_column_def cell_def set_cell_def Let_def xtime_xt mix_sums mix_col_def)

lemma mix_column_1:
  "mix_column (Suc 0) [[x0, a, x2, x3], [y0, b, y2, y3], [z0, c, z2, z3], [w0, d, w2, w3]] =
     (case mix_col a b c d of [a, b, c, d] \<Rightarrow> [[x0, a, x2, x3], [y0, b, y2, y3], [z0, c, z2, z3], [w0, d, w2, w3]] | _ \<Rightarrow> [])"
  by (simp add: mix_column_def cell_def set_cell_def Let_def xtime_xt mix_sums mix_col_def)

lemma mix_column_2:
  "mix_column 2 [[x0, x1, a, x3], [y0, y1, b, y3], [z0, z1, c, z3], [w0, w1, d, w3]] =
     (case mix_col a b c d of [a, b, c, d] \<Rightarrow> [[x0, x1, a, x3], [y0, y1, b, y3], [z0, z1, c, z3], [w0, w1, d, w3]] | _ \<Rightarrow> [])"
  by (simp add: mix_column_def cell_def set_cell_def Let_def xtime_xt mix_sums mix_col_def)

lemma mix_column_3:
  "mix_column 3 [[x0, x1, x2, a], [y0, y1, y2, b], [z0, z1, z2, c], [w0, w1, w2, d]] =
     (case mix_col a b c d of [a, b, c, d] \<Rightarrow> [[x0, x1, x2, a], [y0, y1, y2, b], [z0, z1, z2, c], [w0, w1, w2, d]] | _ \<Rightarrow> [])"
  by (simp add: mix_column_def cell_def set_cell_def Let_def xtime_xt mix_sums mix_col_def)

lemma MixColumns_block: "length b = 16 \<Longrightarrow> state g = matrix b \<Longrightarrow> state (MixColumns g) = matrix (mix_block b)"
  by (erule length_16)
    (simp add: MixColumns_def mix_block_def upts matrix_16 mix_column_0 mix_column_1 mix_column_2 mix_column_3 mix_col_def)

lemma AddRoundKey_block:
  assumes "length b = 16" "state g = matrix b" "length k = 16" "\<And>n. n < 16 \<Longrightarrow> RoundKey g ! (16 * r + n) = k ! n"
  shows "state (AddRoundKey r g) = matrix (xor_block k b)"
proof -
  have "state (AddRoundKey r g) = map (\<lambda>j. map (\<lambda>i. b ! (i * 4 + j) XOR k ! (i * 4 + j)) [0..<4]) [0..<4]"
    using assms(2) assms(4) by (simp add: AddRoundKey_def cell_def matrix_def mult.commute add.assoc)
  also have "\<dots> = matrix (xor_block k b)"
    using assms(1,3) by (simp add: matrix_def xor_block_def)
  finally show ?thesis .
qed

subsection \<open>The key schedule\<close>

lemma rcon_values:
  "rcon (Suc 0) = 2" "rcon 2 = 4" "rcon 3 = 8" "rcon 4 = 16" "rcon 5 = 32" "rcon 6 = 64" "rcon 7 = 128" "rcon 8 = 27" "rcon 9 = 54"
proof -
  have s: "rcon n = xt (rcon (n - 1))" if "0 < n" for n using that by (cases n) simp_all
  show r1: "rcon (Suc 0) = 2" by (simp add: xt_eval)
  show r2: "rcon 2 = 4" using s [of 2] r1 by (simp add: xt_eval del: rcon.simps)
  show r3: "rcon 3 = 8" using s [of 3] r2 by (simp add: xt_eval del: rcon.simps)
  show r4: "rcon 4 = 16" using s [of 4] r3 by (simp add: xt_eval del: rcon.simps)
  show r5: "rcon 5 = 32" using s [of 5] r4 by (simp add: xt_eval del: rcon.simps)
  show r6: "rcon 6 = 64" using s [of 6] r5 by (simp add: xt_eval del: rcon.simps)
  show r7: "rcon 7 = 128" using s [of 7] r6 by (simp add: xt_eval del: rcon.simps)
  show r8: "rcon 8 = 27" using s [of 8] r7 by (simp add: xt_eval del: rcon.simps)
  show r9: "rcon 9 = 54" using s [of 9] r8 by (simp add: xt_eval del: rcon.simps)
qed

lemma Rcon_powers: "n < 10 \<Longrightarrow> Rcon ! Suc n = rcon n"
proof -
  assume "n < 10"
  then have "n = 0 \<or> n = Suc 0 \<or> n = 2 \<or> n = 3 \<or> n = 4 \<or> n = 5 \<or> n = 6 \<or> n = 7 \<or> n = 8 \<or> n = 9" by arith
  then show ?thesis by (elim disjE) (simp_all add: rcon_values Rcon_def xt_eval)
qed

lemma length_key_word: "length k = 16 \<Longrightarrow> length (key_word k i) = 4"
proof (induction k i rule: key_word.induct)
  case (1 k i)
  then show ?case by (subst key_word.simps) (auto simp: Let_def)
qed

definition rk_ok :: "byte list \<Rightarrow> nat \<Rightarrow> byte list \<Rightarrow> bool" where
  "rk_ok k n rk \<longleftrightarrow> length rk = 240 \<and> (\<forall>m < n. \<forall>j < 4. rk ! (4 * m + j) = key_word k m ! j)"

text \<open>The four assignments of an iteration extend the schedule by one word.\<close>

lemma xor_block_nth: "j < length k \<Longrightarrow> j < length b \<Longrightarrow> xor_block k b ! j = b ! j XOR k ! j"
  by (simp add: xor_block_def)

lemma expand_temp_word:
  assumes "rk_ok k i rk" "length k = 16" "4 \<le> i" "i < 44"
  shows "expand_temp 4 i rk =
    (let w = key_word k (i - 1) in
     if i mod 4 = 0 then
       [getSBoxValue (w ! 1) XOR rcon (i div 4 - 1), getSBoxValue (w ! 2), getSBoxValue (w ! 3), getSBoxValue (w ! 0)]
     else w)"
proof -
  have w: "map (\<lambda>j. rk ! ((i - 1) * 4 + j)) [0..<4] = key_word k (i - 1)"
  proof (rule nth_equalityI)
    fix j assume "j < length (map (\<lambda>j. rk ! ((i - 1) * 4 + j)) [0..<4])"
    then have "j < 4" by simp
    moreover have "i - 1 < i" using assms(3) by simp
    ultimately have "rk ! (4 * (i - 1) + j) = key_word k (i - 1) ! j" using assms(1) unfolding rk_ok_def by blast
    then show "map (\<lambda>j. rk ! ((i - 1) * 4 + j)) [0..<4] ! j = key_word k (i - 1) ! j"
      using \<open>j < 4\<close> by (simp add: mult.commute)
  qed (simp add: length_key_word assms(2))
  obtain a b c d where abcd: "key_word k (i - 1) = [a, b, c, d]"
    using length_4 [OF length_key_word [OF assms(2), of "i - 1"]] by auto
  show ?thesis
  proof (cases "i mod 4 = 0")
    case True
    with assms(3,4) have "i div 4 - 1 < 10" "Suc (i div 4 - 1) = i div 4" by auto
    with Rcon_powers [of "i div 4 - 1"] have "Rcon ! (i div 4) = rcon (i div 4 - 1)" by simp
    with True show ?thesis unfolding expand_temp_def w by (simp add: Let_def abcd)
  next
    case False
    then show ?thesis unfolding expand_temp_def w by (simp add: Let_def)
  qed
qed

lemma expand_step_word:
  assumes ok: "rk_ok k i rk" and k: "length k = 16" and i: "4 \<le> i" "i < 44"
  shows "rk_ok k (Suc i) (expand_step 4 i rk)"
proof -
  let ?t = "expand_temp 4 i rk"
  have len: "length rk = 240" and old: "\<And>m j. m < i \<Longrightarrow> j < 4 \<Longrightarrow> rk ! (4 * m + j) = key_word k m ! j"
    using ok by (auto simp: rk_ok_def)
  have t4: "length ?t = 4"
    unfolding expand_temp_word [OF assms] by (simp add: Let_def length_key_word k)
  have w: "key_word k i = xor_block (key_word k (i - 4)) ?t"
    using i(1) unfolding expand_temp_word [OF assms] by (subst key_word.simps) simp
  have step: "expand_step 4 i rk = rk[i * 4 := rk ! ((i - 4) * 4) XOR ?t ! 0,
      i * 4 + 1 := rk ! ((i - 4) * 4 + 1) XOR ?t ! 1, i * 4 + 2 := rk ! ((i - 4) * 4 + 2) XOR ?t ! 2,
      i * 4 + 3 := rk ! ((i - 4) * 4 + 3) XOR ?t ! 3]"
    using i by (simp add: expand_step_def Let_def)
  have new: "expand_step 4 i rk ! (4 * i + j) = key_word k i ! j" if "j < 4" for j
  proof -
    have o: "rk ! ((i - 4) * 4 + j) = key_word k (i - 4) ! j" using old [of "i - 4" j] i that by (simp add: mult.commute)
    have "key_word k i ! j = ?t ! j XOR key_word k (i - 4) ! j"
      unfolding w using that t4 by (simp add: xor_block_nth length_key_word k)
    moreover have "expand_step 4 i rk ! (4 * i + j) = rk ! ((i - 4) * 4 + j) XOR ?t ! j"
    proof -
      have "j = 0 \<or> j = 1 \<or> j = 2 \<or> j = 3" using that by arith
      then show ?thesis unfolding step using len i by (elim disjE) (simp_all add: mult.commute nth_list_update)
    qed
    ultimately show ?thesis using o by (simp add: xor.commute)
  qed
  have kept: "expand_step 4 i rk ! (4 * m + j) = rk ! (4 * m + j)" if "m < i" "j < 4" for m j
    unfolding step using that by (simp add: nth_list_update)
  show ?thesis
    unfolding rk_ok_def
  proof (intro conjI allI impI)
    show "length (expand_step 4 i rk) = 240" unfolding step using len by simp
    fix m j assume "m < Suc i" "j < (4 :: nat)"
    with new kept old show "expand_step 4 i rk ! (4 * m + j) = key_word k m ! j"
      by (cases "m = i") simp_all
  qed
qed

lemma expand_words:
  "rk_ok k 4 rk \<Longrightarrow> length k = 16 \<Longrightarrow> 4 \<le> n \<Longrightarrow> n \<le> 44 \<Longrightarrow> rk_ok k n (foldl (\<lambda>rk i. expand_step 4 i rk) rk [4..<n])"
proof (induction n)
  case (Suc n)
  show ?case
  proof (cases "n = 3")
    case True
    with Suc.prems show ?thesis by simp
  next
    case False
    with Suc.prems have "4 \<le> n" by simp
    with Suc expand_step_word [of k n] show ?thesis by simp
  qed
qed simp

lemma below_16:
  "n < 16 \<Longrightarrow> n = 0 \<or> n = Suc 0 \<or> n = 2 \<or> n = 3 \<or> n = 4 \<or> n = 5 \<or> n = 6 \<or> n = 7 \<or>
     n = 8 \<or> n = 9 \<or> n = 10 \<or> n = 11 \<or> n = 12 \<or> n = 13 \<or> n = 14 \<or> n = 15" for n :: nat
  by arith

text \<open>The first loop copies the key.\<close>

lemma key_words_0:
  assumes k: "length k = 16" and len: "length rk = 240"
  shows "rk_ok k 4 (foldl (\<lambda>rk i. rk[i * 4 := (k @ rest) ! (i * 4), i * 4 + 1 := (k @ rest) ! (i * 4 + 1),
             i * 4 + 2 := (k @ rest) ! (i * 4 + 2), i * 4 + 3 := (k @ rest) ! (i * 4 + 3)]) rk [0..<4])"
    (is "rk_ok k 4 ?rk")
proof -
  have "?rk ! n = k ! n" if "n < 16" for n
    using below_16 [OF that] k len by (elim disjE) (simp_all add: upts nth_append numeral_2_eq_2)
  moreover have "key_word k m ! j = k ! (4 * m + j)" if "m < 4" "j < 4" for m j
    using that k by (subst key_word.simps) simp
  ultimately show ?thesis using len unfolding rk_ok_def by (simp add: upts)
qed

lemma KeyExpansion_words:
  assumes "length k = 16" "Key g = k @ rest" "length (RoundKey g) = 240" "Nk g = 4" "Nr g = 10"
  shows "\<exists>rk. KeyExpansion g = g\<lparr>RoundKey := rk\<rparr> \<and> rk_ok k 44 rk"
proof -
  have n: "Nb * (Nr g + 1) = 44" by (simp add: assms(5))
  have "rk_ok k 44 (foldl (\<lambda>rk i. expand_step 4 i rk) (foldl (\<lambda>rk i. rk[i * 4 := (k @ rest) ! (i * 4),
      i * 4 + 1 := (k @ rest) ! (i * 4 + 1), i * 4 + 2 := (k @ rest) ! (i * 4 + 2),
      i * 4 + 3 := (k @ rest) ! (i * 4 + 3)]) (RoundKey g) [0..<4]) [4..<44])"
    by (rule expand_words [OF key_words_0 [OF assms(1,3)] assms(1)]) simp_all
  then show ?thesis
    unfolding KeyExpansion_def Let_def n assms(2,4) by (intro exI conjI) (rule refl)
qed

lemma round_key_nth:
  assumes "length k = 16" "n < 16"
  shows "length (round_key k r) = 16" "round_key k r ! n = key_word k (4 * r + n div 4) ! (n mod 4)"
proof -
  have u: "[4 * r..<4 * r + 4] = [4 * r, 4 * r + 1, 4 * r + 2, 4 * r + 3]" by (simp add: upt_rec)
  show "length (round_key k r) = 16" unfolding round_key_def u by (simp add: length_key_word assms(1))
  show "round_key k r ! n = key_word k (4 * r + n div 4) ! (n mod 4)"
    unfolding round_key_def u using below_16 [OF assms(2)]
    by (elim disjE) (simp_all add: nth_append length_key_word assms(1))
qed

lemma round_key_words:
  assumes "rk_ok k 44 rk" "length k = 16" "r < 11" "n < 16"
  shows "rk ! (16 * r + n) = round_key k r ! n"
proof -
  have "rk ! (4 * (4 * r + n div 4) + n mod 4) = key_word k (4 * r + n div 4) ! (n mod 4)"
  proof -
    have "4 * r + n div 4 < 44" "n mod 4 < 4" using assms(3,4) by auto
    then show ?thesis using assms(1) unfolding rk_ok_def by blast
  qed
  moreover have "4 * (4 * r + n div 4) + n mod 4 = 16 * r + n" by simp
  ultimately show ?thesis using round_key_nth(2) [OF assms(2,4), of r] by metis
qed

subsection \<open>The cipher\<close>

definition round_ok :: "byte list \<Rightarrow> byte list \<Rightarrow> Aes \<Rightarrow> bool" where
  "round_ok k b g \<longleftrightarrow> length b = 16 \<and> state g = matrix b \<and> rk_ok k 44 (RoundKey g)"

lemma AddRoundKey_ok:
  assumes "round_ok k b g" "length k = 16" "r < 11"
  shows "round_ok k (xor_block (round_key k r) b) (AddRoundKey r g)"
proof -
  have l: "length (round_key k r) = 16" using round_key_nth(1) [of k 0 r] assms(2) by simp
  have "state (AddRoundKey r g) = matrix (xor_block (round_key k r) b)"
    using assms round_key_words [of k "RoundKey g" r] l by (intro AddRoundKey_block) (auto simp: round_ok_def)
  then show ?thesis using assms(1) l by (simp add: round_ok_def AddRoundKey_def)
qed

lemma layers_ok:
  assumes "round_ok k b g"
  shows "round_ok k (shift_block (sub_block b)) (ShiftRows (SubBytes g))"
    "round_ok k (mix_block (shift_block (sub_block b))) (MixColumns (ShiftRows (SubBytes g)))"
proof -
  have s: "round_ok k (sub_block b) (SubBytes g)"
    using assms SubBytes_block [of b g] by (simp add: round_ok_def) (simp add: SubBytes_def)
  then show t: "round_ok k (shift_block (sub_block b)) (ShiftRows (SubBytes g))"
    using ShiftRows_block [of "sub_block b" "SubBytes g"] by (simp add: round_ok_def) (simp add: ShiftRows_def Let_def)
  then show "round_ok k (mix_block (shift_block (sub_block b))) (MixColumns (ShiftRows (SubBytes g)))"
    using MixColumns_block [of "shift_block (sub_block b)" "ShiftRows (SubBytes g)"]
    by (simp add: round_ok_def) (simp add: MixColumns_def)
qed

lemma rounds_ok:
  assumes "round_ok k b g" "length k = 16" "\<forall>r \<in> set rs. r < 11"
  shows "round_ok k (foldl (\<lambda>b r. xor_block (round_key k r) (mix_block (shift_block (sub_block b)))) b rs)
    (foldl (\<lambda>g round. AddRoundKey round (MixColumns (ShiftRows (SubBytes g)))) g rs)"
  using assms
proof (induction rs arbitrary: b g)
  case (Cons r rs)
  have "round_ok k (xor_block (round_key k r) (mix_block (shift_block (sub_block b))))
      (AddRoundKey r (MixColumns (ShiftRows (SubBytes g))))"
    using Cons.prems by (intro AddRoundKey_ok layers_ok) simp_all
  with Cons show ?case by simp
qed simp

lemma out_matrix: "length b = 16 \<Longrightarrow> concat (map (\<lambda>i. map (\<lambda>j. cell (matrix b) j i) [0..<4]) [0..<4]) = b"
  by (erule length_16) (simp add: upts matrix_16 cell_def)

text \<open>The arrays have the sizes of their declarations.\<close>

definition aes_arrays :: "Aes \<Rightarrow> bool" where
  "aes_arrays g \<longleftrightarrow> length (inb g) = 16 \<and> length (Key g) = 32 \<and> length (RoundKey g) = 240"

lemma arrays_kept [intro]:
  assumes "aes_arrays g"
  shows "aes_arrays (AddRoundKey r g)" "aes_arrays (SubBytes g)" "aes_arrays (ShiftRows g)" "aes_arrays (MixColumns g)"
    "aes_arrays (g\<lparr>state := st\<rparr>)" "aes_arrays (g\<lparr>out := o'\<rparr>)"
  using assms by (simp_all add: aes_arrays_def AddRoundKey_def SubBytes_def ShiftRows_def MixColumns_def Let_def)

lemma rounds_arrays:
  "aes_arrays g \<Longrightarrow> aes_arrays (foldl (\<lambda>g round. AddRoundKey round (MixColumns (ShiftRows (SubBytes g)))) g rs)"
  by (induction rs arbitrary: g) (simp_all add: arrays_kept)

definition cipher_rounds :: "Aes \<Rightarrow> Aes" where
  "cipher_rounds g = (let g = g\<lparr>state := map (\<lambda>j. map (\<lambda>i. inb g ! (i * 4 + j)) [0..<4]) [0..<4]\<rparr>;
        g = AddRoundKey 0 g;
        g = foldl (\<lambda>g round. AddRoundKey round (MixColumns (ShiftRows (SubBytes g)))) g [1..<Nr g]
      in AddRoundKey (Nr g) (ShiftRows (SubBytes g)))"

lemma fields_kept [simp]:
  "Nr (AddRoundKey r g) = Nr g" "Nr (SubBytes g) = Nr g" "Nr (ShiftRows g) = Nr g" "Nr (MixColumns g) = Nr g"
  by (simp_all add: AddRoundKey_def SubBytes_def ShiftRows_def MixColumns_def Let_def)

lemma rounds_Nr: "Nr (foldl (\<lambda>g round. AddRoundKey round (MixColumns (ShiftRows (SubBytes g)))) g rs) = Nr g"
  by (induction rs arbitrary: g) simp_all

lemma cipher_rounds_ok:
  assumes "length p = 16" "inb g = p" "rk_ok k 44 (RoundKey g)" "length k = 16" "Nr g = 10"
  shows "state (cipher_rounds g) = matrix (aes128 k p)" "length (aes128 k p) = 16"
proof -
  let ?g = "g\<lparr>state := map (\<lambda>j. map (\<lambda>i. inb g ! (i * 4 + j)) [0..<4]) [0..<4]\<rparr>"
  let ?loop = "foldl (\<lambda>g round. AddRoundKey round (MixColumns (ShiftRows (SubBytes g)))) (AddRoundKey 0 ?g) [1..<10]"
  have "round_ok k p ?g" using assms(1-3) by (simp add: round_ok_def matrix_def)
  then have "round_ok k (xor_block (round_key k 0) p) (AddRoundKey 0 ?g)" by (rule AddRoundKey_ok) (simp_all add: assms(4))
  note rounds_ok [OF this assms(4), of "[1..<10]"]
  then have "round_ok k (foldl (\<lambda>b r. xor_block (round_key k r) (mix_block (shift_block (sub_block b))))
      (xor_block (round_key k 0) p) [1..<10]) ?loop" (is "round_ok k ?b ?loop") by simp
  then have "round_ok k (shift_block (sub_block ?b)) (ShiftRows (SubBytes ?loop))" by (rule layers_ok(1))
  then have "round_ok k (xor_block (round_key k 10) (shift_block (sub_block ?b))) (AddRoundKey 10 (ShiftRows (SubBytes ?loop)))"
    by (rule AddRoundKey_ok) (simp_all add: assms(4))
  moreover have "cipher_rounds g = AddRoundKey 10 (ShiftRows (SubBytes ?loop))"
  proof -
    have n: "Nr (AddRoundKey 0 ?g) = 10" by (simp add: assms(5))
    show ?thesis unfolding cipher_rounds_def Let_def rounds_Nr n by (rule refl)
  qed
  moreover have "aes128 k p = xor_block (round_key k 10) (shift_block (sub_block ?b))" unfolding aes128_def Let_def by (rule refl)
  ultimately have ok: "round_ok k (aes128 k p) (cipher_rounds g)" by metis
  from ok show "state (cipher_rounds g) = matrix (aes128 k p)" by (simp add: round_ok_def)
  from ok show "length (aes128 k p) = 16" by (simp add: round_ok_def)
qed

lemma cipher_rounds_arrays: "aes_arrays g \<Longrightarrow> aes_arrays (cipher_rounds g)"
  unfolding cipher_rounds_def Let_def by (intro arrays_kept rounds_arrays)

lemma Cipher_outputs:
  assumes g: "aes_arrays g" and l: "16 \<le> length plainText" "16 \<le> length useKey"
  shows "\<exists>g'. Cipher plainText useKey g = Some (g', aes128 (take 16 useKey) (take 16 plainText)) \<and> aes_arrays g'"
proof -
  let ?k = "take 16 useKey" and ?p = "take 16 plainText" and ?rest = "drop 16 (Key g)"
  let ?g = "g\<lparr>Nk := 4, Nr := 10, Key := ?k @ ?rest, inb := ?p\<rparr>"
  have r: "block_read useKey 0 16 = Some ?k" "block_read plainText 0 16 = Some ?p" using l by (simp_all add: block_read_def)
  have w: "block_write (Key g) 0 ?k = Some (?k @ ?rest)" "block_write (inb g) 0 ?p = Some ?p"
    using g l by (simp_all add: block_write_def aes_arrays_def)
  obtain rk where rk: "KeyExpansion ?g = ?g\<lparr>RoundKey := rk\<rparr>" "rk_ok ?k 44 rk"
    using KeyExpansion_words [of ?k ?g ?rest] g l by (auto simp: aes_arrays_def)
  let ?h = "cipher_rounds (?g\<lparr>RoundKey := rk\<rparr>)"
  let ?o = "concat (map (\<lambda>i. map (\<lambda>j. cell (state ?h) j i) [0..<4]) [0..<4])"
  have c: "state ?h = matrix (aes128 ?k ?p)" "length (aes128 ?k ?p) = 16"
    using cipher_rounds_ok [of ?p "?g\<lparr>RoundKey := rk\<rparr>" ?k] rk(2) l by simp_all
  have "Cipher plainText useKey g = (let h = cipher_rounds (KeyExpansion ?g);
        o' = concat (map (\<lambda>i. map (\<lambda>j. cell (state h) j i) [0..<4]) [0..<4]) in Some (h\<lparr>out := o'\<rparr>, o'))"
    by (simp add: Cipher_def r w cipher_rounds_def Let_def del: upt_rec_numeral)
  then have "Cipher plainText useKey g = Some (?h\<lparr>out := ?o\<rparr>, ?o)" unfolding rk(1) Let_def .
  moreover have "?o = aes128 ?k ?p" unfolding c(1) by (rule out_matrix [OF c(2)])
  moreover have "aes_arrays (?h\<lparr>out := ?o\<rparr>)"
    using g l rk(2) by (intro arrays_kept cipher_rounds_arrays) (simp add: aes_arrays_def rk_ok_def)
  ultimately show ?thesis by metis
qed

text \<open>C40. \<open>Cipher\<close> is AES with a key of 128 bits: from arrays of the declared sizes, whatever they hold,
  it encrypts the first 16 bytes of the text under the first 16 bytes of the key as FIPS 197 has it
  (substitution of field inverses, rotation of the rows, product of the columns with the circulant
  matrix, sum with the expanded key, ten rounds), and a shorter text or key is read past its end.\<close>

theorem Cipher_is_aes128:
  assumes "aes_arrays g"
  shows "if 16 \<le> length plainText \<and> 16 \<le> length useKey
    then \<exists>g'. Cipher plainText useKey g = Some (g', aes128 (take 16 useKey) (take 16 plainText)) \<and> aes_arrays g'
    else Cipher plainText useKey g = None"
proof (cases "16 \<le> length plainText \<and> 16 \<le> length useKey")
  case True
  then show ?thesis using Cipher_outputs [OF assms] by simp
next
  case False
  then have "block_read useKey 0 16 = None \<or> block_read plainText 0 16 = None" by (auto simp: block_read_def)
  then show ?thesis using False by (auto simp: Cipher_def split: bind_splits)
qed

lemma aes_start_arrays: "aes_arrays aes_start"
  by (simp add: aes_arrays_def aes_start_def)

theorem Cipher_is_aes128_witness:
  "aes_arrays aes_start \<and>
   (\<exists>g'. Cipher (replicate 16 7) (replicate 16 9) aes_start = Some (g', aes128 (replicate 16 9) (replicate 16 7)) \<and> aes_arrays g')"
  using Cipher_is_aes128 [OF aes_start_arrays, of "replicate 16 7" "replicate 16 9"] aes_start_arrays by simp

subsection \<open>The cipher as a permutation\<close>

text \<open>Each layer has a left inverse.\<close>

definition unmix :: "byte \<Rightarrow> byte \<Rightarrow> byte \<Rightarrow> byte \<Rightarrow> byte" where
  "unmix a b c d = xt (xt (xt (a XOR b XOR c XOR d))) XOR xt (xt (a XOR c)) XOR xt (a XOR b) XOR b XOR c XOR d"

lemma unmix_mix:
  "unmix (gmul 2 a XOR gmul 3 b XOR c XOR d) (a XOR gmul 2 b XOR gmul 3 c XOR d)
     (a XOR b XOR gmul 2 c XOR gmul 3 d) (gmul 3 a XOR b XOR c XOR gmul 2 d) = a"
  by (simp add: unmix_def gmul_small xt_xor xor.assoc xor.commute xor.left_commute)

lemma mix_col_inj: "mix_col a b c d = mix_col a' b' c' d' \<Longrightarrow> a = a' \<and> b = b' \<and> c = c' \<and> d = d'"
proof -
  have rot: "mix_col a b c d = [m0, m1, m2, m3] \<Longrightarrow>
      unmix m0 m1 m2 m3 = a \<and> unmix m1 m2 m3 m0 = b \<and> unmix m2 m3 m0 m1 = c \<and> unmix m3 m0 m1 m2 = d"
    for a b c d m0 m1 m2 m3
    using unmix_mix [of a b c d] unmix_mix [of b c d a] unmix_mix [of c d a b] unmix_mix [of d a b c]
    by (auto simp: mix_col_def xor.assoc xor.commute xor.left_commute)
  assume "mix_col a b c d = mix_col a' b' c' d'"
  moreover have "length (mix_col a b c d) = 4" by (simp add: mix_col_def)
  ultimately show ?thesis using rot [of a b c d] rot [of a' b' c' d'] length_4 [of "mix_col a b c d"] by metis
qed

lemma sub_block_inj: "sub_block a = sub_block b \<Longrightarrow> a = b"
  unfolding sub_block_def by (rule inj_map_eq_map [THEN iffD1]) (auto intro: injI sbox_inj)

lemma shift_block_inj: "length a = 16 \<Longrightarrow> length b = 16 \<Longrightarrow> shift_block a = shift_block b \<Longrightarrow> a = b"
  by (erule length_16, erule length_16) (simp add: shift_block_def upts)

lemma mix_block_inj:
  assumes "length a = 16" "length b = 16" "mix_block a = mix_block b"
  shows "a = b"
proof -
  obtain a0 a1 a2 a3 a4 a5 a6 a7 a8 a9 a10 a11 a12 a13 a14 a15 where
    a: "a = [a0, a1, a2, a3, a4, a5, a6, a7, a8, a9, a10, a11, a12, a13, a14, a15]" using assms(1) by (rule length_16)
  obtain b0 b1 b2 b3 b4 b5 b6 b7 b8 b9 b10 b11 b12 b13 b14 b15 where
    b: "b = [b0, b1, b2, b3, b4, b5, b6, b7, b8, b9, b10, b11, b12, b13, b14, b15]" using assms(2) by (rule length_16)
  have l: "length (mix_col x y z w) = 4" for x y z w by (simp add: mix_col_def)
  have "mix_col a0 a1 a2 a3 = mix_col b0 b1 b2 b3 \<and> mix_col a4 a5 a6 a7 = mix_col b4 b5 b6 b7 \<and>
      mix_col a8 a9 a10 a11 = mix_col b8 b9 b10 b11 \<and> mix_col a12 a13 a14 a15 = mix_col b12 b13 b14 b15"
    using assms(3) by (simp add: a b mix_block_def upts append_eq_append_conv l)
  then show ?thesis unfolding a b by (blast dest: mix_col_inj)
qed

lemma xor_block_inj:
  assumes "length a = n" "length b = n" "length k = n" "xor_block k a = xor_block k b"
  shows "a = b"
proof (rule nth_equalityI)
  fix i assume "i < length a"
  then have "xor_block k a ! i = a ! i XOR k ! i" "xor_block k b ! i = b ! i XOR k ! i"
    using assms(1-3) by (simp_all add: xor_block_nth)
  with assms(4) have "(a ! i XOR k ! i) XOR k ! i = (b ! i XOR k ! i) XOR k ! i" by simp
  then show "a ! i = b ! i" by (simp add: xor.assoc)
qed (simp add: assms)

lemma length_round_key: "length k = 16 \<Longrightarrow> length (round_key k r) = 16"
  using round_key_nth(1) [of k 0 r] by simp

lemma round_inj:
  assumes "length k = 16" "length a = 16" "length b = 16"
    "xor_block (round_key k r) (mix_block (shift_block (sub_block a))) = xor_block (round_key k r) (mix_block (shift_block (sub_block b)))"
  shows "a = b"
proof -
  have "mix_block (shift_block (sub_block a)) = mix_block (shift_block (sub_block b))"
    by (rule xor_block_inj [OF _ _ length_round_key [OF assms(1)] assms(4)]) simp_all
  then have "shift_block (sub_block a) = shift_block (sub_block b)" by (rule mix_block_inj [rotated 2]) simp_all
  then have "sub_block a = sub_block b" by (rule shift_block_inj [rotated 2]) (simp_all add: assms)
  then show ?thesis by (rule sub_block_inj)
qed

lemma rounds_inj:
  assumes "length k = 16"
  shows "length a = 16 \<Longrightarrow> length b = 16 \<Longrightarrow>
    foldl (\<lambda>b r. xor_block (round_key k r) (mix_block (shift_block (sub_block b)))) a rs =
    foldl (\<lambda>b r. xor_block (round_key k r) (mix_block (shift_block (sub_block b)))) b rs \<Longrightarrow> a = b"
proof (induction rs arbitrary: a b)
  case (Cons r rs)
  have "xor_block (round_key k r) (mix_block (shift_block (sub_block a))) =
      xor_block (round_key k r) (mix_block (shift_block (sub_block b)))"
    by (rule Cons.IH [OF _ _ Cons.prems(3) [unfolded foldl_Cons]]) (simp_all add: length_round_key [OF assms])
  then show ?case by (rule round_inj [OF assms Cons.prems(1,2)])
qed simp

lemma rounds_length:
  "length k = 16 \<Longrightarrow> length a = 16 \<Longrightarrow>
   length (foldl (\<lambda>b r. xor_block (round_key k r) (mix_block (shift_block (sub_block b)))) a rs) = 16"
  by (induction rs arbitrary: a) (simp_all add: length_round_key)

lemma aes128_inj:
  assumes k: "length k = 16" and l: "length a = 16" "length b = 16" and e: "aes128 k a = aes128 k b"
  shows "a = b"
proof -
  let ?f = "\<lambda>b. foldl (\<lambda>b r. xor_block (round_key k r) (mix_block (shift_block (sub_block b)))) (xor_block (round_key k 0) b) [1..<10]"
  note lr = length_round_key [OF k]
  have lf: "length (?f a) = 16" "length (?f b) = 16" by (intro rounds_length k; simp add: lr l)+
  have "shift_block (sub_block (?f a)) = shift_block (sub_block (?f b))"
    by (rule xor_block_inj [OF _ _ lr e [unfolded aes128_def Let_def]]) simp_all
  then have "sub_block (?f a) = sub_block (?f b)" by (rule shift_block_inj [rotated 2]) (use lf in simp_all)
  then have "?f a = ?f b" by (rule sub_block_inj)
  then have "xor_block (round_key k 0) a = xor_block (round_key k 0) b"
    by (rule rounds_inj [OF k, rotated 2]) (simp_all add: lr l)
  then show ?thesis by (rule xor_block_inj [OF l lr])
qed

text \<open>Under one key two different blocks of text never give the same result, whatever the two
  calls find in the arrays.\<close>

theorem Cipher_permutes:
  assumes "aes_arrays g" "aes_arrays h" "length k = 16" "length p = 16" "length q = 16" "p \<noteq> q"
    "Cipher p k g = Some (g', c)" "Cipher q k h = Some (h', d)"
  shows "c \<noteq> d"
proof
  assume "c = d"
  moreover have "c = aes128 k p" using Cipher_outputs [OF assms(1), of p k] assms(3,4,7) by simp
  moreover have "d = aes128 k q" using Cipher_outputs [OF assms(2), of q k] assms(3,5,8) by simp
  ultimately have "aes128 k p = aes128 k q" by simp
  then show False using aes128_inj [OF assms(3-5)] assms(6) by simp
qed

theorem Cipher_permutes_witness:
  "\<exists>g' c h' d. Cipher (replicate 16 7) (replicate 16 9) aes_start = Some (g', c) \<and>
     Cipher (replicate 16 8) (replicate 16 9) g' = Some (h', d) \<and> c \<noteq> d"
proof -
  obtain g' c where c: "Cipher (replicate 16 7) (replicate 16 9) aes_start = Some (g', c)" "aes_arrays g'"
    using Cipher_outputs [OF aes_start_arrays, of "replicate 16 7" "replicate 16 9"] by auto
  obtain h' d where d: "Cipher (replicate 16 8) (replicate 16 9) g' = Some (h', d)"
    using Cipher_outputs [OF c(2), of "replicate 16 8" "replicate 16 9"] by auto
  have "replicate 16 7 \<noteq> (replicate 16 8 :: byte list)" by simp
  note Cipher_permutes [OF aes_start_arrays c(2) length_replicate length_replicate length_replicate this c(1) d]
  with c(1) d show ?thesis by blast
qed

end
