(* ===== verification/Device_Calls.thy ===== *)
theory Device_Calls
  imports C_Strings
begin

text \<open>
  The operating system as the libraries of the devices see it: a parameter, a function from the call
  and the state of the world to the answer and the new state. A call is one of the file calls, with
  the requests of the device as parameter \<open>'r\<close>; an answer is the value returned, the bytes read, and
  \<open>errno\<close> in case the value is negative.
\<close>

datatype 'r kernel_call =
    Sys_open "byte list" int
  | Sys_close int
  | Sys_read int int
  | Sys_write int "byte list"
  | Sys_select int
  | Sys_ioctl int 'r

record answer =
  result :: int
  bytes :: "byte list"
  failure :: int

type_synonym ('r, 'w) system = "'r kernel_call \<Rightarrow> 'w \<Rightarrow> answer \<times> 'w"

definition O_WRONLY :: int where [simp]: "O_WRONLY = 1"
definition O_RDWR :: int where [simp]: "O_RDWR = 2"
definition O_NOCTTY :: int where [simp]: "O_NOCTTY = 256"
definition O_NONBLOCK :: int where [simp]: "O_NONBLOCK = 2048"

text \<open>
  What is documented of reading: -1, or the number of bytes delivered, no more than were asked for.
\<close>

definition reads_ok :: "('r, 'w) system \<Rightarrow> bool" where
  "reads_ok sys \<longleftrightarrow> (\<forall>f n w. let a = fst (sys (Sys_read f n) w) in
     result a = -1 \<or> (result a = int (length (bytes a)) \<and> result a \<le> n))"

lemma reads_okD:
  "reads_ok sys \<Longrightarrow> sys (Sys_read f n) w = (a, w') \<Longrightarrow>
     result a = -1 \<or> (result a = int (length (bytes a)) \<and> result a \<le> n)"
  by (metis reads_ok_def fst_conv)

text \<open>A system on which every call succeeds with 0 and is noted.\<close>

definition noting :: "('r, 'r kernel_call list) system" where
  "noting c w = (\<lparr>result = 0, bytes = [], failure = 0\<rparr>, w @ [c])"

end
