(* ===== verification/Keypad_Conf.thy ===== *)
theory Keypad_Conf
  imports C_Strings
begin

text \<open>
  The configuration of the keypad: \<open>src/src/system/ui/jkeyboard/arm-linux/keypadconf.c\<close>.

  A file \<open>keypad.conf\<close> has sections, and in a section lines with the number of a key (its scan code)
  and the characters it stands for; a character that cannot be written is two backslashes and its
  decimal code. A line is parsed by a table-driven machine whose handlers fill static arrays through
  pointers. The static variables are the record \<open>KpConf\<close>; a pointer into one of the arrays is the
  index it points to, and a store outside the array is \<open>None\<close>. A pointer to an element of a map is
  the map and the index; that it may run past the end matters when it is stored through. The file
  is the list of its bytes, or \<open>None\<close> if it could not be opened; the position in it is the rest of
  the list.
\<close>

definition CURRENT_ROWS :: int where [simp]: "CURRENT_ROWS = 8"
definition CURRENT_COLS :: int where [simp]: "CURRENT_COLS = 8"
definition KP_MAX_CHARS_PER_SCANCODE :: nat where [simp]: "KP_MAX_CHARS_PER_SCANCODE = 12"
definition FILE_BUF_SIZE :: nat where [simp]: "FILE_BUF_SIZE = 128"

record KPMapScancode =
  scancode :: int
  keychars :: "byte list"

record KpConf =
  file_buf :: "byte list"
  curr_scancode :: int
  curr_scancode_str :: "byte list"
  curr_scancode_ptr :: int
  curr_kchars_str :: "byte list"
  curr_kchars_ptr :: int
  curr_spchar_str :: "byte list"
  curr_spchar_ptr :: int
  parse_error :: bool
  parse_copy_data :: bool

subsection \<open>Default maps\<close>

text \<open>An initialiser \<open>{code, text}\<close>: the rest of the array is 0.\<close>

definition kmap :: "int \<times> byte list \<Rightarrow> KPMapScancode" where
  "kmap e = \<lparr>scancode = fst e, keychars = snd e @ replicate (KP_MAX_CHARS_PER_SCANCODE + 1 - length (snd e)) 0\<rparr>"

definition def_map_num :: "KPMapScancode list" where
  "def_map_num = map kmap
     [(1, chars ''1''), (5, chars ''2''), (9, chars ''3''), (2, chars ''4''), (6, chars ''5''),
      (10, chars ''6''), (3, chars ''7''), (7, chars ''8''), (11, chars ''9''), (4, chars ''0'')]"

definition def_map_alphanum :: "KPMapScancode list" where
  "def_map_alphanum = map kmap
     [(1, chars ''ABC1''), (2, chars ''JKL2''), (3, chars ''STU3''), (4, chars '' 0''),
      (5, chars ''DEF2''), (6, chars ''MNO5''), (7, chars ''VWX8''), (8, chars ''YZ9''),
      (9, chars ''GHI3''), (10, chars ''PQR6'')]"

definition def_map_nav :: "KPMapScancode list" where
  "def_map_nav = map kmap
     [(11, [27]), (16, [10]), (13, [1]), (14, [8]), (15, chars ''<''), (8, chars ''>'')]"

subsection \<open>The handlers\<close>

type_synonym handler = "byte \<Rightarrow> KpConf \<Rightarrow> (bool \<times> KpConf) option"

definition none :: handler where
  "none c k = Some (True, k)"

definition make_sc :: handler where
  "make_sc c k = do {
     s \<leftarrow> put_at (curr_scancode_str k) (curr_scancode_ptr k) c;
     Some (True, k\<lparr>curr_scancode_str := s, curr_scancode_ptr := curr_scancode_ptr k + 1\<rparr>)
   }"

definition end_sc :: handler where
  "end_sc c k = do {
     sc \<leftarrow> atoi (cstr (curr_scancode_str k));
     Some (\<not> (sc \<le> 0 \<or> sc > CURRENT_ROWS * CURRENT_COLS), k\<lparr>curr_scancode := sc\<rparr>)
   }"

definition kchars_full :: "KpConf \<Rightarrow> bool" where
  "kchars_full k \<longleftrightarrow> curr_kchars_ptr k = int (length (curr_kchars_str k))"

text \<open>\<open>*curr_kchars_ptr++ = c\<close>.\<close>

definition put_kchar :: "byte \<Rightarrow> KpConf \<Rightarrow> KpConf option" where
  "put_kchar c k = do {
     s \<leftarrow> put_at (curr_kchars_str k) (curr_kchars_ptr k) c;
     Some (k\<lparr>curr_kchars_str := s, curr_kchars_ptr := curr_kchars_ptr k + 1\<rparr>)
   }"

text \<open>\<open>*curr_spchar_ptr++ = c\<close>.\<close>

definition put_spchar :: "byte \<Rightarrow> KpConf \<Rightarrow> KpConf option" where
  "put_spchar c k = do {
     s \<leftarrow> put_at (curr_spchar_str k) (curr_spchar_ptr k) c;
     Some (k\<lparr>curr_spchar_str := s, curr_spchar_ptr := curr_spchar_ptr k + 1\<rparr>)
   }"

text \<open>\<open>schar = atoi(curr_spchar_str); if (schar) *curr_kchars_ptr++ = schar\<close>.\<close>

definition put_schar :: "KpConf \<Rightarrow> KpConf option" where
  "put_schar k = do {
     schar \<leftarrow> atoi (cstr (curr_spchar_str k));
     if schar \<noteq> 0 then put_kchar (word_of_int schar) k else Some k
   }"

definition make_chars :: handler where
  "make_chars c k =
     (if kchars_full k then Some (False, k) else do {
        k \<leftarrow> put_kchar c k;
        Some (True, k)
      })"

definition begin_spchar :: handler where
  "begin_spchar c k =
     (if kchars_full k then Some (False, k)
      else Some (True, k\<lparr>curr_spchar_str := replicate (length (curr_spchar_str k)) 0, curr_spchar_ptr := 0\<rparr>))"

definition make_spchar :: handler where
  "make_spchar c k = do {
     k \<leftarrow> put_spchar c k;
     Some (True, k)
   }"

definition make_spchar2 :: handler where
  "make_spchar2 c k = do {
     k \<leftarrow> put_spchar c k;
     k \<leftarrow> put_schar k;
     Some (True, k)
   }"

definition make_spchar3 :: handler where
  "make_spchar3 c k = do {
     k \<leftarrow> put_schar k;
     k \<leftarrow> put_kchar c k;
     Some (True, k)
   }"

definition make_spchar4 :: handler where
  "make_spchar4 c k = do {
     k \<leftarrow> put_schar k;
     Some (True, k)
   }"

definition do_exit :: handler where
  "do_exit c k = Some (False, k\<lparr>parse_error := False, parse_copy_data := False\<rparr>)"

definition do_success :: handler where
  "do_success c k = do {
     k \<leftarrow> put_kchar 0 k;
     Some (False, k\<lparr>parse_error := False, parse_copy_data := True\<rparr>)
   }"

definition do_error :: handler where
  "do_error c k = Some (False, k\<lparr>parse_error := True\<rparr>)"

subsection \<open>The machine\<close>

datatype TransitionChars = SPACE | NEW_LINE | BACK_SLASH | DIGIT | LETTER | CARDINAL | OPEN_BRACKET

primrec tc_value :: "TransitionChars \<Rightarrow> int" where
  "tc_value SPACE = 0"
| "tc_value NEW_LINE = 1"
| "tc_value BACK_SLASH = 2"
| "tc_value DIGIT = 3"
| "tc_value LETTER = 4"
| "tc_value CARDINAL = 5"
| "tc_value OPEN_BRACKET = 6"

definition map_char :: "byte \<Rightarrow> TransitionChars" where
  "map_char c =
     (if c = 32 then SPACE
      else if c = NEWLINE then NEW_LINE
      else if c = 92 then BACK_SLASH
      else if c = 91 then OPEN_BRACKET
      else if c = 35 then CARDINAL
      else if is_digit c then DIGIT
      else LETTER)"

text \<open>
  Handler and next state for each state and class of characters. The C array has 10 rows of 10; those
  that are not initialised hold null pointers, and are missing here.
\<close>

definition parse_machine :: "(handler \<times> int) list list" where
  "parse_machine =
     [[(none, 0), (do_exit, -1), (do_error, -1), (make_sc, 1), (do_error, -1), (do_exit, -1), (do_exit, -1)],
      [(end_sc, 3), (do_error, -1), (do_error, -1), (make_sc, 2), (do_error, -1), (do_error, -1), (do_error, -1)],
      [(end_sc, 3), (do_error, -1), (do_error, -1), (do_error, -1), (do_error, -1), (do_error, -1), (do_error, -1)],
      [(none, 3), (do_success, -1), (none, 4), (make_chars, 3), (make_chars, 3), (do_error, -1), (do_error, -1)],
      [(do_error, -1), (do_error, -1), (begin_spchar, 5), (do_error, -1), (do_error, -1), (do_error, -1), (do_error, -1)],
      [(do_error, -1), (do_error, -1), (do_error, -1), (make_spchar, 6), (do_error, -1), (do_error, -1), (do_error, -1)],
      [(make_spchar4, 3), (make_spchar4, 3), (make_spchar4, 4), (make_spchar2, 3), (make_spchar3, 3), (do_error, -1), (do_error, -1)]]"

text \<open>\<open>parse_machine[state][c]\<close>.\<close>

definition machine_cell :: "int \<Rightarrow> TransitionChars \<Rightarrow> (handler \<times> int) option" where
  "machine_cell state c = do {
     row \<leftarrow> get_at parse_machine state;
     get_at row (tc_value c)
   }"

text \<open>The loop of \<open>parse_line\<close>; the list is the memory from \<open>s\<close> on.\<close>

fun parse_from :: "int \<Rightarrow> byte list \<Rightarrow> KpConf \<Rightarrow> KpConf option" where
  "parse_from state [] k = None"
| "parse_from state (c # s) k =
     (if c = 0 then Some k else do {
        (handler, next_state) \<leftarrow> machine_cell state (map_char c);
        (more, k) \<leftarrow> handler c k;
        if \<not> more then Some k
        else if next_state = -1 then Some k
        else parse_from next_state s k
      })"

definition parse_start :: "KpConf \<Rightarrow> KpConf" where
  "parse_start k = k\<lparr>curr_scancode := 0,
     curr_scancode_str := replicate (length (curr_scancode_str k)) 0, curr_scancode_ptr := 0,
     curr_kchars_str := replicate (length (curr_kchars_str k)) 0, curr_kchars_ptr := 0,
     curr_spchar_str := replicate (length (curr_spchar_str k)) 0, curr_spchar_ptr := 0,
     parse_error := True\<rparr>"

text \<open>\<open>strcpy\<close> of the string of an array to another: it must end inside the one and fit the other.\<close>

definition strcpy :: "byte list \<Rightarrow> byte list \<Rightarrow> byte list option" where
  "strcpy d s = (if 0 \<in> set s then block_write d 0 (cstr s @ [0]) else None)"

definition parse_line ::
  "KPMapScancode list \<Rightarrow> int \<Rightarrow> byte list \<Rightarrow> KpConf \<Rightarrow> (bool \<times> KPMapScancode list \<times> KpConf) option" where
  "parse_line map_sc m s k = do {
     k \<leftarrow> parse_from 0 s (parse_start k);
     if \<not> parse_error k \<and> parse_copy_data k then do {
       e \<leftarrow> get_at map_sc m;
       chs \<leftarrow> strcpy (keychars e) (curr_kchars_str k);
       map_sc \<leftarrow> put_at map_sc m \<lparr>scancode = curr_scancode k, keychars = chs\<rparr>;
       Some (True, map_sc, k)
     } else Some (\<not> parse_error k, map_sc, k)
   }"

subsection \<open>The file\<close>

definition is_space :: "byte \<Rightarrow> bool" where
  "is_space c \<longleftrightarrow> c = 32 \<or> (9 \<le> c \<and> c \<le> 13)"

text \<open>\<open>while(isspace(*s++)) ;\<close> leaves \<open>s\<close> behind the first character that is no space.\<close>

fun blank_from :: "byte list \<Rightarrow> bool option" where
  "blank_from [] = None"
| "blank_from (c # s) =
     (if is_space c then blank_from s
      else (case s of [] \<Rightarrow> None | d # _ \<Rightarrow> Some (d = 0 \<or> d = 35)))"

definition is_blank_line :: "KpConf \<Rightarrow> bool option" where
  "is_blank_line k = blank_from (file_buf k)"

text \<open>What \<open>fgets\<close> takes: at most \<open>n\<close> bytes, up to a new line; nothing at the end of the file.\<close>

fun take_line :: "nat \<Rightarrow> byte list \<Rightarrow> byte list \<times> byte list" where
  "take_line 0 f = ([], f)"
| "take_line (Suc n) [] = ([], [])"
| "take_line (Suc n) (c # f) =
     (if c = NEWLINE then ([c], f) else (let (a, f') = take_line n f in (c # a, f')))"

definition fgets :: "byte list \<Rightarrow> KpConf \<Rightarrow> ((byte list \<times> KpConf) option) option" where
  "fgets f k =
     (if f = [] then Some None else do {
        let (line, f') = take_line (FILE_BUF_SIZE - 1) f;
        b \<leftarrow> block_write (file_buf k) 0 (line @ [0]);
        Some (Some (f', k\<lparr>file_buf := b\<rparr>))
      })"

lemma take_line_shorter: "length (snd (take_line n f)) \<le> length f"
  by (induction n f rule: take_line.induct) (auto split: prod.splits)

lemma take_line_less: "length (snd (take_line (Suc n) (c # f))) < Suc (length f)"
  using take_line_shorter [of n f] by (auto split: prod.splits)

lemma fgets_Some:
  "fgets f k = Some (Some (f', k')) \<longleftrightarrow>
     f \<noteq> [] \<and> f' = snd (take_line 127 f) \<and>
     (\<exists>b. block_write (file_buf k) 0 (fst (take_line 127 f) @ [0]) = Some b \<and> k' = k\<lparr>file_buf := b\<rparr>)"
  by (auto simp: fgets_def elim!: bind_SomeE split: prod.splits)

lemma fgets_shorter: "fgets f k = Some (Some (f', k')) \<Longrightarrow> length f' < length f"
  using take_line_less [of 126 "hd f" "tl f"] by (cases f) (simp_all add: fgets_Some del: take_line.simps)

text \<open>\<open>pos_in_first_line\<close> starts at the beginning of the file.\<close>

function pos_from :: "byte list \<Rightarrow> byte list \<Rightarrow> KpConf \<Rightarrow> (bool \<times> byte list \<times> KpConf) option" where
  "pos_from mode f k = do {
     l \<leftarrow> fgets f k;
     (case l of
        None \<Rightarrow> Some (False, f, k)
      | Some (f', k') \<Rightarrow>
          if take (length mode) (file_buf k') = mode then Some (True, f', k') else pos_from mode f' k')
   }"
  by pat_completeness auto
termination by (relation "measure (\<lambda>(mode, f, k). length f)") (auto dest: fgets_shorter)

declare pos_from.simps [simp del]

definition pos_in_first_line :: "byte list \<Rightarrow> byte list \<Rightarrow> KpConf \<Rightarrow> (bool \<times> byte list \<times> KpConf) option" where
  "pos_in_first_line contents mode k = pos_from mode contents k"

text \<open>The loop over the lines of a section.\<close>

function conf_lines ::
  "KPMapScancode list \<Rightarrow> int \<Rightarrow> byte list \<Rightarrow> KpConf \<Rightarrow> (bool \<times> KPMapScancode list \<times> KpConf) option" where
  "conf_lines map_sc dst f k = do {
     l \<leftarrow> fgets f k;
     (case l of
        None \<Rightarrow> Some (True, map_sc, k)
      | Some (f', k') \<Rightarrow> do {
          blank \<leftarrow> is_blank_line k';
          if blank then conf_lines map_sc dst f' k'
          else do {
            b \<leftarrow> block_write (file_buf k') (int (length (cstr (file_buf k')))) [NEWLINE, 0];
            (ok, map_sc', k'') \<leftarrow> parse_line map_sc dst b (k'\<lparr>file_buf := b\<rparr>);
            if \<not> ok then Some (False, map_sc', k'')
            else if dst + 1 \<ge> CURRENT_ROWS * CURRENT_COLS then Some (True, map_sc', k'')
            else conf_lines map_sc' (dst + 1) f' k''
          }
        })
   }"
  by pat_completeness auto
termination by (relation "measure (\<lambda>(map_sc, dst, f, k). length f)") (auto dest: fgets_shorter)

declare conf_lines.simps [simp del]

text \<open>The file is \<open>None\<close> if it could not be opened. The size of the defaults is their number here.\<close>

definition conf_mode ::
  "byte list option \<Rightarrow> KPMapScancode list \<Rightarrow> KPMapScancode list \<Rightarrow> byte list \<Rightarrow> KpConf \<Rightarrow>
     (int \<times> KPMapScancode list \<times> KpConf) option" where
  "conf_mode file map_sc def_map_sc mode k = do {
     (ok, map_sc, k) \<leftarrow>
       (case file of
          None \<Rightarrow> Some (False, map_sc, k)
        | Some contents \<Rightarrow> do {
            (found, f, k) \<leftarrow> pos_in_first_line contents mode k;
            if found then conf_lines map_sc 0 f k else Some (False, map_sc, k)
          });
     if \<not> ok then do {
       _ \<leftarrow> guard_ok (length def_map_sc \<le> length map_sc);
       Some (1, def_map_sc @ drop (length def_map_sc) map_sc, k)
     } else Some (0, map_sc, k)
   }"

definition init_conf_modes ::
  "byte list option \<Rightarrow> KPMapScancode list \<Rightarrow> KPMapScancode list \<Rightarrow> KPMapScancode list \<Rightarrow> KpConf \<Rightarrow>
     (KPMapScancode list \<times> KPMapScancode list \<times> KPMapScancode list \<times> KpConf) option" where
  "init_conf_modes conff map_num map_alphanum map_nav k = do {
     (_, map_num, k) \<leftarrow> conf_mode conff map_num def_map_num (chars ''[numeric]'') k;
     (_, map_alphanum, k) \<leftarrow> conf_mode conff map_alphanum def_map_alphanum (chars ''[alphanumeric]'') k;
     (_, map_nav, k) \<leftarrow> conf_mode conff map_nav def_map_nav (chars ''[navigation]'') k;
     Some (map_num, map_alphanum, map_nav, k)
   }"

end
