(* ===== verification/Keypad_Conf_Props.thy ===== *)
theory Keypad_Conf_Props
  imports Keypad_Conf
begin

text \<open>
  What the parser of the keypad configuration accepts and stores: a printed entry is read back if it
  has at most nine characters and stores outside its array if it has ten; a file is read line by line
  into consecutive elements, beyond the end of its section.
\<close>

subsection \<open>The text of an entry\<close>

definition plain :: "byte \<Rightarrow> bool" where
  "plain c \<longleftrightarrow> c \<notin> {0, 32, 10, 92, 91, 35}"

text \<open>A character that cannot stand for itself is written with two backslashes and two digits.\<close>

definition key_text :: "byte \<Rightarrow> byte list" where
  "key_text c = (if plain c then [c] else [92, 92, 48 + c div 10, 48 + c mod 10])"

definition entry_text :: "int \<Rightarrow> byte list \<Rightarrow> byte list" where
  "entry_text sc ks = dec sc @ 32 # concat (map key_text ks)"

text \<open>The parser after the scan code \<open>sc\<close> and the characters \<open>pre\<close>; \<open>b\<close> is the file buffer.\<close>

definition reading :: "int \<Rightarrow> byte list \<Rightarrow> byte list \<Rightarrow> KpConf \<Rightarrow> bool" where
  "reading sc b pre k \<longleftrightarrow>
     curr_scancode k = sc \<and> file_buf k = b \<and> parse_error k \<and> length (curr_scancode_str k) = 4 \<and>
     length (curr_spchar_str k) = 5 \<and> length pre \<le> 10 \<and>
     curr_kchars_str k = over pre (replicate 10 0) \<and> curr_kchars_ptr k = int (length pre)"

definition kp_ok :: "KpConf \<Rightarrow> bool" where
  "kp_ok k \<longleftrightarrow> length (file_buf k) = 128 \<and> length (curr_scancode_str k) = 4 \<and>
     length (curr_kchars_str k) = 10 \<and> length (curr_spchar_str k) = 5"

lemma reading_put_kchar:
  assumes "reading sc b pre k" "length pre < 10"
  shows "\<exists>k'. put_kchar c k = Some k' \<and> reading sc b (pre @ [c]) k'"
  using assms over_put [of pre "replicate 10 0" c] by (simp add: put_kchar_def reading_def)

lemma reading_full: "reading sc b pre k \<Longrightarrow> kchars_full k \<longleftrightarrow> length pre = 10"
  by (auto simp: reading_def kchars_full_def)

subsection \<open>Steps of the machine\<close>

lemma cells [simp]:
  "machine_cell 0 DIGIT = Some (make_sc, 1)" "machine_cell 0 CARDINAL = Some (do_exit, -1)"
  "machine_cell 0 OPEN_BRACKET = Some (do_exit, -1)"
  "machine_cell 1 SPACE = Some (end_sc, 3)" "machine_cell 1 DIGIT = Some (make_sc, 2)"
  "machine_cell 2 SPACE = Some (end_sc, 3)"
  "machine_cell 3 NEW_LINE = Some (do_success, -1)" "machine_cell 3 BACK_SLASH = Some (none, 4)"
  "machine_cell 3 DIGIT = Some (make_chars, 3)" "machine_cell 3 LETTER = Some (make_chars, 3)"
  "machine_cell 4 BACK_SLASH = Some (begin_spchar, 5)" "machine_cell 5 DIGIT = Some (make_spchar, 6)"
  "machine_cell 6 DIGIT = Some (make_spchar2, 3)"
  by (simp_all add: machine_cell_def parse_machine_def get_at_def)

lemma map_chars [simp]:
  "map_char 32 = SPACE" "map_char 10 = NEW_LINE" "map_char 92 = BACK_SLASH" "map_char 91 = OPEN_BRACKET"
  "map_char 35 = CARDINAL"
  by (simp_all add: map_char_def)

lemma parse_step:
  assumes "c \<noteq> 0" "machine_cell st (map_char c) = Some (h, nx)" "nx \<noteq> -1" "h c k = Some (True, k')"
  shows "parse_from st (c # s) k = parse_from nx s k'"
  using assms by simp

lemma parse_stop:
  assumes "c \<noteq> 0" "machine_cell st (map_char c) = Some (h, nx)" "h c k = Some (False, k')"
  shows "parse_from st (c # s) k = Some k'"
  using assms by simp

lemma map_char_plain: "plain c \<Longrightarrow> map_char c = DIGIT \<or> map_char c = LETTER"
  by (simp add: plain_def map_char_def)

lemma read_plain:
  assumes "reading sc b pre k" "length pre < 10" "plain c"
  shows "\<exists>k'. parse_from 3 (c # s) k = parse_from 3 s k' \<and> reading sc b (pre @ [c]) k'"
proof -
  obtain k' where k': "put_kchar c k = Some k'" "reading sc b (pre @ [c]) k'"
    using reading_put_kchar [OF assms(1,2)] by blast
  have m: "make_chars c k = Some (True, k')"
    using reading_full [OF assms(1)] assms(2) k'(1) by (simp add: make_chars_def)
  have "parse_from 3 (c # s) k = parse_from 3 s k'"
    using map_char_plain [OF assms(3)] assms(3) m by (auto simp: plain_def)
  with k'(2) show ?thesis by blast
qed

lemma special_cases: "\<not> plain c \<Longrightarrow> c \<noteq> 0 \<Longrightarrow> c = 32 \<or> c = 10 \<or> c = 92 \<or> c = 91 \<or> c = 35"
  by (auto simp: plain_def)

lemma atoi_specials:
  "atoi (cstr [51, 50, 0, 0, 0]) = Some 32" "atoi (cstr [49, 48, 0, 0, 0]) = Some 10"
  "atoi (cstr [57, 50, 0, 0, 0]) = Some 92" "atoi (cstr [57, 49, 0, 0, 0]) = Some 91"
  "atoi (cstr [51, 53, 0, 0, 0]) = Some 35"
  by (simp_all add: cstr_def atoi_def digits_value_def is_digit_def Let_def)

lemma special_digits:
  assumes "\<not> plain c" "c \<noteq> 0"
  shows "map_char (48 + c div 10) = DIGIT" "map_char (48 + c mod 10) = DIGIT"
    and "48 + c div 10 \<noteq> 0" "48 + c mod 10 \<noteq> 0"
    and "atoi (cstr [48 + c div 10, 48 + c mod 10, 0, 0, 0]) = Some (uint c)"
  using special_cases [OF assms] by (auto simp: map_char_def is_digit_def atoi_specials)

text \<open>The second digit.\<close>

lemma read_special_end:
  assumes "reading sc b pre k" "length pre < 10" "\<not> plain c" "c \<noteq> 0"
    and "curr_spchar_str k = [48 + c div 10, 0, 0, 0, 0]" "curr_spchar_ptr k = 1"
  shows "\<exists>k'. make_spchar2 (48 + c mod 10) k = Some (True, k') \<and> reading sc b (pre @ [c]) k'"
proof -
  let ?k = "k\<lparr>curr_spchar_str := [48 + c div 10, 48 + c mod 10, 0, 0, 0], curr_spchar_ptr := 2\<rparr>"
  have p: "put_spchar (48 + c mod 10) k = Some ?k" using assms(5,6) by (simp add: put_spchar_def put_at_def)
  have r: "reading sc b pre ?k" using assms(1) by (simp add: reading_def)
  obtain k' where k': "put_kchar c ?k = Some k'" "reading sc b (pre @ [c]) k'"
    using reading_put_kchar [OF r assms(2)] by blast
  have "uint c \<noteq> 0" using assms(4) by (simp add: uint_0_iff)
  then have "put_schar ?k = Some k'"
    using special_digits(5) [OF assms(3,4)] k'(1) by (simp add: put_schar_def)
  with p k'(2) show ?thesis by (simp add: make_spchar2_def)
qed

lemma read_special:
  assumes "reading sc b pre k" "length pre < 10" "\<not> plain c" "c \<noteq> 0"
  shows "\<exists>k'. parse_from 3 (92 # 92 # (48 + c div 10) # (48 + c mod 10) # s) k = parse_from 3 s k'
           \<and> reading sc b (pre @ [c]) k'"
proof -
  note d = special_digits [OF assms(3,4)]
  let ?k1 = "k\<lparr>curr_spchar_str := [0, 0, 0, 0, 0], curr_spchar_ptr := 0\<rparr>"
  let ?k2 = "k\<lparr>curr_spchar_str := [48 + c div 10, 0, 0, 0, 0], curr_spchar_ptr := 1\<rparr>"
  have r2: "reading sc b pre ?k2" using assms(1) by (simp add: reading_def)
  obtain k' where k': "make_spchar2 (48 + c mod 10) ?k2 = Some (True, k')" "reading sc b (pre @ [c]) k'"
    using read_special_end [OF r2 assms(2-4)] by auto
  have bs: "begin_spchar 92 k = Some (True, ?k1)"
    using reading_full [OF assms(1)] assms(1,2) by (simp add: begin_spchar_def reading_def numeral_eq_Suc)
  have m1: "make_spchar (48 + c div 10) ?k1 = Some (True, ?k2)"
    by (simp add: make_spchar_def put_spchar_def put_at_def)
  have "parse_from 3 (92 # 92 # (48 + c div 10) # (48 + c mod 10) # s) k
      = parse_from 4 (92 # (48 + c div 10) # (48 + c mod 10) # s) k"
    by (rule parse_step [where h = none]) (simp_all add: none_def)
  also have "\<dots> = parse_from 5 ((48 + c div 10) # (48 + c mod 10) # s) ?k1"
    by (rule parse_step [where h = begin_spchar]) (simp_all add: bs)
  also have "\<dots> = parse_from 6 ((48 + c mod 10) # s) ?k2"
    by (rule parse_step [where h = make_spchar], rule d(3)) (simp_all add: d m1)
  also have "\<dots> = parse_from 3 s k'"
    by (rule parse_step [where h = make_spchar2], rule d(4)) (simp_all add: d k'(1))
  finally show ?thesis using k'(2) by blast
qed

lemma read_key:
  assumes "reading sc b pre k" "length pre < 10" "c \<noteq> 0"
  shows "\<exists>k'. parse_from 3 (key_text c @ s) k = parse_from 3 s k' \<and> reading sc b (pre @ [c]) k'"
  using read_plain [OF assms(1,2), of c s] read_special [OF assms(1,2) _ assms(3), of s]
  by (simp add: key_text_def)

lemma read_keys:
  "reading sc b pre k \<Longrightarrow> length pre + length ks \<le> 10 \<Longrightarrow> 0 \<notin> set ks \<Longrightarrow>
     \<exists>k'. parse_from 3 (concat (map key_text ks) @ s) k = parse_from 3 s k' \<and> reading sc b (pre @ ks) k'"
proof (induction ks arbitrary: pre k)
  case (Cons c ks)
  have l: "length pre < 10" and z: "c \<noteq> 0" using Cons.prems by auto
  obtain k1 where k1: "parse_from 3 (key_text c @ concat (map key_text ks) @ s) k
        = parse_from 3 (concat (map key_text ks) @ s) k1" "reading sc b (pre @ [c]) k1"
    using read_key [OF Cons.prems(1) l z] by blast
  then show ?case using Cons.IH [OF k1(2)] Cons.prems by simp
qed auto

text \<open>The eleventh character is refused, and the line with it.\<close>

lemma read_key_full:
  assumes "reading sc b pre k" "length pre = 10" "c \<noteq> 0"
  shows "parse_from 3 (key_text c @ s) k = Some k"
proof (cases "plain c")
  case True
  have "make_chars c k = Some (False, k)" using reading_full [OF assms(1)] assms(2) by (simp add: make_chars_def)
  then show ?thesis using map_char_plain [OF True] True by (auto simp: key_text_def plain_def)
next
  case False
  have b: "begin_spchar 92 k = Some (False, k)"
    using reading_full [OF assms(1)] assms(2) by (simp add: begin_spchar_def)
  have "parse_from 3 (92 # 92 # (48 + c div 10) # (48 + c mod 10) # s) k
      = parse_from 4 (92 # (48 + c div 10) # (48 + c mod 10) # s) k"
    by (rule parse_step [where h = none]) (simp_all add: none_def)
  also have "\<dots> = Some k"
    by (rule parse_stop [where h = begin_spchar]) (simp_all add: b)
  finally show ?thesis using False by (simp add: key_text_def)
qed

text \<open>The end of the line stores the final 0.\<close>

lemma read_end:
  assumes "reading sc b pre k" "length pre < 10"
  shows "\<exists>k'. parse_from 3 (NEWLINE # s) k = Some k' \<and> \<not> parse_error k' \<and> parse_copy_data k' \<and>
           curr_scancode k' = sc \<and> file_buf k' = b \<and> kp_ok (k'\<lparr>file_buf := replicate 128 0\<rparr>) \<and>
           curr_kchars_str k' = over (pre @ [0]) (replicate 10 0)"
proof -
  obtain k' where k': "put_kchar 0 k = Some k'" "reading sc b (pre @ [0]) k'"
    using reading_put_kchar [OF assms] by blast
  have "do_success NEWLINE k = Some (False, k'\<lparr>parse_error := False, parse_copy_data := True\<rparr>)"
    by (simp add: do_success_def k'(1))
  then have "parse_from 3 (NEWLINE # s) k = Some (k'\<lparr>parse_error := False, parse_copy_data := True\<rparr>)"
    by (intro parse_stop [where h = do_success]) simp_all
  then show ?thesis using k'(2) by (simp add: reading_def kp_ok_def)
qed

lemma read_end_full:
  assumes "reading sc b pre k" "length pre = 10"
  shows "parse_from 3 (NEWLINE # s) k = None"
  using assms by (simp add: do_success_def put_kchar_def put_at_def reading_def over_def)

subsection \<open>A line\<close>

lemma digit_class: "is_digit c \<Longrightarrow> map_char c = DIGIT \<and> c \<noteq> 0"
  using digit_not [of c] by (auto simp: map_char_def is_digit_def)

lemma dec_code:
  assumes "0 < sc" "sc \<le> 64"
  obtains d where "is_digit d" "dec sc = [d]" | d e where "is_digit d" "is_digit e" "dec sc = [d, e]"
proof -
  have "length (dec sc) \<le> 2" using length_dec_nat [of "nat sc" 1] assms by (simp add: dec_def nat_less_iff)
  moreover have "dec sc \<noteq> []" using dec_nat_nonempty assms by (simp add: dec_def)
  moreover have "list_all is_digit (dec sc)" using dec_nat_digits assms by (simp add: dec_def)
  ultimately show ?thesis
    by (cases "dec sc"; cases "tl (dec sc)") (auto intro: that)
qed

lemma read_code:
  assumes ok: "kp_ok k" and sc: "0 < sc" "sc \<le> 64"
  shows "\<exists>k'. parse_from 0 (dec sc @ 32 # s) (parse_start k) = parse_from 3 s k' \<and> reading sc (file_buf k) [] k'"
proof -
  let ?k = "\<lambda>str p. (parse_start k)\<lparr>curr_scancode_str := str, curr_scancode_ptr := p\<rparr>"
  have r: "reading sc (file_buf k) [] ((?k str p)\<lparr>curr_scancode := sc\<rparr>)" if "length str = 4" for str p
    using ok that by (simp add: reading_def parse_start_def kp_ok_def over_def)
  have e: "end_sc 32 (?k str p) = Some (True, (?k str p)\<lparr>curr_scancode := sc\<rparr>)" if "cstr str = dec sc" for str p
    using that atoi_dec [of sc] sc by (simp add: end_sc_def)
  have m: "make_sc d (parse_start k) = Some (True, ?k [d, 0, 0, 0] 1)" for d
    using ok by (simp add: make_sc_def put_at_def parse_start_def kp_ok_def numeral_eq_Suc)
  have m2: "make_sc d (?k [c, 0, 0, 0] 1) = Some (True, ?k [c, d, 0, 0] 2)" for c d
    by (simp add: make_sc_def put_at_def)
  show ?thesis using sc
  proof (cases rule: dec_code)
    case (1 d)
    have c: "cstr [d, 0, 0, 0] = dec sc" using 1 cstr_app [of "[d]" "[0, 0]"] digit_class by simp
    show ?thesis using 1 digit_class [OF 1(1)] r [of "[d, 0, 0, 0]" 1] by (auto simp: m e [OF c])
  next
    case (2 d g)
    have c: "cstr [d, g, 0, 0] = dec sc" using 2 cstr_app [of "[d, g]" "[0]"] digit_class by simp
    show ?thesis
      using 2 digit_class [OF 2(1)] digit_class [OF 2(2)] r [of "[d, g, 0, 0]" 2]
      by (auto simp: m m2 e [OF c])
  qed
qed

lemma strcpy_keychars:
  assumes "0 \<notin> set ks" "length ks < 10" "length d = 13"
  shows "strcpy d (over (ks @ [0]) (replicate 10 0)) = Some (over (ks @ [0]) d)"
proof -
  have "cstr (over (ks @ [0]) (replicate 10 0)) = ks" using assms(1) by (simp add: over_def cstr_app)
  moreover have "0 \<in> set (over (ks @ [0]) (replicate 10 0))" by (simp add: over_def)
  ultimately show ?thesis using assms block_write_start [of "ks @ [0]" d] by (simp add: strcpy_def)
qed

lemma read_entry_text:
  assumes "kp_ok k" "0 < sc" "sc \<le> 64" "0 \<notin> set ks" "length ks \<le> 10"
  shows "\<exists>k'. parse_from 0 (entry_text sc ks @ s) (parse_start k) = parse_from 3 s k' \<and> reading sc (file_buf k) ks k'"
proof -
  obtain k1 where k1: "parse_from 0 (dec sc @ 32 # concat (map key_text ks) @ s) (parse_start k)
        = parse_from 3 (concat (map key_text ks) @ s) k1" "reading sc (file_buf k) [] k1"
    using read_code [OF assms(1-3)] by blast
  with read_keys [OF k1(2), of ks s] assms(4,5) show ?thesis by (simp add: entry_text_def)
qed

text \<open>The element in which an entry has been stored.\<close>

definition stored :: "int \<Rightarrow> byte list \<Rightarrow> KPMapScancode \<Rightarrow> KPMapScancode" where
  "stored sc ks e = \<lparr>scancode = sc, keychars = over (ks @ [0]) (keychars e)\<rparr>"

text \<open>The whole of \<open>parse_line\<close> on an entry of at most nine characters.\<close>

lemma parse_line_short:
  assumes ok: "kp_ok k" and e: "0 < sc" "sc \<le> 64" "0 \<notin> set ks" "length ks < 10"
    and m: "\<forall>e \<in> set map_sc. length (keychars e) = 13" "0 \<le> d"
  shows "if nat d < length map_sc then \<exists>k'. kp_ok k' \<and> file_buf k' = file_buf k \<and>
            parse_line map_sc d (entry_text sc ks @ NEWLINE # s) k = Some (True,
              map_sc[nat d := stored sc ks (map_sc ! nat d)], k')
         else parse_line map_sc d (entry_text sc ks @ NEWLINE # s) k = None"
proof -
  obtain k1 where k1: "parse_from 0 (entry_text sc ks @ NEWLINE # s) (parse_start k) = parse_from 3 (NEWLINE # s) k1"
      "reading sc (file_buf k) ks k1"
    using read_entry_text [OF ok e(1-3)] e(4) by (metis less_imp_le_nat)
  obtain k' where k': "parse_from 3 (NEWLINE # s) k1 = Some k'" "\<not> parse_error k'" "parse_copy_data k'"
      "curr_scancode k' = sc" "file_buf k' = file_buf k" "kp_ok (k'\<lparr>file_buf := replicate 128 0\<rparr>)"
      "curr_kchars_str k' = over (ks @ [0]) (replicate 10 0)"
    using read_end [OF k1(2) e(4)] by blast
  have "kp_ok k'" using k'(5,6) ok by (simp add: kp_ok_def)
  moreover have "length (keychars (map_sc ! nat d)) = 13" if "nat d < length map_sc" using m(1) that by simp
  ultimately show ?thesis
    using m(2) k' k1(1) strcpy_keychars [OF e(3,4)]
    by (simp add: parse_line_def stored_def get_at_def put_at_def del: parse_from.simps(2))
qed

lemma parse_line_ten:
  assumes "kp_ok k" "0 < sc" "sc \<le> 64" "0 \<notin> set ks" "length ks = 10"
  shows "parse_line map_sc d (entry_text sc ks @ NEWLINE # s) k = None"
proof -
  obtain k1 where k1: "parse_from 0 (entry_text sc ks @ NEWLINE # s) (parse_start k) = parse_from 3 (NEWLINE # s) k1"
      "reading sc (file_buf k) ks k1"
    using read_entry_text [OF assms(1-4)] assms(5) by (metis order_refl)
  show ?thesis unfolding parse_line_def k1(1) read_end_full [OF k1(2) assms(5)] by simp
qed

lemma parse_line_long:
  assumes "kp_ok k" "0 < sc" "sc \<le> 64" "0 \<notin> set ks" "10 < length ks"
  shows "\<exists>k'. parse_line map_sc d (entry_text sc ks @ s) k = Some (False, map_sc, k') \<and> kp_ok k'"
proof -
  have split: "entry_text sc ks @ s = entry_text sc (take 10 ks) @ key_text (ks ! 10) @ concat (map key_text (drop 11 ks)) @ s"
    using assms(5) arg_cong [OF id_take_nth_drop [of 10 ks], of "\<lambda>x. concat (map key_text x)"]
    by (simp add: entry_text_def)
  have z: "0 \<notin> set (take 10 ks)" using assms(4) in_set_takeD by fast
  have z': "ks ! 10 \<noteq> 0" using assms(4,5) nth_mem [of 10 ks] by metis
  obtain k1 where k1: "parse_from 0 (entry_text sc ks @ s) (parse_start k)
        = parse_from 3 (key_text (ks ! 10) @ concat (map key_text (drop 11 ks)) @ s) k1"
      "reading sc (file_buf k) (take 10 ks) k1"
    using read_entry_text [OF assms(1-3) z] assms(5) unfolding split by auto
  have "parse_from 0 (entry_text sc ks @ s) (parse_start k) = Some k1"
    using k1(1) read_key_full [OF k1(2) _ z'] assms(5) by simp
  moreover have "kp_ok k1" using k1(2) assms(1) by (simp add: reading_def kp_ok_def)
  ultimately show ?thesis using k1(2) by (simp add: parse_line_def reading_def)
qed

text \<open>
  The line of an entry with a scan code from 1 to 64 and characters other than 0, written with the
  decimal codes of those that have a meaning in the file, stores exactly this entry if it has up to
  nine characters; with ten the final 0 is stored outside the array; with more the line is refused
  and the map is as before.
\<close>

theorem parse_line_entry:
  assumes "kp_ok k" "0 < sc" "sc \<le> 64" "0 \<notin> set ks" "d < length map_sc"
    and "\<forall>e \<in> set map_sc. length (keychars e) = 13"
  shows "map_option (\<lambda>(ok, map_sc, k). (ok, map_sc)) (parse_line map_sc (int d) (entry_text sc ks @ NEWLINE # s) k) =
     (if length ks < 10 then Some (True, map_sc[d := stored sc ks (map_sc ! d)])
      else if length ks = 10 then None
      else Some (False, map_sc))"
proof -
  consider "length ks < 10" | "length ks = 10" | "10 < length ks" by linarith
  then show ?thesis
  proof cases
    case 1
    then show ?thesis using parse_line_short [OF assms(1-4) 1 assms(6), of "int d" s] assms(5) by auto
  next
    case 2
    then show ?thesis using parse_line_ten [OF assms(1-4) 2] by simp
  next
    case 3
    then show ?thesis using parse_line_long [OF assms(1-4) 3, of map_sc "int d" "NEWLINE # s"] by auto
  qed
qed

definition kp_start :: KpConf where
  "kp_start = \<lparr>file_buf = replicate 128 0, curr_scancode = 0, curr_scancode_str = replicate 4 0, curr_scancode_ptr = 0,
     curr_kchars_str = replicate 10 0, curr_kchars_ptr = 0, curr_spchar_str = replicate 5 0, curr_spchar_ptr = 0,
     parse_error = False, parse_copy_data = False\<rparr>"

lemma kp_start_ok [simp]: "kp_ok kp_start"
  by (simp add: kp_start_def kp_ok_def)

lemma parse_line_entry_witness:
  "map_option (\<lambda>(ok, map_sc, k). (ok, map_sc))
     (parse_line [kmap (0, [])] 0 (entry_text 12 [65, 32, 66] @ NEWLINE # [0]) kp_start) =
   Some (True, [stored 12 [65, 32, 66] (kmap (0, []))])"
  using parse_line_entry [of kp_start 12 "[65, 32, 66]" 0 "[kmap (0, [])]" "[0]"] by (simp add: kmap_def)

end
