(* ===== verification/Keypad_File_Props.thy ===== *)
theory Keypad_File_Props
  imports Keypad_Conf_Props
begin

text \<open>
  Reading the file: each line of a section takes the next element of the map, an entry fills it, any
  other line leaves it as it is; and the reading does not stop where the next section begins.
\<close>

subsection \<open>A line in the buffer\<close>

lemma take_line_newline: "10 \<notin> set t \<Longrightarrow> length t < n \<Longrightarrow> take_line n (t @ 10 # f) = (t @ [10], f)"
proof (induction t arbitrary: n)
  case Nil
  then show ?case by (cases n) simp_all
next
  case (Cons c t)
  then show ?case by (cases n) auto
qed

text \<open>The buffer after a line without its new line; with one; and with the second one appended.\<close>

definition buffered :: "byte list \<Rightarrow> KpConf \<Rightarrow> KpConf" where
  "buffered t k = k\<lparr>file_buf := over (t @ [10, 0]) (file_buf k)\<rparr>"

lemma fgets_line:
  assumes "kp_ok k" "10 \<notin> set t" "length t \<le> 125"
  shows "fgets (t @ 10 # f) k = Some (Some (f, buffered t k))"
  using assms take_line_newline [of t 127 f] block_write_start [of "t @ [10, 0]" "file_buf k"]
  by (simp add: fgets_def buffered_def kp_ok_def)

lemma kp_ok_buffered: "kp_ok k \<Longrightarrow> length t \<le> 125 \<Longrightarrow> kp_ok (buffered t k)"
  by (simp add: kp_ok_def buffered_def)

lemma cstr_buffered: "0 \<notin> set t \<Longrightarrow> cstr (file_buf (buffered t k)) = t @ [10]"
  using cstr_app [of "t @ [10]"] by (simp add: buffered_def over_def)

lemma buffered_append:
  assumes "kp_ok k" "length t \<le> 125"
  shows "block_write (file_buf (buffered t k)) (int (Suc (length t))) [10, 0]
       = Some (t @ 10 # 10 # 0 # drop (length t + 3) (file_buf k))"
proof -
  let ?b = "over (t @ [10, 0]) (file_buf k)"
  have b: "?b = over (t @ [10]) ?b" by (simp add: over_def)
  have "block_write (over (t @ [10]) ?b) (int (Suc (length t))) [10, 0] = Some (over ((t @ [10]) @ [10, 0]) ?b)"
    using assms by (intro block_write_over) (simp_all add: kp_ok_def)
  then show ?thesis unfolding b [symmetric] by (simp add: buffered_def over_def numeral_3_eq_3)
qed

subsection \<open>The lines of a section\<close>

text \<open>
  An entry, or a line that begins with the number sign or a bracket: a comment or a heading. A line
  with a second number sign would count as blank.
\<close>

datatype conf_item = Entry int "byte list" | Remark "byte list"

fun item_text :: "conf_item \<Rightarrow> byte list" where
  "item_text (Entry sc ks) = entry_text sc ks"
| "item_text (Remark t) = t"

fun item_ok :: "conf_item \<Rightarrow> bool" where
  "item_ok (Entry sc ks) \<longleftrightarrow> 0 < sc \<and> sc \<le> 64 \<and> 0 \<notin> set ks \<and> length (entry_text sc ks) \<le> 125"
| "item_ok (Remark t) \<longleftrightarrow> (case t of c # e # _ \<Rightarrow> (c = 35 \<or> c = 91) \<and> e \<noteq> 35 | _ \<Rightarrow> False) \<and>
     0 \<notin> set t \<and> 10 \<notin> set t \<and> length t \<le> 125"

definition file_text :: "conf_item list \<Rightarrow> byte list" where
  "file_text items = concat (map (\<lambda>i. item_text i @ [10]) items)"

text \<open>
  What the lines mean to the parser: whether all of them were taken, and the map; with ten characters
  or behind the last element there is a store outside an array.
\<close>

fun store_items :: "KPMapScancode list \<Rightarrow> nat \<Rightarrow> conf_item list \<Rightarrow> (bool \<times> KPMapScancode list) option" where
  "store_items map_sc d [] = Some (True, map_sc)"
| "store_items map_sc d (Entry sc ks # items) =
     (if 10 < length ks then Some (False, map_sc)
      else if length ks < 10 \<and> d < length map_sc
      then store_items (map_sc[d := stored sc ks (map_sc ! d)]) (Suc d) items
      else None)"
| "store_items map_sc d (Remark t # items) = store_items map_sc (Suc d) items"

lemma digit_range: "is_digit c \<Longrightarrow> c \<noteq> 0 \<and> c \<noteq> 10 \<and> c \<noteq> 35 \<and> \<not> is_space c"
  using digit_not [of c] by (auto simp: is_space_def is_digit_def word_le_nat_alt)

lemma key_text_chars: "c \<noteq> 0 \<Longrightarrow> 0 \<notin> set (key_text c) \<and> 10 \<notin> set (key_text c) \<and> length (key_text c) \<le> 4"
  using special_cases [of c] by (auto simp: key_text_def plain_def)

lemma keys_text:
  "0 \<notin> set ks \<Longrightarrow> 0 \<notin> set (concat (map key_text ks)) \<and> 10 \<notin> set (concat (map key_text ks))"
proof (induction ks)
  case (Cons c ks)
  then show ?case using key_text_chars [of c] by auto
qed simp

lemma entry_text_chars:
  assumes "item_ok (Entry sc ks)"
  shows "0 \<notin> set (entry_text sc ks)" "10 \<notin> set (entry_text sc ks)" "length (entry_text sc ks) \<le> 125"
    and "blank_from (entry_text sc ks @ s) = Some False"
proof -
  have sc: "0 < sc" "sc \<le> 64" and ks: "0 \<notin> set ks" "length (entry_text sc ks) \<le> 125" using assms by simp_all
  note t = keys_text [OF ks(1)]
  have d: "0 \<notin> set (dec sc)" "10 \<notin> set (dec sc)" "blank_from (dec sc @ 32 # x) = Some False" for x
    using sc by (cases rule: dec_code; auto dest!: digit_range)+
  with t ks(2) show "0 \<notin> set (entry_text sc ks)" "10 \<notin> set (entry_text sc ks)" "length (entry_text sc ks) \<le> 125"
    "blank_from (entry_text sc ks @ s) = Some False"
    unfolding entry_text_def by auto
qed

lemma item_text_chars:
  assumes "item_ok i"
  shows "0 \<notin> set (item_text i)" "10 \<notin> set (item_text i)" "length (item_text i) \<le> 125"
    and "blank_from (item_text i @ s) = Some False"
proof -
  have r: "\<exists>c e u. t = c # e # u \<and> \<not> is_space c \<and> e \<noteq> 35 \<and> e \<noteq> 0" if "item_ok (Remark t)" for t
    using that by (auto simp: is_space_def word_le_nat_alt split: list.splits)
  have "0 \<notin> set (item_text i) \<and> 10 \<notin> set (item_text i) \<and> length (item_text i) \<le> 125 \<and>
      blank_from (item_text i @ s) = Some False"
  proof (cases i)
    case (Entry sc ks)
    with assms entry_text_chars [of sc ks] show ?thesis by simp
  next
    case (Remark t)
    then have t: "item_ok (Remark t)" using assms by simp
    with r [OF t] Remark show ?thesis by auto
  qed
  then show "0 \<notin> set (item_text i)" "10 \<notin> set (item_text i)" "length (item_text i) \<le> 125"
    "blank_from (item_text i @ s) = Some False" by simp_all
qed

lemma parse_line_remark:
  assumes "kp_ok k" "item_ok (Remark t)"
  shows "\<exists>k'. parse_line map_sc d (t @ s) k = Some (True, map_sc, k') \<and> kp_ok k' \<and> file_buf k' = file_buf k"
proof -
  obtain c u where t: "t = c # u" "c = 35 \<or> c = 91" using assms(2) by (auto split: list.splits)
  let ?k = "(parse_start k)\<lparr>parse_error := False, parse_copy_data := False\<rparr>"
  have "parse_from 0 (t @ s) (parse_start k) = Some ?k"
    using t by (auto simp: do_exit_def)
  then have "parse_line map_sc d (t @ s) k = Some (True, map_sc, ?k)" by (simp add: parse_line_def)
  moreover have "kp_ok ?k" "file_buf ?k = file_buf k" using assms(1) by (simp_all add: kp_ok_def parse_start_def)
  ultimately show ?thesis by blast
qed

text \<open>One line of the loop.\<close>

definition wide :: "KPMapScancode list \<Rightarrow> bool" where
  "wide map_sc \<longleftrightarrow> (\<forall>e \<in> set map_sc. length (keychars e) = 13)"

lemma wide_update: "wide map_sc \<Longrightarrow> d < length map_sc \<Longrightarrow> length ks < 10 \<Longrightarrow>
    wide (map_sc[d := stored sc ks (map_sc ! d)])"
  using set_update_subset_insert [of map_sc d "stored sc ks (map_sc ! d)"]
  by (auto simp: wide_def stored_def)

lemma parse_item:
  assumes "kp_ok k" "item_ok i" "wide map_sc"
  shows "case store_items map_sc d [i] of
      None \<Rightarrow> parse_line map_sc (int d) (item_text i @ 10 # s) k = None
    | Some (ok, m) \<Rightarrow> wide m \<and>
        (\<exists>k'. kp_ok k' \<and> parse_line map_sc (int d) (item_text i @ 10 # s) k = Some (ok, m, k'))"
proof (cases i)
  case (Entry sc ks)
  with assms(2) have e: "0 < sc" "sc \<le> 64" "0 \<notin> set ks" by simp_all
  from assms(3) have w: "\<forall>e \<in> set map_sc. length (keychars e) = 13" by (simp add: wide_def)
  consider "length ks < 10" | "length ks = 10" | "10 < length ks" by linarith
  then show ?thesis
  proof cases
    case 1
    then show ?thesis
      using parse_line_short [OF assms(1) e 1 w, of "int d" s] wide_update [OF assms(3) _ 1, of d sc] Entry by auto
  next
    case 2
    then show ?thesis using parse_line_ten [OF assms(1) e 2, of map_sc "int d" s] Entry by simp
  next
    case 3
    then show ?thesis using parse_line_long [OF assms(1) e 3, of map_sc "int d" "10 # s"] assms(3) Entry by auto
  qed
next
  case (Remark t)
  with assms(2) have "item_ok (Remark t)" by simp
  with parse_line_remark [OF assms(1) this, of map_sc "int d" "10 # s"] assms(3) Remark show ?thesis by auto
qed

lemma conf_line:
  assumes k: "kp_ok k" and i: "item_ok i" and w: "wide map_sc"
  shows "case store_items map_sc d [i] of
      None \<Rightarrow> conf_lines map_sc (int d) (item_text i @ 10 # f) k = None
    | Some (ok, m) \<Rightarrow> wide m \<and> (\<exists>k'. kp_ok k' \<and> conf_lines map_sc (int d) (item_text i @ 10 # f) k =
        (if \<not> ok then Some (False, m, k')
         else if 64 \<le> Suc d then Some (True, m, k') else conf_lines m (int (Suc d)) f k'))"
proof -
  let ?t = "item_text i"
  let ?s = "10 # 0 # drop (length ?t + 3) (file_buf k)"
  let ?k = "(buffered ?t k)\<lparr>file_buf := ?t @ 10 # ?s\<rparr>"
  note t = item_text_chars [OF i]
  have bl: "is_blank_line (buffered ?t k) = Some False"
    using t(4) [of "10 # 0 # drop (length ?t + 2) (file_buf k)"]
    by (simp add: is_blank_line_def buffered_def over_def)
  have k': "kp_ok ?k" using k t(3) by (simp add: kp_ok_def buffered_def)
  have loop: "conf_lines map_sc (int d) (?t @ 10 # f) k = do {
      (ok, m, k'') \<leftarrow> parse_line map_sc (int d) (?t @ 10 # ?s) ?k;
      if \<not> ok then Some (False, m, k'')
      else if 64 \<le> Suc d then Some (True, m, k'') else conf_lines m (int (Suc d)) f k'' }"
    unfolding conf_lines.simps [of map_sc "int d" "?t @ 10 # f" k] fgets_line [OF k t(2,3)]
    using buffered_append [OF k t(3)]
    by (simp add: bl cstr_buffered [OF t(1)] add.commute cong: if_cong)
  show ?thesis using parse_item [OF k' i w, of d ?s] by (auto simp: loop split: option.splits)
qed

lemma store_items_Cons:
  "store_items map_sc d (i # items) =
     (case store_items map_sc d [i] of None \<Rightarrow> None
      | Some (ok, m) \<Rightarrow> if ok then store_items m (Suc d) items else Some (False, m))"
  by (cases i) simp_all

lemma conf_items:
  "kp_ok k \<Longrightarrow> list_all item_ok items \<Longrightarrow> wide map_sc \<Longrightarrow> d + length items \<le> 64 \<Longrightarrow>
     map_option (\<lambda>(ok, m, k). (ok, m)) (conf_lines map_sc (int d) (file_text items) k) =
     store_items map_sc d items"
proof (induction items arbitrary: k map_sc d)
  case Nil
  then show ?case by (simp add: file_text_def conf_lines.simps fgets_def)
next
  case (Cons i items)
  have i: "item_ok i" and its: "list_all item_ok items" and d: "Suc d + length items \<le> 64" using Cons.prems by simp_all
  note line = conf_line [OF Cons.prems(1) i Cons.prems(3), of d "file_text items"]
  have ft: "file_text (i # items) = item_text i @ 10 # file_text items" by (simp add: file_text_def)
  show ?case
  proof (cases "store_items map_sc d [i]")
    case None
    with line show ?thesis unfolding ft store_items_Cons [of map_sc d i items] by simp
  next
    case (Some om)
    obtain ok m where om: "om = (ok, m)" by force
    with Some line obtain k' where k': "wide m" "kp_ok k'" "conf_lines map_sc (int d) (item_text i @ 10 # file_text items) k =
        (if \<not> ok then Some (False, m, k')
         else if 64 \<le> Suc d then Some (True, m, k') else conf_lines m (int (Suc d)) (file_text items) k')"
      by auto
    have "length items = 0" if "64 \<le> Suc d" using that d by linarith
    then show ?thesis
      using Cons.IH [OF k'(2) its k'(1) d] Some om
      unfolding ft store_items_Cons [of map_sc d i items] k'(3) by auto
  qed
qed

subsection \<open>A section\<close>

definition lines_text :: "byte list list \<Rightarrow> byte list" where
  "lines_text ls = concat (map (\<lambda>t. t @ [10]) ls)"

text \<open>Lines before the heading \<open>mode\<close>, and the heading.\<close>

definition no_heading :: "byte list \<Rightarrow> byte list \<Rightarrow> bool" where
  "no_heading mode t \<longleftrightarrow> 10 \<notin> set t \<and> length t \<le> 125 \<and> take (length mode) t \<noteq> mode"

lemma buffered_no_heading:
  assumes "no_heading mode t" "10 \<notin> set mode"
  shows "take (length mode) (file_buf (buffered t k)) \<noteq> mode"
proof
  assume h: "take (length mode) (file_buf (buffered t k)) = mode"
  show False
  proof (cases "length mode \<le> length t")
    case True
    with h assms(1) show False by (simp add: buffered_def over_def no_heading_def)
  next
    case False
    then have "mode ! length t = file_buf (buffered t k) ! length t" using h nth_take [of "length t" "length mode"] by (metis not_le)
    then have "mode ! length t = 10" by (simp add: buffered_def over_def nth_append)
    with False assms(2) show False using nth_mem [of "length t" mode] by simp
  qed
qed

lemma pos_from_heading:
  assumes "kp_ok k" "list_all (no_heading mode) ls" "10 \<notin> set mode" "10 \<notin> set r" "length mode + length r \<le> 125"
  shows "\<exists>k'. kp_ok k' \<and> pos_from mode (lines_text ls @ mode @ r @ 10 # f) k = Some (True, f, k')"
  using assms(1,2)
proof (induction ls arbitrary: k)
  case Nil
  have "fgets (mode @ r @ 10 # f) k = Some (Some (f, buffered (mode @ r) k))"
    using fgets_line [OF Nil(1), of "mode @ r" f] assms(3-5) by simp
  moreover have "take (length mode) (file_buf (buffered (mode @ r) k)) = mode" by (simp add: buffered_def over_def)
  ultimately have "pos_from mode (lines_text [] @ mode @ r @ 10 # f) k = Some (True, f, buffered (mode @ r) k)"
    by (simp add: lines_text_def pos_from.simps)
  moreover have "kp_ok (buffered (mode @ r) k)" using kp_ok_buffered [OF Nil(1), of "mode @ r"] assms(5) by simp
  ultimately show ?case by blast
next
  case (Cons t ls)
  then have t: "no_heading mode t" "10 \<notin> set t" "length t \<le> 125" by (simp_all add: no_heading_def)
  let ?f = "lines_text ls @ mode @ r @ 10 # f"
  have "pos_from mode (lines_text (t # ls) @ mode @ r @ 10 # f) k = pos_from mode ?f (buffered t k)"
    using fgets_line [OF Cons.prems(1) t(2,3), of ?f] buffered_no_heading [OF t(1) assms(3), of k]
    by (simp add: lines_text_def pos_from.simps [of mode "t @ _"])
  with Cons.IH [OF kp_ok_buffered [OF Cons.prems(1) t(3)]] Cons.prems(2) show ?case by simp
qed

lemma store_items_length: "store_items map_sc d items = Some (ok, m) \<Longrightarrow> length m = length map_sc"
  by (induction map_sc d items rule: store_items.induct) (auto split: if_splits)

text \<open>
  C28. Reading a section of at most 64 lines up to the end of the file: every line takes the next
  element of the map, an entry is stored in it and any other line, the heading of the next section
  included, leaves it as it was. If all are taken the result is 0; if one has too many characters the
  map becomes the defaults, over what had been stored, and the result is 1. If an entry has ten
  characters or comes after the last element of the map the program stores outside an array.
\<close>

theorem conf_mode_reads_lines:
  assumes "kp_ok k" "wide map_sc" "list_all item_ok items" "length items \<le> 64"
    and "list_all (no_heading mode) ls" "10 \<notin> set mode" "10 \<notin> set r" "length mode + length r \<le> 125"
    and "length def_map \<le> length map_sc"
  shows "map_option (\<lambda>(ret, map_sc, k). (ret, map_sc))
       (conf_mode (Some (lines_text ls @ mode @ r @ 10 # file_text items)) map_sc def_map mode k) =
     (case store_items map_sc 0 items of
        None \<Rightarrow> None
      | Some (ok, m) \<Rightarrow> Some (if ok then (0, m) else (1, def_map @ drop (length def_map) m)))"
proof -
  obtain k' where k': "kp_ok k'" "pos_from mode (lines_text ls @ mode @ r @ 10 # file_text items) k = Some (True, file_text items, k')"
    using pos_from_heading [OF assms(1,5-8)] by blast
  show ?thesis
    using conf_items [OF k'(1) assms(3,2), of 0] assms(4,9) k'(2)
    by (cases "conf_lines map_sc 0 (file_text items) k'"; cases "store_items map_sc 0 items")
       (auto simp: conf_mode_def pos_in_first_line_def dest: store_items_length)
qed

lemma conf_mode_behind:
  assumes "kp_ok k" "wide map_sc" "list_all item_ok items" "length items \<le> 64"
    and "10 \<notin> set mode" "10 \<notin> set r" "length mode + length r \<le> 125" "store_items map_sc 0 items = None"
  shows "conf_mode (Some (mode @ r @ 10 # file_text items)) map_sc def_map mode k = None"
proof -
  obtain k' where k': "kp_ok k'" "pos_from mode (lines_text [] @ mode @ r @ 10 # file_text items) k = Some (True, file_text items, k')"
    using pos_from_heading [OF assms(1) _ assms(5-7), of "[]"] by auto
  show ?thesis
    using conf_items [OF k'(1) assms(3,2), of 0] assms(4,8) k'(2)
    by (cases "conf_lines map_sc 0 (file_text items) k'") (auto simp: conf_mode_def pos_in_first_line_def lines_text_def)
qed

lemma plain_entry:
  assumes "0 < sc" "sc \<le> 64" "plain c"
  shows "item_ok (Entry sc [c])"
proof -
  have "length (dec sc) \<le> 2" using assms(1,2) by (cases rule: dec_code) simp_all
  then show ?thesis using assms by (auto simp: entry_text_def key_text_def plain_def)
qed

lemma kmap_wide: "set xs = {kmap (0, [])} \<Longrightarrow> wide xs"
  by (simp add: wide_def kmap_def)

lemma conf_mode_reads_lines_witness:
  "map_option (\<lambda>(ret, map_sc, k). (ret, map_sc))
       (conf_mode (Some (lines_text [[35, 32]] @ [91, 120, 93] @ [] @ 10 # file_text [Entry 3 [65], Remark [35, 32], Entry 4 [66]]))
          [kmap (0, []), kmap (0, []), kmap (0, []), kmap (0, [])] [] [91, 120, 93] kp_start) =
     Some (0, [stored 3 [65] (kmap (0, [])), kmap (0, []), stored 4 [66] (kmap (0, [])), kmap (0, [])])"
  by (subst conf_mode_reads_lines)
    (simp_all add: kmap_wide plain_entry plain_def no_heading_def del: item_ok.simps(1))

text \<open>An entry behind the last element, after lines that are all taken.\<close>

fun short :: "conf_item \<Rightarrow> bool" where
  "short (Entry sc ks) \<longleftrightarrow> length ks < 10"
| "short (Remark t) \<longleftrightarrow> True"

lemma store_items_behind:
  "list_all short xs \<Longrightarrow> length map_sc \<le> d + length xs \<Longrightarrow> length ks < 10 \<Longrightarrow>
     store_items map_sc d (xs @ Entry sc ks # ys) = None"
proof (induction xs arbitrary: map_sc d)
  case (Cons x xs)
  then show ?case by (cases x) simp_all
qed simp

definition sections_text :: "conf_item list \<Rightarrow> conf_item list \<Rightarrow> byte list" where
  "sections_text nums rest = chars ''[numeric]'' @ 10 # file_text (nums @ Remark (chars ''[alphanumeric]'') # rest)"

lemma headings:
  "chars ''[numeric]'' = [91, 110, 117, 109, 101, 114, 105, 99, 93]"
  "chars ''[alphanumeric]'' = [91, 97, 108, 112, 104, 97, 110, 117, 109, 101, 114, 105, 99, 93]"
  by (simp_all add: chars_def)

lemma length_def_map_num: "length def_map_num = 10"
  by (simp add: def_map_num_def)

text \<open>
  A file with a numeric and an alphanumeric section in which both together have as many entries as
  the numeric map has elements, or more, makes the initialisation store behind the numeric map, each
  section on its own being correct and short enough.
\<close>

theorem sections_run_on:
  assumes "kp_ok k" "wide map_num" "10 \<le> length map_num"
    and "list_all item_ok (nums @ alphas)" "list_all short (nums @ alphas)"
    and "length nums + length alphas < 64" "length map_num \<le> length nums + length alphas"
    and "alphas = front @ [Entry sc ks]"
  shows "init_conf_modes (Some (sections_text nums alphas)) map_num map_alphanum map_nav k = None"
proof -
  let ?items = "nums @ Remark (chars ''[alphanumeric]'') # alphas"
  have ok: "list_all item_ok ?items" using assms(4) by (simp add: headings)
  have "store_items map_num 0 ((nums @ Remark (chars ''[alphanumeric]'') # front) @ Entry sc ks # []) = None"
    using assms(5,7,8) by (intro store_items_behind) simp_all
  then have none: "store_items map_num 0 ?items = None" by (simp add: assms(8))
  have "conf_mode (Some (chars ''[numeric]'' @ [] @ 10 # file_text ?items)) map_num def_map_num (chars ''[numeric]'') k = None"
    using assms(6) by (intro conf_mode_behind [OF assms(1,2) ok]) (simp_all add: none [unfolded headings] headings)
  then show ?thesis by (simp add: init_conf_modes_def sections_text_def lines_text_def)
qed

lemma sections_run_on_witness:
  "init_conf_modes (Some (sections_text (replicate 10 (Entry 1 [65])) [Entry 2 [66]]))
     (replicate 11 (kmap (0, []))) def_map_alphanum def_map_nav kp_start = None"
  by (rule sections_run_on [where front = "[]" and sc = 2 and ks = "[66]"])
    (simp_all add: kmap_wide plain_entry plain_def list_all_iff del: item_ok.simps(1))

end
