(* ===== verification/Keypad_Drv.thy ===== *)
theory Keypad_Drv
  imports Keypad_Conf Device_Calls
begin

text \<open>
  The keypad library over the device driver: \<open>src/src/system/ui/jkeyboard/arm-linux/drv-keypadlib.c\<close>.

  The operating system is the parameter \<open>sys\<close>. The variables of the library, with \<open>errno\<close>,
  are the record \<open>Kp\<close>. Every operation takes and returns the library and the world.
\<close>

datatype request =
    KP_IOCTMODE | KP_IOCQMODE | KP_IOCSMAPSCANCODE | KP_IOCXMAPSCANCODE | KP_IOCTXLATETIMEOUT
  | KP_IOCQXLATETIMEOUT | KP_IOCTXLATESPECIALKEY | KP_IOCQXLATESPECIALKEY
  | KP_IOCTRAWONKEYPRESSED_ON | KP_IOCTRAWONKEYPRESSED_OFF | KP_IOCQRAWISONKEYPRESSED_ON
  | KP_IOCTRAWONKEYRELEASED_ON | KP_IOCTRAWONKEYRELEASED_OFF | KP_IOCQRAWISONKEYRELEASED_ON
  | KP_IOCTSENDXLATESPECIALKEY_ON | KP_IOCTSENDXLATESPECIALKEY_OFF | KP_IOCQSENDXLATESPECIALKEY

datatype argument = Value int | Mapping KPMapScancode

record Kp =
  fd :: int
  map_scancode_to_num :: "KPMapScancode list"
  map_scancode_to_alphanum :: "KPMapScancode list"
  map_scancode_to_nav :: "KPMapScancode list"
  kp_errno :: int
  errno :: int
  kp_conf :: KpConf

definition MAX_NAVIGATION_KEYS :: nat where [simp]: "MAX_NAVIGATION_KEYS = 16"
definition MAX_NUMERIC_KEYS :: nat where [simp]: "MAX_NUMERIC_KEYS = 11"
definition MAX_ALPHANUMERIC_KEYS :: nat where [simp]: "MAX_ALPHANUMERIC_KEYS = 13"

definition KEYPAD_NODE_NAME :: "byte list" where "KEYPAD_NODE_NAME = chars ''/dev/keypad''"

definition KP_RAW :: int where [simp]: "KP_RAW = 0"
definition KP_XLATE :: int where [simp]: "KP_XLATE = 1"
definition KP_ONKEYPRESSED :: "32 word" where [simp]: "KP_ONKEYPRESSED = 1"
definition KP_ONKEYRELEASED :: "32 word" where [simp]: "KP_ONKEYRELEASED = 2"

subsection \<open>Errors\<close>

definition KPLIB_GLOBAL_ERROR :: int where [simp]: "KPLIB_GLOBAL_ERROR = 1"
definition KPLIB_ALREADY_OPEN :: int where [simp]: "KPLIB_ALREADY_OPEN = 2"
definition KPLIB_ALREADY_CLOSED :: int where [simp]: "KPLIB_ALREADY_CLOSED = 3"
definition KPLIB_INVALID_ARGUMENT :: int where [simp]: "KPLIB_INVALID_ARGUMENT = 4"
definition KPLIB_EAGAIN :: int where [simp]: "KPLIB_EAGAIN = 5"

text \<open>The error numbers of the system, as Linux has them on ARM.\<close>

definition EAGAIN :: int where [simp]: "EAGAIN = 11"
definition EBUSY :: int where [simp]: "EBUSY = 16"
definition EINVAL :: int where [simp]: "EINVAL = 22"
definition ENOTTY :: int where [simp]: "ENOTTY = 25"

definition errmsgs :: "byte list option list" where
  "errmsgs =
     [None, Some (chars ''Keypadlib: general error!''), Some (chars ''Keypadlib: already opened!''),
      Some (chars ''Keypadlib: not opened!''), Some (chars ''Keypadlib: invalid argument!''),
      Some (chars ''Keypadlib: no hay datos disponibles!'')]"

definition map_file_error :: "Kp \<Rightarrow> int" where
  "map_file_error s =
     (if errno s = EAGAIN then KPLIB_EAGAIN
      else if errno s = EBUSY then KPLIB_ALREADY_OPEN
      else if errno s = EINVAL then KPLIB_INVALID_ARGUMENT
      else if errno s = ENOTTY then KPLIB_GLOBAL_ERROR
      else KPLIB_GLOBAL_ERROR)"

definition kp_get_error :: "Kp \<Rightarrow> int" where
  "kp_get_error s = kp_errno s"

text \<open>
  \<open>sizeof(errmsgs) / sizeof(errmsgs[0])\<close> is unsigned, so that \<open>err\<close> is compared as one; the test for
  negative numbers comes before.
\<close>

definition kp_get_error_msg :: "int \<Rightarrow> byte list option" where
  "kp_get_error_msg err = (if err < 0 \<or> err \<ge> int (length errmsgs) then None else errmsgs ! nat err)"

subsection \<open>Calls of the system\<close>

text \<open>A call sets \<open>errno\<close> when it fails.\<close>

definition syscall :: "(request \<times> argument, 'w) system \<Rightarrow> (request \<times> argument) kernel_call \<Rightarrow> Kp \<Rightarrow> 'w \<Rightarrow> answer \<times> Kp \<times> 'w" where
  "syscall sys c s w =
     (let (a, w) = sys c w in (a, if result a < 0 then s\<lparr>errno := failure a\<rparr> else s, w))"

definition clear_error :: "Kp \<Rightarrow> Kp" where
  "clear_error s = s\<lparr>kp_errno := 0\<rparr>"

text \<open>\<open>if (ret_val < 0) kp_errno = map_file_error()\<close>.\<close>

definition note_error :: "int \<Rightarrow> Kp \<Rightarrow> Kp" where
  "note_error ret s = (if ret < 0 then s\<lparr>kp_errno := map_file_error s\<rparr> else s)"

text \<open>The body of the operations that are one \<open>ioctl\<close>.\<close>

definition kp_ioctl :: "(request \<times> argument, 'w) system \<Rightarrow> request \<Rightarrow> argument \<Rightarrow> Kp \<Rightarrow> 'w \<Rightarrow> int \<times> Kp \<times> 'w" where
  "kp_ioctl sys r x s w =
     (let s = clear_error s;
          (a, s, w) = syscall sys (Sys_ioctl (fd s) (r, x)) s w
      in (result a, note_error (result a) s, w))"

subsection \<open>Modes and keys\<close>

definition kp_set_mode :: "(request \<times> argument, 'w) system \<Rightarrow> int \<Rightarrow> Kp \<Rightarrow> 'w \<Rightarrow> int \<times> Kp \<times> 'w" where
  "kp_set_mode sys mode = kp_ioctl sys KP_IOCTMODE (Value mode)"

definition kp_get_mode :: "(request \<times> argument, 'w) system \<Rightarrow> Kp \<Rightarrow> 'w \<Rightarrow> int \<times> Kp \<times> 'w" where
  "kp_get_mode sys = kp_ioctl sys KP_IOCQMODE (Value 0)"

definition kp_set_raw_mode :: "(request \<times> argument, 'w) system \<Rightarrow> Kp \<Rightarrow> 'w \<Rightarrow> int \<times> Kp \<times> 'w" where
  "kp_set_raw_mode sys s w =
     (let (ret, s, w) = kp_set_mode sys KP_RAW (clear_error s) w in (ret, note_error ret s, w))"

definition kp_set_xlate_mode :: "(request \<times> argument, 'w) system \<Rightarrow> Kp \<Rightarrow> 'w \<Rightarrow> int \<times> Kp \<times> 'w" where
  "kp_set_xlate_mode sys s w =
     (let (ret, s, w) = kp_set_mode sys KP_XLATE (clear_error s) w in (ret, note_error ret s, w))"

definition kp_set_onreleased_evt_on :: "(request \<times> argument, 'w) system \<Rightarrow> int \<Rightarrow> Kp \<Rightarrow> 'w \<Rightarrow> int \<times> Kp \<times> 'w" where
  "kp_set_onreleased_evt_on sys sc = kp_ioctl sys KP_IOCTRAWONKEYRELEASED_ON (Value sc)"

definition kp_set_onreleased_evt_off :: "(request \<times> argument, 'w) system \<Rightarrow> int \<Rightarrow> Kp \<Rightarrow> 'w \<Rightarrow> int \<times> Kp \<times> 'w" where
  "kp_set_onreleased_evt_off sys sc = kp_ioctl sys KP_IOCTRAWONKEYRELEASED_OFF (Value sc)"

definition kp_is_onreleased_evt_on :: "(request \<times> argument, 'w) system \<Rightarrow> int \<Rightarrow> Kp \<Rightarrow> 'w \<Rightarrow> int \<times> Kp \<times> 'w" where
  "kp_is_onreleased_evt_on sys sc = kp_ioctl sys KP_IOCQRAWISONKEYRELEASED_ON (Value sc)"

definition kp_set_onpressed_evt_on :: "(request \<times> argument, 'w) system \<Rightarrow> int \<Rightarrow> Kp \<Rightarrow> 'w \<Rightarrow> int \<times> Kp \<times> 'w" where
  "kp_set_onpressed_evt_on sys sc = kp_ioctl sys KP_IOCTRAWONKEYPRESSED_ON (Value sc)"

definition kp_set_onpressed_evt_off :: "(request \<times> argument, 'w) system \<Rightarrow> int \<Rightarrow> Kp \<Rightarrow> 'w \<Rightarrow> int \<times> Kp \<times> 'w" where
  "kp_set_onpressed_evt_off sys sc = kp_ioctl sys KP_IOCTRAWONKEYPRESSED_OFF (Value sc)"

definition kp_is_onpressed_evt_on :: "(request \<times> argument, 'w) system \<Rightarrow> int \<Rightarrow> Kp \<Rightarrow> 'w \<Rightarrow> int \<times> Kp \<times> 'w" where
  "kp_is_onpressed_evt_on sys sc = kp_ioctl sys KP_IOCQRAWISONKEYPRESSED_ON (Value sc)"

text \<open>The event is a bit mask.\<close>

definition kp_set_scancode_evt :: "(request \<times> argument, 'w) system \<Rightarrow> int \<Rightarrow> 32 word \<Rightarrow> Kp \<Rightarrow> 'w \<Rightarrow> int \<times> Kp \<times> 'w" where
  "kp_set_scancode_evt sys sc event s w =
     (let s = clear_error s;
          (ret, s, w) = (if and event KP_ONKEYPRESSED \<noteq> 0 then kp_set_onpressed_evt_on sys sc s w
                         else kp_set_onpressed_evt_off sys sc s w)
      in if ret < 0 then (ret, s, w)
         else if and event KP_ONKEYRELEASED \<noteq> 0 then kp_set_onreleased_evt_on sys sc s w
         else kp_set_onreleased_evt_off sys sc s w)"

text \<open>\<open>strncpy\<close> of 12 bytes, and a final 0.\<close>

definition kp_set_mapscancode :: "(request \<times> argument, 'w) system \<Rightarrow> int \<Rightarrow> byte list \<Rightarrow> Kp \<Rightarrow> 'w \<Rightarrow> int \<times> Kp \<times> 'w" where
  "kp_set_mapscancode sys sc chs =
     kp_ioctl sys KP_IOCSMAPSCANCODE (Mapping \<lparr>scancode = sc,
       keychars = take KP_MAX_CHARS_PER_SCANCODE (cstr chs @ replicate KP_MAX_CHARS_PER_SCANCODE 0) @ [0]\<rparr>)"

definition kp_set_sendxlatespecialkey :: "(request \<times> argument, 'w) system \<Rightarrow> int \<Rightarrow> bool \<Rightarrow> Kp \<Rightarrow> 'w \<Rightarrow> int \<times> Kp \<times> 'w" where
  "kp_set_sendxlatespecialkey sys sc on =
     kp_ioctl sys (if on then KP_IOCTSENDXLATESPECIALKEY_ON else KP_IOCTSENDXLATESPECIALKEY_OFF) (Value sc)"

definition kp_set_sendxlatespecialkey_on :: "(request \<times> argument, 'w) system \<Rightarrow> int \<Rightarrow> Kp \<Rightarrow> 'w \<Rightarrow> int \<times> Kp \<times> 'w" where
  "kp_set_sendxlatespecialkey_on sys sc = kp_set_sendxlatespecialkey sys sc True"

definition kp_set_sendxlatespecialkey_off :: "(request \<times> argument, 'w) system \<Rightarrow> int \<Rightarrow> Kp \<Rightarrow> 'w \<Rightarrow> int \<times> Kp \<times> 'w" where
  "kp_set_sendxlatespecialkey_off sys sc = kp_set_sendxlatespecialkey sys sc False"

definition kp_get_sendxlatespecialkey :: "(request \<times> argument, 'w) system \<Rightarrow> int \<Rightarrow> Kp \<Rightarrow> 'w \<Rightarrow> int \<times> Kp \<times> 'w" where
  "kp_get_sendxlatespecialkey sys sc = kp_ioctl sys KP_IOCQSENDXLATESPECIALKEY (Value sc)"

definition kp_set_xlatetimeout :: "(request \<times> argument, 'w) system \<Rightarrow> int \<Rightarrow> Kp \<Rightarrow> 'w \<Rightarrow> int \<times> Kp \<times> 'w" where
  "kp_set_xlatetimeout sys timeout = kp_ioctl sys KP_IOCTXLATETIMEOUT (Value timeout)"

definition kp_get_xlatetimeout :: "(request \<times> argument, 'w) system \<Rightarrow> Kp \<Rightarrow> 'w \<Rightarrow> int \<times> Kp \<times> 'w" where
  "kp_get_xlatetimeout sys = kp_ioctl sys KP_IOCQXLATETIMEOUT (Value 0)"

definition kp_set_xlatespecialkey :: "(request \<times> argument, 'w) system \<Rightarrow> int \<Rightarrow> Kp \<Rightarrow> 'w \<Rightarrow> int \<times> Kp \<times> 'w" where
  "kp_set_xlatespecialkey sys specialkey = kp_ioctl sys KP_IOCTXLATESPECIALKEY (Value specialkey)"

definition kp_get_xlatespecialkey :: "(request \<times> argument, 'w) system \<Rightarrow> Kp \<Rightarrow> 'w \<Rightarrow> int \<times> Kp \<times> 'w" where
  "kp_get_xlatespecialkey sys = kp_ioctl sys KP_IOCQXLATESPECIALKEY (Value 0)"

text \<open>
  The driver answers in the structure, whose text is copied even if the call failed: it was made empty
  before. A text without an end is read past the structure.
\<close>

definition kp_get_mapscancode :: "(request \<times> argument, 'w) system \<Rightarrow> int \<Rightarrow> byte list \<Rightarrow> Kp \<Rightarrow> 'w \<Rightarrow> (int \<times> byte list \<times> Kp \<times> 'w) option" where
  "kp_get_mapscancode sys sc chs s w =
     (let s = clear_error s;
          x = Mapping \<lparr>scancode = sc, keychars = replicate (KP_MAX_CHARS_PER_SCANCODE + 1) 0\<rparr>;
          (a, s, w) = syscall sys (Sys_ioctl (fd s) (KP_IOCXMAPSCANCODE, x)) s w
      in do {
        chs \<leftarrow> strcpy chs (if result a < 0 then [0] else bytes a);
        Some (result a, chs, note_error (result a) s, w)
      })"

subsection \<open>Sending a map\<close>

text \<open>
  The loop of \<open>kp_set_numeric_mode\<close> and its like over the elements of a map; elements without a scan
  code are left out.
\<close>

fun send_map :: "(request \<times> argument, 'w) system \<Rightarrow> bool \<Rightarrow> KPMapScancode list \<Rightarrow> Kp \<Rightarrow> 'w \<Rightarrow> int \<times> Kp \<times> 'w" where
  "send_map sys on [] s w = (0, s, w)"
| "send_map sys on (e # es) s w =
     (if scancode e > 0 then
        (let (ret, s, w) = kp_set_mapscancode sys (scancode e) (keychars e) s w in
         if ret < 0 then (ret, s\<lparr>kp_errno := map_file_error s\<rparr>, w)
         else
           (let (ret, s, w) = kp_set_sendxlatespecialkey sys (scancode e) on s w in
            if ret < 0 then (ret, s\<lparr>kp_errno := map_file_error s\<rparr>, w)
            else send_map sys on es s w))
      else send_map sys on es s w)"

text \<open>The end of the loop is the address of the last element: that one is not sent.\<close>

definition kp_set_numeric_mode :: "(request \<times> argument, 'w) system \<Rightarrow> Kp \<Rightarrow> 'w \<Rightarrow> int \<times> Kp \<times> 'w" where
  "kp_set_numeric_mode sys s w =
     (let s = clear_error s in
      send_map sys True (take (MAX_NUMERIC_KEYS - 1) (map_scancode_to_num s)) s w)"

definition kp_set_alphanum_mode :: "(request \<times> argument, 'w) system \<Rightarrow> Kp \<Rightarrow> 'w \<Rightarrow> int \<times> Kp \<times> 'w" where
  "kp_set_alphanum_mode sys s w =
     (let s = clear_error s in
      send_map sys True (take (MAX_ALPHANUMERIC_KEYS - 1) (map_scancode_to_alphanum s)) s w)"

definition kp_set_navigation_mode :: "(request \<times> argument, 'w) system \<Rightarrow> Kp \<Rightarrow> 'w \<Rightarrow> int \<times> Kp \<times> 'w" where
  "kp_set_navigation_mode sys s w =
     (let s = clear_error s in
      send_map sys False (take (MAX_NAVIGATION_KEYS - 1) (map_scancode_to_nav s)) s w)"

subsection \<open>Opening and closing\<close>

text \<open>A map after \<open>memset\<close>.\<close>

definition cleared :: "nat \<Rightarrow> KPMapScancode list" where
  "cleared n = replicate n (kmap (0, []))"

text \<open>\<open>keypad.conf\<close> as \<open>fopen\<close> finds it is the parameter \<open>conff\<close>. Results after the opening are ignored.\<close>

definition kp_init_open :: "(request \<times> argument, 'w) system \<Rightarrow> byte list option \<Rightarrow> int \<Rightarrow> Kp \<Rightarrow> 'w \<Rightarrow> (int \<times> Kp \<times> 'w) option" where
  "kp_init_open sys conff mode s w =
     (let s = clear_error s in
      if fd s \<noteq> -1 then Some (- KPLIB_ALREADY_OPEN, s\<lparr>kp_errno := KPLIB_ALREADY_OPEN\<rparr>, w)
      else
        (let (a, s, w) = syscall sys (Sys_open KEYPAD_NODE_NAME (or O_RDWR mode)) s w;
             s = s\<lparr>fd := result a\<rparr>
         in if result a < 0 then (let s = s\<lparr>kp_errno := map_file_error s\<rparr> in Some (- kp_errno s, s, w))
            else do {
              (num, alphanum, nav, k) \<leftarrow>
                init_conf_modes conff (cleared MAX_NUMERIC_KEYS) (cleared MAX_ALPHANUMERIC_KEYS)
                  (cleared MAX_NAVIGATION_KEYS) (kp_conf s);
              let s = s\<lparr>map_scancode_to_num := num, map_scancode_to_alphanum := alphanum,
                        map_scancode_to_nav := nav, kp_conf := k\<rparr>;
              let (_, s, w) = kp_set_xlate_mode sys s w;
              let (_, s, w) = kp_set_alphanum_mode sys s w;
              let (_, s, w) = kp_set_navigation_mode sys s w;
              Some (0, s, w)
            }))"

definition kp_nonblock_open :: "(request \<times> argument, 'w) system \<Rightarrow> byte list option \<Rightarrow> Kp \<Rightarrow> 'w \<Rightarrow> (int \<times> Kp \<times> 'w) option" where
  "kp_nonblock_open sys conff = kp_init_open sys conff O_NONBLOCK"

definition kp_open :: "(request \<times> argument, 'w) system \<Rightarrow> byte list option \<Rightarrow> Kp \<Rightarrow> 'w \<Rightarrow> (int \<times> Kp \<times> 'w) option" where
  "kp_open sys conff = kp_init_open sys conff 0"

definition kp_close :: "(request \<times> argument, 'w) system \<Rightarrow> Kp \<Rightarrow> 'w \<Rightarrow> int \<times> Kp \<times> 'w" where
  "kp_close sys s w =
     (let s = clear_error s in
      if fd s = -1 then (- KPLIB_ALREADY_CLOSED, s\<lparr>kp_errno := KPLIB_ALREADY_CLOSED\<rparr>, w)
      else
        (let (a, s, w) = syscall sys (Sys_close (fd s)) s w in
         if result a < 0 then (let s = s\<lparr>kp_errno := map_file_error s\<rparr> in (- kp_errno s, s, w))
         else (0, s\<lparr>fd := -1\<rparr>, w)))"

subsection \<open>Reading and writing\<close>

text \<open>The bytes read are in the answer; the caller's buffer gets them from its start.\<close>

definition kp_read :: "(request \<times> argument, 'w) system \<Rightarrow> byte list \<Rightarrow> int \<Rightarrow> Kp \<Rightarrow> 'w \<Rightarrow> (int \<times> byte list \<times> Kp \<times> 'w) option" where
  "kp_read sys buf count s w =
     (let s = clear_error s;
          (a, s, w) = syscall sys (Sys_read (fd s) count) s w
      in do {
        buf \<leftarrow> block_write buf 0 (bytes a);
        Some (result a, buf, note_error (result a) s, w)
      })"

text \<open>
  At the end of the input the character that is returned was never set. A \<open>char\<close> is unsigned on ARM.
\<close>

definition kp_getc :: "(request \<times> argument, 'w) system \<Rightarrow> Kp \<Rightarrow> 'w \<Rightarrow> (int \<times> Kp \<times> 'w) option" where
  "kp_getc sys s w =
     (let s = clear_error s;
          (a, s, w) = syscall sys (Sys_read (fd s) 1) s w
      in if result a < 0 then Some (-1, s\<lparr>kp_errno := map_file_error s\<rparr>, w)
         else do {
           c \<leftarrow> get_at (bytes a) 0;
           Some (uint c, s, w)
         })"

definition kp_kbhit :: "(request \<times> argument, 'w) system \<Rightarrow> Kp \<Rightarrow> 'w \<Rightarrow> int \<times> Kp \<times> 'w" where
  "kp_kbhit sys s w =
     (let s = clear_error s;
          (a, s, w) = syscall sys (Sys_select (fd s)) s w
      in if result a < 0 then (-1, s\<lparr>kp_errno := map_file_error s\<rparr>, w)
         else (if result a > 0 then 1 else 0, s, w))"

text \<open>
  The loop of \<open>kp_gets\<close>, and with \<open>lines\<close> false of \<open>kp_getstring\<close>: \<open>i\<close> characters are in \<open>dst\<close>, and
  the result has their number and the last value of \<open>read\<close>.
\<close>

function gets_from ::
  "(request \<times> argument, 'w) system \<Rightarrow> bool \<Rightarrow> nat \<Rightarrow> byte list \<Rightarrow> int \<Rightarrow> int \<Rightarrow> Kp \<Rightarrow> 'w \<Rightarrow> (nat \<times> byte list \<times> int \<times> Kp \<times> 'w) option" where
  "gets_from sys lines i dst sz ret s w =
     (let sz = sz - 1 in
      if sz = 0 then Some (i, dst, ret, s, w)
      else
        (let (a, s, w) = syscall sys (Sys_read (fd s) 1) s w in
         if result a \<noteq> 1 then Some (i, dst, result a, s, w)
         else do {
           c \<leftarrow> get_at (bytes a) 0;
           dst' \<leftarrow> put_at dst (int i) c;
           if lines \<and> c = NEWLINE then Some (Suc i, dst', 1, s, w)
           else gets_from sys lines (Suc i) dst' sz 1 s w
         }))"
  by pat_completeness auto
termination
  by (relation "measure (\<lambda>(sys, lines, i, dst, sz, ret, s, w). length dst - i)") (auto simp: put_at_Some)

declare gets_from.simps [simp del]

text \<open>The text, or \<open>None\<close> for a null pointer, inside the \<open>option\<close> of the store.\<close>

definition gets_with ::
  "(request \<times> argument, 'w) system \<Rightarrow> bool \<Rightarrow> byte list \<Rightarrow> int \<Rightarrow> Kp \<Rightarrow> 'w \<Rightarrow> (byte list option \<times> Kp \<times> 'w) option" where
  "gets_with sys lines dst sz s w = do {
     (i, dst, ret, s, w) \<leftarrow> gets_from sys lines 0 dst sz 0 (clear_error s) w;
     if ret < 0 then Some (None, s\<lparr>kp_errno := map_file_error s\<rparr>, w)
     else if 0 < i then do {
       dst \<leftarrow> put_at dst (int i) 0;
       Some (Some dst, s, w)
     } else Some (None, s, w)
   }"

definition kp_gets :: "(request \<times> argument, 'w) system \<Rightarrow> byte list \<Rightarrow> int \<Rightarrow> Kp \<Rightarrow> 'w \<Rightarrow> (byte list option \<times> Kp \<times> 'w) option" where
  "kp_gets sys = gets_with sys True"

definition kp_getstring :: "(request \<times> argument, 'w) system \<Rightarrow> byte list \<Rightarrow> int \<Rightarrow> Kp \<Rightarrow> 'w \<Rightarrow> (byte list option \<times> Kp \<times> 'w) option" where
  "kp_getstring sys = gets_with sys False"

definition kp_write :: "(request \<times> argument, 'w) system \<Rightarrow> byte list \<Rightarrow> int \<Rightarrow> Kp \<Rightarrow> 'w \<Rightarrow> (int \<times> Kp \<times> 'w) option" where
  "kp_write sys buf count s w = do {
     xs \<leftarrow> block_read buf 0 count;
     let s = clear_error s;
     let (a, s, w) = syscall sys (Sys_write (fd s) xs) s w;
     Some (result a, note_error (result a) s, w)
   }"

end
