(* ===== verification/Keypad_Drv_Props.thy ===== *)
theory Keypad_Drv_Props
  imports Keypad_Drv Keypad_File_Props
begin

text \<open>
  What the keypad library asks of the driver: sending a map is a list of requests, cut at the first
  that fails, and opening without a configuration file sends the default maps.
\<close>

subsection \<open>Requests\<close>

text \<open>Requests in order up to the first that fails; the result is 0 or its value.\<close>

fun issue :: "(request \<times> argument, 'w) system \<Rightarrow> int \<Rightarrow> (request \<times> argument) list \<Rightarrow> 'w \<Rightarrow> int \<times> 'w" where
  "issue sys f [] w = (0, w)"
| "issue sys f ((r, x) # rs) w =
     (let (a, w) = sys (Sys_ioctl f (r, x)) w in
      if result a < 0 then (result a, w) else issue sys f rs w)"

lemma issue_append:
  "issue sys f (rs @ rs') w =
     (let (ret, w) = issue sys f rs w in if ret < 0 then (ret, w) else issue sys f rs' w)"
  by (induction sys f rs w rule: issue.induct) (auto simp: Let_def split: prod.splits)

definition padded :: "byte list \<Rightarrow> byte list" where
  "padded chs = take 12 (cstr chs @ replicate 12 0) @ [0]"

definition requests :: "bool \<Rightarrow> KPMapScancode list \<Rightarrow> (request \<times> argument) list" where
  "requests on es = concat (map (\<lambda>e. if scancode e > 0 then
      [(KP_IOCSMAPSCANCODE, Mapping \<lparr>scancode = scancode e, keychars = padded (keychars e)\<rparr>),
       (if on then KP_IOCTSENDXLATESPECIALKEY_ON else KP_IOCTSENDXLATESPECIALKEY_OFF, Value (scancode e))]
     else []) es)"

text \<open>The library after a call: only the error numbers have changed.\<close>

definition errors_only :: "Kp \<Rightarrow> Kp \<Rightarrow> bool" where
  "errors_only s s' \<longleftrightarrow> s' = s\<lparr>kp_errno := kp_errno s', errno := errno s'\<rparr>"

lemma errors_only_eqs:
  "errors_only s s' \<Longrightarrow> fd s' = fd s \<and> map_scancode_to_num s' = map_scancode_to_num s \<and>
     map_scancode_to_alphanum s' = map_scancode_to_alphanum s \<and> map_scancode_to_nav s' = map_scancode_to_nav s"
  by (cases s; cases s') (simp add: errors_only_def)

lemma errors_only_refl [simp]: "errors_only s s"
  by (simp add: errors_only_def)

lemma errors_only_trans: "errors_only s s' \<Longrightarrow> errors_only s' s'' \<Longrightarrow> errors_only s s''"
  by (cases s; cases s'; cases s'') (simp add: errors_only_def)

lemma errors_only_set [simp]:
  "errors_only s (s'\<lparr>kp_errno := e\<rparr>) = errors_only s s'" "errors_only s (s'\<lparr>errno := e\<rparr>) = errors_only s s'"
  "errors_only (s\<lparr>kp_errno := e\<rparr>) s' = errors_only s s'"
  by (cases s; cases s'; auto simp: errors_only_def)+

lemma kp_ioctl_issue:
  assumes "kp_ioctl sys r x s w = (ret, s', w')"
  shows "errors_only s s' \<and> (result (fst (sys (Sys_ioctl (fd s) (r, x)) w)) = ret) \<and>
     w' = snd (sys (Sys_ioctl (fd s) (r, x)) w)"
  using assms by (auto simp: kp_ioctl_def syscall_def note_error_def clear_error_def Let_def split: prod.splits if_splits)

lemma send_map_issue:
  "send_map sys on es s w = (ret, s', w') \<Longrightarrow>
     errors_only s s' \<and> (ret, w') = issue sys (fd s) (requests on es) w"
proof (induction sys on es s w arbitrary: ret s' w' rule: send_map.induct)
  case (1 sys on s w)
  then show ?case by (simp add: requests_def)
next
  case (2 sys on e es s w)
  show ?case
  proof (cases "scancode e > 0")
    case False
    with 2(2)[OF False] 2(3) show ?thesis by (simp add: requests_def)
  next
    case True
    obtain r1 s1 w1 where m: "kp_set_mapscancode sys (scancode e) (keychars e) s w = (r1, s1, w1)" by (metis prod_cases3)
    obtain r2 s2 w2 where k: "kp_set_sendxlatespecialkey sys (scancode e) on s1 w1 = (r2, s2, w2)" by (metis prod_cases3)
    note m' = kp_ioctl_issue [OF m [unfolded kp_set_mapscancode_def]]
    note k' = kp_ioctl_issue [OF k [unfolded kp_set_sendxlatespecialkey_def]]
    have f: "fd s1 = fd s" "fd s2 = fd s" "errors_only s s2"
      using m' k' errors_only_eqs errors_only_trans by metis+
    have rq: "requests on (e # es) = (KP_IOCSMAPSCANCODE, Mapping \<lparr>scancode = scancode e, keychars = padded (keychars e)\<rparr>)
        # (if on then KP_IOCTSENDXLATESPECIALKEY_ON else KP_IOCTSENDXLATESPECIALKEY_OFF, Value (scancode e)) # requests on es"
      using True by (simp add: requests_def)
    show ?thesis
    proof (cases "r1 < 0 \<or> r2 < 0")
      case True
      with \<open>scancode e > 0\<close> m k 2(3) m' k' f show ?thesis
        unfolding rq by (auto simp: padded_def split: prod.splits if_splits)
    next
      case False
      then have "send_map sys on es s2 w2 = (ret, s', w')" using 2(3) \<open>scancode e > 0\<close> m k by simp
      with 2(1) [OF \<open>scancode e > 0\<close> m [symmetric] refl refl _ k [symmetric] refl refl] False
      have "errors_only s2 s' \<and> (ret, w') = issue sys (fd s2) (requests on es) w2" by simp
      with False m' k' f errors_only_trans show ?thesis
        unfolding rq by (auto simp: padded_def split: prod.splits if_splits)
    qed
  qed
qed

subsection \<open>The modes and the opening\<close>

lemma clear_error_only [simp]: "errors_only s (clear_error s') = errors_only s s'"
  "errors_only (clear_error s) s' = errors_only s s'" "fd (clear_error s) = fd s"
  "map_scancode_to_num (clear_error s) = map_scancode_to_num s"
  "map_scancode_to_alphanum (clear_error s) = map_scancode_to_alphanum s"
  "map_scancode_to_nav (clear_error s) = map_scancode_to_nav s"
  by (simp_all add: clear_error_def)

lemma kp_set_alphanum_mode_issue:
  "kp_set_alphanum_mode sys s w = (ret, s', w') \<Longrightarrow>
     errors_only s s' \<and> (ret, w') = issue sys (fd s) (requests True (take 12 (map_scancode_to_alphanum s))) w"
  using send_map_issue [of sys True "take 12 (map_scancode_to_alphanum s)" "clear_error s" w ret s' w']
  by (cases s; cases s') (simp add: kp_set_alphanum_mode_def clear_error_def errors_only_def)

lemma kp_set_navigation_mode_issue:
  "kp_set_navigation_mode sys s w = (ret, s', w') \<Longrightarrow>
     errors_only s s' \<and> (ret, w') = issue sys (fd s) (requests False (take 15 (map_scancode_to_nav s))) w"
  using send_map_issue [of sys False "take 15 (map_scancode_to_nav s)" "clear_error s" w ret s' w']
  by (cases s; cases s') (simp add: kp_set_navigation_mode_def clear_error_def errors_only_def)

lemma kp_set_xlate_mode_issue:
  "kp_set_xlate_mode sys s w = (ret, s', w') \<Longrightarrow>
     errors_only s s' \<and> w' = snd (issue sys (fd s) [(KP_IOCTMODE, Value KP_XLATE)] w)"
  using kp_ioctl_issue [of sys KP_IOCTMODE "Value KP_XLATE" "clear_error s" w ret]
  by (auto simp: kp_set_xlate_mode_def kp_set_mode_def note_error_def Let_def split: prod.splits if_splits)

text \<open>
  Opening the keypad succeeds if the device can be opened, whatever happens to the requests that
  follow: the driver is put into translating mode, then it gets the first 12 elements of the
  alphanumeric map and the first 15 of the navigation map, each list up to the first request that
  fails. The numeric map is loaded but not sent, and neither is the last element of a full map.
\<close>

theorem kp_init_open_sends:
  assumes "fd s = -1" "sys (Sys_open KEYPAD_NODE_NAME (or O_RDWR mode)) w = (a, w0)" "0 \<le> result a"
    and "init_conf_modes conff (cleared 11) (cleared 13) (cleared 16) (kp_conf s) = Some (num, alphanum, nav, k)"
  shows "\<exists>s'. kp_init_open sys conff mode s w = Some (0, s',
       snd (issue sys (result a) (requests False (take 15 nav))
         (snd (issue sys (result a) (requests True (take 12 alphanum))
           (snd (issue sys (result a) [(KP_IOCTMODE, Value KP_XLATE)] w0)))))) \<and>
     fd s' = result a \<and> map_scancode_to_num s' = num \<and> map_scancode_to_alphanum s' = alphanum \<and>
     map_scancode_to_nav s' = nav"
proof -
  let ?s0 = "(clear_error s)\<lparr>fd := result a, map_scancode_to_num := num, map_scancode_to_alphanum := alphanum,
     map_scancode_to_nav := nav, kp_conf := k\<rparr>"
  obtain r1 s1 w1 where x: "kp_set_xlate_mode sys ?s0 w0 = (r1, s1, w1)" by (metis prod_cases3)
  obtain r2 s2 w2 where y: "kp_set_alphanum_mode sys s1 w1 = (r2, s2, w2)" by (metis prod_cases3)
  obtain r3 s3 w3 where z: "kp_set_navigation_mode sys s2 w2 = (r3, s3, w3)" by (metis prod_cases3)
  note x' = kp_set_xlate_mode_issue [OF x] and y' = kp_set_alphanum_mode_issue [OF y]
    and z' = kp_set_navigation_mode_issue [OF z]
  have e1: "fd s1 = result a" "map_scancode_to_num s1 = num" "map_scancode_to_alphanum s1 = alphanum"
      "map_scancode_to_nav s1 = nav"
    using errors_only_eqs [of ?s0 s1] x' by simp_all
  have e2: "fd s2 = result a" "map_scancode_to_num s2 = num" "map_scancode_to_alphanum s2 = alphanum"
      "map_scancode_to_nav s2 = nav"
    using errors_only_eqs [of s1 s2] y' e1 by simp_all
  have e3: "fd s3 = result a" "map_scancode_to_num s3 = num" "map_scancode_to_alphanum s3 = alphanum"
      "map_scancode_to_nav s3 = nav"
    using errors_only_eqs [of s2 s3] z' e2 by simp_all
  have w: "w1 = snd (issue sys (result a) [(KP_IOCTMODE, Value KP_XLATE)] w0)"
      "w2 = snd (issue sys (result a) (requests True (take 12 alphanum)) w1)"
      "w3 = snd (issue sys (result a) (requests False (take 15 nav)) w2)"
    using x' y' [unfolded e1] z' [unfolded e2] by (auto simp del: issue.simps dest: arg_cong [of _ _ snd])
  have "kp_init_open sys conff mode s w = Some (0, s3, w3)"
    using assms x y z by (simp add: kp_init_open_def syscall_def clear_error_def)
  then show ?thesis using e3 unfolding w by blast
qed

lemma init_conf_none:
  assumes "10 \<le> length num" "10 \<le> length alphanum" "6 \<le> length nav"
  shows "init_conf_modes None num alphanum nav k =
     Some (def_map_num @ drop 10 num, def_map_alphanum @ drop 10 alphanum, def_map_nav @ drop 6 nav, k)"
proof -
  have "length def_map_num = 10" "length def_map_alphanum = 10" "length def_map_nav = 6"
    by (simp_all add: def_map_num_def def_map_alphanum_def def_map_nav_def)
  then show ?thesis using assms by (simp add: init_conf_modes_def conf_mode_def)
qed

lemma issue_noting: "issue noting f rs w = (0, w @ map (Sys_ioctl f) rs)"
  by (induction rs arbitrary: w) (auto simp: noting_def)

definition kp_closed :: Kp where
  "kp_closed = \<lparr>fd = -1, map_scancode_to_num = [], map_scancode_to_alphanum = [], map_scancode_to_nav = [],
     kp_errno = 0, errno = 0, kp_conf = kp_start\<rparr>"

lemma kp_init_open_sends_witness:
  "\<exists>s' log. kp_init_open noting None 0 kp_closed [] = Some (0, s', log) \<and> length log = 34"
proof -
  obtain s' where "kp_init_open noting None 0 kp_closed [] = Some (0, s',
       snd (issue noting 0 (requests False (take 15 (def_map_nav @ drop 6 (cleared 16))))
         (snd (issue noting 0 (requests True (take 12 (def_map_alphanum @ drop 10 (cleared 13))))
           (snd (issue noting 0 [(KP_IOCTMODE, Value KP_XLATE)] [Sys_open KEYPAD_NODE_NAME 2]))))))"
    using kp_init_open_sends [of kp_closed noting 0 "[]" "\<lparr>result = 0, bytes = [], failure = 0\<rparr>" "[Sys_open KEYPAD_NODE_NAME 2]" None]
      init_conf_none [of "cleared 11" "cleared 13" "cleared 16" "kp_conf kp_closed"]
    by (auto simp: kp_closed_def noting_def cleared_def simp del: issue.simps)
  then show ?thesis
    by (auto simp del: issue.simps simp: issue_noting requests_def cleared_def def_map_nav_def def_map_alphanum_def kmap_def numeral_eq_Suc)
qed

subsection \<open>Reading a text\<close>

text \<open>\<open>kp_gets\<close> and \<open>kp_getstring\<close> store at most \<open>sz - 1\<close> characters and a 0.\<close>

lemma gets_from_fits:
  "0 < sz \<Longrightarrow> int i + sz \<le> int (length dst) \<Longrightarrow> reads_ok sys \<Longrightarrow>
     \<exists>j dst' r s' w'. gets_from sys lines i dst sz ret s w = Some (j, dst', r, s', w') \<and>
       length dst' = length dst \<and> int j \<le> int i + sz - 1"
proof (induction sys lines i dst sz ret s w rule: gets_from.induct)
  case (1 sys lines i dst sz ret s w)
  obtain a s1 w1 where c: "syscall sys (Sys_read (fd s) 1) s w = (a, s1, w1)" by (metis prod_cases3)
  show ?case
  proof (cases "sz = 1 \<or> result a \<noteq> 1")
    case True
    then show ?thesis using 1(2) c by (auto simp: gets_from.simps [of sys _ i])
  next
    case False
    have "sys (Sys_read (fd s) 1) w = (a, w1)" using c by (auto simp: syscall_def Let_def split: prod.splits)
    from reads_okD [OF 1(4) this] False have "length (bytes a) = 1" by auto
    then have "bytes a \<noteq> []" by auto
    then obtain x where x: "get_at (bytes a) 0 = Some x" by (auto simp: get_at_def)
    have p: "put_at dst (int i) x = Some (dst[i := x])" using 1(2,3) False by (simp add: put_at_def)
    show ?thesis
    proof (cases "lines \<and> x = NEWLINE")
      case True
      then show ?thesis using False 1(2) c x p by (simp add: gets_from.simps [of sys _ i])
    next
      case cont: False
      have "0 < sz - 1" "int (Suc i) + (sz - 1) \<le> int (length (dst[i := x]))" using False 1(2,3) by simp_all
      then show ?thesis
        using 1(1) [OF refl _ refl c [symmetric] refl _ x p] False cont 1(4) c x p
        by (fastforce simp: gets_from.simps [of sys _ i])
    qed
  qed
qed

theorem kp_gets_fits:
  assumes "0 < sz" "sz \<le> int (length dst)" "reads_ok sys"
  shows "kp_gets sys dst sz s w \<noteq> None" "kp_getstring sys dst sz s w \<noteq> None"
proof -
  have "gets_with sys lines dst sz s w \<noteq> None" for lines
    using gets_from_fits [of sz 0 dst sys lines 0 "clear_error s" w] assms
    by (auto simp: gets_with_def put_at_def)
  then show "kp_gets sys dst sz s w \<noteq> None" "kp_getstring sys dst sz s w \<noteq> None"
    by (simp_all add: kp_gets_def kp_getstring_def)
qed

end
