(* ===== verification/Lcd_Lib.thy ===== *)
theory Lcd_Lib
  imports Device_Calls
begin

text \<open>
  The display: \<open>lcdlib.c\<close> and \<open>unicodecvtr.c\<close> in \<open>src/src/system/ui/jlcd/jlcdlib/arm-linux\<close>.

  A text is converted character by character to the codes of the display and written to its device.
  The variables of the library are the record \<open>Lcd\<close>. Strings come as the array they are in: reading
  goes on to the first 0, and \<open>None\<close> is an access outside an array. The text that the C library makes
  of a format and its arguments is a parameter.
\<close>

definition MAX_BYTES_CHAR :: nat where [simp]: "MAX_BYTES_CHAR = 2"
definition MAX_LCD_CHARS :: nat where [simp]: "MAX_LCD_CHARS = 20"
definition MAX_LCD_LINES :: nat where [simp]: "MAX_LCD_LINES = 4"
definition LCDBUFSIZE :: nat where [simp]: "LCDBUFSIZE = MAX_BYTES_CHAR * MAX_LCD_CHARS * MAX_LCD_LINES"
definition LCD_PROGCHAR_ROW_SIZE :: nat where [simp]: "LCD_PROGCHAR_ROW_SIZE = 8"

subsection \<open>Conversion\<close>

record EXMAPITEM =
  unicode :: byte
  lcdcode :: byte

definition exmap :: "EXMAPITEM list" where
  "exmap =
     [\<lparr>unicode = 0x5C, lcdcode = 0xDA\<rparr>, \<lparr>unicode = 0x7E, lcdcode = 0xD5\<rparr>, \<lparr>unicode = 0x7F, lcdcode = 0xFF\<rparr>,
      \<lparr>unicode = 0, lcdcode = 0\<rparr>]"

definition UNICODE_START_TABLE :: byte where [simp]: "UNICODE_START_TABLE = 0x80"

definition ucdmap :: "byte list" where
  "ucdmap =
    [255, 255, 255, 255, 255, 255, 255, 255, 255, 255, 255, 255, 255, 255, 255, 255, 255, 255, 255,
     255, 255, 255, 255, 255, 255, 255, 255, 255, 255, 255, 255, 255, 32, 165, 204, 183, 198, 92,
     255, 176, 209, 221, 255, 215, 187, 32, 220, 255, 210, 177, 255, 255, 212, 200, 188, 255, 255,
     255, 210, 216, 191, 189, 190, 143, 156, 157, 155, 203, 153, 152, 175, 196, 145, 146, 144, 147,
     162, 163, 161, 164, 194, 166, 136, 137, 135, 206, 142, 219, 201, 129, 130, 128, 131, 89, 240,
     195, 156, 157, 155, 205, 158, 154, 175, 196, 149, 150, 148, 151, 162, 163, 161, 164, 207, 167,
     140, 141, 135, 207, 142, 214, 201, 133, 134, 132, 131, 121, 240, 202]"

definition unicode_dmap :: "byte \<Rightarrow> byte option" where
  "unicode_dmap uc = get_at ucdmap (uint uc - uint UNICODE_START_TABLE)"

text \<open>The search stops at the character or at the element that marks the end, whose codes are equal.\<close>

fun exmap_find :: "EXMAPITEM list \<Rightarrow> byte \<Rightarrow> EXMAPITEM option" where
  "exmap_find [] c = None"
| "exmap_find (e # es) c =
     (if unicode e \<noteq> lcdcode e \<and> unicode e \<noteq> c then exmap_find es c else Some e)"

definition unicode_process_char :: "byte \<Rightarrow> byte option" where
  "unicode_process_char c =
     (if c < UNICODE_START_TABLE then do {
        emap \<leftarrow> exmap_find exmap c;
        Some (if unicode emap = lcdcode emap then c else lcdcode emap)
      } else unicode_dmap c)"

text \<open>The loop of \<open>unicode_process_string\<close>: \<open>i\<close> characters have been stored in \<open>os\<close>.\<close>

fun process_from :: "nat \<Rightarrow> byte list \<Rightarrow> byte list \<Rightarrow> byte list option" where
  "process_from i [] os = None"
| "process_from i (c # ps) os =
     (if c = 0 then put_at os (int i) 0 else do {
        x \<leftarrow> unicode_process_char c;
        os \<leftarrow> put_at os (int i) x;
        process_from (Suc i) ps os
      })"

definition unicode_process_string :: "byte list \<Rightarrow> byte list \<Rightarrow> byte list option" where
  "unicode_process_string ps os = process_from 0 ps os"

subsection \<open>The device\<close>

datatype lcd_request =
    LCD_IOCTSETTABSTOP int | LCD_IOCTSETCURSORXY int | LCD_IOCSPROGRAMCHAR int "byte list" int
  | LCD_IOCTSETTEXTBLINK int | LCD_IOCTSETCURSORBLINK int | LCD_IOCTSETCURSORSTATE int
  | LCD_IOCTSETDISPLAYSTATE int | LCD_IOCTFONT int | LCD_IOCQNUMLINES | LCD_IOCQNUMCHARS
  | LCD_IOCCLEARDISPLAY

record Lcd =
  opened :: bool
  lcd_fd :: int
  lcd_buf :: "byte list"
  pbuf :: "byte list"

definition LCD_DEVICE :: "byte list" where
  "LCD_DEVICE = chars ''/dev/lcdnod11''"

definition lcd_ioctl :: "(lcd_request, 'w) system \<Rightarrow> lcd_request \<Rightarrow> Lcd \<Rightarrow> 'w \<Rightarrow> int \<times> 'w" where
  "lcd_ioctl sys r d w = (let (a, w) = sys (Sys_ioctl (lcd_fd d) r) w in (result a, w))"

definition lcd_open :: "(lcd_request, 'w) system \<Rightarrow> Lcd \<Rightarrow> 'w \<Rightarrow> int \<times> Lcd \<times> 'w" where
  "lcd_open sys d w =
     (if opened d then (1, d, w)
      else
        (let (a, w) = sys (Sys_open LCD_DEVICE O_WRONLY) w;
             d = d\<lparr>lcd_fd := result a\<rparr>
         in if lcd_fd d < 0 then (lcd_fd d, d, w) else (lcd_fd d, d\<lparr>opened := True\<rparr>, w)))"

definition lcd_initopen :: "(lcd_request, 'w) system \<Rightarrow> int \<Rightarrow> Lcd \<Rightarrow> 'w \<Rightarrow> int \<times> Lcd \<times> 'w" where
  "lcd_initopen sys lcd_type d w =
     (let (ret, d, w) = lcd_open sys d w in if ret \<ge> 0 then (ret, d, w) else (ret, d, w))"

definition lcd_clear :: "(lcd_request, 'w) system \<Rightarrow> Lcd \<Rightarrow> 'w \<Rightarrow> int \<times> 'w" where
  "lcd_clear sys = lcd_ioctl sys LCD_IOCCLEARDISPLAY"

text \<open>\<open>write(fd, pbuf, strlen(pbuf))\<close> after a conversion into \<open>pbuf\<close>.\<close>

definition write_converted :: "(lcd_request, 'w) system \<Rightarrow> byte list \<Rightarrow> Lcd \<Rightarrow> 'w \<Rightarrow> (int \<times> Lcd \<times> 'w) option" where
  "write_converted sys str d w = do {
     p \<leftarrow> unicode_process_string str (pbuf d);
     let (a, w) = sys (Sys_write (lcd_fd d) (cstr p)) w;
     Some (result a, d\<lparr>pbuf := p\<rparr>, w)
   }"

text \<open>The length is not used.\<close>

definition lcd_write :: "(lcd_request, 'w) system \<Rightarrow> byte list \<Rightarrow> int \<Rightarrow> Lcd \<Rightarrow> 'w \<Rightarrow> (int \<times> Lcd \<times> 'w) option" where
  "lcd_write sys str len d w = write_converted sys str d w"

text \<open>The converted character is passed on as an array of one byte.\<close>

definition lcd_putchar :: "(lcd_request, 'w) system \<Rightarrow> byte \<Rightarrow> Lcd \<Rightarrow> 'w \<Rightarrow> (int \<times> Lcd \<times> 'w) option" where
  "lcd_putchar sys c d w = do {
     x \<leftarrow> unicode_process_char c;
     lcd_write sys [x] 1 d w
   }"

definition lcd_close :: "(lcd_request, 'w) system \<Rightarrow> Lcd \<Rightarrow> 'w \<Rightarrow> int \<times> Lcd \<times> 'w" where
  "lcd_close sys d w =
     (let d = d\<lparr>opened := False\<rparr>; (a, w) = sys (Sys_close (lcd_fd d)) w in (result a, d, w))"

definition lcd_set_tabstop :: "(lcd_request, 'w) system \<Rightarrow> int \<Rightarrow> Lcd \<Rightarrow> 'w \<Rightarrow> int \<times> 'w" where
  "lcd_set_tabstop sys ts = lcd_ioctl sys (LCD_IOCTSETTABSTOP ts)"

definition lcd_set_cursorxy :: "(lcd_request, 'w) system \<Rightarrow> int \<Rightarrow> int \<Rightarrow> Lcd \<Rightarrow> 'w \<Rightarrow> int \<times> 'w" where
  "lcd_set_cursorxy sys x y = lcd_ioctl sys (LCD_IOCTSETCURSORXY (or (push_bit 8 y) x))"

definition lcd_set_text_blink :: "(lcd_request, 'w) system \<Rightarrow> int \<Rightarrow> Lcd \<Rightarrow> 'w \<Rightarrow> int \<times> 'w" where
  "lcd_set_text_blink sys toOn = lcd_ioctl sys (LCD_IOCTSETTEXTBLINK toOn)"

definition lcd_set_cursor_blink :: "(lcd_request, 'w) system \<Rightarrow> int \<Rightarrow> Lcd \<Rightarrow> 'w \<Rightarrow> int \<times> 'w" where
  "lcd_set_cursor_blink sys toOn = lcd_ioctl sys (LCD_IOCTSETCURSORBLINK toOn)"

definition lcd_set_cursor_state :: "(lcd_request, 'w) system \<Rightarrow> int \<Rightarrow> Lcd \<Rightarrow> 'w \<Rightarrow> int \<times> 'w" where
  "lcd_set_cursor_state sys toOn = lcd_ioctl sys (LCD_IOCTSETCURSORSTATE toOn)"

definition lcd_set_display_state :: "(lcd_request, 'w) system \<Rightarrow> int \<Rightarrow> Lcd \<Rightarrow> 'w \<Rightarrow> int \<times> 'w" where
  "lcd_set_display_state sys toOn = lcd_ioctl sys (LCD_IOCTSETDISPLAYSTATE toOn)"

definition lcd_programchar :: "(lcd_request, 'w) system \<Rightarrow> int \<Rightarrow> byte list \<Rightarrow> Lcd \<Rightarrow> 'w \<Rightarrow> (int \<times> 'w) option" where
  "lcd_programchar sys index_char pfont d w = do {
     rows \<leftarrow> block_read pfont 0 (int LCD_PROGCHAR_ROW_SIZE);
     Some (lcd_ioctl sys (LCD_IOCSPROGRAMCHAR index_char rows (int LCD_PROGCHAR_ROW_SIZE)) d w)
   }"

definition lcd_setfont :: "(lcd_request, 'w) system \<Rightarrow> int \<Rightarrow> Lcd \<Rightarrow> 'w \<Rightarrow> int \<times> 'w" where
  "lcd_setfont sys font = lcd_ioctl sys (LCD_IOCTFONT font)"

text \<open>\<open>vsnprintf(buf, sizeof(buf), fmt, ap)\<close> for the formatted text \<open>fmtd\<close>, which has no 0.\<close>

definition formatted :: "byte list \<Rightarrow> Lcd \<Rightarrow> Lcd" where
  "formatted fmtd d = d\<lparr>lcd_buf := over (take (LCDBUFSIZE - 1) fmtd @ [0]) (lcd_buf d)\<rparr>"

definition lcd_print :: "(lcd_request, 'w) system \<Rightarrow> byte list \<Rightarrow> Lcd \<Rightarrow> 'w \<Rightarrow> (int \<times> Lcd \<times> 'w) option" where
  "lcd_print sys fmtd d w = (let d = formatted fmtd d in write_converted sys (lcd_buf d) d w)"

definition lcd_printat ::
  "(lcd_request, 'w) system \<Rightarrow> int \<Rightarrow> int \<Rightarrow> byte list \<Rightarrow> Lcd \<Rightarrow> 'w \<Rightarrow> (int \<times> Lcd \<times> 'w) option" where
  "lcd_printat sys x y fmtd d w =
     (let (ret, w) = lcd_set_cursorxy sys x y d w in
      if ret < 0 then Some (ret, d, w)
      else (let d = formatted fmtd d in write_converted sys (lcd_buf d) d w))"

definition lcd_get_type :: int where
  "lcd_get_type = -1"

definition lcd_get_numlines :: "(lcd_request, 'w) system \<Rightarrow> Lcd \<Rightarrow> 'w \<Rightarrow> int \<times> 'w" where
  "lcd_get_numlines sys = lcd_ioctl sys LCD_IOCQNUMLINES"

definition lcd_get_numchars :: "(lcd_request, 'w) system \<Rightarrow> Lcd \<Rightarrow> 'w \<Rightarrow> int \<times> 'w" where
  "lcd_get_numchars sys = lcd_ioctl sys LCD_IOCQNUMCHARS"

subsection \<open>What is displayed\<close>

text \<open>The codes of the display, as a function; none of them is 0.\<close>

definition lcd_code :: "byte \<Rightarrow> byte" where
  "lcd_code c = (if c = 0x5C then 0xDA else if c = 0x7E then 0xD5 else if c = 0x7F then 0xFF
     else if c < 0x80 then c else ucdmap ! (unat c - 128))"

lemma length_ucdmap: "length ucdmap = 128"
  by (simp add: ucdmap_def)

lemma unicode_dmap_high: "\<not> c < 0x80 \<Longrightarrow> unicode_dmap c = Some (ucdmap ! (unat c - 128))"
proof -
  assume "\<not> c < 0x80"
  then have "128 \<le> uint c" by (simp add: word_less_alt)
  moreover have "nat (uint c - 128) = unat c - 128" using uint_nat [of c] by arith
  moreover have "unat c - 128 < length ucdmap"
    using unat_byte_less [of c] by (simp only: length_ucdmap less_diff_conv2 [symmetric])
  ultimately show ?thesis by (simp add: unicode_dmap_def get_at_def)
qed

lemma unicode_process_char_code: "unicode_process_char c = Some (lcd_code c)"
  by (auto simp: unicode_process_char_def lcd_code_def exmap_def unicode_dmap_high)

lemma lcd_code_nonzero: "c \<noteq> 0 \<Longrightarrow> lcd_code c \<noteq> 0"
proof -
  assume c: "c \<noteq> 0"
  have t: "list_all (\<lambda>x. x \<noteq> 0) ucdmap" by (simp add: ucdmap_def)
  have "ucdmap ! (unat c - 128) \<noteq> 0" if "\<not> c < 0x80"
    using t unat_byte_less [of c] length_ucdmap that by (simp add: list_all_length del: unat_byte_less)
  with c show ?thesis by (simp add: lcd_code_def)
qed

lemma process_from_over:
  "0 \<notin> set ps \<Longrightarrow> length pre + length ps < length os \<Longrightarrow>
     process_from (length pre) (ps @ 0 # r) (over pre os) = Some (over (pre @ map lcd_code ps @ [0]) os)"
proof (induction ps arbitrary: pre)
  case Nil
  then show ?case using over_put [of pre os 0] by simp
next
  case (Cons c ps)
  have "process_from (length pre) ((c # ps) @ 0 # r) (over pre os)
      = process_from (length (pre @ [lcd_code c])) (ps @ 0 # r) (over (pre @ [lcd_code c]) os)"
    using Cons.prems over_put [of pre os "lcd_code c"] by (simp add: unicode_process_char_code)
  also have "\<dots> = Some (over ((pre @ [lcd_code c]) @ map lcd_code ps @ [0]) os)"
    using Cons.prems by (intro Cons.IH) simp_all
  finally show ?case by simp
qed

lemma unicode_process_string_code:
  "0 \<notin> set ps \<Longrightarrow> length ps < length os \<Longrightarrow>
     unicode_process_string (ps @ 0 # r) os = Some (over (map lcd_code ps @ [0]) os)"
  using process_from_over [of ps "[]" os r] by (simp add: unicode_process_string_def over_Nil)

text \<open>
  Printing writes to the display the code of each of the first 159 characters of the text, one byte
  for each, and nothing else; what was displayed before does not show through.
\<close>

theorem lcd_print_displays:
  assumes "0 \<notin> set fmtd" "length (lcd_buf d) = 160" "length (pbuf d) = 160"
    and "sys (Sys_write (lcd_fd d) (map lcd_code (take 159 fmtd))) w = (a, w')"
  shows "\<exists>d'. lcd_print sys fmtd d w = Some (result a, d', w') \<and> lcd_fd d' = lcd_fd d \<and>
     length (lcd_buf d') = 160 \<and> length (pbuf d') = 160"
proof -
  let ?t = "take 159 fmtd"
  have t: "0 \<notin> set ?t" "length ?t < 160" using assms(1) in_set_takeD [of 0 159 fmtd] by auto
  have n: "0 \<notin> set (map lcd_code ?t)" using t(1) lcd_code_nonzero by (metis (no_types, lifting) imageE list.set_map)
  let ?b = "?t @ 0 # drop (Suc (length ?t)) (lcd_buf d)"
  have b: "over (?t @ [0]) (lcd_buf d) = ?b" by (simp add: over_def)
  have p: "unicode_process_string ?b (pbuf d) = Some (over (map lcd_code ?t @ [0]) (pbuf d))"
    using unicode_process_string_code [OF t(1), of "pbuf d"] t(2) assms(3) by simp
  have s: "cstr (over (map lcd_code ?t @ [0]) (pbuf d)) = map lcd_code ?t"
    using cstr_app [OF n] by (simp add: over_def)
  have "lcd_print sys fmtd d w = Some (result a, d\<lparr>lcd_buf := ?b, pbuf := over (map lcd_code ?t @ [0]) (pbuf d)\<rparr>, w')"
    using p s assms(4) b by (simp add: lcd_print_def formatted_def write_converted_def)
  then show ?thesis using t(2) assms(2,3) by (auto simp: over_def)
qed

definition lcd_start :: Lcd where
  "lcd_start = \<lparr>opened = True, lcd_fd = 3, lcd_buf = replicate 160 0, pbuf = replicate 160 0\<rparr>"

lemma lcd_print_displays_witness:
  "\<exists>d'. lcd_print noting [72, 0xF1] lcd_start [] = Some (0, d', [Sys_write 3 [72, 0xA7]])"
proof -
  have "map lcd_code [72, 0xF1] = [72, 0xA7]" by (simp add: lcd_code_def ucdmap_def)
  then show ?thesis
    using lcd_print_displays [of "[72, 0xF1]" lcd_start noting "[]" "\<lparr>result = 0, bytes = [], failure = 0\<rparr>" "[Sys_write 3 [72, 0xA7]]"]
    by (auto simp: lcd_start_def noting_def)
qed

text \<open>
  The conversion of a single character is passed on as a string without its end: for every character
  but 0 the library reads behind it.
\<close>

theorem lcd_putchar_reads_on: "c \<noteq> 0 \<Longrightarrow> lcd_putchar sys c d w = None"
proof -
  assume "c \<noteq> 0"
  then have "unicode_process_string [lcd_code c] (pbuf d) = None"
    using lcd_code_nonzero [of c]
    by (cases "put_at (pbuf d) 0 (lcd_code (lcd_code c))")
      (simp_all add: unicode_process_string_def unicode_process_char_code)
  then show ?thesis
    by (simp add: lcd_putchar_def lcd_write_def write_converted_def unicode_process_char_code)
qed

text \<open>A text as long as the buffer is stored behind it: the length that is passed is not looked at.\<close>

lemma process_from_long:
  "0 \<notin> set ps \<Longrightarrow> length os \<le> i + length ps \<Longrightarrow> i \<le> length os \<Longrightarrow> process_from i (ps @ 0 # r) os = None"
proof (induction ps arbitrary: i os)
  case Nil
  then show ?case by (simp add: put_at_def)
next
  case (Cons c ps)
  then show ?case by (cases "i < length os") (simp_all add: put_at_def unicode_process_char_code)
qed

theorem lcd_write_overflows:
  assumes "0 \<notin> set fmtd" "length (pbuf d) \<le> length fmtd"
  shows "lcd_write sys (fmtd @ 0 # r) len d w = None"
  using process_from_long [OF assms(1), of "pbuf d" 0] assms(2)
  by (simp add: lcd_write_def write_converted_def unicode_process_string_def)

text \<open>The position is packed into one number; columns and lines below 256 can be read back.\<close>

theorem lcd_cursor_position:
  fixes x y :: int
  assumes "0 \<le> x" "x < 256" "0 \<le> y"
  shows "or (push_bit 8 y) x mod 256 = x" "or (push_bit 8 y) x div 256 = y"
proof -
  have x: "take_bit 8 x = x" using assms(1,2) by (simp add: take_bit_int_eq_self)
  have "and (push_bit 8 y) x = 0"
    by (subst x [symmetric], rule bit_eqI) (auto simp: bit_and_iff bit_push_bit_iff bit_take_bit_iff)
  then have "or (push_bit 8 y) x = push_bit 8 y + x" by (rule disjunctive_add_eq_or [symmetric])
  then have "or (push_bit 8 y) x = y * 256 + x" by (simp add: push_bit_eq_mult)
  then show "or (push_bit 8 y) x mod 256 = x" "or (push_bit 8 y) x div 256 = y" using assms by simp_all
qed

end
