(* ===== verification/Com_Port.thy ===== *)
theory Com_Port
  imports Device_Calls
begin

text \<open>
  Serial ports: \<open>src/src/system/os/arm-linux/comportapi.c\<close>.

  Opening computes the settings of a port, in two variants: port 8 is an RS-485 line, the others are
  terminals named by the configuration. The globals are the record \<open>Com\<close>. Reading is a loop over the
  clock and the device; a turn of it is the time on the clock and the answer of the device, and the
  turns are a list: what the loop does is defined for every sequence of turns. Debug output is not
  modelled. The flags have the values of Linux on ARM.
\<close>

datatype ParityType = CT_PARITY_NONE | CT_PARITY_ODD | CT_PARITY_EVEN

datatype BaudRateType =
    BR_0 | BR_50 | BR_75 | BR_110 | BR_134 | BR_150 | BR_200 | BR_300 | BR_600 | BR_1200 | BR_1800
  | BR_2400 | BR_4800 | BR_9600 | BR_19200 | BR_38400 | BR_57600 | BR_115200 | BR_230400

record ComPortConfig =
  baudRate :: BaudRateType
  parity :: ParityType
  stopBits :: int
  dataBits :: int
  readTimeout :: int
  writeTimeout :: int
  ttyStr :: "byte list"

text \<open>The element of the array that the enumeration selects.\<close>

primrec BaudRateMap :: "BaudRateType \<Rightarrow> 32 word" where
  "BaudRateMap BR_0 = 0"
| "BaudRateMap BR_50 = 1"
| "BaudRateMap BR_75 = 2"
| "BaudRateMap BR_110 = 3"
| "BaudRateMap BR_134 = 4"
| "BaudRateMap BR_150 = 5"
| "BaudRateMap BR_200 = 6"
| "BaudRateMap BR_300 = 7"
| "BaudRateMap BR_600 = 8"
| "BaudRateMap BR_1200 = 9"
| "BaudRateMap BR_1800 = 10"
| "BaudRateMap BR_2400 = 11"
| "BaudRateMap BR_4800 = 12"
| "BaudRateMap BR_9600 = 13"
| "BaudRateMap BR_19200 = 14"
| "BaudRateMap BR_38400 = 15"
| "BaudRateMap BR_57600 = 0x1001"
| "BaudRateMap BR_115200 = 0x1002"
| "BaudRateMap BR_230400 = 0x1003"

definition CS5 :: "32 word" where [simp]: "CS5 = 0"
definition CS6 :: "32 word" where [simp]: "CS6 = 0x10"
definition CS7 :: "32 word" where [simp]: "CS7 = 0x20"
definition CS8 :: "32 word" where [simp]: "CS8 = 0x30"
definition CSTOPB :: "32 word" where [simp]: "CSTOPB = 0x40"
definition CREAD :: "32 word" where [simp]: "CREAD = 0x80"
definition PARENB :: "32 word" where [simp]: "PARENB = 0x100"
definition PARODD :: "32 word" where [simp]: "PARODD = 0x200"
definition CLOCAL :: "32 word" where [simp]: "CLOCAL = 0x800"
definition CRTSCTS :: "32 word" where [simp]: "CRTSCTS = 0x80000000"
definition SER_RS485_ENABLED :: "32 word" where [simp]: "SER_RS485_ENABLED = 1"
definition SER_RS485_RTS_ON_SEND :: "32 word" where [simp]: "SER_RS485_RTS_ON_SEND = 2"
definition SER_RS485_RTS_AFTER_SEND :: "32 word" where [simp]: "SER_RS485_RTS_AFTER_SEND = 4"
definition SER_RS485_RX_DURING_TX :: "32 word" where [simp]: "SER_RS485_RX_DURING_TX = 16"

record termios =
  c_cflag :: "32 word"
  c_oflag :: "32 word"
  c_lflag :: "32 word"
  c_iflag :: "32 word"
  c_vmin :: byte
  c_vtime :: byte

record serial_rs485 =
  flags :: "32 word"
  delay_rts_before_send :: int
  delay_rts_after_send :: int

datatype com_request =
    TcGetAttr | TcFlush | TcSetAttr termios | TcDrain | TIOCGRS485 | TIOCSRS485 serial_rs485 | SetFlags int

record Com =
  handle485 :: int
  handleValidador :: int

subsection \<open>Opening\<close>

text \<open>The settings both variants begin with: all cleared, then speed, stop bits and data bits.\<close>

definition line_flags :: "ComPortConfig \<Rightarrow> 32 word" where
  "line_flags config =
     (let f = BaudRateMap (baudRate config);
          f = (if stopBits config = 2 then or f CSTOPB else f);
          f = (if dataBits config = 5 then or f CS5 else f);
          f = (if dataBits config = 6 then or f CS6 else f);
          f = (if dataBits config = 7 then or f CS7 else f)
      in if dataBits config = 8 then or f CS8 else f)"

definition options485 :: "ComPortConfig \<Rightarrow> termios" where
  "options485 config =
     (let f = line_flags config;
          f = (if parity config = CT_PARITY_ODD then or f PARODD else f);
          f = or f CLOCAL;
          f = or f CREAD
      in \<lparr>c_cflag = f, c_oflag = 0, c_lflag = 0, c_iflag = 0, c_vmin = 0, c_vtime = 1\<rparr>)"

definition options_tty :: "ComPortConfig \<Rightarrow> bool \<Rightarrow> termios" where
  "options_tty config validador =
     (let f = line_flags config;
          f = (if parity config = CT_PARITY_ODD then or f PARODD
               else if parity config = CT_PARITY_EVEN then or f PARENB else f);
          f = or f CLOCAL;
          f = or f CREAD;
          f = (if \<not> validador then and f (not CRTSCTS) else or f CRTSCTS)
      in \<lparr>c_cflag = f, c_oflag = 0, c_lflag = 0, c_iflag = 0, c_vmin = 0, c_vtime = 1\<rparr>)"

text \<open>\<open>old\<close> are the flags that the driver answers, or what was on the stack if it does not.\<close>

definition rs485conf :: "32 word \<Rightarrow> serial_rs485" where
  "rs485conf old =
     (let f = or old SER_RS485_ENABLED;
          f = or f SER_RS485_RTS_AFTER_SEND;
          f = and f (not SER_RS485_RTS_ON_SEND);
          f = and f (not SER_RS485_RX_DURING_TX)
      in \<lparr>flags = f, delay_rts_before_send = 100, delay_rts_after_send = 100\<rparr>)"

fun ioctls :: "(com_request, 'w) system \<Rightarrow> int \<Rightarrow> com_request list \<Rightarrow> 'w \<Rightarrow> 'w" where
  "ioctls sys h [] w = w"
| "ioctls sys h (r # rs) w = ioctls sys h rs (snd (sys (Sys_ioctl h r) w))"

text \<open>A failed assertion is \<open>None\<close>. The results of the settings are not looked at.\<close>

definition com_open ::
  "(com_request, 'w) system \<Rightarrow> 32 word \<Rightarrow> int \<Rightarrow> ComPortConfig \<Rightarrow> Com \<Rightarrow> 'w \<Rightarrow> (int \<times> Com \<times> 'w) option" where
  "com_open sys old portNumber config g w = do {
     _ \<leftarrow> guard_ok (dataBits config \<ge> 5 \<and> dataBits config \<le> 8 \<and> stopBits config \<ge> 1 \<and> stopBits config \<le> 2 \<and>
                   portNumber > 0);
     if portNumber = 8 then
       (let (a, w) = sys (Sys_open (chars ''/dev/ttymxc2'') O_RDWR) w;
            g = g\<lparr>handle485 := result a\<rparr>
        in if result a = -1 then Some (-1, g, w)
           else Some (result a, g,
             ioctls sys (result a)
               [TcGetAttr, TcFlush, TcSetAttr (options485 config), TIOCGRS485, TIOCSRS485 (rs485conf old), SetFlags 0] w))
     else
       (let (a, w) = sys (Sys_open (cstr (ttyStr config) @ dec (portNumber - 1)) (or O_RDWR O_NOCTTY)) w
        in if result a = -1 then Some (-1, g, w)
           else
             (let g = (if cstr (ttyStr config) = chars ''/dev/ttyACM'' then g\<lparr>handleValidador := result a\<rparr> else g)
              in Some (result a, g,
                   ioctls sys (result a)
                     [TcGetAttr, TcFlush, TcSetAttr (options_tty config (handleValidador g = result a))] w)))
   }"

subsection \<open>Reading\<close>

datatype com_result = Reading int "byte list" | Returned int "byte list"

text \<open>
  The loop: \<open>n\<close> bytes are in the buffer. The clock is an unsigned 32-bit counter, and the timeout is
  converted to one. When the turns are used up the loop is still reading.
\<close>

fun com_read_from ::
  "ulong \<Rightarrow> int \<Rightarrow> int \<Rightarrow> int \<Rightarrow> byte list \<Rightarrow> (ulong \<times> answer) list \<Rightarrow> com_result option" where
  "com_read_from ticks qty timeout n buffer [] = Some (Reading n buffer)"
| "com_read_from ticks qty timeout n buffer ((now, a) # turns) =
     (if now - ticks \<le> word_of_int timeout then
        (if result a = -1 then Some (Returned 0 buffer)
         else do {
           buffer \<leftarrow> block_write buffer n (bytes a);
           let n = n + result a;
           if n \<ge> qty then Some (Returned n buffer)
           else com_read_from ticks qty timeout n buffer turns
         })
      else Some (Returned n buffer))"

definition com_read :: "ulong \<Rightarrow> byte list \<Rightarrow> int \<Rightarrow> int \<Rightarrow> (ulong \<times> answer) list \<Rightarrow> com_result option" where
  "com_read ticks buffer qty timeout turns = com_read_from ticks qty timeout 0 buffer turns"

subsection \<open>Writing and closing\<close>

text \<open>
  The value returned is \<open>None\<close> where the function ends without one.
\<close>

definition com_write ::
  "(com_request, 'w) system \<Rightarrow> int \<Rightarrow> byte list \<Rightarrow> int \<Rightarrow> Com \<Rightarrow> 'w \<Rightarrow> (int option \<times> 'w) option" where
  "com_write sys handle buffer qty g w = do {
     xs \<leftarrow> block_read buffer 0 qty;
     let (a, w) = sys (Sys_write handle xs) w;
     if handle = handle485 g then
       (if result a \<le> 0 then Some (Some (result a), w)
        else Some (Some (result a), ioctls sys handle [TcDrain] w))
     else if handle = handleValidador g then
       (if result a \<le> 0 then Some (Some (result a), w)
        else Some (Some (result a), ioctls sys handle [TcDrain] w))
     else
       (if result a \<le> 0 then Some (Some (result a), w)
        else Some (None, ioctls sys handle [TcDrain] w))
   }"

definition com_close :: "(com_request, 'w) system \<Rightarrow> int \<Rightarrow> 'w \<Rightarrow> 'w" where
  "com_close sys handle w = snd (sys (Sys_close handle) (ioctls sys handle [TcFlush] w))"

definition com_flush :: "(com_request, 'w) system \<Rightarrow> int \<Rightarrow> 'w \<Rightarrow> 'w" where
  "com_flush sys handle w = ioctls sys handle [TcFlush] w"

end
