(* ===== verification/Com_Port_Props.thy ===== *)
theory Com_Port_Props
  imports Com_Port
begin

text \<open>
  A read of a serial port collects the bytes of the device, in order, into the caller's buffer and
  never beyond it; it loses them when the device fails. Odd parity is never switched on.
\<close>

subsection \<open>Reading\<close>

text \<open>Answers of a device that delivers no more than is asked for.\<close>

fun turns_ok :: "int \<Rightarrow> int \<Rightarrow> (ulong \<times> answer) list \<Rightarrow> bool" where
  "turns_ok qty n [] \<longleftrightarrow> True"
| "turns_ok qty n ((now, a) # turns) \<longleftrightarrow>
     result a = -1 \<or> (result a = int (length (bytes a)) \<and> n + result a \<le> qty \<and> turns_ok qty (n + result a) turns)"

definition got :: "nat \<Rightarrow> (ulong \<times> answer) list \<Rightarrow> byte list" where
  "got k turns = concat (map (\<lambda>t. bytes (snd t)) (take k turns))"

lemma got_simps [simp]: "got 0 turns = []" "got k [] = []" "got (Suc k) (t # turns) = bytes (snd t) @ got k turns"
  by (simp_all add: got_def)

text \<open>Whether the time is up, or the device fails, in one of the turns.\<close>

definition late :: "ulong \<Rightarrow> int \<Rightarrow> ulong \<Rightarrow> bool" where
  "late ticks timeout now \<longleftrightarrow> \<not> now - ticks \<le> word_of_int timeout"

text \<open>
  The result \<open>r\<close> of reading when \<open>pre\<close> was in the buffer: after some turns, whose bytes are in the
  buffer, either all bytes have come or the time is up, and their number is returned; or the device
  failed, and 0 is returned; or the turns are used up, none of them late.
\<close>

definition collected ::
  "ulong \<Rightarrow> int \<Rightarrow> int \<Rightarrow> byte list \<Rightarrow> byte list \<Rightarrow> (ulong \<times> answer) list \<Rightarrow> com_result \<Rightarrow> bool" where
  "collected ticks qty timeout buffer pre turns r \<longleftrightarrow>
     (\<exists>k \<le> length turns. let g = pre @ got k turns; n = int (length g); b = over g buffer in
        n \<le> qty \<and>
        (r = Returned n b \<and> (n = qty \<or> (k < length turns \<and> late ticks timeout (fst (turns ! k))))
         \<or> r = Returned 0 b \<and> k < length turns \<and> result (snd (turns ! k)) = -1
         \<or> r = Reading n b \<and> k = length turns \<and> (\<forall>t \<in> set turns. \<not> late ticks timeout (fst t))))"

lemma collected_Cons:
  assumes "collected ticks qty timeout buffer (pre @ bytes a) turns r" "\<not> late ticks timeout now"
  shows "collected ticks qty timeout buffer pre ((now, a) # turns) r"
proof -
  from assms(1) obtain k where "k \<le> length turns" "let g = (pre @ bytes a) @ got k turns; n = int (length g); b = over g buffer in
        n \<le> qty \<and>
        (r = Returned n b \<and> (n = qty \<or> (k < length turns \<and> late ticks timeout (fst (turns ! k))))
         \<or> r = Returned 0 b \<and> k < length turns \<and> result (snd (turns ! k)) = -1
         \<or> r = Reading n b \<and> k = length turns \<and> (\<forall>t \<in> set turns. \<not> late ticks timeout (fst t)))"
    unfolding collected_def by blast
  then show ?thesis using assms(2) unfolding collected_def by (intro exI [of _ "Suc k"]) (auto simp: Let_def)
qed

lemma com_read_from_collected:
  "turns_ok qty (int (length pre)) turns \<Longrightarrow> int (length pre) \<le> qty \<Longrightarrow> qty \<le> int (length buffer) \<Longrightarrow>
     \<exists>r. com_read_from ticks qty timeout (int (length pre)) (over pre buffer) turns = Some r \<and>
       collected ticks qty timeout buffer pre turns r"
proof (induction turns arbitrary: pre)
  case Nil
  then show ?case by (simp add: collected_def)
next
  case (Cons t turns)
  obtain now a where t: "t = (now, a)" by force
  consider "late ticks timeout now" | "\<not> late ticks timeout now" "result a = -1"
    | "\<not> late ticks timeout now" "result a \<noteq> -1" by blast
  then show ?case
  proof cases
    case 3
    with Cons.prems(1) have a: "result a = int (length (bytes a))" "int (length pre) + result a \<le> qty"
        "turns_ok qty (int (length (pre @ bytes a))) turns"
      by (auto simp: t)
    have w: "block_write (over pre buffer) (int (length pre)) (bytes a) = Some (over (pre @ bytes a) buffer)"
      using a(1,2) Cons.prems(3) by (intro block_write_over) simp_all
    let ?n = "int (length (pre @ bytes a))"
    have step: "com_read_from ticks qty timeout (int (length pre)) (over pre buffer) (t # turns) =
        (if ?n \<ge> qty then Some (Returned ?n (over (pre @ bytes a) buffer))
         else com_read_from ticks qty timeout ?n (over (pre @ bytes a) buffer) turns)"
      using 3 w a(1) by (simp add: t late_def)
    have le: "?n \<le> qty" using a(1,2) by simp
    show ?thesis
    proof (cases "?n \<ge> qty")
      case True
      with le have "collected ticks qty timeout buffer (pre @ bytes a) turns (Returned ?n (over (pre @ bytes a) buffer))"
        by (auto simp: collected_def Let_def intro!: exI [of _ 0])
      from collected_Cons [OF this 3(1)] step True show ?thesis unfolding t [symmetric] by auto
    next
      case False
      from Cons.IH [OF a(3) le Cons.prems(3)] obtain r where
        r: "com_read_from ticks qty timeout ?n (over (pre @ bytes a) buffer) turns = Some r"
          "collected ticks qty timeout buffer (pre @ bytes a) turns r" by blast
      from collected_Cons [OF r(2) 3(1)] r(1) step False show ?thesis unfolding t [symmetric] by auto
    qed
  qed (use Cons.prems in \<open>auto simp: t late_def collected_def Let_def intro!: exI [of _ 0]\<close>)
qed

text \<open>
  A read never stores beyond the number of bytes asked for. What it returns is the number of bytes
  collected, which are in the buffer in their order, once all have come or in the first turn after the
  timeout; or 0, whatever has been collected, if the device fails. It goes on only while it is not late.
\<close>

theorem com_read_collects:
  assumes "turns_ok qty 0 turns" "0 \<le> qty" "qty \<le> int (length buffer)"
  shows "\<exists>r. com_read ticks buffer qty timeout turns = Some r \<and> collected ticks qty timeout buffer [] turns r"
  using com_read_from_collected [of qty "[]" turns buffer ticks timeout] assms by (simp add: com_read_def over_Nil)

lemma com_read_collects_witness:
  "com_read 100 [0, 0, 0, 0] 3 50 [(110, \<lparr>result = 2, bytes = [7, 8], failure = 0\<rparr>), (151, \<lparr>result = 1, bytes = [9], failure = 0\<rparr>)]
     = Some (Returned 2 [7, 8, 0, 0]) \<and>
   collected 100 3 50 [0, 0, 0, 0] [] [(110, \<lparr>result = 2, bytes = [7, 8], failure = 0\<rparr>), (151, \<lparr>result = 1, bytes = [9], failure = 0\<rparr>)]
     (Returned 2 [7, 8, 0, 0])"
proof -
  let ?turns = "[(110, \<lparr>result = 2, bytes = [7, 8], failure = 0\<rparr>), (151, \<lparr>result = 1, bytes = [9], failure = 0\<rparr>)]"
  have "com_read 100 [0, 0, 0, 0] 3 50 ?turns = Some (Returned 2 [7, 8, 0, 0])"
    by (simp add: com_read_def block_write_def)
  with com_read_collects [of 3 ?turns "[0, 0, 0, 0]" 100 50] show ?thesis by simp
qed

subsection \<open>Settings\<close>

lemma parenb_bits:
  "\<not> bit (line_flags config) 8"
  by (cases "baudRate config") (simp_all add: line_flags_def Let_def bit_simps)

text \<open>
  A port opened with odd parity sends and checks no parity: the flag that switches parity on is
  not set, on either kind of port, only the one that chooses its kind; on the RS-485 port it is not
  set for even parity either.
\<close>

theorem com_open_odd_parity_off:
  "and (c_cflag (options485 config)) PARENB = 0 \<and>
   (and (c_cflag (options_tty config v)) PARENB \<noteq> 0 \<longleftrightarrow> parity config = CT_PARITY_EVEN)"
proof -
  have p: "and f PARENB = 0 \<longleftrightarrow> \<not> bit f 8" for f :: "32 word"
    using and_exp_eq_0_iff_not_bit [of f 8] by simp
  have "\<not> bit (c_cflag (options485 config)) 8"
      "bit (c_cflag (options_tty config v)) 8 \<longleftrightarrow> parity config = CT_PARITY_EVEN"
    using parenb_bits [of config]
    by (cases "parity config"; simp add: options485_def options_tty_def Let_def bit_simps)+
  then show ?thesis by (simp only: p not_not simp_thms)
qed

end
