(* ===== verification/Tprinter.thy ===== *)
theory Tprinter
  imports Device_Calls
begin

text \<open>
  The printer port: \<open>src/src/system/dev/tprinter.c\<close>.

  The descriptor and the current format are the record \<open>Prt\<close>; the format is a bit mask. The file of
  the logo is the list of its bytes, or \<open>None\<close> if it cannot be opened.
\<close>

definition PRT_NORMAL :: "32 word" where [simp]: "PRT_NORMAL = 0"
definition PRT_BOLD :: "32 word" where [simp]: "PRT_BOLD = 8"
definition PRT_DBLHEIGHT :: "32 word" where [simp]: "PRT_DBLHEIGHT = 16"
definition BITMAP_INVERT :: byte where [simp]: "BITMAP_INVERT = 1"

record BITMAP =
  width :: int
  height :: int
  image :: "byte list"
  bmp_flags :: byte

datatype printer_request =
    TPRINTER_QUEUEQTY | TPRINTER_NOPAPER | TPRINTER_WAITFORPAPER | TPRINTER_TRYPRINTING
  | TPRINTER_CLEANQUEUE | TPRINTER_ADVANCEPAPER | TPRINTER_STOPPAPER | TPRINTER_DRAW BITMAP

record Prt =
  prt_fd :: int
  curr_fontfmt :: "32 word"

definition printer_node :: "byte list" where
  "printer_node = chars ''/dev/tprinter''"

definition tprinter_open :: "(printer_request, 'w) system \<Rightarrow> Prt \<Rightarrow> 'w \<Rightarrow> int \<times> Prt \<times> 'w" where
  "tprinter_open sys s w =
     (if prt_fd s \<noteq> -1 then (-1, s, w)
      else
        (let (a, w) = sys (Sys_open printer_node O_WRONLY) w in
         if result a < 0 then (-1, s, w) else (0, s\<lparr>prt_fd := result a\<rparr>, w)))"

text \<open>The descriptor is overwritten before it is closed.\<close>

definition tprinter_close :: "(printer_request, 'w) system \<Rightarrow> Prt \<Rightarrow> 'w \<Rightarrow> int \<times> Prt \<times> 'w" where
  "tprinter_close sys s w =
     (let s = s\<lparr>prt_fd := -1\<rparr>; (a, w) = sys (Sys_close (prt_fd s)) w in (result a, s, w))"

definition tprinter_write :: "(printer_request, 'w) system \<Rightarrow> byte list \<Rightarrow> int \<Rightarrow> Prt \<Rightarrow> 'w \<Rightarrow> (int \<times> 'w) option" where
  "tprinter_write sys buf count s w = do {
     xs \<leftarrow> block_read buf 0 count;
     let (a, w) = sys (Sys_write (prt_fd s) xs) w;
     Some (result a, w)
   }"

definition tprinter_get_fontfmt :: "Prt \<Rightarrow> 32 word" where
  "tprinter_get_fontfmt s = curr_fontfmt s"

text \<open>\<open>sprintf\<close> stores two characters, the format and a 0 into an array of three.\<close>

definition tprinter_set_fontfmt :: "(printer_request, 'w) system \<Rightarrow> 32 word \<Rightarrow> Prt \<Rightarrow> 'w \<Rightarrow> (int \<times> Prt \<times> 'w) option" where
  "tprinter_set_fontfmt sys fmt s w = do {
     let s = s\<lparr>curr_fontfmt := fmt\<rparr>;
     fontfmt \<leftarrow> block_write (replicate 3 0) 0 [0x1B, 0x21, ucast fmt, 0];
     (n, w) \<leftarrow> tprinter_write sys fontfmt 3 s w;
     Some (n, s, w)
   }"

definition tprinter_set_bold_on :: "(printer_request, 'w) system \<Rightarrow> Prt \<Rightarrow> 'w \<Rightarrow> (int \<times> Prt \<times> 'w) option" where
  "tprinter_set_bold_on sys s w = tprinter_set_fontfmt sys (or (curr_fontfmt s) PRT_BOLD) s w"

definition tprinter_set_bold_off :: "(printer_request, 'w) system \<Rightarrow> Prt \<Rightarrow> 'w \<Rightarrow> (int \<times> Prt \<times> 'w) option" where
  "tprinter_set_bold_off sys s w = tprinter_set_fontfmt sys (and (curr_fontfmt s) (not PRT_BOLD)) s w"

definition tprinter_get_bold_on :: "Prt \<Rightarrow> bool" where
  "tprinter_get_bold_on s \<longleftrightarrow> and (curr_fontfmt s) PRT_BOLD \<noteq> 0"

definition tprinter_set_dblheight_on :: "(printer_request, 'w) system \<Rightarrow> Prt \<Rightarrow> 'w \<Rightarrow> (int \<times> Prt \<times> 'w) option" where
  "tprinter_set_dblheight_on sys s w = tprinter_set_fontfmt sys (or (curr_fontfmt s) PRT_DBLHEIGHT) s w"

definition tprinter_set_dblheight_off :: "(printer_request, 'w) system \<Rightarrow> Prt \<Rightarrow> 'w \<Rightarrow> (int \<times> Prt \<times> 'w) option" where
  "tprinter_set_dblheight_off sys s w = tprinter_set_fontfmt sys (and (curr_fontfmt s) (not PRT_DBLHEIGHT)) s w"

definition tprinter_get_dblheight_on :: "Prt \<Rightarrow> bool" where
  "tprinter_get_dblheight_on s \<longleftrightarrow> and (curr_fontfmt s) PRT_DBLHEIGHT \<noteq> 0"

definition printer_ioctl :: "(printer_request, 'w) system \<Rightarrow> printer_request \<Rightarrow> Prt \<Rightarrow> 'w \<Rightarrow> int \<times> 'w" where
  "printer_ioctl sys r s w = (let (a, w) = sys (Sys_ioctl (prt_fd s) r) w in (result a, w))"

definition tprinter_queue_qty :: "(printer_request, 'w) system \<Rightarrow> Prt \<Rightarrow> 'w \<Rightarrow> int \<times> 'w" where
  "tprinter_queue_qty sys = printer_ioctl sys TPRINTER_QUEUEQTY"

definition tprinter_has_paper :: "(printer_request, 'w) system \<Rightarrow> Prt \<Rightarrow> 'w \<Rightarrow> int \<times> 'w" where
  "tprinter_has_paper sys = printer_ioctl sys TPRINTER_NOPAPER"

definition tprinter_wait_for_paper :: "(printer_request, 'w) system \<Rightarrow> Prt \<Rightarrow> 'w \<Rightarrow> int \<times> 'w" where
  "tprinter_wait_for_paper sys = printer_ioctl sys TPRINTER_WAITFORPAPER"

definition tprinter_try_printing :: "(printer_request, 'w) system \<Rightarrow> Prt \<Rightarrow> 'w \<Rightarrow> int \<times> 'w" where
  "tprinter_try_printing sys = printer_ioctl sys TPRINTER_TRYPRINTING"

definition tprinter_clean_queue :: "(printer_request, 'w) system \<Rightarrow> Prt \<Rightarrow> 'w \<Rightarrow> int \<times> 'w" where
  "tprinter_clean_queue sys = printer_ioctl sys TPRINTER_CLEANQUEUE"

definition tprinter_start_advance_paper :: "(printer_request, 'w) system \<Rightarrow> Prt \<Rightarrow> 'w \<Rightarrow> 'w" where
  "tprinter_start_advance_paper sys s w = snd (printer_ioctl sys TPRINTER_ADVANCEPAPER s w)"

definition tprinter_stop_advance_paper :: "(printer_request, 'w) system \<Rightarrow> Prt \<Rightarrow> 'w \<Rightarrow> 'w" where
  "tprinter_stop_advance_paper sys s w = snd (printer_ioctl sys TPRINTER_STOPPAPER s w)"

text \<open>
  A logo has rows of 384 points, 48 bytes. The flags are set only in the build for ARM; otherwise they
  are what was on the stack, the parameter \<open>junk\<close>.
\<close>

definition tprinter_print_logo ::
  "(printer_request, 'w) system \<Rightarrow> bool \<Rightarrow> byte \<Rightarrow> byte list option \<Rightarrow> Prt \<Rightarrow> 'w \<Rightarrow> (int \<times> 'w) option" where
  "tprinter_print_logo sys arm_linux junk file s w =
     (case file of
        None \<Rightarrow> Some (-1, w)
      | Some contents \<Rightarrow>
          (let h = int (length contents) div (384 div 8);
               total = (384 div 8) * h;
               bmp = \<lparr>width = 384, height = h, image = take (nat total) contents,
                      bmp_flags = (if arm_linux then BITMAP_INVERT else junk)\<rparr>;
               (res, w) = printer_ioctl sys (TPRINTER_DRAW bmp) s w
           in if res \<noteq> 0 then Some (-2, w)
              else do {
                (_, w) \<leftarrow> tprinter_write sys [10, 0] 1 s w;
                Some (0, w)
              }))"

subsection \<open>Properties\<close>

text \<open>Setting a format, and with it every operation on the style, stores outside the array.\<close>

theorem tprinter_set_fontfmt_overflows:
  "tprinter_set_fontfmt sys fmt s w = None"
  "tprinter_set_bold_on sys s w = None" "tprinter_set_bold_off sys s w = None"
  "tprinter_set_dblheight_on sys s w = None" "tprinter_set_dblheight_off sys s w = None"
proof -
  show f: "tprinter_set_fontfmt sys fmt s w = None" for fmt
    by (simp add: tprinter_set_fontfmt_def block_write_def)
  show "tprinter_set_bold_on sys s w = None" "tprinter_set_bold_off sys s w = None"
    "tprinter_set_dblheight_on sys s w = None" "tprinter_set_dblheight_off sys s w = None"
    by (simp_all add: f tprinter_set_bold_on_def tprinter_set_bold_off_def tprinter_set_dblheight_on_def
        tprinter_set_dblheight_off_def)
qed

text \<open>Closing asks the system to close the descriptor -1, not the one that was open.\<close>

theorem tprinter_close_leaks:
  "tprinter_close noting s w = (0, s\<lparr>prt_fd := -1\<rparr>, w @ [Sys_close (-1)])"
  by (simp add: tprinter_close_def noting_def)

text \<open>A logo is drawn with exactly the bytes of its whole rows.\<close>

theorem tprinter_print_logo_draws:
  "\<exists>bmp. tprinter_print_logo noting True junk (Some contents) s w =
       Some (0, w @ [Sys_ioctl (prt_fd s) (TPRINTER_DRAW bmp), Sys_write (prt_fd s) [10]]) \<and>
     int (length (image bmp)) = width bmp div 8 * height bmp \<and> image bmp = take (length (image bmp)) contents \<and>
     length contents - length (image bmp) < 48 \<and> bmp_flags bmp = BITMAP_INVERT"
proof -
  let ?h = "int (length contents) div 48"
  let ?bmp = "\<lparr>width = 384, height = ?h, image = take (nat (48 * ?h)) contents, bmp_flags = 1\<rparr>"
  have h: "0 \<le> ?h" "48 * ?h \<le> int (length contents)" "int (length contents) < 48 * ?h + 48" by simp_all
  then have l: "length (image ?bmp) = nat (48 * ?h)" by simp
  have r: "tprinter_print_logo noting True junk (Some contents) s w =
      Some (0, w @ [Sys_ioctl (prt_fd s) (TPRINTER_DRAW ?bmp), Sys_write (prt_fd s) [10]])"
    by (simp add: tprinter_print_logo_def printer_ioctl_def tprinter_write_def noting_def block_read_def Let_def)
  show ?thesis using h l by (intro exI [of _ ?bmp]) (simp add: r nat_less_iff less_diff_conv2 linorder_not_le, linarith?)
qed

end
