(* ===== verification/Os_Handler.thy ===== *)
theory Os_Handler
  imports Os_Runtime C_Strings
begin

text \<open>
  The default handler of exceptions and their printing, from \<open>src/src/system/os/osrt.c\<close>.

  A handler is a number, as a pointer to a function is; \<open>strerror\<close> is the table of messages of the
  system. \<open>Go\<close> is a return to the caller and \<open>Stop\<close> the end of the process. A handler that is called
  returns; what it does is the application's.
\<close>

datatype exc_effect =
    Printed "byte list"
  | Flushed
  | HandlerCalled nat string string int int int string string

record Defaults =
  default_exception_handler :: "nat option"

definition ex_set_default_handler :: "nat option \<Rightarrow> Defaults \<Rightarrow> Defaults" where
  "ex_set_default_handler handler d = d\<lparr>default_exception_handler := handler\<rparr>"

definition ad_text :: "(int \<Rightarrow> string) \<Rightarrow> Exception_t \<Rightarrow> string" where
  "ad_text strerror e = (if adcode e > 0 then strerror (adcode e) else [])"

definition ex_printfmt_exception :: "(int \<Rightarrow> string) \<Rightarrow> Exception_t \<Rightarrow> exc_effect" where
  "ex_printfmt_exception strerror e = Printed (chars ''Exception '' @ [39] @ chars (ex_name e) @ [39] @ chars '', at '' @
     chars (ex_file e) @ chars '', line '' @ dec (line e) @ chars '', code '' @ dec (excode e) @
     chars '' [internal code: '' @ dec (adcode e) @ chars '' - '' @ chars (ad_text strerror e) @ chars ''], msg: '' @
     chars (ex_msg e) @ [NEWLINE])"

definition ex_handle_default :: "(int \<Rightarrow> string) \<Rightarrow> Defaults \<Rightarrow> Exception_t \<Rightarrow> exc_effect list \<times> ctl" where
  "ex_handle_default strerror d e =
     (case default_exception_handler d of
        None \<Rightarrow> ([ex_printfmt_exception strerror e], Stop)
      | Some h \<Rightarrow> ([HandlerCalled h (ex_name e) (ex_file e) (line e) (excode e) (adcode e) (ad_text strerror e) (ex_msg e)], Go))"

text \<open>Both take the exception of the calling thread, as \<open>threadSelf\<close> finds it; a null thread is \<open>None\<close>.\<close>

definition ex_call_default_handler ::
  "(int \<Rightarrow> string) \<Rightarrow> int \<Rightarrow> Defaults \<Rightarrow> Os \<Rightarrow> (exc_effect list \<times> ctl) option" where
  "ex_call_default_handler strerror self d os =
     map_option (\<lambda>th. ex_handle_default strerror d (exception (thread_mem os th))) (threadSelf self os)"

definition ex_printfmt :: "(int \<Rightarrow> string) \<Rightarrow> int \<Rightarrow> Os \<Rightarrow> exc_effect list option" where
  "ex_printfmt strerror self os =
     map_option (\<lambda>th. [ex_printfmt_exception strerror (exception (thread_mem os th)), Flushed]) (threadSelf self os)"

text \<open>What a handler is told of an exception that was thrown with a formatted message and no TRY around it.\<close>

lemma handler_told:
  assumes "default_exception_handler d = Some h" "jenv e = None"
  shows "ex_handle_default strerror d (fst (ex_throw_fmt code fatal ad file ln name msg e)) =
    ([HandlerCalled h (take 99 name) (take 99 file) ln code ad (if ad > 0 then strerror ad else []) (take 98 msg)], Go)"
  using assms by (simp add: ex_handle_default_def ex_throw_fmt_def ad_text_def Let_def)

end
