(* ===== verification/Option_Hoare.thy ===== *)
theory Option_Hoare
  imports State_Machine
begin

text \<open>
  What a routine with a failure promises, and the rules that carry a promise through the failure
  monad and through the state machines: \<open>ensures m P\<close> is total (the routine does not fail and its
  result is as \<open>P\<close> says), \<open>yields m P\<close> is partial (if there is a result, it is as \<open>P\<close> says).
\<close>

definition ensures :: "'a option \<Rightarrow> ('a \<Rightarrow> bool) \<Rightarrow> bool" where
  "ensures m P \<longleftrightarrow> (case m of None \<Rightarrow> False | Some x \<Rightarrow> P x)"

definition yields :: "'a option \<Rightarrow> ('a \<Rightarrow> bool) \<Rightarrow> bool" where
  "yields m P \<longleftrightarrow> (case m of None \<Rightarrow> True | Some x \<Rightarrow> P x)"

lemma ensures_simps [simp]: "ensures None P \<longleftrightarrow> False" "ensures (Some x) P \<longleftrightarrow> P x"
  by (simp_all add: ensures_def)

lemma yields_simps [simp]: "yields None P" "yields (Some x) P \<longleftrightarrow> P x"
  by (simp_all add: yields_def)

lemma ensures_bind [simp]: "ensures (Option.bind m f) P \<longleftrightarrow> ensures m (\<lambda>x. ensures (f x) P)"
  by (cases m) simp_all

lemma yields_bind [simp]: "yields (Option.bind m f) P \<longleftrightarrow> yields m (\<lambda>x. yields (f x) P)"
  by (cases m) simp_all

lemma ensures_if: "ensures (if b then m else m') P \<longleftrightarrow> (if b then ensures m P else ensures m' P)"
  by simp

lemma yields_if: "yields (if b then m else m') P \<longleftrightarrow> (if b then yields m P else yields m' P)"
  by simp

lemma ensures_mono: "ensures m P \<Longrightarrow> (\<And>x. m = Some x \<Longrightarrow> P x \<Longrightarrow> Q x) \<Longrightarrow> ensures m Q"
  by (cases m) simp_all

lemma yields_mono: "yields m P \<Longrightarrow> (\<And>x. m = Some x \<Longrightarrow> P x \<Longrightarrow> Q x) \<Longrightarrow> yields m Q"
  by (cases m) simp_all

lemma ensures_iff: "ensures m P \<longleftrightarrow> (\<exists>x. m = Some x \<and> P x)"
  by (cases m) simp_all

lemma yields_iff: "yields m P \<longleftrightarrow> (\<forall>x. m = Some x \<longrightarrow> P x)"
  by (cases m) simp_all

lemma ensures_yields: "ensures m P \<Longrightarrow> yields m P"
  by (cases m) simp_all

lemma yields_some: "m = Some x \<Longrightarrow> yields m P \<Longrightarrow> P x"
  by simp

lemma yields_True: "yields m (\<lambda>x. True)"
  by (cases m) simp_all

subsection \<open>State machines\<close>

text \<open>A transition that fires: the state is changed, then the action is run, then the entry function.\<close>

definition moved :: "'st option \<Rightarrow> ('st, 'c) StateMachine \<Rightarrow> ('st, 'c) StateMachine" where
  "moved new sm = sm\<lparr>lastState := currentState sm, currentState := new\<rparr>"

lemma moved_simps [simp]: "currentState (moved new sm) = new" "context (moved new sm) = context sm"
  by (simp_all add: moved_def)

lemma call_None [simp]: "call None sm = Some sm"
  by (simp add: call_def)

lemma call_Some [simp]: "call (Some f) sm = f sm"
  by (simp add: call_def)

definition fire ::
  "('st \<Rightarrow> ('st, 'c) State) \<Rightarrow> 'st \<Rightarrow> ('st, 'c) Transition \<Rightarrow> ('st, 'c) StateAction" where
  "fire st cur t sm = do {
     sm \<leftarrow> call (action t) (moved (nextState t) sm);
     case nextState t of
       None \<Rightarrow> Some sm
     | Some new \<Rightarrow> if new \<noteq> cur then call (entry (st new)) sm else Some sm
   }"

lemma execute_fire:
  fixes st :: "'st \<Rightarrow> ('st, 'c) State"
  assumes "currentState sm = Some cur" "exit (st cur) = None"
  shows "executeStateMachine st ev sm =
    do { (t, sm) \<leftarrow> find_transition ev (transitions (st cur)) (sm\<lparr>currentEvent := ev\<rparr>); fire st cur t sm }"
proof -
  have c: "(if b then call (exit (st cur)) s else Some s) = Some s" for b and s :: "('st, 'c) StateMachine"
    by (simp add: call_def assms(2))
  show ?thesis
    unfolding executeStateMachine_def fire_def moved_def
    using assms(1) by (simp add: Let_def c)
qed

text \<open>
  The rows of a table one by one: the search keeps \<open>I\<close> while guards say no, and the row that is taken
  establishes \<open>Q\<close>.
\<close>

definition row_ensures ::
  "int \<Rightarrow> (('st, 'c) StateMachine \<Rightarrow> bool) \<Rightarrow> (('st, 'c) Transition \<Rightarrow> ('st, 'c) StateMachine \<Rightarrow> bool) \<Rightarrow>
   ('st, 'c) Transition \<Rightarrow> bool" where
  "row_ensures ev I Q t \<longleftrightarrow> (tr_event t = ev \<or> tr_event t = SM_ANY \<longrightarrow> (\<forall>sm. I sm \<longrightarrow>
     (case guardCondition t of None \<Rightarrow> Q t sm
      | Some g \<Rightarrow> ensures (g sm) (\<lambda>(ok, sm). if ok then Q t sm else I sm))))"

definition row_yields ::
  "int \<Rightarrow> (('st, 'c) StateMachine \<Rightarrow> bool) \<Rightarrow> (('st, 'c) Transition \<Rightarrow> ('st, 'c) StateMachine \<Rightarrow> bool) \<Rightarrow>
   ('st, 'c) Transition \<Rightarrow> bool" where
  "row_yields ev I Q t \<longleftrightarrow> (tr_event t = ev \<or> tr_event t = SM_ANY \<longrightarrow> (\<forall>sm. I sm \<longrightarrow>
     (case guardCondition t of None \<Rightarrow> Q t sm
      | Some g \<Rightarrow> yields (g sm) (\<lambda>(ok, sm). if ok then Q t sm else I sm))))"

definition catch_all :: "('st, 'c) Transition list \<Rightarrow> bool" where
  "catch_all ts \<longleftrightarrow> (\<exists>t \<in> set ts. tr_event t = SM_ANY \<and> guardCondition t = None)"

lemma catch_all_simps [simp]: "catch_all [] \<longleftrightarrow> False"
  "catch_all (t # ts) \<longleftrightarrow> tr_event t = SM_ANY \<and> guardCondition t = None \<or> catch_all ts"
  by (auto simp: catch_all_def)

lemma list_pred_simps: "list_all P [] \<longleftrightarrow> True" "list_all P (x # xs) \<longleftrightarrow> P x \<and> list_all P xs"
  by simp_all

lemma find_ensures:
  assumes "list_all (row_ensures ev I Q) ts" "catch_all ts" "I sm"
  shows "ensures (find_transition ev ts sm) (\<lambda>(t, sm). Q t sm)"
  using assms
proof (induction ts arbitrary: sm)
  case Nil
  then show ?case by (simp add: catch_all_def)
next
  case (Cons t ts)
  have row: "row_ensures ev I Q t" using Cons.prems(1) by simp
  show ?case
  proof (cases "tr_event t = ev \<or> tr_event t = SM_ANY")
    case False
    then have "catch_all ts" using Cons.prems(2) by (auto simp: catch_all_def)
    with False Cons show ?thesis by simp
  next
    case True
    show ?thesis
    proof (cases "guardCondition t")
      case None
      with True row Cons.prems(3) show ?thesis by (auto simp: row_ensures_def)
    next
      case (Some g)
      then have c: "catch_all ts" using Cons.prems(2) by (auto simp: catch_all_def)
      from True row Cons.prems(3) Some
      have "ensures (g sm) (\<lambda>(ok, sm). if ok then Q t sm else I sm)" by (auto simp: row_ensures_def)
      then obtain ok sm' where g: "g sm = Some (ok, sm')" "if ok then Q t sm' else I sm'"
        by (auto simp: ensures_iff)
      with True Some Cons.IH [of sm'] Cons.prems(1) c show ?thesis by (cases ok) simp_all
    qed
  qed
qed

lemma find_yields:
  assumes "list_all (row_yields ev I Q) ts" "I sm"
  shows "yields (find_transition ev ts sm) (\<lambda>(t, sm). Q t sm)"
  using assms
proof (induction ts arbitrary: sm)
  case (Cons t ts)
  have row: "row_yields ev I Q t" using Cons.prems(1) by simp
  show ?case
  proof (cases "tr_event t = ev \<or> tr_event t = SM_ANY")
    case False
    with Cons show ?thesis by simp
  next
    case True
    show ?thesis
    proof (cases "guardCondition t")
      case None
      with True row Cons.prems(2) show ?thesis by (auto simp: row_yields_def)
    next
      case (Some g)
      from True row Cons.prems(2) Some
      have y: "yields (g sm) (\<lambda>(ok, sm). if ok then Q t sm else I sm)" by (auto simp: row_yields_def)
      show ?thesis
      proof (cases "g sm")
        case None
        with True Some show ?thesis by simp
      next
        case (Some r)
        with y True \<open>guardCondition t = Some g\<close> Cons.IH Cons.prems(1) show ?thesis
          by (cases r; cases "fst r") auto
      qed
    qed
  qed
qed simp

lemma execute_ensures:
  assumes "currentState sm = Some cur" "exit (st cur) = None" "catch_all (transitions (st cur))"
    "I (sm\<lparr>currentEvent := ev\<rparr>)"
    "list_all (row_ensures ev I (\<lambda>t sm. ensures (fire st cur t sm) P)) (transitions (st cur))"
  shows "ensures (executeStateMachine st ev sm) P"
  using find_ensures [OF assms(5,3,4)] by (simp add: execute_fire [where st = st, OF assms(1,2)] case_prod_unfold)

lemma execute_yields:
  assumes "currentState sm = Some cur" "exit (st cur) = None" "I (sm\<lparr>currentEvent := ev\<rparr>)"
    "list_all (row_yields ev I (\<lambda>t sm. yields (fire st cur t sm) P)) (transitions (st cur))"
  shows "yields (executeStateMachine st ev sm) P"
  using find_yields [OF assms(4,3)] by (simp add: execute_fire [where st = st, OF assms(1,2)] case_prod_unfold)

end
