(* ===== verification/Jcm_Mapping.thy ===== *)
theory Jcm_Mapping
  imports C_Strings
begin

text \<open>
  The codes of the note acceptors: \<open>src/src/framework/cim/device/id0003Mapping.h\<close> and
  \<open>id0003Mapping.m\<close> (plain C in an Objective-C file).

  The statuses, errors and commands of the two CRC protocols, the tables that translate the codes of
  CCNET into those of ID003, and the file of currencies. The file is a list of bytes; its rows have
  the layout of \<open>fCurrType\<close> (two codes of four characters, then two little-endian shorts). A search
  reads the rows one after the other into a static buffer, which keeps its contents between calls.
\<close>

subsection \<open>Protocols and events\<close>

definition ID003 :: byte where [simp]: "ID003 = 0"
definition CCNET :: byte where [simp]: "CCNET = 1"
definition EBDS :: byte where [simp]: "EBDS = 4"
definition RDM100 :: byte where [simp]: "RDM100 = 7"

text \<open>\<open>ID003StatusError\<close>, \<open>ID003StatusResponse\<close> and \<open>ID003StatusPowerUp\<close>.\<close>

definition ID003_STACKER_FULL :: byte where [simp]: "ID003_STACKER_FULL = 0x43"
definition ID003_FAILURE :: byte where [simp]: "ID003_FAILURE = 0x49"
definition ID003_COMM_ERROR :: byte where [simp]: "ID003_COMM_ERROR = 0x4A"

definition ID003_IDLING :: byte where [simp]: "ID003_IDLING = 0x11"
definition ID003_ACCEPTING :: byte where [simp]: "ID003_ACCEPTING = 0x12"
definition ID003_ESCROW :: byte where [simp]: "ID003_ESCROW = 0x13"
definition ID003_VEND_VALID :: byte where [simp]: "ID003_VEND_VALID = 0x15"
definition ID003_STACKED :: byte where [simp]: "ID003_STACKED = 0x16"
definition ID003_REJECTING :: byte where [simp]: "ID003_REJECTING = 0x17"
definition ID003_DISABLED :: byte where [simp]: "ID003_DISABLED = 0x1A"
definition ID003_INITIALIZING :: byte where [simp]: "ID003_INITIALIZING = 0x1B"
definition ID003_UPDATE_FIRM :: byte where [simp]: "ID003_UPDATE_FIRM = 0x01"

definition ID003_POWER_UP :: byte where [simp]: "ID003_POWER_UP = 0x40"
definition ID003_POWER_UP_BILL_STACKER :: byte where [simp]: "ID003_POWER_UP_BILL_STACKER = 0x42"

definition downloadEndStatusCmd :: byte where [simp]: "downloadEndStatusCmd = 0xD3"
definition downloadStatusCmd :: byte where [simp]: "downloadStatusCmd = 0xD4"

text \<open>\<open>CCNETStatusResponse\<close>, \<open>CCNETStatusError\<close> and \<open>CCNETEventsCredit\<close>.\<close>

definition CCNET_POWER_UP :: byte where [simp]: "CCNET_POWER_UP = 0x10"
definition CCNET_POWER_UP_ACCEPTOR :: byte where [simp]: "CCNET_POWER_UP_ACCEPTOR = 0x11"
definition CCNET_POWER_UP_BILL_STACKER :: byte where [simp]: "CCNET_POWER_UP_BILL_STACKER = 0x12"
definition CCNET_INITIALIZING :: byte where [simp]: "CCNET_INITIALIZING = 0x13"
definition CCNET_IDLING :: byte where [simp]: "CCNET_IDLING = 0x14"
definition CCNET_ACCEPTING :: byte where [simp]: "CCNET_ACCEPTING = 0x15"
definition CCNET_DISABLED :: byte where [simp]: "CCNET_DISABLED = 0x19"
definition CCNET_BUSY :: byte where [simp]: "CCNET_BUSY = 0x1B"
definition CCNET_REJECTING :: byte where [simp]: "CCNET_REJECTING = 0x1C"

definition CCNET_STACKER_FULL :: byte where [simp]: "CCNET_STACKER_FULL = 0x41"
definition CCNET_FAILURE :: byte where [simp]: "CCNET_FAILURE = 0x47"
definition CCNET_COMM_ERROR :: byte where [simp]: "CCNET_COMM_ERROR = 0x48"

definition CCNET_ESCROW :: byte where [simp]: "CCNET_ESCROW = 0x80"
definition CCNET_STACKED :: byte where [simp]: "CCNET_STACKED = 0x81"
definition CCNET_RETURNED :: byte where [simp]: "CCNET_RETURNED = 0x82"

subsection \<open>Commands\<close>

definition ACK_CMD :: byte where [simp]: "ACK_CMD = 0"
definition RESET_CMD :: byte where [simp]: "RESET_CMD = 1"
definition STACK_CMD :: byte where [simp]: "STACK_CMD = 2"
definition STATUS_CMD :: byte where [simp]: "STATUS_CMD = 3"
definition DISABLE_CMD :: byte where [simp]: "DISABLE_CMD = 4"
definition RETURN_CMD :: byte where [simp]: "RETURN_CMD = 5"
definition CURRENCY_CMD :: byte where [simp]: "CURRENCY_CMD = 6"
definition IDENTIF_CMD :: byte where [simp]: "IDENTIF_CMD = 7"
definition DOWNLOADSTART_CMD :: byte where [simp]: "DOWNLOADSTART_CMD = 8"
definition DOWNLOADDATA_CMD :: byte where [simp]: "DOWNLOADDATA_CMD = 9"
definition DOWNLOADEND_CMD :: byte where [simp]: "DOWNLOADEND_CMD = 10"
definition CMDQTY :: nat where [simp]: "CMDQTY = 13"

definition cmdsTable :: "byte list list" where
  "cmdsTable =
     [[0x50, 0x40, 0x42, 0x11, 0xC3, 0x43, 0x8A, 0x88, 0xD0, 0xD1, 0xD2, 0xD3, 0xD4],
      [0x00, 0x30, 0x35, 0x33, 0x34, 0x36, 0x41, 0x37, 0xD0, 0xD1, 0xD2, 0xD3, 0xD4]]"

definition getCommandCode :: "byte \<Rightarrow> byte \<Rightarrow> byte" where
  "getCommandCode prot commdReq =
     (if unat commdReq < CMDQTY \<and> unat prot < 2 then cmdsTable ! unat prot ! unat commdReq else commdReq)"

subsection \<open>Translation of the codes of CCNET\<close>

record MapRecord =
  cashCodeVal :: byte
  jcmMapVal :: byte

definition map_records :: "(byte \<times> byte) list \<Rightarrow> MapRecord list" where
  "map_records = map (\<lambda>(c, j). \<lparr>cashCodeVal = c, jcmMapVal = j\<rparr>)"

definition mapFailureTable :: "MapRecord list" where
  "mapFailureTable = map_records [(0x50, 0xA2), (0x51, 0xA5), (0x52, 0xA6), (0x53, 0xB4), (0x54, 0xB5),
     (0x55, 0xB6), (0x56, 0xB7), (0x5F, 0xB8)]"

definition mapRejectTable :: "MapRecord list" where
  "mapRejectTable = map_records [(0x60, 0x71), (0x61, 0x72), (0x62, 0x75), (0x63, 0x74), (0x64, 0x7C),
     (0x65, 0x77), (0x66, 0x78), (0x67, 0x7E), (0x68, 0x79), (0x69, 0x73), (0x6A, 0x7B), (0x6C, 0x7D),
     (0x6D, 0x76)]"

definition mapStatusTable :: "MapRecord list" where
  "mapStatusTable = map_records [(0x10, 0x40), (0x11, 0x41), (0x12, 0x42), (0x13, 0x1B), (0x14, 0x11),
     (0x15, 0x12), (0x17, 0x14), (0x18, 0x18), (0x19, 0x1A), (0x1A, 0x19), (0x1B, 0xDE), (0x1C, 0x17),
     (0x41, 0x43), (0x42, 0x44), (0x43, 0x45), (0x44, 0x46), (0x45, 0x48), (0x46, 0x47), (0x47, 0x49),
     (0x48, 0x4A)]"

fun mapRecord :: "MapRecord list \<Rightarrow> byte \<Rightarrow> byte" where
  "mapRecord [] searchVal = searchVal"
| "mapRecord (r # rs) searchVal =
     (if cashCodeVal r = searchVal then jcmMapVal r else mapRecord rs searchVal)"

definition mapRejectCause :: "byte \<Rightarrow> byte \<Rightarrow> byte" where
  "mapRejectCause prot cause = (if prot = 0 then cause else mapRecord mapRejectTable cause)"

definition mapStatus :: "byte \<Rightarrow> byte \<Rightarrow> byte" where
  "mapStatus prot cashCodeStatus =
     (if prot = 0 then cashCodeStatus else mapRecord mapStatusTable cashCodeStatus)"

definition mapFailureCode :: "byte \<Rightarrow> byte \<Rightarrow> byte" where
  "mapFailureCode prot failureCode =
     (if prot = 0 then failureCode else mapRecord mapFailureTable failureCode)"

subsection \<open>The file of currencies\<close>

record fCurrType =
  cashCode :: "byte list"
  isoStrVal :: "byte list"
  jcmVal :: ushort
  curId :: ushort

definition currency_row :: "string \<Rightarrow> string \<Rightarrow> ushort \<Rightarrow> ushort \<Rightarrow> fCurrType" where
  "currency_row c i j n = \<lparr>cashCode = chars c @ [0], isoStrVal = chars i @ [0], jcmVal = j, curId = n\<rparr>"

text \<open>The bytes of a row.\<close>

definition row_bytes :: "fCurrType \<Rightarrow> byte list" where
  "row_bytes r = cashCode r @ isoStrVal r @
     [lobyte16 (jcmVal r), hibyte16 (jcmVal r), lobyte16 (curId r), hibyte16 (curId r)]"

text \<open>
  The rows as the source lists them, and the array: it is declared with \<open>COUNTRY_QTY\<close> elements, and
  the initialisers in excess are dropped.
\<close>

definition COUNTRY_QTY :: nat where [simp]: "COUNTRY_QTY = 108"

definition listed_currencies :: "fCurrType list" where
  "listed_currencies = [
    currency_row ''AIA'' ''XCD'' 0 951, currency_row ''XCD'' ''XCD'' 0 951,
    currency_row ''ATG'' ''XCD'' 0 951, currency_row ''XCD'' ''XCD'' 0 951,
    currency_row ''ARG'' ''ARS'' 14 32, currency_row ''ARS'' ''ARS'' 14 32,
    currency_row ''ABW'' ''AWG'' 0 533, currency_row ''AWG'' ''AWG'' 0 533,
    currency_row ''AUS'' ''AUD'' 2 36, currency_row ''AUD'' ''AUD'' 2 36,
    currency_row ''AUT'' ''EUR'' 0 978, currency_row ''EUR'' ''EUR'' 0 978,
    currency_row ''BHS'' ''BSD'' 0 44, currency_row ''BSD'' ''BSD'' 0 44,
    currency_row ''BHR'' ''BHD'' 0 48, currency_row ''BEL'' ''EUR'' 35 978,
    currency_row ''BLZ'' ''BZD'' 0 84, currency_row ''BZD'' ''BZD'' 0 84,
    currency_row ''BOL'' ''BOB'' 0 68, currency_row ''BOB'' ''BOB'' 0 68,
    currency_row ''BIH'' ''BAM'' 0 977, currency_row ''BAM'' ''BAM'' 0 977,
    currency_row ''BRA'' ''BRL'' 12 986, currency_row ''BRL'' ''BRL'' 12 986,
    currency_row ''BGR'' ''BGN'' 0 975, currency_row ''BGN'' ''BGN'' 0 975,
    currency_row ''CAN'' ''CAD'' 8 124, currency_row ''CAD'' ''CAD'' 8 124,
    currency_row ''CAN'' ''CAD'' 72 124, currency_row ''CHL'' ''CLP'' 78 152,
    currency_row ''CLO'' ''CLP'' 78 152, currency_row ''COL'' ''COP'' 25 170,
    currency_row ''COP'' ''COP'' 25 170, currency_row ''CRI'' ''CRC'' 77 188,
    currency_row ''CRC'' ''CRC'' 77 188, currency_row ''CUB'' ''CUP'' 0 192,
    currency_row ''CUP'' ''CUP'' 0 192, currency_row ''CZE'' ''CZK'' 44 203,
    currency_row ''CZK'' ''CZK'' 44 203, currency_row ''DNK'' ''DKK'' 58 208,
    currency_row ''DKK'' ''DKK'' 58 208, currency_row ''DOM'' ''DOP'' 0 214,
    currency_row ''DOP'' ''DOP'' 0 214, currency_row ''ECU'' ''USD'' 0 840,
    currency_row ''SLV'' ''USD'' 0 840, currency_row ''USD'' ''USD'' 0 849,
    currency_row ''EUR'' ''EUR'' 224 978, currency_row ''FIN'' ''EUR'' 32 978,
    currency_row ''FRA'' ''EUR'' 24 978, currency_row ''DEU'' ''EUR'' 4 978,
    currency_row ''DEU'' ''EUR'' 52 978, currency_row ''DEU'' ''EUR'' 53 978,
    currency_row ''GBR'' ''GBP'' 23 826, currency_row ''GBP'' ''GBP'' 23 826,
    currency_row ''GTM'' ''GTQ'' 0 320, currency_row ''GTQ'' ''GTQ'' 0 320,
    currency_row ''HND'' ''HNL'' 0 340, currency_row ''HNL'' ''HNL'' 0 340,
    currency_row ''HKG'' ''HKD'' 0 344, currency_row ''HKD'' ''HKD'' 0 344,
    currency_row ''IND'' ''INR'' 0 356, currency_row ''INR'' ''INR'' 0 356,
    currency_row ''IRL'' ''EUR'' 42 978, currency_row ''ISR'' ''ILS'' 86 376,
    currency_row ''ILS'' ''ILS'' 86 376, currency_row ''ITA'' ''EUR'' 11 978,
    currency_row ''JPN'' ''JPY'' 10 392, currency_row ''JPY'' ''JPY'' 10 392,
    currency_row ''MEX'' ''MXP'' 9 484, currency_row ''MXN'' ''MXN'' 9 484,
    currency_row ''NZL'' ''NZD'' 13 554, currency_row ''NZD'' ''NZD'' 13 554,
    currency_row ''NIC'' ''NIO'' 0 558, currency_row ''NIO'' ''NIO'' 0 558,
    currency_row ''NGA'' ''NGN'' 0 566, currency_row ''NGN'' ''NGN'' 0 566,
    currency_row ''PAN'' ''PAB'' 0 590, currency_row ''PAB'' ''PAB'' 0 590,
    currency_row ''PRY'' ''PYG'' 0 600, currency_row ''PYG'' ''PYG'' 0 600,
    currency_row ''PER'' ''PEN'' 47 604, currency_row ''PEN'' ''PEN'' 47 604,
    currency_row ''PHL'' ''PHP'' 74 608, currency_row ''PHP'' ''PHP'' 74 608,
    currency_row ''POL'' ''PLN'' 26 985, currency_row ''PLN'' ''PLN'' 26 985,
    currency_row ''PRT'' ''EUR'' 20 978, currency_row ''PRI'' ''USD'' 0 840,
    currency_row ''RUS'' ''RUB'' 39 643, currency_row ''RUB'' ''RUB'' 39 643,
    currency_row ''SAU'' ''SAR'' 0 682, currency_row ''SAR'' ''SAR'' 0 682,
    currency_row ''SGP'' ''SGD'' 34 702, currency_row ''SGD'' ''SGD'' 34 702,
    currency_row ''ZAF'' ''ZAR'' 6 710, currency_row ''ZAR'' ''ZAR'' 6 710,
    currency_row ''ESP'' ''EUR'' 3 978, currency_row ''SWE'' ''SEK'' 5 752,
    currency_row ''SEK'' ''SEK'' 5 752, currency_row ''CHE'' ''CHE'' 22 947,
    currency_row ''ARE'' ''AED'' 28 784, currency_row ''AED'' ''AED'' 28 784,
    currency_row ''GBR'' ''GBP'' 23 826, currency_row ''USA'' ''USD'' 1 840,
    currency_row ''USD'' ''USD'' 1 840, currency_row ''URY'' ''UYU'' 49 858,
    currency_row ''UYU'' ''UYU'' 49 858, currency_row ''VEN'' ''VEF'' 31 937,
    currency_row ''VEF'' ''VEF'' 31 937]"

definition defaultCurConfig :: "fCurrType list" where
  "defaultCurConfig = take COUNTRY_QTY listed_currencies"

text \<open>
  \<open>curconfig\<close> is the file on the disc (\<open>None\<close> where there is none), \<open>fpCurrencies\<close> whether it is open,
  \<open>creatable\<close> whether the system lets the program create it; writing to the null pointer of a file
  that could not be created is \<open>None\<close>.
\<close>

record CurFile =
  curconfig :: "byte list option"
  fpCurrencies :: bool
  creatable :: bool
  jcm_data :: "byte list"
  cash_data :: "byte list"
  iso_data :: "byte list"

definition openCurFile :: "CurFile \<Rightarrow> (byte list \<times> CurFile) option" where
  "openCurFile c =
     (case curconfig c of
        Some file \<Rightarrow> Some (file, c\<lparr>fpCurrencies := True\<rparr>)
      | None \<Rightarrow>
          if fpCurrencies c \<or> \<not> creatable c then None
          else let file = concat (map row_bytes defaultCurConfig)
               in Some (file, c\<lparr>curconfig := Some file, fpCurrencies := True\<rparr>))"

text \<open>
  The rows are read into the buffer until one is hit or the file ends; the last read may be short.
\<close>

fun scan_rows :: "(byte list \<Rightarrow> bool) \<Rightarrow> byte list \<Rightarrow> byte list \<Rightarrow> byte list" where
  "scan_rows hit buf file =
     (if file = [] then buf
      else let buf = over (take 12 file) buf in
           if hit buf then buf else scan_rows hit buf (drop 12 file))"

declare scan_rows.simps [simp del]

definition row_currency :: "(byte list \<Rightarrow> bool) \<Rightarrow> byte list \<Rightarrow> int" where
  "row_currency hit buf = (if hit buf then uint (le16 (buf ! 10) (buf ! 11)) else 0)"

definition hit_cash :: "byte list \<Rightarrow> byte list \<Rightarrow> bool" where
  "hit_cash s buf \<longleftrightarrow> take 3 s = take 3 buf"

definition hit_iso :: "byte list \<Rightarrow> byte list \<Rightarrow> bool" where
  "hit_iso s buf \<longleftrightarrow> take 3 s = take 3 (drop 4 buf)"

definition hit_jcm :: "int \<Rightarrow> byte list \<Rightarrow> bool" where
  "hit_jcm code buf \<longleftrightarrow> code = uint (le16 (buf ! 8) (buf ! 9))"

definition getCurrencyIdFromCashCode :: "byte list \<Rightarrow> CurFile \<Rightarrow> (int \<times> CurFile) option" where
  "getCurrencyIdFromCashCode countryStr c = do {
     (file, c) \<leftarrow> openCurFile c;
     let buf = scan_rows (hit_cash countryStr) (cash_data c) file;
     Some (row_currency (hit_cash countryStr) buf, c\<lparr>cash_data := buf\<rparr>)
   }"

definition getCurrencyIdFromJcm :: "int \<Rightarrow> CurFile \<Rightarrow> (int \<times> CurFile) option" where
  "getCurrencyIdFromJcm code c = do {
     (file, c) \<leftarrow> openCurFile c;
     let buf = scan_rows (hit_jcm code) (jcm_data c) file;
     Some (row_currency (hit_jcm code) buf, c\<lparr>jcm_data := buf\<rparr>)
   }"

definition getCurrencyIdFromISOStr :: "byte list \<Rightarrow> CurFile \<Rightarrow> (int \<times> CurFile) option" where
  "getCurrencyIdFromISOStr countryStr c = do {
     (file, c) \<leftarrow> openCurFile c;
     let buf = scan_rows (hit_iso countryStr) (iso_data c) file;
     Some (row_currency (hit_iso countryStr) buf, c\<lparr>iso_data := buf\<rparr>)
   }"

end
