(* ===== verification/Jcm_Mapping_Props.thy ===== *)
theory Jcm_Mapping_Props
  imports Jcm_Mapping
begin

text \<open>
  The file of currencies: a lookup answers with the first row that matches, and what that means for the
  rows the program writes itself.
\<close>

subsection \<open>Reading rows\<close>

definition row_ok :: "fCurrType \<Rightarrow> bool" where
  "row_ok r \<longleftrightarrow> length (cashCode r) = 4 \<and> length (isoStrVal r) = 4"

lemma length_row [simp]: "row_ok r \<Longrightarrow> length (row_bytes r) = 12"
  by (simp add: row_ok_def row_bytes_def)

text \<open>The fields of a row, read back from its bytes.\<close>

lemma row_fields:
  assumes "row_ok r"
  shows "hit_cash s (row_bytes r) \<longleftrightarrow> take 3 s = take 3 (cashCode r)"
    "hit_iso s (row_bytes r) \<longleftrightarrow> take 3 s = take 3 (isoStrVal r)"
    "hit_jcm code (row_bytes r) \<longleftrightarrow> code = uint (jcmVal r)"
    "le16 (row_bytes r ! 10) (row_bytes r ! 11) = curId r"
  using assms by (simp_all add: row_ok_def hit_cash_def hit_iso_def hit_jcm_def row_bytes_def nth_append)

text \<open>A row fills the buffer; the buffer after the last row is that row.\<close>

lemma scan_row:
  assumes "row_ok r" "length buf = 12"
  shows "scan_rows hit buf (row_bytes r @ rest) =
    (if hit (row_bytes r) then row_bytes r else scan_rows hit (row_bytes r) rest)"
proof -
  have "row_bytes r \<noteq> []" by (simp add: row_bytes_def)
  moreover have "over (row_bytes r) buf = row_bytes r" using assms by (simp add: over_def)
  ultimately show ?thesis using assms(1) by (subst scan_rows.simps) (simp add: Let_def)
qed

lemma scan_first:
  assumes "list_all row_ok rs" "length buf = 12"
  shows "scan_rows hit buf (concat (map row_bytes rs)) =
    (case find (\<lambda>r. hit (row_bytes r)) rs of Some r \<Rightarrow> row_bytes r | None \<Rightarrow> last (buf # map row_bytes rs))"
  using assms
proof (induction rs arbitrary: buf)
  case Nil
  then show ?case by (simp add: scan_rows.simps)
next
  case (Cons r rs)
  then show ?case using Cons.IH [of "row_bytes r"] by (simp add: scan_row split: option.splits)
qed

lemma no_hit_last: "find P rs = None \<Longrightarrow> rs \<noteq> [] \<Longrightarrow> \<not> P (last rs)"
  by (auto simp: find_None_iff)

lemma row_currency_scan:
  assumes "list_all row_ok rs" "rs \<noteq> []" "length buf = 12"
  shows "row_currency hit (scan_rows hit buf (concat (map row_bytes rs))) =
    (case find (\<lambda>r. hit (row_bytes r)) rs of Some r \<Rightarrow> uint (curId r) | None \<Rightarrow> 0)"
proof (cases "find (\<lambda>r. hit (row_bytes r)) rs")
  case None
  with no_hit_last [OF None assms(2)] assms show ?thesis
    by (simp add: scan_first row_currency_def last_map)
next
  case (Some r)
  then have "r \<in> set rs" "hit (row_bytes r)" by (auto simp: find_Some_iff)
  moreover from this assms(1) have "row_ok r" by (simp add: list_all_iff)
  ultimately show ?thesis using Some assms by (simp add: scan_first row_currency_def row_fields)
qed

lemma find_rows:
  assumes "list_all row_ok rs"
  shows "find (\<lambda>r. hit_cash s (row_bytes r)) rs = find (\<lambda>r. take 3 s = take 3 (cashCode r)) rs"
    "find (\<lambda>r. hit_iso s (row_bytes r)) rs = find (\<lambda>r. take 3 s = take 3 (isoStrVal r)) rs"
    "find (\<lambda>r. hit_jcm code (row_bytes r)) rs = find (\<lambda>r. code = uint (jcmVal r)) rs"
  using assms by (auto simp: list_all_iff row_fields intro!: find_cong)

subsection \<open>Lookups\<close>

text \<open>What a lookup answers, and that the file stays as it is.\<close>

definition first_row :: "(fCurrType \<Rightarrow> bool) \<Rightarrow> fCurrType list \<Rightarrow> int" where
  "first_row P rs = (case find P rs of Some r \<Rightarrow> uint (curId r) | None \<Rightarrow> 0)"

definition answers :: "int \<Rightarrow> CurFile \<Rightarrow> (int \<times> CurFile) option \<Rightarrow> bool" where
  "answers v c res \<longleftrightarrow> (\<exists>c'. res = Some (v, c') \<and> curconfig c' = curconfig c)"

text \<open>C35. A lookup in the file of currencies answers with the first row that matches. Whatever the
rows of the file are, if there is one at all, the search for the code an ID003 acceptor uses, for the
three letters a CCNET acceptor uses and for an ISO name read the file row by row into their buffers and
give the currency of the first row with that code, or 0 where there is none; what an earlier search
left in the buffer does not show.\<close>

theorem currency_of_first_row:
  assumes "curconfig c = Some (concat (map row_bytes rs))" "list_all row_ok rs" "rs \<noteq> []"
    "length (jcm_data c) = 12" "length (cash_data c) = 12" "length (iso_data c) = 12"
  shows "answers (first_row (\<lambda>r. code = uint (jcmVal r)) rs) c (getCurrencyIdFromJcm code c) \<and>
    answers (first_row (\<lambda>r. take 3 s = take 3 (cashCode r)) rs) c (getCurrencyIdFromCashCode s c) \<and>
    answers (first_row (\<lambda>r. take 3 s = take 3 (isoStrVal r)) rs) c (getCurrencyIdFromISOStr s c)"
  using assms by (simp add: answers_def first_row_def getCurrencyIdFromJcm_def getCurrencyIdFromCashCode_def
      getCurrencyIdFromISOStr_def openCurFile_def row_currency_scan find_rows Let_def)

lemma currency_of_first_row_witness:
  "\<exists>c. curconfig c = Some (row_bytes (currency_row ''ARG'' ''ARS'' 14 32)) \<and>
    answers 32 c (getCurrencyIdFromJcm 14 c) \<and> answers 32 c (getCurrencyIdFromCashCode (chars ''ARG'') c) \<and>
    answers 0 c (getCurrencyIdFromISOStr (chars ''ARG'') c)"
proof -
  let ?r = "currency_row ''ARG'' ''ARS'' 14 32"
  let ?c = "\<lparr>curconfig = Some (row_bytes ?r), fpCurrencies = False, creatable = True, jcm_data = replicate 12 0,
     cash_data = replicate 12 0, iso_data = replicate 12 0\<rparr>"
  have "answers (first_row (\<lambda>r. 14 = uint (jcmVal r)) [?r]) ?c (getCurrencyIdFromJcm 14 ?c) \<and>
    answers (first_row (\<lambda>r. take 3 (chars ''ARG'') = take 3 (cashCode r)) [?r]) ?c (getCurrencyIdFromCashCode (chars ''ARG'') ?c) \<and>
    answers (first_row (\<lambda>r. take 3 (chars ''ARG'') = take 3 (isoStrVal r)) [?r]) ?c (getCurrencyIdFromISOStr (chars ''ARG'') ?c)"
    by (rule currency_of_first_row) (simp_all add: row_ok_def currency_row_def chars_def)
  then show ?thesis by (intro exI [of _ ?c]) (simp add: first_row_def currency_row_def chars_def)
qed

subsection \<open>The file the program writes\<close>

lemma default_rows: "list_all row_ok defaultCurConfig"
  unfolding defaultCurConfig_def listed_currencies_def currency_row_def row_ok_def chars_def by simp

text \<open>C36. The file the program writes gives the dollar the code of no currency. On a disc without the file
of currencies the program writes its own rows; then a CCNET acceptor that reports USD is taken for
currency 849 although ISO name USD and the code of an ID003 acceptor for the United States give 840,
because a row of El Salvador with a mistyped number comes first; and the last of the rows listed in the
source, the Venezuelan VEF, is not found at all, because the array has room for one row less.\<close>

theorem dollar_is_849:
  assumes "curconfig c = None" "\<not> fpCurrencies c" "creatable c"
    "length (jcm_data c) = 12" "length (cash_data c) = 12" "length (iso_data c) = 12"
  shows "\<exists>c1 c2 c3 c4. getCurrencyIdFromCashCode (chars ''USD'') c = Some (849, c1) \<and>
    getCurrencyIdFromISOStr (chars ''USD'') c1 = Some (840, c2) \<and> getCurrencyIdFromJcm 1 c2 = Some (840, c3) \<and>
    getCurrencyIdFromCashCode (chars ''VEF'') c3 = Some (0, c4) \<and>
    last listed_currencies = currency_row ''VEF'' ''VEF'' 31 937"
proof -
  have ne: "defaultCurConfig \<noteq> []" by (simp add: defaultCurConfig_def listed_currencies_def)
  have usd: "first_row (\<lambda>r. take 3 (chars ''USD'') = take 3 (cashCode r)) defaultCurConfig = 849"
    "first_row (\<lambda>r. take 3 (chars ''VEF'') = take 3 (cashCode r)) defaultCurConfig = 0"
    by (simp_all add: first_row_def defaultCurConfig_def listed_currencies_def currency_row_def chars_def)
  have iso: "first_row (\<lambda>r. take 3 (chars ''USD'') = take 3 (isoStrVal r)) defaultCurConfig = 840"
    "first_row (\<lambda>r. 1 = uint (jcmVal r)) defaultCurConfig = 840"
    by (simp_all add: first_row_def defaultCurConfig_def listed_currencies_def currency_row_def chars_def)
  note now = row_currency_scan [OF default_rows ne] find_rows [OF default_rows]
  note look = getCurrencyIdFromCashCode_def getCurrencyIdFromISOStr_def getCurrencyIdFromJcm_def openCurFile_def
  have len: "length (scan_rows hit buf (concat (map row_bytes defaultCurConfig))) = 12" if "length buf = 12" for hit buf
    using that ne default_rows
    by (auto simp: scan_first [OF default_rows that] last_map list_all_iff find_Some_iff split: option.split)
  show ?thesis
    using assms usd iso by (simp add: look now len first_row_def Let_def) (simp add: listed_currencies_def)
qed

lemma dollar_is_849_witness:
  "\<exists>c. curconfig c = None \<and> (\<exists>c1 c2 c3 c4. getCurrencyIdFromCashCode (chars ''USD'') c = Some (849, c1) \<and>
    getCurrencyIdFromISOStr (chars ''USD'') c1 = Some (840, c2) \<and> getCurrencyIdFromJcm 1 c2 = Some (840, c3) \<and>
    getCurrencyIdFromCashCode (chars ''VEF'') c3 = Some (0, c4))"
proof -
  let ?c = "\<lparr>curconfig = None, fpCurrencies = False, creatable = True, jcm_data = replicate 12 0,
     cash_data = replicate 12 0, iso_data = replicate 12 0\<rparr>"
  have "\<exists>c1 c2 c3 c4. getCurrencyIdFromCashCode (chars ''USD'') ?c = Some (849, c1) \<and>
    getCurrencyIdFromISOStr (chars ''USD'') c1 = Some (840, c2) \<and> getCurrencyIdFromJcm 1 c2 = Some (840, c3) \<and>
    getCurrencyIdFromCashCode (chars ''VEF'') c3 = Some (0, c4) \<and>
    last listed_currencies = currency_row ''VEF'' ''VEF'' 31 937"
    by (rule dollar_is_849) simp_all
  then show ?thesis by (intro exI [of _ ?c]) (simp, blast)
qed

end
