(* ===== verification/Jcm_Acceptor.thy ===== *)
theory Jcm_Acceptor
  imports Jcm_Mapping Jcm_Comm State_Machine
begin

text \<open>
  A note acceptor: its data (\<open>src/src/framework/cim/device/jcmBillAcceptorMgr.h\<close>), the exchange of a
  command and its reply, and the functions that the state machines of ID003 and CCNET share
  (\<open>jcmBillAcceptorMgr.m\<close>, plain C in an Objective-C file).

  \<open>billAcceptWriteRead\<close> sends a command, waits for the reply and runs the state machine on it. Guards,
  actions and entry functions call it, so the machine runs inside its own transitions; every function
  that does is given the inner run, \<open>run ev sm\<close>, as its first argument.

  The record \<open>Acceptor\<close> extends the data with what the program shares with the outside: the buffer of
  frames, the replies that the serial line will deliver (a null pointer is \<open>None\<close>; when the list is
  at its end the line stays silent), the file of currencies and the trace of the effects, in their
  order. A callback is known by whether it is registered; the application does not call the acceptor
  back from it. \<open>dataEvPtr\<close> is the block of bytes it points to, up to the end of what the line
  delivered. A file is the bytes still to be read. The log is not modelled.
\<close>

subsection \<open>Data\<close>

record JCMDenomination =
  amount :: int
  disabled :: int
  den_countryCode :: byte
  countryStr :: "byte list"
  den_currencyId :: int

definition no_denomination :: JCMDenomination where
  "no_denomination = \<lparr>amount = 0, disabled = 0, den_countryCode = 0, countryStr = replicate 4 0, den_currencyId = 0\<rparr>"

definition MultipApp :: int where [simp]: "MultipApp = 10000000"

definition JCM_ENABLE :: byte where [simp]: "JCM_ENABLE = 1"
definition JCM_DISABLE :: byte where [simp]: "JCM_DISABLE = 2"
definition JCM_VALIDATE_ONLY :: byte where [simp]: "JCM_VALIDATE_ONLY = 3"

definition FIRM_UPD_DATA_SIZE :: nat where [simp]: "FIRM_UPD_DATA_SIZE = 246"

record JcmBillAcceptData =
  statusNotificationFcn :: bool
  acceptingNotificationFcn :: bool
  billRejectNotificationFcn :: bool
  billAcceptNotificationFcn :: bool
  commErrorNotificationFcn :: bool
  firmwareUpdateProgress :: bool
  status :: byte
  pendingStatus :: byte
  canChangeStatus :: byte
  event :: byte
  dataLenEvt :: int
  dataEvPtr :: "byte list option"
  amountChar :: int
  currencyId :: int
  lastRejectCause :: byte
  errorCause :: byte
  errorAditInfo :: byte
  convertionTable :: "JCMDenomination list"
  billTableLoaded :: byte
  countryCode :: int
  jcmVersion :: "byte list"
  devId :: byte
  errorResetQty :: byte
  resetSentQty :: byte
  commErrQty :: byte
  canResetVal :: byte
  appNotifPowerUpBill :: byte
  protocol :: byte
  firmImage :: "byte list option"
  offsetTransfer :: int
  blockSize :: int
  fileOffset :: int
  qtyInvalidCmd :: int
  frameSize :: int
  framesQty :: ulong
  framesQtyRefreshProgress :: ulong
  fileSize :: int
  imageCrc :: ushort
  qtySentWithAck :: byte
  firmwFrame :: "byte list"
  cheatedLeaveApp :: byte

text \<open>What reaches the line, the application and the devices.\<close>

datatype effect =
    SentFrame byte "byte list"
  | BillAccepted byte int int int
  | BillRejected byte byte int
  | CommErrorNotified byte byte
  | StatusNotified byte byte
  | AcceptingNotified byte byte
  | UpdateProgress byte byte
  | DeviceReset byte
  | Slept nat

record Acceptor = JcmBillAcceptData +
  jcm :: Jcm
  line :: "byte list option list"
  currencies :: CurFile
  effects :: "effect list"

datatype bill_state =
    noCommState
  | jcmFirstState | jcmInitializingState | jcmDisabledState | jcmEnabledState | jcmReceivingBillState
  | jcmErrorState | jcmStartFirmwareUpd | jcmUpdateFirmware
  | ccnetInitializingState | ccnetDisabledState | ccnetEnabledState | ccnetReceivingBillState
  | ccnetErrorState | ccnetStartFirmwareUpd | ccnetFirmwareUpd

type_synonym bill_machine = "(bill_state, Acceptor) StateMachine"
type_synonym bill_action = "bill_machine \<Rightarrow> bill_machine option"
type_synonym bill_guard = "bill_machine \<Rightarrow> (bool \<times> bill_machine) option"

text \<open>Changing the data of the machine, and leaving a trace.\<close>

definition upd :: "(Acceptor \<Rightarrow> Acceptor) \<Rightarrow> bill_machine \<Rightarrow> bill_machine" where
  "upd f sm = sm\<lparr>context := f (context sm)\<rparr>"

definition trace :: "effect \<Rightarrow> bill_machine \<Rightarrow> bill_machine" where
  "trace e = upd (\<lambda>a. a\<lparr>effects := effects a @ [e]\<rparr>)"

definition trace_if :: "bool \<Rightarrow> effect \<Rightarrow> bill_machine \<Rightarrow> bill_machine" where
  "trace_if b e sm = (if b then trace e sm else sm)"

text \<open>The byte at an offset from \<open>dataEvPtr\<close>, a row of the table and a change of one.\<close>

definition event_byte :: "int \<Rightarrow> Acceptor \<Rightarrow> byte option" where
  "event_byte i a = do { d \<leftarrow> dataEvPtr a; block_at d i }"

definition denomination :: "Acceptor \<Rightarrow> int \<Rightarrow> JCMDenomination option" where
  "denomination a i =
     (if 0 \<le> i \<and> nat i < length (convertionTable a) then Some (convertionTable a ! nat i) else None)"

definition set_denomination ::
  "int \<Rightarrow> (JCMDenomination \<Rightarrow> JCMDenomination) \<Rightarrow> Acceptor \<Rightarrow> Acceptor option" where
  "set_denomination i f a = do {
     d \<leftarrow> denomination a i;
     Some (a\<lparr>convertionTable := (convertionTable a)[nat i := f d]\<rparr>)
   }"

subsection \<open>A command and its reply\<close>

definition send :: "byte \<Rightarrow> byte list \<Rightarrow> bill_action" where
  "send cmd data sm = do {
     let a = context sm;
     (j, dev, frame) \<leftarrow> jcmWrite (devId a) (protocol a) cmd data (int (length data)) (jcm a);
     Some (trace (SentFrame dev frame) (upd (\<lambda>a. a\<lparr>jcm := j\<rparr>) sm))
   }"

definition next_block :: "Acceptor \<Rightarrow> byte list option" where
  "next_block a = (case line a of [] \<Rightarrow> None | b # bs \<Rightarrow> b)"

text \<open>The unsigned \<open>dataLenEvt\<close> is stored as an \<open>int\<close> by \<open>jcmRead\<close>.\<close>

definition receive :: "bill_machine \<Rightarrow> (bool \<times> bill_machine) option" where
  "receive sm = do {
     let a = context sm;
     r \<leftarrow> jcmRead (next_block a) (protocol a);
     Some (reply r \<noteq> None \<and> dev_out r = Some (devId a),
       upd (\<lambda>a. a\<lparr>line := tl (line a), dataEvPtr := reply r,
         dataLenEvt := (case cmdDataLen r of None \<Rightarrow> dataLenEvt a | Some n \<Rightarrow> n mod 2 ^ 32)\<rparr>) sm)
   }"

text \<open>The event of a reply, and the pointer to its data.\<close>

definition first_byte_event :: "bill_action" where
  "first_byte_event sm = do {
     e \<leftarrow> event_byte 0 (context sm);
     Some (upd (\<lambda>a. a\<lparr>event := e, dataEvPtr := map_option tl (dataEvPtr a)\<rparr>) sm)
   }"

definition set_event :: "byte \<Rightarrow> bill_machine \<Rightarrow> bill_machine" where
  "set_event e = upd (\<lambda>a. a\<lparr>event := e\<rparr>)"

definition reply_event :: "byte \<Rightarrow> byte list \<Rightarrow> bill_action" where
  "reply_event cmd data sm =
     (if protocol (context sm) = ID003 \<or> cmd = 0x33 then first_byte_event sm
      else if cmd = 0x37 then Some (set_event 0x88 sm)
      else if cmd = 0x41 then Some (set_event 0x8A sm)
      else if cmd = 0x50 then
        Some (set_event (if data = [] then 0x50 else if hd data \<noteq> 0x30 then 0x50 + hd data else 0x30) sm)
      else Some (set_event cmd sm))"

definition billAcceptWriteRead ::
  "(int \<Rightarrow> bill_action) \<Rightarrow> byte \<Rightarrow> byte list \<Rightarrow> bill_action" where
  "billAcceptWriteRead run cmd data sm = do {
     sm \<leftarrow> send cmd data sm;
     sm \<leftarrow> (if protocol (context sm) = CCNET \<and> cmd = 0x50 then do {
              d \<leftarrow> block_at data 0;
              Some (trace_if (d = 0x02) (Slept 400) sm)
            } else Some sm);
     (ok, sm) \<leftarrow> receive sm;
     if ok then do {
       sm \<leftarrow> reply_event cmd data sm;
       let sm = upd (\<lambda>a. a\<lparr>commErrQty := 0\<rparr>) sm;
       run (uint (event (context sm))) sm
     } else do {
       let sm = upd (\<lambda>a. a\<lparr>commErrQty := commErrQty a + 1\<rparr>) sm;
       if commErrQty (context sm) > 3 then do {
         let sm = set_event (if protocol (context sm) = ID003 then ID003_COMM_ERROR else CCNET_COMM_ERROR) sm;
         run (uint (event (context sm))) sm
       } else Some sm
     }
   }"

text \<open>The code of a command of the acceptor's protocol.\<close>

definition command :: "byte \<Rightarrow> bill_machine \<Rightarrow> byte" where
  "command c sm = getCommandCode (protocol (context sm)) c"

subsection \<open>Notifications to the application\<close>

definition notifyBillAccepted :: bill_action where
  "notifyBillAccepted sm = do {
     let a = context sm;
     Some (if billAcceptNotificationFcn a \<and> amountChar a \<noteq> -1
           then upd (\<lambda>a. a\<lparr>amountChar := -1\<rparr>) (trace (BillAccepted (devId a) (amountChar a) (currencyId a) 1) sm)
           else sm)
   }"

definition sendRejectNotification :: bill_action where
  "sendRejectNotification sm = do {
     let a = context sm;
     b \<leftarrow> event_byte 0 a;
     let cause = mapRejectCause (protocol a) b;
     Some (if billRejectNotificationFcn a
           then upd (\<lambda>a. a\<lparr>lastRejectCause := cause, errorCause := ID003_REJECTING\<rparr>)
                  (trace (BillRejected (devId a) cause 1) sm)
           else sm)
   }"

definition notifyFirmwareUpdate :: "byte \<Rightarrow> bill_action" where
  "notifyFirmwareUpdate result sm = do {
     let sm = upd (\<lambda>a. a\<lparr>firmImage := None, canResetVal := 1\<rparr>) sm;
     Some (trace_if (firmwareUpdateProgress (context sm)) (UpdateProgress (devId (context sm)) result) sm)
   }"

subsection \<open>Entry functions\<close>

text \<open>\<open>*jcmVersion = billTableLoaded = 0\<close>.\<close>

definition forget_tables :: "Acceptor \<Rightarrow> Acceptor" where
  "forget_tables a = a\<lparr>billTableLoaded := 0, jcmVersion := (jcmVersion a)[0 := 0]\<rparr>"

definition loadNoComm :: bill_action where
  "loadNoComm sm = Some (upd (\<lambda>a. (forget_tables a)\<lparr>resetSentQty := 0\<rparr>) sm)"

definition loadDisable :: bill_action where
  "loadDisable sm = Some (upd (\<lambda>a. a\<lparr>canChangeStatus := 1\<rparr>) sm)"

definition loadEnable :: bill_action where
  "loadEnable sm = Some (upd (\<lambda>a. a\<lparr>canChangeStatus := 1, appNotifPowerUpBill := 0\<rparr>) sm)"

definition loadReceivingBill :: bill_action where
  "loadReceivingBill sm = do {
     let sm = upd (\<lambda>a. a\<lparr>canChangeStatus := 0\<rparr>) sm;
     Some (trace_if (acceptingNotificationFcn (context sm)) (AcceptingNotified (devId (context sm)) ID003_ACCEPTING) sm)
   }"

subsection \<open>Commands\<close>

definition doDisable :: "(int \<Rightarrow> bill_action) \<Rightarrow> bill_action" where
  "doDisable run sm =
     billAcceptWriteRead run (command DISABLE_CMD sm)
       (if protocol (context sm) = ID003 then [1] else replicate 6 0) sm"

definition doEnable :: "(int \<Rightarrow> bill_action) \<Rightarrow> bill_action" where
  "doEnable run sm =
     billAcceptWriteRead run (command DISABLE_CMD sm)
       (if protocol (context sm) = ID003 then [0] else replicate 6 0xFF) sm"

definition sendAckNotification :: bill_action where
  "sendAckNotification sm = do {
     sm \<leftarrow> send (command ACK_CMD sm) [] sm;
     Some (trace (Slept (if protocol (context sm) = CCNET then 40 else 500)) sm)
   }"

text \<open>The amount and the currency of a row become those of the bill in hand.\<close>

definition bill_in_hand :: "byte \<Rightarrow> Acceptor \<Rightarrow> (JCMDenomination \<times> Acceptor) option" where
  "bill_in_hand index a = do {
     d \<leftarrow> denomination a (uint index);
     Some (d, a\<lparr>amountChar := amount d * MultipApp, currencyId := den_currencyId d\<rparr>)
   }"

definition sendVendValidNotification :: bill_action where
  "sendVendValidNotification sm = do {
     sm \<leftarrow> (if protocol (context sm) = CCNET then do {
              index \<leftarrow> event_byte 0 (context sm);
              (d, a) \<leftarrow> bill_in_hand index (context sm);
              Some (sm\<lparr>context := a\<rparr>)
            } else Some sm);
     sm \<leftarrow> sendAckNotification sm;
     sm \<leftarrow> notifyBillAccepted sm;
     Some (upd (\<lambda>a. a\<lparr>resetSentQty := 0\<rparr>) sm)
   }"

definition printAny :: bill_action where
  "printAny sm = Some sm"

definition processFirmwareVersion :: bill_action where
  "processFirmwareVersion sm = do {
     let a = context sm;
     p \<leftarrow> dataEvPtr a;
     d \<leftarrow> block_read p 0 (dataLenEvt a);
     v \<leftarrow> block_write (jcmVersion a) 0 d;
     v \<leftarrow> block_write v (dataLenEvt a) [0];
     let v = (if protocol a = CCNET then v[27 := 0] else v);
     Some (upd (\<lambda>a. a\<lparr>jcmVersion := v\<rparr>) sm)
   }"

subsection \<open>The table of denominations\<close>

text \<open>\<open>val * pow(10, tzeros)\<close> in an \<open>int\<close>, where it fits.\<close>

definition bill_value :: "byte \<Rightarrow> byte \<Rightarrow> int option" where
  "bill_value v tzeros =
     (if tzeros \<le> 9 \<and> uint v * 10 ^ unat tzeros < 2 ^ 31 then Some (uint v * 10 ^ unat tzeros) else None)"

fun assign_jcm :: "nat \<Rightarrow> byte list \<Rightarrow> Acceptor \<Rightarrow> Acceptor option" where
  "assign_jcm 0 rows a = Some a"
| "assign_jcm (Suc n) (escrowCode # country # v # tzeros # rows) a =
     (if country \<noteq> 0 then do {
        (cur, cs) \<leftarrow> getCurrencyIdFromJcm (uint country) (currencies a);
        let a = a\<lparr>countryCode := cur, currencies := cs\<rparr>;
        let i = uint escrowCode - 0x61;
        a \<leftarrow> set_denomination i (\<lambda>d. d\<lparr>den_countryCode := country\<rparr>) a;
        x \<leftarrow> bill_value v tzeros;
        a \<leftarrow> set_denomination i (\<lambda>d. d\<lparr>amount := x\<rparr>) a;
        (cur, cs) \<leftarrow> getCurrencyIdFromJcm (uint country) (currencies a);
        a \<leftarrow> set_denomination i (\<lambda>d. d\<lparr>den_currencyId := cur\<rparr>) (a\<lparr>currencies := cs\<rparr>);
        assign_jcm n rows a
      } else assign_jcm n rows a)"
| "assign_jcm (Suc n) rows a = None"

text \<open>The rows of CCNET are numbered from \<open>i\<close>; there are always 24.\<close>

fun assign_ccnet :: "nat \<Rightarrow> nat \<Rightarrow> byte list \<Rightarrow> Acceptor \<Rightarrow> Acceptor option" where
  "assign_ccnet 0 i rows a = Some a"
| "assign_ccnet (Suc n) i (v # c0 # c1 # c2 # tzeros # rows) a = do {
     x \<leftarrow> bill_value v tzeros;
     a \<leftarrow> set_denomination (int i) (\<lambda>d. d\<lparr>amount := x, countryStr := [c0, c1, c2, 0]\<rparr>) a;
     (cur, cs) \<leftarrow> getCurrencyIdFromCashCode [c0, c1, c2, 0] (currencies a);
     a \<leftarrow> set_denomination (int i) (\<lambda>d. d\<lparr>den_currencyId := cur\<rparr>) (a\<lparr>currencies := cs\<rparr>);
     assign_ccnet n (Suc i) rows (if countryCode a = 0 then a\<lparr>countryCode := cur\<rparr> else a)
   }"
| "assign_ccnet (Suc n) i rows a = None"

definition processCurrencyAssignment :: bill_action where
  "processCurrencyAssignment sm = do {
     let a = (context sm)\<lparr>convertionTable := replicate 26 no_denomination\<rparr>;
     if protocol a = ID003 then do {
       p \<leftarrow> (if dataLenEvt a div 4 = 0 then Some [] else dataEvPtr a);
       a \<leftarrow> assign_jcm (nat (dataLenEvt a div 4)) p a;
       Some (sm\<lparr>context := a\<lparr>billTableLoaded := 1\<rparr>\<rparr>)
     } else do {
       b \<leftarrow> event_byte 0 a;
       if b \<noteq> 0x30 then do {
         p \<leftarrow> dataEvPtr a;
         a \<leftarrow> assign_ccnet 24 0 p (a\<lparr>countryCode := 0\<rparr>);
         Some (sm\<lparr>context := a\<lparr>billTableLoaded := 1\<rparr>\<rparr>)
       } else Some (sm\<lparr>context := a\<rparr>)
     }
   }"

subsection \<open>Guards\<close>

definition no_version :: "Acceptor \<Rightarrow> bool" where
  "no_version a \<longleftrightarrow> jcmVersion a ! 0 = 0"

definition initDataMissing :: "(int \<Rightarrow> bill_action) \<Rightarrow> bill_guard" where
  "initDataMissing run sm =
     (let a = context sm in
      if protocol a = CCNET \<and> event a = CCNET_IDLING \<and> (billTableLoaded a = 0 \<or> no_version a)
      then do { sm \<leftarrow> doDisable run sm; Some (True, sm) }
      else if billTableLoaded a = 0
      then do { sm \<leftarrow> billAcceptWriteRead run (command CURRENCY_CMD sm) [] sm; Some (True, sm) }
      else if no_version a
      then do { sm \<leftarrow> billAcceptWriteRead run (command IDENTIF_CMD sm) [] sm; Some (True, sm) }
      else Some (False, sm))"

definition isOnPowerUpStatus :: bill_guard where
  "isOnPowerUpStatus sm = do {
     let a = context sm;
     let (powerUpStat, eventCallb) =
       (if protocol a = ID003
        then if ID003_POWER_UP \<le> event a \<and> event a \<le> ID003_POWER_UP_BILL_STACKER
             then (True, event a) else (False, ID003_POWER_UP)
        else if CCNET_POWER_UP \<le> event a \<and> event a \<le> CCNET_POWER_UP_BILL_STACKER
             then (True, event a + 48) else (False, ID003_POWER_UP));
     let sm = trace_if (commErrorNotificationFcn a \<and> appNotifPowerUpBill a = 0)
                (CommErrorNotified (devId a) eventCallb) sm;
     Some (powerUpStat, upd (\<lambda>a. a\<lparr>appNotifPowerUpBill := 1\<rparr>) sm)
   }"

definition isNotJCMDisable :: bill_guard where
  "isNotJCMDisable sm = Some (status (context sm) \<noteq> JCM_DISABLE, sm)"

definition isJCMDisable :: bill_guard where
  "isJCMDisable sm = Some (status (context sm) = JCM_DISABLE, sm)"

definition maxTriesReached :: bill_guard where
  "maxTriesReached sm = Some (commErrQty (context sm) > 8, sm)"

subsection \<open>Firmware updates\<close>

definition abortUpdate :: bill_action where
  "abortUpdate = notifyFirmwareUpdate 255"

text \<open>A division by 0 is \<open>None\<close>.\<close>

definition resetBuffer :: bill_action where
  "resetBuffer sm = do {
     let sm = upd (\<lambda>a. a\<lparr>frameSize := 0\<rparr>) sm;
     let a = context sm;
     let r = framesQtyRefreshProgress a;
     guard_ok (r + 1 \<noteq> 0);
     if framesQty a mod (r + 1) = r \<and> firmwareUpdateProgress a
     then do {
       guard_ok (r \<noteq> 0);
       Some (trace (UpdateProgress (devId a) (ucast (framesQty a div r))) sm)
     } else Some sm
   }"

definition safeBoxMgrResetDev :: "byte \<Rightarrow> bill_machine \<Rightarrow> bill_machine" where
  "safeBoxMgrResetDev dev = trace (DeviceReset dev)"

end
