(* ===== verification/Jcm_States.thy ===== *)
theory Jcm_States
  imports Jcm_Acceptor
begin

text \<open>
  The state machines of the note acceptors: \<open>src/src/framework/cim/device/id0003StateMachine.m\<close> and
  \<open>ccnetStateMachine.m\<close>, with the public functions of \<open>jcmBillAcceptorMgr.m\<close>.

  A table is built over the inner run (\<open>bill_states run\<close>); \<open>run_bills\<close> ties the knot with a depth:
  \<open>run_bills n\<close> is a run in which at most \<open>n\<close> calls of \<open>executeStateMachine\<close> are nested, and a deeper
  call is \<open>None\<close>. The machines of the other protocols (\<open>meiStateMachine.m\<close>, \<open>rdmStateMachine.m\<close>)
  are not modelled: what they do where the public functions branch to them is the argument \<open>rest\<close>.
\<close>

definition trans :: "int \<Rightarrow> bill_guard option \<Rightarrow> bill_action option \<Rightarrow> bill_state \<Rightarrow>
    (bill_state, Acceptor) Transition" where
  "trans ev g act next = \<lparr>tr_event = ev, guardCondition = g, action = act, nextState = Some next\<rparr>"

definition on :: "byte \<Rightarrow> bill_guard option \<Rightarrow> bill_action option \<Rightarrow> bill_state \<Rightarrow>
    (bill_state, Acceptor) Transition" where
  "on e = trans (uint e)"

definition bill_state_of :: "bill_action option \<Rightarrow> (bill_state, Acceptor) Transition list \<Rightarrow>
    (bill_state, Acceptor) State" where
  "bill_state_of en ts = \<lparr>entry = en, exit = None, transitions = ts\<rparr>"

subsection \<open>ID003: entry functions and guards\<close>

definition getLastStackedQtyJCM :: "Acceptor \<Rightarrow> int \<times> int \<times> int" where
  "getLastStackedQtyJCM a = (0, 0, 0)"

definition unExpectedPowerUp :: bill_guard where
  "unExpectedPowerUp sm =
     (let a = context sm in
      if ID003_POWER_UP \<le> event a \<and> event a \<le> ID003_POWER_UP_BILL_STACKER
      then Some (True, upd (\<lambda>a. a\<lparr>errorCause := ID003_COMM_ERROR\<rparr>) sm) else Some (False, sm))"

definition loadFirstStateJCM :: bill_action where
  "loadFirstStateJCM sm = Some sm"

definition error_cause :: "Acceptor \<Rightarrow> byte" where
  "error_cause a = (if errorCause a = ID003_FAILURE then errorAditInfo a else errorCause a)"

definition loadErrorState :: bill_action where
  "loadErrorState sm = do {
     let sm = upd (\<lambda>a. a\<lparr>appNotifPowerUpBill := 0, errorResetQty := 0, canChangeStatus := 0\<rparr>) sm;
     let a = context sm;
     Some (trace_if (commErrorNotificationFcn a) (CommErrorNotified (devId a) (error_cause a)) sm)
   }"

definition loadInitializing :: "(int \<Rightarrow> bill_action) \<Rightarrow> bill_action" where
  "loadInitializing run sm = do {
     let sm = upd (\<lambda>a. a\<lparr>errorResetQty := 6\<rparr>) sm;
     if firmImage (context sm) \<noteq> None then run (uint ID003_UPDATE_FIRM) sm else Some sm
   }"

definition loadStartFirmUpdate :: bill_action where
  "loadStartFirmUpdate sm =
     Some (upd (\<lambda>a. forget_tables (a\<lparr>qtySentWithAck := 0, status := JCM_DISABLE,
       framesQtyRefreshProgress := word_of_int (fileSize a div int FIRM_UPD_DATA_SIZE div 100 + 1)\<rparr>)) sm)"

definition isReadyToTransfer :: bill_guard where
  "isReadyToTransfer sm = do { b \<leftarrow> event_byte 0 (context sm); Some (b = 0, sm) }"

definition firmUpdatePending :: bill_guard where
  "firmUpdatePending sm = Some (firmImage (context sm) \<noteq> None, sm)"

definition errorDetected :: bill_guard where
  "errorDetected sm =
     (let a = context sm in
      if ID003_STACKER_FULL \<le> event a \<and> event a \<le> ID003_COMM_ERROR \<or> event a = ID003_REJECTING then do {
        let sm = upd (\<lambda>a. a\<lparr>errorCause := event a\<rparr>) sm;
        if event a = ID003_FAILURE then do {
          b \<leftarrow> event_byte 0 a;
          Some (True, upd (\<lambda>a. a\<lparr>errorAditInfo := b\<rparr>) sm)
        } else Some (True, sm)
      } else Some (False, sm))"

definition shouldResetID003 :: bill_guard where
  "shouldResetID003 sm =
     (let a = context sm in Some (ID003_STACKER_FULL \<le> event a \<and> event a < ID003_COMM_ERROR, sm))"

definition endErrorDetected :: bill_guard where
  "endErrorDetected sm =
     (let a = context sm in
      if (ID003_IDLING \<le> event a \<and> event a < ID003_INITIALIZING \<or>
          ID003_POWER_UP \<le> event a \<and> event a \<le> ID003_POWER_UP_BILL_STACKER) \<and> event a \<noteq> ID003_REJECTING
      then Some (True, trace_if (commErrorNotificationFcn a) (CommErrorNotified (devId a) 0) sm)
      else Some (False, sm))"

subsection \<open>ID003: actions\<close>

definition sendDownloadStart :: "(int \<Rightarrow> bill_action) \<Rightarrow> bill_action" where
  "sendDownloadStart run sm = billAcceptWriteRead run (command DOWNLOADSTART_CMD sm) [] sm"

text \<open>The next block of the image goes into the frame behind its offset.\<close>

definition doTransferNextFrame :: "(int \<Rightarrow> bill_action) \<Rightarrow> bill_action" where
  "doTransferNextFrame run sm = do {
     let a = context sm;
     if frameSize a \<noteq> 0 \<and> qtySentWithAck a > 10 then do {
       sm \<leftarrow> notifyFirmwareUpdate 255 sm;
       loadErrorState sm
     } else if frameSize a = 0 then do {
       f \<leftarrow> block_write (firmwFrame a) 0 (bytes32 (word_of_int (offsetTransfer a)));
       img \<leftarrow> firmImage a;
       let blk = take FIRM_UPD_DATA_SIZE img;
       f \<leftarrow> block_write f 4 blk;
       let sm = upd (\<lambda>a. a\<lparr>firmwFrame := f, firmImage := Some (drop FIRM_UPD_DATA_SIZE img),
                           frameSize := int (length blk)\<rparr>) sm;
       if blk = [] then billAcceptWriteRead run (command DOWNLOADEND_CMD sm) [] sm
       else do {
         crc \<leftarrow> calcCrc (imageCrc a) (drop 4 f) (of_nat (length blk));
         let sm = upd (\<lambda>a. a\<lparr>imageCrc := crc, offsetTransfer := offsetTransfer a + frameSize a,
                             framesQty := framesQty a + 1, qtySentWithAck := 0\<rparr>) sm;
         d \<leftarrow> block_read f 0 (int (length blk) + 4);
         billAcceptWriteRead run (command DOWNLOADDATA_CMD sm) d sm
       }
     } else do {
       let sm = upd (\<lambda>a. a\<lparr>qtySentWithAck := qtySentWithAck a + 1\<rparr>) sm;
       d \<leftarrow> block_read (firmwFrame a) 0 (frameSize a + 4);
       billAcceptWriteRead run (command DOWNLOADDATA_CMD sm) d sm
     }
   }"

text \<open>The device sends the checksum of the image with its high byte first.\<close>

definition verifyChecksumACK :: bill_action where
  "verifyChecksumACK sm = do {
     let a = context sm;
     hi \<leftarrow> event_byte 1 a;
     lo \<leftarrow> event_byte 2 a;
     sm \<leftarrow> (if le16 (hibyte16 (imageCrc a)) (lobyte16 (imageCrc a)) = le16 hi lo
            then notifyFirmwareUpdate 100 sm
            else do { sm \<leftarrow> notifyFirmwareUpdate 255 sm; loadErrorState sm });
     sendAckNotification sm
   }"

definition sendResetID003 :: "(int \<Rightarrow> bill_action) \<Rightarrow> bill_action" where
  "sendResetID003 run sm =
     (if canResetVal (context sm) \<noteq> 0 then billAcceptWriteRead run (command RESET_CMD sm) [] sm else Some sm)"

definition verifySendResetID003 :: bill_action where
  "verifySendResetID003 sm =
     (let a = context sm in
      Some (if canResetVal a \<noteq> 0 \<and> resetSentQty a = 0 then
              if errorResetQty a > 10
              then upd (\<lambda>a. a\<lparr>errorResetQty := 0, resetSentQty := resetSentQty a + 1\<rparr>) (safeBoxMgrResetDev (devId a) sm)
              else upd (\<lambda>a. a\<lparr>errorResetQty := errorResetQty a + 1\<rparr>) sm
            else sm))"

definition sendOptionalFunction :: "(int \<Rightarrow> bill_action) \<Rightarrow> bill_action" where
  "sendOptionalFunction run sm = billAcceptWriteRead run 0xC5 [2, 0] sm"

text \<open>The flag of a row is an \<open>int\<close> and is looked at as a \<open>char\<close>.\<close>

definition billDisabled :: "JCMDenomination \<Rightarrow> bool" where
  "billDisabled d \<longleftrightarrow> disabled d mod 256 \<noteq> 0"

text \<open>A bill in escrow is stacked, or given back: what \<open>sendStackID003\<close> and \<open>sendStackCcnet\<close> share.\<close>

definition stack_or_return :: "(int \<Rightarrow> bill_action) \<Rightarrow> byte \<Rightarrow> bill_action" where
  "stack_or_return run index sm = do {
     (d, a) \<leftarrow> bill_in_hand index (context sm);
     let sm = sm\<lparr>context := a\<rparr>;
     if status a = JCM_ENABLE \<and> \<not> billDisabled d \<and> amountChar a > 0
     then billAcceptWriteRead run (command STACK_CMD sm) [] sm
     else do {
       let sm = (if status a = JCM_ENABLE \<and> billDisabled d then upd (\<lambda>a. a\<lparr>amountChar := -1\<rparr>) sm else sm);
       sm \<leftarrow> notifyBillAccepted sm;
       billAcceptWriteRead run (command RETURN_CMD sm) [] sm
     }
   }"

definition sendStackID003 :: "(int \<Rightarrow> bill_action) \<Rightarrow> bill_action" where
  "sendStackID003 run sm = do {
     b \<leftarrow> event_byte 0 (context sm);
     sm \<leftarrow> stack_or_return run (if protocol (context sm) = ID003 then b - 0x61 else b) sm;
     Some (upd (\<lambda>a. a\<lparr>resetSentQty := 0\<rparr>) sm)
   }"

definition jcmNotifyAppInitalizationFinished :: bill_action where
  "jcmNotifyAppInitalizationFinished sm =
     (let a = context sm in Some (trace_if (commErrorNotificationFcn a) (CommErrorNotified (devId a) 0) sm))"

subsection \<open>ID003: states\<close>

definition jcmFirstStateTransitions :: "(bill_state, Acceptor) Transition list" where
  "jcmFirstStateTransitions =
     [trans SM_ANY None (Some jcmNotifyAppInitalizationFinished) jcmInitializingState]"

definition jcmInitializingStateTransitions ::
  "(int \<Rightarrow> bill_action) \<Rightarrow> (bill_state, Acceptor) Transition list" where
  "jcmInitializingStateTransitions run =
     [on ID003_UPDATE_FIRM None None jcmStartFirmwareUpd,
      on ID003_INITIALIZING None (Some (sendOptionalFunction run)) jcmInitializingState,
      trans SM_ANY (Some errorDetected) None jcmErrorState,
      on 0x8A None (Some processCurrencyAssignment) jcmInitializingState,
      on 0x88 None (Some processFirmwareVersion) jcmInitializingState,
      trans SM_ANY (Some (initDataMissing run)) None jcmInitializingState,
      trans SM_ANY (Some isOnPowerUpStatus) (Some (sendResetID003 run)) jcmInitializingState,
      on ID003_VEND_VALID None (Some sendVendValidNotification) jcmInitializingState,
      on ID003_DISABLED None None jcmDisabledState,
      on ID003_ACCEPTING None None jcmEnabledState,
      on ID003_ESCROW None None jcmEnabledState,
      on ID003_IDLING None None jcmEnabledState,
      trans SM_ANY None None jcmInitializingState]"

definition jcmDisabledStateTransitions ::
  "(int \<Rightarrow> bill_action) \<Rightarrow> (bill_state, Acceptor) Transition list" where
  "jcmDisabledStateTransitions run =
     [on ID003_UPDATE_FIRM None None jcmStartFirmwareUpd,
      trans SM_ANY (Some errorDetected) None jcmErrorState,
      trans SM_ANY (Some isNotJCMDisable) None jcmEnabledState,
      trans SM_ANY (Some unExpectedPowerUp) None jcmErrorState,
      on ID003_IDLING None (Some (doDisable run)) jcmDisabledState,
      trans SM_ANY None None jcmDisabledState]"

definition jcmEnabledStateTransitions ::
  "(int \<Rightarrow> bill_action) \<Rightarrow> (bill_state, Acceptor) Transition list" where
  "jcmEnabledStateTransitions run =
     [on ID003_UPDATE_FIRM None None jcmStartFirmwareUpd,
      on ID003_REJECTING None (Some sendRejectNotification) jcmErrorState,
      trans SM_ANY (Some errorDetected) None jcmErrorState,
      trans SM_ANY (Some isJCMDisable) None jcmDisabledState,
      trans SM_ANY (Some unExpectedPowerUp) None jcmErrorState,
      on ID003_DISABLED None (Some (doEnable run)) jcmEnabledState,
      on ID003_ESCROW None None jcmReceivingBillState,
      on ID003_VEND_VALID None (Some sendVendValidNotification) jcmEnabledState,
      on ID003_ACCEPTING None None jcmReceivingBillState,
      trans SM_ANY None None jcmEnabledState]"

definition jcmReceivingBillStateTransitions ::
  "(int \<Rightarrow> bill_action) \<Rightarrow> (bill_state, Acceptor) Transition list" where
  "jcmReceivingBillStateTransitions run =
     [on ID003_ESCROW None (Some (sendStackID003 run)) jcmReceivingBillState,
      on ID003_VEND_VALID None (Some sendVendValidNotification) jcmReceivingBillState,
      on ID003_REJECTING None (Some sendRejectNotification) jcmErrorState,
      on ID003_STACKED None None jcmEnabledState,
      on ID003_IDLING None None jcmEnabledState,
      trans SM_ANY (Some unExpectedPowerUp) None jcmErrorState,
      trans SM_ANY (Some errorDetected) None jcmErrorState,
      trans SM_ANY None None jcmReceivingBillState]"

definition jcmErrorStateTransitions :: "(bill_state, Acceptor) Transition list" where
  "jcmErrorStateTransitions =
     [on ID003_UPDATE_FIRM None None jcmStartFirmwareUpd,
      on downloadStatusCmd (Some firmUpdatePending) None jcmStartFirmwareUpd,
      trans SM_ANY (Some endErrorDetected) None jcmInitializingState,
      trans SM_ANY (Some shouldResetID003) (Some verifySendResetID003) jcmErrorState,
      trans SM_ANY None (Some printAny) jcmErrorState]"

definition jcmStartFirmUpdateTransitions ::
  "(int \<Rightarrow> bill_action) \<Rightarrow> (bill_state, Acceptor) Transition list" where
  "jcmStartFirmUpdateTransitions run =
     [on ID003_COMM_ERROR (Some maxTriesReached) (Some abortUpdate) jcmErrorState,
      trans SM_ANY (Some errorDetected) (Some (sendDownloadStart run)) jcmStartFirmwareUpd,
      on ID003_DISABLED None (Some (sendDownloadStart run)) jcmStartFirmwareUpd,
      on ID003_IDLING None (Some (doDisable run)) jcmStartFirmwareUpd,
      on ID003_POWER_UP None (Some (sendDownloadStart run)) jcmStartFirmwareUpd,
      on 0x50 None None jcmUpdateFirmware,
      on downloadStatusCmd None None jcmUpdateFirmware,
      trans SM_ANY None (Some printAny) jcmStartFirmwareUpd]"

definition jcmUpdateFirmwareTransitions ::
  "(int \<Rightarrow> bill_action) \<Rightarrow> (bill_state, Acceptor) Transition list" where
  "jcmUpdateFirmwareTransitions run =
     [on 0x50 None (Some resetBuffer) jcmUpdateFirmware,
      on downloadStatusCmd (Some isReadyToTransfer) (Some (doTransferNextFrame run)) jcmUpdateFirmware,
      on downloadEndStatusCmd None (Some verifyChecksumACK) jcmUpdateFirmware,
      on ID003_POWER_UP None None jcmInitializingState,
      on ID003_COMM_ERROR (Some maxTriesReached) (Some abortUpdate) jcmErrorState,
      trans SM_ANY None (Some printAny) jcmUpdateFirmware]"

subsection \<open>CCNET: entry functions and guards\<close>

definition unExpectedPowerUpCcnet :: bill_guard where
  "unExpectedPowerUpCcnet sm =
     (let a = context sm in
      if CCNET_POWER_UP \<le> event a \<and> event a \<le> CCNET_POWER_UP_BILL_STACKER
      then Some (True, upd (\<lambda>a. a\<lparr>errorCause := ID003_COMM_ERROR\<rparr>) sm) else Some (False, sm))"

definition loadInitializingCcnet :: "(int \<Rightarrow> bill_action) \<Rightarrow> bill_action" where
  "loadInitializingCcnet run sm = do {
     let sm = upd (\<lambda>a. a\<lparr>errorResetQty := 21\<rparr>) sm;
     if firmImage (context sm) \<noteq> None then run (uint ID003_UPDATE_FIRM) sm else Some sm
   }"

definition loadCcnetErrorState :: bill_action where
  "loadCcnetErrorState sm = do {
     let sm = upd (\<lambda>a. a\<lparr>appNotifPowerUpBill := 0, errorResetQty := 0, canChangeStatus := 0\<rparr>) sm;
     let a = context sm;
     Some (trace_if (commErrorNotificationFcn a \<and> errorCause a \<noteq> ID003_REJECTING)
       (CommErrorNotified (devId a) (error_cause a)) sm)
   }"

definition errorDetectedCCnet :: bill_guard where
  "errorDetectedCCnet sm =
     (let a = context sm in
      if CCNET_STACKER_FULL \<le> event a \<and> event a \<le> CCNET_COMM_ERROR \<or> event a = CCNET_REJECTING then do {
        let sm = upd (\<lambda>a. a\<lparr>errorCause := mapStatus (protocol a) (event a)\<rparr>) sm;
        if errorCause (context sm) = ID003_FAILURE then do {
          b \<leftarrow> event_byte 0 a;
          Some (True, upd (\<lambda>a. a\<lparr>errorAditInfo := mapFailureCode CCNET b\<rparr>) sm)
        } else Some (True, sm)
      } else Some (False, sm))"

definition endErrorDetectedCCnet :: bill_guard where
  "endErrorDetectedCCnet sm =
     (let a = context sm in
      if CCNET_STACKER_FULL \<le> event a \<and> event a \<le> CCNET_COMM_ERROR \<or> event a = CCNET_REJECTING \<or>
         event a = CCNET_INITIALIZING \<or> event a = CCNET_BUSY
      then Some (False, sm)
      else Some (True, trace_if (commErrorNotificationFcn a) (CommErrorNotified (devId a) 0) sm))"

definition shouldReset :: bill_guard where
  "shouldReset sm =
     (let a = context sm in
      Some (CCNET_STACKER_FULL \<le> event a \<and> event a \<le> CCNET_FAILURE \<or> event a = CCNET_POWER_UP_ACCEPTOR, sm))"

definition isReadyToTransferCcnet :: bill_guard where
  "isReadyToTransferCcnet sm = Some (True, sm)"

definition blockSizeUnknownCcnet :: bill_guard where
  "blockSizeUnknownCcnet sm = Some (blockSize (context sm) = 0, sm)"

definition loadFirmUpdateCcnet :: bill_action where
  "loadFirmUpdateCcnet sm = Some sm"

definition loadStartFirmUpdateCcnet :: bill_action where
  "loadStartFirmUpdateCcnet sm =
     Some (upd (\<lambda>a. (forget_tables (a\<lparr>status := JCM_DISABLE\<rparr>))\<lparr>qtySentWithAck := 0, qtyInvalidCmd := 0\<rparr>) sm)"

subsection \<open>CCNET: actions\<close>

text \<open>\<open>gotoState\<close> on the error state, of which only the entry function matters here.\<close>

definition goto_ccnet_error :: bill_action where
  "goto_ccnet_error = gotoState (\<lambda>_. bill_state_of (Some loadCcnetErrorState) []) (Some ccnetErrorState)"

definition doTransferNextFrameCcnet :: "(int \<Rightarrow> bill_action) \<Rightarrow> bill_action" where
  "doTransferNextFrameCcnet run sm = do {
     let a = context sm;
     if frameSize a \<noteq> 0 \<and> qtySentWithAck a > 10 then do {
       sm \<leftarrow> notifyFirmwareUpdate 255 sm;
       goto_ccnet_error sm
     } else if frameSize a = 0 then do {
       img \<leftarrow> firmImage a;
       let blk = take (nat (blockSize a)) img;
       f \<leftarrow> block_write (firmwFrame a) 6 blk;
       let n = int (length blk);
       f \<leftarrow> block_write f 0 [0x02, word_of_int ((n + 12) div 256), word_of_int (n + 12), 0,
              word_of_int (fileOffset a div 256), word_of_int (fileOffset a)];
       let sm = upd (\<lambda>a. a\<lparr>firmwFrame := f, firmImage := Some (drop (nat (blockSize a)) img),
                           frameSize := n, fileOffset := fileOffset a + n\<rparr>) sm;
       if blk = [] then do {
         let f = f[0 := 0x03];
         billAcceptWriteRead run 0x50 [0x03] (upd (\<lambda>a. a\<lparr>firmwFrame := f\<rparr>) sm)
       } else do {
         let sm = upd (\<lambda>a. a\<lparr>framesQty := framesQty a + 1, qtySentWithAck := 0\<rparr>) sm;
         d \<leftarrow> block_read f 0 (n + 6);
         billAcceptWriteRead run 0x50 d sm
       }
     } else do {
       let sm = upd (\<lambda>a. a\<lparr>qtySentWithAck := qtySentWithAck a + 1\<rparr>) sm;
       d \<leftarrow> block_read (firmwFrame a) 0 (frameSize a + 6);
       billAcceptWriteRead run 0x50 d sm
     }
   }"

definition verifyDownloadResultCcnet :: bill_action where
  "verifyDownloadResultCcnet sm = do {
     b \<leftarrow> event_byte 0 (context sm);
     notifyFirmwareUpdate (if b \<noteq> 0xE0 then 255 else 100) sm
   }"

definition sendDownloadStartCcnet :: bill_action where
  "sendDownloadStartCcnet sm = Some sm"

definition processBlockSizeCcnet :: bill_action where
  "processBlockSizeCcnet sm = do {
     b \<leftarrow> event_byte 0 (context sm);
     let n = (if b \<le> 9 then 2 ^ unat b else 512);
     Some (upd (\<lambda>a. a\<lparr>blockSize := n, framesQtyRefreshProgress := word_of_int (fileSize a div n div 100 + 1)\<rparr>) sm)
   }"

definition requestBlockSizeCcnet :: "(int \<Rightarrow> bill_action) \<Rightarrow> bill_action" where
  "requestBlockSizeCcnet run sm = billAcceptWriteRead run 0x50 [1] sm"

definition printAnyCcnet :: bill_action where
  "printAnyCcnet sm = Some sm"

definition sendResetCcnet :: "(int \<Rightarrow> bill_action) \<Rightarrow> bill_action" where
  "sendResetCcnet run sm = billAcceptWriteRead run (command RESET_CMD sm) [] sm"

definition verifySendResetCcnet :: "(int \<Rightarrow> bill_action) \<Rightarrow> bill_action" where
  "verifySendResetCcnet run sm =
     (let a = context sm in
      if canResetVal a \<noteq> 0 \<and> resetSentQty a < 10 then
        if errorResetQty a \<ge> 20 then do {
          sm \<leftarrow> billAcceptWriteRead run (command RESET_CMD sm) [] sm;
          Some (upd (\<lambda>a. a\<lparr>errorResetQty := 0, resetSentQty := resetSentQty a + 1\<rparr>) sm)
        } else Some (upd (\<lambda>a. a\<lparr>errorResetQty := errorResetQty a + 1\<rparr>) sm)
      else if resetSentQty a = 10
      then Some (safeBoxMgrResetDev (devId a) (upd (\<lambda>a. a\<lparr>resetSentQty := resetSentQty a + 1\<rparr>) sm))
      else Some sm)"

definition sendStackCcnet :: "(int \<Rightarrow> bill_action) \<Rightarrow> bill_action" where
  "sendStackCcnet run sm = do { b \<leftarrow> event_byte 0 (context sm); stack_or_return run b sm }"

subsection \<open>CCNET: states\<close>

definition ccnetInitStateTransitions ::
  "(int \<Rightarrow> bill_action) \<Rightarrow> (bill_state, Acceptor) Transition list" where
  "ccnetInitStateTransitions run =
     [on ID003_UPDATE_FIRM None None ccnetStartFirmwareUpd,
      trans SM_ANY (Some errorDetectedCCnet) None ccnetErrorState,
      on 0x8A None (Some processCurrencyAssignment) ccnetInitializingState,
      on 0x88 None (Some processFirmwareVersion) ccnetInitializingState,
      on CCNET_RETURNED None (Some sendAckNotification) ccnetInitializingState,
      on CCNET_STACKED None (Some sendVendValidNotification) ccnetInitializingState,
      on CCNET_ESCROW None None ccnetReceivingBillState,
      trans SM_ANY (Some isOnPowerUpStatus) (Some (sendResetCcnet run)) ccnetInitializingState,
      trans SM_ANY (Some (initDataMissing run)) None ccnetInitializingState,
      on CCNET_DISABLED None None ccnetDisabledState,
      on CCNET_IDLING None None ccnetEnabledState,
      trans SM_ANY None (Some printAny) ccnetInitializingState]"

definition ccnetDisabledStateTransitions ::
  "(int \<Rightarrow> bill_action) \<Rightarrow> (bill_state, Acceptor) Transition list" where
  "ccnetDisabledStateTransitions run =
     [on ID003_UPDATE_FIRM None None ccnetStartFirmwareUpd,
      trans SM_ANY (Some errorDetectedCCnet) None ccnetErrorState,
      trans SM_ANY (Some isNotJCMDisable) None ccnetEnabledState,
      on CCNET_RETURNED None (Some sendAckNotification) ccnetDisabledState,
      trans SM_ANY (Some unExpectedPowerUpCcnet) None ccnetErrorState,
      on CCNET_IDLING None (Some (doDisable run)) ccnetDisabledState,
      trans SM_ANY None None ccnetDisabledState]"

definition ccnetEnabledStateTransitions ::
  "(int \<Rightarrow> bill_action) \<Rightarrow> (bill_state, Acceptor) Transition list" where
  "ccnetEnabledStateTransitions run =
     [on ID003_UPDATE_FIRM None (Some (doDisable run)) ccnetStartFirmwareUpd,
      trans SM_ANY (Some errorDetectedCCnet) None ccnetErrorState,
      trans SM_ANY (Some isJCMDisable) None ccnetDisabledState,
      on CCNET_RETURNED None (Some sendAckNotification) ccnetEnabledState,
      trans SM_ANY (Some unExpectedPowerUpCcnet) None ccnetErrorState,
      on CCNET_DISABLED None (Some (doEnable run)) ccnetEnabledState,
      on CCNET_ACCEPTING None None ccnetReceivingBillState,
      on CCNET_ESCROW None None ccnetReceivingBillState,
      trans SM_ANY None None ccnetEnabledState]"

definition ccnetReceivingBillStateTransitions ::
  "(int \<Rightarrow> bill_action) \<Rightarrow> (bill_state, Acceptor) Transition list" where
  "ccnetReceivingBillStateTransitions run =
     [on CCNET_REJECTING None (Some sendRejectNotification) ccnetErrorState,
      trans SM_ANY (Some errorDetectedCCnet) None ccnetErrorState,
      on CCNET_ESCROW None (Some (sendStackCcnet run)) ccnetReceivingBillState,
      on CCNET_RETURNED None (Some sendAckNotification) ccnetReceivingBillState,
      on CCNET_STACKED None (Some sendVendValidNotification) ccnetReceivingBillState,
      on CCNET_IDLING None None ccnetEnabledState,
      on CCNET_DISABLED None None ccnetDisabledState,
      trans SM_ANY (Some unExpectedPowerUpCcnet) None ccnetErrorState,
      trans SM_ANY None None ccnetReceivingBillState]"

definition ccnetErrorStateTransitions ::
  "(int \<Rightarrow> bill_action) \<Rightarrow> (bill_state, Acceptor) Transition list" where
  "ccnetErrorStateTransitions run =
     [on ID003_UPDATE_FIRM None None ccnetStartFirmwareUpd,
      on 0x30 None (Some printAny) ccnetErrorState,
      trans SM_ANY (Some endErrorDetectedCCnet) None ccnetInitializingState,
      trans SM_ANY (Some shouldReset) (Some (verifySendResetCcnet run)) ccnetErrorState,
      trans SM_ANY None (Some printAny) ccnetErrorState]"

definition ccnetStartFirmUpdateTransitions ::
  "(int \<Rightarrow> bill_action) \<Rightarrow> (bill_state, Acceptor) Transition list" where
  "ccnetStartFirmUpdateTransitions run =
     [on CCNET_COMM_ERROR (Some maxTriesReached) (Some abortUpdate) ccnetErrorState,
      on 0x30 None (Some sendDownloadStartCcnet) ccnetStartFirmwareUpd,
      on 0x51 None (Some processBlockSizeCcnet) ccnetStartFirmwareUpd,
      trans SM_ANY (Some blockSizeUnknownCcnet) (Some (requestBlockSizeCcnet run)) ccnetStartFirmwareUpd,
      on 0x50 None None ccnetFirmwareUpd,
      trans SM_ANY None (Some printAnyCcnet) ccnetStartFirmwareUpd]"

definition ccnetFirmwareUpdateTransitions ::
  "(int \<Rightarrow> bill_action) \<Rightarrow> (bill_state, Acceptor) Transition list" where
  "ccnetFirmwareUpdateTransitions run =
     [on 0x50 (Some isReadyToTransferCcnet) (Some (doTransferNextFrameCcnet run)) ccnetFirmwareUpd,
      on 0x52 None (Some resetBuffer) ccnetFirmwareUpd,
      on 0x53 None (Some verifyDownloadResultCcnet) ccnetInitializingState,
      on CCNET_COMM_ERROR None (Some abortUpdate) ccnetErrorState,
      trans SM_ANY None (Some printAnyCcnet) ccnetFirmwareUpd]"

subsection \<open>The table of the states\<close>

definition noCommStateTransitions :: "(bill_state, Acceptor) Transition list" where
  "noCommStateTransitions = [trans SM_ANY None None noCommState]"

primrec bill_states :: "(int \<Rightarrow> bill_action) \<Rightarrow> bill_state \<Rightarrow> (bill_state, Acceptor) State" where
  "bill_states run noCommState = bill_state_of (Some loadNoComm) noCommStateTransitions"
| "bill_states run jcmFirstState = bill_state_of (Some loadFirstStateJCM) jcmFirstStateTransitions"
| "bill_states run jcmInitializingState =
     bill_state_of (Some (loadInitializing run)) (jcmInitializingStateTransitions run)"
| "bill_states run jcmDisabledState = bill_state_of (Some loadDisable) (jcmDisabledStateTransitions run)"
| "bill_states run jcmEnabledState = bill_state_of (Some loadEnable) (jcmEnabledStateTransitions run)"
| "bill_states run jcmReceivingBillState =
     bill_state_of (Some loadReceivingBill) (jcmReceivingBillStateTransitions run)"
| "bill_states run jcmErrorState = bill_state_of (Some loadErrorState) jcmErrorStateTransitions"
| "bill_states run jcmStartFirmwareUpd =
     bill_state_of (Some loadStartFirmUpdate) (jcmStartFirmUpdateTransitions run)"
| "bill_states run jcmUpdateFirmware = bill_state_of None (jcmUpdateFirmwareTransitions run)"
| "bill_states run ccnetInitializingState =
     bill_state_of (Some (loadInitializingCcnet run)) (ccnetInitStateTransitions run)"
| "bill_states run ccnetDisabledState = bill_state_of (Some loadDisable) (ccnetDisabledStateTransitions run)"
| "bill_states run ccnetEnabledState = bill_state_of (Some loadEnable) (ccnetEnabledStateTransitions run)"
| "bill_states run ccnetReceivingBillState =
     bill_state_of (Some loadReceivingBill) (ccnetReceivingBillStateTransitions run)"
| "bill_states run ccnetErrorState =
     bill_state_of (Some loadCcnetErrorState) (ccnetErrorStateTransitions run)"
| "bill_states run ccnetStartFirmwareUpd =
     bill_state_of (Some loadStartFirmUpdateCcnet) (ccnetStartFirmUpdateTransitions run)"
| "bill_states run ccnetFirmwareUpd =
     bill_state_of (Some loadFirmUpdateCcnet) (ccnetFirmwareUpdateTransitions run)"

primrec run_bills :: "nat \<Rightarrow> int \<Rightarrow> bill_action" where
  "run_bills 0 ev sm = None"
| "run_bills (Suc n) ev sm = executeStateMachine (bill_states (run_bills n)) ev sm"

subsection \<open>Firmware files of CCNET\<close>

definition aton :: "byte \<Rightarrow> int" where
  "aton ch = (if ch < 0x3A then uint ch - 0x30 else uint ch - 0x37)"

text \<open>\<open>fgetc\<close>; at the end of the file it yields -1, which \<open>aton\<close> takes as the byte 255.\<close>

definition fgetc :: "byte list \<Rightarrow> byte \<times> byte list" where
  "fgetc f = (case f of [] \<Rightarrow> (255, []) | c # f \<Rightarrow> (c, f))"

text \<open>Two calls in one expression are taken from left to right.\<close>

definition hex_byte :: "byte list \<Rightarrow> int \<times> byte list" where
  "hex_byte f = (let (h, f) = fgetc f; (l, f) = fgetc f in (16 * aton h + aton l, f))"

fun hex_bytes :: "nat \<Rightarrow> byte list \<Rightarrow> byte list \<times> byte list" where
  "hex_bytes 0 f = ([], f)"
| "hex_bytes (Suc n) f = (let (b, f) = hex_byte f; (bs, f) = hex_bytes n f in (word_of_int b # bs, f))"

text \<open>
  The records of the file from here on; \<open>bin\<close> has been written. \<open>None\<close>: the search for a colon has
  passed the end of the file and never ends.
\<close>

lemma length_hex_byte: "length (snd (hex_byte f)) \<le> length f"
  by (auto simp: hex_byte_def fgetc_def split: list.splits)

lemma length_hex_bytes: "length (snd (hex_bytes n f)) \<le> length f"
proof (induction n arbitrary: f)
  case (Suc n)
  from Suc [of "snd (hex_byte f)"] length_hex_byte [of f] show ?case by (simp add: split_beta Let_def)
qed simp

lemma length_after_colon: "dropWhile (\<lambda>c. c \<noteq> x) f = c # f' \<Longrightarrow> length f' < length f"
  by (metis Suc_le_lessD length_Cons length_dropWhile_le)

function hex_records :: "int \<Rightarrow> byte list \<Rightarrow> byte list \<Rightarrow> (int \<times> byte list) option" where
  "hex_records offset bin f =
     (case dropWhile (\<lambda>c. c \<noteq> 0x3A) f of
        [] \<Rightarrow> None
      | _ # f \<Rightarrow>
          (let (recSize, f) = hex_byte f in
           if recSize = 0 then Some (offset, bin)
           else
             (let (hi, f) = hex_byte f; (lo, f) = hex_byte f;
                  u = 256 * hi + lo;
                  (_, f) = hex_bytes 1 f;
                  offset = (if offset = -1 then u else offset);
                  bin = bin @ replicate (nat (u - int (length bin))) 0;
                  (bs, f) = hex_bytes (nat recSize) f
              in hex_records offset (bin @ bs) f)))"
  by pat_completeness auto
termination
proof (relation "measure (\<lambda>(offset, bin, f). length f)", simp)
  fix offset :: int and bin f :: "byte list" and x21 f1 c recSize f2 d hi f3 e lo f4 u g w f5 off' bin' h bs f6
  assume col: "dropWhile (\<lambda>c. c \<noteq> 0x3A) f = x21 # f1" and "c = hex_byte f1" "(recSize, f2) = c" "d = hex_byte f2" "(hi, f3) = d"
    "e = hex_byte f3" "(lo, f4) = e" "g = hex_bytes 1 f4" "(w, f5) = g" "h = hex_bytes (nat recSize) f5" "(bs, f6) = h"
  then have "length f2 \<le> length f1" "length f3 \<le> length f2" "length f4 \<le> length f3" "length f5 \<le> length f4" "length f6 \<le> length f5"
    using length_hex_byte [of f1] length_hex_byte [of f2] length_hex_byte [of f3] length_hex_bytes [of 1 f4]
      length_hex_bytes [of "nat recSize" f5] by (metis snd_conv)+
  with length_after_colon [OF col]
  show "((off', bin' @ bs, f6), (offset, bin, f)) \<in> measure (\<lambda>(offset, bin, f). length f)" by simp
qed

declare hex_records.simps [simp del]

text \<open>
  \<open>hex\<close> is the file that is opened (\<open>None\<close> where it cannot be), \<open>bin_ok\<close> whether the file \<open>.bin\<close>
  beside it can be created. The result is the offset and the binary file opened for reading.
\<close>

definition convertHexFileToBin ::
  "byte list option \<Rightarrow> bool \<Rightarrow> Acceptor \<Rightarrow> (int \<times> Acceptor) option" where
  "convertHexFileToBin hex bin_ok a =
     (case hex of
        None \<Rightarrow> Some (-1, a)
      | Some f \<Rightarrow>
          if bin_ok then do {
            (offset, bin) \<leftarrow> hex_records (-1) [] f;
            Some (offset, a\<lparr>firmImage := Some bin\<rparr>)
          } else Some (-1, a\<lparr>firmImage := None\<rparr>))"

definition pollCcnet :: "(int \<Rightarrow> bill_action) \<Rightarrow> bill_action" where
  "pollCcnet run sm =
     (if currentState sm \<noteq> Some ccnetStartFirmwareUpd \<and> currentState sm \<noteq> Some ccnetFirmwareUpd
      then billAcceptWriteRead run (command STATUS_CMD sm) [] sm
      else billAcceptWriteRead run 0x50 [0] sm)"

subsection \<open>Public functions\<close>

text \<open>The block that \<open>malloc\<close> returns has contents \<open>raw\<close>, the new machine the event \<open>ev0\<close>.\<close>

definition billAcceptorNew ::
  "byte \<Rightarrow> bool \<Rightarrow> bool \<Rightarrow> bool \<Rightarrow> bool \<Rightarrow> bool \<Rightarrow> Acceptor \<Rightarrow> int \<Rightarrow> bill_machine option" where
  "billAcceptorNew dev statusFcn rejectFcn acceptFcn commFcn acceptingFcn raw ev0 =
     (let a = raw\<lparr>devId := dev, statusNotificationFcn := statusFcn, billRejectNotificationFcn := rejectFcn,
                  billAcceptNotificationFcn := acceptFcn, commErrorNotificationFcn := commFcn,
                  acceptingNotificationFcn := acceptingFcn\<rparr>;
          a = (forget_tables a)\<lparr>firmImage := None, canResetVal := 0, protocol := 0, canChangeStatus := 0,
                  appNotifPowerUpBill := 0, cheatedLeaveApp := 0, amountChar := 0,
                  status := JCM_DISABLE, pendingStatus := JCM_DISABLE\<rparr>
      in startStateMachine (bill_states (run_bills 0)) (newStateMachine (Some noCommState) a ev0))"

definition billAcceptorStart :: "nat \<Rightarrow> bill_action \<Rightarrow> bill_action" where
  "billAcceptorStart n rest sm =
     (if protocol (context sm) = ID003
      then gotoState (bill_states (run_bills n)) (Some jcmFirstState) sm
      else if protocol (context sm) = CCNET
      then gotoState (bill_states (run_bills n)) (Some ccnetInitializingState) sm
      else rest sm)"

definition billAcceptorStop :: bill_action where
  "billAcceptorStop sm = do {
     sm \<leftarrow> gotoState (bill_states (run_bills 0)) (Some noCommState) sm;
     Some (upd (\<lambda>a. a\<lparr>cheatedLeaveApp := 0\<rparr>) sm)
   }"

definition billAcceptorSetStatus :: "nat \<Rightarrow> bill_action \<Rightarrow> byte \<Rightarrow> bill_action" where
  "billAcceptorSetStatus n rest newStatus sm =
     (if status (context sm) \<noteq> newStatus then do {
        let sm = upd (\<lambda>a. a\<lparr>status := newStatus\<rparr>) sm;
        let enabling = (newStatus = JCM_ENABLE \<or> newStatus = JCM_VALIDATE_ONLY);
        sm \<leftarrow> (if protocol (context sm) \<le> 2
               then (if enabling then doEnable (run_bills n) sm else doDisable (run_bills n) sm)
               else if protocol (context sm) = EBDS \<and> enabling then rest sm
               else Some sm);
        Some (trace_if (statusNotificationFcn (context sm)) (StatusNotified (devId (context sm)) newStatus) sm)
      } else Some sm)"

definition billAcceptorRun :: "nat \<Rightarrow> bill_action \<Rightarrow> bill_action" where
  "billAcceptorRun n rest sm =
     (if currentState sm \<noteq> Some noCommState then do {
        sm \<leftarrow> (if protocol (context sm) = ID003 then billAcceptWriteRead (run_bills n) (command STATUS_CMD sm) [] sm
               else if protocol (context sm) = CCNET then pollCcnet (run_bills n) sm
               else if protocol (context sm) = EBDS \<or> protocol (context sm) = RDM100 then rest sm
               else Some sm);
        let a = context sm;
        if pendingStatus a \<noteq> 0 \<and> canChangeStatus a \<noteq> 0 then do {
          sm \<leftarrow> billAcceptorSetStatus n rest (pendingStatus a) sm;
          Some (upd (\<lambda>a. a\<lparr>pendingStatus := 0\<rparr>) sm)
        } else Some sm
      } else Some sm)"

text \<open>
  \<open>file\<close> is the firmware file as \<open>fopen\<close> finds it. The image is read from its offset on; \<open>fseek\<close> to a
  negative one fails and leaves the file at its end.
\<close>

definition open_image :: "byte list option \<Rightarrow> bool \<Rightarrow> Acceptor \<Rightarrow> (int \<times> Acceptor) option" where
  "open_image file bin_ok a =
     (if protocol a \<noteq> CCNET then
        Some (case file of None \<Rightarrow> (0, a\<lparr>firmImage := None\<rparr>)
                         | Some f \<Rightarrow> (1, a\<lparr>firmImage := Some f, fileOffset := 0\<rparr>))
      else do {
        (offset, a) \<leftarrow> convertHexFileToBin file bin_ok a;
        Some (if offset = -1 then -1 else 1, a\<lparr>fileOffset := offset\<rparr>)
      })"

definition billAcceptorUpdate ::
  "nat \<Rightarrow> byte list option \<Rightarrow> bool \<Rightarrow> bool \<Rightarrow> bill_machine \<Rightarrow> (int \<times> bill_machine) option" where
  "billAcceptorUpdate n file bin_ok progressFcn sm = do {
     (r, a) \<leftarrow> open_image file bin_ok (context sm);
     let sm = sm\<lparr>context := a\<rparr>;
     if r \<noteq> 1 then Some (r, sm)
     else do {
       img \<leftarrow> firmImage a;
       let sm = upd (\<lambda>a. a\<lparr>firmwareUpdateProgress := progressFcn,
                           fileSize := int (length img) - fileOffset a,
                           firmImage := Some (if fileOffset a < 0 then [] else drop (nat (fileOffset a)) img), blockSize := 0\<rparr>) sm;
       if fileSize (context sm) > 0 then do {
         let sm = upd (\<lambda>a. a\<lparr>framesQty := 0, offsetTransfer := 0, imageCrc := 0\<rparr>) sm;
         sm \<leftarrow> executeStateMachine (bill_states (run_bills n)) (uint ID003_UPDATE_FIRM) sm;
         Some (1, sm)
       } else Some (0, sm)
     }
   }"

text \<open>
  What the safe (\<open>safeBoxMgr.m\<close>) does to an acceptor: it leaves a status to be taken over, disables a
  denomination, permits resets and opens or closes the communication. The amount, a \<open>long long\<close>, is
  divided with truncation and stored into an \<open>int\<close>.
\<close>

definition billAcceptorChangeStatus :: "byte \<Rightarrow> bill_machine \<Rightarrow> bill_machine" where
  "billAcceptorChangeStatus newStatus = upd (\<lambda>a. a\<lparr>pendingStatus := newStatus\<rparr>)"

fun disable_first :: "int \<Rightarrow> int \<Rightarrow> JCMDenomination list \<Rightarrow> JCMDenomination list" where
  "disable_first x dis [] = []"
| "disable_first x dis (d # ds) =
     (if amount d = x then d\<lparr>disabled := dis\<rparr> # ds else d # disable_first x dis ds)"

definition billAcceptorSetDenomination :: "int \<Rightarrow> int \<Rightarrow> bill_machine \<Rightarrow> bill_machine" where
  "billAcceptorSetDenomination am dis =
     upd (\<lambda>a. a\<lparr>convertionTable :=
       disable_first (signed_take_bit 31 (sgn am * (\<bar>am\<bar> div MultipApp))) dis (take 8 (convertionTable a)) @ drop 8 (convertionTable a)\<rparr>)"

definition billAcceptorCommunicatStat :: "nat \<Rightarrow> bill_action \<Rightarrow> bool \<Rightarrow> bill_action" where
  "billAcceptorCommunicatStat n rest enableComm sm =
     (if enableComm then billAcceptorStart n rest sm else billAcceptorStop sm)"

text \<open>The calls the safe makes on an acceptor, in any order.\<close>

datatype bill_op =
    Poll
  | ChangeStatus byte
  | SetDenomination int int
  | Communicate bool
  | PermitReset
  | UpdateFirmware "byte list option" bool bool

primrec do_op :: "nat \<Rightarrow> bill_action \<Rightarrow> bill_op \<Rightarrow> bill_action" where
  "do_op n rest Poll sm = billAcceptorRun n rest sm"
| "do_op n rest (ChangeStatus s) sm = Some (billAcceptorChangeStatus s sm)"
| "do_op n rest (SetDenomination am dis) sm = Some (billAcceptorSetDenomination am dis sm)"
| "do_op n rest (Communicate en) sm = billAcceptorCommunicatStat n rest en sm"
| "do_op n rest PermitReset sm = Some (upd (\<lambda>a. a\<lparr>canResetVal := 1\<rparr>) sm)"
| "do_op n rest (UpdateFirmware file bin_ok progressFcn) sm =
     map_option snd (billAcceptorUpdate n file bin_ok progressFcn sm)"

primrec do_ops :: "nat \<Rightarrow> bill_action \<Rightarrow> bill_op list \<Rightarrow> bill_action" where
  "do_ops n rest [] sm = Some sm"
| "do_ops n rest (op # ops) sm = do { sm \<leftarrow> do_op n rest op sm; do_ops n rest ops sm }"

end
