(* ===== verification/Jcm_Hex.thy ===== *)
theory Jcm_Hex
  imports Jcm_States
begin

text \<open>
  The firmware files of CCNET: a file in the format of Intel is read back as the image it was written for.
\<close>

subsection \<open>Writing a file\<close>

definition digit_of :: "nat \<Rightarrow> byte" where
  "digit_of d = (if d < 10 then 0x30 + word_of_nat d else 0x37 + word_of_nat d)"

definition hex_of :: "nat \<Rightarrow> byte list" where
  "hex_of b = [digit_of (b div 16), digit_of (b mod 16)]"

text \<open>A record of data at an address, with the checksum and the ends of the lines as they come.\<close>

definition hex_line :: "nat \<Rightarrow> byte list \<Rightarrow> byte list \<Rightarrow> byte list" where
  "hex_line u bs trail = 0x3A # hex_of (length bs) @ hex_of (u div 256) @ hex_of (u mod 256) @ hex_of 0 @
     concat (map (\<lambda>b. hex_of (unat b)) bs) @ trail"

definition hex_end :: "byte list" where
  "hex_end = 0x3A # hex_of 0"

text \<open>The lines of an image cut into pieces, from an address on.\<close>

fun hex_lines :: "nat \<Rightarrow> (byte list \<times> byte list) list \<Rightarrow> byte list" where
  "hex_lines u [] = []"
| "hex_lines u ((bs, trail) # ps) = hex_line u bs trail @ hex_lines (u + length bs) ps"

definition piece_ok :: "byte list \<times> byte list \<Rightarrow> bool" where
  "piece_ok p \<longleftrightarrow> fst p \<noteq> [] \<and> length (fst p) < 256 \<and> 0x3A \<notin> set (snd p)"

subsection \<open>Reading it back\<close>

lemma aton_digit: "d < 16 \<Longrightarrow> aton (digit_of d) = int d"
proof -
  assume "d < 16"
  then have "d \<in> set [0..<16]" by simp
  then show ?thesis by (auto simp: digit_of_def aton_def upt_rec)
qed

lemma hex_byte_of: "b < 256 \<Longrightarrow> hex_byte (hex_of b @ f) = (int b, f)"
proof -
  assume "b < 256"
  then have "aton (digit_of (b div 16)) = int (b div 16)" "aton (digit_of (b mod 16)) = int (b mod 16)"
    by (simp_all add: aton_digit)
  then show ?thesis by (simp add: hex_byte_def hex_of_def fgetc_def zdiv_int zmod_int)
qed

lemma hex_bytes_of:
  "hex_bytes (length bs) (concat (map (\<lambda>b. hex_of (unat b)) bs) @ f) = (bs, f)"
proof (induction bs)
  case (Cons b bs)
  have "unat b < 256" using unsigned_less [of b] by simp
  with Cons show ?case by (simp add: hex_byte_of)
qed simp

lemma skip_trail: "0x3A \<notin> set trail \<Longrightarrow> dropWhile (\<lambda>c. c \<noteq> 0x3A) (trail @ 0x3A # f) = 0x3A # f"
  by (induction trail) auto

lemma hex_record_end:
  assumes "0x3A \<notin> set trail"
  shows "hex_records offset bin (trail @ hex_end @ f) = Some (offset, bin)"
proof -
  have "hex_byte (hex_of 0 @ f) = (0, f)" using hex_byte_of [of 0 f] by simp
  then show ?thesis
    by (subst hex_records.simps)
       (simp only: hex_end_def append.simps skip_trail [OF assms] list.case prod.case Let_def if_True simp_thms)
qed

lemma hex_record_line:
  assumes "0x3A \<notin> set pre" "piece_ok (bs, trail)" "u < 65536" "length bin \<le> u"
  shows "hex_records offset bin (pre @ hex_line u bs trail @ f) =
    hex_records (if offset = -1 then int u else offset) (bin @ replicate (u - length bin) 0 @ bs) (trail @ f)"
proof -
  have n: "length bs < 256" "length bs \<noteq> 0" using assms(2) by (simp_all add: piece_ok_def)
  have u: "u div 256 < 256" "u mod 256 < 256" using assms(3) by simp_all
  have un: "256 * int (u div 256) + int (u mod 256) = int u"
    by (metis mult_div_mod_eq of_nat_add of_nat_mult of_nat_numeral)
  have t: "hex_bytes (Suc 0) (hex_of 0 @ g) = ([0], g)" for g using hex_byte_of [of 0 g] by simp
  have k: "nat (int u - int (length bin)) = u - length bin" using assms(4) by simp
  show ?thesis
    by (subst hex_records.simps)
       (use assms(1) n in \<open>simp add: hex_line_def skip_trail hex_byte_of u t un k hex_bytes_of del: hex_bytes.simps\<close>)
qed

lemma hex_records_lines:
  assumes "list_all piece_ok ps" "u + length (concat (map fst ps)) \<le> 65536" "length bin = u" "0x3A \<notin> set pre" "offset \<noteq> -1"
  shows "hex_records offset bin (pre @ hex_lines u ps @ hex_end) = Some (offset, bin @ concat (map fst ps))"
  using assms
proof (induction ps arbitrary: u bin pre)
  case Nil
  then show ?case using hex_record_end [of pre offset bin "[]"] by simp
next
  case (Cons p ps)
  obtain bs trail where p: "p = (bs, trail)" by (cases p)
  with Cons.prems have ok: "piece_ok (bs, trail)" "0x3A \<notin> set trail" "bs \<noteq> []" by (simp_all add: piece_ok_def)
  from ok(3) have u: "u < 65536" using Cons.prems(2) p by (cases bs) auto
  have "hex_records offset bin (pre @ hex_line u bs trail @ hex_lines (u + length bs) ps @ hex_end) =
      hex_records offset (bin @ bs) (trail @ hex_lines (u + length bs) ps @ hex_end)"
    using hex_record_line [OF Cons.prems(4) ok(1) u, of bin offset] Cons.prems(3,5) by simp
  also have "\<dots> = Some (offset, (bin @ bs) @ concat (map fst ps))"
    using Cons.prems p ok by (intro Cons.IH) (simp_all add: add.assoc)
  finally show ?case using p by simp
qed

text \<open>C34. A firmware file of CCNET is read back as the image it was written for. Whatever pieces the
image is cut into, whatever checksums and ends of lines follow them, and at whatever address below 64
kilobytes it begins, the file of its records is taken as an image that begins at that address, and
what the update sends of it, from its offset on, is the image.\<close>

theorem hex_file_read_back:
  assumes "protocol a = CCNET" "ps \<noteq> []" "list_all piece_ok ps" "u + length (concat (map fst ps)) \<le> 65536"
  shows "\<exists>bin. open_image (Some (hex_lines u ps @ hex_end)) True a = Some (1, a\<lparr>firmImage := Some bin, fileOffset := int u\<rparr>) \<and>
    drop u bin = concat (map fst ps) \<and> int (length bin) - int u = int (length (concat (map fst ps)))"
proof -
  obtain bs trail qs where ps: "ps = (bs, trail) # qs" using assms(2) by (cases ps) auto
  with assms have ok: "piece_ok (bs, trail)" "0x3A \<notin> set trail" "bs \<noteq> []" "list_all piece_ok qs"
    by (simp_all add: piece_ok_def)
  from ok(3) have u: "u < 65536" using assms(4) ps by (cases bs) auto
  have "hex_records (-1) [] ([] @ hex_line u bs trail @ hex_lines (u + length bs) qs @ hex_end) =
      hex_records (int u) (replicate u 0 @ bs) (trail @ hex_lines (u + length bs) qs @ hex_end)"
    using hex_record_line [OF _ ok(1) u, of "[]" "[]" "-1"] by simp
  also have "\<dots> = Some (int u, (replicate u 0 @ bs) @ concat (map fst qs))"
    using assms(4) ps ok by (intro hex_records_lines) simp_all
  finally have "hex_records (-1) [] (hex_lines u ps @ hex_end) = Some (int u, replicate u 0 @ concat (map fst ps))"
    using ps by simp
  then have "open_image (Some (hex_lines u ps @ hex_end)) True a =
      Some (1, a\<lparr>firmImage := Some (replicate u 0 @ concat (map fst ps)), fileOffset := int u\<rparr>)"
    using assms(1) by (simp add: open_image_def convertHexFileToBin_def)
  then show ?thesis by (intro exI [of _ "replicate u 0 @ concat (map fst ps)"]) simp
qed

lemma hex_file_read_back_witness:
  "\<exists>a bin. protocol a = CCNET \<and>
    open_image (Some (hex_lines 3 [([7, 255], [0x30, 13, 10])] @ hex_end)) True a = Some (1, a\<lparr>firmImage := Some bin, fileOffset := 3\<rparr>) \<and>
    drop 3 bin = [7, 255]"
proof -
  fix b :: Acceptor
  let ?a = "b\<lparr>protocol := CCNET\<rparr>"
  have "\<exists>bin. open_image (Some (hex_lines 3 [([7, 255], [0x30, 13, 10])] @ hex_end)) True ?a =
      Some (1, ?a\<lparr>firmImage := Some bin, fileOffset := int 3\<rparr>) \<and>
    drop 3 bin = concat (map fst [([7, 255], [0x30, 13, 10 :: byte])]) \<and>
    int (length bin) - int 3 = int (length (concat (map fst [([7, 255 :: byte], [0x30, 13, 10 :: byte])])))"
    by (rule hex_file_read_back) (simp_all add: piece_ok_def)
  then show ?thesis by (intro exI [of _ ?a]) auto
qed

end
