(* ===== verification/Jcm_Bills.thy ===== *)
theory Jcm_Bills
  imports Jcm_States Option_Hoare Jcm_Props
begin

text \<open>
  The state machine of ID003 in normal operation: for every conversation whose accepted replies carry
  the data that their status needs, a run of the machine is defined, in spite of the runs inside its
  transitions, and keeps the acceptor well formed. The contract of the inner run is a locale, which
  \<open>run_bills\<close> fulfils at every depth.
\<close>

subsection \<open>Well-formed acceptors and conversations\<close>

definition cur_ok :: "CurFile \<Rightarrow> bool" where
  "cur_ok c \<longleftrightarrow> curconfig c \<noteq> None \<or> \<not> fpCurrencies c \<and> creatable c"

text \<open>The rows of a table of denominations, and the data of a reply by its status.\<close>

fun rows_ok :: "nat \<Rightarrow> byte list \<Rightarrow> bool" where
  "rows_ok 0 p \<longleftrightarrow> True"
| "rows_ok (Suc n) (escrow # country # v # tzeros # p) \<longleftrightarrow>
     (country = 0 \<or> 0x61 \<le> escrow \<and> escrow \<le> 0x7A \<and> bill_value v tzeros \<noteq> None) \<and> rows_ok n p"
| "rows_ok (Suc n) p \<longleftrightarrow> False"

definition data_ok :: "byte \<Rightarrow> int \<Rightarrow> byte list \<Rightarrow> bool" where
  "data_ok ev n p \<longleftrightarrow> ev \<noteq> ID003_UPDATE_FIRM \<and>
     (ev = ID003_ESCROW \<longrightarrow> p \<noteq> [] \<and> 0x61 \<le> hd p \<and> hd p \<le> 0x7A) \<and>
     (ev = ID003_REJECTING \<or> ev = ID003_FAILURE \<longrightarrow> p \<noteq> []) \<and>
     (ev = 0x8A \<longrightarrow> rows_ok (nat (n div 4)) p) \<and>
     (ev = 0x88 \<longrightarrow> 0 \<le> n \<and> n < 50 \<and> nat n \<le> length p)"

fun_cases rows_okE: "rows_ok (Suc n) p"

text \<open>A block of the line: it can be read, and if it is a reply of the device, its data are there.\<close>

definition block_ok :: "byte \<Rightarrow> int \<Rightarrow> byte list option \<Rightarrow> bool" where
  "block_ok dev n0 b \<longleftrightarrow> (case jcmRead b ID003 of
      None \<Rightarrow> False
    | Some r \<Rightarrow> reply r \<noteq> None \<and> dev_out r = Some dev \<longrightarrow>
        the (reply r) \<noteq> [] \<and>
        data_ok (hd (the (reply r))) (case cmdDataLen r of None \<Rightarrow> n0 | Some n \<Rightarrow> n mod 2 ^ 32) (tl (the (reply r))))"

definition line_ok :: "byte \<Rightarrow> byte list option list \<Rightarrow> bool" where
  "line_ok dev bs \<longleftrightarrow> (\<forall>b \<in> set bs. \<forall>n0. block_ok dev n0 b)"

definition normal_states :: "bill_state set" where
  "normal_states = {noCommState, jcmFirstState, jcmInitializingState, jcmDisabledState, jcmEnabledState,
     jcmReceivingBillState, jcmErrorState}"

definition acc_ok :: "Acceptor \<Rightarrow> bool" where
  "acc_ok a \<longleftrightarrow> protocol a = ID003 \<and> length (sendBuf (jcm a)) = 570 \<and> length (convertionTable a) = 26 \<and>
     length (jcmVersion a) = 50 \<and> firmImage a = None \<and> cur_ok (currencies a) \<and> line_ok (devId a) (line a)"

definition bills_ok :: "bill_machine \<Rightarrow> bool" where
  "bills_ok sm \<longleftrightarrow> currentState sm \<in> Some ` normal_states \<and> acc_ok (context sm)"

text \<open>The event of the acceptor and what \<open>dataEvPtr\<close> points to.\<close>

definition event_data :: "Acceptor \<Rightarrow> byte list" where
  "event_data a = (case dataEvPtr a of None \<Rightarrow> [] | Some p \<Rightarrow> p)"

definition event_ok :: "Acceptor \<Rightarrow> bool" where
  "event_ok a \<longleftrightarrow> data_ok (event a) (dataLenEvt a) (event_data a) \<and>
     (event a \<noteq> ID003_COMM_ERROR \<longrightarrow> dataEvPtr a \<noteq> None)"

lemmas bill_defs = upd_def trace_def trace_if_def set_event_def

subsection \<open>Sending and receiving\<close>

text \<open>The machine after a frame has been sent.\<close>

definition after_send :: "byte \<Rightarrow> byte list \<Rightarrow> bill_machine \<Rightarrow> bill_machine" where
  "after_send cmd data sm = (let a = context sm; f = id003_frame cmd data in
     trace (SentFrame (devId a) f) (upd (\<lambda>b. b\<lparr>jcm := sent (devId a) f (jcm a)\<rparr>) sm))"

lemma send_id003:
  assumes "protocol (context sm) = ID003" "length (sendBuf (jcm (context sm))) = 570" "length data \<le> 565"
  shows "send cmd data sm = Some (after_send cmd data sm)"
  using assms write_id003 [of "jcm (context sm)" data "devId (context sm)" cmd]
  by (simp add: send_def after_send_def Let_def)

lemma send_ok:
  assumes "acc_ok (context sm)" "length data \<le> 565"
  shows "\<exists>j e. send cmd data sm = Some (trace e (upd (\<lambda>a. a\<lparr>jcm := j\<rparr>) sm)) \<and> length (sendBuf j) = 570"
proof -
  let ?a = "context sm" let ?f = "id003_frame cmd data"
  have "send cmd data sm = Some (after_send cmd data sm)"
    using assms by (intro send_id003) (simp_all add: acc_ok_def)
  moreover have "length (sendBuf (sent (devId ?a) ?f (jcm ?a))) = 570"
    using assms by (simp add: sent_def acc_ok_def id003_frame_def)
  ultimately show ?thesis
    by (intro exI [of _ "sent (devId ?a) ?f (jcm ?a)"] exI [of _ "SentFrame (devId ?a) ?f"])
       (simp add: after_send_def Let_def)
qed

lemma acc_ok_send: "acc_ok a \<Longrightarrow> length (sendBuf j) = 570 \<Longrightarrow> acc_ok (a\<lparr>jcm := j\<rparr>)"
  by (simp add: acc_ok_def)

text \<open>Fields that being well formed does not depend on.\<close>

lemma acc_ok_fields [simp]:
  "acc_ok (effects_update f a) \<longleftrightarrow> acc_ok a" "acc_ok (amountChar_update g a) \<longleftrightarrow> acc_ok a"
  "acc_ok (currencyId_update g a) \<longleftrightarrow> acc_ok a" "acc_ok (event_update h a) \<longleftrightarrow> acc_ok a"
  "acc_ok (commErrQty_update h a) \<longleftrightarrow> acc_ok a" "acc_ok (dataEvPtr_update p a) \<longleftrightarrow> acc_ok a"
  "acc_ok (dataLenEvt_update g a) \<longleftrightarrow> acc_ok a" "acc_ok (errorCause_update h a) \<longleftrightarrow> acc_ok a"
  "acc_ok (errorAditInfo_update h a) \<longleftrightarrow> acc_ok a" "acc_ok (lastRejectCause_update h a) \<longleftrightarrow> acc_ok a"
  "acc_ok (canChangeStatus_update h a) \<longleftrightarrow> acc_ok a" "acc_ok (appNotifPowerUpBill_update h a) \<longleftrightarrow> acc_ok a"
  "acc_ok (errorResetQty_update h a) \<longleftrightarrow> acc_ok a" "acc_ok (resetSentQty_update h a) \<longleftrightarrow> acc_ok a"
  "acc_ok (billTableLoaded_update h a) \<longleftrightarrow> acc_ok a" "acc_ok (status_update h a) \<longleftrightarrow> acc_ok a"
  "acc_ok (pendingStatus_update h a) \<longleftrightarrow> acc_ok a" "acc_ok (countryCode_update g a) \<longleftrightarrow> acc_ok a"
  by (simp_all add: acc_ok_def)

lemma context_upd [simp]: "context (upd f sm) = f (context sm)" "currentState (upd f sm) = currentState sm"
  by (simp_all add: upd_def)

lemma context_trace [simp]: "context (trace e sm) = (context sm)\<lparr>effects := effects (context sm) @ [e]\<rparr>"
  "currentState (trace e sm) = currentState sm"
  by (simp_all add: trace_def)

lemma context_trace_if [simp]:
  "context (trace_if b e sm) = (if b then (context sm)\<lparr>effects := effects (context sm) @ [e]\<rparr> else context sm)"
  "currentState (trace_if b e sm) = currentState sm"
  by (simp_all add: trace_if_def)

lemma context_set_event [simp]:
  "context (set_event e sm) = (context sm)\<lparr>event := e\<rparr>" "currentState (set_event e sm) = currentState sm"
  by (simp_all add: set_event_def)

lemma receive_ok:
  assumes "acc_ok (context sm)"
  shows "ensures (receive sm) (\<lambda>(ok, sm'). currentState sm' = currentState sm \<and> acc_ok (context sm') \<and>
     line (context sm') = tl (line (context sm)) \<and> commErrQty (context sm') = commErrQty (context sm) \<and>
     (ok \<longrightarrow> line (context sm) \<noteq> [] \<and> (\<exists>e p. dataEvPtr (context sm') = Some (e # p) \<and>
        data_ok e (dataLenEvt (context sm')) p)))"
proof (cases "line (context sm)")
  case Nil
  have "jcmRead None (protocol (context sm)) = Some (no_reply None)" by (simp add: jcmRead_def)
  with Nil assms show ?thesis by (simp add: receive_def next_block_def no_reply_def acc_ok_def line_ok_def)
next
  case (Cons b bs)
  then have b: "block_ok (devId (context sm)) (dataLenEvt (context sm)) b" and p: "protocol (context sm) = ID003"
    and bs: "line_ok (devId (context sm)) bs"
    using assms by (auto simp: acc_ok_def line_ok_def)
  then obtain r where r: "jcmRead b ID003 = Some r" by (auto simp: block_ok_def split: option.splits)
  have "acc_ok ((context sm)\<lparr>line := bs\<rparr>)" using assms bs by (simp add: acc_ok_def)
  with r b p Cons show ?thesis
    by (auto simp: receive_def next_block_def block_ok_def neq_Nil_conv split: option.splits)
qed

subsection \<open>The table of denominations\<close>

lemma getCurrencyIdFromJcm_ok:
  assumes "cur_ok c"
  obtains cur c' where "getCurrencyIdFromJcm code c = Some (cur, c')" "cur_ok c'"
proof -
  from assms obtain f c1 where "openCurFile c = Some (f, c1)" "cur_ok c1" "curconfig c1 \<noteq> None"
    by (cases "curconfig c") (auto simp: openCurFile_def cur_ok_def Let_def)
  with that show thesis by (auto simp: getCurrencyIdFromJcm_def Let_def cur_ok_def)
qed

lemma set_denomination_ok:
  "0 \<le> i \<Longrightarrow> nat i < length (convertionTable a) \<Longrightarrow>
     set_denomination i f a = Some (a\<lparr>convertionTable := (convertionTable a)[nat i := f (convertionTable a ! nat i)]\<rparr>)"
  by (simp add: set_denomination_def denomination_def)

lemma assign_jcm_ok:
  assumes "rows_ok n p" "length (convertionTable a) = 26" "cur_ok (currencies a)"
  shows "ensures (assign_jcm n p a) (\<lambda>a'. \<exists>tab cc cs. length tab = 26 \<and> cur_ok cs \<and>
    a' = a\<lparr>convertionTable := tab, countryCode := cc, currencies := cs\<rparr>)"
  using assms
proof (induction n arbitrary: p a)
  case 0
  then show ?case
    unfolding assign_jcm.simps ensures_simps
    by (intro exI [of _ "convertionTable a"] exI [of _ "countryCode a"] exI [of _ "currencies a"]) simp
next
  case (Suc n)
  from Suc.prems(1) obtain escrow country v tz rows where p: "p = escrow # country # v # tz # rows"
    and r: "country = 0 \<or> 0x61 \<le> escrow \<and> escrow \<le> 0x7A \<and> bill_value v tz \<noteq> None" and rows: "rows_ok n rows"
    by (rule rows_okE) blast
  show ?case
  proof (cases "country = 0")
    case True
    with Suc.IH [OF rows] Suc.prems(2,3) p show ?thesis by simp
  next
    case False
    from r False have e: "0x61 \<le> escrow" "escrow \<le> 0x7A" by simp_all
    from r False obtain x where x: "bill_value v tz = Some x" by auto
    let ?i = "uint escrow - 0x61"
    have i: "0 \<le> ?i" "nat ?i < 26" using e by (simp_all add: word_le_def)
    obtain c1 k1 where g1: "getCurrencyIdFromJcm (uint country) (currencies a) = Some (c1, k1)" "cur_ok k1"
      by (rule getCurrencyIdFromJcm_ok [OF Suc.prems(3)])
    obtain c2 k2 where g2: "getCurrencyIdFromJcm (uint country) k1 = Some (c2, k2)" "cur_ok k2"
      by (rule getCurrencyIdFromJcm_ok [OF g1(2)])
    let ?set = "\<lambda>f t. t[nat ?i := f (t ! nat ?i)]"
    let ?t = "?set (\<lambda>d. d\<lparr>den_currencyId := c2\<rparr>) (?set (\<lambda>d. d\<lparr>amount := x\<rparr>) (?set (\<lambda>d. d\<lparr>den_countryCode := country\<rparr>) (convertionTable a)))"
    let ?a = "a\<lparr>countryCode := c1, currencies := k2, convertionTable := ?t\<rparr>"
    have eq: "assign_jcm (Suc n) p a = assign_jcm n rows ?a"
      unfolding p using False g1(1) g2(1) x i Suc.prems(2) by (simp add: Let_def set_denomination_ok)
    have "ensures (assign_jcm n rows ?a) (\<lambda>a'. \<exists>tab cc cs. length tab = 26 \<and> cur_ok cs \<and>
        a' = ?a\<lparr>convertionTable := tab, countryCode := cc, currencies := cs\<rparr>)"
      using Suc.prems(2) g2(2) by (intro Suc.IH [OF rows]) simp_all
    then show ?thesis unfolding eq by simp
  qed
qed

subsection \<open>The contract of the inner run\<close>

lemma uint_same [simp]: "uint a = uint b \<longleftrightarrow> a = b" for a b :: byte
  by (simp add: word_uint_eq_iff)

lemma uint_not_any [simp]: "uint e \<noteq> -1" for e :: byte
  by (metis uint_ge_0 neg_0_le_iff_le not_one_le_zero)

lemma trans_sel [simp]: "tr_event (trans e g act new) = e" "guardCondition (trans e g act new) = g"
  "action (trans e g act new) = act" "nextState (trans e g act new) = Some new"
  by (simp_all add: trans_def)

lemma on_sel [simp]: "tr_event (on e g act new) = uint e" "guardCondition (on e g act new) = g"
  by (simp_all add: on_def)

lemma state_sel [simp]: "exit (bill_states r s) = None"
  by (cases s) (simp_all add: bill_state_of_def)

lemma find_on: "find_transition (uint e) (on k g act new # ts) sm =
  (if k = e then (case g of None \<Rightarrow> Some (on k g act new, sm)
     | Some g' \<Rightarrow> do { (ok, sm) \<leftarrow> g' sm; if ok then Some (on k g act new, sm) else find_transition (uint e) ts sm })
   else find_transition (uint e) ts sm)"
  by (simp split: option.splits)

lemma find_any: "find_transition ev (trans SM_ANY g act new # ts) sm =
  (case g of None \<Rightarrow> Some (trans SM_ANY g act new, sm)
     | Some g' \<Rightarrow> do { (ok, sm) \<leftarrow> g' sm; if ok then Some (trans SM_ANY g act new, sm) else find_transition ev ts sm })"
  by (simp del: SM_ANY_def split: option.splits)

text \<open>
  \<open>d\<close> is the depth that is left. A run on a reply needs one level for each block of the line and two
  more; a run on a communication error reads nothing and needs one level.
\<close>

definition deep_enough :: "nat \<Rightarrow> Acceptor \<Rightarrow> bool" where
  "deep_enough d a \<longleftrightarrow> length (line a) + 2 \<le> d \<or> 1 \<le> d \<and> event a = ID003_COMM_ERROR"

locale inner_run =
  fixes run :: "int \<Rightarrow> bill_action" and d :: nat
  assumes run_ok: "bills_ok sm \<Longrightarrow> event_ok (context sm) \<Longrightarrow> deep_enough d (context sm) \<Longrightarrow>
    ensures (run (uint (event (context sm))) sm) bills_ok"
begin

lemma write_read_ok:
  assumes ok: "bills_ok sm" and n: "length data \<le> 565" and d: "length (line (context sm)) + 1 \<le> d"
  shows "ensures (billAcceptWriteRead run cmd data sm) bills_ok"
proof -
  have a: "acc_ok (context sm)" and st: "currentState sm \<in> Some ` normal_states"
    using ok by (simp_all add: bills_ok_def)
  from send_ok [OF a n] obtain j e where send: "send cmd data sm = Some (trace e (upd (\<lambda>a. a\<lparr>jcm := j\<rparr>) sm))"
    and j: "length (sendBuf j) = 570" by blast
  let ?s1 = "trace e (upd (\<lambda>a. a\<lparr>jcm := j\<rparr>) sm)"
  have p: "protocol (context ?s1) = 0" using a by (simp add: acc_ok_def)
  have "ensures (receive ?s1) (\<lambda>(ok, sm'). currentState sm' = currentState ?s1 \<and> acc_ok (context sm') \<and>
     line (context sm') = tl (line (context ?s1)) \<and> commErrQty (context sm') = commErrQty (context ?s1) \<and>
     (ok \<longrightarrow> line (context ?s1) \<noteq> [] \<and> (\<exists>e p. dataEvPtr (context sm') = Some (e # p) \<and>
        data_ok e (dataLenEvt (context sm')) p)))"
    by (rule receive_ok) (simp add: acc_ok_send a j)
  then obtain r s2 where rec: "receive ?s1 = Some (r, s2)" and s2: "currentState s2 = currentState sm"
    "acc_ok (context s2)" "line (context s2) = tl (line (context sm))"
    and data: "r \<Longrightarrow> line (context sm) \<noteq> [] \<and> (\<exists>e p. dataEvPtr (context s2) = Some (e # p) \<and> data_ok e (dataLenEvt (context s2)) p)"
    by (auto simp: ensures_iff)
  have p2: "protocol (context s2) = 0" using s2(2) by (simp add: acc_ok_def)
  show ?thesis
  proof (cases r)
    case True
    from data [OF this] obtain e p where l: "line (context sm) \<noteq> []" and
      ep: "dataEvPtr (context s2) = Some (e # p)" "data_ok e (dataLenEvt (context s2)) p" by blast
    let ?s3 = "upd (\<lambda>a. a\<lparr>commErrQty := 0\<rparr>) (upd (\<lambda>a. a\<lparr>event := e, dataEvPtr := map_option tl (dataEvPtr a)\<rparr>) s2)"
    have "event_byte 0 (context s2) = Some e" using ep(1) by (simp add: event_byte_def block_at_nth)
    then have ev: "reply_event cmd data s2 = Some (upd (\<lambda>a. a\<lparr>event := e, dataEvPtr := map_option tl (dataEvPtr a)\<rparr>) s2)"
      using p2 by (simp add: reply_event_def first_byte_event_def)
    have "ensures (run (uint (event (context ?s3))) ?s3) bills_ok"
    proof (rule run_ok)
      show "bills_ok ?s3" using s2 st by (simp add: bills_ok_def)
      show "event_ok (context ?s3)" using ep by (simp add: event_ok_def event_data_def)
      from l d show "deep_enough d (context ?s3)" using s2(3) by (cases "line (context sm)") (simp_all add: deep_enough_def)
    qed
    with True rec send ev p show ?thesis by (simp add: billAcceptWriteRead_def Let_def)
  next
    case False
    let ?s3 = "upd (\<lambda>a. a\<lparr>commErrQty := commErrQty a + 1\<rparr>) s2"
    have ok3: "bills_ok ?s3" using s2 st by (simp add: bills_ok_def)
    let ?s4 = "set_event 0x4A ?s3"
    have "ensures (run (uint (event (context ?s4))) ?s4) bills_ok"
    proof (rule run_ok)
      show "bills_ok ?s4" using s2 st by (simp add: bills_ok_def)
      show "event_ok (context ?s4)" by (simp add: event_ok_def data_ok_def)
      show "deep_enough d (context ?s4)" using d by (simp add: deep_enough_def)
    qed
    with False rec send p p2 ok3 show ?thesis by (simp add: billAcceptWriteRead_def Let_def)
  qed
qed

text \<open>The premise of a run on a reply: there is a level for every block of the line.\<close>

definition heard :: "int \<Rightarrow> bill_machine \<Rightarrow> bool" where
  "heard ev sm \<longleftrightarrow> bills_ok sm \<and> event_ok (context sm) \<and> uint (event (context sm)) = ev \<and>
     length (line (context sm)) + 1 \<le> d"

lemma heard_moved: "heard ev sm \<Longrightarrow> new \<in> normal_states \<Longrightarrow> heard ev (moved (Some new) sm)"
  by (simp add: heard_def bills_ok_def)

text \<open>Entry functions.\<close>

lemma entry_ok:
  assumes "bills_ok sm" "new \<in> normal_states"
  shows "ensures (call (entry (bill_states run new)) sm) bills_ok"
proof -
  have t: "acc_ok (forget_tables a) \<longleftrightarrow> acc_ok a" for a by (simp add: acc_ok_def forget_tables_def)
  have "firmImage (context sm) = None" using assms(1) by (simp add: bills_ok_def acc_ok_def)
  with assms show ?thesis
    by (auto simp: normal_states_def bill_state_of_def bills_ok_def t loadNoComm_def loadFirstStateJCM_def
        loadInitializing_def loadDisable_def loadEnable_def loadReceivingBill_def loadErrorState_def Let_def)
qed

text \<open>A transition that fires.\<close>

lemma fire_ok:
  assumes "new \<in> normal_states" "ensures (call act (moved (Some new) sm)) bills_ok"
  shows "ensures (fire (bill_states run) cur (trans e g act new) sm) bills_ok"
proof -
  have "ensures (call act (moved (Some new) sm)) (\<lambda>sm. bills_ok sm \<and> ensures (call (entry (bill_states run new)) sm) bills_ok)"
    by (rule ensures_mono [OF assms(2)]) (simp add: entry_ok assms(1))
  then show ?thesis by (simp add: fire_def) (erule ensures_mono, simp)
qed

abbreviation row_fine :: "int \<Rightarrow> bill_state \<Rightarrow> (bill_state, Acceptor) Transition \<Rightarrow> bool" where
  "row_fine ev cur \<equiv> row_ensures ev (heard ev) (\<lambda>t sm. ensures (fire (bill_states run) cur t sm) bills_ok)"

lemma row_on:
  assumes "new \<in> normal_states"
    "\<And>sm. bills_ok sm \<Longrightarrow> event_ok (context sm) \<Longrightarrow> event (context sm) = e \<Longrightarrow> length (line (context sm)) + 1 \<le> d \<Longrightarrow>
       ensures (call act sm) bills_ok"
  shows "row_fine ev cur (on e None act new)"
proof -
  have "ensures (fire (bill_states run) cur (trans (uint e) None act new) sm) bills_ok" if "heard (uint e) sm" for sm
    using assms(2) [of "moved (Some new) sm"] heard_moved [OF that assms(1)] that assms(1)
    by (intro fire_ok) (simp_all add: heard_def)
  then show ?thesis by (auto simp: row_ensures_def on_def)
qed

lemma row_any:
  assumes "new \<in> normal_states" "\<And>sm. heard ev sm \<Longrightarrow> ensures (call act sm) bills_ok"
  shows "row_fine ev cur (trans SM_ANY None act new)"
proof -
  have "ensures (fire (bill_states run) cur (trans SM_ANY None act new) sm) bills_ok" if "heard ev sm" for sm
    using assms heard_moved [OF that assms(1)] by (intro fire_ok) simp_all
  then show ?thesis by (simp add: row_ensures_def)
qed

lemma row_guard:
  assumes "new \<in> normal_states"
    "\<And>sm. heard ev sm \<Longrightarrow> ensures (g sm) (\<lambda>(ok, sm'). if ok then ensures (call act (moved (Some new) sm')) bills_ok else heard ev sm')"
  shows "row_fine ev cur (trans e (Some g) act new)"
proof -
  have "ensures (g sm) (\<lambda>(ok, sm'). if ok then ensures (fire (bill_states run) cur (trans e (Some g) act new) sm') bills_ok else heard ev sm')"
    if "heard ev sm" for sm
    by (rule ensures_mono [OF assms(2) [OF that]]) (auto split: if_splits intro: fire_ok assms(1))
  then show ?thesis by (simp add: row_ensures_def)
qed

lemma row_update: "row_fine ev cur (on ID003_UPDATE_FIRM g act new)"
proof -
  have "\<not> heard (uint ID003_UPDATE_FIRM) sm" for sm
    by (auto simp: heard_def event_ok_def data_ok_def simp del: ID003_UPDATE_FIRM_def)
  then show ?thesis by (auto simp: row_ensures_def on_def)
qed

lemma row_download: "row_fine ev cur (on e (Some firmUpdatePending) act new)"
  by (auto simp: row_ensures_def on_def firmUpdatePending_def heard_def bills_ok_def acc_ok_def)

text \<open>Guards.\<close>

lemma guard_errorDetected:
  "heard ev sm \<Longrightarrow> new \<in> normal_states \<Longrightarrow>
     ensures (errorDetected sm) (\<lambda>(ok, sm'). if ok then ensures (call None (moved (Some new) sm')) bills_ok else heard ev sm')"
  by (auto simp: errorDetected_def heard_def bills_ok_def event_ok_def data_ok_def event_data_def
      event_byte_def block_at_nth Let_def split: option.splits)

lemma guard_unExpectedPowerUp:
  "heard ev sm \<Longrightarrow> new \<in> normal_states \<Longrightarrow>
     ensures (unExpectedPowerUp sm) (\<lambda>(ok, sm'). if ok then ensures (call None (moved (Some new) sm')) bills_ok else heard ev sm')"
  by (auto simp: unExpectedPowerUp_def heard_def bills_ok_def Let_def)

lemma guard_isNotJCMDisable:
  "heard ev sm \<Longrightarrow> new \<in> normal_states \<Longrightarrow>
     ensures (isNotJCMDisable sm) (\<lambda>(ok, sm'). if ok then ensures (call None (moved (Some new) sm')) bills_ok else heard ev sm')"
  by (auto simp: isNotJCMDisable_def heard_def bills_ok_def)

lemma guard_isJCMDisable:
  "heard ev sm \<Longrightarrow> new \<in> normal_states \<Longrightarrow>
     ensures (isJCMDisable sm) (\<lambda>(ok, sm'). if ok then ensures (call None (moved (Some new) sm')) bills_ok else heard ev sm')"
  by (auto simp: isJCMDisable_def heard_def bills_ok_def)

lemma event_ok_fields [simp]: "event_ok (effects_update f a) \<longleftrightarrow> event_ok a"
  "event_ok (appNotifPowerUpBill_update h a) \<longleftrightarrow> event_ok a"
  by (simp_all add: event_ok_def event_data_def)

lemma guard_endErrorDetected:
  "heard ev sm \<Longrightarrow> new \<in> normal_states \<Longrightarrow>
     ensures (endErrorDetected sm) (\<lambda>(ok, sm'). if ok then ensures (call None (moved (Some new) sm')) bills_ok else heard ev sm')"
  by (auto simp: endErrorDetected_def heard_def bills_ok_def Let_def)

lemma guard_shouldResetID003:
  "heard ev sm \<Longrightarrow>
     ensures (shouldResetID003 sm) (\<lambda>(ok, sm'). if ok
       then ensures (call (Some verifySendResetID003) (moved (Some jcmErrorState) sm')) bills_ok else heard ev sm')"
  by (auto simp: shouldResetID003_def heard_def bills_ok_def Let_def verifySendResetID003_def
      safeBoxMgrResetDev_def normal_states_def)

lemma guard_isOnPowerUpStatus:
  assumes "heard ev sm"
  shows "ensures (isOnPowerUpStatus sm) (\<lambda>(ok, sm'). if ok
     then ensures (call (Some (sendResetID003 run)) (moved (Some jcmInitializingState) sm')) bills_ok else heard ev sm')"
proof -
  have "ensures (isOnPowerUpStatus sm) (\<lambda>(ok, sm'). heard ev sm')"
    using assms by (auto simp: isOnPowerUpStatus_def heard_def bills_ok_def acc_ok_def Let_def)
  then show ?thesis
  proof (rule ensures_mono, clarsimp)
    fix sm' assume "heard ev sm'"
    then have "bills_ok (moved (Some jcmInitializingState) sm')" "length (line (context sm')) + 1 \<le> d"
      by (simp_all add: heard_def bills_ok_def normal_states_def)
    then show "ensures (sendResetID003 run (moved (Some jcmInitializingState) sm')) bills_ok"
      using write_read_ok by (simp add: sendResetID003_def)
  qed
qed

lemma guard_initDataMissing:
  assumes "heard ev sm"
  shows "ensures (initDataMissing run sm) (\<lambda>(ok, sm'). if ok
     then ensures (call None (moved (Some jcmInitializingState) sm')) bills_ok else heard ev sm')"
proof -
  have p: "protocol (context sm) = 0" using assms by (simp add: heard_def bills_ok_def acc_ok_def)
  have r: "ensures (billAcceptWriteRead run c [] sm) (\<lambda>sm. bills_ok (moved (Some jcmInitializingState) sm))" for c
    using assms write_read_ok [of sm "[]" c]
    by (auto simp: heard_def bills_ok_def normal_states_def elim!: ensures_mono)
  from r [of "command CURRENCY_CMD sm"] r [of "command IDENTIF_CMD sm"] assms p show ?thesis
    by (simp add: initDataMissing_def Let_def)
qed

text \<open>Actions.\<close>

lemma sendOptionalFunction_ok:
  "bills_ok sm \<Longrightarrow> length (line (context sm)) + 1 \<le> d \<Longrightarrow> ensures (sendOptionalFunction run sm) bills_ok"
  by (simp add: sendOptionalFunction_def write_read_ok)

lemma doDisable_ok:
  "bills_ok sm \<Longrightarrow> length (line (context sm)) + 1 \<le> d \<Longrightarrow> ensures (doDisable run sm) bills_ok"
  by (simp add: doDisable_def write_read_ok)

lemma doEnable_ok:
  "bills_ok sm \<Longrightarrow> length (line (context sm)) + 1 \<le> d \<Longrightarrow> ensures (doEnable run sm) bills_ok"
  by (simp add: doEnable_def write_read_ok)

lemma sendAckNotification_ok: "bills_ok sm \<Longrightarrow> ensures (sendAckNotification sm) bills_ok"
  using send_ok [of sm "[]" "command ACK_CMD sm"] by (auto simp: sendAckNotification_def bills_ok_def acc_ok_send)

lemma notifyBillAccepted_ok: "bills_ok sm \<Longrightarrow> ensures (notifyBillAccepted sm) bills_ok"
  by (simp add: notifyBillAccepted_def bills_ok_def Let_def)

lemma sendVendValid_ok:
  assumes "bills_ok sm"
  shows "ensures (sendVendValidNotification sm) bills_ok"
proof -
  have p: "protocol (context sm) = 0" using assms by (simp add: bills_ok_def acc_ok_def)
  have "ensures (sendAckNotification sm) (\<lambda>sm. ensures (notifyBillAccepted sm) bills_ok)"
    by (rule ensures_mono [OF sendAckNotification_ok [OF assms] notifyBillAccepted_ok])
  then have "ensures (sendAckNotification sm) (\<lambda>sm. ensures (notifyBillAccepted sm)
      (\<lambda>sm. bills_ok (upd (\<lambda>a. a\<lparr>resetSentQty := 0\<rparr>) sm)))"
    by (elim ensures_mono) (simp add: bills_ok_def)
  with p show ?thesis by (simp add: sendVendValidNotification_def)
qed

lemma sendRejectNotification_ok:
  "bills_ok sm \<Longrightarrow> event_ok (context sm) \<Longrightarrow> event (context sm) = ID003_REJECTING \<Longrightarrow>
     ensures (sendRejectNotification sm) bills_ok"
  by (auto simp: sendRejectNotification_def event_ok_def data_ok_def event_byte_def event_data_def block_at_nth
      bills_ok_def Let_def split: option.splits)

lemma processFirmwareVersion_ok:
  assumes "bills_ok sm" "event_ok (context sm)" "event (context sm) = 0x88"
  shows "ensures (processFirmwareVersion sm) bills_ok"
proof -
  let ?a = "context sm"
  obtain p where p: "dataEvPtr ?a = Some p" and n: "0 \<le> dataLenEvt ?a" "dataLenEvt ?a < 50" "nat (dataLenEvt ?a) \<le> length p"
    using assms(2,3) by (auto simp: event_ok_def data_ok_def event_data_def)
  have a: "protocol ?a = 0" "length (jcmVersion ?a) = 50" "acc_ok ?a" using assms(1) by (simp_all add: bills_ok_def acc_ok_def)
  have "acc_ok (?a\<lparr>jcmVersion := v\<rparr>)" if "length v = 50" for v using a that by (simp add: acc_ok_def)
  with p n a assms(1) show ?thesis
    by (simp add: processFirmwareVersion_def block_read_def block_write_def bills_ok_def Let_def)
qed

lemma index_range:
  "0x61 \<le> b \<Longrightarrow> b \<le> 0x7A \<Longrightarrow> nat (uint (b - 0x61)) < 26" for b :: byte
proof -
  assume b: "0x61 \<le> b" "b \<le> 0x7A"
  then have "unat b \<le> 122" by (simp add: word_le_nat_alt)
  moreover have "unat (b - 0x61) = unat b - 97" using b(1) by (simp add: unat_sub)
  ultimately show ?thesis by (simp add: nat_uint_eq)
qed

lemma sendStackID003_ok:
  assumes "bills_ok sm" "event_ok (context sm)" "event (context sm) = ID003_ESCROW" "length (line (context sm)) + 1 \<le> d"
  shows "ensures (sendStackID003 run sm) bills_ok"
proof -
  let ?a = "context sm"
  obtain b p where p: "dataEvPtr ?a = Some (b # p)" and b: "0x61 \<le> b" "b \<le> 0x7A"
    using assms(2,3) by (auto simp: event_ok_def data_ok_def event_data_def neq_Nil_conv)
  have a: "protocol ?a = 0" "acc_ok ?a" "length (convertionTable ?a) = 26" using assms(1) by (simp_all add: bills_ok_def acc_ok_def)
  obtain den where d: "denomination ?a (uint (b - 0x61)) = Some den"
    using index_range [OF b] a(3) by (simp add: denomination_def)
  let ?s1 = "sm\<lparr>context := ?a\<lparr>amountChar := amount den * MultipApp, currencyId := den_currencyId den\<rparr>\<rparr>"
  have s1: "bills_ok ?s1" using assms(1) by (simp add: bills_ok_def)
  have end_ok: "ensures (billAcceptWriteRead run c [] s) (\<lambda>sm. bills_ok (upd (\<lambda>a. a\<lparr>resetSentQty := 0\<rparr>) sm))"
    if "bills_ok s" "line (context s) = line ?a" for c s
    by (rule ensures_mono [OF write_read_ok]) (use that assms(4) in \<open>simp_all add: bills_ok_def\<close>)
  define s2 where "s2 = (if status ?a = JCM_ENABLE \<and> billDisabled den then upd (\<lambda>a. a\<lparr>amountChar := -1\<rparr>) ?s1 else ?s1)"
  have s2: "bills_ok s2" "line (context s2) = line ?a" using s1 by (simp_all add: s2_def bills_ok_def)
  have "ensures (notifyBillAccepted s2) (\<lambda>s. bills_ok s \<and> line (context s) = line ?a)"
    using s2 by (simp add: notifyBillAccepted_def bills_ok_def Let_def)
  then have ret: "ensures (notifyBillAccepted s2) (\<lambda>s. ensures (billAcceptWriteRead run (command RETURN_CMD s) [] s)
      (\<lambda>sm. bills_ok (upd (\<lambda>a. a\<lparr>resetSentQty := 0\<rparr>) sm)))"
    by (elim ensures_mono) (simp add: end_ok)
  have stk: "ensures (billAcceptWriteRead run (command STACK_CMD ?s1) [] ?s1) (\<lambda>sm. bills_ok (upd (\<lambda>a. a\<lparr>resetSentQty := 0\<rparr>) sm))"
    by (rule end_ok [OF s1]) simp
  have "event_byte 0 ?a = Some b" using p by (simp add: event_byte_def block_at_nth)
  with d a(1) ret [unfolded s2_def] stk show ?thesis
    by (cases "status ?a = JCM_ENABLE"; cases "billDisabled den")
       (simp_all add: sendStackID003_def stack_or_return_def bill_in_hand_def Let_def)
qed

lemma processCurrencyAssignment_ok:
  assumes "bills_ok sm" "event_ok (context sm)" "event (context sm) = 0x8A"
  shows "ensures (processCurrencyAssignment sm) bills_ok"
proof -
  let ?a = "context sm" let ?n = "dataLenEvt ?a div 4"
  let ?cleared = "?a\<lparr>convertionTable := replicate 26 no_denomination\<rparr>"
  obtain p where p: "dataEvPtr ?a = Some p" and r: "rows_ok (nat ?n) p"
    using assms(2,3) by (auto simp: event_ok_def data_ok_def event_data_def)
  have a: "acc_ok ?a" using assms(1) by (simp add: bills_ok_def)
  have q: "ensures (assign_jcm (nat ?n) q ?cleared) (\<lambda>a'. acc_ok a')" if "q = p \<or> q = [] \<and> ?n = 0" for q
  proof (rule ensures_mono [OF assign_jcm_ok])
    show "rows_ok (nat ?n) q" using that r by auto
    show "length (convertionTable ?cleared) = 26" "cur_ok (currencies ?cleared)" using a by (simp_all add: acc_ok_def)
    show "acc_ok b" if "\<exists>tab cc cs. length tab = 26 \<and> cur_ok cs \<and>
        b = ?cleared\<lparr>convertionTable := tab, countryCode := cc, currencies := cs\<rparr>" for b
      using that a by (elim exE conjE) (simp add: acc_ok_def)
  qed
  have "acc_ok ?cleared" using a by (simp add: acc_ok_def)
  then show ?thesis using q [of p] q [of "[]"] p a assms(1)
    by (auto simp: processCurrencyAssignment_def Let_def acc_ok_def bills_ok_def ensures_iff)
qed

text \<open>A run on a reply.\<close>

lemmas guards_fine = guard_errorDetected guard_unExpectedPowerUp guard_isNotJCMDisable guard_isJCMDisable
  guard_endErrorDetected guard_shouldResetID003 guard_isOnPowerUpStatus guard_initDataMissing

lemmas actions_fine = sendOptionalFunction_ok doDisable_ok doEnable_ok sendVendValid_ok sendRejectNotification_ok
  processFirmwareVersion_ok processCurrencyAssignment_ok sendStackID003_ok

lemma tables_fine:
  "list_all (row_fine ev cur) noCommStateTransitions"
  "list_all (row_fine ev cur) jcmFirstStateTransitions"
  "list_all (row_fine ev cur) (jcmInitializingStateTransitions run)"
  "list_all (row_fine ev cur) (jcmDisabledStateTransitions run)"
  "list_all (row_fine ev cur) (jcmEnabledStateTransitions run)"
  "list_all (row_fine ev cur) (jcmReceivingBillStateTransitions run)"
  "list_all (row_fine ev cur) jcmErrorStateTransitions"
proof -
  have n: "noCommState \<in> normal_states" "jcmInitializingState \<in> normal_states" "jcmDisabledState \<in> normal_states"
    "jcmEnabledState \<in> normal_states" "jcmReceivingBillState \<in> normal_states" "jcmErrorState \<in> normal_states"
    by (simp_all add: normal_states_def)
  have h: "heard ev sm \<Longrightarrow> bills_ok sm" for sm ev by (simp add: heard_def)
  have f: "bills_ok sm \<Longrightarrow> ensures (jcmNotifyAppInitalizationFinished sm) bills_ok" for sm
    by (simp add: jcmNotifyAppInitalizationFinished_def bills_ok_def Let_def)
  have pr: "bills_ok sm \<Longrightarrow> ensures (printAny sm) bills_ok" for sm by (simp add: printAny_def)
  have any: "row_fine ev cur (trans SM_ANY None act new)"
    if "new \<in> normal_states" "\<And>sm. bills_ok sm \<Longrightarrow> ensures (call act sm) bills_ok" for act new
    by (rule row_any [OF that(1)]) (simp add: that(2) h)
  show "list_all (row_fine ev cur) noCommStateTransitions"
    unfolding noCommStateTransitions_def list_pred_simps by (intro conjI TrueI any n) simp
  show "list_all (row_fine ev cur) jcmFirstStateTransitions"
    unfolding jcmFirstStateTransitions_def list_pred_simps by (intro conjI TrueI any n) (simp add: f)
  show "list_all (row_fine ev cur) (jcmInitializingStateTransitions run)"
    unfolding jcmInitializingStateTransitions_def list_pred_simps
    by (intro conjI TrueI any row_update row_guard row_on n) ((rule guards_fine n | assumption | simp add: actions_fine)+)
  show "list_all (row_fine ev cur) (jcmDisabledStateTransitions run)"
    unfolding jcmDisabledStateTransitions_def list_pred_simps
    by (intro conjI TrueI any row_update row_guard row_on n) ((rule guards_fine n | assumption | simp add: actions_fine)+)
  show "list_all (row_fine ev cur) (jcmEnabledStateTransitions run)"
    unfolding jcmEnabledStateTransitions_def list_pred_simps
    by (intro conjI TrueI any row_update row_guard row_on n) ((rule guards_fine n | assumption | simp add: actions_fine)+)
  show "list_all (row_fine ev cur) (jcmReceivingBillStateTransitions run)"
    unfolding jcmReceivingBillStateTransitions_def list_pred_simps
    by (intro conjI TrueI any row_update row_guard row_on n) ((rule guards_fine n | assumption | simp add: actions_fine)+)
  show "list_all (row_fine ev cur) jcmErrorStateTransitions"
    unfolding jcmErrorStateTransitions_def list_pred_simps
    by (intro conjI TrueI any row_update row_download row_guard n) ((rule guards_fine n | assumption | simp add: pr)+)
qed

lemma reply_run_ok:
  assumes "bills_ok sm" "event_ok (context sm)" "length (line (context sm)) + 1 \<le> d"
  shows "ensures (executeStateMachine (bill_states run) (uint (event (context sm))) sm) bills_ok"
proof -
  let ?ev = "uint (event (context sm))"
  obtain cur where cur: "currentState sm = Some cur" "cur \<in> normal_states" using assms(1) by (auto simp: bills_ok_def)
  have h: "heard ?ev (sm\<lparr>currentEvent := ?ev\<rparr>)" using assms by (simp add: heard_def bills_ok_def)
  have "catch_all (transitions (bill_states run cur)) \<and> list_all (row_fine ?ev cur) (transitions (bill_states run cur))"
    using cur(2) tables_fine
    by (auto simp: normal_states_def bill_state_of_def noCommStateTransitions_def [THEN arg_cong [where f = catch_all]]
        jcmFirstStateTransitions_def [THEN arg_cong [where f = catch_all]]
        jcmInitializingStateTransitions_def [THEN arg_cong [where f = catch_all]]
        jcmDisabledStateTransitions_def [THEN arg_cong [where f = catch_all]]
        jcmEnabledStateTransitions_def [THEN arg_cong [where f = catch_all]]
        jcmReceivingBillStateTransitions_def [THEN arg_cong [where f = catch_all]]
        jcmErrorStateTransitions_def [THEN arg_cong [where f = catch_all]])
  then show ?thesis by (intro execute_ensures [OF cur(1) state_sel, where I = "heard ?ev"] h) simp_all
qed

text \<open>A run on a communication error.\<close>

lemma comm_error_ok:
  assumes ok: "bills_ok sm" and ev: "event (context sm) = e" and e: "e = 0x4A"
  shows "ensures (executeStateMachine (bill_states run) (uint e) sm) bills_ok"
proof -
  obtain cur where cur: "currentState sm = Some cur" "cur \<in> normal_states" using ok by (auto simp: bills_ok_def)
  have ne: "1 \<noteq> e" "0x1B \<noteq> e" "0x17 \<noteq> e" "0x13 \<noteq> e" "0x15 \<noteq> e" "0x16 \<noteq> e" "0x11 \<noteq> e" "0xD4 \<noteq> e"
    by (simp_all add: e)
  have n: "new \<in> normal_states" if "new = jcmErrorState \<or> new = jcmInitializingState \<or> new = noCommState" for new
    using that by (auto simp: normal_states_def)
  let ?s = "sm\<lparr>currentEvent := uint e\<rparr>"
  have ok': "bills_ok ?s" using ok by (simp add: bills_ok_def)
  have err: "errorDetected ?s = Some (True, upd (\<lambda>a. a\<lparr>errorCause := e\<rparr>) ?s)"
    using ev by (simp add: errorDetected_def e Let_def upd_def)
  have pow: "unExpectedPowerUp ?s = Some (False, ?s)" using ev by (simp add: unExpectedPowerUp_def e Let_def)
  have no: "endErrorDetected ?s = Some (False, ?s)" "shouldResetID003 ?s = Some (False, ?s)"
    using ev by (simp_all add: endErrorDetected_def shouldResetID003_def e Let_def)
  have fire: "ensures (fire (bill_states run) c (trans x g act new) s) bills_ok"
    if "bills_ok s" "new = jcmErrorState \<or> new = jcmInitializingState \<or> new = noCommState"
      "act = None \<or> act = Some printAny \<or> act = Some jcmNotifyAppInitalizationFinished" for c x g act new s
  proof (rule fire_ok [OF n])
    have "bills_ok (moved (Some new) s)" using that(1) n [OF that(2)] by (simp add: bills_ok_def)
    with that(3) show "ensures (call act (moved (Some new) s)) bills_ok"
      by (auto simp: printAny_def jcmNotifyAppInitalizationFinished_def bills_ok_def Let_def)
  qed (rule that(2))
  have ok2: "bills_ok (upd (\<lambda>a. a\<lparr>errorCause := e\<rparr>) ?s)" using ok by (simp add: bills_ok_def)
  have "ensures (find_transition (uint e) (transitions (bill_states run cur)) ?s)
      (\<lambda>(t, s). ensures (fire (bill_states run) cur t s) bills_ok)"
    using cur(2) unfolding normal_states_def
    apply (elim insertE; (elim emptyE)?)
    apply (simp_all only: bill_states.simps bill_state_of_def State.select_convs noCommStateTransitions_def
          jcmFirstStateTransitions_def jcmInitializingStateTransitions_def jcmDisabledStateTransitions_def
          jcmEnabledStateTransitions_def jcmReceivingBillStateTransitions_def jcmErrorStateTransitions_def
          find_on find_any err pow no ne ID003_UPDATE_FIRM_def ID003_INITIALIZING_def ID003_REJECTING_def
          ID003_ESCROW_def ID003_VEND_VALID_def ID003_STACKED_def ID003_IDLING_def downloadStatusCmd_def
          option.case Option.bind.simps prod.case if_True if_False ensures_simps)
    apply (rule fire; simp add: ok' ok2)+
    done
  then show ?thesis by (simp add: execute_fire [where st = "bill_states run", OF cur(1) state_sel] case_prod_unfold)
qed

lemma run_ok_deeper:
  assumes "bills_ok sm" "event_ok (context sm)" "deep_enough (Suc d) (context sm)"
  shows "ensures (executeStateMachine (bill_states run) (uint (event (context sm))) sm) bills_ok"
  using assms reply_run_ok [of sm] comm_error_ok [of sm] by (auto simp: deep_enough_def)

end

text \<open>\<open>run_bills\<close> fulfils the contract at every depth.\<close>

lemma inner_run_bills: "inner_run (run_bills n) n"
proof (induction n)
  case 0
  show ?case by unfold_locales (simp add: deep_enough_def)
next
  case (Suc n)
  show ?case by unfold_locales (simp add: inner_run.run_ok_deeper [OF Suc])
qed

interpretation bills: inner_run "run_bills n" n for n
  by (rule inner_run_bills)

end
