(* ===== verification/Jcm_Ledger.thy ===== *)
theory Jcm_Ledger
  imports Jcm_Bills
begin

text \<open>
  The account of the bills in the machine of ID003. In every state, firmware updates included, and for
  every conversation: a bill that the application is credited and that is not ordered back at once has
  been ordered to be stacked, each credit is a whole number of notes, the line is only consumed, and the
  status that the application asked for is not taken over while a bill is being received.
\<close>

subsection \<open>The account\<close>

definition is_credit :: "effect \<Rightarrow> bool" where
  "is_credit e \<longleftrightarrow> (case e of BillAccepted _ _ _ _ \<Rightarrow> True | _ \<Rightarrow> False)"

text \<open>The order to stack the bill in escrow and the order to give it back.\<close>

definition is_stack :: "effect \<Rightarrow> bool" where
  "is_stack e \<longleftrightarrow> (case e of SentFrame _ f \<Rightarrow> f = id003_frame 0x42 [] | _ \<Rightarrow> False)"

definition is_return :: "effect \<Rightarrow> bool" where
  "is_return e \<longleftrightarrow> (case e of SentFrame _ f \<Rightarrow> f = id003_frame 0x43 [] | _ \<Rightarrow> False)"

definition stacked :: "effect list \<Rightarrow> nat" where
  "stacked es = length (filter is_stack es)"

text \<open>
  The credits of bills that are kept: those after which the next thing the acceptor does is not to order
  the bill back. A bill that is only validated is credited and ordered back.
\<close>

fun kept :: "effect list \<Rightarrow> nat" where
  "kept [] = 0"
| "kept (e # es) = (if is_credit e \<and> (es = [] \<or> \<not> is_return (hd es)) then 1 else 0) + kept es"

lemma kept_snoc: "kept (es @ [x]) \<le> kept es + (if is_credit x then 1 else 0)"
  by (induction es) (auto simp: hd_append)

lemma kept_quiet: "\<not> is_credit x \<Longrightarrow> kept (es @ [x]) \<le> kept es"
  using kept_snoc [of es x] by simp

lemma kept_returned: "is_return r \<Longrightarrow> is_credit x \<Longrightarrow> kept (es @ [x, r]) \<le> kept es"
proof (induction es)
  case Nil
  then show ?case by (auto simp: is_return_def is_credit_def split: effect.splits)
next
  case (Cons e es)
  then show ?case by (cases es) auto
qed

lemma stacked_append [simp]: "stacked (xs @ ys) = stacked xs + stacked ys" "stacked [] = 0"
  "stacked (x # xs) = (if is_stack x then 1 else 0) + stacked xs"
  by (simp_all add: stacked_def)

text \<open>Amounts that are a whole number of notes.\<close>

definition whole :: "int \<Rightarrow> bool" where
  "whole x \<longleftrightarrow> 0 \<le> x \<and> MultipApp dvd x"

definition credit_whole :: "effect \<Rightarrow> bool" where
  "credit_whole e \<longleftrightarrow> (case e of BillAccepted _ x _ n \<Rightarrow> whole x \<and> n = 1 | _ \<Rightarrow> True)"

definition in_hand :: "int \<Rightarrow> nat" where
  "in_hand h = (if h = -1 then 0 else 1)"

text \<open>
  \<open>b\<close> says whether the application takes credits, \<open>c\<close> is what may be credited without an order, \<open>h\<close> is the
  amount of the bill in hand, -1 if there is none.
\<close>

definition balanced :: "nat \<Rightarrow> bool \<Rightarrow> effect list \<Rightarrow> int \<Rightarrow> JCMDenomination list \<Rightarrow> bool" where
  "balanced c b es h tab \<longleftrightarrow> kept es + (if b then in_hand h else 0) \<le> stacked es + c \<and> (h = -1 \<or> whole h) \<and>
     list_all credit_whole es \<and> list_all (\<lambda>d. 0 \<le> amount d) tab"

definition account :: "nat \<Rightarrow> Acceptor \<Rightarrow> bool" where
  "account c a \<longleftrightarrow> balanced c (billAcceptNotificationFcn a) (effects a) (amountChar a) (convertionTable a)"

lemmas balanced_defs = balanced_def in_hand_def credit_whole_def is_credit_def is_stack_def

definition id003_states :: "bill_state set" where
  "id003_states = normal_states \<union> {jcmStartFirmwareUpd, jcmUpdateFirmware}"

text \<open>\<open>b\<close> says whether the account is kept, \<open>L\<close> bounds the blocks that are left on the line.\<close>

definition led :: "bool \<Rightarrow> nat \<Rightarrow> nat \<Rightarrow> bill_machine \<Rightarrow> bool" where
  "led b c L sm \<longleftrightarrow> currentState sm \<in> Some ` id003_states \<and> protocol (context sm) = ID003 \<and>
     length (sendBuf (jcm (context sm))) = 570 \<and> length (line (context sm)) \<le> L \<and>
     (b \<longrightarrow> account c (context sm) \<and>
       (currentState sm = Some jcmReceivingBillState \<longrightarrow> canChangeStatus (context sm) = 0))"

lemma account_fields [simp]:
  "account c (currencyId_update g a) \<longleftrightarrow> account c a" "account c (event_update h a) \<longleftrightarrow> account c a"
  "account c (commErrQty_update h a) \<longleftrightarrow> account c a" "account c (dataEvPtr_update p a) \<longleftrightarrow> account c a"
  "account c (dataLenEvt_update g a) \<longleftrightarrow> account c a" "account c (errorCause_update h a) \<longleftrightarrow> account c a"
  "account c (errorAditInfo_update h a) \<longleftrightarrow> account c a" "account c (lastRejectCause_update h a) \<longleftrightarrow> account c a"
  "account c (canChangeStatus_update h a) \<longleftrightarrow> account c a" "account c (appNotifPowerUpBill_update h a) \<longleftrightarrow> account c a"
  "account c (errorResetQty_update h a) \<longleftrightarrow> account c a" "account c (resetSentQty_update h a) \<longleftrightarrow> account c a"
  "account c (billTableLoaded_update h a) \<longleftrightarrow> account c a" "account c (status_update h a) \<longleftrightarrow> account c a"
  "account c (pendingStatus_update h a) \<longleftrightarrow> account c a" "account c (countryCode_update g a) \<longleftrightarrow> account c a"
  "account c (jcm_update j a) \<longleftrightarrow> account c a" "account c (line_update l a) \<longleftrightarrow> account c a"
  "account c (currencies_update k a) \<longleftrightarrow> account c a" "account c (jcmVersion_update v a) \<longleftrightarrow> account c a"
  "account c (firmImage_update i a) \<longleftrightarrow> account c a" "account c (canResetVal_update h a) \<longleftrightarrow> account c a"
  "account c (frameSize_update g a) \<longleftrightarrow> account c a" "account c (qtySentWithAck_update h a) \<longleftrightarrow> account c a"
  "account c (offsetTransfer_update g a) \<longleftrightarrow> account c a" "account c (framesQty_update u a) \<longleftrightarrow> account c a"
  "account c (framesQtyRefreshProgress_update u a) \<longleftrightarrow> account c a" "account c (imageCrc_update w a) \<longleftrightarrow> account c a"
  "account c (firmwFrame_update v a) \<longleftrightarrow> account c a" "account c (fileSize_update g a) \<longleftrightarrow> account c a"
  "account c (fileOffset_update g a) \<longleftrightarrow> account c a" "account c (blockSize_update g a) \<longleftrightarrow> account c a"
  "account c (firmwareUpdateProgress_update q a) \<longleftrightarrow> account c a" "account c (cheatedLeaveApp_update h a) \<longleftrightarrow> account c a"
  by (simp_all add: account_def)

lemma balanced_quiet:
  assumes "balanced c b es h tab" "\<not> is_credit e"
  shows "balanced c b (es @ [e]) h tab"
proof -
  have "credit_whole e" using assms(2) by (auto simp: credit_whole_def is_credit_def split: effect.splits)
  with assms kept_quiet [OF assms(2), of es] show ?thesis by (simp add: balanced_def)
qed

lemma account_trace:
  "account c a \<Longrightarrow> \<not> is_credit e \<Longrightarrow> account c (a\<lparr>effects := effects a @ [e]\<rparr>)"
  by (simp add: account_def balanced_quiet)

text \<open>The bill in hand is credited.\<close>

lemma balanced_credit:
  assumes "balanced c True es h tab" "h \<noteq> -1"
  shows "balanced c True (es @ [BillAccepted d h k 1]) (-1) tab"
  using assms kept_snoc [of es "BillAccepted d h k 1"]
  by (auto simp: balanced_def in_hand_def is_credit_def credit_whole_def is_stack_def)

lemma not_credit [simp]: "\<not> is_credit (SentFrame d f)" "\<not> is_credit (BillRejected d x n)"
  "\<not> is_credit (CommErrorNotified d x)" "\<not> is_credit (StatusNotified d x)" "\<not> is_credit (AcceptingNotified d x)"
  "\<not> is_credit (UpdateProgress d x)" "\<not> is_credit (DeviceReset d)" "\<not> is_credit (Slept t)"
  by (simp_all add: is_credit_def)

lemma led_trace: "led b c L sm \<Longrightarrow> \<not> is_credit e \<Longrightarrow> led b c L (trace e sm)"
  by (simp add: led_def account_trace)

lemma led_trace_if: "led b c L sm \<Longrightarrow> \<not> is_credit e \<Longrightarrow> led b c L (trace_if q e sm)"
  by (simp add: trace_if_def led_trace)

lemma led_event [simp]: "led b c L (sm\<lparr>currentEvent := ev\<rparr>) \<longleftrightarrow> led b c L sm"
  by (simp add: led_def)

lemma led_moved:
  "led b c L sm \<Longrightarrow> new \<in> id003_states \<Longrightarrow> new \<noteq> jcmReceivingBillState \<or> currentState sm = Some jcmReceivingBillState \<Longrightarrow>
     led b c L (moved (Some new) sm)"
  by (auto simp: led_def)

lemma led_neutral:
  assumes "led b c L sm"
    "\<And>a. protocol (f a) = protocol a \<and> jcm (f a) = jcm a \<and> line (f a) = line a \<and> effects (f a) = effects a \<and>
      amountChar (f a) = amountChar a \<and> convertionTable (f a) = convertionTable a \<and> canChangeStatus (f a) = canChangeStatus a \<and>
      billAcceptNotificationFcn (f a) = billAcceptNotificationFcn a"
  shows "led b c L (upd f sm)"
  using assms by (simp add: led_def account_def)

subsection \<open>Sending and receiving\<close>

lemma length_block_write: "block_write x i y = Some z \<Longrightarrow> length z = length x"
  by (auto simp: block_write_def split: if_splits)

lemma jcmWrite_length:
  assumes "jcmWrite dev 0 cmd data n s = Some (s', dev', f)"
  shows "length (sendBuf s') = length (sendBuf s)"
  using assms by (auto simp: jcmWrite_def Option.bind_eq_Some_conv dest!: length_block_write)

lemma send_keeps: "led b c L sm \<Longrightarrow> yields (send cmd data sm) (led b c L)"
proof (cases "jcmWrite (devId (context sm)) 0 cmd data (int (length data)) (jcm (context sm))")
  case (Some r)
  obtain j dev f where r: "r = (j, dev, f)" by (cases r)
  assume "led b c L sm"
  with jcmWrite_length [OF Some [unfolded r]] have "led b c L (upd (\<lambda>a. a\<lparr>jcm := j\<rparr>) sm)" by (simp add: led_def)
  then have t: "led b c L (trace (SentFrame dev f) (upd (\<lambda>a. a\<lparr>jcm := j\<rparr>) sm))" by (rule led_trace) simp
  have "protocol (context sm) = 0" using \<open>led b c L sm\<close> by (simp add: led_def)
  with Some r t show ?thesis by (simp add: send_def Let_def)
qed (simp add: send_def Let_def led_def)

lemma receive_keeps: "led b c L sm \<Longrightarrow> yields (receive sm) (\<lambda>(ok, sm'). led b c L sm')"
  by (auto simp: receive_def yields_iff Option.bind_eq_Some_conv led_def Let_def)

text \<open>The second half of an exchange.\<close>

definition wait_reply :: "(int \<Rightarrow> bill_action) \<Rightarrow> byte \<Rightarrow> byte list \<Rightarrow> bill_action" where
  "wait_reply run cmd data sm = do {
     sm \<leftarrow> (if protocol (context sm) = CCNET \<and> cmd = 0x50 then do {
              d \<leftarrow> block_at data 0;
              Some (trace_if (d = 0x02) (Slept 400) sm)
            } else Some sm);
     (ok, sm) \<leftarrow> receive sm;
     if ok then do {
       sm \<leftarrow> reply_event cmd data sm;
       let sm = upd (\<lambda>a. a\<lparr>commErrQty := 0\<rparr>) sm;
       run (uint (event (context sm))) sm
     } else do {
       let sm = upd (\<lambda>a. a\<lparr>commErrQty := commErrQty a + 1\<rparr>) sm;
       if commErrQty (context sm) > 3 then do {
         let sm = set_event (if protocol (context sm) = ID003 then ID003_COMM_ERROR else CCNET_COMM_ERROR) sm;
         run (uint (event (context sm))) sm
       } else Some sm
     }
   }"

lemma write_read_split: "billAcceptWriteRead run cmd data sm = do { sm \<leftarrow> send cmd data sm; wait_reply run cmd data sm }"
  by (simp add: billAcceptWriteRead_def wait_reply_def)

lemma reply_event_keeps: "led b c L sm \<Longrightarrow> yields (reply_event cmd data sm) (led b c L)"
  by (auto simp: reply_event_def first_byte_event_def yields_iff Option.bind_eq_Some_conv led_def)

lemma notify_keeps: "led b c L sm \<Longrightarrow> yields (notifyBillAccepted sm) (led b c L)"
  by (auto simp: notifyBillAccepted_def Let_def led_def account_def intro: balanced_credit)

subsection \<open>The contract of the inner run\<close>

locale inner_keeps =
  fixes run :: "int \<Rightarrow> bill_action" and b :: bool and c L :: nat
  assumes bill_run_keeps: "led b c L sm \<Longrightarrow> yields (run ev sm) (led b c L)"
begin

lemma wait_keeps:
  assumes "led b c L sm"
  shows "yields (wait_reply run cmd data sm) (led b c L)"
proof -
  have p: "protocol (context sm) = 0" using assms by (simp add: led_def)
  have q: "led b c L (upd (\<lambda>a. a\<lparr>commErrQty := k a\<rparr>) s)" if "led b c L s" for k s using that by (simp add: led_def)
  have e: "led b c L (set_event x s)" if "led b c L s" for x s using that by (simp add: led_def)
  have "yields (receive sm) (\<lambda>(ok, s). yields (if ok then do {
       s \<leftarrow> reply_event cmd data s;
       let s = upd (\<lambda>a. a\<lparr>commErrQty := 0\<rparr>) s;
       run (uint (event (context s))) s
     } else do {
       let s = upd (\<lambda>a. a\<lparr>commErrQty := commErrQty a + 1\<rparr>) s;
       if commErrQty (context s) > 3 then do {
         let s = set_event (if protocol (context s) = ID003 then ID003_COMM_ERROR else CCNET_COMM_ERROR) s;
         run (uint (event (context s))) s
       } else Some s
     }) (led b c L))"
  proof (rule yields_mono [OF receive_keeps [OF assms]], clarify)
    fix ok s assume s: "led b c L s"
    have "yields (reply_event cmd data s) (\<lambda>s. yields (run (uint (event (context s))) (upd (\<lambda>a. a\<lparr>commErrQty := 0\<rparr>) s)) (led b c L))"
      by (rule yields_mono [OF reply_event_keeps [OF s]]) (simp add: bill_run_keeps q)
    then show "yields (if ok then do {
       s \<leftarrow> reply_event cmd data s;
       let s = upd (\<lambda>a. a\<lparr>commErrQty := 0\<rparr>) s;
       run (uint (event (context s))) s
     } else do {
       let s = upd (\<lambda>a. a\<lparr>commErrQty := commErrQty a + 1\<rparr>) s;
       if commErrQty (context s) > 3 then do {
         let s = set_event (if protocol (context s) = ID003 then ID003_COMM_ERROR else CCNET_COMM_ERROR) s;
         run (uint (event (context s))) s
       } else Some s
     }) (led b c L)"
      using s by (simp add: Let_def bill_run_keeps q e)
  qed
  with p show ?thesis by (simp add: wait_reply_def case_prod_unfold)
qed

lemma write_read_keeps: "led b c L sm \<Longrightarrow> yields (billAcceptWriteRead run cmd data sm) (led b c L)"
  unfolding write_read_split yields_bind by (rule yields_mono [OF send_keeps wait_keeps])

text \<open>A bill in escrow.\<close>

lemma balanced_stack:
  assumes "balanced c q es h tab" "0 \<le> x"
  shows "balanced c q (es @ [SentFrame d (id003_frame 0x42 [])]) (x * 10000000) tab"
  using assms kept_quiet [of "SentFrame d (id003_frame 0x42 [])" es]
  by (auto simp: balanced_defs whole_def)

text \<open>
  A bill that goes back. If the application takes credits none is in hand afterwards: the bill has been
  forgotten before, or it has been credited, and the credit is followed by the order to return it.
\<close>

lemma balanced_return:
  assumes "balanced c q es h tab" "0 \<le> x"
  shows "\<not> q \<Longrightarrow> balanced c q (es @ [SentFrame d (id003_frame 0x43 [])]) (x * 10000000) tab"
    "balanced c q (es @ [SentFrame d (id003_frame 0x43 [])]) (-1) tab"
    "balanced c q (es @ [BillAccepted d' (x * 10000000) k 1, SentFrame d (id003_frame 0x43 [])]) (-1) tab"
proof -
  let ?r = "SentFrame d (id003_frame 0x43 [])" let ?a = "BillAccepted d' (x * 10000000) k 1"
  have "kept (es @ [?r]) \<le> kept es" by (intro kept_quiet) simp
  moreover have "kept (es @ [?a, ?r]) \<le> kept es" by (intro kept_returned) (simp_all add: is_return_def is_credit_def)
  ultimately show "\<not> q \<Longrightarrow> balanced c q (es @ [?r]) (x * 10000000) tab" "balanced c q (es @ [?r]) (-1) tab"
    "balanced c q (es @ [?a, ?r]) (-1) tab"
    using assms by (auto simp: balanced_def in_hand_def credit_whole_def whole_def)
qed

lemma order_codes:
  "protocol (context sm) = 0 \<Longrightarrow> command 2 sm = 0x42"
  "protocol (context sm) = 0 \<Longrightarrow> command 5 sm = 0x43"
  by (simp_all add: command_def getCommandCode_def cmdsTable_def)

lemma stack_or_return_keeps:
  assumes led: "led b c L sm"
  shows "yields (stack_or_return run i sm) (led b c L)"
proof (cases "denomination (context sm) (uint i)")
  case None
  then show ?thesis by (simp add: stack_or_return_def bill_in_hand_def)
next
  case (Some d)
  let ?s = "sm\<lparr>context := (context sm)\<lparr>amountChar := amount d * MultipApp, currencyId := den_currencyId d\<rparr>\<rparr>"
  have bal: "balanced c (billAcceptNotificationFcn (context sm)) (effects (context sm)) (amountChar (context sm)) (convertionTable (context sm))" "0 \<le> amount d" if b
    using that led Some by (auto simp: led_def account_def denomination_def balanced_def list_all_iff split: if_splits)
  have p: "protocol (context sm) = 0" "length (sendBuf (jcm (context sm))) = 570" using led by (simp_all add: led_def)
  have len: "length (sendBuf (sent dv (id003_frame x []) (jcm (context sm)))) = 570" for dv x
    using p(2) by (simp add: sent_def id003_frame_def)
  have stk: "led b c L (after_send 0x42 [] ?s)"
    using led bal len by (auto simp: led_def after_send_def Let_def account_def intro: balanced_stack)
  then have "yields (wait_reply run 0x42 [] (after_send 0x42 [] ?s)) (led b c L)" by (rule wait_keeps)
  then have 1: "yields (billAcceptWriteRead run (command STACK_CMD ?s) [] ?s) (led b c L)"
    using p by (simp add: write_read_split order_codes send_id003)
  have 2: "yields (notifyBillAccepted s) (\<lambda>s. yields (billAcceptWriteRead run (command RETURN_CMD s) [] s) (led b c L))"
    if s: "s = ?s \<or> s = upd (\<lambda>a. a\<lparr>amountChar := -1\<rparr>) ?s" for s
  proof -
    have "led b c L (after_send 0x43 [] s')" "protocol (context s') = 0" "length (sendBuf (jcm (context s'))) = 570"
      if "notifyBillAccepted s = Some s'" for s'
      using that s led bal len p
      by (auto simp: notifyBillAccepted_def Let_def led_def after_send_def account_def split: if_splits
        intro: balanced_return)
    then show ?thesis
      by (auto simp: yields_iff [of "notifyBillAccepted s"] write_read_split order_codes send_id003 wait_keeps)
  qed
  from 1 2 [of ?s] 2 [of "upd (\<lambda>a. a\<lparr>amountChar := -1\<rparr>) ?s"] Some show ?thesis
    by (simp add: stack_or_return_def bill_in_hand_def Let_def)
qed

text \<open>The other actions.\<close>

lemma ack_keeps: "led b c L sm \<Longrightarrow> yields (sendAckNotification sm) (led b c L)"
  unfolding sendAckNotification_def yields_bind by (rule yields_mono [OF send_keeps]) (auto intro: led_trace)

lemma vend_keeps:
  assumes "led b c L sm"
  shows "yields (sendVendValidNotification sm) (led b c L)"
proof -
  have p: "protocol (context sm) = 0" using assms by (simp add: led_def)
  have "yields (sendAckNotification sm) (\<lambda>s. yields (notifyBillAccepted s) (\<lambda>s. led b c L (upd (\<lambda>a. a\<lparr>resetSentQty := 0\<rparr>) s)))"
    by (rule yields_mono [OF ack_keeps [OF assms]], rule yields_mono [OF notify_keeps]) (auto intro: led_neutral)
  with p show ?thesis by (simp add: sendVendValidNotification_def)
qed

lemma sendStack_keeps: "led b c L sm \<Longrightarrow> yields (sendStackID003 run sm) (led b c L)"
  unfolding sendStackID003_def yields_bind
  by (rule yields_mono [OF yields_True], rule yields_mono [OF stack_or_return_keeps]) (auto intro: led_neutral)

lemma led_when: "led b c L sm \<Longrightarrow> (\<And>sm. led b c L sm \<Longrightarrow> led b c L (f sm)) \<Longrightarrow> led b c L (if q then f sm else sm)"
  by simp

lemma reject_keeps: "led b c L sm \<Longrightarrow> yields (sendRejectNotification sm) (led b c L)"
  unfolding sendRejectNotification_def Let_def yields_bind
  by (rule yields_mono [OF yields_True]) (auto intro!: led_neutral led_trace)

lemma update_keeps: "led b c L sm \<Longrightarrow> yields (notifyFirmwareUpdate r sm) (led b c L)"
  unfolding notifyFirmwareUpdate_def Let_def by (auto intro!: led_neutral led_trace_if)

lemma abort_keeps: "led b c L sm \<Longrightarrow> yields (abortUpdate sm) (led b c L)"
  by (simp add: abortUpdate_def update_keeps)

lemma version_keeps: "led b c L sm \<Longrightarrow> yields (processFirmwareVersion sm) (led b c L)"
  by (auto simp: processFirmwareVersion_def Let_def yields_iff Option.bind_eq_Some_conv intro!: led_neutral)

lemma set_denomination_shape:
  assumes "set_denomination i f a = Some a'" "list_all P (convertionTable a)" "\<And>d. P d \<Longrightarrow> P (f d)"
  shows "\<exists>tab. a' = a\<lparr>convertionTable := tab\<rparr> \<and> list_all P tab"
proof -
  from assms(1) have a': "a' = a\<lparr>convertionTable := (convertionTable a)[nat i := f (convertionTable a ! nat i)]\<rparr>"
    and i: "nat i < length (convertionTable a)"
    by (auto simp: set_denomination_def denomination_def Option.bind_eq_Some_conv split: if_splits)
  have "P (f (convertionTable a ! nat i))" using assms(2,3) i by (simp add: list_all_length)
  then have "list_all P ((convertionTable a)[nat i := f (convertionTable a ! nat i)])"
    using assms(2) by (auto simp: list_all_iff dest!: set_update_subset_insert [THEN subsetD])
  with a' show ?thesis by blast
qed

lemma bill_value_nonneg: "bill_value v tz = Some x \<Longrightarrow> 0 \<le> x"
  by (auto simp: bill_value_def split: if_splits)

lemma assign_shape:
  assumes "assign_jcm n p a = Some a'" "list_all (\<lambda>d. 0 \<le> amount d) (convertionTable a)"
  shows "\<exists>tab cc cs. a' = a\<lparr>countryCode := cc, currencies := cs, convertionTable := tab\<rparr> \<and>
    list_all (\<lambda>d. 0 \<le> amount d) tab"
  using assms
proof (induction n arbitrary: p a)
  case 0
  then show ?case
    by (intro exI [of _ "convertionTable a"] exI [of _ "countryCode a"] exI [of _ "currencies a"]) simp
next
  case (Suc n)
  obtain escrow country v tz rows where p: "p = escrow # country # v # tz # rows"
    using Suc.prems(1) by (cases "(Suc n, p, a)" rule: assign_jcm.cases) auto
  show ?case
  proof (cases "country = 0")
    case True
    with Suc p show ?thesis by simp
  next
    case False
    let ?i = "uint escrow - 0x61"
    from Suc.prems(1) False p obtain c1 k1 a1 x a2 c2 k2 a3 where g1: "getCurrencyIdFromJcm (uint country) (currencies a) = Some (c1, k1)"
      and a1: "set_denomination ?i (\<lambda>d. d\<lparr>den_countryCode := country\<rparr>) (a\<lparr>countryCode := c1, currencies := k1\<rparr>) = Some a1"
      and x: "bill_value v tz = Some x" and a2: "set_denomination ?i (\<lambda>d. d\<lparr>amount := x\<rparr>) a1 = Some a2"
      and g2: "getCurrencyIdFromJcm (uint country) (currencies a2) = Some (c2, k2)"
      and a3: "set_denomination ?i (\<lambda>d. d\<lparr>den_currencyId := c2\<rparr>) (a2\<lparr>currencies := k2\<rparr>) = Some a3"
      and r: "assign_jcm n rows a3 = Some a'"
      by (auto simp: Option.bind_eq_Some_conv Let_def)
    from set_denomination_shape [OF a1, of "\<lambda>d. 0 \<le> amount d"] Suc.prems(2) obtain t1 where t1:
      "a1 = a\<lparr>countryCode := c1, currencies := k1, convertionTable := t1\<rparr>" "list_all (\<lambda>d. 0 \<le> amount d) t1" by auto
    from set_denomination_shape [OF a2, of "\<lambda>d. 0 \<le> amount d"] t1 bill_value_nonneg [OF x] obtain t2 where t2:
      "a2 = a\<lparr>countryCode := c1, currencies := k1, convertionTable := t2\<rparr>" "list_all (\<lambda>d. 0 \<le> amount d) t2" by auto
    from set_denomination_shape [OF a3, of "\<lambda>d. 0 \<le> amount d"] t2 obtain t3 where t3:
      "a3 = a\<lparr>countryCode := c1, currencies := k2, convertionTable := t3\<rparr>" "list_all (\<lambda>d. 0 \<le> amount d) t3" by auto
    have "list_all (\<lambda>d. 0 \<le> amount d) (convertionTable a3)" using t3 by simp
    from Suc.IH [OF r this] t3(1) show ?thesis by simp
  qed
qed

lemma currency_keeps:
  assumes "led b c L sm"
  shows "yields (processCurrencyAssignment sm) (led b c L)"
proof -
  let ?b = "(context sm)\<lparr>convertionTable := replicate 26 no_denomination\<rparr>"
  have p: "protocol (context sm) = 0" using assms by (simp add: led_def)
  have t: "list_all (\<lambda>d. 0 \<le> amount d) (convertionTable ?b)" by (simp add: list_all_iff no_denomination_def)
  have keep: "led b c L (sm\<lparr>context := a\<lparr>billTableLoaded := 1\<rparr>\<rparr>)" if asg: "assign_jcm n q ?b = Some a" for n q a
  proof -
    obtain tab cc cs where "a = ?b\<lparr>countryCode := cc, currencies := cs, convertionTable := tab\<rparr>" "list_all (\<lambda>d. 0 \<le> amount d) tab"
      using assign_shape [OF asg t] by blast
    with assms show ?thesis by (auto simp: led_def account_def balanced_def)
  qed
  show ?thesis
    using p keep [of 0 "[]" ?b]
    by (auto simp: processCurrencyAssignment_def Let_def yields_iff Option.bind_eq_Some_conv keep)
qed

text \<open>Firmware updates.\<close>

lemma loadErrorState_keeps: "led b c L sm \<Longrightarrow> yields (loadErrorState sm) (led b c L)"
  unfolding loadErrorState_def Let_def yields_simps by (rule led_trace_if) (simp_all add: led_def)

lemma transfer_keeps:
  assumes "led b c L sm"
  shows "yields (doTransferNextFrame run sm) (led b c L)"
proof -
  have n: "led b c L (upd f s)" if "led b c L s" "\<And>a. protocol (f a) = protocol a \<and> jcm (f a) = jcm a \<and>
      line (f a) = line a \<and> effects (f a) = effects a \<and> amountChar (f a) = amountChar a \<and>
      convertionTable (f a) = convertionTable a \<and> canChangeStatus (f a) = canChangeStatus a \<and>
      billAcceptNotificationFcn (f a) = billAcceptNotificationFcn a" for f s
    using that by (rule led_neutral)
  have "yields (notifyFirmwareUpdate 255 sm) (\<lambda>s. yields (loadErrorState s) (led b c L))"
    by (rule yields_mono [OF update_keeps [OF assms]]) (rule loadErrorState_keeps)
  with assms show ?thesis
    by (auto simp: doTransferNextFrame_def Let_def yields_iff [of "block_write _ _ _"] yields_iff [of "firmImage _"]
        yields_iff [of "calcCrc _ _ _"] yields_iff [of "block_read _ _ _"] intro!: write_read_keeps n)
qed

lemma verify_keeps:
  assumes "led b c L sm"
  shows "yields (verifyChecksumACK sm) (led b c L)"
proof -
  have 1: "yields (notifyFirmwareUpdate 100 sm) (\<lambda>s. yields (sendAckNotification s) (led b c L))"
    by (rule yields_mono [OF update_keeps [OF assms]]) (rule ack_keeps)
  have 2: "yields (notifyFirmwareUpdate 255 sm) (\<lambda>s. yields (loadErrorState s) (\<lambda>s. yields (sendAckNotification s) (led b c L)))"
    by (rule yields_mono [OF update_keeps [OF assms]], rule yields_mono [OF loadErrorState_keeps]) (auto intro: ack_keeps)
  show ?thesis
    using 1 2 by (auto simp: verifyChecksumACK_def Let_def yields_iff [of "event_byte _ _"])
qed

lemma resetBuffer_keeps: "led b c L sm \<Longrightarrow> yields (resetBuffer sm) (led b c L)"
  by (auto simp: resetBuffer_def Let_def yields_iff [of "guard_ok _"] intro!: led_trace led_neutral)

lemma optional_keeps: "led b c L sm \<Longrightarrow> yields (sendOptionalFunction run sm) (led b c L)"
  by (simp add: sendOptionalFunction_def write_read_keeps)

lemma disable_keeps: "led b c L sm \<Longrightarrow> yields (doDisable run sm) (led b c L)"
  by (simp add: doDisable_def write_read_keeps)

lemma enable_keeps: "led b c L sm \<Longrightarrow> yields (doEnable run sm) (led b c L)"
  by (simp add: doEnable_def write_read_keeps)

lemma download_keeps: "led b c L sm \<Longrightarrow> yields (sendDownloadStart run sm) (led b c L)"
  by (simp add: sendDownloadStart_def write_read_keeps)

lemma reset_keeps: "led b c L sm \<Longrightarrow> yields (sendResetID003 run sm) (led b c L)"
  by (simp add: sendResetID003_def write_read_keeps)

lemma verifyReset_keeps: "led b c L sm \<Longrightarrow> yields (verifySendResetID003 sm) (led b c L)"
  by (auto simp: verifySendResetID003_def safeBoxMgrResetDev_def Let_def intro!: led_neutral led_trace)

lemma app_keeps: "led b c L sm \<Longrightarrow> yields (jcmNotifyAppInitalizationFinished sm) (led b c L)"
  by (simp add: jcmNotifyAppInitalizationFinished_def Let_def led_trace_if)

lemma any_keeps: "led b c L sm \<Longrightarrow> yields (printAny sm) (led b c L)"
  by (simp add: printAny_def)

lemmas actions_keep = ack_keeps vend_keeps sendStack_keeps reject_keeps abort_keeps version_keeps currency_keeps
  transfer_keeps verify_keeps resetBuffer_keeps optional_keeps disable_keeps enable_keeps download_keeps reset_keeps
  verifyReset_keeps app_keeps any_keeps

text \<open>The guards that look at the acceptor keep its state, the one that asks for its data may not.\<close>

definition at :: "bill_state \<Rightarrow> bill_machine \<Rightarrow> bool" where
  "at cur sm \<longleftrightarrow> led b c L sm \<and> (cur \<noteq> jcmInitializingState \<longrightarrow> currentState sm = Some cur)"

lemma at_upd:
  assumes "at cur sm"
    "\<And>a. protocol (f a) = protocol a \<and> jcm (f a) = jcm a \<and> line (f a) = line a \<and> effects (f a) = effects a \<and>
      amountChar (f a) = amountChar a \<and> convertionTable (f a) = convertionTable a \<and> canChangeStatus (f a) = canChangeStatus a \<and>
      billAcceptNotificationFcn (f a) = billAcceptNotificationFcn a"
  shows "at cur (upd f sm)"
  using assms by (simp add: at_def led_neutral)

lemma at_trace_if: "at cur sm \<Longrightarrow> \<not> is_credit e \<Longrightarrow> at cur (trace_if q e sm)"
  by (simp add: at_def led_trace_if)

lemma guards_keep:
  assumes "at cur sm"
  shows "yields (errorDetected sm) (\<lambda>(ok, s). at cur s)" "yields (unExpectedPowerUp sm) (\<lambda>(ok, s). at cur s)"
    "yields (isNotJCMDisable sm) (\<lambda>(ok, s). at cur s)" "yields (isJCMDisable sm) (\<lambda>(ok, s). at cur s)"
    "yields (endErrorDetected sm) (\<lambda>(ok, s). at cur s)" "yields (shouldResetID003 sm) (\<lambda>(ok, s). at cur s)"
    "yields (isOnPowerUpStatus sm) (\<lambda>(ok, s). at cur s)" "yields (firmUpdatePending sm) (\<lambda>(ok, s). at cur s)"
    "yields (isReadyToTransfer sm) (\<lambda>(ok, s). at cur s)" "yields (maxTriesReached sm) (\<lambda>(ok, s). at cur s)"
  using assms
  by (auto simp: errorDetected_def unExpectedPowerUp_def isNotJCMDisable_def isJCMDisable_def endErrorDetected_def
      shouldResetID003_def isOnPowerUpStatus_def firmUpdatePending_def isReadyToTransfer_def maxTriesReached_def Let_def
      yields_iff [of "event_byte _ _"] intro!: at_upd at_trace_if)

lemma missing_keeps:
  assumes "at jcmInitializingState sm"
  shows "yields (initDataMissing run sm) (\<lambda>(ok, s). at jcmInitializingState s)"
proof -
  have led: "led b c L sm" and p: "protocol (context sm) = 0" using assms by (simp_all add: at_def led_def)
  show ?thesis using p led by (simp add: initDataMissing_def Let_def at_def write_read_keeps)
qed

text \<open>Transitions.\<close>

lemma entry_keeps:
  assumes "led b c L sm" "new \<in> id003_states" "new \<noteq> jcmReceivingBillState" "new \<noteq> jcmEnabledState" "new \<noteq> jcmDisabledState"
  shows "yields (call (entry (bill_states run new)) sm) (led b c L)"
proof -
  have s: "led b c L (upd f sm)" if "\<And>a. protocol (f a) = protocol a \<and> jcm (f a) = jcm a \<and>
      line (f a) = line a \<and> effects (f a) = effects a \<and> amountChar (f a) = amountChar a \<and>
      convertionTable (f a) = convertionTable a \<and> canChangeStatus (f a) = canChangeStatus a \<and>
      billAcceptNotificationFcn (f a) = billAcceptNotificationFcn a" for f
    using that assms(1) by (intro led_neutral)
  have init: "yields (loadInitializing run sm) (led b c L)"
    using s [of "\<lambda>a. a\<lparr>errorResetQty := 6\<rparr>"] by (simp add: loadInitializing_def Let_def bill_run_keeps)
  show ?thesis
    using assms(2-) init loadErrorState_keeps [OF assms(1)]
    by (auto simp: id003_states_def normal_states_def bill_state_of_def loadNoComm_def loadFirstStateJCM_def assms(1)
        loadStartFirmUpdate_def forget_tables_def intro!: s)
qed

lemma entry_quiet:
  assumes "led b c L sm" "new = jcmReceivingBillState \<or> new = jcmEnabledState \<or> new = jcmDisabledState"
  shows "yields (call (entry (bill_states run new)) (moved (Some new) sm)) (led b c L)"
  using assms(2)
proof (elim disjE)
  assume new: "new = jcmReceivingBillState"
  have "led b c L (upd (\<lambda>a. a\<lparr>canChangeStatus := 0\<rparr>) (moved (Some new) sm))"
    using assms(1) by (auto simp: led_def new id003_states_def normal_states_def)
  then show ?thesis by (simp add: new bill_state_of_def loadReceivingBill_def led_trace_if)
qed (use assms(1) in \<open>auto simp: bill_state_of_def loadEnable_def loadDisable_def led_def id003_states_def normal_states_def\<close>)

definition loud_ok :: "bill_state \<Rightarrow> bill_action option \<Rightarrow> bill_state \<Rightarrow> bool" where
  "loud_ok cur act new \<longleftrightarrow> new \<in> id003_states \<and> (act = None \<or> cur = new \<or>
     new \<noteq> jcmReceivingBillState \<and> new \<noteq> jcmEnabledState \<and> new \<noteq> jcmDisabledState)"

lemma fire_keeps:
  assumes at: "at cur sm" and ok: "loud_ok cur act new" and act: "\<And>s. led b c L s \<Longrightarrow> yields (call act s) (led b c L)"
  shows "yields (fire (bill_states run) cur (trans e g act new) sm) (led b c L)"
proof (cases "act = None \<and> cur \<noteq> new \<and> (new = jcmReceivingBillState \<or> new = jcmEnabledState \<or> new = jcmDisabledState)")
  case True
  with entry_quiet [of sm new] at show ?thesis by (auto simp: fire_def at_def)
next
  case False
  have new: "new \<in> id003_states" using ok by (simp add: loud_ok_def)
  have "led b c L (moved (Some new) sm)"
    using at ok False by (intro led_moved new) (auto simp: at_def loud_ok_def)
  then have "yields (call act (moved (Some new) sm)) (led b c L)" by (rule act)
  then have "yields (call act (moved (Some new) sm)) (\<lambda>s. led b c L s \<and>
      (new \<noteq> cur \<longrightarrow> yields (call (entry (bill_states run new)) s) (led b c L)))"
    by (rule yields_mono) (use False ok in \<open>auto simp: loud_ok_def intro!: entry_keeps new\<close>)
  then show ?thesis by (simp add: fire_def) (erule yields_mono, auto)
qed

abbreviation row_kept :: "int \<Rightarrow> bill_state \<Rightarrow> (bill_state, Acceptor) Transition \<Rightarrow> bool" where
  "row_kept ev cur \<equiv> row_yields ev (at cur) (\<lambda>t sm. yields (fire (bill_states run) cur t sm) (led b c L))"

lemma kept_plain:
  assumes "loud_ok cur act new" "\<And>s. led b c L s \<Longrightarrow> yields (call act s) (led b c L)"
  shows "row_kept ev cur (trans e None act new)"
  using fire_keeps [OF _ assms] by (simp add: row_yields_def)

lemma kept_guard:
  assumes "loud_ok cur act new" "\<And>s. led b c L s \<Longrightarrow> yields (call act s) (led b c L)"
    "\<And>sm. at cur sm \<Longrightarrow> yields (g sm) (\<lambda>(ok, s). at cur s)"
  shows "row_kept ev cur (trans e (Some g) act new)"
proof -
  have "yields (g sm) (\<lambda>(ok, s). if ok then yields (fire (bill_states run) cur (trans e (Some g) act new) s) (led b c L) else at cur s)"
    if "at cur sm" for sm
    by (rule yields_mono [OF assms(3) [OF that]]) (auto intro: fire_keeps assms)
  then show ?thesis by (simp add: row_yields_def)
qed

lemma tables_kept:
  assumes "cur \<in> id003_states"
  shows "list_all (row_kept ev cur) (transitions (bill_states run cur))"
proof -
  note tables = noCommStateTransitions_def jcmFirstStateTransitions_def jcmInitializingStateTransitions_def
    jcmDisabledStateTransitions_def jcmEnabledStateTransitions_def jcmReceivingBillStateTransitions_def
    jcmErrorStateTransitions_def jcmStartFirmUpdateTransitions_def jcmUpdateFirmwareTransitions_def
  have n: "yields (call None s) (led b c L)" if "led b c L s" for s using that by simp
  have a: "yields (call (Some f) s) (led b c L)" if "yields (f s) (led b c L)" for f s using that by simp
  show ?thesis
    using assms unfolding id003_states_def normal_states_def
    apply (elim UnE insertE; (elim emptyE)?)
    apply (simp_all only: bill_states.simps bill_state_of_def State.select_convs tables list_pred_simps on_def)
    apply (rule conjI TrueI kept_plain kept_guard | (simp add: loud_ok_def id003_states_def normal_states_def; fail)
      | (rule n, assumption) | (rule a, rule actions_keep, assumption) | (rule guards_keep missing_keeps, assumption))+
    done
qed

lemma exec_keeps:
  assumes "led b c L sm"
  shows "yields (executeStateMachine (bill_states run) ev sm) (led b c L)"
proof -
  obtain cur where cur: "currentState sm = Some cur" "cur \<in> id003_states" using assms by (auto simp: led_def)
  have "at cur (sm\<lparr>currentEvent := ev\<rparr>)" using assms cur(1) by (simp add: at_def)
  then show ?thesis
    by (rule execute_yields [where st = "bill_states run", OF cur(1) state_sel _ tables_kept [OF cur(2)]])
qed

end

lemma inner_keeps_bills: "inner_keeps (run_bills n) b c L"
proof (induction n)
  case 0
  show ?case by unfold_locales simp
next
  case (Suc n)
  show ?case by unfold_locales (simp add: inner_keeps.exec_keeps [OF Suc])
qed

interpretation account: inner_keeps "run_bills n" b c L for n b c L
  by (rule inner_keeps_bills)

subsection \<open>What the safe calls\<close>

lemma goto_keeps:
  assumes "led b c L sm" "new = jcmFirstState \<or> new = noCommState"
  shows "yields (gotoState (bill_states (run_bills n)) (Some new) sm) (led b c L)"
proof -
  have "led b c L (moved (Some new) sm)"
    using assms by (intro led_moved) (auto simp: id003_states_def normal_states_def)
  then have "yields (call (entry (bill_states (run_bills n) new)) (moved (Some new) sm)) (led b c L)"
    using assms(2) by (intro account.entry_keeps) (auto simp: id003_states_def normal_states_def)
  then show ?thesis by (simp add: gotoState_def moved_def Let_def)
qed

lemma setStatus_keeps:
  assumes "led b c L sm"
  shows "yields (billAcceptorSetStatus n rest s sm) (led b c L)"
proof -
  have p: "protocol (context sm) = 0" using assms by (simp add: led_def)
  have l: "led b c L (upd (\<lambda>a. a\<lparr>status := s\<rparr>) sm)" using assms by (intro led_neutral) auto
  have "yields (doEnable (run_bills n) (upd (\<lambda>a. a\<lparr>status := s\<rparr>) sm))
      (\<lambda>sm. led b c L (trace_if (statusNotificationFcn (context sm)) (StatusNotified (devId (context sm)) s) sm))"
    by (rule yields_mono [OF account.enable_keeps [OF l]]) (simp add: led_trace_if)
  moreover have "yields (doDisable (run_bills n) (upd (\<lambda>a. a\<lparr>status := s\<rparr>) sm))
      (\<lambda>sm. led b c L (trace_if (statusNotificationFcn (context sm)) (StatusNotified (devId (context sm)) s) sm))"
    by (rule yields_mono [OF account.disable_keeps [OF l]]) (simp add: led_trace_if)
  ultimately show ?thesis using p assms by (simp add: billAcceptorSetStatus_def Let_def)
qed

lemma bill_run_keeps:
  assumes "led b c L sm"
  shows "yields (billAcceptorRun n rest sm) (led b c L)"
proof (cases "currentState sm = Some noCommState")
  case False
  have p: "protocol (context sm) = 0" using assms by (simp add: led_def)
  have tail: "yields (if pendingStatus (context s) \<noteq> 0 \<and> canChangeStatus (context s) \<noteq> 0 then do {
       s \<leftarrow> billAcceptorSetStatus n rest (pendingStatus (context s)) s;
       Some (upd (\<lambda>a. a\<lparr>pendingStatus := 0\<rparr>) s)
     } else Some s) (led b c L)" if s: "led b c L s" for s
  proof -
    have "yields (billAcceptorSetStatus n rest (pendingStatus (context s)) s) (\<lambda>s. led b c L (upd (\<lambda>a. a\<lparr>pendingStatus := 0\<rparr>) s))"
      by (rule yields_mono [OF setStatus_keeps [OF s]]) (rule led_neutral, auto)
    with s show ?thesis by simp
  qed
  have "yields (billAcceptWriteRead (run_bills n) (command STATUS_CMD sm) [] sm) (\<lambda>s. yields (if pendingStatus (context s) \<noteq> 0 \<and> canChangeStatus (context s) \<noteq> 0 then do {
       s \<leftarrow> billAcceptorSetStatus n rest (pendingStatus (context s)) s;
       Some (upd (\<lambda>a. a\<lparr>pendingStatus := 0\<rparr>) s)
     } else Some s) (led b c L))"
    by (rule yields_mono [OF account.write_read_keeps [OF assms]]) (rule tail)
  with False p show ?thesis by (simp add: billAcceptorRun_def Let_def)
qed (simp add: billAcceptorRun_def assms)

lemma update_op_keeps:
  assumes "led b c L sm"
  shows "yields (billAcceptorUpdate n f bin_ok q sm) (\<lambda>(r, s). led b c L s)"
proof -
  have p: "protocol (context sm) = 0" using assms by (simp add: led_def)
  have img: "led b c L (sm\<lparr>context := (context sm)\<lparr>firmImage := i\<rparr>\<rparr>)"
    "led b c L (sm\<lparr>context := (context sm)\<lparr>firmImage := i, fileOffset := k\<rparr>\<rparr>)" for i k
    using assms by (simp_all add: led_def)
  show ?thesis
  proof (cases f)
    case None
    with p img show ?thesis by (simp add: billAcceptorUpdate_def open_image_def)
  next
    case (Some g)
    let ?s = "sm\<lparr>context := (context sm)\<lparr>firmImage := Some g, fileOffset := 0\<rparr>\<rparr>"
    have u: "led b c L (upd h ?s)" if "\<And>a. protocol (h a) = protocol a \<and> jcm (h a) = jcm a \<and> line (h a) = line a \<and>
        effects (h a) = effects a \<and> amountChar (h a) = amountChar a \<and> convertionTable (h a) = convertionTable a \<and>
        canChangeStatus (h a) = canChangeStatus a \<and> billAcceptNotificationFcn (h a) = billAcceptNotificationFcn a" for h
      using that img by (intro led_neutral)
    have e: "yields (executeStateMachine (bill_states (run_bills n)) ev s) (led b c L)" if "led b c L s" for s ev
      using that by (rule account.exec_keeps)
    from Some p show ?thesis
      by (auto simp: billAcceptorUpdate_def open_image_def Let_def intro!: e u led_neutral img)
  qed
qed

lemma disable_first_amounts: "list_all (\<lambda>d. 0 \<le> amount d) ds \<Longrightarrow> list_all (\<lambda>d. 0 \<le> amount d) (disable_first x dis ds)"
  by (induction ds) auto

lemma denominations_keep: "led b c L sm \<Longrightarrow> led b c L (billAcceptorSetDenomination am dis sm)"
proof -
  assume l: "led b c L sm"
  have "list_all (\<lambda>d. 0 \<le> amount d) (disable_first x dis (take 8 t) @ drop 8 t)" if "list_all (\<lambda>d. 0 \<le> amount d) t" for x t
  proof -
    have "list_all (\<lambda>d. 0 \<le> amount d) (take 8 t)" "list_all (\<lambda>d. 0 \<le> amount d) (drop 8 t)"
      using that by (auto simp: list_all_iff dest: in_set_takeD in_set_dropD)
    then show ?thesis by (simp add: disable_first_amounts)
  qed
  with l show ?thesis by (auto simp: billAcceptorSetDenomination_def led_def account_def balanced_def)
qed

end
