(* ===== verification/Jcm_Bills_Props.thy ===== *)
theory Jcm_Bills_Props
  imports Jcm_Ledger
begin

text \<open>
  Correctness of the ID003 acceptor under every sequence of calls of the safe and every conversation
  with the device, and the places where the runs inside transitions show.
\<close>

subsection \<open>Sequences of calls\<close>

lemma do_op_keeps: "led b c L sm \<Longrightarrow> yields (do_op n rest op sm) (led b c L)"
proof (cases op)
  case Poll
  assume "led b c L sm"
  with Poll show ?thesis by (simp add: bill_run_keeps)
next
  case (UpdateFirmware f bin_ok q)
  assume "led b c L sm"
  from update_op_keeps [OF this, of n f bin_ok q] UpdateFirmware show ?thesis
    by (cases "billAcceptorUpdate n f bin_ok q sm") auto
next
  case (Communicate en)
  assume l: "led b c L sm"
  have p: "protocol (context sm) = 0" using l by (simp add: led_def)
  have s: "led b c L (upd (\<lambda>a. a\<lparr>cheatedLeaveApp := 0\<rparr>) s)" if "led b c L s" for s
    using that by (intro led_neutral) auto
  have "yields (gotoState (bill_states (run_bills 0)) (Some noCommState) sm) (\<lambda>s. led b c L (upd (\<lambda>a. a\<lparr>cheatedLeaveApp := 0\<rparr>) s))"
    by (rule yields_mono [OF goto_keeps [OF l]]) (simp_all add: s)
  with Communicate p goto_keeps [OF l, of jcmFirstState n] show ?thesis
    by (simp add: billAcceptorCommunicatStat_def billAcceptorStart_def billAcceptorStop_def)
qed (auto simp: billAcceptorChangeStatus_def denominations_keep intro!: led_neutral)

lemma do_ops_keep: "led b c L sm \<Longrightarrow> yields (do_ops n rest ops sm) (led b c L)"
proof (induction ops arbitrary: sm)
  case (Cons op ops)
  have "yields (do_op n rest op sm) (\<lambda>s. yields (do_ops n rest ops s) (led b c L))"
    by (rule yields_mono [OF do_op_keeps [OF Cons.prems]]) (rule Cons.IH)
  then show ?case by simp
qed simp

text \<open>Calls that do not update the firmware keep an acceptor well formed.\<close>

definition routine :: "bill_op \<Rightarrow> bool" where
  "routine op \<longleftrightarrow> (case op of UpdateFirmware _ _ _ \<Rightarrow> False | _ \<Rightarrow> True)"

lemma bills_ok_upd:
  assumes "bills_ok sm" "\<And>a. acc_ok a \<Longrightarrow> acc_ok (f a)"
  shows "bills_ok (upd f sm)"
  using assms by (simp add: bills_ok_def)

lemma setStatus_ok:
  assumes ok: "bills_ok sm" and n: "length (line (context sm)) + 1 \<le> n"
  shows "ensures (billAcceptorSetStatus n rest s sm) bills_ok"
proof -
  let ?s = "upd (\<lambda>a. a\<lparr>status := s\<rparr>) sm"
  have p: "protocol (context sm) = 0" using ok by (simp add: bills_ok_def acc_ok_def)
  have s: "bills_ok ?s" using ok by (intro bills_ok_upd) simp_all
  have t: "bills_ok (trace_if q e s)" if "bills_ok s" for q e s using that by (simp add: bills_ok_def)
  have "ensures (doEnable (run_bills n) ?s) (\<lambda>sm. bills_ok (trace_if (statusNotificationFcn (context sm)) (StatusNotified (devId (context sm)) s) sm))"
    by (rule ensures_mono [OF bills.doEnable_ok [OF s]]) (simp_all add: n [simplified] t)
  moreover have "ensures (doDisable (run_bills n) ?s) (\<lambda>sm. bills_ok (trace_if (statusNotificationFcn (context sm)) (StatusNotified (devId (context sm)) s) sm))"
    by (rule ensures_mono [OF bills.doDisable_ok [OF s]]) (simp_all add: n [simplified] t)
  ultimately show ?thesis using p ok by (simp add: billAcceptorSetStatus_def Let_def)
qed

lemma led_of_ok: "bills_ok sm \<Longrightarrow> length (line (context sm)) \<le> L \<Longrightarrow> led False 0 L sm"
  by (auto simp: led_def bills_ok_def acc_ok_def id003_states_def)

lemma run_ok:
  assumes ok: "bills_ok sm" and n: "length (line (context sm)) + 1 \<le> n"
  shows "ensures (billAcceptorRun n rest sm) bills_ok"
proof (cases "currentState sm = Some noCommState")
  case False
  have p: "protocol (context sm) = 0" using ok by (simp add: bills_ok_def acc_ok_def)
  have wr: "ensures (billAcceptWriteRead (run_bills n) (command STATUS_CMD sm) [] sm) bills_ok"
    using ok n by (intro bills.write_read_ok) simp_all
  have "yields (billAcceptWriteRead (run_bills n) (command STATUS_CMD sm) [] sm) (led False 0 (length (line (context sm))))"
    by (rule account.write_read_keeps) (rule led_of_ok [OF ok], simp)
  with wr have "ensures (billAcceptWriteRead (run_bills n) (command STATUS_CMD sm) [] sm)
      (\<lambda>s. bills_ok s \<and> length (line (context s)) + 1 \<le> n)"
    using n by (auto simp: ensures_iff led_def)
  then have "ensures (billAcceptWriteRead (run_bills n) (command STATUS_CMD sm) [] sm) (\<lambda>s. ensures
      (if pendingStatus (context s) \<noteq> 0 \<and> canChangeStatus (context s) \<noteq> 0 then do {
         s \<leftarrow> billAcceptorSetStatus n rest (pendingStatus (context s)) s;
         Some (upd (\<lambda>a. a\<lparr>pendingStatus := 0\<rparr>) s)
       } else Some s) bills_ok)"
  proof (rule ensures_mono)
    fix s assume s: "bills_ok s \<and> length (line (context s)) + 1 \<le> n"
    then have "ensures (billAcceptorSetStatus n rest (pendingStatus (context s)) s) (\<lambda>s. bills_ok (upd (\<lambda>a. a\<lparr>pendingStatus := 0\<rparr>) s))"
      by (intro ensures_mono [OF setStatus_ok]) (auto intro: bills_ok_upd)
    with s show "ensures (if pendingStatus (context s) \<noteq> 0 \<and> canChangeStatus (context s) \<noteq> 0 then do {
         s \<leftarrow> billAcceptorSetStatus n rest (pendingStatus (context s)) s;
         Some (upd (\<lambda>a. a\<lparr>pendingStatus := 0\<rparr>) s)
       } else Some s) bills_ok" by simp
  qed
  with False p show ?thesis by (simp add: billAcceptorRun_def Let_def)
qed (simp add: billAcceptorRun_def ok)

lemma goto_ok:
  assumes "bills_ok sm" "new = jcmFirstState \<or> new = noCommState"
  shows "ensures (gotoState (bill_states (run_bills n)) (Some new) sm) bills_ok"
proof -
  have n: "new \<in> normal_states" using assms(2) by (auto simp: normal_states_def)
  have "bills_ok (moved (Some new) sm)" using assms(1) n by (simp add: bills_ok_def)
  from bills.entry_ok [OF this n] show ?thesis by (simp add: gotoState_def moved_def Let_def)
qed

lemma length_disable_first [simp]: "length (disable_first x dis ds) = length ds"
  by (induction ds) auto

lemma do_op_ok:
  assumes "bills_ok sm" "length (line (context sm)) + 1 \<le> n" "routine op"
  shows "ensures (do_op n rest op sm) bills_ok"
proof (cases op)
  case Poll
  with run_ok [OF assms(1,2)] show ?thesis by simp
next
  case (Communicate en)
  have p: "protocol (context sm) = 0" using assms(1) by (simp add: bills_ok_def acc_ok_def)
  have "acc_ok (a\<lparr>cheatedLeaveApp := 0\<rparr>) \<longleftrightarrow> acc_ok a" for a by (simp add: acc_ok_def)
  then have "ensures (gotoState (bill_states (run_bills 0)) (Some noCommState) sm) (\<lambda>s. bills_ok (upd (\<lambda>a. a\<lparr>cheatedLeaveApp := 0\<rparr>) s))"
    by (intro ensures_mono [OF goto_ok [OF assms(1)]] bills_ok_upd) simp_all
  with Communicate p goto_ok [OF assms(1), of jcmFirstState n] show ?thesis
    by (simp add: billAcceptorCommunicatStat_def billAcceptorStart_def billAcceptorStop_def)
next
  case (SetDenomination am dis)
  with assms(1) show ?thesis by (auto simp: billAcceptorSetDenomination_def acc_ok_def intro!: bills_ok_upd)
next
  case PermitReset
  with assms(1) show ?thesis by (auto simp: acc_ok_def intro!: bills_ok_upd)
next
  case (ChangeStatus s)
  with assms(1) show ?thesis by (auto simp: billAcceptorChangeStatus_def intro!: bills_ok_upd)
qed (use assms(3) in \<open>simp add: routine_def\<close>)

lemma do_ops_ok:
  assumes "bills_ok sm" "length (line (context sm)) + 1 \<le> n" "list_all routine ops"
  shows "ensures (do_ops n rest ops sm) bills_ok"
  using assms
proof (induction ops arbitrary: sm)
  case (Cons op ops)
  have "ensures (do_op n rest op sm) bills_ok" using Cons.prems by (intro do_op_ok) simp_all
  moreover have "yields (do_op n rest op sm) (led False 0 (length (line (context sm))))"
    by (rule do_op_keeps) (rule led_of_ok [OF Cons.prems(1)], simp)
  ultimately have "ensures (do_op n rest op sm) (\<lambda>s. bills_ok s \<and> length (line (context s)) + 1 \<le> n)"
    using Cons.prems(2) by (auto simp: ensures_iff led_def)
  then have "ensures (do_op n rest op sm) (\<lambda>s. ensures (do_ops n rest ops s) bills_ok)"
    by (rule ensures_mono) (use Cons in simp)
  then show ?case by simp
qed simp

subsection \<open>Replies\<close>

text \<open>What the line delivers when the device \<open>dev\<close> answers with a status and its data.\<close>

definition answer :: "byte \<Rightarrow> byte \<Rightarrow> byte list \<Rightarrow> byte list option" where
  "answer dev ev data = Some ([dev, 0, 0, 0] @ id003_frame ev data @ [0])"

text \<open>The bytes behind the data: the checksum and what the line delivered after the frame.\<close>

definition behind :: "byte \<Rightarrow> byte list \<Rightarrow> byte list" where
  "behind ev data = drop (length data + 3) (id003_frame ev data) @ [0]"

lemma read_answer:
  assumes "length data \<le> 250"
  shows "jcmRead (answer dev ev data) 0 =
    Some \<lparr>dev_out = Some dev, cmdDataLen = Some (int (length data)), reply = Some (ev # data @ behind ev data)\<rparr>"
proof -
  let ?h = "[dev, 0, 0, 0] :: byte list" let ?f = "id003_frame ev data"
  have "block_at (?h @ ?f @ [0]) 4 = Some 0xFC"
    using block_at_inside [of 4 ?h "0xFC"] by (simp add: id003_frame_def with_crc_def)
  moreover note read_with_crc [of ?h "[0xFC, word_of_int (5 + int (length data)), ev] @ data" 1 2 "[0]" 5]
  ultimately show ?thesis
    using assms by (simp add: jcmRead_def answer_def behind_def id003_frame_def numeral_eq_Suc add.commute)
qed

lemma length_id003_frame [simp]: "length (id003_frame cmd data) = length data + 5"
  by (simp add: id003_frame_def)

text \<open>An exchange that is answered: the machine on which the inner run starts.\<close>

definition told :: "byte \<Rightarrow> byte list \<Rightarrow> byte \<Rightarrow> byte list \<Rightarrow> bill_machine \<Rightarrow> bill_machine" where
  "told cmd out ev data sm = upd (\<lambda>a. a\<lparr>line := tl (line a), dataLenEvt := int (length data),
     event := ev, dataEvPtr := Some (data @ behind ev data), commErrQty := 0\<rparr>) (after_send cmd out sm)"

lemma write_read_answer:
  assumes p: "protocol (context sm) = ID003" "length (sendBuf (jcm (context sm))) = 570" "length out \<le> 565"
    and l: "line (context sm) = answer (devId (context sm)) ev data # bs" "length data \<le> 250"
  shows "billAcceptWriteRead run cmd out sm = run (uint ev) (told cmd out ev data sm)"
proof -
  let ?s = "after_send cmd out sm"
  have s: "protocol (context ?s) = 0" "line (context ?s) = line (context sm)" "devId (context ?s) = devId (context sm)"
    using p(1) by (simp_all add: after_send_def Let_def)
  have rec: "receive ?s = Some (True, upd (\<lambda>a. a\<lparr>line := tl (line a), dataEvPtr := Some (ev # data @ behind ev data),
      dataLenEvt := int (length data)\<rparr>) ?s)"
    using s l read_answer [OF l(2), of "devId (context sm)" ev] by (simp add: receive_def next_block_def Let_def upd_def)
  show ?thesis
    using p s by (simp add: billAcceptWriteRead_def send_id003 [OF p] rec reply_event_def first_byte_event_def event_byte_def
        block_at_nth told_def upd_def Let_def)
qed

lemma told_simps [simp]:
  "currentState (told cmd out ev data sm) = currentState sm" "event (context (told cmd out ev data sm)) = ev"
  "protocol (context (told cmd out ev data sm)) = protocol (context sm)"
  "dataEvPtr (context (told cmd out ev data sm)) = Some (data @ behind ev data)"
  "dataLenEvt (context (told cmd out ev data sm)) = int (length data)"
  "line (context (told cmd out ev data sm)) = tl (line (context sm))"
  "devId (context (told cmd out ev data sm)) = devId (context sm)"
  "effects (context (told cmd out ev data sm)) =
     effects (context sm) @ [SentFrame (devId (context sm)) (id003_frame cmd out)]"
  by (simp_all add: told_def after_send_def Let_def)

lemma block_ok_answer:
  assumes "length data \<le> 250" "data_ok ev (int (length data)) (data @ behind ev data)"
  shows "block_ok dev n0 (answer dev ev data)"
  using assms by (simp add: block_ok_def read_answer)

text \<open>An acceptor of which one denomination is known, in communication and enabled.\<close>

definition sample_acceptor :: "byte list option list \<Rightarrow> Acceptor" where
  "sample_acceptor bs = \<lparr>statusNotificationFcn = True, acceptingNotificationFcn = True, billRejectNotificationFcn = True,
     billAcceptNotificationFcn = True, commErrorNotificationFcn = True, firmwareUpdateProgress = True,
     status = JCM_ENABLE, pendingStatus = 0, canChangeStatus = 1, event = 0, dataLenEvt = 0, dataEvPtr = None,
     amountChar = -1, currencyId = 0, lastRejectCause = 0, errorCause = 0, errorAditInfo = 0,
     convertionTable = \<lparr>amount = 100, disabled = 0, den_countryCode = 14, countryStr = replicate 4 0, den_currencyId = 32\<rparr>
       # replicate 25 no_denomination,
     billTableLoaded = 1, countryCode = 32, jcmVersion = 0x31 # replicate 49 0, devId = 0, errorResetQty = 0, resetSentQty = 0,
     commErrQty = 0, canResetVal = 1, appNotifPowerUpBill = 0, protocol = ID003, firmImage = None, offsetTransfer = 0,
     blockSize = 0, fileOffset = 0, qtyInvalidCmd = 0, frameSize = 0, framesQty = 0, framesQtyRefreshProgress = 1,
     fileSize = 0, imageCrc = 0, qtySentWithAck = 0, firmwFrame = replicate 600 0, cheatedLeaveApp = 0, jcm = jcm_init,
     line = bs, currencies = \<lparr>curconfig = None, fpCurrencies = False, creatable = True, jcm_data = replicate 12 0,
       cash_data = replicate 12 0, iso_data = replicate 12 0\<rparr>, effects = []\<rparr>"

definition sample_machine :: "bill_state \<Rightarrow> byte list option list \<Rightarrow> bill_machine" where
  "sample_machine st bs = newStateMachine (Some st) (sample_acceptor bs) 0"

lemma sample_ok: "st \<in> normal_states \<Longrightarrow> line_ok 0 bs \<Longrightarrow> bills_ok (sample_machine st bs)"
  by (simp add: bills_ok_def sample_machine_def newStateMachine_def acc_ok_def sample_acceptor_def jcm_init_def cur_ok_def)

subsection \<open>Normal operation\<close>

text \<open>C2. The acceptor never fails in normal operation. Take an acceptor of protocol ID003 in any state
but those of a firmware update, a conversation whose blocks, if they are accepted at all, carry the
data their status needs (and never the code 1, which the program uses for its own order to update),
and any sequence of polls, changes of status, denominations and communication, the line being silent
when the conversation is over. Then every run of the state machine inside the transitions of another
is defined, with no more nested runs than the blocks of the conversation and one, no access is out of
bounds, and the acceptor stays well formed and in its normal states.\<close>

theorem bills_defined:
  assumes "bills_ok sm" "length (line (context sm)) < n" "list_all routine ops"
  shows "\<exists>sm'. do_ops n rest ops sm = Some sm' \<and> bills_ok sm'"
  using do_ops_ok [OF assms(1) _ assms(3), of n rest] assms(2) by (simp add: ensures_iff)

lemma sample_answers:
  "line_ok 0 [answer 0 ID003_DISABLED [], None, answer 0 ID003_ESCROW [0x61]]"
  by (auto simp: line_ok_def data_ok_def intro!: block_ok_answer) (simp add: block_ok_def jcmRead_def no_reply_def)

lemma bills_defined_witness:
  "\<exists>sm'. do_ops 4 Some [ChangeStatus JCM_DISABLE, Poll, Communicate True, Poll]
     (sample_machine jcmEnabledState [answer 0 ID003_DISABLED [], None, answer 0 ID003_ESCROW [0x61]]) = Some sm' \<and> bills_ok sm'"
proof (rule bills_defined)
  show "bills_ok (sample_machine jcmEnabledState [answer 0 ID003_DISABLED [], None, answer 0 ID003_ESCROW [0x61]])"
    using sample_answers by (intro sample_ok) (simp_all add: normal_states_def)
qed (simp_all add: sample_machine_def newStateMachine_def sample_acceptor_def routine_def)

text \<open>C1. No bill is credited and kept without the order to stack one. Whatever the device answers, in
every state, firmware updates included, and for every sequence of calls that returns: of the bills
credited to the application since the start, those that are not ordered back by the very next thing
the acceptor does are at most the orders to stack a bill, and one more if a bill was in hand
(\<open>amountChar\<close> other than -1) at the start. Every credit is of one bill and of a whole number of units,
never negative. And while a bill is being received, the status that the application asked for is not
taken over. A bill that is only validated is credited and ordered back at once, so it is not counted.\<close>

theorem bills_account:
  assumes "currentState sm \<in> Some ` id003_states" "protocol (context sm) = ID003"
    "length (sendBuf (jcm (context sm))) = 570" "list_all (\<lambda>d. 0 \<le> amount d) (convertionTable (context sm))"
    "amountChar (context sm) = -1 \<or> whole (amountChar (context sm))" "effects (context sm) = []"
    "currentState sm = Some jcmReceivingBillState \<longrightarrow> canChangeStatus (context sm) = 0"
    "do_ops n rest ops sm = Some sm'"
  shows "kept (effects (context sm')) \<le> stacked (effects (context sm')) + in_hand (amountChar (context sm)) \<and>
    list_all credit_whole (effects (context sm')) \<and>
    (currentState sm' = Some jcmReceivingBillState \<longrightarrow> canChangeStatus (context sm') = 0)"
proof -
  let ?c = "in_hand (amountChar (context sm))"
  have "led True ?c (length (line (context sm))) sm"
    using assms(1-7) by (simp add: led_def account_def balanced_def in_hand_def)
  from yields_some [OF assms(8) do_ops_keep [OF this]] show ?thesis
    by (auto simp: led_def account_def balanced_def)
qed

lemma bills_account_witness:
  "\<exists>sm'. do_ops 3 Some [Poll] (sample_machine jcmEnabledState []) = Some sm' \<and>
     kept (effects (context sm')) \<le> stacked (effects (context sm')) + in_hand (amountChar (context (sample_machine jcmEnabledState []))) \<and>
     list_all credit_whole (effects (context sm')) \<and>
     (currentState sm' = Some jcmReceivingBillState \<longrightarrow> canChangeStatus (context sm') = 0)"
proof -
  let ?s = "sample_machine jcmEnabledState []"
  have ok: "bills_ok ?s" by (rule sample_ok) (simp_all add: normal_states_def line_ok_def)
  then obtain sm' where r: "do_ops 3 Some [Poll] ?s = Some sm'"
    using do_ops_ok [of ?s 3 "[Poll]" Some]
    by (auto simp: ensures_iff routine_def sample_machine_def newStateMachine_def sample_acceptor_def)
  have "kept (effects (context sm')) \<le> stacked (effects (context sm')) + in_hand (amountChar (context ?s)) \<and>
     list_all credit_whole (effects (context sm')) \<and>
     (currentState sm' = Some jcmReceivingBillState \<longrightarrow> canChangeStatus (context sm') = 0)"
    by (rule bills_account [OF _ _ _ _ _ _ _ r])
       (simp_all add: sample_machine_def newStateMachine_def sample_acceptor_def jcm_init_def id003_states_def normal_states_def
          no_denomination_def list_all_iff)
  with r show ?thesis by blast
qed

subsection \<open>A bill from escrow to the application\<close>

lemma run_step: "currentState sm = Some cur \<Longrightarrow> run_bills (Suc n) ev sm =
    do { (t, sm) \<leftarrow> find_transition ev (transitions (bill_states (run_bills n) cur)) (sm\<lparr>currentEvent := ev\<rparr>);
         fire (bill_states (run_bills n)) cur t sm }"
  by (simp add: execute_fire [where st = "bill_states (run_bills n)", OF _ state_sel])

lemma on_all_sel [simp]: "action (on e g act new) = act" "nextState (on e g act new) = Some new"
  by (simp_all add: on_def)

lemmas table_defs = bill_states.simps bill_state_of_def State.select_convs jcmInitializingStateTransitions_def
  jcmDisabledStateTransitions_def jcmEnabledStateTransitions_def jcmReceivingBillStateTransitions_def
  jcmErrorStateTransitions_def jcmStartFirmUpdateTransitions_def jcmUpdateFirmwareTransitions_def

lemmas code_defs = ID003_UPDATE_FIRM_def ID003_INITIALIZING_def ID003_REJECTING_def ID003_ESCROW_def ID003_ACCEPTING_def
  ID003_VEND_VALID_def ID003_STACKED_def ID003_IDLING_def ID003_DISABLED_def downloadStatusCmd_def downloadEndStatusCmd_def
  ID003_POWER_UP_def ID003_COMM_ERROR_def

lemmas search = run_step table_defs find_on find_any code_defs option.case Option.bind.simps prod.case if_True if_False
  simp_thms

text \<open>The machine of a transition that is about to act.\<close>

definition going :: "int \<Rightarrow> bill_state \<Rightarrow> bill_machine \<Rightarrow> bill_machine" where
  "going ev new sm = moved (Some new) (sm\<lparr>currentEvent := ev\<rparr>)"

lemma going_simps [simp]: "currentState (going ev new sm) = Some new" "context (going ev new sm) = context sm"
  by (simp_all add: going_def)

lemma enabled_escrow:
  fixes e :: byte
  assumes "currentState sm = Some jcmEnabledState" "event (context sm) = e" "e = 0x13" "status (context sm) \<noteq> JCM_DISABLE"
  shows "run_bills (Suc n) (uint e) sm = loadReceivingBill (going (uint e) jcmReceivingBillState sm)"
proof -
  have ne: "0x01 \<noteq> e" "0x17 \<noteq> e" "0x1A \<noteq> e" "0x13 = e" by (simp_all add: assms(3))
  let ?s = "sm\<lparr>currentEvent := uint e\<rparr>"
  have g: "errorDetected ?s = Some (False, ?s)" "isJCMDisable ?s = Some (False, ?s)" "unExpectedPowerUp ?s = Some (False, ?s)"
    using assms by (simp_all add: errorDetected_def isJCMDisable_def unExpectedPowerUp_def Let_def)
  show ?thesis
    by (simp only: search assms(1) ne g) (simp add: fire_def going_def bill_state_of_def)
qed

lemma receiving_escrow:
  fixes e :: byte
  assumes "currentState sm = Some jcmReceivingBillState" "e = 0x13"
  shows "run_bills (Suc n) (uint e) sm = sendStackID003 (run_bills n) (going (uint e) jcmReceivingBillState sm)"
proof -
  have ne: "0x13 = e" by (simp add: assms(2))
  show ?thesis by (simp only: search assms(1) ne) (simp add: fire_def going_def bill_state_of_def)
qed

lemma receiving_vend:
  fixes e :: byte
  assumes "currentState sm = Some jcmReceivingBillState" "e = 0x15"
  shows "run_bills (Suc n) (uint e) sm = sendVendValidNotification (going (uint e) jcmReceivingBillState sm)"
proof -
  have ne: "0x13 \<noteq> e" "0x15 = e" by (simp_all add: assms(2))
  show ?thesis by (simp only: search assms(1) ne) (simp add: fire_def going_def bill_state_of_def)
qed

text \<open>A status of no row, like the acknowledgement of a command.\<close>

lemma receiving_other:
  fixes e :: byte
  assumes "currentState sm = Some jcmReceivingBillState" "event (context sm) = e" "e = 0x50"
  shows "run_bills (Suc n) (uint e) sm = Some (going (uint e) jcmReceivingBillState sm)"
proof -
  have ne: "0x13 \<noteq> e" "0x15 \<noteq> e" "0x17 \<noteq> e" "0x16 \<noteq> e" "0x11 \<noteq> e" by (simp_all add: assms(3))
  let ?s = "sm\<lparr>currentEvent := uint e\<rparr>"
  have g: "errorDetected ?s = Some (False, ?s)" "unExpectedPowerUp ?s = Some (False, ?s)"
    using assms by (simp_all add: errorDetected_def unExpectedPowerUp_def Let_def)
  show ?thesis by (simp only: search assms(1) ne g) (simp add: fire_def going_def bill_state_of_def)
qed

lemma sendBuf_told [simp]:
  "length (sendBuf (jcm (context sm))) = 570 \<Longrightarrow> length out \<le> 565 \<Longrightarrow>
     length (sendBuf (jcm (context (told cmd out ev data sm)))) = 570"
  by (simp add: told_def after_send_def Let_def sent_def id003_frame_def)

lemma told_keeps [simp]:
  "status (context (told cmd out ev data sm)) = status (context sm)"
  "convertionTable (context (told cmd out ev data sm)) = convertionTable (context sm)"
  "pendingStatus (context (told cmd out ev data sm)) = pendingStatus (context sm)"
  "amountChar (context (told cmd out ev data sm)) = amountChar (context sm)"
  "currencyId (context (told cmd out ev data sm)) = currencyId (context sm)"
  "billAcceptNotificationFcn (context (told cmd out ev data sm)) = billAcceptNotificationFcn (context sm)"
  "acceptingNotificationFcn (context (told cmd out ev data sm)) = acceptingNotificationFcn (context sm)"
  by (simp_all add: told_def after_send_def Let_def)

lemma codes: "protocol (context sm) = 0 \<Longrightarrow> command 3 sm = 0x11" "protocol (context sm) = 0 \<Longrightarrow> command 0 sm = 0x50"
  "protocol (context sm) = 0 \<Longrightarrow> command 6 sm = 0x8A" "protocol (context sm) = 0 \<Longrightarrow> command 7 sm = 0x88"
  "protocol (context sm) = 0 \<Longrightarrow> command 9 sm = 0xD1" "protocol (context sm) = 0 \<Longrightarrow> command 10 sm = 0xD2"
  by (simp_all add: command_def getCommandCode_def cmdsTable_def)

text \<open>A poll of a machine in communication, with no status to be taken over.\<close>

lemma poll_answer:
  assumes "currentState sm = Some st" "st \<noteq> noCommState" "protocol (context sm) = ID003"
    "length (sendBuf (jcm (context sm))) = 570" "line (context sm) = answer (devId (context sm)) ev data # bs"
    "length data \<le> 250" "run_bills n (uint ev) (told 0x11 [] ev data sm) = Some sm'" "pendingStatus (context sm') = 0"
  shows "do_op n rest Poll sm = Some sm'"
  using assms write_read_answer [OF assms(3,4) _ assms(5,6), where out = "[]" and run = "run_bills n" and cmd = "0x11"]
  by (simp add: billAcceptorRun_def codes Let_def)

text \<open>The machine is ready for the next exchange.\<close>

definition ready :: "byte \<Rightarrow> bill_machine \<Rightarrow> bool" where
  "ready dev sm \<longleftrightarrow> protocol (context sm) = ID003 \<and> length (sendBuf (jcm (context sm))) = 570 \<and>
     devId (context sm) = dev \<and> pendingStatus (context sm) = 0"

text \<open>The row of the table for an escrow code.\<close>

definition escrow_row :: "Acceptor \<Rightarrow> byte \<Rightarrow> JCMDenomination option" where
  "escrow_row a b = denomination a (uint (b - 0x61))"

lemma denomination_same: "convertionTable a = convertionTable a' \<Longrightarrow> denomination a i = denomination a' i"
  by (simp add: denomination_def)

lemma in_communication:
  "jcmEnabledState \<noteq> noCommState" "jcmReceivingBillState \<noteq> noCommState"
  "jcmUpdateFirmware \<noteq> noCommState"
  by simp_all

lemma poll_enabled_escrow:
  assumes "ready dev sm" "currentState sm = Some jcmEnabledState" "status (context sm) = JCM_ENABLE"
    "line (context sm) = answer dev ID003_ESCROW [b] # bs"
  shows "\<exists>sm'. do_op (Suc n) rest Poll sm = Some sm' \<and> ready dev sm' \<and> currentState sm' = Some jcmReceivingBillState \<and>
    line (context sm') = bs \<and> status (context sm') = JCM_ENABLE \<and> convertionTable (context sm') = convertionTable (context sm) \<and>
    billAcceptNotificationFcn (context sm') = billAcceptNotificationFcn (context sm) \<and>
    effects (context sm') = effects (context sm) @ [SentFrame dev (id003_frame 0x11 [])] @
      (if acceptingNotificationFcn (context sm) then [AcceptingNotified dev ID003_ACCEPTING] else [])"
proof -
  let ?t = "told 0x11 [] 0x13 [b] sm"
  obtain sm' where sm': "loadReceivingBill (going (uint (0x13 :: byte)) jcmReceivingBillState ?t) = Some sm'"
    by (simp add: loadReceivingBill_def Let_def)
  have run: "run_bills (Suc n) (uint (0x13 :: byte)) ?t = Some sm'"
    using enabled_escrow [of ?t "0x13" n] assms sm' by (simp add: ready_def del: uint_numeral)
  have r: "ready dev sm'" "currentState sm' = Some jcmReceivingBillState" "line (context sm') = bs" "status (context sm') = JCM_ENABLE"
    "convertionTable (context sm') = convertionTable (context sm)"
    "billAcceptNotificationFcn (context sm') = billAcceptNotificationFcn (context sm)"
    "effects (context sm') = effects (context sm) @ [SentFrame dev (id003_frame 0x11 [])] @
      (if acceptingNotificationFcn (context sm) then [AcceptingNotified dev ID003_ACCEPTING] else [])"
    using sm' assms
    by (cases "acceptingNotificationFcn (context sm)"; auto simp: loadReceivingBill_def Let_def ready_def trace_if_def)+
  have "do_op (Suc n) rest Poll sm = Some sm'"
    by (rule poll_answer [OF assms(2) in_communication(1) _ _ _ _ run]) (use assms r(1) in \<open>simp_all add: ready_def\<close>)
  with r show ?thesis by blast
qed

lemma poll_receiving_escrow:
  assumes "ready dev sm" "currentState sm = Some jcmReceivingBillState" "status (context sm) = JCM_ENABLE"
    "line (context sm) = answer dev ID003_ESCROW [b] # answer dev 0x50 [] # bs"
    "escrow_row (context sm) b = Some d" "0 < amount d" "\<not> billDisabled d"
  shows "\<exists>sm'. do_op (Suc (Suc n)) rest Poll sm = Some sm' \<and> ready dev sm' \<and> currentState sm' = Some jcmReceivingBillState \<and>
    line (context sm') = bs \<and> amountChar (context sm') = amount d * MultipApp \<and> currencyId (context sm') = den_currencyId d \<and>
    billAcceptNotificationFcn (context sm') = billAcceptNotificationFcn (context sm) \<and>
    effects (context sm') = effects (context sm) @ [SentFrame dev (id003_frame 0x11 []), SentFrame dev (id003_frame 0x42 [])]"
proof -
  let ?t = "going (uint (0x13 :: byte)) jcmReceivingBillState (told 0x11 [] 0x13 [b] sm)"
  let ?u = "?t\<lparr>context := (context ?t)\<lparr>amountChar := amount d * MultipApp, currencyId := den_currencyId d\<rparr>\<rparr>"
  let ?v = "told 0x42 [] 0x50 [] ?u"
  have t: "protocol (context ?t) = 0" "length (sendBuf (jcm (context ?t))) = 570" "devId (context ?t) = dev"
    "line (context ?t) = answer dev 0x50 [] # bs" "event_byte 0 (context ?t) = Some b" "status (context ?t) = JCM_ENABLE"
    "denomination (context ?t) (uint (b - 0x61)) = Some d"
    using assms denomination_same [of "context ?t" "context sm" "uint (b - 0x61)"]
    by (simp_all add: ready_def event_byte_def block_at_nth escrow_row_def)
  have "billAcceptWriteRead (run_bills (Suc n)) 0x42 [] ?u = run_bills (Suc n) (uint (0x50 :: byte)) ?v"
    using t by (intro write_read_answer [where bs = bs]) simp_all
  also have "\<dots> = Some (going (uint (0x50 :: byte)) jcmReceivingBillState ?v)"
    by (rule receiving_other) simp_all
  finally have wr: "billAcceptWriteRead (run_bills (Suc n)) 0x42 [] ?u = Some (going (uint (0x50 :: byte)) jcmReceivingBillState ?v)" .
  let ?r = "upd (\<lambda>a. a\<lparr>resetSentQty := 0\<rparr>) (going (uint (0x50 :: byte)) jcmReceivingBillState ?v)"
  have "sendStackID003 (run_bills (Suc n)) ?t = Some ?r"
    using t wr assms(6,7) by (simp add: sendStackID003_def stack_or_return_def bill_in_hand_def account.order_codes Let_def)
  then have run: "run_bills (Suc (Suc n)) (uint (0x13 :: byte)) (told 0x11 [] 0x13 [b] sm) = Some ?r"
    using receiving_escrow [of "told 0x11 [] 0x13 [b] sm" "0x13" "Suc n"] assms(2) by simp
  have r: "ready dev ?r" using assms(1) by (simp add: ready_def)
  have "do_op (Suc (Suc n)) rest Poll sm = Some ?r"
    by (rule poll_answer [OF assms(2) in_communication(2) _ _ _ _ run]) (use assms r in \<open>simp_all add: ready_def\<close>)
  with r assms show ?thesis by (intro exI [of _ ?r]) (simp add: ready_def)
qed

lemma poll_vend_valid:
  assumes "ready dev sm" "currentState sm = Some jcmReceivingBillState"
    "line (context sm) = answer dev ID003_VEND_VALID [] # bs" "billAcceptNotificationFcn (context sm)" "amountChar (context sm) \<noteq> -1"
  shows "\<exists>sm'. do_op (Suc n) rest Poll sm = Some sm' \<and> ready dev sm' \<and> currentState sm' = Some jcmReceivingBillState \<and>
    line (context sm') = bs \<and> amountChar (context sm') = -1 \<and>
    effects (context sm') = effects (context sm) @ [SentFrame dev (id003_frame 0x11 []), SentFrame dev (id003_frame 0x50 []),
      Slept 500, BillAccepted dev (amountChar (context sm)) (currencyId (context sm)) 1]"
proof -
  let ?t = "going (uint (0x15 :: byte)) jcmReceivingBillState (told 0x11 [] 0x15 [] sm)"
  have t: "protocol (context ?t) = 0" "length (sendBuf (jcm (context ?t))) = 570" "devId (context ?t) = dev"
    using assms by (simp_all add: ready_def)
  have snd: "send 0x50 [] ?t = Some (after_send 0x50 [] ?t)" using t by (intro send_id003) simp_all
  obtain sm' where v: "sendVendValidNotification ?t = Some sm'" and r: "ready dev sm'" "currentState sm' = Some jcmReceivingBillState"
    "line (context sm') = bs" "amountChar (context sm') = -1"
    "effects (context sm') = effects (context sm) @ [SentFrame dev (id003_frame 0x11 []), SentFrame dev (id003_frame 0x50 []),
      Slept 500, BillAccepted dev (amountChar (context sm)) (currencyId (context sm)) 1]"
    using t snd assms
    by (simp add: sendVendValidNotification_def sendAckNotification_def codes notifyBillAccepted_def after_send_def Let_def
        ready_def sent_def id003_frame_def)
  have run: "run_bills (Suc n) (uint (0x15 :: byte)) (told 0x11 [] 0x15 [] sm) = Some sm'"
    using receiving_vend [of "told 0x11 [] 0x15 [] sm" "0x15" n] assms(2) v by simp
  have "do_op (Suc n) rest Poll sm = Some sm'"
    by (rule poll_answer [OF assms(2) in_communication(2) _ _ _ _ run]) (use assms r(1) in \<open>simp_all add: ready_def\<close>)
  with r show ?thesis by blast
qed

text \<open>C3. A bill is stacked and credited once, with the amount of the table. An enabled acceptor is polled
three times; the device reports a bill in escrow twice, acknowledges the order to stack it and reports
it as valid. If the row of the table for the escrow code has a positive amount and is not disabled,
the order to stack the bill is sent exactly once, the report is acknowledged, and the application is
credited one bill with the amount of the row in units of the application and the currency of the row;
then no bill is in hand.\<close>

theorem bill_is_credited:
  assumes "ready dev sm" "currentState sm = Some jcmEnabledState" "status (context sm) = JCM_ENABLE"
    "billAcceptNotificationFcn (context sm)" "escrow_row (context sm) b = Some d" "0 < amount d" "\<not> billDisabled d"
    "line (context sm) = [answer dev ID003_ESCROW [b], answer dev ID003_ESCROW [b], answer dev 0x50 [], answer dev ID003_VEND_VALID []]"
  shows "\<exists>sm'. do_ops (Suc (Suc n)) rest [Poll, Poll, Poll] sm = Some sm' \<and> currentState sm' = Some jcmReceivingBillState \<and>
    amountChar (context sm') = -1 \<and>
    effects (context sm') = effects (context sm) @ [SentFrame dev (id003_frame 0x11 [])] @
      (if acceptingNotificationFcn (context sm) then [AcceptingNotified dev ID003_ACCEPTING] else []) @
      [SentFrame dev (id003_frame 0x11 []), SentFrame dev (id003_frame 0x42 []), SentFrame dev (id003_frame 0x11 []),
       SentFrame dev (id003_frame 0x50 []), Slept 500, BillAccepted dev (amount d * MultipApp) (den_currencyId d) 1]"
proof -
  obtain s1 where s1: "do_op (Suc (Suc n)) rest Poll sm = Some s1" "ready dev s1" "currentState s1 = Some jcmReceivingBillState"
    "line (context s1) = [answer dev ID003_ESCROW [b], answer dev 0x50 [], answer dev ID003_VEND_VALID []]"
    "status (context s1) = JCM_ENABLE" "convertionTable (context s1) = convertionTable (context sm)"
    "billAcceptNotificationFcn (context s1) = billAcceptNotificationFcn (context sm)"
    "effects (context s1) = effects (context sm) @ [SentFrame dev (id003_frame 0x11 [])] @
      (if acceptingNotificationFcn (context sm) then [AcceptingNotified dev ID003_ACCEPTING] else [])"
    using poll_enabled_escrow [OF assms(1-3,8), of "Suc n" rest] by blast
  have row: "escrow_row (context s1) b = Some d" using assms(5) denomination_same [OF s1(6)] by (simp add: escrow_row_def)
  obtain s2 where s2: "do_op (Suc (Suc n)) rest Poll s1 = Some s2" "ready dev s2" "currentState s2 = Some jcmReceivingBillState"
    "line (context s2) = [answer dev ID003_VEND_VALID []]" "amountChar (context s2) = amount d * MultipApp"
    "currencyId (context s2) = den_currencyId d" "billAcceptNotificationFcn (context s2)"
    "effects (context s2) = effects (context s1) @ [SentFrame dev (id003_frame 0x11 []), SentFrame dev (id003_frame 0x42 [])]"
    using poll_receiving_escrow [OF s1(2,3,5,4) row assms(6,7), of n rest] assms(4) s1(7) by blast
  have "amountChar (context s2) \<noteq> -1" using s2(5) assms(6) by simp
  from poll_vend_valid [OF s2(2,3,4,7) this, of "Suc n" rest] s1 s2 show ?thesis by auto
qed

lemma bill_is_credited_witness:
  "\<exists>sm'. do_ops 2 (\<lambda>_. None) [Poll, Poll, Poll]
      (sample_machine jcmEnabledState [answer 0 ID003_ESCROW [0x61], answer 0 ID003_ESCROW [0x61], answer 0 0x50 [], answer 0 ID003_VEND_VALID []]) = Some sm' \<and>
    currentState sm' = Some jcmReceivingBillState \<and> amountChar (context sm') = -1 \<and>
    effects (context sm') = [SentFrame 0 (id003_frame 0x11 []), AcceptingNotified 0 ID003_ACCEPTING,
      SentFrame 0 (id003_frame 0x11 []), SentFrame 0 (id003_frame 0x42 []), SentFrame 0 (id003_frame 0x11 []),
      SentFrame 0 (id003_frame 0x50 []), Slept 500, BillAccepted 0 1000000000 32 1]"
  using bill_is_credited [of 0 "sample_machine jcmEnabledState [answer 0 ID003_ESCROW [0x61], answer 0 ID003_ESCROW [0x61], answer 0 0x50 [], answer 0 ID003_VEND_VALID []]"
      "0x61" "\<lparr>amount = 100, disabled = 0, den_countryCode = 14, countryStr = replicate 4 0, den_currencyId = 32\<rparr>" 0 "\<lambda>_. None"]
  by (simp add: sample_machine_def newStateMachine_def sample_acceptor_def ready_def escrow_row_def denomination_def jcm_init_def
      billDisabled_def numeral_eq_Suc)




end
