(* ===== verification/Jcm_Nested.thy ===== *)
theory Jcm_Nested
  imports Jcm_Bills_Props
begin

text \<open>
  Where the runs of the ID003 machine inside its own transitions show: the depth of the runs is up to
  the device, and the state that an inner run enters is lost.
\<close>

subsection \<open>Depth\<close>

lemma enabled_disabled:
  fixes e :: byte
  assumes "currentState sm = Some jcmEnabledState" "event (context sm) = e" "e = 0x1A" "status (context sm) \<noteq> JCM_DISABLE"
  shows "run_bills (Suc n) (uint e) sm = doEnable (run_bills n) (going (uint e) jcmEnabledState sm)"
proof -
  have ne: "0x01 \<noteq> e" "0x17 \<noteq> e" "0x1A = e" by (simp_all add: assms(3))
  let ?s = "sm\<lparr>currentEvent := uint e\<rparr>"
  have g: "errorDetected ?s = Some (False, ?s)" "isJCMDisable ?s = Some (False, ?s)" "unExpectedPowerUp ?s = Some (False, ?s)"
    using assms by (simp_all add: errorDetected_def isJCMDisable_def unExpectedPowerUp_def Let_def)
  show ?thesis
    by (simp only: search assms(1) ne g)
       (cases "doEnable (run_bills n) (going (uint e) jcmEnabledState sm)"; simp add: fire_def going_def bill_state_of_def)
qed

text \<open>A command that the device leaves unanswered for the first time.\<close>

lemma write_read_silence:
  assumes "protocol (context sm) = ID003" "length (sendBuf (jcm (context sm))) = 570" "length out \<le> 565"
    "line (context sm) = []" "commErrQty (context sm) = 0"
  shows "\<exists>sm'. billAcceptWriteRead run cmd out sm = Some sm' \<and> pendingStatus (context sm') = pendingStatus (context sm)"
  using assms
  by (simp add: billAcceptWriteRead_def send_id003 receive_def next_block_def jcmRead_def no_reply_def after_send_def Let_def)

lemma told_commErrQty [simp]: "commErrQty (context (told cmd out ev data sm)) = 0"
  by (simp add: told_def after_send_def)

lemma told_also [simp]:
  "commErrorNotificationFcn (context (told cmd out ev data sm)) = commErrorNotificationFcn (context sm)"
  "billTableLoaded (context (told cmd out ev data sm)) = billTableLoaded (context sm)"
  by (simp_all add: told_def after_send_def Let_def)

lemma ready_told [simp]:
  "ready dev sm \<Longrightarrow> length out \<le> 565 \<Longrightarrow> ready dev (told cmd out ev data sm)"
  by (simp add: ready_def)

lemma nested_runs:
  assumes "ready dev sm" "currentState sm = Some jcmEnabledState" "status (context sm) = JCM_ENABLE"
    "event (context sm) = 0x1A" "commErrQty (context sm) = 0" "line (context sm) = replicate k (answer dev 0x1A [])"
  shows "if k < n then \<exists>sm'. run_bills n (uint (0x1A :: byte)) sm = Some sm' \<and> pendingStatus (context sm') = 0
    else run_bills n (uint (0x1A :: byte)) sm = None"
  using assms
proof (induction n arbitrary: k sm)
  case (Suc n)
  let ?s = "going (uint (0x1A :: byte)) jcmEnabledState sm"
  have "run_bills (Suc n) (uint (0x1A :: byte)) sm = doEnable (run_bills n) ?s"
    using Suc.prems by (intro enabled_disabled) simp_all
  also have "\<dots> = billAcceptWriteRead (run_bills n) 0xC3 [0] ?s"
    using Suc.prems(1) by (simp add: doEnable_def ready_def command_def getCommandCode_def cmdsTable_def)
  finally have run: "run_bills (Suc n) (uint (0x1A :: byte)) sm = billAcceptWriteRead (run_bills n) 0xC3 [0] ?s" .
  show ?case
  proof (cases k)
    case 0
    have "\<exists>sm'. billAcceptWriteRead (run_bills n) 0xC3 [0] ?s = Some sm' \<and> pendingStatus (context sm') = pendingStatus (context ?s)"
      using Suc.prems 0 by (intro write_read_silence) (simp_all add: ready_def)
    with Suc.prems(1) 0 show ?thesis unfolding run by (simp add: ready_def)
  next
    case (Suc j)
    let ?t = "told 0xC3 [0] 0x1A [] ?s"
    have "billAcceptWriteRead (run_bills n) 0xC3 [0] ?s = run_bills n (uint (0x1A :: byte)) ?t"
      using Suc.prems Suc by (intro write_read_answer [where bs = "replicate j (answer dev 0x1A [])"]) (simp_all add: ready_def)
    moreover have "if j < n then \<exists>sm'. run_bills n (uint (0x1A :: byte)) ?t = Some sm' \<and> pendingStatus (context sm') = 0
        else run_bills n (uint (0x1A :: byte)) ?t = None"
      using Suc.prems Suc by (intro Suc.IH) (simp_all add: ready_def)
    ultimately show ?thesis unfolding run Suc by (simp only: Suc_less_eq)
  qed
qed simp

text \<open>C33. The device decides how deep the machine calls itself. An enabled acceptor that is polled and
answers that it is disabled is told to enable itself, inside the transition, and its answer runs the
machine inside that; k more answers of that kind, one to each order, need k + 1 runs within each other,
so that no bound on the nesting, and no stack, is enough for every device.\<close>

theorem nesting_unbounded:
  assumes "ready dev sm" "currentState sm = Some jcmEnabledState" "status (context sm) = JCM_ENABLE"
    "line (context sm) = replicate (Suc k) (answer dev ID003_DISABLED [])"
  shows "do_op n rest Poll sm = None \<longleftrightarrow> n \<le> k"
proof -
  let ?t = "told 0x11 [] 0x1A [] sm"
  have l: "line (context sm) = answer (devId (context sm)) 0x1A [] # replicate k (answer dev 0x1A [])"
    using assms(1,4) by (simp add: ready_def)
  have "billAcceptWriteRead (run_bills n) 0x11 [] sm = run_bills n (uint (0x1A :: byte)) ?t"
    by (rule write_read_answer [OF _ _ _ l]) (use assms(1) in \<open>simp_all add: ready_def\<close>)
  moreover have "if k < n then \<exists>sm'. run_bills n (uint (0x1A :: byte)) ?t = Some sm' \<and> pendingStatus (context sm') = 0
      else run_bills n (uint (0x1A :: byte)) ?t = None"
    using assms(1-3) l by (intro nested_runs [where dev = dev]) (simp_all add: ready_def)
  moreover have "currentState sm \<noteq> Some noCommState" "command STATUS_CMD sm = 0x11"
    using assms(1,2) by (simp_all add: ready_def codes)
  ultimately show ?thesis
    using assms(1) by (auto simp: billAcceptorRun_def ready_def Let_def split: if_splits)
qed

lemma nesting_unbounded_witness:
  "do_op 3 Some Poll (sample_machine jcmEnabledState (replicate 4 (answer 0 ID003_DISABLED []))) = None \<and>
   do_op 4 Some Poll (sample_machine jcmEnabledState (replicate 4 (answer 0 ID003_DISABLED []))) \<noteq> None"
proof -
  let ?sm = "sample_machine jcmEnabledState (replicate (Suc 3) (answer 0 ID003_DISABLED []))"
  have "do_op n Some Poll ?sm = None \<longleftrightarrow> n \<le> 3" for n
    by (rule nesting_unbounded [of 0]) (simp_all add: sample_machine_def newStateMachine_def sample_acceptor_def ready_def jcm_init_def)
  from this [of 3] this [of 4] show ?thesis by (simp add: numeral_eq_Suc)
qed

subsection \<open>A state that is lost\<close>

text \<open>The statuses of a fault but a failure, which carries data.\<close>

definition fault :: "byte \<Rightarrow> bool" where
  "fault e \<longleftrightarrow> e \<in> {0x43, 0x44, 0x45, 0x46, 0x47, 0x48, 0x4A}"

lemma initializing_fault:
  assumes "currentState sm = Some jcmInitializingState" "event (context sm) = e" "fault e"
  shows "run_bills (Suc n) (uint e) sm =
    loadErrorState (moved (Some jcmErrorState) (upd (\<lambda>a. a\<lparr>errorCause := e\<rparr>) (sm\<lparr>currentEvent := uint e\<rparr>)))"
proof -
  have ne: "0x01 \<noteq> e" "0x1B \<noteq> e" using assms(3) by (auto simp: fault_def)
  let ?s = "sm\<lparr>currentEvent := uint e\<rparr>"
  have g: "errorDetected ?s = Some (True, upd (\<lambda>a. a\<lparr>errorCause := e\<rparr>) ?s)"
    using assms by (auto simp: errorDetected_def fault_def upd_def Let_def)
  show ?thesis
    by (simp only: search assms(1) ne g) (simp add: fire_def bill_state_of_def)
qed

lemma initializing_idling:
  fixes e :: byte
  assumes "currentState sm = Some jcmInitializingState" "event (context sm) = e" "e = 0x11"
    and g: "initDataMissing (run_bills n) (sm\<lparr>currentEvent := uint e\<rparr>) = Some (True, sm')"
  shows "run_bills (Suc n) (uint e) sm = Some (moved (Some jcmInitializingState) sm')"
proof -
  have ne: "0x01 \<noteq> e" "0x1B \<noteq> e" "0x8A \<noteq> e" "0x88 \<noteq> e" by (simp_all add: assms(3))
  have g': "errorDetected (sm\<lparr>currentEvent := uint e\<rparr>) = Some (False, sm\<lparr>currentEvent := uint e\<rparr>)"
    using assms by (simp add: errorDetected_def Let_def)
  show ?thesis by (simp only: search assms(1) ne g g') (simp add: fire_def bill_state_of_def)
qed

text \<open>C32. An error that is found while the table is being asked for is forgotten. In the initialising
state without a table, a poll that is answered asks for the table before its transition is taken; if
the device answers that with a fault, the run inside enters the error state and tells the application,
and the transition of the poll then puts the machine back into the initialising state: the application
has been told of an error in which the machine is not, and whose end it is not told by the error state.\<close>

theorem error_state_lost:
  assumes r: "ready dev sm" and st: "currentState sm = Some jcmInitializingState" and t: "billTableLoaded (context sm) = 0"
    and c: "commErrorNotificationFcn (context sm)" and e: "fault e"
    and l: "line (context sm) = answer dev ID003_IDLING [] # answer dev e [] # bs"
  shows "\<exists>sm'. do_op (Suc (Suc n)) rest Poll sm = Some sm' \<and> currentState sm' = Some jcmInitializingState \<and>
    line (context sm') = bs \<and> errorCause (context sm') = e \<and>
    effects (context sm') = effects (context sm) @ [SentFrame dev (id003_frame 0x11 []), SentFrame dev (id003_frame 0x8A []),
      CommErrorNotified dev e]"
proof -
  let ?t = "told 0x11 [] 0x11 [] sm" let ?s = "?t\<lparr>currentEvent := uint (0x11 :: byte)\<rparr>"
  let ?u = "told 0x8A [] e [] ?s"
  have ctx: "context (?t\<lparr>currentEvent := x\<rparr>) = context ?t" for x by simp
  have s: "ready dev ?s" "currentState ?s = Some jcmInitializingState" "line (context ?s) = answer dev e [] # bs"
    "billTableLoaded (context ?s) = 0" "protocol (context ?s) = 0" "command CURRENCY_CMD ?s = 0x8A"
    using r st t l by (simp_all add: ready_def codes)
  obtain s2 where s2: "loadErrorState (moved (Some jcmErrorState) (upd (\<lambda>a. a\<lparr>errorCause := e\<rparr>) (?u\<lparr>currentEvent := uint e\<rparr>))) = Some s2"
    "ready dev s2" "line (context s2) = bs" "errorCause (context s2) = e"
    "effects (context s2) = effects (context sm) @ [SentFrame dev (id003_frame 0x11 []), SentFrame dev (id003_frame 0x8A []), CommErrorNotified dev e]"
    using r c l e by (auto simp: loadErrorState_def error_cause_def ready_def Let_def fault_def)
  have "billAcceptWriteRead (run_bills (Suc n)) 0x8A [] ?s = run_bills (Suc n) (uint e) ?u"
    using s by (intro write_read_answer [where bs = bs]) (simp_all add: ready_def)
  also have "\<dots> = Some s2" using initializing_fault [of ?u e n] s(2) e s2(1) by simp
  finally have "initDataMissing (run_bills (Suc n)) ?s = Some (True, s2)"
    using s by (simp add: initDataMissing_def Let_def)
  with st have run: "run_bills (Suc (Suc n)) (uint (0x11 :: byte)) ?t = Some (moved (Some jcmInitializingState) s2)"
    by (intro initializing_idling) simp_all
  have ne: "jcmInitializingState \<noteq> noCommState" by simp
  have "do_op (Suc (Suc n)) rest Poll sm = Some (moved (Some jcmInitializingState) s2)"
    by (rule poll_answer [OF st ne _ _ _ _ run]) (use r l s2(2) in \<open>simp_all add: ready_def\<close>)
  with s2 show ?thesis by (intro exI [of _ "moved (Some jcmInitializingState) s2"]) simp
qed

lemma error_state_lost_witness:
  "\<exists>sm sm'. currentState sm = Some jcmInitializingState \<and> do_op 2 Some Poll sm = Some sm' \<and>
    currentState sm' = Some jcmInitializingState \<and> CommErrorNotified 0 0x43 \<in> set (effects (context sm'))"
proof -
  let ?sm = "upd (\<lambda>a. a\<lparr>billTableLoaded := 0\<rparr>) (sample_machine jcmInitializingState [answer 0 ID003_IDLING [], answer 0 0x43 []])"
  have "\<exists>sm'. do_op (Suc (Suc 0)) Some Poll ?sm = Some sm' \<and> currentState sm' = Some jcmInitializingState \<and>
    line (context sm') = [] \<and> errorCause (context sm') = 0x43 \<and>
    effects (context sm') = effects (context ?sm) @ [SentFrame 0 (id003_frame 0x11 []), SentFrame 0 (id003_frame 0x8A []),
      CommErrorNotified 0 0x43]"
    by (rule error_state_lost)
       (simp_all add: sample_machine_def newStateMachine_def sample_acceptor_def ready_def jcm_init_def fault_def)
  then obtain sm' where "do_op 2 Some Poll ?sm = Some sm'" "currentState sm' = Some jcmInitializingState"
    "CommErrorNotified 0 0x43 \<in> set (effects (context sm'))" by (auto simp: numeral_2_eq_2 simp del: do_op.simps)
  moreover have "currentState ?sm = Some jcmInitializingState" by (simp add: sample_machine_def newStateMachine_def)
  ultimately show ?thesis by blast
qed

end
