(* ===== verification/Jcm_Transfer.thy ===== *)
theory Jcm_Transfer
  imports Jcm_Bills_Props
begin

text \<open>
  The firmware update of an ID003 acceptor: the image reaches the device block by block, and what the
  pointer to the image that has been closed does afterwards.
\<close>

subsection \<open>Frames of an image\<close>

text \<open>What a frame of a data command carries, and the data commands among the effects.\<close>

primrec payload :: "effect \<Rightarrow> byte list list" where
  "payload (SentFrame dev f) = (if f ! 2 = 0xD1 then [take (length f - 5) (drop 3 f)] else [])"
| "payload (BillAccepted dev am cur q) = []"
| "payload (BillRejected dev c q) = []"
| "payload (CommErrorNotified dev c) = []"
| "payload (StatusNotified dev s) = []"
| "payload (AcceptingNotified dev s) = []"
| "payload (UpdateProgress dev r) = []"
| "payload (DeviceReset dev) = []"
| "payload (Slept t) = []"

definition data_frames :: "effect list \<Rightarrow> byte list list" where
  "data_frames es = concat (map payload es)"

lemma data_frames_simps [simp]:
  "data_frames [] = []" "data_frames (e # es) = payload e @ data_frames es" "data_frames (es @ fs) = data_frames es @ data_frames fs"
  by (simp_all add: data_frames_def)

lemma payload_frame [simp]: "payload (SentFrame dev (id003_frame cmd data)) = (if cmd = 0xD1 then [data] else [])"
  by (simp add: id003_frame_def with_crc_def)

declare payload.simps(1) [simp del]

text \<open>The frames of an image from an offset on.\<close>

fun image_frames :: "nat \<Rightarrow> int \<Rightarrow> byte list \<Rightarrow> byte list list" where
  "image_frames 0 off img = []"
| "image_frames (Suc k) off img =
     (bytes32 (word_of_int off) @ take FIRM_UPD_DATA_SIZE img) #
       image_frames k (off + int (length (take FIRM_UPD_DATA_SIZE img))) (drop FIRM_UPD_DATA_SIZE img)"

definition blocks :: "byte list \<Rightarrow> nat" where
  "blocks img = (length img + 245) div 246"

lemma blocks_Suc:
  assumes "img \<noteq> []"
  shows "blocks img = Suc (blocks (drop 246 img))"
proof -
  obtain k where k: "length img = Suc k" using assms by (cases img) auto
  have d: "(length img + 245) div 246 = Suc (k div 246)" by (simp add: k)
  show ?thesis
  proof (cases "length img \<le> 246")
    case True
    with k have "k div 246 = 0" by simp
    with True show ?thesis by (simp add: blocks_def d)
  next
    case False
    then have "length (drop 246 img) + 245 = k" using k by simp
    then show ?thesis by (simp only: blocks_def d)
  qed
qed

lemma image_frames_image: "concat (map (drop 4) (image_frames (blocks img) off img)) = img"
proof (induction "blocks img" arbitrary: off img)
  case 0
  then show ?case by (cases img) (simp_all add: blocks_def)
next
  case (Suc k)
  then have "img \<noteq> []" by (auto simp: blocks_def)
  with Suc show ?case by (simp add: blocks_Suc)
qed

subsection \<open>Steps of a transfer\<close>

lemma updating_ready:
  fixes e :: byte
  assumes "currentState sm = Some jcmUpdateFirmware" "e = 0xD4" "event_byte 0 (context sm) = Some 0"
  shows "run_bills (Suc n) (uint e) sm = doTransferNextFrame (run_bills n) (going (uint e) jcmUpdateFirmware sm)"
proof -
  have ne: "0x50 \<noteq> e" "0xD4 = e" by (simp_all add: assms(2))
  have g: "isReadyToTransfer (sm\<lparr>currentEvent := uint e\<rparr>) = Some (True, sm\<lparr>currentEvent := uint e\<rparr>)"
    using assms(3) by (simp add: isReadyToTransfer_def)
  show ?thesis by (simp only: search assms(1) ne g) (simp add: fire_def going_def bill_state_of_def)
qed

lemma updating_ack:
  fixes e :: byte
  assumes "currentState sm = Some jcmUpdateFirmware" "e = 0x50"
  shows "run_bills (Suc n) (uint e) sm = resetBuffer (going (uint e) jcmUpdateFirmware sm)"
proof -
  have ne: "0x50 = e" by (simp add: assms(2))
  show ?thesis
    by (simp only: search assms(1) ne)
       (cases "resetBuffer (going (uint e) jcmUpdateFirmware sm)"; simp add: fire_def going_def bill_state_of_def)
qed

lemma updating_end:
  fixes e :: byte
  assumes "currentState sm = Some jcmUpdateFirmware" "e = 0xD3"
  shows "run_bills (Suc n) (uint e) sm = verifyChecksumACK (going (uint e) jcmUpdateFirmware sm)"
proof -
  have ne: "0x50 \<noteq> e" "0xD4 \<noteq> e" "0xD3 = e" by (simp_all add: assms(2))
  show ?thesis
    by (simp only: search assms(1) ne)
       (cases "verifyChecksumACK (going (uint e) jcmUpdateFirmware sm)"; simp add: fire_def going_def bill_state_of_def)
qed

text \<open>An acknowledged frame: at most a report of the progress is left behind.\<close>

definition progress_fits :: "ulong \<Rightarrow> bool" where
  "progress_fits r \<longleftrightarrow> r \<noteq> 0 \<and> r + 1 \<noteq> 0"

lemma reset_buffer:
  assumes "progress_fits (framesQtyRefreshProgress (context sm))"
  shows "\<exists>es. resetBuffer sm = Some (upd (\<lambda>a. a\<lparr>frameSize := 0, effects := effects a @ es\<rparr>) sm) \<and> data_frames es = []"
proof (cases "framesQty (context sm) mod (framesQtyRefreshProgress (context sm) + 1) = framesQtyRefreshProgress (context sm) \<and>
    firmwareUpdateProgress (context sm)")
  case True
  with assms show ?thesis
    by (intro exI [of _ "[UpdateProgress (devId (context sm)) (ucast (framesQty (context sm) div framesQtyRefreshProgress (context sm)))]"])
       (simp add: resetBuffer_def progress_fits_def trace_def upd_def Let_def guard_ok_def)
next
  case False
  with assms show ?thesis
    by (intro exI [of _ "[]"]) (auto simp: resetBuffer_def progress_fits_def upd_def Let_def guard_ok_def)
qed

text \<open>An update between two frames.\<close>

definition transferring :: "byte \<Rightarrow> byte list \<Rightarrow> int \<Rightarrow> ushort \<Rightarrow> bill_machine \<Rightarrow> bool" where
  "transferring dev img off crc sm \<longleftrightarrow> ready dev sm \<and> currentState sm = Some jcmUpdateFirmware \<and>
     (let a = context sm in firmImage a = Some img \<and> frameSize a = 0 \<and> length (firmwFrame a) = 600 \<and>
        offsetTransfer a = off \<and> imageCrc a = crc \<and> progress_fits (framesQtyRefreshProgress a))"

lemma next_frame:
  assumes "transferring dev img off crc sm" "img \<noteq> []"
  shows "doTransferNextFrame run sm = billAcceptWriteRead run 0xD1 (bytes32 (word_of_int off) @ take 246 img)
    (upd (\<lambda>a. a\<lparr>firmwFrame := over (bytes32 (word_of_int off) @ take 246 img) (firmwFrame a), firmImage := Some (drop 246 img),
       frameSize := int (length (take 246 img)), imageCrc := foldl crc_char crc (take 246 img),
       offsetTransfer := off + int (length (take 246 img)), framesQty := framesQty a + 1, qtySentWithAck := 0\<rparr>) sm)"
proof -
  let ?o = "bytes32 (word_of_int off)" and ?b = "take 246 img" and ?f = "firmwFrame (context sm)"
  have t: "frameSize (context sm) = 0" "firmImage (context sm) = Some img" "offsetTransfer (context sm) = off"
    "imageCrc (context sm) = crc" "length ?f = 600" "protocol (context sm) = 0"
    using assms(1) by (simp_all add: transferring_def ready_def Let_def)
  have w1: "block_write ?f 0 ?o = Some (over ?o ?f)" using t by (intro block_write_start) simp
  have w2: "block_write (over ?o ?f) 4 ?b = Some (over (?o @ ?b) ?f)" using t by (intro block_write_over) simp_all
  have "uint (word_of_nat (length ?b) :: ushort) = int (length ?b)" by (simp add: unsigned_of_nat take_bit_nat_eq_self)
  moreover have "drop 4 (over (?o @ ?b) ?f) = ?b @ drop (4 + length ?b) ?f" using t by (simp add: over_def)
  ultimately have c: "calcCrc crc (drop 4 (over (?o @ ?b) ?f)) (word_of_nat (length ?b)) = Some (foldl crc_char crc ?b)"
    by (simp add: calcCrc_def block_read_prefix)
  have d: "block_read (over (?o @ ?b) ?f) 0 (int (length ?b) + 4) = Some (?o @ ?b)" by (intro block_read_over) simp
  have code: "command DOWNLOADDATA_CMD s = 0xD1" if "protocol (context s) = 0" for s :: bill_machine
    using that by (simp add: codes)
  have "doTransferNextFrame run sm = billAcceptWriteRead run 0xD1 (?o @ ?b)
    (upd (\<lambda>a. a\<lparr>imageCrc := foldl crc_char crc ?b, offsetTransfer := offsetTransfer a + frameSize a,
                 framesQty := framesQty a + 1, qtySentWithAck := 0\<rparr>)
      (upd (\<lambda>a. a\<lparr>firmwFrame := over (?o @ ?b) ?f, firmImage := Some (drop 246 img), frameSize := int (length ?b)\<rparr>) sm))"
    using t w1 w2 c d code assms(2)
    by (simp only: doTransferNextFrame_def Let_def FIRM_UPD_DATA_SIZE_def option.case Option.bind.simps bind_eq_Some_conv)
       (simp add: Let_def)
  then show ?thesis using t by (simp add: upd_def Let_def)
qed

lemma poll_block:
  assumes t: "transferring dev img off crc sm" and ne: "img \<noteq> []"
    and l: "line (context sm) = answer dev 0xD4 [0] # answer dev 0x50 [] # bs"
  shows "\<exists>sm'. do_op (Suc (Suc n)) rest Poll sm = Some sm' \<and>
    transferring dev (drop 246 img) (off + int (length (take 246 img))) (foldl crc_char crc (take 246 img)) sm' \<and>
    line (context sm') = bs \<and> firmwareUpdateProgress (context sm') = firmwareUpdateProgress (context sm) \<and>
    data_frames (effects (context sm')) =
      data_frames (effects (context sm)) @ [bytes32 (word_of_int off) @ take 246 img]"
proof -
  let ?t = "going (uint (0xD4 :: byte)) jcmUpdateFirmware (told 0x11 [] 0xD4 [0] sm)"
  let ?d = "bytes32 (word_of_int off) @ take 246 img"
  let ?u = "upd (\<lambda>a. a\<lparr>firmwFrame := over ?d (firmwFrame a), firmImage := Some (drop 246 img),
       frameSize := int (length (take 246 img)), imageCrc := foldl crc_char crc (take 246 img),
       offsetTransfer := off + int (length (take 246 img)), framesQty := framesQty a + 1, qtySentWithAck := 0\<rparr>) ?t"
  let ?v = "going (uint (0x50 :: byte)) jcmUpdateFirmware (told 0xD1 ?d 0x50 [] ?u)"
  have r: "ready dev sm" "currentState sm = Some jcmUpdateFirmware" using t by (simp_all add: transferring_def)
  have t': "transferring dev img off crc ?t"
    using t by (simp add: transferring_def ready_def told_def after_send_def Let_def sent_def id003_frame_def)
  have "progress_fits (framesQtyRefreshProgress (context ?v))"
    using t' by (simp add: transferring_def told_def after_send_def Let_def)
  from reset_buffer [OF this] obtain es where
    es: "resetBuffer ?v = Some (upd (\<lambda>a. a\<lparr>frameSize := 0, effects := effects a @ es\<rparr>) ?v)" "data_frames es = []" by blast
  have "billAcceptWriteRead (run_bills (Suc n)) 0xD1 ?d ?u = run_bills (Suc n) (uint (0x50 :: byte)) (told 0xD1 ?d 0x50 [] ?u)"
    using t' l r by (intro write_read_answer [where bs = bs]) (simp_all add: transferring_def ready_def)
  also have "\<dots> = resetBuffer ?v" by (rule updating_ack) simp_all
  finally have "doTransferNextFrame (run_bills (Suc n)) ?t = Some (upd (\<lambda>a. a\<lparr>frameSize := 0, effects := effects a @ es\<rparr>) ?v)"
    using next_frame [OF t' ne] es(1) by simp
  then have run: "run_bills (Suc (Suc n)) (uint (0xD4 :: byte)) (told 0x11 [] 0xD4 [0] sm) =
      Some (upd (\<lambda>a. a\<lparr>frameSize := 0, effects := effects a @ es\<rparr>) ?v)"
    using updating_ready [of "told 0x11 [] 0xD4 [0] sm" "0xD4" "Suc n"] r(2) by (simp add: event_byte_def block_at_nth)
  let ?s = "upd (\<lambda>a. a\<lparr>frameSize := 0, effects := effects a @ es\<rparr>) ?v"
  have "do_op (Suc (Suc n)) rest Poll sm = Some ?s"
    by (rule poll_answer [OF r(2) in_communication(3) _ _ _ _ run]) (use r l in \<open>simp_all add: ready_def\<close>)
  moreover have "transferring dev (drop 246 img) (off + int (length (take 246 img))) (foldl crc_char crc (take 246 img)) ?s"
    using t by (simp add: transferring_def ready_def told_def after_send_def Let_def sent_def id003_frame_def)
  moreover have "line (context ?s) = bs" "firmwareUpdateProgress (context ?s) = firmwareUpdateProgress (context sm)"
    using l by (simp_all add: told_def after_send_def Let_def)
  moreover have "data_frames (effects (context ?s)) = data_frames (effects (context sm)) @ [?d]"
    using es(2) by simp
  ultimately show ?thesis by blast
qed

text \<open>The end of the image: the checksum of the device decides, and the file is closed.\<close>

primrec report :: "effect \<Rightarrow> byte list" where
  "report (UpdateProgress dev r) = [r]"
| "report (SentFrame dev f) = []"
| "report (BillAccepted dev am cur q) = []"
| "report (BillRejected dev c q) = []"
| "report (CommErrorNotified dev c) = []"
| "report (StatusNotified dev s) = []"
| "report (AcceptingNotified dev s) = []"
| "report (DeviceReset dev) = []"
| "report (Slept t) = []"

definition reports :: "effect list \<Rightarrow> byte list" where
  "reports es = concat (map report es)"

lemma reports_simps [simp]:
  "reports [] = []" "reports (e # es) = report e @ reports es" "reports (es @ fs) = reports es @ reports fs"
  by (simp_all add: reports_def)

definition image_closed :: "byte \<Rightarrow> bill_machine \<Rightarrow> bool" where
  "image_closed dev sm \<longleftrightarrow> ready dev sm \<and> currentState sm = Some jcmUpdateFirmware \<and>
     (let a = context sm in firmImage a = None \<and> frameSize a = 0 \<and> length (firmwFrame a) = 600)"

lemma image_empty:
  assumes "transferring dev [] off crc sm"
  shows "doTransferNextFrame run sm = billAcceptWriteRead run 0xD2 []
    (upd (\<lambda>a. a\<lparr>firmwFrame := over (bytes32 (word_of_int off)) (firmwFrame a), firmImage := Some [], frameSize := 0\<rparr>) sm)"
proof -
  let ?o = "bytes32 (word_of_int off)" and ?f = "firmwFrame (context sm)"
  have t: "frameSize (context sm) = 0" "firmImage (context sm) = Some []" "offsetTransfer (context sm) = off"
    "length ?f = 600" "protocol (context sm) = 0"
    using assms(1) by (simp_all add: transferring_def ready_def Let_def)
  have w1: "block_write ?f 0 ?o = Some (over ?o ?f)" using t by (intro block_write_start) simp
  have w2: "block_write (over ?o ?f) 4 [] = Some (over (?o @ []) ?f)" using t by (intro block_write_over) simp_all
  have code: "command DOWNLOADEND_CMD s = 0xD2" if "protocol (context s) = 0" for s :: bill_machine
    using that by (simp add: codes)
  show ?thesis using t w1 w2 code
    by (simp only: doTransferNextFrame_def Let_def FIRM_UPD_DATA_SIZE_def option.case Option.bind.simps bind_eq_Some_conv)
       (simp add: Let_def upd_def)
qed

lemma same_bytes: "le16 a b = le16 c d \<longleftrightarrow> a = c \<and> b = d"
  by (metis lobyte16_le16 hibyte16_le16)

lemma verify_checksum:
  assumes "ready dev sm" "currentState sm = Some jcmUpdateFirmware" "event_byte 1 (context sm) = Some hi"
    "event_byte 2 (context sm) = Some lo" "frameSize (context sm) = 0" "length (firmwFrame (context sm)) = 600"
  shows "\<exists>sm' es. verifyChecksumACK sm = Some sm' \<and> image_closed dev sm' \<and> line (context sm') = line (context sm) \<and>
    effects (context sm') = effects (context sm) @ es \<and> data_frames es = [] \<and>
    (firmwareUpdateProgress (context sm) \<longrightarrow> reports es = [if imageCrc (context sm) = le16 lo hi then 100 else 255])"
proof -
  have p: "protocol (context sm) = 0" "length (sendBuf (jcm (context sm))) = 570" using assms(1) by (simp_all add: ready_def)
  have eq: "le16 (hibyte16 (imageCrc (context sm))) (lobyte16 (imageCrc (context sm))) = le16 hi lo \<longleftrightarrow> imageCrc (context sm) = le16 lo hi"
    by (metis same_bytes le16_bytes)
  have snd: "sendAckNotification s = Some (trace (Slept 500) (after_send 0x50 [] s))"
    if "protocol (context s) = 0" "length (sendBuf (jcm (context s))) = 570" for s :: bill_machine
  proof -
    have "send 0x50 [] s = Some (after_send 0x50 [] s)" using that by (intro send_id003) simp_all
    then show ?thesis using that by (simp add: sendAckNotification_def codes after_send_def Let_def)
  qed
  show ?thesis
    using assms p by (cases "firmwareUpdateProgress (context sm)"; cases "commErrorNotificationFcn (context sm)";
        cases "imageCrc (context sm) = le16 lo hi")
      (simp_all add: verifyChecksumACK_def notifyFirmwareUpdate_def loadErrorState_def eq snd trace_if_def image_closed_def
        ready_def after_send_def sent_def Let_def del: le16_bytes)
qed

lemma poll_end:
  assumes t: "transferring dev [] off crc sm"
    and l: "line (context sm) = answer dev 0xD4 [0] # answer dev 0xD3 [x, hi, lo] # bs"
  shows "\<exists>sm' es. do_op (Suc (Suc n)) rest Poll sm = Some sm' \<and> image_closed dev sm' \<and> line (context sm') = bs \<and>
    effects (context sm') = effects (context sm) @ es \<and> data_frames es = [] \<and>
    (firmwareUpdateProgress (context sm) \<longrightarrow> reports es = [if crc = le16 lo hi then 100 else 255])"
proof -
  let ?t = "going (uint (0xD4 :: byte)) jcmUpdateFirmware (told 0x11 [] 0xD4 [0] sm)"
  let ?u = "upd (\<lambda>a. a\<lparr>firmwFrame := over (bytes32 (word_of_int off)) (firmwFrame a), firmImage := Some [], frameSize := 0\<rparr>) ?t"
  let ?v = "going (uint (0xD3 :: byte)) jcmUpdateFirmware (told 0xD2 [] 0xD3 [x, hi, lo] ?u)"
  have r: "ready dev sm" "currentState sm = Some jcmUpdateFirmware" using t by (simp_all add: transferring_def)
  have t': "transferring dev [] off crc ?t"
    using t by (simp add: transferring_def ready_def told_def after_send_def Let_def sent_def id003_frame_def)
  have v: "ready dev ?v" "currentState ?v = Some jcmUpdateFirmware" "event_byte 1 (context ?v) = Some hi"
    "event_byte 2 (context ?v) = Some lo" "frameSize (context ?v) = 0" "length (firmwFrame (context ?v)) = 600"
    "imageCrc (context ?v) = crc" "line (context ?v) = bs" "firmwareUpdateProgress (context ?v) = firmwareUpdateProgress (context sm)"
    using t l by (simp_all add: transferring_def ready_def told_def after_send_def Let_def sent_def id003_frame_def event_byte_def
        block_at_nth numeral_2_eq_2)
  from verify_checksum [OF v(1-6)] v obtain sm' es where e: "verifyChecksumACK ?v = Some sm'" "image_closed dev sm'"
    "line (context sm') = bs" "effects (context sm') = effects (context ?v) @ es" "data_frames es = []"
    "firmwareUpdateProgress (context sm) \<longrightarrow> reports es = [if crc = le16 lo hi then 100 else 255]"
    by (auto simp: v)
  have "billAcceptWriteRead (run_bills (Suc n)) 0xD2 [] ?u = run_bills (Suc n) (uint (0xD3 :: byte)) (told 0xD2 [] 0xD3 [x, hi, lo] ?u)"
    using t' l r by (intro write_read_answer [where bs = bs]) (simp_all add: transferring_def ready_def)
  also have "\<dots> = verifyChecksumACK ?v" by (rule updating_end) simp_all
  finally have "doTransferNextFrame (run_bills (Suc n)) ?t = Some sm'"
    using image_empty [OF t'] e(1) by simp
  then have run: "run_bills (Suc (Suc n)) (uint (0xD4 :: byte)) (told 0x11 [] 0xD4 [0] sm) = Some sm'"
    using updating_ready [of "told 0x11 [] 0xD4 [0] sm" "0xD4" "Suc n"] r(2) by (simp add: event_byte_def block_at_nth)
  have "do_op (Suc (Suc n)) rest Poll sm = Some sm'"
    by (rule poll_answer [OF r(2) in_communication(3) _ _ _ _ run]) (use r l e(2) in \<open>simp_all add: ready_def image_closed_def\<close>)
  with e show ?thesis
    by (intro exI [of _ sm'] exI [of _ "[SentFrame dev (id003_frame 0x11 []), SentFrame dev (id003_frame 0xD2 [])] @ es"])
       (use r in \<open>simp add: ready_def\<close>)
qed

text \<open>All blocks of an image.\<close>

lemma poll_blocks:
  assumes "transferring dev img off crc sm"
    "line (context sm) = concat (replicate (blocks img) [answer dev 0xD4 [0], answer dev 0x50 []]) @ bs"
  shows "\<exists>sm' off'. do_ops (Suc (Suc n)) rest (replicate (blocks img) Poll) sm = Some sm' \<and>
    transferring dev [] off' (foldl crc_char crc img) sm' \<and> line (context sm') = bs \<and>
    firmwareUpdateProgress (context sm') = firmwareUpdateProgress (context sm) \<and>
    data_frames (effects (context sm')) = data_frames (effects (context sm)) @ image_frames (blocks img) off img"
  using assms
proof (induction "blocks img" arbitrary: img off crc sm)
  case 0
  then have "img = []" by (cases img) (simp_all add: blocks_def)
  with 0 show ?case by auto
next
  case (Suc k)
  then have ne: "img \<noteq> []" by (auto simp: blocks_def)
  with Suc.hyps(2) have k: "blocks img = Suc (blocks (drop 246 img))" "k = blocks (drop 246 img)" by (simp_all add: blocks_Suc)
  let ?bs = "concat (replicate (blocks (drop 246 img)) [answer dev 0xD4 [0], answer dev 0x50 []]) @ bs"
  have "line (context sm) = answer dev 0xD4 [0] # answer dev 0x50 [] # ?bs" using Suc.prems(2) k(1) by simp
  from poll_block [OF Suc.prems(1) ne this, of n rest] obtain s1 where s1: "do_op (Suc (Suc n)) rest Poll sm = Some s1"
    "transferring dev (drop 246 img) (off + int (length (take 246 img))) (foldl crc_char crc (take 246 img)) s1"
    "line (context s1) = ?bs" "firmwareUpdateProgress (context s1) = firmwareUpdateProgress (context sm)"
    "data_frames (effects (context s1)) = data_frames (effects (context sm)) @ [bytes32 (word_of_int off) @ take 246 img]" by blast
  have "foldl crc_char (foldl crc_char crc (take 246 img)) (drop 246 img) = foldl crc_char crc img"
    by (metis foldl_append append_take_drop_id)
  with Suc.hyps(1) [OF k(2) s1(2,3)] obtain sm' off' where "do_ops (Suc (Suc n)) rest (replicate (blocks (drop 246 img)) Poll) s1 = Some sm'"
    "transferring dev [] off' (foldl crc_char crc img) sm'" "line (context sm') = bs"
    "firmwareUpdateProgress (context sm') = firmwareUpdateProgress (context s1)"
    "data_frames (effects (context sm')) = data_frames (effects (context s1)) @
       image_frames (blocks (drop 246 img)) (off + int (length (take 246 img))) (drop 246 img)" by auto
  with s1 k(1) show ?case by (intro exI [of _ sm'] exI [of _ off']) simp
qed

subsection \<open>The start of an update\<close>

lemma disabled_update:
  assumes "currentState sm = Some jcmDisabledState"
  shows "executeStateMachine (bill_states (run_bills n)) (uint (1 :: byte)) sm =
    loadStartFirmUpdate (going (uint (1 :: byte)) jcmStartFirmwareUpd sm)"
proof -
  have "run_bills (Suc n) (uint (1 :: byte)) sm = loadStartFirmUpdate (going (uint (1 :: byte)) jcmStartFirmwareUpd sm)"
    by (simp only: search assms) (simp add: fire_def going_def bill_state_of_def)
  then show ?thesis by simp
qed

lemma start_disabled:
  fixes e :: byte
  assumes "currentState sm = Some jcmStartFirmwareUpd" "event (context sm) = e" "e = 0x1A"
  shows "run_bills (Suc n) (uint e) sm = sendDownloadStart (run_bills n) (going (uint e) jcmStartFirmwareUpd sm)"
proof -
  have ne: "0x4A \<noteq> e" "0x1A = e" by (simp_all add: assms(3))
  have g: "errorDetected (sm\<lparr>currentEvent := uint e\<rparr>) = Some (False, sm\<lparr>currentEvent := uint e\<rparr>)"
    using assms by (simp add: errorDetected_def Let_def)
  show ?thesis
    by (simp only: search assms(1) ne g)
       (cases "sendDownloadStart (run_bills n) (going (uint e) jcmStartFirmwareUpd sm)"; simp add: fire_def going_def bill_state_of_def)
qed

lemma start_ack:
  fixes e :: byte
  assumes "currentState sm = Some jcmStartFirmwareUpd" "event (context sm) = e" "e = 0x50"
  shows "run_bills (Suc n) (uint e) sm = Some (going (uint e) jcmUpdateFirmware sm)"
proof -
  have ne: "0x4A \<noteq> e" "0x1A \<noteq> e" "0x11 \<noteq> e" "0x40 \<noteq> e" "0x50 = e" by (simp_all add: assms(3))
  have g: "errorDetected (sm\<lparr>currentEvent := uint e\<rparr>) = Some (False, sm\<lparr>currentEvent := uint e\<rparr>)"
    using assms by (simp add: errorDetected_def Let_def)
  show ?thesis by (simp only: search assms(1) ne g) (simp add: fire_def going_def bill_state_of_def)
qed

text \<open>An update has been started on a disabled acceptor; the frame buffer is the one the acceptor had.\<close>

definition started :: "byte \<Rightarrow> byte list \<Rightarrow> bool \<Rightarrow> Acceptor \<Rightarrow> bill_machine \<Rightarrow> bool" where
  "started dev img p old sm \<longleftrightarrow> ready dev sm \<and> currentState sm = Some jcmUpdateFirmware \<and>
     (let a = context sm in firmImage a = Some img \<and> frameSize a = frameSize old \<and> firmwFrame a = firmwFrame old \<and>
        offsetTransfer a = 0 \<and> imageCrc a = 0 \<and> qtySentWithAck a = 0 \<and> firmwareUpdateProgress a = p \<and>
        progress_fits (framesQtyRefreshProgress a))"

lemma progress_of_size:
  assumes "0 \<le> n" "n < 2 ^ 31"
  shows "progress_fits (word_of_int (n div 246 div 100 + 1))"
proof -
  let ?q = "n div 246 div 100"
  have q: "0 \<le> ?q" "?q + 2 < 2 ^ 32" using assms by simp_all
  have u: "uint (word_of_int m :: ulong) = m" if "0 \<le> m" "m < 2 ^ 32" for m :: int
    using that by (simp add: uint_word_of_int)
  have "uint (word_of_int (?q + 1) :: ulong) \<noteq> 0" using q u [of "?q + 1"] by linarith
  moreover have "(word_of_int (?q + 1) + 1 :: ulong) = word_of_int (?q + 2)" by (metis add.assoc one_add_one wi_hom_add word_1_wi)
  moreover have "uint (word_of_int (?q + 2) :: ulong) \<noteq> 0" using q u [of "?q + 2"] by linarith
  ultimately show ?thesis unfolding progress_fits_def by (metis uint_0_eq)
qed

lemma start_update:
  assumes r: "ready dev sm" and st: "currentState sm = Some jcmDisabledState" and img: "img \<noteq> []" "length img < 2 ^ 31"
    and l: "line (context sm) = answer dev ID003_DISABLED [] # answer dev 0x50 [] # bs"
  shows "\<exists>sm'. do_ops (Suc (Suc n)) rest [UpdateFirmware (Some img) ok p, Poll] sm = Some sm' \<and>
    started dev img p (context sm) sm' \<and> line (context sm') = bs \<and>
    data_frames (effects (context sm')) = data_frames (effects (context sm))"
proof -
  let ?a = "\<lambda>a. a\<lparr>firmImage := Some img, fileOffset := 0, firmwareUpdateProgress := p, fileSize := int (length img),
      blockSize := 0, framesQty := 0, offsetTransfer := 0, imageCrc := 0\<rparr>"
  have p0: "protocol (context sm) = 0" using r by (simp add: ready_def)
  obtain s1 where s1: "do_op (Suc (Suc n)) rest (UpdateFirmware (Some img) ok p) sm = Some s1" "ready dev s1"
    "currentState s1 = Some jcmStartFirmwareUpd" "line (context s1) = line (context sm)" "firmImage (context s1) = Some img"
    "frameSize (context s1) = frameSize (context sm)" "firmwFrame (context s1) = firmwFrame (context sm)"
    "offsetTransfer (context s1) = 0" "imageCrc (context s1) = 0" "qtySentWithAck (context s1) = 0"
    "firmwareUpdateProgress (context s1) = p" "effects (context s1) = effects (context sm)"
    "framesQtyRefreshProgress (context s1) = word_of_int (int (length img) div 246 div 100 + 1)"
    using p0 r st img(1)
    by (simp add: billAcceptorUpdate_def open_image_def disabled_update [simplified] loadStartFirmUpdate_def forget_tables_def ready_def Let_def
        del: run_bills.simps)
  have prog: "progress_fits (framesQtyRefreshProgress (context s1))"
    using progress_of_size [of "int (length img)"] img(2) s1(13) by simp
  let ?t = "told 0x11 [] 0x1A [] s1"
  let ?u = "going (uint (0x1A :: byte)) jcmStartFirmwareUpd ?t"
  let ?v = "going (uint (0x50 :: byte)) jcmUpdateFirmware (told 0xD0 [] 0x50 [] ?u)"
  have u: "ready dev ?u" "line (context ?u) = answer dev 0x50 [] # bs"
    using s1 l by (simp_all add: ready_def told_def after_send_def Let_def sent_def)
  have "sendDownloadStart (run_bills (Suc n)) ?u = billAcceptWriteRead (run_bills (Suc n)) 0xD0 [] ?u"
    using u(1) by (simp add: sendDownloadStart_def ready_def command_def getCommandCode_def cmdsTable_def)
  also have "\<dots> = run_bills (Suc n) (uint (0x50 :: byte)) (told 0xD0 [] 0x50 [] ?u)"
    using u by (intro write_read_answer [where bs = bs]) (simp_all add: ready_def)
  also have "\<dots> = Some ?v" by (rule start_ack) simp_all
  finally have run: "run_bills (Suc (Suc n)) (uint (0x1A :: byte)) ?t = Some ?v"
    using start_disabled [of ?t "0x1A" "Suc n"] s1(3) by simp
  have ne: "jcmStartFirmwareUpd \<noteq> noCommState" by simp
  have v: "ready dev ?v" using s1(2) by (simp add: ready_def told_def after_send_def Let_def sent_def)
  have "do_op (Suc (Suc n)) rest Poll s1 = Some ?v"
    by (rule poll_answer [OF s1(3) ne _ _ _ _ run]) (use s1 l v in \<open>simp_all add: ready_def\<close>)
  moreover have "started dev img p (context sm) ?v" "line (context ?v) = bs"
    using v s1 l prog by (simp_all add: started_def told_def after_send_def Let_def)
  moreover have "data_frames (effects (context ?v)) = data_frames (effects (context sm))"
    using s1 by simp
  ultimately show ?thesis by (intro exI [of _ ?v]) (simp add: s1(1) del: do_op.simps)
qed

lemma do_ops_append: "do_ops n rest (xs @ ys) sm = do { sm \<leftarrow> do_ops n rest xs sm; do_ops n rest ys sm }"
  by (induction xs arbitrary: sm) (simp_all add: bind_assoc)

lemma started_transferring:
  "started dev img p old sm \<Longrightarrow> frameSize old = 0 \<Longrightarrow> length (firmwFrame old) = 600 \<Longrightarrow> transferring dev img 0 0 sm"
  by (simp add: started_def transferring_def Let_def)

text \<open>Where the blocks of an image lie.\<close>

lemma length_image_frames: "length (image_frames k off img) = k"
  by (induction k arbitrary: off img) auto

lemma block_offset:
  "i < k \<Longrightarrow> k = blocks img \<Longrightarrow> take 4 (image_frames k off img ! i) = bytes32 (word_of_int (off + 246 * int i))"
proof (induction k arbitrary: i off img)
  case (Suc k)
  then have "img \<noteq> []" by (auto simp: blocks_def)
  then have k: "k = blocks (drop 246 img)" using Suc.prems(2) by (simp add: blocks_Suc)
  show ?case
  proof (cases i)
    case (Suc j)
    with Suc.prems(1) have j: "j < k" by simp
    then have "drop 246 img \<noteq> []" using k by (auto simp: blocks_def)
    then have "length (take 246 img) = 246" by simp
    with Suc.IH [OF j k, of "off + 246"] Suc show ?thesis by (simp add: add.assoc add.commute)
  qed simp
qed simp

text \<open>A whole update: the application orders it, the device agrees, acknowledges every frame and sends its checksum.\<close>

definition update_ops :: "byte list \<Rightarrow> bool \<Rightarrow> bill_op list" where
  "update_ops img ok = [UpdateFirmware (Some img) ok True, Poll] @ replicate (blocks img) Poll @ [Poll]"

definition update_replies :: "byte \<Rightarrow> byte list \<Rightarrow> byte \<Rightarrow> byte \<Rightarrow> byte \<Rightarrow> byte list option list" where
  "update_replies dev img x hi lo = [answer dev ID003_DISABLED [], answer dev 0x50 []] @
     concat (replicate (blocks img) [answer dev 0xD4 [0], answer dev 0x50 []]) @
     [answer dev 0xD4 [0], answer dev 0xD3 [x, hi, lo]]"

lemma whole_update:
  assumes "ready dev sm" "currentState sm = Some jcmDisabledState" "img \<noteq> []" "length img < 2 ^ 31"
    "frameSize (context sm) = 0" "length (firmwFrame (context sm)) = 600"
    "line (context sm) = update_replies dev img x hi lo @ bs"
  shows "\<exists>sm' rs. do_ops (Suc (Suc n)) rest (update_ops img ok) sm = Some sm' \<and> image_closed dev sm' \<and>
    line (context sm') = bs \<and>
    data_frames (effects (context sm')) = data_frames (effects (context sm)) @ image_frames (blocks img) 0 img \<and>
    reports (effects (context sm')) = rs @ [if foldl crc_char 0 img = le16 lo hi then 100 else 255]"
proof -
  let ?bs = "[answer dev 0xD4 [0], answer dev 0xD3 [x, hi, lo]] @ bs"
  let ?cs = "concat (replicate (blocks img) [answer dev 0xD4 [0], answer dev 0x50 []]) @ ?bs"
  have "line (context sm) = answer dev ID003_DISABLED [] # answer dev 0x50 [] # ?cs"
    using assms(7) by (simp add: update_replies_def)
  from start_update [OF assms(1-4) this, of n rest ok True] obtain s1 where
    s1: "do_ops (Suc (Suc n)) rest [UpdateFirmware (Some img) ok True, Poll] sm = Some s1" "started dev img True (context sm) s1"
      "line (context s1) = ?cs" "data_frames (effects (context s1)) = data_frames (effects (context sm))" by blast
  from poll_blocks [OF started_transferring [OF s1(2) assms(5,6)] s1(3), of n rest] obtain s2 off where
    s2: "do_ops (Suc (Suc n)) rest (replicate (blocks img) Poll) s1 = Some s2" "transferring dev [] off (foldl crc_char 0 img) s2"
      "line (context s2) = ?bs" "firmwareUpdateProgress (context s2) = firmwareUpdateProgress (context s1)"
      "data_frames (effects (context s2)) = data_frames (effects (context s1)) @ image_frames (blocks img) 0 img" by blast
  have "firmwareUpdateProgress (context s2)" using s2(4) s1(2) by (simp add: started_def Let_def)
  moreover have "line (context s2) = answer dev 0xD4 [0] # answer dev 0xD3 [x, hi, lo] # bs" using s2(3) by simp
  ultimately obtain sm' es where s3: "do_op (Suc (Suc n)) rest Poll s2 = Some sm'" "image_closed dev sm'" "line (context sm') = bs"
      "effects (context sm') = effects (context s2) @ es" "data_frames es = []"
      "reports es = [if foldl crc_char 0 img = le16 lo hi then 100 else 255]"
    using poll_end [OF s2(2), of x hi lo bs n rest] by blast
  have "do_ops (Suc (Suc n)) rest [Poll] s2 = Some sm'" using s3(1) by simp
  then have "do_ops (Suc (Suc n)) rest (update_ops img ok) sm = Some sm'"
    by (simp only: update_ops_def do_ops_append s1(1) s2(1) Option.bind.simps)
  with s1 s2 s3 show ?thesis by (intro exI [of _ sm'] exI [of _ "reports (effects (context s2))"]) simp
qed

lemma closed_reads_null:
  assumes "image_closed dev sm" "line (context sm) = answer dev 0xD4 [0] # bs"
  shows "do_op n rest Poll sm = None"
proof -
  have r: "currentState sm = Some jcmUpdateFirmware" "protocol (context sm) = 0" "length (sendBuf (jcm (context sm))) = 570"
    "devId (context sm) = dev" using assms(1) by (simp_all add: image_closed_def ready_def)
  have "run_bills n (uint (0xD4 :: byte)) (told 0x11 [] 0xD4 [0] sm) = None"
  proof (cases n)
    case (Suc m)
    let ?t = "going (uint (0xD4 :: byte)) jcmUpdateFirmware (told 0x11 [] 0xD4 [0] sm)"
    have t: "firmImage (context ?t) = None" "frameSize (context ?t) = 0" "length (firmwFrame (context ?t)) = 600"
      using assms(1) by (simp_all add: image_closed_def told_def after_send_def Let_def)
    have "doTransferNextFrame (run_bills m) ?t = None"
      using t by (simp only: doTransferNextFrame_def Let_def) (simp add: block_write_start)
    then show ?thesis
      using Suc updating_ready [of "told 0x11 [] 0xD4 [0] sm" "0xD4" m] r(1) by (simp add: event_byte_def block_at_nth)
  qed simp
  then have "billAcceptWriteRead (run_bills n) 0x11 [] sm = None"
    using write_read_answer [where out = "[]" and run = "run_bills n" and cmd = "0x11" and ev = "0xD4" and data = "[0]" and bs = bs and sm = sm]
      assms(2) r by simp
  then show ?thesis using r by (simp add: billAcceptorRun_def codes Let_def)
qed

subsection \<open>The image reaches the device\<close>

text \<open>C9. A firmware update carries the image to the device. A disabled acceptor that has no frame left
over is ordered to update, the device answers as the protocol has it, acknowledges every frame and
sends its checksum; then the data commands sent are the blocks of the image of 246 bytes in order, each
behind its offset, their contents put together are the image, and the last report to the application
is 100 if the checksum of the device is the CRC of the whole image, and 255 otherwise. The machine then
still waits for the device to be ready; if the device says so once more, the next block is read through
the pointer to the file that has been closed and set to null, at any depth of nested runs.\<close>

theorem firmware_transferred:
  assumes "ready dev sm" "currentState sm = Some jcmDisabledState" "img \<noteq> []" "length img < 2 ^ 31"
    "frameSize (context sm) = 0" "length (firmwFrame (context sm)) = 600"
    "line (context sm) = update_replies dev img x hi lo @ [answer dev 0xD4 [0]]"
  shows "\<exists>sm' frames rs. do_ops (Suc (Suc n)) rest (update_ops img ok) sm = Some sm' \<and>
    data_frames (effects (context sm')) = data_frames (effects (context sm)) @ frames \<and>
    concat (map (drop 4) frames) = img \<and>
    (\<forall>i < length frames. take 4 (frames ! i) = bytes32 (word_of_int (246 * int i))) \<and>
    reports (effects (context sm')) = rs @ [if foldl crc_char 0 img = le16 lo hi then 100 else 255] \<and>
    currentState sm' = Some jcmUpdateFirmware \<and> (\<forall>m. do_op m rest Poll sm' = None)"
proof -
  from whole_update [OF assms, of n rest ok] obtain sm' rs where
    u: "do_ops (Suc (Suc n)) rest (update_ops img ok) sm = Some sm'" "image_closed dev sm'"
      "line (context sm') = [answer dev 0xD4 [0]]"
      "data_frames (effects (context sm')) = data_frames (effects (context sm)) @ image_frames (blocks img) 0 img"
      "reports (effects (context sm')) = rs @ [if foldl crc_char 0 img = le16 lo hi then 100 else 255]" by blast
  moreover have "\<forall>m. do_op m rest Poll sm' = None" using closed_reads_null [OF u(2,3)] by blast
  moreover have "currentState sm' = Some jcmUpdateFirmware" using u(2) by (simp add: image_closed_def)
  moreover have "\<forall>i < length (image_frames (blocks img) 0 img).
      take 4 (image_frames (blocks img) 0 img ! i) = bytes32 (word_of_int (246 * int i))"
    using block_offset [OF _ refl, of _ img 0] by (simp only: length_image_frames add_0) blast
  ultimately show ?thesis using image_frames_image [of img 0] by blast
qed

lemma firmware_transferred_witness:
  "\<exists>sm' frames rs. do_ops 2 Some (update_ops [1, 2, 3] True)
      (sample_machine jcmDisabledState (update_replies 0 [1, 2, 3] 0 0 0 @ [answer 0 0xD4 [0]])) = Some sm' \<and>
    data_frames (effects (context sm')) = frames \<and> concat (map (drop 4) frames) = [1, 2, 3] \<and>
    reports (effects (context sm')) = rs @ [if foldl crc_char 0 [1, 2, 3] = le16 0 0 then 100 else 255] \<and>
    (\<forall>m. do_op m Some Poll sm' = None)"
proof -
  let ?img = "[1, 2, 3] :: byte list"
  let ?sm = "sample_machine jcmDisabledState (update_replies 0 ?img 0 0 0 @ [answer 0 0xD4 [0]])"
  have "\<exists>sm' frames rs. do_ops (Suc (Suc 0)) Some (update_ops ?img True) ?sm = Some sm' \<and>
    data_frames (effects (context sm')) = data_frames (effects (context ?sm)) @ frames \<and> concat (map (drop 4) frames) = ?img \<and>
    (\<forall>i < length frames. take 4 (frames ! i) = bytes32 (word_of_int (246 * int i))) \<and>
    reports (effects (context sm')) = rs @ [if foldl crc_char 0 ?img = le16 0 0 then 100 else 255] \<and>
    currentState sm' = Some jcmUpdateFirmware \<and> (\<forall>m. do_op m Some Poll sm' = None)"
    by (rule firmware_transferred [of 0]) (simp_all add: sample_machine_def newStateMachine_def sample_acceptor_def ready_def jcm_init_def)
  moreover have "data_frames (effects (context ?sm)) = []"
    by (simp add: sample_machine_def newStateMachine_def sample_acceptor_def)
  ultimately show ?thesis unfolding numeral_2_eq_2 append_Nil by (metis append_Nil)
qed

subsection \<open>What an update that was given up leaves behind\<close>

text \<open>C31. An update after one that was given up starts with the wrong bytes. Starting an update does
not forget the frame the last one was waiting to see acknowledged; when the device is ready for the
first block of the new image, that frame is sent, with its offset in the old image, and nothing of the
new image has been read.\<close>

theorem stale_frame_resent:
  assumes r: "ready dev sm" and st: "currentState sm = Some jcmDisabledState" and img: "img \<noteq> []" "length img < 2 ^ 31"
    and m: "frameSize (context sm) = int m" "0 < m" "m \<le> 246" "length (firmwFrame (context sm)) = 600"
    and l: "line (context sm) = [answer dev ID003_DISABLED [], answer dev 0x50 [], answer dev 0xD4 [0], answer dev 0x50 []]"
  shows "\<exists>sm'. do_ops (Suc (Suc n)) rest [UpdateFirmware (Some img) ok p, Poll, Poll] sm = Some sm' \<and>
    data_frames (effects (context sm')) = data_frames (effects (context sm)) @ [take (m + 4) (firmwFrame (context sm))] \<and>
    firmImage (context sm') = Some img \<and> offsetTransfer (context sm') = 0 \<and> imageCrc (context sm') = 0"
proof -
  from start_update [OF r st img l, of n rest ok p] obtain s1 where
    s1: "do_ops (Suc (Suc n)) rest [UpdateFirmware (Some img) ok p, Poll] sm = Some s1" "started dev img p (context sm) s1"
      "line (context s1) = [answer dev 0xD4 [0], answer dev 0x50 []]"
      "data_frames (effects (context s1)) = data_frames (effects (context sm))" by blast
  let ?f = "firmwFrame (context sm)" let ?d = "take (m + 4) ?f"
  let ?t = "going (uint (0xD4 :: byte)) jcmUpdateFirmware (told 0x11 [] 0xD4 [0] s1)"
  let ?u = "upd (\<lambda>a. a\<lparr>qtySentWithAck := qtySentWithAck a + 1\<rparr>) ?t"
  let ?v = "going (uint (0x50 :: byte)) jcmUpdateFirmware (told 0xD1 ?d 0x50 [] ?u)"
  have a: "ready dev s1" "currentState s1 = Some jcmUpdateFirmware" using s1(2) by (simp_all add: started_def)
  have t: "ready dev ?t" "frameSize (context ?t) = int m" "firmwFrame (context ?t) = ?f" "qtySentWithAck (context ?t) = 0"
    "line (context ?t) = [answer dev 0x50 []]"
    using s1(2,3) m(1) by (simp_all add: started_def ready_def told_def after_send_def Let_def sent_def)
  have read: "block_read ?f 0 (int m + 4) = Some ?d" using m by (simp add: block_read_def nat_add_distrib)
  have code: "command DOWNLOADDATA_CMD ?u = 0xD1" using t(1) by (simp add: codes ready_def)
  have dt: "doTransferNextFrame (run_bills (Suc n)) ?t = billAcceptWriteRead (run_bills (Suc n)) 0xD1 ?d ?u"
    using t m read code by (simp only: doTransferNextFrame_def Let_def) simp
  have "progress_fits (framesQtyRefreshProgress (context ?v))"
    using s1(2) by (simp add: started_def told_def after_send_def Let_def)
  from reset_buffer [OF this] obtain es where
    es: "resetBuffer ?v = Some (upd (\<lambda>a. a\<lparr>frameSize := 0, effects := effects a @ es\<rparr>) ?v)" "data_frames es = []" by blast
  let ?s = "upd (\<lambda>a. a\<lparr>frameSize := 0, effects := effects a @ es\<rparr>) ?v"
  have "billAcceptWriteRead (run_bills (Suc n)) 0xD1 ?d ?u = run_bills (Suc n) (uint (0x50 :: byte)) (told 0xD1 ?d 0x50 [] ?u)"
    using t m(3) by (intro write_read_answer [where bs = "[]"]) (simp_all add: ready_def)
  also have "\<dots> = resetBuffer ?v" by (rule updating_ack) simp_all
  finally have run: "run_bills (Suc (Suc n)) (uint (0xD4 :: byte)) (told 0x11 [] 0xD4 [0] s1) = Some ?s"
    using updating_ready [of "told 0x11 [] 0xD4 [0] s1" "0xD4" "Suc n"] a(2) dt es(1) by (simp add: event_byte_def block_at_nth)
  have "do_op (Suc (Suc n)) rest Poll s1 = Some ?s"
    by (rule poll_answer [OF a(2) in_communication(3) _ _ _ _ run]) (use a s1(3) in \<open>simp_all add: ready_def\<close>)
  then have "do_ops (Suc (Suc n)) rest [Poll] s1 = Some ?s" by simp
  then have "do_ops (Suc (Suc n)) rest ([UpdateFirmware (Some img) ok p, Poll] @ [Poll]) sm = Some ?s"
    by (simp only: do_ops_append s1(1) Option.bind.simps)
  moreover have "data_frames (effects (context ?s)) = data_frames (effects (context sm)) @ [?d]"
    using s1(4) es(2) by simp
  moreover have "firmImage (context ?s) = Some img" "offsetTransfer (context ?s) = 0" "imageCrc (context ?s) = 0"
    using s1(2) by (simp_all add: started_def told_def after_send_def Let_def)
  ultimately show ?thesis by (intro exI [of _ ?s]) (simp only: append.simps)
qed

lemma stale_frame_resent_witness:
  "\<exists>sm sm'. frameSize (context sm) = 1 \<and>
    do_ops 2 Some [UpdateFirmware (Some [1, 2, 3]) True True, Poll, Poll] sm = Some sm' \<and>
    data_frames (effects (context sm')) = [[7, 0, 0, 0, 9]] \<and> firmImage (context sm') = Some [1, 2, 3]"
proof -
  let ?sm = "upd (\<lambda>a. a\<lparr>frameSize := 1, firmwFrame := [7, 0, 0, 0, 9] @ replicate 595 0\<rparr>)
    (sample_machine jcmDisabledState [answer 0 ID003_DISABLED [], answer 0 0x50 [], answer 0 0xD4 [0], answer 0 0x50 []])"
  have "\<exists>sm'. do_ops (Suc (Suc 0)) Some [UpdateFirmware (Some [1, 2, 3]) True True, Poll, Poll] ?sm = Some sm' \<and>
    data_frames (effects (context sm')) = data_frames (effects (context ?sm)) @ [take (1 + 4) (firmwFrame (context ?sm))] \<and>
    firmImage (context sm') = Some [1, 2, 3] \<and> offsetTransfer (context sm') = 0 \<and> imageCrc (context sm') = 0"
    by (rule stale_frame_resent [of 0]) (simp_all add: sample_machine_def newStateMachine_def sample_acceptor_def ready_def jcm_init_def)
  then obtain sm' where "do_ops 2 Some [UpdateFirmware (Some [1, 2, 3]) True True, Poll, Poll] ?sm = Some sm'"
    "data_frames (effects (context sm')) = [[7, 0, 0, 0, 9]]" "firmImage (context sm') = Some [1, 2, 3]"
    by (auto simp: sample_machine_def newStateMachine_def sample_acceptor_def numeral_2_eq_2 simp del: do_op.simps)
  then show ?thesis by (intro exI [of _ ?sm] exI [of _ sm']) simp
qed

end
