(* ===== verification/Dynamic_Pin.thy ===== *)
theory Dynamic_Pin
  imports Aes_Cipher C_Strings
begin

text \<open>
  The dynamic PINs, \<open>src/src/framework/cim/dynamicPin.m\<close>: the code of a closing is the cipher of the
  time, the user and the old PIN under the hardware address, and the new PIN the cipher of that code
  under a password in the program.

  The static arrays and those of the cipher are a record. \<open>generateNewPin\<close> takes the time and what
  \<open>if_netInfo\<close> (\<open>License_Host\<close>) leaves in its array of 32 bytes as arguments, the old PIN as the text
  without its final 0, and returns the arrays of the caller from their start on. \<open>None\<close> is an access
  outside an array.
\<close>

record Pin =
  aes :: Aes
  buffer :: "byte list"
  plainText :: "byte list"
  myClosingCode :: "byte list"

definition secretWord :: "byte list" where
  "secretWord = chars ''PasswordPassword'' @ replicate 16 0"

definition charSet :: "byte list" where
  "charSet = chars ''0123456789ABCDEF''"

definition hex_chars :: "byte list \<Rightarrow> byte list" where
  "hex_chars data = concat (map (\<lambda>b. [charSet ! (unat b div 16), charSet ! (unat b mod 16)]) data)"

definition getHexFrame2 :: "byte list \<Rightarrow> int \<Rightarrow> Pin \<Rightarrow> Pin option" where
  "getHexFrame2 data qty p = do {
     d \<leftarrow> block_read data 0 qty;
     b \<leftarrow> block_write (buffer p) 0 (hex_chars d @ [NEWLINE, 0]);
     Some (p\<lparr>buffer := b\<rparr>)
   }"

text \<open>The digit of a byte, counted on by \<open>k\<close>.\<close>

definition pin_digit :: "nat \<Rightarrow> byte \<Rightarrow> byte" where
  "pin_digit k b = word_of_nat ((unat b + k) mod 10 + 48)"

definition doGeneratePin :: "byte list \<Rightarrow> Pin \<Rightarrow> (Pin \<times> byte list \<times> byte list) option" where
  "doGeneratePin closingCode p = do {
     c \<leftarrow> strcat 17 closingCode closingCode;
     c \<leftarrow> block_write (myClosingCode p) 0 (c @ [0]);
     (g, newPinTemp) \<leftarrow> Cipher c secretWord (aes p);
     t \<leftarrow> block_read newPinTemp 0 8;
     let newPIN = map (pin_digit 0) t;
     let newDuress = map (\<lambda>i. if i = 7 then pin_digit 1 (t ! i) else newPIN ! i) [0..<8];
     Some (p\<lparr>aes := g, myClosingCode := c\<rparr>, newPIN @ [0], newDuress @ [0])
   }"

definition generateNewPin ::
  "int \<Rightarrow> int \<Rightarrow> byte list \<Rightarrow> byte list \<Rightarrow> Pin \<Rightarrow> (Pin \<times> byte list \<times> byte list \<times> byte list) option" where
  "generateNewPin fechaHoraApertura idUsuario oldPIN macAddress p = do {
     t \<leftarrow> block_write (plainText p) 0 (dec fechaHoraApertura @ dec idUsuario @ oldPIN @ [0]);
     (g, codigoCierre) \<leftarrow> Cipher t macAddress (aes p);
     p \<leftarrow> getHexFrame2 codigoCierre 16 (p\<lparr>plainText := t, aes := g\<rparr>);
     b \<leftarrow> put_at (buffer p) 8 0;
     let newClosingCode = cstr b;
     (p, newPIN, newDuress) \<leftarrow> doGeneratePin newClosingCode (p\<lparr>buffer := b\<rparr>);
     Some (p, newClosingCode @ [0], newPIN, newDuress)
   }"

end
