(* ===== verification/Dynamic_Pin_Props.thy ===== *)
theory Dynamic_Pin_Props
  imports Dynamic_Pin Aes_Props
begin

text \<open>
  What the dynamic PINs are, and what they do not depend on.
\<close>

definition pin_arrays :: "Pin \<Rightarrow> bool" where
  "pin_arrays p \<longleftrightarrow> aes_arrays (aes p) \<and> length (buffer p) = 50 \<and> length (plainText p) = 100 \<and>
     length (myClosingCode p) = 17"

text \<open>The code of a closing and the PIN of a code, as mathematics.\<close>

definition closing_code :: "byte list \<Rightarrow> byte list \<Rightarrow> byte list" where
  "closing_code key text = take 8 (hex_chars (aes128 key text))"

definition pin_bytes :: "byte list \<Rightarrow> byte list" where
  "pin_bytes code = take 8 (aes128 (chars ''PasswordPassword'') (code @ code))"

definition pin_of :: "byte list \<Rightarrow> byte list" where
  "pin_of code = map (pin_digit 0) (pin_bytes code)"

definition duress_of :: "byte list \<Rightarrow> byte list" where
  "duress_of code = map (pin_digit 0) (take 7 (pin_bytes code)) @ [pin_digit 1 (pin_bytes code ! 7)]"

lemma length_aes128:
  assumes "length k = 16" "length b = 16"
  shows "length (aes128 k b) = 16"
  unfolding aes128_def Let_def using assms
  by (simp add: length_round_key rounds_length del: upt_rec_numeral)

subsection \<open>Hexadecimal characters\<close>

lemma hex_char: "k < 16 \<Longrightarrow> charSet ! k \<noteq> 0 \<and> charSet ! k \<in> set charSet"
proof -
  assume "k < 16"
  then have "k \<in> set [0..<16]" by simp
  then show ?thesis by (auto simp: charSet_def chars_def upt_rec)
qed

lemma length_hex_chars [simp]: "length (hex_chars d) = 2 * length d"
  by (induction d) (auto simp: hex_chars_def)

lemma hex_chars_set: "c \<in> set (hex_chars d) \<Longrightarrow> c \<noteq> 0 \<and> c \<in> set charSet"
proof -
  assume "c \<in> set (hex_chars d)"
  then have "\<exists>b \<in> set d. c \<in> set [charSet ! (unat b div 16), charSet ! (unat b mod 16)]"
    unfolding hex_chars_def set_concat set_map by blast
  then obtain b where "b \<in> set d" "c \<in> set [charSet ! (unat b div 16), charSet ! (unat b mod 16)]" ..
  moreover have "unat b < 16 * 16" using unsigned_less [of b] by simp
  then have "unat b div 16 < 16" "unat b mod 16 < 16" by (simp_all add: less_mult_imp_div_less)
  ultimately show ?thesis using hex_char by auto
qed

lemma closing_code_chars:
  assumes "length key = 16" "length text = 16"
  shows "length (closing_code key text) = 8" "\<forall>c \<in> set (closing_code key text). c \<noteq> 0 \<and> c \<in> set charSet"
  using assms by (auto simp: closing_code_def length_aes128 dest: in_set_takeD hex_chars_set)

text \<open>The frame in the buffer, cut off after eight characters.\<close>

lemma closing_in_buffer:
  assumes "pin_arrays p" "length d = 16"
  shows "\<exists>b. getHexFrame2 d 16 p = Some (p\<lparr>buffer := b\<rparr>) \<and>
    put_at b 8 0 = Some (b[8 := 0]) \<and> length b = 50 \<and> cstr (b[8 := 0]) = take 8 (hex_chars d)"
proof -
  let ?h = "hex_chars d @ [NEWLINE, 0]" and ?b = "over (hex_chars d @ [NEWLINE, 0]) (buffer p)"
  have l: "length (buffer p) = 50" "length ?h = 34" using assms by (simp_all add: pin_arrays_def)
  then have w: "block_write (buffer p) 0 ?h = Some ?b" by (intro block_write_start) simp
  have r: "block_read d 0 16 = Some d" using assms(2) by (simp add: block_read_def)
  have "?b[8 := 0] = take 8 (hex_chars d) @ 0 # drop 9 ?b"
    using assms(2) l by (simp add: over_def list_update_append upd_conv_take_nth_drop)
  moreover have "\<forall>c \<in> set (take 8 (hex_chars d)). c \<noteq> 0" by (auto dest: in_set_takeD hex_chars_set)
  ultimately have "cstr (?b[8 := 0]) = take 8 (hex_chars d)"
    by (simp add: cstr_def takeWhile_append)
  moreover have "length ?b = 50" using l by simp
  ultimately show ?thesis using w r l(1) by (intro exI [of _ ?b]) (simp add: getHexFrame2_def put_at_def)
qed

subsection \<open>PINs\<close>

lemma length_pin_bytes: "length code = 8 \<Longrightarrow> length (pin_bytes code) = 8"
  by (simp add: pin_bytes_def length_aes128 chars_def)

lemma pin_of_code:
  assumes p: "pin_arrays p" and c: "length code = 8"
  shows "\<exists>p'. doGeneratePin code p = Some (p', pin_of code @ [0], duress_of code @ [0]) \<and> pin_arrays p' \<and> buffer p' = buffer p"
proof -
  let ?c = "(code @ code) @ [0]"
  have l: "length (myClosingCode p) = 17" "aes_arrays (aes p)" using p by (simp_all add: pin_arrays_def)
  have "block_write (myClosingCode p) 0 ?c = Some (over ?c (myClosingCode p))"
    using l c by (intro block_write_start) simp
  then have w: "block_write (myClosingCode p) 0 ?c = Some ?c" using l c by (simp add: over_def)
  have t: "take 16 ?c = code @ code" "take 16 secretWord = chars ''PasswordPassword''" "16 \<le> length ?c" "16 \<le> length secretWord"
    using c by (simp_all add: secretWord_def chars_def)
  from Cipher_outputs [OF l(2) t(3,4)] t(1,2) obtain g where
    g: "Cipher ?c secretWord (aes p) = Some (g, aes128 (chars ''PasswordPassword'') (code @ code))" "aes_arrays g" by auto
  have "length (aes128 (chars ''PasswordPassword'') (code @ code)) = 16" using c by (simp add: length_aes128 chars_def)
  then have r: "block_read (aes128 (chars ''PasswordPassword'') (code @ code)) 0 8 = Some (pin_bytes code)"
    by (simp add: block_read_def pin_bytes_def)
  have d: "map (\<lambda>i. if i = 7 then pin_digit 1 (pin_bytes code ! i) else map (pin_digit 0) (pin_bytes code) ! i) [0..<8] = duress_of code"
    using length_pin_bytes [OF c] by (auto simp: duress_of_def list_eq_iff_nth_eq nth_append less_Suc_eq numeral_eq_Suc)
  have "strcat 17 code code = Some (code @ code)" using c by (simp add: strcat_def)
  then have "doGeneratePin code p = Some (p\<lparr>aes := g, myClosingCode := ?c\<rparr>, pin_of code @ [0], duress_of code @ [0])"
    using w g(1) r d by (simp add: doGeneratePin_def pin_of_def Let_def)
  with p g(2) c show ?thesis by (simp add: pin_arrays_def)
qed

text \<open>The 16 bytes of the text that are enciphered: what a shorter text leaves in the array shows.\<close>

definition enciphered :: "int \<Rightarrow> int \<Rightarrow> byte list \<Rightarrow> Pin \<Rightarrow> byte list" where
  "enciphered t u old p = take 16 (over (dec t @ dec u @ old @ [0]) (plainText p))"

lemma new_pin:
  assumes p: "pin_arrays p" and m: "length mac = 32" and l: "length (dec t @ dec u @ old) < 100"
  shows "\<exists>p' code. generateNewPin t u old mac p = Some (p', code @ [0], pin_of code @ [0], duress_of code @ [0]) \<and>
    pin_arrays p' \<and> code = closing_code (take 16 mac) (enciphered t u old p) \<and> length code = 8"
proof -
  let ?t = "dec t @ dec u @ old @ [0]" and ?p = "over (dec t @ dec u @ old @ [0]) (plainText p)"
  let ?e = "enciphered t u old p"
  have a: "length (plainText p) = 100" "aes_arrays (aes p)" using p by (simp_all add: pin_arrays_def)
  have w: "block_write (plainText p) 0 ?t = Some ?p" using a l by (intro block_write_start) simp
  have len: "length ?p = 100" using a l by simp
  from Cipher_outputs [OF a(2), of ?p mac] len m obtain g where
    g: "Cipher ?p mac (aes p) = Some (g, aes128 (take 16 mac) ?e)" "aes_arrays g" by (auto simp: enciphered_def)
  have e: "length ?e = 16" "length (take 16 mac) = 16" using len m by (simp_all add: enciphered_def)
  let ?q = "p\<lparr>plainText := ?p, aes := g\<rparr>"
  have q: "pin_arrays ?q" using p g(2) len by (simp add: pin_arrays_def)
  from closing_in_buffer [OF q length_aes128 [OF e(2,1)]] obtain b where
    b: "getHexFrame2 (aes128 (take 16 mac) ?e) 16 ?q = Some (?q\<lparr>buffer := b\<rparr>)" "put_at b 8 0 = Some (b[8 := 0])" "length b = 50"
      "cstr (b[8 := 0]) = closing_code (take 16 mac) ?e" by (auto simp: closing_code_def)
  have q': "pin_arrays (?q\<lparr>buffer := b[8 := 0]\<rparr>)" using q b(3) by (simp add: pin_arrays_def)
  from pin_of_code [OF q' closing_code_chars(1) [OF e(2,1)]] b g(1) w closing_code_chars(1) [OF e(2,1)]
  show ?thesis by (auto simp: generateNewPin_def Let_def)
qed

lemma pin_digit_digit: "is_digit (pin_digit k b)" "uint (pin_digit k b) = int ((unat b + k) mod 10 + 48)"
proof -
  have "(unat b + k) mod 10 < 10" by simp
  then have "(unat b + k) mod 10 \<in> set [0..<10]" by simp
  then show "is_digit (pin_digit k b)" "uint (pin_digit k b) = int ((unat b + k) mod 10 + 48)"
    by (auto simp: pin_digit_def is_digit_def upt_rec)
qed

subsection \<open>Properties\<close>

text \<open>C37. A dynamic PIN is eight decimal digits, and its duress PIN differs in the last digit alone. From
arrays of the declared sizes, whatever they hold, a new PIN is always found: the code of the closing is
eight hexadecimal characters, half of the cipher of the text under the hardware address, the new PIN
consists of eight digits that depend on nothing but that code and the password in the program, and the
PIN of duress has the same first seven digits and the last counted on by one, so that the two are
never equal.\<close>

theorem new_pin_digits:
  assumes "pin_arrays p" "length mac = 32" "length (dec t @ dec u @ old) < 100"
  shows "\<exists>p' code pin duress. generateNewPin t u old mac p = Some (p', code @ [0], pin @ [0], duress @ [0]) \<and> pin_arrays p' \<and>
    code = closing_code (take 16 mac) (enciphered t u old p) \<and> length code = 8 \<and> set code \<subseteq> set charSet \<and>
    pin = pin_of code \<and> length pin = 8 \<and> list_all is_digit pin \<and>
    length duress = 8 \<and> list_all is_digit duress \<and> take 7 duress = take 7 pin \<and>
    uint (duress ! 7) - 48 = (uint (pin ! 7) - 48 + 1) mod 10 \<and> duress \<noteq> pin"
proof -
  from new_pin [OF assms] obtain p' code where
    n: "generateNewPin t u old mac p = Some (p', code @ [0], pin_of code @ [0], duress_of code @ [0])" "pin_arrays p'"
      "code = closing_code (take 16 mac) (enciphered t u old p)" "length code = 8" by blast
  have "length (enciphered t u old p) = 16" using assms by (simp add: enciphered_def pin_arrays_def)
  then have s: "set code \<subseteq> set charSet" using closing_code_chars(2) [of "take 16 mac"] assms(2) n(3) by auto
  let ?b = "pin_bytes code"
  have l: "length ?b = 8" using n(4) by (rule length_pin_bytes)
  have pin: "length (pin_of code) = 8" "list_all is_digit (pin_of code)" "pin_of code ! 7 = pin_digit 0 (?b ! 7)"
    using l by (simp_all add: pin_of_def list_all_iff pin_digit_digit)
  have dur: "length (duress_of code) = 8" "list_all is_digit (duress_of code)" "duress_of code ! 7 = pin_digit 1 (?b ! 7)"
    "take 7 (duress_of code) = take 7 (pin_of code)"
    using l by (simp_all add: duress_of_def pin_of_def list_all_iff pin_digit_digit nth_append take_map)
  have last: "uint (duress_of code ! 7) - 48 = (uint (pin_of code ! 7) - 48 + 1) mod 10"
    unfolding pin(3) dur(3) pin_digit_digit(2) by (simp add: zmod_int mod_simps add.commute)
  have "duress_of code \<noteq> pin_of code"
  proof
    assume eq: "duress_of code = pin_of code"
    have "uint (pin_of code ! 7) - 48 = (uint (pin_of code ! 7) - 48 + 1) mod 10" using last unfolding eq .
    then show False by presburger
  qed
  with n s pin dur last show ?thesis by blast
qed

definition pin_start :: Pin where
  "pin_start = \<lparr>aes = aes_start, buffer = replicate 50 0, plainText = replicate 100 0, myClosingCode = replicate 17 0\<rparr>"

lemma pin_start_arrays: "pin_arrays pin_start"
  by (simp add: pin_arrays_def pin_start_def aes_start_arrays)

lemma dec_small: "0 \<le> n \<Longrightarrow> n < 10 \<Longrightarrow> length (dec n) = 1"
  by (simp add: dec_def dec_nat.simps)

lemma new_pin_digits_witness:
  "\<exists>p' code pin duress. generateNewPin 7 3 (chars ''1234'') (replicate 32 9) pin_start = Some (p', code @ [0], pin @ [0], duress @ [0]) \<and>
    list_all is_digit pin \<and> duress \<noteq> pin"
  using new_pin_digits [OF pin_start_arrays, of "replicate 32 9" 7 3 "chars ''1234''"] by (simp add: dec_small chars_def) blast

text \<open>C25. Most of the old PIN, and the last byte of the hardware address, play no part in the new one.
Only the first sixteen bytes of the text of the time, the user and the old PIN are enciphered, and only
the first sixteen characters of the hardware address are the key: two old PINs that agree in what is
left of the sixteen bytes behind the time and the user, and two addresses that agree but for the last
digit, get the same code, the same PIN and the same PIN of duress.\<close>

theorem old_pin_cut_off:
  assumes "pin_arrays p" "length mac = 32" "length mac' = 32" "take 16 mac = take 16 mac'"
    "length (dec t @ dec u @ old) < 100" "length (dec t @ dec u @ old') < 100"
    "16 \<le> length (dec t @ dec u @ old)" "16 \<le> length (dec t @ dec u @ old')"
    "take (16 - length (dec t @ dec u)) old = take (16 - length (dec t @ dec u)) old'"
  shows "map_option snd (generateNewPin t u old mac p) = map_option snd (generateNewPin t u old' mac' p) \<and>
    generateNewPin t u old mac p \<noteq> None"
proof -
  have cut: "enciphered t u w p = take 16 (dec t @ dec u @ w)" if "16 \<le> length (dec t @ dec u @ w)" for w
    using that by (simp add: enciphered_def over_def)
  have "take 16 (dec t @ dec u @ old) = take 16 (dec t @ dec u @ old')"
    using assms(9) by (simp add: take_append)
  then have "enciphered t u old p = enciphered t u old' p" using cut assms(7,8) by simp
  with new_pin [OF assms(1,2,5)] new_pin [OF assms(1,3,6)] assms(4) show ?thesis by force
qed

lemma old_pin_cut_off_witness:
  "map_option snd (generateNewPin 7 3 (chars ''1234567890123456'') (replicate 32 9) pin_start) =
     map_option snd (generateNewPin 7 3 (chars ''12345678901234ZZ'') (replicate 16 9 @ replicate 16 0) pin_start) \<and>
   generateNewPin 7 3 (chars ''1234567890123456'') (replicate 32 9) pin_start \<noteq> None"
  by (rule old_pin_cut_off [OF pin_start_arrays]) (simp_all add: dec_small chars_def)

end
