(* ===== verification/Spec2Isabelle.thy ===== *)
theory Spec2Isabelle
  imports Prelude Proto_Engine C_Timers C_Timers_Props Ring_Buffer Dmodem_Types Dmodem_Frame Dmodem_Line
    Dmodem_Write Dmodem_Write_Props Dmodem_Read Dmodem_Read_Props Dmodem_Read_Live Dmodem_Read_Msg Dmodem_Link Dmodem_Link_Props
    Dmodem_Api Dmodem_Api_Props Memory Queue_C Queue_Props State_Machine Os_Runtime Os_Props Os_Layer
    Door_Override Jcm_Comm Jcm_Props C_Strings License_Util License_Props License_Host Aes_Cipher Aes_Field Aes_Props
    Device_Calls Keypad_Conf Keypad_Conf_Props Keypad_File_Props Keypad_Drv Keypad_Drv_Props
    Lcd_Lib Com_Port Com_Port_Props Tprinter Os_Handler Option_Hoare Jcm_Mapping Jcm_Mapping_Props Jcm_Acceptor Jcm_States
    Jcm_Hex Jcm_Bills Jcm_Ledger Jcm_Bills_Props Jcm_Nested Jcm_Transfer Dynamic_Pin Dynamic_Pin_Props
begin

text \<open>
  A verification library for the C core of CIM, the controller of a cash deposit safe.

  \<^bold>\<open>The program.\<close> The application is written in Objective-C (deposits, users, reports, screens, the
  data base) on top of a core in C; the core is modelled here, and of the files compiled as
  Objective-C those that are written in C:

  \<^item> the modem protocol DMODEM of the remote supervision (\<open>src/src/framework/telesup/dmodem\<close>), a
    stop-and-wait protocol with CRC-32 frames, driven by a table engine and by software timers;
  \<^item> the run-time layer of \<open>src/src/system\<close>: threads and exceptions (\<open>os/osrt.c\<close>, \<open>os/excepts.h\<close>),
    timers (\<open>os/ctimers.c\<close>), the queue through which threads exchange events (\<open>util/queue.c\<close>) and the
    interpreter of the device state machines (\<open>util/state_machine.c\<close>);
  \<^item> the bill acceptors (\<open>framework/cim/device\<close>: \<open>jcmBillAcceptorMgr.m\<close>, \<open>id0003StateMachine.m\<close>,
    \<open>ccnetStateMachine.m\<close>, \<open>id0003Mapping.m\<close>): the state machines that decide which bills are stacked
    and credited, and that load new firmware into the acceptor;
  \<^item> the C routines of the safe: the codes that open a door by hand (\<open>framework/cim/doorover.c\<close>), the
    frames of the note acceptors (\<open>framework/cim/device/jcmBillAcceptorComm.c\<close>), the
    dynamic PINs (\<open>framework/cim/dynamicPin.m\<close>) with their cipher (\<open>AESencript.c\<close>) and the licence file
    (\<open>framework/system/license/LicUtil.c\<close>);
  \<^item> the libraries over the devices: the keypad with the parser of its configuration
    (\<open>keypadconf.c\<close> and \<open>drv-keypadlib.c\<close> in \<open>system/ui/jkeyboard/arm-linux\<close>), the display
    (\<open>lcdlib.c\<close> and \<open>unicodecvtr.c\<close> in \<open>system/ui/jlcd/jlcdlib/arm-linux\<close>), the serial ports
    (\<open>system/os/arm-linux/comportapi.c\<close>) and the printer port (\<open>system/dev/tprinter.c\<close>).

  \<^bold>\<open>How the parts interact.\<close> A public operation of the modem registers its timers with the timer
  table, initialises its current state and starts the engine of \<open>ptsm.c\<close> on its table of rows
  (state, event, handler, next state); the engine asks the wait function for the next event, a byte
  of the line or the expiry of a timer, and calls the handler, until the exit state is reached. The
  timer thread sets the flags the wait function looks at. The transmitter and the receiver share the
  frame layout, the checksum and the acknowledgements. Opening the keypad loads three maps from the
  configuration and sends two of them to the device. A poll of a bill acceptor writes a frame, reads the
  answer and feeds its status to the state machine; guards and actions of a transition write and read
  frames themselves, so that the machine runs inside its own transitions.

  \<^bold>\<open>Conventions.\<close> Machine integers are words of their width where they wrap (\<open>byte\<close>, \<open>ushort\<close>,
  \<open>ulong\<close>), and \<open>int\<close> where the code keeps them in a range that is proved or written out. A struct is
  a record with the names of its fields, an array a list, and an access outside its bounds, like any
  other undefined behaviour, is \<open>None\<close>. A function that changes a struct returns it. Function pointers
  are functions. Lines, clocks, other threads and the application are parameters: what the code does
  is proved for every line and for every interleaving of the timer thread.

  \<^bold>\<open>The theories.\<close>

  \<^descr> \<open>Prelude\<close> the integer types, lemmas on words, lists and circular arrays (\<open>ring\<close>) that several
    components use.
  \<^descr> \<open>Memory\<close> reading and writing of blocks of bytes at an offset.
  \<^descr> \<open>Proto_Engine\<close> \<open>ptsm.c\<close>: the search for a row, a turn of the loop (\<open>proto_turn\<close>) and the loop with
    fuel (\<open>proto_run\<close>), whose result tells returning from crashing and from still running. The
    locales \<open>proto_machine\<close>, \<open>proto_halts\<close> and \<open>proto_live\<close> state what a table and its wait function
    promise (an invariant of state, history and pending event; a measure) and prove once that the loop
    keeps the invariant and, with the measure, that enough fuel makes it return.
  \<^descr> \<open>C_Timers\<close> \<open>ctimers.c\<close>: the table of 96 slots, the mutex, adding, deleting and modifying timers, the
    scan of the timer thread and the schedule of its wake-ups. \<open>C_Timers_Props\<close> states the contract of
    the table, a multiset of at most 96 registrations (\<open>spec_run\<close>), which the runs of its operations
    refine for every client, also if its callbacks call the timer module.
  \<^descr> \<open>Ring_Buffer\<close> the locale \<open>fifo\<close> of bounded first-in first-out buffers, with the behaviour of runs of
    insertions and removals; it is interpreted on the receive buffer of the modem and on the queue.
  \<^descr> \<open>Dmodem_Types\<close>, \<open>Dmodem_Frame\<close>, \<open>Dmodem_Line\<close> \<open>dmodem.c\<close> and \<open>dmodem.h\<close>: constants, the record of a
    connection, timer callbacks; the CRC, the frames, acknowledgements; and what the three protocols
    share (what a turn of the timer thread leaves unchanged, histories of the line).
  \<^descr> \<open>Dmodem_Write\<close>, \<open>Dmodem_Read\<close>, \<open>Dmodem_Link\<close>, \<open>Dmodem_Api\<close> the operations: every handler, every row of
    the tables, the wait functions, the public functions and the table of connections. Each has its
    properties in the theory with the suffix \<open>_Props\<close>; \<open>Dmodem_Read_Live\<close> has the termination of reads,
    \<open>Dmodem_Read_Msg\<close> messages of several frames.
  \<^descr> \<open>Queue_C\<close>, \<open>Queue_Props\<close> \<open>queue.c\<close>, its invariant \<open>q_wf\<close> and the refinement of every sequence of
    calls to a bounded list.
  \<^descr> \<open>State_Machine\<close> \<open>state_machine.c\<close> over arbitrary guards and actions, and when its search for a
    row leaves the table.
  \<^descr> \<open>Os_Runtime\<close>, \<open>Os_Props\<close> \<open>osrt.c\<close>: the table of threads, the stack of jump buffers and the macros
    \<open>TRY\<close>, \<open>CATCH\<close>, \<open>FINALLY\<close>, \<open>END_TRY\<close> as programs (\<open>exec\<close>), compared with structured exceptions (\<open>sem\<close>).
  \<^descr> \<open>Os_Handler\<close> the default handler of exceptions and their printing, of \<open>osrt.c\<close>.
  \<^descr> \<open>Os_Layer\<close> \<open>os/arm-linux/osdep.c\<close> and the functions of \<open>osrt.c\<close> that pass on to it.
  \<^descr> \<open>Door_Override\<close> \<open>doorover.c\<close>: the displayed code and the code that opens the door.
  \<^descr> \<open>Jcm_Comm\<close>, \<open>Jcm_Props\<close> \<open>jcmBillAcceptorComm.c\<close>: checksums, sending and receiving a frame.
  \<^descr> \<open>Option_Hoare\<close> pre- and postconditions of computations that may be undefined (\<open>ensures\<close>: defined
    and right, \<open>yields\<close>: right where defined), and the tables of state machines row by row.
  \<^descr> \<open>Jcm_Mapping\<close>, \<open>Jcm_Mapping_Props\<close> \<open>id0003Mapping.m\<close>: codes and the file of currencies; lookups are
    the search for the first row.
  \<^descr> \<open>Jcm_Acceptor\<close> \<open>jcmBillAcceptorMgr.m\<close>: the record of an acceptor with its line and the trace of what
    it sends, an exchange of frames (\<open>billAcceptWriteRead\<close>, over the run of the machine inside), and the
    functions both protocols share. \<open>Jcm_States\<close> guards, actions and tables of ID003 and CCNET, the runs
    within each other (\<open>run_bills n\<close>, undefined deeper than \<open>n\<close>), the public functions, and the calls of
    the safe (\<open>do_ops\<close>). \<open>Jcm_Hex\<close> the files of firmware of CCNET.
  \<^descr> \<open>Jcm_Bills\<close> and \<open>Jcm_Ledger\<close> state what a run inside a transition promises as the locales \<open>inner_run\<close>
    (it is defined and keeps the acceptor well formed) and \<open>inner_keeps\<close> (it keeps the account of bills
    credited and ordered to be stacked) and prove that the whole machine keeps it, at every depth. \<open>Jcm_Bills_Props\<close>
    sequences of calls and bills; \<open>Jcm_Nested\<close> what nested runs lose; \<open>Jcm_Transfer\<close> firmware updates.
  \<^descr> \<open>C_Strings\<close> the strings, printed numbers and arrays that several components use.
  \<^descr> \<open>License_Util\<close>, \<open>License_Props\<close> \<open>LicUtil.c\<close>: the cipher by substitution, the lines of the file, its
    creation, verification and reading; \<open>License_Host\<close> the disc number and hardware address.
  \<^descr> \<open>Aes_Cipher\<close>, \<open>Aes_Field\<close>, \<open>Aes_Props\<close> \<open>AESencript.c\<close>, the field of 256 elements, and the equality of
    the program with AES on blocks. \<open>Dynamic_Pin\<close>, \<open>Dynamic_Pin_Props\<close> the PINs made with it.
  \<^descr> \<open>Keypad_Conf\<close> \<open>keypadconf.c\<close>: the table of the line parser, its handlers on the static arrays, the
    loops over the file. \<open>Keypad_Conf_Props\<close> follows the parser through a line, \<open>Keypad_File_Props\<close> the
    lines of a file.
  \<^descr> \<open>Keypad_Drv\<close>, \<open>Keypad_Drv_Props\<close> \<open>drv-keypadlib.c\<close> over an arbitrary device: every operation, and what
    is sent when the keypad is opened.
  \<^descr> \<open>Device_Calls\<close> the calls of the system that the device libraries make, and their answers.
  \<^descr> \<open>Lcd_Lib\<close>, \<open>Com_Port\<close>, \<open>Com_Port_Props\<close>, \<open>Tprinter\<close> display, serial ports and printer port.

  \<^bold>\<open>What is shown.\<close> Of the modem: a write that succeeds has put exactly the
  frames of its data on the line, each acknowledged before the next one; a read delivers the payloads
  of the intact frames in order of their sequence numbers; what one end writes another reads;
  connecting is exactly the handshake SYN and NACK; writing, reading and connecting return when the
  line falls silent and loses its carrier, within a bound on the turns; the checksum is the CRC-32 of
  the bit-serial definition and finds every burst of up to four bytes. Of the run-time layer: the
  queue is a bounded list, however its indices wrap; the exception macros implement structured
  exceptions within their nesting limit of 20, and lose exceptions when a block in a finally part
  handles one; threads find their own entry; the timer table is a multiset of at most 96 registrations.
  Of the bill acceptors: with protocol ID003 in normal operation no call fails; whatever the device
  answers, the bills credited and not ordered back at once are no more than the orders to stack one; a
  bill in escrow is stacked and credited once with its amount, or goes back; a firmware update carries
  the image. Of the safe's routines: codes that identify their minute, round trips of acceptor frames
  and of licences, the equality with CRC-16 and AES-128. Of the keypad: a printed entry is read back,
  the lines of a file fill consecutive elements, opening sends the loaded maps. Of the other devices: a
  printed text is displayed code by code, a serial read collects what the device delivers and stays
  within its buffer. Limits and defects are stated as theorems of their own (disconnecting polls until
  the timer thread calls a callback that was never installed, accepting never connects, a timer
  re-armed without being registered keeps the mutex, unchecked lengths, indices outside the block,
  sections that run on, a state of error that is lost, an update that starts with a stale frame, a
  dollar of currency 849).

  \<^bold>\<open>Fuel.\<close> The only loops with fuel are the engine's (\<open>proto_run\<close>,
  one unit a turn) and those that wait for the line; the bill acceptors have a bound on the nesting of
  their runs, which the blocks the device still delivers bound from above. The loops over the keypad's file end with it.
  The termination theorems give a number of turns that suffices, computed from the number of frames,
  the retries and the bytes the line still delivers, for any greater fuel as well; every other
  statement is about a run that returned, or about every amount of fuel.

  \<^bold>\<open>Not modelled.\<close> The state machines of the bill acceptors with the protocols MEI and RDM, which keep
  files and counters of their own (the public functions that branch to them take what they do as the
  argument \<open>rest\<close>), and the board of the safe with its doors and locks. The Objective-C application, which runs on the run-time of its language and a data
  base (its files are listed by component in the manifest). The variants of the device libraries for
  other platforms, and the sockets, which only call the system. The third-party libraries (expat, scew,
  the one-wire library, MD5, the headers of OpenSSL). The names of states and events that are printed
  for debugging. For the licences
  the answers of the system about disc and network, in \<open>osrt.c\<close> its thread primitives, and for the
  devices its calls are parameters.
\<close>

end
